(* ===== verification/Prelude.thy ===== *)
theory Prelude
  imports
    Complex_Main
    "HOL-Library.Char_ord"
    "HOL-Library.List_Lexorder"
    "HOL-Library.AList"
begin

section \<open>Shared vocabulary of the development\<close>

text \<open>
  What every component theory uses: the collections of rules the proofs draw on, the
  types that stand for Go's maps, times and results, and the generic facts on lists,
  options and association lists.

  A Go \<open>map[string]T\<close> is an association list with distinct keys. Go does not
  specify the order in which a map is iterated, so no definition of the development lets
  a result depend on the order of such a list; where the code sorts the keys, the model
  sorts them. A \<open>time.Time\<close> is the number of nanoseconds since the Unix epoch, a
  \<open>time.Duration\<close> a number of nanoseconds.
\<close>

named_theorems go_simps \<open>equations that evaluate the model of the Go library\<close>
named_theorems wf_intros \<open>introduction rules for well-formedness\<close>
named_theorems inv_intros \<open>rules that an operation keeps an invariant\<close>

type_synonym time = int
type_synonym duration = int
type_synonym 'v go_map = "(string \<times> 'v) list"

text \<open>The zero \<open>time.Time\<close> of Go (January 1 of year 1), in nanoseconds since the epoch.\<close>

definition zero_time :: time where
  "zero_time = - 62135596800 * 1000000000"

definition second :: duration where
  "second = 1000000000"

definition millisecond :: duration where
  "millisecond = 1000000"

definition hour :: duration where
  "hour = 3600 * second"

abbreviation get :: "'v go_map \<Rightarrow> string \<Rightarrow> 'v option" where
  "get m k \<equiv> map_of m k"

abbreviation put :: "string \<Rightarrow> 'v \<Rightarrow> 'v go_map \<Rightarrow> 'v go_map" where
  "put k v m \<equiv> AList.update k v m"

abbreviation del :: "string \<Rightarrow> 'v go_map \<Rightarrow> 'v go_map" where
  "del k m \<equiv> AList.delete k m"

abbreviation has_key :: "'v go_map \<Rightarrow> string \<Rightarrow> bool" where
  "has_key m k \<equiv> map_of m k \<noteq> None"

definition wf_map :: "'v go_map \<Rightarrow> bool" where
  "wf_map m \<longleftrightarrow> distinct (map fst m)"

lemma wf_map_Nil [simp, wf_intros]: "wf_map []"
  by (simp add: wf_map_def)

lemma wf_map_put [simp, wf_intros]: "wf_map m \<Longrightarrow> wf_map (put k v m)"
  by (simp add: wf_map_def distinct_update)

lemma wf_map_del [simp, wf_intros]: "wf_map m \<Longrightarrow> wf_map (del k m)"
  by (simp add: wf_map_def distinct_delete)

lemma get_put [simp]: "get (put k v m) k' = (if k' = k then Some v else get m k')"
  by (simp add: update_conv')

lemma get_del [simp]: "get (del k m) k' = (if k' = k then None else get m k')"
  by (simp add: delete_conv')

lemma filter_map_of:
  "distinct (map fst m) \<Longrightarrow>
   map_of (filter (\<lambda>(k, v). P k v) m) k =
   (case map_of m k of None \<Rightarrow> None | Some v \<Rightarrow> if P k v then Some v else None)"
  by (induction m)
    (auto split: option.splits dest!: map_of_SomeD simp: map_of_eq_None_iff image_iff)

lemma wf_map_filter [simp, wf_intros]: "wf_map m \<Longrightarrow> wf_map (filter P m)"
  by (simp add: wf_map_def distinct_map_filter)

lemma get_SomeD: "get m k = Some v \<Longrightarrow> (k, v) \<in> set m"
  by (rule map_of_SomeD)

lemma get_eq_Some_iff: "wf_map m \<Longrightarrow> get m k = Some v \<longleftrightarrow> (k, v) \<in> set m"
  by (simp add: wf_map_def map_of_eq_Some_iff)

subsection \<open>Lists\<close>

text \<open>The last \<open>n\<close> elements of a list: Go's \<open>xs[len(xs)-n:]\<close>.\<close>

definition last_n :: "nat \<Rightarrow> 'a list \<Rightarrow> 'a list" where
  "last_n n xs = drop (length xs - n) xs"

lemma length_last_n [simp]: "n \<le> length xs \<Longrightarrow> length (last_n n xs) = n"
  by (simp add: last_n_def)

lemma set_last_n: "set (last_n n xs) \<subseteq> set xs"
  by (simp add: last_n_def set_drop_subset)

lemma last_n_append:
  "n \<le> length ys \<Longrightarrow> last_n n (xs @ ys) = last_n n ys"
  by (simp add: last_n_def)

lemma last_n_full [simp]: "last_n (length xs) xs = xs"
  by (simp add: last_n_def)

text \<open>The first element of a list that satisfies a predicate: a \<open>for\<close> loop that returns.\<close>

fun find_first :: "('a \<Rightarrow> bool) \<Rightarrow> 'a list \<Rightarrow> 'a option" where
  "find_first P [] = None"
| "find_first P (x # xs) = (if P x then Some x else find_first P xs)"

lemma find_first_Some:
  "find_first P xs = Some x \<Longrightarrow> x \<in> set xs \<and> P x"
  by (induction xs) (auto split: if_splits)

lemma find_first_None: "find_first P xs = None \<longleftrightarrow> (\<forall>x \<in> set xs. \<not> P x)"
  by (induction xs) auto

lemma find_first_append:
  "find_first P (xs @ ys) =
   (case find_first P xs of Some x \<Rightarrow> Some x | None \<Rightarrow> find_first P ys)"
  by (induction xs) auto

text \<open>Insertion of a list of keys, each with its value, into a map.\<close>

definition put_all :: "'v go_map \<Rightarrow> 'v go_map \<Rightarrow> 'v go_map" where
  "put_all kvs m = fold (\<lambda>(k, v). put k v) kvs m"

lemma put_all_simps [simp]:
  "put_all [] m = m"
  "put_all ((k, v) # kvs) m = put_all kvs (put k v m)"
  by (simp_all add: put_all_def)

lemma wf_map_put_all [simp, wf_intros]: "wf_map m \<Longrightarrow> wf_map (put_all kvs m)"
  by (induction kvs arbitrary: m) auto

lemma get_put_all:
  "wf_map kvs \<Longrightarrow> get (put_all kvs m) k =
   (case get kvs k of Some v \<Rightarrow> Some v | None \<Rightarrow> get m k)"
proof (induction kvs arbitrary: m)
  case Nil
  then show ?case by simp
next
  case (Cons kv kvs)
  obtain k1 v1 where kv: "kv = (k1, v1)" by force
  from Cons.prems have "wf_map kvs" and "get kvs k1 = None"
    by (auto simp: kv wf_map_def map_of_eq_None_iff)
  with Cons.IH show ?case by (auto simp: kv split: option.splits)
qed

subsection \<open>Results of fallible operations\<close>

definition is_ok :: "'e + 'a \<Rightarrow> bool" where
  "is_ok r \<longleftrightarrow> (case r of Inr _ \<Rightarrow> True | Inl _ \<Rightarrow> False)"

lemma is_ok_simps [simp]: "is_ok (Inr x)" "\<not> is_ok (Inl e)"
  by (simp_all add: is_ok_def)

lemma is_ok_iff: "is_ok r \<longleftrightarrow> (\<exists>x. r = Inr x)"
  by (cases r) auto

text \<open>Sequencing: \<open>if err != nil { return err }\<close> after a call, and a loop over such calls.\<close>

definition ok_then :: "'e + 'a \<Rightarrow> ('a \<Rightarrow> 'e + 'b) \<Rightarrow> 'e + 'b" where
  "ok_then r f = (case r of Inl e \<Rightarrow> Inl e | Inr x \<Rightarrow> f x)"

lemma ok_then_simps [simp]: "ok_then (Inl e) f = Inl e" "ok_then (Inr x) f = f x"
  by (simp_all add: ok_then_def)

lemma ok_then_Inr: "ok_then r f = Inr y \<longleftrightarrow> (\<exists>x. r = Inr x \<and> f x = Inr y)"
  by (cases r) auto

lemma ok_then_Inl: "ok_then r f = Inl e \<longleftrightarrow> r = Inl e \<or> (\<exists>x. r = Inr x \<and> f x = Inl e)"
  by (cases r) auto

fun each :: "('a \<Rightarrow> 's \<Rightarrow> 'e + 's) \<Rightarrow> 'a list \<Rightarrow> 's \<Rightarrow> 'e + 's" where
  "each f [] s = Inr s"
| "each f (x # xs) s = ok_then (f x s) (each f xs)"

lemma each_append: "each f (xs @ ys) s = ok_then (each f xs s) (each f ys)"
  by (induction xs arbitrary: s) (auto simp: ok_then_def split: sum.splits)

lemma each_keeps:
  assumes "each f xs s = Inr t" and "P s"
    and "\<And>x a b. x \<in> set xs \<Longrightarrow> f x a = Inr b \<Longrightarrow> P a \<Longrightarrow> P b"
  shows "P t"
  using assms
proof (induction xs arbitrary: s)
  case Nil
  then show ?case by simp
next
  case (Cons x xs)
  then obtain u where "f x s = Inr u" and "each f xs u = Inr t" by (auto simp: ok_then_Inr)
  with Cons show ?case by (metis list.set_intros)
qed

lemma each_ok_fold:
  assumes "\<And>x a. x \<in> set xs \<Longrightarrow> f x a = Inr (g x a)"
  shows "each f xs s = Inr (fold g xs s)"
  using assms by (induction xs arbitrary: s) auto

text \<open>What a loop makes of a part of the state, when each step changes it by a function.\<close>

lemma each_fold:
  assumes "each f xs s = Inr t" and "\<And>x a b. x \<in> set xs \<Longrightarrow> f x a = Inr b \<Longrightarrow> g b = h x (g a)"
  shows "g t = fold h xs (g s)"
  using assms
proof (induction xs arbitrary: s)
  case Nil
  then show ?case by simp
next
  case (Cons x xs)
  then obtain u where u: "f x s = Inr u" and "each f xs u = Inr t" by (auto simp: ok_then_Inr)
  with Cons have "g t = fold h xs (g u)" by simp
  with Cons.prems(2) [OF _ u] show ?case by simp
qed

lemma fold_skip: "fold (\<lambda>_ y. y) xs z = z"
  by (induction xs) auto

lemma each_same:
  assumes "each f xs s = Inr t" and "\<And>x a b. f x a = Inr b \<Longrightarrow> g b = g a"
  shows "g t = g s"
  using each_fold [OF assms(1), of g "\<lambda>_ y. y"] assms(2) by (simp add: fold_skip)

lemma fold_insert_image: "fold (\<lambda>x. insert (k x)) xs A = A \<union> k ` set xs"
  by (induction xs arbitrary: A) auto

lemma each_insert:
  assumes "each f xs s = Inr t" and "\<And>x a b. f x a = Inr b \<Longrightarrow> g b = insert (k x) (g a)"
  shows "g t = g s \<union> k ` set xs"
  using each_fold [OF assms(1), of g "\<lambda>x. insert (k x)"] assms(2) by (simp add: fold_insert_image)

text \<open>The values of a list of results, or the first error.\<close>

fun all_ok :: "('e + 'a) list \<Rightarrow> 'e + 'a list" where
  "all_ok [] = Inr []"
| "all_ok (r # rs) = ok_then r (\<lambda>x. ok_then (all_ok rs) (\<lambda>xs. Inr (x # xs)))"

lemma all_ok_Inr: "all_ok rs = Inr xs \<longleftrightarrow> rs = map Inr xs"
proof (induction rs arbitrary: xs)
  case (Cons r rs)
  then show ?case by (cases r; cases xs) (auto simp: ok_then_Inr)
qed auto

lemma all_ok_map_Inr [simp]: "all_ok (map Inr xs) = Inr xs"
  by (simp add: all_ok_Inr)

end
