(* ===== verification/GoStrings.thy ===== *)
theory GoStrings
  imports Prelude
begin

section \<open>Go strings\<close>

text \<open>
  A Go \<open>string\<close> is a sequence of bytes, here HOL's \<open>string\<close> (a list of 8-bit
  characters): \<open>length\<close> is Go's \<open>len\<close>, and non-ASCII text is its UTF-8 encoding.
  This theory models the functions of Go's \<open>strings\<close>, \<open>strconv\<close> and \<open>unicode/utf8\<close>
  packages that the program calls, on all byte strings, invalid UTF-8 included. Upper
  and lower case are those of ASCII: the program compares the results with ASCII
  keywords only.
\<close>

subsection \<open>Prefixes, substrings, splitting and joining\<close>

fun has_prefix :: "string \<Rightarrow> string \<Rightarrow> bool" where
  "has_prefix s [] = True"
| "has_prefix [] (p # ps) = False"
| "has_prefix (c # s) (p # ps) = (c = p \<and> has_prefix s ps)"

lemma has_prefix_iff: "has_prefix s p \<longleftrightarrow> (\<exists>r. s = p @ r)"
  by (induction s p rule: has_prefix.induct) auto

definition has_suffix :: "string \<Rightarrow> string \<Rightarrow> bool" where
  "has_suffix s p = has_prefix (rev s) (rev p)"

definition trim_prefix :: "string \<Rightarrow> string \<Rightarrow> string" where
  "trim_prefix s p = (if has_prefix s p then drop (length p) s else s)"

lemma trim_prefix_append [simp]: "trim_prefix (p @ s) p = s"
  by (auto simp: trim_prefix_def has_prefix_iff)

lemma trim_prefix_no [simp]: "\<not> has_prefix s p \<Longrightarrow> trim_prefix s p = s"
  by (simp add: trim_prefix_def)

fun contains_str :: "string \<Rightarrow> string \<Rightarrow> bool" where
  "contains_str [] p = (p = [])"
| "contains_str (c # s) p = (has_prefix (c # s) p \<or> contains_str s p)"

lemma contains_str_iff: "contains_str s p \<longleftrightarrow> (\<exists>a b. s = a @ p @ b)"
proof (induction s p rule: contains_str.induct)
  case (1 p)
  then show ?case by auto
next
  case (2 c s p)
  have "(\<exists>a b. c # s = a @ p @ b) \<longleftrightarrow> (\<exists>b. c # s = p @ b) \<or> (\<exists>a b. s = a @ p @ b)"
    by (metis append_Cons append_Nil list.exhaust list.inject)
  with 2 show ?case by (simp add: has_prefix_iff)
qed

text \<open>\<open>strings.Split(s, sep)\<close> for a separator of one byte.\<close>

fun split_on :: "char \<Rightarrow> string \<Rightarrow> string list" where
  "split_on d [] = [[]]"
| "split_on d (c # s) =
     (if c = d then [] # split_on d s
      else (case split_on d s of [] \<Rightarrow> [[c]] | p # ps \<Rightarrow> (c # p) # ps))"

lemma split_on_ne [simp]: "split_on d s \<noteq> []"
  by (induction s) (auto split: list.splits)

fun join_with :: "string \<Rightarrow> string list \<Rightarrow> string" where
  "join_with sep [] = []"
| "join_with sep [x] = x"
| "join_with sep (x # y # ys) = x @ sep @ join_with sep (y # ys)"

lemma split_on_no_sep: "d \<notin> set s \<Longrightarrow> split_on d s = [s]"
  by (induction s) auto

lemma split_on_append_sep:
  "d \<notin> set p \<Longrightarrow> split_on d (p @ d # s) = p # split_on d s"
  by (induction p) auto

lemma split_on_parts: "p \<in> set (split_on d s) \<Longrightarrow> d \<notin> set p"
  by (induction s arbitrary: p) (auto split: list.splits if_splits)

lemma join_split: "join_with [d] (split_on d s) = s"
proof (induction s)
  case (Cons c s)
  obtain p ps where ps: "split_on d s = p # ps" by (meson list.exhaust split_on_ne)
  with Cons show ?case by (cases ps) auto
qed simp

lemma split_join:
  "ps \<noteq> [] \<Longrightarrow> \<forall>p \<in> set ps. d \<notin> set p \<Longrightarrow> split_on d (join_with [d] ps) = ps"
  by (induction "[d]" ps rule: join_with.induct)
    (auto simp: split_on_no_sep split_on_append_sep)

text \<open>\<open>strings.ReplaceAll\<close> of one byte.\<close>

definition replace_char :: "char \<Rightarrow> string \<Rightarrow> string \<Rightarrow> string" where
  "replace_char c t s = concat (map (\<lambda>x. if x = c then t else [x]) s)"

lemma replace_char_gone: "c \<notin> set t \<Longrightarrow> c \<notin> set (replace_char c t s)"
  by (auto simp: replace_char_def)

subsection \<open>Case and white space\<close>

definition ord :: "char \<Rightarrow> nat" where
  "ord c = of_char c"

definition byte :: "nat \<Rightarrow> char" where
  "byte n = char_of n"

definition upper_char :: "char \<Rightarrow> char" where
  "upper_char c = (if 97 \<le> ord c \<and> ord c \<le> 122 then byte (ord c - 32) else c)"

definition lower_char :: "char \<Rightarrow> char" where
  "lower_char c = (if 65 \<le> ord c \<and> ord c \<le> 90 then byte (ord c + 32) else c)"

definition to_upper :: "string \<Rightarrow> string" where
  "to_upper s = map upper_char s"

definition to_lower :: "string \<Rightarrow> string" where
  "to_lower s = map lower_char s"

text \<open>
  \<open>strings.TrimSpace\<close> removes the Unicode white space: the six ASCII characters, U+0085,
  U+00A0, U+1680, U+2000 to U+200A, U+2028, U+2029, U+202F, U+205F and U+3000.
\<close>

definition ascii_space :: "nat \<Rightarrow> bool" where
  "ascii_space n \<longleftrightarrow> n = 32 \<or> (9 \<le> n \<and> n \<le> 13)"

definition space3 :: "nat \<Rightarrow> nat \<Rightarrow> nat \<Rightarrow> bool" where
  "space3 a b c \<longleftrightarrow>
     (a = 0xE1 \<and> b = 0x9A \<and> c = 0x80) \<or>
     (a = 0xE2 \<and> b = 0x80 \<and> ((0x80 \<le> c \<and> c \<le> 0x8A) \<or> c = 0xA8 \<or> c = 0xA9 \<or> c = 0xAF)) \<or>
     (a = 0xE2 \<and> b = 0x81 \<and> c = 0x9F) \<or>
     (a = 0xE3 \<and> b = 0x80 \<and> c = 0x80)"

fun trim_left :: "string \<Rightarrow> string" where
  "trim_left [] = []"
| "trim_left (a # s) =
     (if ascii_space (ord a) then trim_left s
      else (case s of
        [] \<Rightarrow> a # s
      | b # t \<Rightarrow>
          if ord a = 0xC2 \<and> (ord b = 0x85 \<or> ord b = 0xA0) then trim_left t
          else (case t of
            [] \<Rightarrow> a # s
          | c # u \<Rightarrow> if space3 (ord a) (ord b) (ord c) then trim_left u else a # s)))"

text \<open>The same from the right, on the reversed string: the bytes of a rune come last first.\<close>

fun trim_left_rev :: "string \<Rightarrow> string" where
  "trim_left_rev [] = []"
| "trim_left_rev (a # s) =
     (if ascii_space (ord a) then trim_left_rev s
      else (case s of
        [] \<Rightarrow> a # s
      | b # t \<Rightarrow>
          if ord b = 0xC2 \<and> (ord a = 0x85 \<or> ord a = 0xA0) then trim_left_rev t
          else (case t of
            [] \<Rightarrow> a # s
          | c # u \<Rightarrow> if space3 (ord c) (ord b) (ord a) then trim_left_rev u else a # s)))"

definition trim_space :: "string \<Rightarrow> string" where
  "trim_space s = rev (trim_left_rev (rev (trim_left s)))"

lemma trim_space_Nil [simp]: "trim_space [] = []"
  by (simp add: trim_space_def)

declare trim_left.simps(2) [simp del] trim_left_rev.simps(2) [simp del]

lemma length_trim_left: "length (trim_left s) \<le> length s"
proof (induction s rule: length_induct)
  case (1 s)
  then have IH: "length t < length s \<Longrightarrow> length (trim_left t) \<le> length s" for t
    by (meson le_trans less_imp_le_nat)
  show ?case
  proof (cases s)
    case (Cons a t)
    show ?thesis
      using IH [of t] IH [of "tl t"] IH [of "tl (tl t)"]
      unfolding Cons trim_left.simps(2) [of a t] by (auto split: list.split)
  qed simp
qed

lemma length_trim_left_rev: "length (trim_left_rev s) \<le> length s"
proof (induction s rule: length_induct)
  case (1 s)
  then have IH: "length t < length s \<Longrightarrow> length (trim_left_rev t) \<le> length s" for t
    by (meson le_trans less_imp_le_nat)
  show ?case
  proof (cases s)
    case (Cons a t)
    show ?thesis
      using IH [of t] IH [of "tl t"] IH [of "tl (tl t)"]
      unfolding Cons trim_left_rev.simps(2) [of a t] by (auto split: list.split)
  qed simp
qed

lemma length_trim_space: "length (trim_space s) \<le> length s"
  using length_trim_left [of s] length_trim_left_rev [of "rev (trim_left s)"]
  by (simp add: trim_space_def)

subsection \<open>Decimal numbers\<close>

definition digit_char :: "nat \<Rightarrow> char" where
  "digit_char d = byte (48 + d)"

definition is_digit :: "char \<Rightarrow> bool" where
  "is_digit c \<longleftrightarrow> 48 \<le> ord c \<and> ord c \<le> 57"

text \<open>The decimal digits of a natural number, given as an \<open>int\<close>.\<close>

function int_digits :: "int \<Rightarrow> string" where
  "int_digits n =
     (if n < 10 then [digit_char (nat n)]
      else int_digits (n div 10) @ [digit_char (nat (n mod 10))])"
  by pat_completeness auto
termination
  by (relation "measure nat") auto

declare int_digits.simps [simp del]

text \<open>\<open>strconv.Itoa\<close>.\<close>

definition itoa :: "int \<Rightarrow> string" where
  "itoa i = (if i < 0 then CHR ''-'' # int_digits (- i) else int_digits i)"

abbreviation nat_str :: "nat \<Rightarrow> string" where
  "nat_str n \<equiv> itoa (int n)"

fun digits_val :: "int \<Rightarrow> string \<Rightarrow> int option" where
  "digits_val acc [] = Some acc"
| "digits_val acc (c # s) =
     (if is_digit c then digits_val (10 * acc + (int (ord c) - 48)) s else None)"

text \<open>
  \<open>strconv.ParseUint(s, 10, bits)\<close>: no sign, at least one digit, an error where the value
  does not fit \<open>bits\<close> bits.
\<close>

definition parse_uint :: "nat \<Rightarrow> string \<Rightarrow> int option" where
  "parse_uint bits s =
     (if s = [] then None
      else (case digits_val 0 s of
        None \<Rightarrow> None
      | Some n \<Rightarrow> if n < 2 ^ bits then Some n else None))"

text \<open>\<open>strconv.Atoi\<close>: an optional sign, then a 64-bit signed value.\<close>

definition atoi :: "string \<Rightarrow> int option" where
  "atoi s =
     (case s of
        [] \<Rightarrow> None
      | c # t \<Rightarrow>
          let neg = (c = CHR ''-''); ds = (if c = CHR ''-'' \<or> c = CHR ''+'' then t else s)
          in if ds = [] then None
             else (case digits_val 0 ds of
               None \<Rightarrow> None
             | Some n \<Rightarrow>
                 if neg then (if n \<le> 2 ^ 63 then Some (- n) else None)
                 else (if n < 2 ^ 63 then Some n else None)))"

lemma ord_byte: "n < 256 \<Longrightarrow> ord (byte n) = n"
  by (simp add: ord_def byte_def)

lemma byte_ord [simp]: "byte (ord c) = c"
  by (simp add: ord_def byte_def)

lemma ord_less [simp]: "ord c < 256"
  by (simp add: ord_def)

lemma is_digit_digit_char [simp]: "d < 10 \<Longrightarrow> is_digit (digit_char d)"
  by (simp add: is_digit_def digit_char_def ord_byte)

lemma ord_digit_char [simp]: "d < 10 \<Longrightarrow> ord (digit_char d) = 48 + d"
  by (simp add: digit_char_def ord_byte)

lemma digits_val_int_digits:
  "0 \<le> n \<Longrightarrow> digits_val a (int_digits n @ s) = digits_val (a * 10 ^ length (int_digits n) + n) s"
proof (induction n arbitrary: s rule: int_digits.induct)
  case (1 n)
  show ?case
  proof (cases "n < 10")
    case True
    with 1 show ?thesis by (simp add: int_digits.simps [of n] mult.commute)
  next
    case False
    with 1 show ?thesis by (simp add: int_digits.simps [of n] algebra_simps)
  qed
qed

lemma int_digits_ne [simp]: "int_digits n \<noteq> []"
  by (subst int_digits.simps) simp

lemma digits_val_int_digits0 [simp]: "0 \<le> n \<Longrightarrow> digits_val 0 (int_digits n) = Some n"
  using digits_val_int_digits [of n 0 "[]"] by simp

lemma int_digits_digits: "0 \<le> n \<Longrightarrow> c \<in> set (int_digits n) \<Longrightarrow> is_digit c"
proof (induction n rule: int_digits.induct)
  case (1 n)
  then show ?case
    by (subst (asm) int_digits.simps) (auto split: if_splits)
qed

lemma parse_uint_itoa: "0 \<le> n \<Longrightarrow> n < 2 ^ bits \<Longrightarrow> parse_uint bits (itoa n) = Some n"
  by (simp add: parse_uint_def itoa_def)

lemma digits_val_nonneg: "0 \<le> a \<Longrightarrow> digits_val a s = Some n \<Longrightarrow> 0 \<le> n"
  by (induction a s rule: digits_val.induct) (auto simp: is_digit_def split: if_splits)

lemma parse_uint_bound: "parse_uint bits s = Some n \<Longrightarrow> 0 \<le> n \<and> n < 2 ^ bits"
  by (auto simp: parse_uint_def split: if_splits option.splits dest: digits_val_nonneg [rotated])

lemma itoa_inj: "0 \<le> m \<Longrightarrow> 0 \<le> n \<Longrightarrow> itoa m = itoa n \<Longrightarrow> m = n"
  by (metis digits_val_int_digits0 itoa_def leD option.inject)

lemma not_digit_minus: "\<not> is_digit (CHR ''-'')" "\<not> is_digit (CHR ''+'')"
  by (simp_all add: is_digit_def ord_def)

lemma atoi_itoa: "- (2 ^ 63) \<le> n \<Longrightarrow> n < 2 ^ 63 \<Longrightarrow> atoi (itoa n) = Some n"
proof (cases "n < 0")
  case False
  assume "n < 2 ^ 63"
  obtain c t where ct: "int_digits n = c # t" by (meson list.exhaust int_digits_ne)
  have "is_digit c" using int_digits_digits [of n c] False ct by simp
  then have "c \<noteq> CHR ''-''" "c \<noteq> CHR ''+''" using not_digit_minus by auto
  with False ct \<open>n < 2 ^ 63\<close> digits_val_int_digits0 [of n] show ?thesis
    by (simp add: atoi_def itoa_def del: digits_val_int_digits0)
qed (simp add: atoi_def itoa_def)

subsection \<open>Runes\<close>

text \<open>
  \<open>utf8.DecodeRune\<close>: the rune at the front of a non-empty string and the number of bytes
  it takes; a byte that starts no valid encoding is the replacement rune U+FFFD and takes
  one byte. The bounds on the second byte exclude overlong forms, surrogates and values
  above U+10FFFF.
\<close>

definition cont :: "char \<Rightarrow> bool" where
  "cont c \<longleftrightarrow> 0x80 \<le> ord c \<and> ord c \<le> 0xBF"

definition second_ok :: "nat \<Rightarrow> nat \<Rightarrow> bool" where
  "second_ok a b \<longleftrightarrow>
     (if a = 0xE0 then 0xA0 \<le> b \<and> b \<le> 0xBF
      else if a = 0xED then 0x80 \<le> b \<and> b \<le> 0x9F
      else if a = 0xF0 then 0x90 \<le> b \<and> b \<le> 0xBF
      else if a = 0xF4 then 0x80 \<le> b \<and> b \<le> 0x8F
      else 0x80 \<le> b \<and> b \<le> 0xBF)"

definition rune_error :: nat where
  "rune_error = 0xFFFD"

fun decode_rune :: "string \<Rightarrow> nat \<times> nat" where
  "decode_rune [] = (rune_error, 0)"
| "decode_rune (a # s) =
     (let x = ord a in
      if x < 0x80 then (x, 1)
      else if 0xC2 \<le> x \<and> x \<le> 0xDF then
        (case s of
           b # _ \<Rightarrow> if cont b then ((x - 0xC0) * 64 + (ord b - 0x80), 2) else (rune_error, 1)
         | _ \<Rightarrow> (rune_error, 1))
      else if 0xE0 \<le> x \<and> x \<le> 0xEF then
        (case s of
           b # c # _ \<Rightarrow>
             if second_ok x (ord b) \<and> cont c
             then ((x - 0xE0) * 4096 + (ord b - 0x80) * 64 + (ord c - 0x80), 3)
             else (rune_error, 1)
         | _ \<Rightarrow> (rune_error, 1))
      else if 0xF0 \<le> x \<and> x \<le> 0xF4 then
        (case s of
           b # c # d # _ \<Rightarrow>
             if second_ok x (ord b) \<and> cont c \<and> cont d
             then ((x - 0xF0) * 262144 + (ord b - 0x80) * 4096 + (ord c - 0x80) * 64 + (ord d - 0x80), 4)
             else (rune_error, 1)
         | _ \<Rightarrow> (rune_error, 1))
      else (rune_error, 1))"

lemma decode_rune_width: "s \<noteq> [] \<Longrightarrow> 1 \<le> snd (decode_rune s) \<and> snd (decode_rune s) \<le> length s"
  by (cases s) (auto simp: Let_def split: list.splits)

text \<open>The conversion \<open>[]rune(s)\<close>; every step consumes at least one byte, so \<open>length s\<close> steps are enough.\<close>

fun runes_fuel :: "nat \<Rightarrow> string \<Rightarrow> nat list" where
  "runes_fuel 0 s = []"
| "runes_fuel (Suc n) s =
     (if s = [] then [] else (let (r, w) = decode_rune s in r # runes_fuel n (drop w s)))"

definition runes :: "string \<Rightarrow> nat list" where
  "runes s = runes_fuel (length s) s"

text \<open>The UTF-8 encoding of a rune, and the conversion \<open>string(runes)\<close>.\<close>

definition encode_rune :: "nat \<Rightarrow> string" where
  "encode_rune r0 =
     (let r = (if r0 > 0x10FFFF \<or> (0xD800 \<le> r0 \<and> r0 \<le> 0xDFFF) then rune_error else r0) in
      if r < 0x80 then [byte r]
      else if r < 0x800 then [byte (0xC0 + r div 64), byte (0x80 + r mod 64)]
      else if r < 0x10000 then
        [byte (0xE0 + r div 4096), byte (0x80 + (r div 64) mod 64), byte (0x80 + r mod 64)]
      else
        [byte (0xF0 + r div 262144), byte (0x80 + (r div 4096) mod 64),
         byte (0x80 + (r div 64) mod 64), byte (0x80 + r mod 64)])"

definition of_runes :: "nat list \<Rightarrow> string" where
  "of_runes rs = concat (map encode_rune rs)"

lemma runes_fuel_more: "length s \<le> n \<Longrightarrow> runes_fuel n s = runes_fuel (length s) s"
proof (induction n arbitrary: s rule: less_induct)
  case (less n)
  show ?case
  proof (cases "s = []")
    case True
    then show ?thesis by (cases n) auto
  next
    case False
    then obtain m where n: "n = Suc m" using less.prems by (cases n) auto
    obtain l where l: "length s = Suc l" using False by (cases s) auto
    obtain r w where rw: "decode_rune s = (r, w)" by force
    have w: "1 \<le> w" "w \<le> length s" using decode_rune_width [OF False] by (simp_all add: rw)
    have "runes_fuel m (drop w s) = runes_fuel (length (drop w s)) (drop w s)"
      using less.IH [of m "drop w s"] less.prems w n l by auto
    moreover have "runes_fuel l (drop w s) = runes_fuel (length (drop w s)) (drop w s)"
      using less.IH [of l "drop w s"] less.prems w n l by auto
    ultimately show ?thesis using False n l rw by simp
  qed
qed

lemma runes_Nil [simp]: "runes [] = []"
  by (simp add: runes_def)

lemma runes_step:
  assumes "s \<noteq> []"
  shows "runes s = fst (decode_rune s) # runes (drop (snd (decode_rune s)) s)"
proof -
  obtain l where l: "length s = Suc l" using assms by (cases s) auto
  obtain r w where rw: "decode_rune s = (r, w)" by force
  have "1 \<le> w" using decode_rune_width [OF assms] by (simp add: rw)
  then have "length (drop w s) \<le> l" using l by auto
  from runes_fuel_more [OF this] show ?thesis using assms l rw by (simp add: runes_def)
qed

lemma length_runes: "length (runes s) \<le> length s"
proof (induction s rule: length_induct)
  case (1 s)
  show ?case
  proof (cases "s = []")
    case False
    let ?t = "drop (snd (decode_rune s)) s"
    have w: "1 \<le> snd (decode_rune s)" using decode_rune_width [OF False] by simp
    have "length ?t < length s" using w False by (cases s) auto
    with 1 have "length (runes ?t) \<le> length ?t" by blast
    with w \<open>length ?t < length s\<close> show ?thesis by (simp add: runes_step [OF False])
  qed simp
qed

lemma ascii_runes: "\<forall>c \<in> set s. ord c < 128 \<Longrightarrow> runes s = map ord s"
proof (induction s)
  case (Cons a s)
  then show ?case by (subst runes_step) (auto simp: Let_def)
qed simp

end
