(* ===== verification/GoFloat.thy ===== *)
theory GoFloat
  imports GoStrings
begin

section \<open>Go's float64\<close>

text \<open>
  IEEE 754 binary64 values as the program uses them: not-a-number, the two infinities,
  the negative zero and the finite numbers, each the rational number it denotes.
  Arithmetic computes the exact rational result and rounds it to the nearest binary64
  value, ties to even, with gradual underflow and overflow to an infinity. Comparison is
  exact. Also here: \<open>strconv.ParseFloat\<close>, \<open>strconv.FormatFloat(v, 'f', -1, 64)\<close>, the
  \<open>%v\<close> form that \<open>fmt.Sprint\<close> prints and the form of \<open>encoding/json\<close>.
\<close>

datatype f64 = NaN | PInf | NInf | NegZero | Fin rat

definition pow2 :: "int \<Rightarrow> rat" where
  "pow2 k = (if 0 \<le> k then 2 ^ nat k else 1 / 2 ^ nat (- k))"

definition pow10 :: "int \<Rightarrow> rat" where
  "pow10 k = (if 0 \<le> k then 10 ^ nat k else 1 / 10 ^ nat (- k))"

text \<open>The number of binary digits of a positive integer.\<close>

function bit_length :: "int \<Rightarrow> int" where
  "bit_length n = (if n \<le> 0 then 0 else 1 + bit_length (n div 2))"
  by pat_completeness auto
termination
  by (relation "measure nat") auto

declare bit_length.simps [simp del]

text \<open>The exponent of the leading binary digit of a positive rational.\<close>

definition bin_exp :: "rat \<Rightarrow> int" where
  "bin_exp x =
     (let (n, d) = quotient_of x; k = bit_length n - bit_length d
      in if pow2 k \<le> x then k else k - 1)"

definition round_even :: "rat \<Rightarrow> int" where
  "round_even x =
     (let f = \<lfloor>x\<rfloor>; d = x - of_int f
      in if d < 1 / 2 then f else if 1 / 2 < d then f + 1 else if even f then f else f + 1)"

text \<open>Rounding to the nearest binary64 value: 53 binary digits, the last at 2^-1074 or above.\<close>

definition rnd :: "rat \<Rightarrow> f64" where
  "rnd x =
     (if x = 0 then Fin 0
      else let e = max (bin_exp \<bar>x\<bar> - 52) (- 1074);
               y = of_int (round_even (\<bar>x\<bar> / pow2 e)) * pow2 e
           in if pow2 1024 \<le> y then (if 0 < x then PInf else NInf)
              else if y = 0 then (if 0 < x then Fin 0 else NegZero)
              else if 0 < x then Fin y else Fin (- y))"

definition f64_of_int :: "int \<Rightarrow> f64" where
  "f64_of_int n = rnd (of_int n)"

fun f64_val :: "f64 \<Rightarrow> rat option" where
  "f64_val (Fin x) = Some x"
| "f64_val NegZero = Some 0"
| "f64_val _ = None"

definition is_nan :: "f64 \<Rightarrow> bool" where
  "is_nan x \<longleftrightarrow> x = NaN"

definition is_inf :: "f64 \<Rightarrow> bool" where
  "is_inf x \<longleftrightarrow> x = PInf \<or> x = NInf"

definition is_finite :: "f64 \<Rightarrow> bool" where
  "is_finite x \<longleftrightarrow> f64_val x \<noteq> None"

lemma finite_cases: "is_finite x \<longleftrightarrow> \<not> is_nan x \<and> \<not> is_inf x"
  by (cases x) (auto simp: is_finite_def is_nan_def is_inf_def)

subsection \<open>Comparison\<close>

fun f64_lt :: "f64 \<Rightarrow> f64 \<Rightarrow> bool" where
  "f64_lt NaN y = False"
| "f64_lt x NaN = False"
| "f64_lt PInf y = False"
| "f64_lt x NInf = False"
| "f64_lt NInf y = True"
| "f64_lt x PInf = True"
| "f64_lt NegZero NegZero = False"
| "f64_lt NegZero (Fin y) = (0 < y)"
| "f64_lt (Fin x) NegZero = (x < 0)"
| "f64_lt (Fin x) (Fin y) = (x < y)"

fun f64_eq :: "f64 \<Rightarrow> f64 \<Rightarrow> bool" where
  "f64_eq NaN y = False"
| "f64_eq x NaN = False"
| "f64_eq PInf y = (y = PInf)"
| "f64_eq NInf y = (y = NInf)"
| "f64_eq NegZero y = (f64_val y = Some 0)"
| "f64_eq (Fin x) y = (f64_val y = Some x)"

definition f64_le :: "f64 \<Rightarrow> f64 \<Rightarrow> bool" where
  "f64_le x y \<longleftrightarrow> f64_lt x y \<or> f64_eq x y"

definition f64_gt :: "f64 \<Rightarrow> f64 \<Rightarrow> bool" where
  "f64_gt x y \<longleftrightarrow> f64_lt y x"

definition f64_ge :: "f64 \<Rightarrow> f64 \<Rightarrow> bool" where
  "f64_ge x y \<longleftrightarrow> f64_le y x"

lemma f64_eq_sym: "f64_eq x y = f64_eq y x"
  by (cases x; cases y) auto

lemma f64_eq_trans: "f64_eq x y \<Longrightarrow> f64_eq y z \<Longrightarrow> f64_eq x z"
  by (cases x; cases y; cases z) auto

lemma f64_eq_refl: "f64_eq x x \<longleftrightarrow> \<not> is_nan x"
  by (cases x) (auto simp: is_nan_def)

lemma f64_lt_trans: "f64_lt x y \<Longrightarrow> f64_lt y z \<Longrightarrow> f64_lt x z"
  by (cases x; cases y; cases z) auto

lemma f64_lt_irrefl [simp]: "\<not> f64_lt x x"
  by (cases x) auto

lemma f64_lt_asym: "f64_lt x y \<Longrightarrow> \<not> f64_lt y x"
  using f64_lt_irrefl f64_lt_trans by blast

lemma f64_trichotomy:
  "\<not> is_nan x \<Longrightarrow> \<not> is_nan y \<Longrightarrow> f64_lt x y \<or> f64_eq x y \<or> f64_lt y x"
  by (cases x; cases y) (auto simp: is_nan_def)

lemma f64_lt_eq: "f64_lt x y \<Longrightarrow> \<not> f64_eq x y"
  by (cases x; cases y) auto

lemma f64_le_total: "\<not> is_nan x \<Longrightarrow> \<not> is_nan y \<Longrightarrow> f64_le x y \<longleftrightarrow> \<not> f64_lt y x"
  unfolding f64_le_def using f64_trichotomy f64_lt_asym f64_lt_eq f64_eq_sym by blast

lemma f64_le_trans: "f64_le x y \<Longrightarrow> f64_le y z \<Longrightarrow> f64_le x z"
  by (cases x; cases y; cases z) (auto simp: f64_le_def)

lemma f64_le_lt_trans: "f64_le x y \<Longrightarrow> f64_lt y z \<Longrightarrow> f64_lt x z"
  by (cases x; cases y; cases z) (auto simp: f64_le_def)

lemma f64_lt_le_trans: "f64_lt x y \<Longrightarrow> f64_le y z \<Longrightarrow> f64_lt x z"
  by (cases x; cases y; cases z) (auto simp: f64_le_def)

lemma f64_nan_cmp [simp]:
  "\<not> f64_lt NaN y" "\<not> f64_lt x NaN" "\<not> f64_eq NaN y" "\<not> f64_eq x NaN"
  by (cases x; simp)+

lemma f64_Fin_cmp [simp]:
  "f64_le (Fin x) (Fin y) = (x \<le> y)" "f64_ge (Fin x) (Fin y) = (y \<le> x)"
  "f64_gt (Fin x) (Fin y) = (y < x)"
  by (auto simp: f64_le_def f64_ge_def f64_gt_def)

subsection \<open>Arithmetic\<close>

fun f64_neg :: "f64 \<Rightarrow> f64" where
  "f64_neg NaN = NaN"
| "f64_neg PInf = NInf"
| "f64_neg NInf = PInf"
| "f64_neg NegZero = Fin 0"
| "f64_neg (Fin x) = (if x = 0 then NegZero else Fin (- x))"

definition sign_neg :: "f64 \<Rightarrow> bool" where
  "sign_neg x \<longleftrightarrow> (case x of NInf \<Rightarrow> True | NegZero \<Rightarrow> True | Fin q \<Rightarrow> q < 0 | _ \<Rightarrow> False)"

definition f64_abs :: "f64 \<Rightarrow> f64" where
  "f64_abs x = (if sign_neg x then f64_neg x else x)"

definition signed_zero :: "bool \<Rightarrow> f64" where
  "signed_zero neg = (if neg then NegZero else Fin 0)"

definition signed_inf :: "bool \<Rightarrow> f64" where
  "signed_inf neg = (if neg then NInf else PInf)"

definition f64_add :: "f64 \<Rightarrow> f64 \<Rightarrow> f64" where
  "f64_add x y =
     (if x = NaN \<or> y = NaN then NaN
      else if is_inf x then (if is_inf y \<and> x \<noteq> y then NaN else x)
      else if is_inf y then y
      else if x = NegZero \<and> y = NegZero then NegZero
      else rnd (the (f64_val x) + the (f64_val y)))"

definition f64_sub :: "f64 \<Rightarrow> f64 \<Rightarrow> f64" where
  "f64_sub x y = f64_add x (f64_neg y)"

definition f64_mul :: "f64 \<Rightarrow> f64 \<Rightarrow> f64" where
  "f64_mul x y =
     (let neg = (sign_neg x \<noteq> sign_neg y) in
      if x = NaN \<or> y = NaN then NaN
      else if is_inf x then (if f64_val y = Some 0 then NaN else signed_inf neg)
      else if is_inf y then (if f64_val x = Some 0 then NaN else signed_inf neg)
      else if f64_val x = Some 0 \<or> f64_val y = Some 0 then signed_zero neg
      else rnd (the (f64_val x) * the (f64_val y)))"

definition f64_div :: "f64 \<Rightarrow> f64 \<Rightarrow> f64" where
  "f64_div x y =
     (let neg = (sign_neg x \<noteq> sign_neg y) in
      if x = NaN \<or> y = NaN then NaN
      else if is_inf x then (if is_inf y then NaN else signed_inf neg)
      else if is_inf y then signed_zero neg
      else if f64_val y = Some 0 then
        (if f64_val x = Some 0 then NaN else signed_inf neg)
      else if f64_val x = Some 0 then signed_zero neg
      else rnd (the (f64_val x) / the (f64_val y)))"

text \<open>\<open>math.Min\<close> and \<open>math.Max\<close>.\<close>

definition f64_min :: "f64 \<Rightarrow> f64 \<Rightarrow> f64" where
  "f64_min x y =
     (if x = NInf \<or> y = NInf then NInf
      else if x = NaN \<or> y = NaN then NaN
      else if f64_val x = Some 0 \<and> f64_val y = Some 0
        then (if sign_neg x then x else y)
      else if f64_lt x y then x else y)"

definition f64_max :: "f64 \<Rightarrow> f64 \<Rightarrow> f64" where
  "f64_max x y =
     (if x = PInf \<or> y = PInf then PInf
      else if x = NaN \<or> y = NaN then NaN
      else if f64_val x = Some 0 \<and> f64_val y = Some 0
        then (if sign_neg x then y else x)
      else if f64_lt y x then x else y)"

lemma rnd_not_nan [simp]: "rnd x \<noteq> NaN"
  by (simp add: rnd_def Let_def)

lemma f64_add_not_nan: "is_finite x \<Longrightarrow> is_finite y \<Longrightarrow> f64_add x y \<noteq> NaN"
  by (cases x; cases y) (auto simp: f64_add_def is_finite_def is_inf_def)

lemma rnd_sign: "x < 0 \<Longrightarrow> rnd x \<noteq> PInf" "0 < x \<Longrightarrow> rnd x \<noteq> NInf"
  by (auto simp: rnd_def Let_def)

subsection \<open>Parsing\<close>

datatype parse_error = SyntaxError | RangeError

text \<open>A maximal run of digits of a base, with the underscores inside it skipped.\<close>

definition hex_val :: "char \<Rightarrow> int option" where
  "hex_val c =
     (let n = int (ord (lower_char c)) in
      if 48 \<le> n \<and> n \<le> 57 then Some (n - 48)
      else if 97 \<le> n \<and> n \<le> 102 then Some (n - 87) else None)"

definition base_digit :: "int \<Rightarrow> char \<Rightarrow> int option" where
  "base_digit b c = (case hex_val c of Some d \<Rightarrow> if d < b then Some d else None | None \<Rightarrow> None)"

text \<open>Value, number of digits and rest of the string.\<close>

fun scan_digits :: "int \<Rightarrow> int \<Rightarrow> nat \<Rightarrow> string \<Rightarrow> int \<times> nat \<times> string" where
  "scan_digits b v n [] = (v, n, [])"
| "scan_digits b v n (c # s) =
     (if c = CHR ''_'' then scan_digits b v n s
      else (case base_digit b c of
        Some d \<Rightarrow> scan_digits b (b * v + d) (Suc n) s
      | None \<Rightarrow> (v, n, c # s)))"

fun underscore_ok :: "bool \<Rightarrow> nat \<Rightarrow> string \<Rightarrow> bool" where
  "underscore_ok hx saw [] = (saw \<noteq> 2)"
| "underscore_ok hx saw (c # s) =
     (if base_digit (if hx then 16 else 10) c \<noteq> None then underscore_ok hx 1 s
      else if c = CHR ''_'' then saw = 1 \<and> underscore_ok hx 2 s
      else saw \<noteq> 2 \<and> underscore_ok hx 0 s)"

definition scan_sign :: "string \<Rightarrow> bool \<times> string" where
  "scan_sign s =
     (case s of [] \<Rightarrow> (False, [])
      | c # t \<Rightarrow> if c = CHR ''-'' then (True, t) else if c = CHR ''+'' then (False, t) else (False, s))"

text \<open>The exponent part after its letter: a sign and at least one digit, to the end of the string.\<close>

definition scan_exp :: "string \<Rightarrow> int option" where
  "scan_exp s =
     (let (neg, t) = scan_sign s in
      case t of [] \<Rightarrow> None
      | c # _ \<Rightarrow>
        if base_digit 10 c = None then None
        else (case scan_digits 10 0 0 t of
          (v, _, []) \<Rightarrow> Some (if neg then - v else v)
        | _ \<Rightarrow> None))"

definition finish_parse :: "bool \<Rightarrow> rat \<Rightarrow> parse_error + f64" where
  "finish_parse neg x =
     (let r = (if neg then f64_neg (rnd x) else rnd x)
      in if is_inf r then Inl RangeError else Inr r)"

definition parse_number :: "int \<Rightarrow> bool \<Rightarrow> string \<Rightarrow> parse_error + f64" where
  "parse_number b neg s =
     (let (v1, n1, r1) = scan_digits b 0 0 s;
          (v2, n2, r2) = (case r1 of
              [] \<Rightarrow> (v1, 0, [])
            | c # t \<Rightarrow> if c = CHR ''.'' then scan_digits b v1 0 t else (v1, 0, r1));
          expchar = (if b = 16 then CHR ''p'' else CHR ''e'');
          scale = (if b = 16 then (\<lambda>e. pow2 (e - 4 * int n2)) else (\<lambda>e. pow10 (e - int n2)))
      in if n1 + n2 = 0 then Inl SyntaxError
         else (case r2 of
             [] \<Rightarrow> if b = 16 then Inl SyntaxError else finish_parse neg (of_int v2 * scale 0)
           | c # t \<Rightarrow>
               if lower_char c = expchar then
                 (case scan_exp t of
                    None \<Rightarrow> Inl SyntaxError
                  | Some e \<Rightarrow> finish_parse neg (of_int v2 * scale e))
               else Inl SyntaxError))"

definition parse_float :: "string \<Rightarrow> parse_error + f64" where
  "parse_float s =
     (let (neg, t) = scan_sign s; l = to_lower t in
      if l = ''inf'' \<or> l = ''infinity'' then Inr (signed_inf neg)
      else if to_lower s = ''nan'' then Inr NaN
      else if CHR ''_'' \<in> set s \<and>
          \<not> (if has_prefix l ''0x'' then underscore_ok True 1 (drop 2 t) else underscore_ok False 0 t)
        then Inl SyntaxError
      else if has_prefix l ''0x'' then parse_number 16 neg (drop 2 t)
      else parse_number 10 neg t)"

subsection \<open>Formatting\<close>

definition dec_exp :: "rat \<Rightarrow> int" where
  "dec_exp x =
     (let (n, d) = quotient_of x;
          k = int (length (itoa n)) - int (length (itoa d))
      in if pow10 k \<le> x then k else k - 1)"

text \<open>
  The decimal with at most \<open>n\<close> digits, nearest to \<open>x\<close>, that rounds to \<open>x\<close>: Go prints the
  one with the fewest digits, and 17 digits are enough for every binary64 value.
\<close>

definition dec_try :: "rat \<Rightarrow> nat \<Rightarrow> (int \<times> int) option" where
  "dec_try x n =
     (let q = dec_exp x - int n + 1; s = x / pow10 q; lo = \<lfloor>s\<rfloor>;
          ok = (\<lambda>c. rnd (of_int c * pow10 q) = Fin x)
      in if ok lo \<and> (s - of_int lo \<le> 1 / 2 \<or> \<not> ok (lo + 1)) then Some (lo, q)
         else if ok (lo + 1) then Some (lo + 1, q) else None)"

fun first_some :: "('a \<Rightarrow> 'b option) \<Rightarrow> 'a list \<Rightarrow> 'b option" where
  "first_some f [] = None"
| "first_some f (x # xs) = (case f x of Some y \<Rightarrow> Some y | None \<Rightarrow> first_some f xs)"

fun strip_zeros :: "nat \<Rightarrow> int \<times> int \<Rightarrow> int \<times> int" where
  "strip_zeros 0 mk = mk"
| "strip_zeros (Suc f) (m, k) =
     (if m \<noteq> 0 \<and> m mod 10 = 0 then strip_zeros f (m div 10, k + 1) else (m, k))"

definition shortest :: "rat \<Rightarrow> int \<times> int" where
  "shortest x =
     (case first_some (dec_try x) [1..<18] of
        Some mk \<Rightarrow> strip_zeros 18 mk
      | None \<Rightarrow> (0, 0))"

definition zeros :: "nat \<Rightarrow> string" where
  "zeros n = replicate n (CHR ''0'')"

definition fixed_digits :: "int \<times> int \<Rightarrow> string" where
  "fixed_digits mk =
     (let (m, k) = mk; ds = itoa m in
      if 0 \<le> k then ds @ zeros (nat k)
      else let p = nat (- k) in
        if length ds > p then take (length ds - p) ds @ ''.'' @ drop (length ds - p) ds
        else ''0.'' @ zeros (p - length ds) @ ds)"

definition exp_digits :: "int \<times> int \<Rightarrow> string" where
  "exp_digits mk =
     (let (m, k) = mk; ds = itoa m; e = int (length ds) - 1 + k; a = itoa \<bar>e\<bar>
      in take 1 ds @ (if length ds > 1 then ''.'' @ drop 1 ds else []) @
         (if e < 0 then ''e-'' else ''e+'') @ (if length a < 2 then ''0'' @ a else a))"

definition with_sign :: "(rat \<Rightarrow> string) \<Rightarrow> rat \<Rightarrow> string" where
  "with_sign f x = (if x = 0 then ''0'' else if x < 0 then CHR ''-'' # f (- x) else f x)"

definition format_f :: "f64 \<Rightarrow> string" where
  "format_f x =
     (case x of NaN \<Rightarrow> ''NaN'' | PInf \<Rightarrow> ''+Inf'' | NInf \<Rightarrow> ''-Inf'' | NegZero \<Rightarrow> ''-0''
      | Fin q \<Rightarrow> with_sign (\<lambda>y. fixed_digits (shortest y)) q)"

definition g_digits :: "rat \<Rightarrow> string" where
  "g_digits y =
     (let mk = shortest y; e = int (length (itoa (fst mk))) - 1 + snd mk
      in if e < - 4 \<or> 6 \<le> e then exp_digits mk else fixed_digits mk)"

definition format_g :: "f64 \<Rightarrow> string" where
  "format_g x =
     (case x of NaN \<Rightarrow> ''NaN'' | PInf \<Rightarrow> ''+Inf'' | NInf \<Rightarrow> ''-Inf'' | NegZero \<Rightarrow> ''-0''
      | Fin q \<Rightarrow> with_sign g_digits q)"

subsection \<open>Integers that are represented exactly\<close>

lemma bit_length_le: "n < 2 ^ m \<Longrightarrow> bit_length n \<le> int m"
proof (induction n arbitrary: m rule: bit_length.induct)
  case (1 n)
  show ?case
  proof (cases "n \<le> 0")
    case True
    then show ?thesis by (simp add: bit_length.simps [of n])
  next
    case False
    with "1.prems" obtain k where m: "m = Suc k" by (cases m) auto
    with "1.prems" have "n div 2 < 2 ^ k" by simp
    with "1.IH" [OF False] False m show ?thesis by (simp add: bit_length.simps [of n])
  qed
qed

lemma pow2_nonpos: "e \<le> 0 \<Longrightarrow> pow2 e = 1 / 2 ^ nat (- e)"
  by (cases "e = 0") (simp_all add: pow2_def)

lemma round_even_int [simp]: "round_even (of_int z) = z"
  by (simp add: round_even_def)

lemma f64_of_int_exact:
  assumes "\<bar>i\<bar> < 2 ^ 53"
  shows "f64_of_int i = Fin (of_int i)"
proof (cases "i = 0")
  case True
  then show ?thesis by (simp add: f64_of_int_def rnd_def)
next
  case False
  let ?x = "\<bar>of_int i :: rat\<bar>"
  define e where "e = max (bin_exp ?x - 52) (- 1074)"
  have x: "?x = of_int \<bar>i\<bar>" by simp
  have "bin_exp ?x \<le> bit_length \<bar>i\<bar> - bit_length 1"
    unfolding x bin_exp_def by (simp add: Let_def del: of_int_abs)
  also have "\<dots> \<le> 52" using bit_length_le [of "\<bar>i\<bar>" 53] assms by (simp add: bit_length.simps [of 1] bit_length.simps [of 0])
  finally have e: "e \<le> 0" by (simp add: e_def)
  define k where "k = nat (- e)"
  have p: "pow2 e = 1 / 2 ^ k" using e by (simp add: pow2_nonpos k_def)
  have "?x / pow2 e = of_int (\<bar>i\<bar> * 2 ^ k)" by (simp add: p)
  then have "round_even (?x / pow2 e) = \<bar>i\<bar> * 2 ^ k" by (simp only: round_even_int)
  then have y: "of_int (round_even (?x / pow2 e)) * pow2 e = ?x" by (simp add: p)
  have "?x < 2 ^ 53" using assms unfolding x by (metis of_int_less_numeral_power_cancel_iff)
  then have big: "\<not> pow2 1024 \<le> ?x" by (simp add: pow2_def)
  have r: "rnd (of_int i) = (if 0 < (of_int i :: rat) then Fin ?x else Fin (- ?x))"
    unfolding rnd_def Let_def e_def [symmetric] y using False big by simp
  show ?thesis unfolding f64_of_int_def r using False by (simp add: abs_if)
qed

end
