(* ===== verification/GoValue.thy ===== *)
theory GoValue
  imports GoFloat
begin

section \<open>Values of type \<open>any\<close>\<close>

text \<open>
  The dynamically typed values the program computes with: what \<open>encoding/json\<close> decodes
  (nil, booleans, \<open>float64\<close>, strings, \<open>[]any\<close> and \<open>map[string]any\<close>) and the \<open>int\<close> and
  \<open>int64\<close> values the program adds to them itself. An object is an association list with
  distinct keys; nothing depends on its order, the printed forms sort the keys as
  Go does. Modelled of the library: \<open>reflect.DeepEqual\<close>, \<open>fmt.Sprint\<close> and
  \<open>json.Marshal\<close>.
\<close>

datatype val =
    VNil
  | VBool bool
  | VNum f64
  | VInt int
  | VI64 int
  | VStr string
  | VArr "val list"
  | VObj "(string \<times> val) list"

type_synonym obj = "(string \<times> val) list"

lemma val_size_field [termination_simp]:
  "(k, v) \<in> set kvs \<Longrightarrow> size v < Suc (size_list (size_prod (\<lambda>_. 0) size) kvs)"
  by (induction kvs) auto

lemma val_size_map [termination_simp]:
  "map_of kvs k = Some v \<Longrightarrow> size v < Suc (size_list (size_prod (\<lambda>_. 0) size) kvs)"
  by (drule map_of_SomeD) (rule val_size_field)

text \<open>\<open>reflect.DeepEqual\<close>: the dynamic types agree and the contents are deeply equal.\<close>

fun deep_equal :: "val \<Rightarrow> val \<Rightarrow> bool" where
  "deep_equal VNil w = (w = VNil)"
| "deep_equal (VBool a) w = (w = VBool a)"
| "deep_equal (VNum a) w = (case w of VNum b \<Rightarrow> f64_eq a b | _ \<Rightarrow> False)"
| "deep_equal (VInt a) w = (w = VInt a)"
| "deep_equal (VI64 a) w = (w = VI64 a)"
| "deep_equal (VStr a) w = (w = VStr a)"
| "deep_equal (VArr xs) w =
     (case w of VArr ys \<Rightarrow> list_all2 deep_equal xs ys | _ \<Rightarrow> False)"
| "deep_equal (VObj m) w =
     (case w of
        VObj n \<Rightarrow> length m = length n \<and>
          list_all (\<lambda>(k, v). case map_of n k of None \<Rightarrow> False | Some u \<Rightarrow> deep_equal v u) m
      | _ \<Rightarrow> False)"

fun wf_val :: "val \<Rightarrow> bool" where
  "wf_val (VArr xs) = list_all wf_val xs"
| "wf_val (VObj m) = (wf_map m \<and> list_all (\<lambda>(k, v). wf_val v) m)"
| "wf_val _ = True"

fun no_nan :: "val \<Rightarrow> bool" where
  "no_nan (VNum x) = (\<not> is_nan x)"
| "no_nan (VArr xs) = list_all no_nan xs"
| "no_nan (VObj m) = list_all (\<lambda>(k, v). no_nan v) m"
| "no_nan _ = True"

lemma deep_equal_refl: "wf_val v \<Longrightarrow> no_nan v \<Longrightarrow> deep_equal v v"
proof (induction v)
  case (VNum x)
  then show ?case by (simp add: f64_eq_refl)
next
  case (VArr xs)
  then show ?case by (auto simp: list_all_iff list.rel_refl_strong intro: list.rel_refl_strong)
next
  case (VObj m)
  have "case map_of m k of None \<Rightarrow> False | Some u \<Rightarrow> deep_equal v u" if "(k, v) \<in> set m" for k v
  proof -
    from that VObj.prems have "map_of m k = Some v" by (simp add: wf_map_def)
    moreover have "deep_equal v v"
      using VObj.IH [OF that, of v] VObj.prems that by (auto simp: list_all_iff)
    ultimately show ?thesis by simp
  qed
  then show ?case by (auto simp: list_all_iff)
qed auto

text \<open>A value never equals one of another dynamic type: in particular an \<open>int64\<close> is no \<open>float64\<close>.\<close>

lemma deep_equal_types [simp]:
  "\<not> deep_equal (VI64 a) (VNum x)" "\<not> deep_equal (VNum x) (VI64 a)"
  "\<not> deep_equal (VInt a) (VNum x)" "\<not> deep_equal (VNum x) (VInt a)"
  by simp_all

subsection \<open>Printing\<close>

definition sort_fields :: "(string \<times> 'a) list \<Rightarrow> (string \<times> 'a) list" where
  "sort_fields kvs = sort_key fst kvs"

lemma set_sort_fields [simp]: "set (sort_fields kvs) = set kvs"
  by (simp add: sort_fields_def)

lemma mset_sort_fields [simp]: "length (sort_fields kvs) = length kvs"
  by (simp add: sort_fields_def)

definition bool_str :: "bool \<Rightarrow> string" where
  "bool_str b = (if b then ''true'' else ''false'')"

text \<open>\<open>fmt.Sprint\<close> of one operand.\<close>

fun sprint :: "val \<Rightarrow> string" where
  "sprint VNil = ''<nil>''"
| "sprint (VBool b) = bool_str b"
| "sprint (VNum x) = format_g x"
| "sprint (VInt i) = itoa i"
| "sprint (VI64 i) = itoa i"
| "sprint (VStr s) = s"
| "sprint (VArr xs) = ''['' @ join_with '' '' (map sprint xs) @ '']''"
| "sprint (VObj m) =
     ''map['' @ join_with '' '' (map (\<lambda>(k, t). k @ '':'' @ t)
        (sort_fields (map (\<lambda>(k, v). (k, sprint v)) m))) @ '']''"

text \<open>\<open>json.Marshal\<close>; an error (\<open>None\<close>) for a number that is not finite.\<close>

definition hex_digit :: "nat \<Rightarrow> char" where
  "hex_digit n = (if n < 10 then byte (48 + n) else byte (87 + n))"

definition json_byte :: "char \<Rightarrow> string" where
  "json_byte c =
     (let n = ord c in
      if n = 34 \<or> n = 92 then [byte 92, c]
      else if n = 8 then [byte 92, CHR ''b'']
      else if n = 12 then [byte 92, CHR ''f'']
      else if n = 10 then [byte 92, CHR ''n'']
      else if n = 13 then [byte 92, CHR ''r'']
      else if n = 9 then [byte 92, CHR ''t'']
      else if n < 32 \<or> n = 60 \<or> n = 62 \<or> n = 38
        then byte 92 # ''u00'' @ [hex_digit (n div 16), hex_digit (n mod 16)]
      else [c])"

fun json_chars :: "nat \<Rightarrow> string \<Rightarrow> string" where
  "json_chars 0 s = []"
| "json_chars (Suc f) [] = []"
| "json_chars (Suc f) (c # s) =
     (if ord c < 128 then json_byte c @ json_chars f s
      else (let (r, w) = decode_rune (c # s) in
        if w = 1 then byte 92 # ''ufffd'' @ json_chars f s
        else (if r = 0x2028 then byte 92 # ''u2028''
              else if r = 0x2029 then byte 92 # ''u2029''
              else take w (c # s)) @ json_chars f (drop w (c # s))))"

definition json_string :: "string \<Rightarrow> string" where
  "json_string s = byte 34 # json_chars (length s) s @ [byte 34]"

definition json_exp_fix :: "string \<Rightarrow> string" where
  "json_exp_fix s =
     (let n = length s in
      if n \<ge> 4 \<and> s ! (n - 4) = CHR ''e'' \<and> s ! (n - 3) = CHR ''-'' \<and> s ! (n - 2) = CHR ''0''
      then take (n - 2) s @ [s ! (n - 1)] else s)"

definition json_number :: "f64 \<Rightarrow> string option" where
  "json_number x =
     (case f64_val x of
        None \<Rightarrow> None
      | Some q \<Rightarrow>
          if q = 0 then Some (format_f x)
          else if \<bar>q\<bar> < 1 / 10 ^ 6 \<or> 10 ^ 21 \<le> \<bar>q\<bar>
            then Some (json_exp_fix (with_sign (\<lambda>y. exp_digits (shortest y)) q))
          else Some (format_f x))"

fun all_some :: "'a option list \<Rightarrow> 'a list option" where
  "all_some [] = Some []"
| "all_some (None # xs) = None"
| "all_some (Some x # xs) = map_option ((#) x) (all_some xs)"

fun json_marshal :: "val \<Rightarrow> string option" where
  "json_marshal VNil = Some ''null''"
| "json_marshal (VBool b) = Some (bool_str b)"
| "json_marshal (VNum x) = json_number x"
| "json_marshal (VInt i) = Some (itoa i)"
| "json_marshal (VI64 i) = Some (itoa i)"
| "json_marshal (VStr s) = Some (json_string s)"
| "json_marshal (VArr xs) =
     map_option (\<lambda>ts. ''['' @ join_with '','' ts @ '']'') (all_some (map json_marshal xs))"
| "json_marshal (VObj m) =
     map_option (\<lambda>ts. [byte 123] @ join_with '','' ts @ [byte 125])
       (all_some (map (\<lambda>(k, t). map_option (\<lambda>u. json_string k @ '':'' @ u) t)
         (sort_fields (map (\<lambda>(k, v). (k, json_marshal v)) m))))"

text \<open>
  What \<open>json.Unmarshal\<close> into \<open>any\<close> makes of a value that \<open>json.Marshal\<close> wrote: every
  number is a \<open>float64\<close>. A stored result comes back in this form.
\<close>

fun from_json :: "val \<Rightarrow> val" where
  "from_json (VInt i) = VNum (f64_of_int i)"
| "from_json (VI64 i) = VNum (f64_of_int i)"
| "from_json (VArr xs) = VArr (map from_json xs)"
| "from_json (VObj m) = VObj (map (\<lambda>(k, v). (k, from_json v)) m)"
| "from_json v = v"

lemma map_of_map_snd: "map_of (map (\<lambda>(k, v). (k, f v)) m) k = map_option f (map_of m k)"
  by (induction m) auto

lemma from_json_idem: "from_json (from_json v) = from_json v"
  by (induction v) (auto simp: f64_of_int_def)

lemma from_json_no_int: "from_json v \<noteq> VI64 i" "from_json v \<noteq> VInt i"
  by (cases v; simp)+

end
