(* ===== verification/Conditions.thy ===== *)
theory Conditions
  imports GoValue
begin

section \<open>The condition engine (internal/core/condition.go)\<close>

text \<open>
  A monitor's condition is a list of rules joined by \<open>ALL\<close> or \<open>ANY\<close>; each rule compares
  a field of the current or the previous result with a literal or with another field. The
  states are Go's strings \<open>true\<close>, \<open>false\<close> and \<open>unknown\<close>; the error texts of the code are
  the constructors of \<open>cond_msg\<close>. Go's \<open>regexp\<close> engine is the parameter \<open>rx\<close>: the
  matcher that compiling an expression gives, or \<open>None\<close> where it does not compile.
\<close>

type_synonym regex = "string \<Rightarrow> (string \<Rightarrow> bool) option"

record cond_rule =
  rl_id :: string
  rl_field :: string
  rl_source :: string
  rl_path :: string
  rl_operator :: string
  rl_value :: val
  rl_value_source :: string
  rl_value_field :: string
  rl_value_path :: string

record cond_config =
  cc_logic :: string
  cc_rules :: "cond_rule list"
  cc_policy :: string

datatype cond_msg =
    BaselineEstablished
  | MissingEither
  | MissingValue
  | MissingComparison
  | NotNumeric val
  | BadNumber parse_error string
  | RegexNotString
  | BadRegex string
  | BetweenShape
  | BetweenNotNumeric
  | NoContains
  | NotMeasurable
  | NotBoolean
  | UnsupportedOperator string

record rule_result =
  rr_id :: string
  rr_field :: string
  rr_source :: string
  rr_path :: string
  rr_operator :: string
  rr_state :: string
  rr_expected :: val
  rr_actual :: val
  rr_value_source :: string
  rr_value_field :: string
  rr_message :: "cond_msg option"

record evaluation =
  ev_state :: string
  ev_details :: "rule_result list"

definition NormalizeNotificationPolicy :: "string \<Rightarrow> string" where
  "NormalizeNotificationPolicy policy = (if policy = ''every'' then ''every'' else ''once'')"

definition boolState :: "bool \<Rightarrow> string" where
  "boolState b = (if b then ''true'' else ''false'')"

definition normalizeSource :: "string \<Rightarrow> string" where
  "normalizeSource source = (if source = ''previous'' then ''previous'' else ''current'')"

definition normalizeValueSource :: "string \<Rightarrow> string" where
  "normalizeValueSource source =
     (if source = ''current'' \<or> source = ''previous'' then source else ''literal'')"

definition normalizeField :: "string \<Rightarrow> string" where
  "normalizeField field = trim_prefix (trim_prefix field ''result.'') ''current.''"

subsection \<open>Looking a value up\<close>

text \<open>Both loops of \<open>lookupValue\<close>: each part is a key of the object reached so far.\<close>

fun walk_parts :: "val \<Rightarrow> string list \<Rightarrow> val option" where
  "walk_parts v [] = Some v"
| "walk_parts v (p # ps) =
     (case v of
        VObj m \<Rightarrow> (case get m p of None \<Rightarrow> None | Some w \<Rightarrow> walk_parts w ps)
      | _ \<Rightarrow> None)"

definition lookupValue :: "obj \<Rightarrow> string \<Rightarrow> string \<Rightarrow> val option" where
  "lookupValue base field path =
     (let found =
        (case get base field of
           Some v \<Rightarrow> Some v
         | None \<Rightarrow>
             if contains_str field ''.'' then walk_parts (VObj base) (split_on (CHR ''.'') field)
             else None)
      in case found of
           None \<Rightarrow> None
         | Some v \<Rightarrow>
             if path = [] then Some v
             else walk_parts v (split_on (CHR ''.'') (trim_prefix path ''.'')))"

definition LookupResultValue :: "obj \<Rightarrow> string \<Rightarrow> string \<Rightarrow> val option" where
  "LookupResultValue base field path = lookupValue base (normalizeField field) path"

text \<open>A nil map has no keys, so the missing previous result reads as the empty object.\<close>

definition obj_of :: "obj option \<Rightarrow> obj" where
  "obj_of p = (case p of None \<Rightarrow> [] | Some m \<Rightarrow> m)"

definition lookupSourceValue ::
    "string \<Rightarrow> obj \<Rightarrow> obj option \<Rightarrow> string \<Rightarrow> string \<Rightarrow> val option" where
  "lookupSourceValue source current previous field path =
     lookupValue (if normalizeSource source = ''previous'' then obj_of previous else current)
       (normalizeField field) path"

subsection \<open>Comparing values\<close>

definition numberValue :: "val \<Rightarrow> cond_msg + f64" where
  "numberValue v =
     (case v of
        VNum x \<Rightarrow> Inr x
      | VInt i \<Rightarrow> Inr (f64_of_int i)
      | VI64 i \<Rightarrow> Inr (f64_of_int i)
      | VStr s \<Rightarrow> (case parse_float s of Inl e \<Rightarrow> Inl (BadNumber e s) | Inr x \<Rightarrow> Inr x)
      | _ \<Rightarrow> Inl (NotNumeric v))"

definition valuesEqual :: "val \<Rightarrow> val \<Rightarrow> bool" where
  "valuesEqual l r =
     (case (numberValue l, numberValue r) of
        (Inr x, Inr y) \<Rightarrow> f64_eq x y
      | _ \<Rightarrow> deep_equal l r \<or> sprint l = sprint r)"

definition containsValue :: "val \<Rightarrow> val \<Rightarrow> cond_msg + bool" where
  "containsValue v target =
     (case v of
        VStr s \<Rightarrow> Inr (contains_str s (sprint target))
      | VArr xs \<Rightarrow> Inr (list_ex (\<lambda>x. valuesEqual x target) xs)
      | VObj m \<Rightarrow> Inr (has_key m (sprint target))
      | _ \<Rightarrow> Inl NoContains)"

definition valueLength :: "val \<Rightarrow> nat option" where
  "valueLength v =
     (case v of
        VStr s \<Rightarrow> Some (length (runes s))
      | VArr xs \<Rightarrow> Some (length xs)
      | VObj m \<Rightarrow> Some (length m)
      | _ \<Rightarrow> None)"

text \<open>The bounds of \<open>between\<close>: a list, or a string with one comma.\<close>

definition between_bounds :: "val \<Rightarrow> val list option" where
  "between_bounds c =
     (case c of
        VArr xs \<Rightarrow> Some xs
      | VStr s \<Rightarrow>
          (case split_on (CHR '','') s of
             [a, b] \<Rightarrow> Some [VStr (trim_space a), VStr (trim_space b)]
           | _ \<Rightarrow> None)
      | _ \<Rightarrow> None)"

text \<open>
  The numeric comparisons: the outer switch of the code folds the case of the operator,
  the inner one compares the operator as written.
\<close>

definition compare_numbers :: "string \<Rightarrow> f64 \<Rightarrow> f64 \<Rightarrow> bool" where
  "compare_numbers op l r =
     (if op = ''gt'' then f64_gt l r
      else if op = ''gte'' then f64_ge l r
      else if op = ''lt'' then f64_lt l r
      else if op = ''lte'' then f64_le l r
      else False)"

text \<open>The cases of the switch over the lower-case operator.\<close>

datatype operator_case =
    OpEquals | OpNotEquals | OpContains | OpNotContains | OpRegex | OpCompare | OpBetween
  | OpLength | OpIsTrue | OpIsFalse | OpUnsupported

definition op_kind :: "string \<Rightarrow> operator_case" where
  "op_kind lop =
     (if lop = ''equals'' \<or> lop = ''eq'' then OpEquals
      else if lop = ''not_equals'' \<or> lop = ''neq'' then OpNotEquals
      else if lop = ''contains'' then OpContains
      else if lop = ''not_contains'' then OpNotContains
      else if lop = ''regex'' then OpRegex
      else if lop = ''gt'' \<or> lop = ''gte'' \<or> lop = ''lt'' \<or> lop = ''lte'' then OpCompare
      else if lop = ''between'' then OpBetween
      else if lop = ''length_gt'' \<or> lop = ''length_eq'' then OpLength
      else if lop = ''is_true'' then OpIsTrue
      else if lop = ''is_false'' then OpIsFalse
      else OpUnsupported)"

definition apply_operator :: "regex \<Rightarrow> string \<Rightarrow> val \<Rightarrow> val \<Rightarrow> cond_msg + bool" where
  "apply_operator rx op v c =
     (case op_kind (to_lower op) of
        OpEquals \<Rightarrow> Inr (valuesEqual v c)
      | OpNotEquals \<Rightarrow> Inr (\<not> valuesEqual v c)
      | OpContains \<Rightarrow> containsValue v c
      | OpNotContains \<Rightarrow> map_sum id Not (containsValue v c)
      | OpRegex \<Rightarrow>
          (case c of
             VStr e \<Rightarrow> (case rx e of None \<Rightarrow> Inl (BadRegex e) | Some f \<Rightarrow> Inr (f (sprint v)))
           | _ \<Rightarrow> Inl RegexNotString)
      | OpCompare \<Rightarrow>
          (case numberValue v of
             Inl e \<Rightarrow> Inl e
           | Inr l \<Rightarrow>
               (case numberValue c of Inl e \<Rightarrow> Inl e | Inr r \<Rightarrow> Inr (compare_numbers op l r)))
      | OpBetween \<Rightarrow>
          (case between_bounds c of
             Some [lo, hi] \<Rightarrow>
               (case (numberValue v, numberValue lo, numberValue hi) of
                  (Inr x, Inr l, Inr h) \<Rightarrow> Inr (f64_ge x l \<and> f64_le x h)
                | _ \<Rightarrow> Inl BetweenNotNumeric)
           | _ \<Rightarrow> Inl BetweenShape)
      | OpLength \<Rightarrow>
          (case (valueLength v, numberValue c) of
             (Some n, Inr t) \<Rightarrow>
               Inr (if op = ''length_gt'' then f64_gt (f64_of_int (int n)) t
                    else f64_eq (f64_of_int (int n)) t)
           | _ \<Rightarrow> Inl NotMeasurable)
      | OpIsTrue \<Rightarrow> (case v of VBool b \<Rightarrow> Inr b | _ \<Rightarrow> Inl NotBoolean)
      | OpIsFalse \<Rightarrow> (case v of VBool b \<Rightarrow> Inr (\<not> b) | _ \<Rightarrow> Inl NotBoolean)
      | OpUnsupported \<Rightarrow> Inl (UnsupportedOperator op))"

subsection \<open>One rule\<close>

text \<open>The result record before any branch has set its state.\<close>

definition start_result :: "cond_rule \<Rightarrow> obj \<Rightarrow> obj option \<Rightarrow> rule_result" where
  "start_result rule current previous =
     \<lparr>rr_id = rl_id rule, rr_field = normalizeField (rl_field rule),
      rr_source = normalizeSource (rl_source rule), rr_path = rl_path rule,
      rr_operator = rl_operator rule, rr_state = '''', rr_expected = VNil,
      rr_actual = (case lookupSourceValue (normalizeSource (rl_source rule)) current previous
          (normalizeField (rl_field rule)) (rl_path rule) of Some v \<Rightarrow> v | None \<Rightarrow> VNil),
      rr_value_source = normalizeValueSource (rl_value_source rule),
      rr_value_field = normalizeField (rl_value_field rule), rr_message = None\<rparr>"

definition evaluate_changed ::
    "cond_rule \<Rightarrow> obj \<Rightarrow> obj option \<Rightarrow> rule_result \<Rightarrow> rule_result" where
  "evaluate_changed rule current previous result =
     (let field = normalizeField (rl_field rule) in
      case previous of
        None \<Rightarrow> result\<lparr>rr_state := ''false'', rr_message := Some BaselineEstablished\<rparr>
      | Some prev \<Rightarrow>
          (case (lookupValue current field (rl_path rule), lookupValue prev field (rl_path rule)) of
             (Some cv, Some pv) \<Rightarrow>
               result\<lparr>rr_actual := cv, rr_expected := pv, rr_state := boolState (\<not> deep_equal cv pv)\<rparr>
           | _ \<Rightarrow> result\<lparr>rr_state := ''unknown'', rr_message := Some MissingEither\<rparr>))"

definition evaluateRule :: "regex \<Rightarrow> cond_rule \<Rightarrow> obj \<Rightarrow> obj option \<Rightarrow> rule_result" where
  "evaluateRule rx rule current previous =
     (let source = normalizeSource (rl_source rule);
          field = normalizeField (rl_field rule);
          valueSource = normalizeValueSource (rl_value_source rule);
          result = start_result rule current previous;
          found = lookupSourceValue source current previous field (rl_path rule)
      in
      if rl_operator rule = ''exists'' then result\<lparr>rr_state := boolState (found \<noteq> None)\<rparr>
      else if rl_operator rule = ''not_exists'' then result\<lparr>rr_state := boolState (found = None)\<rparr>
      else if rl_operator rule = ''changed'' then evaluate_changed rule current previous result
      else (case found of
        None \<Rightarrow> result\<lparr>rr_state := ''unknown'', rr_message := Some MissingValue\<rparr>
      | Some v \<Rightarrow>
          (case (if valueSource \<noteq> ''literal''
                 then lookupSourceValue valueSource current previous
                        (rl_value_field rule) (rl_value_path rule)
                 else Some (rl_value rule)) of
             None \<Rightarrow> result\<lparr>rr_state := ''unknown'', rr_message := Some MissingComparison\<rparr>
           | Some c \<Rightarrow>
               (case apply_operator rx (rl_operator rule) v c of
                  Inl e \<Rightarrow> result\<lparr>rr_expected := c, rr_state := ''unknown'', rr_message := Some e\<rparr>
                | Inr b \<Rightarrow> result\<lparr>rr_expected := c, rr_state := boolState b\<rparr>))))"

subsection \<open>All rules\<close>

definition count_state :: "string \<Rightarrow> rule_result list \<Rightarrow> nat" where
  "count_state s rs = length (filter (\<lambda>r. rr_state r = s) rs)"

definition combine_states :: "string \<Rightarrow> rule_result list \<Rightarrow> string" where
  "combine_states logic results =
     (let trueCount = count_state ''true'' results; falseCount = count_state ''false'' results;
          unknown = list_ex (\<lambda>r. rr_state r \<noteq> ''true'' \<and> rr_state r \<noteq> ''false'') results
      in if logic = ''ANY'' then
           (if 0 < trueCount then ''true''
            else if unknown \<and> falseCount = 0 then ''unknown'' else ''false'')
         else if 0 < falseCount then ''false''
         else if unknown then ''unknown'' else ''true'')"

definition effective_logic :: "string \<Rightarrow> string" where
  "effective_logic logic = (if to_upper logic = ''ANY'' then ''ANY'' else ''ALL'')"

definition EvaluateConditions ::
    "regex \<Rightarrow> cond_config \<Rightarrow> obj \<Rightarrow> obj option \<Rightarrow> evaluation" where
  "EvaluateConditions rx config current previous =
     (if cc_rules config = [] then \<lparr>ev_state = ''false'', ev_details = []\<rparr>
      else let results = map (\<lambda>rule. evaluateRule rx rule current previous) (cc_rules config)
           in \<lparr>ev_state = combine_states (effective_logic (cc_logic config)) results,
               ev_details = results\<rparr>)"

subsection \<open>Facts about the operations\<close>

lemma boolState_simps [go_simps, simp]:
  "boolState True = ''true''" "boolState False = ''false''"
  by (simp_all add: boolState_def)

lemma boolState_iff [simp]:
  "boolState b = ''true'' \<longleftrightarrow> b" "boolState b = ''false'' \<longleftrightarrow> \<not> b" "boolState b \<noteq> ''unknown''"
  by (cases b; simp)+

definition states3 :: "string set" where
  "states3 = {''true'', ''false'', ''unknown''}"

lemma boolState_states3 [simp]: "boolState b \<in> states3"
  by (cases b) (simp_all add: states3_def)

lemma states3_literals [simp]: "''true'' \<in> states3" "''false'' \<in> states3" "''unknown'' \<in> states3"
  by (simp_all add: states3_def)

lemma evaluate_changed_keeps:
  "rr_id (evaluate_changed r c p x) = rr_id x" "rr_field (evaluate_changed r c p x) = rr_field x"
  "rr_operator (evaluate_changed r c p x) = rr_operator x"
  "rr_state (evaluate_changed r c p x) \<in> states3"
  by (auto simp: evaluate_changed_def Let_def split: option.split)

lemma evaluateRule_keeps:
  "rr_id (evaluateRule rx r c p) = rl_id r"
  "rr_field (evaluateRule rx r c p) = normalizeField (rl_field r)"
  "rr_operator (evaluateRule rx r c p) = rl_operator r"
  by (auto simp: evaluateRule_def Let_def start_result_def evaluate_changed_keeps
      split: option.split sum.split)

lemma evaluateRule_state: "rr_state (evaluateRule rx r c p) \<in> states3"
  by (auto simp: evaluateRule_def Let_def evaluate_changed_keeps split: option.split sum.split)

lemma numberValue_err: "numberValue v \<noteq> Inl BaselineEstablished"
  by (auto simp: numberValue_def split: val.split sum.split)

lemma containsValue_err: "containsValue v w \<noteq> Inl BaselineEstablished"
  by (auto simp: containsValue_def split: val.split)

lemma map_sum_Inl: "map_sum id f r = Inl e \<longleftrightarrow> r = Inl e"
  by (cases r) auto

lemma numberValue_errD: "numberValue v = Inl e \<Longrightarrow> e \<noteq> BaselineEstablished"
  using numberValue_err by blast

lemma apply_operator_err: "apply_operator rx op v w \<noteq> Inl BaselineEstablished"
  unfolding apply_operator_def
  by (cases "op_kind (to_lower op)")
    (auto simp: numberValue_err containsValue_err map_sum_Inl dest: numberValue_errD
      split: val.split option.split sum.split list.split)

lemma apply_operator_errD: "apply_operator rx op v w = Inl e \<Longrightarrow> e \<noteq> BaselineEstablished"
  using apply_operator_err by blast

lemma evaluate_changed_message:
  "rr_message x = None \<Longrightarrow> rr_state (evaluate_changed r c p x) = ''unknown'' \<longleftrightarrow>
   rr_message (evaluate_changed r c p x) \<notin> {None, Some BaselineEstablished}"
  by (simp add: evaluate_changed_def Let_def split: option.split)

lemma start_result_message [simp]: "rr_message (start_result r c p) = None"
  by (simp add: start_result_def)

lemma evaluateRule_unknown_message:
  "rr_state (evaluateRule rx r c p) = ''unknown'' \<longleftrightarrow>
   rr_message (evaluateRule rx r c p) \<notin> {None, Some BaselineEstablished}"
  unfolding evaluateRule_def Let_def
  by (simp add: evaluate_changed_message split: option.split sum.split)
    (blast dest: apply_operator_errD)

lemmas evaluateRule_facts =
  evaluateRule_keeps evaluateRule_state evaluateRule_unknown_message

lemma count_state_pos: "0 < count_state s rs \<longleftrightarrow> (\<exists>r \<in> set rs. rr_state r = s)"
  by (auto simp: count_state_def filter_empty_conv)

lemma count_state_zero: "count_state s rs = 0 \<longleftrightarrow> (\<forall>r \<in> set rs. rr_state r \<noteq> s)"
  by (auto simp: count_state_def filter_empty_conv)

lemma changed_eval:
  "rl_operator r = ''changed'' \<Longrightarrow>
   evaluateRule rx r c p = evaluate_changed r c p (start_result r c p)"
  by (simp add: evaluateRule_def Let_def)

definition changed_rule :: "string \<Rightarrow> cond_rule" where
  "changed_rule f = \<lparr>rl_id = ''r'', rl_field = f, rl_source = [], rl_path = [],
     rl_operator = ''changed'', rl_value = VNil, rl_value_source = [],
     rl_value_field = [], rl_value_path = []\<rparr>"

lemma state_in: "(\<exists>r \<in> set rs. rr_state r = s) = (s \<in> set (map rr_state rs))"
  by auto

lemma state_notin: "(\<forall>r \<in> set rs. rr_state r \<noteq> s) = (s \<notin> set (map rr_state rs))"
  by auto

lemma only_one_left:
  "S \<subseteq> {a, b, c} \<Longrightarrow> a \<notin> S \<Longrightarrow> c \<noteq> b \<Longrightarrow> (c \<in> S \<and> b \<notin> S) = (S = {c})"
  by blast

subsection \<open>Properties\<close>

text \<open>
  C1: \<open>EvaluateConditions\<close> combines the states of its rules as documented. Without rules
  the state is \<open>false\<close>. Under \<open>ALL\<close> it is \<open>false\<close> if a rule is false, else \<open>unknown\<close> if a rule
  is unknown, else \<open>true\<close>. Under \<open>ANY\<close> it is \<open>true\<close> if a rule is true, else \<open>unknown\<close> if every
  rule is unknown, else \<open>false\<close>. The details are the results of the rules, in their order.
\<close>

theorem conditions_state_spec:
  fixes rx config current previous
  defines "results \<equiv> map (\<lambda>r. evaluateRule rx r current previous) (cc_rules config)"
  defines "ev \<equiv> EvaluateConditions rx config current previous"
  shows "ev_details ev = results \<and>
    ev_state ev =
     (if results = [] then ''false''
      else if to_upper (cc_logic config) = ''ANY'' then
        (if \<exists>r \<in> set results. rr_state r = ''true'' then ''true''
         else if set (map rr_state results) = {''unknown''} then ''unknown'' else ''false'')
      else
        (if \<exists>r \<in> set results. rr_state r = ''false'' then ''false''
         else if \<exists>r \<in> set results. rr_state r = ''unknown'' then ''unknown'' else ''true''))"
proof (cases "cc_rules config = []")
  case True
  then show ?thesis by (simp add: ev_def results_def EvaluateConditions_def)
next
  case False
  have st: "rr_state r \<in> states3" if "r \<in> set results" for r
    using that by (auto simp: results_def evaluateRule_state)
  have unk: "list_ex (\<lambda>r. rr_state r \<noteq> ''true'' \<and> rr_state r \<noteq> ''false'') results \<longleftrightarrow>
      (\<exists>r \<in> set results. rr_state r = ''unknown'')"
  proof -
    have "rr_state r \<noteq> ''true'' \<and> rr_state r \<noteq> ''false'' \<longleftrightarrow> rr_state r = ''unknown''"
      if "r \<in> set results" for r
      using st [OF that] by (auto simp: states3_def)
    then show ?thesis by (auto simp: list_ex_iff)
  qed
  have ne: "results \<noteq> []" using False by (simp add: results_def)
  have ev: "ev = \<lparr>ev_state = combine_states (effective_logic (cc_logic config)) results,
      ev_details = results\<rparr>"
    using False by (simp add: ev_def results_def EvaluateConditions_def Let_def)
  show ?thesis
  proof (cases "to_upper (cc_logic config) = ''ANY''")
    case True
    have "(\<exists>r \<in> set results. rr_state r = ''unknown'') \<and> (\<forall>r \<in> set results. rr_state r \<noteq> ''false'') \<longleftrightarrow>
        set (map rr_state results) = {''unknown''}"
      if "\<not> (\<exists>r \<in> set results. rr_state r = ''true'')"
    proof -
      have "set (map rr_state results) \<subseteq> {''true'', ''false'', ''unknown''}"
        using st by (simp add: states3_def image_subset_iff)
      from only_one_left [OF this] that show ?thesis
        by (simp only: state_in state_notin) simp
    qed
    with True ne show ?thesis
      by (simp add: ev combine_states_def effective_logic_def count_state_pos count_state_zero unk)
  next
    case False
    with ne show ?thesis
      by (simp add: ev combine_states_def effective_logic_def count_state_pos unk)
  qed
qed

text \<open>
  Every rule ends in exactly one of the three states, its result carries the rule's id,
  operator and normalised field, and it is \<open>unknown\<close> exactly when a message explains why.
\<close>

theorem rule_result_well_formed:
  "rr_state (evaluateRule rx r c p) \<in> states3 \<and> rr_id (evaluateRule rx r c p) = rl_id r \<and>
   rr_operator (evaluateRule rx r c p) = rl_operator r \<and>
   rr_field (evaluateRule rx r c p) = normalizeField (rl_field r) \<and>
   (rr_state (evaluateRule rx r c p) = ''unknown'' \<longleftrightarrow>
     rr_message (evaluateRule rx r c p) \<notin> {None, Some BaselineEstablished})"
  by (simp add: evaluateRule_facts)

text \<open>
  A \<open>changed\<close> rule is \<open>false\<close> on the first run (the baseline), \<open>unknown\<close> when the value is
  missing from one of the two results, and otherwise true exactly when the two values
  differ as Go's \<open>reflect.DeepEqual\<close> sees them.
\<close>

theorem changed_rule_spec:
  assumes "rl_operator r = ''changed''"
  shows "rr_state (evaluateRule rx r c prev) =
    (case prev of
       None \<Rightarrow> ''false''
     | Some p \<Rightarrow>
         (case (lookupValue c (normalizeField (rl_field r)) (rl_path r),
                lookupValue p (normalizeField (rl_field r)) (rl_path r)) of
            (Some cv, Some pv) \<Rightarrow> boolState (\<not> deep_equal cv pv)
          | _ \<Rightarrow> ''unknown''))"
  using assms by (simp add: changed_eval evaluate_changed_def Let_def split: option.split)

lemma changed_rule_spec_witness:
  "rr_state (evaluateRule (\<lambda>_. None) (changed_rule ''code'') [(''code'', VNum (Fin 201))]
     (Some [(''code'', VNum (Fin 200))])) = ''true''"
  by (subst changed_rule_spec)
    (simp_all add: changed_rule_def lookupValue_def normalizeField_def trim_prefix_def Let_def)

text \<open>
  The runner writes the execution time into the current result as an \<open>int64\<close>, while the
  previous result comes from the database, where every number is a \<open>float64\<close>. A \<open>changed\<close>
  rule on such a field is therefore true in every run, also when the time did not change.
\<close>

theorem changed_on_int64_always_true:
  assumes "rl_operator r = ''changed''"
    and "lookupValue c (normalizeField (rl_field r)) (rl_path r) = Some (VI64 d)"
    and "lookupValue p (normalizeField (rl_field r)) (rl_path r) = Some (from_json v)"
  shows "rr_state (evaluateRule rx r c (Some p)) = ''true''"
proof -
  have "\<not> deep_equal (VI64 d) (from_json v)"
    using from_json_no_int(1) [of v d] by simp
  with assms show ?thesis by (simp add: changed_eval evaluate_changed_def Let_def)
qed

lemma changed_on_int64_always_true_witness:
  "rr_state (evaluateRule (\<lambda>_. None) (changed_rule ''duration_ms'') [(''duration_ms'', VI64 5)]
     (Some [(''duration_ms'', from_json (VI64 5))])) = ''true''"
  by (rule changed_on_int64_always_true [where d = 5 and v = "VI64 5"])
    (simp_all add: changed_rule_def lookupValue_def normalizeField_def trim_prefix_def Let_def)

text \<open>
  On two numbers of which none is NaN the four comparisons are consistent: \<open>gte\<close> negates
  \<open>lt\<close>, \<open>lte\<close> negates \<open>gt\<close>, \<open>gt\<close> mirrors \<open>lt\<close>, and \<open>gte\<close> together with \<open>lte\<close> is numeric equality,
  which is what \<open>equals\<close> tests.
\<close>

theorem numeric_operators_consistent:
  assumes "numberValue v = Inr x" and "numberValue w = Inr y" and "\<not> is_nan x" and "\<not> is_nan y"
  shows "apply_operator rx ''gte'' v w = map_sum id Not (apply_operator rx ''lt'' v w) \<and>
    apply_operator rx ''lte'' v w = map_sum id Not (apply_operator rx ''gt'' v w) \<and>
    apply_operator rx ''gt'' v w = apply_operator rx ''lt'' w v \<and>
    apply_operator rx ''equals'' v w =
      Inr (apply_operator rx ''gte'' v w = Inr True \<and> apply_operator rx ''lte'' v w = Inr True)"
proof -
  have low: "op_kind (to_lower ''gte'') = OpCompare" "op_kind (to_lower ''lte'') = OpCompare"
    "op_kind (to_lower ''gt'') = OpCompare" "op_kind (to_lower ''lt'') = OpCompare"
    "op_kind (to_lower ''equals'') = OpEquals"
    by code_simp+
  note ops = apply_operator_def low compare_numbers_def assms f64_gt_def f64_ge_def
  have "f64_eq x y \<longleftrightarrow> f64_le y x \<and> f64_le x y"
    using f64_eq_sym f64_lt_asym f64_le_def by blast
  then show ?thesis
    using assms by (simp add: ops valuesEqual_def f64_le_total)
qed

lemma numeric_operators_consistent_witness:
  "apply_operator (\<lambda>_. None) ''gte'' (VNum (Fin 3)) (VNum (Fin 2)) =
     map_sum id Not (apply_operator (\<lambda>_. None) ''lt'' (VNum (Fin 3)) (VNum (Fin 2)))"
  using numeric_operators_consistent [of "VNum (Fin 3)" "Fin 3" "VNum (Fin 2)" "Fin 2" "\<lambda>_. None"]
  by (simp only: numberValue_def val.case is_nan_def f64.distinct not_False_eq_True simp_thms)

text \<open>
  The code folds the case of the operator to select the numeric comparison but compares
  the operator as written to perform it, so an operator such as \<open>GT\<close> is accepted and its
  rule is false for every pair of numbers.
\<close>

theorem mixed_case_comparison_never_matches:
  assumes "op_kind (to_lower op) = OpCompare" and "op \<notin> {''gt'', ''gte'', ''lt'', ''lte''}"
    and "numberValue v = Inr x" and "numberValue w = Inr y"
  shows "apply_operator rx op v w = Inr False"
  using assms by (simp add: apply_operator_def compare_numbers_def)

lemma mixed_case_comparison_never_matches_witness:
  "apply_operator (\<lambda>_. None) ''GT'' (VNum (Fin 3)) (VNum (Fin 2)) = Inr False"
proof -
  have "op_kind (to_lower ''GT'') = OpCompare" by code_simp
  then show ?thesis
    using mixed_case_comparison_never_matches
      [of "''GT''" "VNum (Fin 3)" "Fin 3" "VNum (Fin 2)" "Fin 2" "\<lambda>_. None"]
    by (simp add: numberValue_def)
qed

text \<open>
  \<open>equals\<close> holds between a value and itself exactly when the value is not read as the
  number NaN. The text \<open>NaN\<close> is read as one, so a field with this text does not equal it.
\<close>

theorem equals_reflexive_iff:
  "valuesEqual v v \<longleftrightarrow> numberValue v \<noteq> Inr NaN"
  by (cases "numberValue v") (auto simp: valuesEqual_def f64_eq_refl is_nan_def)

lemma contains_dot_iff: "contains_str f ''.'' \<longleftrightarrow> CHR ''.'' \<in> set f"
proof -
  have "contains_str f [c] \<longleftrightarrow> c \<in> set f" for c
    by (simp add: contains_str_iff in_set_conv_decomp)
  then show ?thesis .
qed

lemma walk_parts_append:
  "walk_parts v (ps @ qs) = Option.bind (walk_parts v ps) (\<lambda>w. walk_parts w qs)"
  by (induction v ps rule: walk_parts.induct) (auto split: val.split option.split)

lemma lookup_dotted:
  assumes "get base f = None" and "CHR ''.'' \<in> set f"
  shows "lookupValue base f path = Option.bind (walk_parts (VObj base) (split_on (CHR ''.'') f))
     (\<lambda>v. if path = [] then Some v else walk_parts v (split_on (CHR ''.'') (trim_prefix path ''.'')))"
  using assms by (simp add: lookupValue_def contains_dot_iff split: option.split)

text \<open>
  A field written with dots addresses nested objects: unless the whole field is itself a
  key of the result, \<open>lookupValue\<close> walks the parts one by one, and a path is followed from
  there in the same way, whether or not it starts with a dot.
\<close>

theorem dotted_field_lookup:
  assumes "ps \<noteq> []" and "\<forall>p \<in> set (ps @ qs). CHR ''.'' \<notin> set p"
    and "get base (join_with ''.'' ps) = None" and "2 \<le> length ps"
    and "qs \<noteq> []" and "hd qs \<noteq> []"
  shows "lookupValue base (join_with ''.'' ps) [] = walk_parts (VObj base) ps \<and>
    lookupValue base (join_with ''.'' ps) (join_with ''.'' qs) = walk_parts (VObj base) (ps @ qs) \<and>
    lookupValue base (join_with ''.'' ps) (CHR ''.'' # join_with ''.'' qs) = walk_parts (VObj base) (ps @ qs)"
proof -
  obtain p1 p2 ps' where ps: "ps = p1 # p2 # ps'"
    using assms(4) by (cases ps rule: remdups_adj.cases) auto
  obtain c q qs' where q: "qs = (c # q) # qs'" using assms(5,6) by (cases qs; cases "hd qs") auto
  have dot: "CHR ''.'' \<in> set (join_with ''.'' ps)" by (simp add: ps)
  have sp: "split_on (CHR ''.'') (join_with ''.'' ps) = ps"
    and sq: "split_on (CHR ''.'') (join_with ''.'' qs) = qs"
    using assms by (auto intro!: split_join)
  have nodot: "trim_prefix (join_with ''.'' qs) ''.'' = join_with ''.'' qs"
    using assms(2) by (cases qs') (auto simp: q trim_prefix_def)
  have ne: "join_with ''.'' qs \<noteq> []" by (cases qs') (auto simp: q)
  have cons: "trim_prefix (CHR ''.'' # s) ''.'' = s" for s
    using trim_prefix_append [of "''.''" s] by simp
  show ?thesis
    by (simp add: lookup_dotted [OF assms(3) dot] sp sq nodot ne cons walk_parts_append)
qed

lemma dotted_field_lookup_witness:
  "lookupValue [(''a'', VObj [(''b'', VObj [(''c'', VBool True)])])] ''a.b'' ''.c'' = Some (VBool True)"
  using dotted_field_lookup [of "[''a'', ''b'']" "[''c'']" "[(''a'', VObj [(''b'', VObj [(''c'', VBool True)])])]"]
  by simp

end
