(* ===== verification/Texts.thy ===== *)
theory Texts
  imports GoStrings
begin

section \<open>The user-visible texts of the program\<close>

text \<open>
  The source is written with Chinese texts; a definition below is the UTF-8 encoding of
  one of them, named after its meaning. The functions that use them are in the theories
  of their components.
\<close>

definition utf8 :: "nat list \<Rightarrow> string" where
  "utf8 bs = map byte bs"

subsection \<open>Status samples\<close>

definition txt_unknown :: string where "txt_unknown = utf8 [230, 156, 170, 231, 159, 165]"
definition txt_success :: string where "txt_success = utf8 [230, 136, 144, 229, 138, 159]"
definition txt_failure :: string where "txt_failure = utf8 [229, 164, 177, 232, 180, 165]"
definition txt_normal :: string where "txt_normal = utf8 [230, 173, 163, 229, 184, 184]"
definition txt_warning :: string where "txt_warning = utf8 [232, 173, 166, 229, 145, 138]"
definition txt_empty :: string where "txt_empty = utf8 [231, 169, 186]"
definition txt_no_value :: string where "txt_no_value = utf8 [230, 151, 160, 229, 128, 188]"

subsection \<open>Execution summary\<close>

definition txt_exec_result :: string where "txt_exec_result = utf8 [230, 137, 167, 232, 161, 140, 231, 187, 147, 230, 158, 156, 239, 188, 154]"
definition txt_exec_duration :: string where "txt_exec_duration = utf8 [230, 137, 167, 232, 161, 140, 232, 128, 151, 230, 151, 182, 239, 188, 154]"
definition txt_error_code :: string where "txt_error_code = utf8 [233, 148, 153, 232, 175, 175, 228, 187, 163, 231, 160, 129, 239, 188, 154]"
definition txt_error_message :: string where "txt_error_message = utf8 [233, 148, 153, 232, 175, 175, 228, 191, 161, 230, 129, 175, 239, 188, 154]"
definition txt_event_type :: string where "txt_event_type = utf8 [228, 186, 139, 228, 187, 182, 231, 177, 187, 229, 158, 139, 239, 188, 154]"
definition txt_condition_state :: string where "txt_condition_state = utf8 [230, 157, 161, 228, 187, 182, 231, 138, 182, 230, 128, 129, 239, 188, 154]"
definition txt_condition_unset :: string where "txt_condition_unset = utf8 [230, 157, 161, 228, 187, 182, 231, 138, 182, 230, 128, 129, 239, 188, 154, 230, 156, 170, 233, 133, 141, 231, 189, 174]"
definition txt_open_paren :: string where "txt_open_paren = utf8 [239, 188, 136]"
definition txt_close_paren :: string where "txt_close_paren = utf8 [239, 188, 137]"
definition txt_logic_matched :: string where "txt_logic_matched = utf8 [32, 233, 128, 187, 232, 190, 145, 239, 188, 140, 230, 187, 161, 232, 182, 179, 32]"
definition txt_items_close :: string where "txt_items_close = utf8 [32, 230, 157, 161, 239, 188, 137]"
definition txt_condition_details :: string where "txt_condition_details = utf8 [230, 157, 161, 228, 187, 182, 232, 175, 166, 230, 131, 133, 239, 188, 154]"
definition txt_dot :: string where "txt_dot = utf8 [32, 194, 183, 32]"
definition txt_expected :: string where "txt_expected = utf8 [230, 156, 159, 230, 156, 155, 239, 188, 154]"
definition txt_actual :: string where "txt_actual = utf8 [239, 188, 155, 229, 174, 158, 233, 153, 133, 229, 128, 188, 239, 188, 154]"
definition txt_actual_missing :: string where "txt_actual_missing = utf8 [239, 188, 155, 229, 174, 158, 233, 153, 133, 229, 128, 188, 239, 188, 154, 231, 188, 186, 229, 164, 177]"
definition txt_note :: string where "txt_note = utf8 [239, 188, 155, 232, 175, 180, 230, 152, 142, 239, 188, 154]"
definition txt_triggered :: string where "txt_triggered = utf8 [229, 183, 178, 232, 167, 166, 229, 143, 145]"
definition txt_recovered :: string where "txt_recovered = utf8 [229, 183, 178, 230, 129, 162, 229, 164, 141]"
definition txt_no_event :: string where "txt_no_event = utf8 [230, 151, 160, 228, 186, 139, 228, 187, 182]"
definition txt_undetermined :: string where "txt_undetermined = utf8 [230, 156, 170, 231, 161, 174, 229, 174, 154]"
definition txt_satisfied :: string where "txt_satisfied = utf8 [230, 187, 161, 232, 182, 179]"
definition txt_unsatisfied :: string where "txt_unsatisfied = utf8 [228, 184, 141, 230, 187, 161, 232, 182, 179]"
definition txt_previous_result :: string where "txt_previous_result = utf8 [228, 184, 138, 228, 184, 128, 230, 172, 161, 231, 187, 147, 230, 158, 156]"
definition txt_current_result :: string where "txt_current_result = utf8 [229, 189, 147, 229, 137, 141, 231, 187, 147, 230, 158, 156]"

definition operator_texts :: "(string \<times> string) list" where
  "operator_texts =
     [(''equals'', utf8 [231, 173, 137, 228, 186, 142]), (''eq'', utf8 [231, 173, 137, 228, 186, 142]),
      (''not_equals'', utf8 [228, 184, 141, 231, 173, 137, 228, 186, 142]), (''neq'', utf8 [228, 184, 141, 231, 173, 137, 228, 186, 142]),
      (''contains'', utf8 [229, 140, 133, 229, 144, 171]), (''not_contains'', utf8 [228, 184, 141, 229, 140, 133, 229, 144, 171]),
      (''regex'', utf8 [229, 140, 185, 233, 133, 141, 230, 173, 163, 229, 136, 153]), (''gt'', utf8 [229, 164, 167, 228, 186, 142]), (''gte'', utf8 [229, 164, 167, 228, 186, 142, 231, 173, 137, 228, 186, 142]),
      (''lt'', utf8 [229, 176, 143, 228, 186, 142]), (''lte'', utf8 [229, 176, 143, 228, 186, 142, 231, 173, 137, 228, 186, 142]), (''between'', utf8 [228, 187, 139, 228, 186, 142]),
      (''length_gt'', utf8 [233, 149, 191, 229, 186, 166, 229, 164, 167, 228, 186, 142]), (''length_eq'', utf8 [233, 149, 191, 229, 186, 166, 231, 173, 137, 228, 186, 142]),
      (''is_true'', utf8 [228, 184, 186, 231, 156, 159]), (''is_false'', utf8 [228, 184, 186, 229, 129, 135]), (''exists'', utf8 [229, 173, 152, 229, 156, 168]),
      (''not_exists'', utf8 [228, 184, 141, 229, 173, 152, 229, 156, 168]), (''changed'', utf8 [229, 143, 145, 231, 148, 159, 229, 143, 152, 229, 140, 150])]"

subsection \<open>Status board\<close>

definition txt_whole_condition :: string where "txt_whole_condition = utf8 [230, 149, 180, 228, 189, 147, 230, 157, 161, 228, 187, 182]"
definition txt_condition_n :: string where "txt_condition_n = utf8 [230, 157, 161, 228, 187, 182, 32]"
definition txt_trend_rule_n :: string where "txt_trend_rule_n = utf8 [232, 182, 139, 229, 138, 191, 232, 167, 132, 229, 136, 153, 32]"
definition txt_board :: string where "txt_board = utf8 [231, 138, 182, 230, 128, 129, 231, 156, 139, 230, 157, 191, 226, 128, 156]"
definition txt_of_rule :: string where "txt_of_rule = utf8 [226, 128, 157, 231, 154, 132, 232, 182, 139, 229, 138, 191, 232, 167, 132, 229, 136, 153, 226, 128, 156]"
definition txt_quote_close :: string where "txt_quote_close = utf8 [226, 128, 157]"
definition txt_colon :: string where "txt_colon = utf8 [239, 188, 154]"
definition txt_window :: string where "txt_window = utf8 [231, 170, 151, 229, 143, 163, 32]"
definition txt_times :: string where "txt_times = utf8 [32, 230, 172, 161]"
definition txt_consecutive :: string where "txt_consecutive = utf8 [32, 230, 172, 161, 239, 188, 140, 232, 191, 158, 231, 187, 173, 229, 188, 130, 229, 184, 184, 32]"
definition txt_abnormal :: string where "txt_abnormal = utf8 [32, 230, 172, 161, 239, 188, 140, 229, 188, 130, 229, 184, 184, 32]"
definition txt_at_least :: string where "txt_at_least = utf8 [32, 230, 172, 161, 239, 188, 136, 232, 135, 179, 229, 176, 145, 32]"
definition txt_times_close :: string where "txt_times_close = utf8 [32, 230, 172, 161, 239, 188, 137]"
definition txt_average :: string where "txt_average = utf8 [32, 230, 172, 161, 239, 188, 140, 229, 185, 179, 229, 157, 135, 229, 128, 188, 32]"
definition txt_delta :: string where "txt_delta = utf8 [32, 230, 172, 161, 239, 188, 140, 229, 143, 152, 229, 140, 150, 233, 135, 143, 32]"
definition txt_slope :: string where "txt_slope = utf8 [32, 230, 172, 161, 239, 188, 140, 232, 182, 139, 229, 138, 191, 230, 150, 156, 231, 142, 135, 32]"
definition txt_threshold :: string where "txt_threshold = utf8 [32, 233, 152, 136, 229, 128, 188, 32]"
definition txt_not_equal :: string where "txt_not_equal = utf8 [228, 184, 141, 231, 173, 137, 228, 186, 142]"

subsection \<open>Result sets common to all modules\<close>

definition txt_exec_summary :: string where "txt_exec_summary = utf8 [230, 137, 167, 232, 161, 140, 230, 145, 152, 232, 166, 129]"
definition txt_summary_description :: string where
  "txt_summary_description = utf8 [230, 156, 172, 230, 172, 161, 231, 155, 145, 230, 142, 167, 228, 187, 187, 229, 138, 161, 231, 154, 132, 230, 137, 167, 232, 161, 140, 231, 187, 147, 230, 158, 156, 227, 128, 129, 232, 167, 166, 229, 143, 145, 231, 138, 182, 230, 128, 129, 229, 146, 140, 230, 157, 161, 228, 187, 182, 232, 175, 166, 230, 131, 133, 227, 128, 130]"

definition common_field_labels :: "string list" where
  "common_field_labels =
     [utf8 [230, 137, 167, 232, 161, 140, 231, 187, 147, 230, 158, 156], utf8 [230, 152, 175, 229, 144, 166, 232, 167, 166, 229, 143, 145], utf8 [230, 157, 161, 228, 187, 182, 231, 138, 182, 230, 128, 129], utf8 [228, 186, 139, 228, 187, 182, 231, 177, 187, 229, 158, 139], utf8 [230, 157, 161, 228, 187, 182, 231, 187, 132, 229, 144, 136, 233, 128, 187, 232, 190, 145], utf8 [230, 187, 161, 232, 182, 179, 230, 157, 161, 228, 187, 182, 230, 149, 176],
      utf8 [230, 157, 161, 228, 187, 182, 232, 175, 166, 230, 131, 133], utf8 [230, 137, 167, 232, 161, 140, 232, 128, 151, 230, 151, 182], utf8 [233, 148, 153, 232, 175, 175, 228, 187, 163, 231, 160, 129], utf8 [233, 148, 153, 232, 175, 175, 228, 191, 161, 230, 129, 175], utf8 [230, 137, 167, 232, 161, 140, 230, 145, 152, 232, 166, 129]]"

subsection \<open>Schedules\<close>

definition txt_every :: string where "txt_every = utf8 [230, 175, 143, 32]"
definition txt_run_once :: string where "txt_run_once = utf8 [32, 230, 137, 167, 232, 161, 140, 228, 184, 128, 230, 172, 161]"
definition txt_seconds_once :: string where "txt_seconds_once = utf8 [32, 231, 167, 146, 230, 137, 167, 232, 161, 140, 228, 184, 128, 230, 172, 161]"
definition txt_minutes_once :: string where "txt_minutes_once = utf8 [32, 229, 136, 134, 233, 146, 159, 230, 137, 167, 232, 161, 140, 228, 184, 128, 230, 172, 161]"
definition txt_custom_cron :: string where "txt_custom_cron = utf8 [230, 140, 137, 232, 135, 170, 229, 174, 154, 228, 185, 137, 32, 67, 114, 111, 110, 32, 232, 174, 161, 229, 136, 146, 230, 137, 167, 232, 161, 140]"
definition txt_each_minute :: string where "txt_each_minute = utf8 [230, 175, 143, 229, 136, 134, 233, 146, 159, 230, 137, 167, 232, 161, 140, 228, 184, 128, 230, 172, 161]"
definition txt_hourly_at :: string where "txt_hourly_at = utf8 [230, 175, 143, 229, 176, 143, 230, 151, 182, 231, 172, 172, 32]"
definition txt_minute_run :: string where "txt_minute_run = utf8 [32, 229, 136, 134, 233, 146, 159, 230, 137, 167, 232, 161, 140]"
definition txt_daily :: string where "txt_daily = utf8 [230, 175, 143, 229, 164, 169, 32]"
definition txt_workdays :: string where "txt_workdays = utf8 [230, 175, 143, 228, 184, 170, 229, 183, 165, 228, 189, 156, 230, 151, 165, 32]"
definition txt_monthly :: string where "txt_monthly = utf8 [230, 175, 143, 230, 156, 136, 32]"
definition txt_day :: string where "txt_day = utf8 [32, 230, 151, 165, 32]"
definition txt_run :: string where "txt_run = utf8 [32, 230, 137, 167, 232, 161, 140]"

definition descriptor_texts :: "(string \<times> string) list" where
  "descriptor_texts =
     [(''@yearly'', utf8 [230, 175, 143, 229, 185, 180, 230, 137, 167, 232, 161, 140, 228, 184, 128, 230, 172, 161]), (''@annually'', utf8 [230, 175, 143, 229, 185, 180, 230, 137, 167, 232, 161, 140, 228, 184, 128, 230, 172, 161]),
      (''@monthly'', utf8 [230, 175, 143, 230, 156, 136, 230, 137, 167, 232, 161, 140, 228, 184, 128, 230, 172, 161]), (''@weekly'', utf8 [230, 175, 143, 229, 145, 168, 230, 137, 167, 232, 161, 140, 228, 184, 128, 230, 172, 161]),
      (''@daily'', utf8 [230, 175, 143, 229, 164, 169, 230, 137, 167, 232, 161, 140, 228, 184, 128, 230, 172, 161]), (''@midnight'', utf8 [230, 175, 143, 229, 164, 169, 233, 155, 182, 231, 130, 185, 230, 137, 167, 232, 161, 140]),
      (''@hourly'', utf8 [230, 175, 143, 229, 176, 143, 230, 151, 182, 230, 137, 167, 232, 161, 140, 228, 184, 128, 230, 172, 161])]"

text \<open>The name of the built-in channel.\<close>

definition txt_inapp_channel :: string where "txt_inapp_channel = utf8 [231, 171, 153, 229, 134, 133, 233, 128, 154, 231, 159, 165]"

end
