(* ===== verification/Domain.thy ===== *)
theory Domain
  imports Conditions Texts
begin

section \<open>The domain model (internal/core)\<close>

text \<open>
  The records of \<open>domain.go\<close>, \<open>status_board.go\<close> and \<open>results.go\<close>, field by field. A
  \<open>json.RawMessage\<close> field whose content the host decodes is the decoded value, with
  \<open>None\<close> where the text does not decode; the configuration of a module or a notifier
  stays a value that only the module reads. Numbers that Go keeps as \<open>int\<close> or \<open>int64\<close> and
  never computes beyond small sums are \<open>int\<close>.
\<close>

subsection \<open>Descriptors\<close>

record result_field =
  rf_name :: string
  rf_label :: string
  rf_description :: string
  rf_type :: string
  rf_format :: string
  rf_unit :: string
  rf_operators :: "string list"
  rf_path :: bool

record result_set =
  st_key :: string
  st_label :: string
  st_description :: string
  st_scope :: string
  st_fields :: "result_field list"

record field_descriptor =
  fd_name :: string
  fd_label :: string
  fd_type :: string
  fd_operators :: "string list"
  fd_path :: bool

record module_descriptor =
  md_type :: string
  md_version :: string
  md_config_version :: string
  md_result_schema_version :: string
  md_plugin_id :: string
  md_plugin_name :: string
  md_name :: string
  md_description :: string
  md_fields :: "field_descriptor list"
  md_result_sets :: "result_set list"

subsection \<open>Executions, notifications and monitors\<close>

record observation =
  ob_success :: bool
  ob_schema_version :: string
  ob_result :: "obj option"
  ob_result_sets :: "obj go_map"
  ob_summary :: string
  ob_error_code :: string
  ob_error_message :: string

record notification_event =
  ne_id :: string
  ne_source :: string
  ne_event_type :: string
  ne_monitor_id :: string
  ne_record_id :: string
  ne_monitor_name :: string
  ne_module_type :: string
  ne_triggered_at :: time
  ne_condition_state :: string
  ne_summary :: string
  ne_previous_result :: "obj option"
  ne_current_result :: obj
  ne_condition_detail :: "rule_result list"
  ne_item_id :: string
  ne_item_name :: string
  ne_rule_id :: string
  ne_rule_name :: string
  ne_trend_detail :: "obj option"

record delivery =
  dl_status :: string
  dl_attempts :: int
  dl_message :: string

record record_event =
  re_id :: string
  re_source :: string
  re_event_type :: string
  re_item_id :: string
  re_item_name :: string
  re_rule_id :: string
  re_rule_name :: string
  re_trend_detail :: "obj option"
  re_summary :: string
  re_deliveries :: "delivery go_map"

record delivery_record =
  dr_id :: string
  dr_event_id :: string
  dr_source :: string
  dr_event_type :: string
  dr_item_id :: string
  dr_rule_id :: string
  dr_channel_id :: string
  dr_notifier_type :: string
  dr_monitor_id :: string
  dr_record_id :: string
  dr_title :: string
  dr_content :: string
  dr_status :: string
  dr_attempts :: int
  dr_message :: string
  dr_read :: bool
  dr_created_at :: time
  dr_updated_at :: time
  dr_delivered_at :: "time option"
  dr_read_at :: "time option"

record runtime_state =
  rs_condition_active :: bool
  rs_last_record_id :: string
  rs_last_run_at :: time
  rs_last_success :: bool
  rs_last_summary :: string

definition zero_runtime_state :: runtime_state where
  "zero_runtime_state = \<lparr>rs_condition_active = False, rs_last_record_id = [],
     rs_last_run_at = zero_time, rs_last_success = False, rs_last_summary = []\<rparr>"

record monitor =
  mo_id :: string
  mo_name :: string
  mo_module_type :: string
  mo_module_version :: string
  mo_module_config_version :: string
  mo_schedules :: "string list"
  mo_enabled :: bool
  mo_module_config :: val
  mo_condition_config :: "cond_config option"
  mo_channel_ids :: "string list"
  mo_runtime_state :: "runtime_state option"
  mo_created_at :: time
  mo_updated_at :: time

record monitor_record =
  mr_id :: string
  mr_monitor_id :: string
  mr_module_type :: string
  mr_module_version :: string
  mr_started_at :: time
  mr_finished_at :: time
  mr_success :: bool
  mr_duration_ms :: int
  mr_schema_version :: string
  mr_result :: obj
  mr_result_hash :: string
  mr_condition_state :: string
  mr_event_type :: string
  mr_events :: "record_event list"
  mr_error_code :: string
  mr_error_message :: string

record channel =
  ch_id :: string
  ch_name :: string
  ch_notifier_type :: string
  ch_enabled :: bool
  ch_config :: val
  ch_created_at :: time
  ch_updated_at :: time
  ch_built_in :: bool

definition BuiltInNotificationChannelID :: string where
  "BuiltInNotificationChannelID = ''builtin-inapp''"

subsection \<open>The status board\<close>

record value_mapping =
  vm_value :: string
  vm_match_type :: string
  vm_level :: string
  vm_label :: string
  vm_color :: string

record status_source =
  ss_kind :: string
  ss_rule_id :: string
  ss_result_set :: string
  ss_field :: string
  ss_path :: string
  ss_value_type :: string
  ss_mappings :: "value_mapping list option"
  ss_default_level :: string
  ss_default_label :: string
  ss_default_color :: string

record threshold =
  th_maximum :: "f64 option"
  th_level :: string
  th_label :: string
  th_color :: string

record trend_rule =
  tr_id :: string
  tr_name :: string
  tr_type :: string
  tr_window :: int
  tr_minimum :: int
  tr_operator :: string
  tr_threshold :: f64
  tr_delta_mode :: string

record trend_rule_state =
  ts_active :: bool
  ts_last_record_id :: string

definition zero_trend_rule_state :: trend_rule_state where
  "zero_trend_rule_state = \<lparr>ts_active = False, ts_last_record_id = []\<rparr>"

record item_runtime =
  ir_started_at :: time
  ir_rules :: "trend_rule_state go_map option"

record status_item =
  si_id :: string
  si_name :: string
  si_monitor_id :: string
  si_enabled :: bool
  si_source :: status_source
  si_invert :: bool
  si_thresholds :: "threshold list"
  si_history_limit :: int
  si_trend_rules :: "trend_rule list"
  si_channel_ids :: "string list"
  si_runtime :: item_runtime
  si_created_at :: time
  si_updated_at :: time

record status_sample =
  sm_record_id :: string
  sm_started_at :: time
  sm_raw_value :: val
  sm_display :: string
  sm_state :: string
  sm_level :: string
  sm_color :: string
  sm_label :: string
  sm_height :: f64
  sm_numeric :: "f64 option"

subsection \<open>Result sets the runtime adds to every module (results.go)\<close>

definition common_field ::
    "string \<Rightarrow> string \<Rightarrow> string \<Rightarrow> string \<Rightarrow> string \<Rightarrow> string list \<Rightarrow> result_field" where
  "common_field name label type format unit operators =
     \<lparr>rf_name = name, rf_label = label, rf_description = [], rf_type = type,
      rf_format = format, rf_unit = unit, rf_operators = operators, rf_path = False\<rparr>"

definition text_operators :: "string list" where
  "text_operators = [''equals'', ''not_equals'', ''contains'', ''changed'']"

definition common_fields :: "(string \<times> string \<times> string \<times> string \<times> string list) list" where
  "common_fields =
     [(''success'', ''boolean'', [], [], [''is_true'', ''is_false'', ''changed'']),
      (''triggered'', ''boolean'', [], [], []),
      (''condition_state'', ''string'', [], [], []),
      (''event_type'', ''string'', [], [], []),
      (''condition_logic'', ''string'', [], [], []),
      (''matched_count'', ''number'', [], [], []),
      (''condition_details'', ''array'', ''condition_list'', [], []),
      (''duration_ms'', ''number'', [], ''ms'',
        [''equals'', ''gt'', ''gte'', ''lt'', ''lte'', ''changed'']),
      (''error_code'', ''string'', [], [], text_operators),
      (''error_message'', ''text'', [], [], text_operators),
      (''summary'', ''text'', [], [], text_operators)]"

definition CommonResultSets :: "result_set list" where
  "CommonResultSets =
     [\<lparr>st_key = ''summary'', st_label = txt_exec_summary,
       st_description = txt_summary_description, st_scope = ''common'',
       st_fields = map2 (\<lambda>(n, t, f, u, ops) label. common_field n label t f u ops)
         common_fields common_field_labels\<rparr>]"

fun add_module_sets :: "string list \<Rightarrow> result_set list \<Rightarrow> result_set list" where
  "add_module_sets seen [] = []"
| "add_module_sets seen (s # sets) =
     (if st_key s \<in> set seen then add_module_sets seen sets
      else s\<lparr>st_scope := (if st_scope s = [] then ''module'' else st_scope s)\<rparr> #
        add_module_sets (st_key s # seen) sets)"

definition WithCommonResultSets :: "module_descriptor \<Rightarrow> module_descriptor" where
  "WithCommonResultSets d =
     d\<lparr>md_result_sets := CommonResultSets @
         add_module_sets (rev (map st_key CommonResultSets)) (md_result_sets d)\<rparr>"

lemma add_module_sets_keys:
  "distinct (map st_key (add_module_sets seen sets)) \<and>
   set (map st_key (add_module_sets seen sets)) \<inter> set seen = {}"
  by (induction seen sets rule: add_module_sets.induct) auto

lemma add_module_sets_scope: "s \<in> set (add_module_sets seen sets) \<Longrightarrow> st_scope s \<noteq> []"
  by (induction seen sets rule: add_module_sets.induct) (auto split: if_splits)

lemma add_module_sets_skip:
  "set (map st_key xs) \<subseteq> set seen \<Longrightarrow> add_module_sets seen (xs @ ys) = add_module_sets seen ys"
  by (induction xs) auto

lemma add_module_sets_id:
  "distinct (map st_key sets) \<Longrightarrow> set (map st_key sets) \<inter> set seen = {} \<Longrightarrow>
   \<forall>s \<in> set sets. st_scope s \<noteq> [] \<Longrightarrow> add_module_sets seen sets = sets"
  by (induction seen sets rule: add_module_sets.induct) auto

lemma common_keys: "map st_key CommonResultSets = [''summary'']"
  by (simp add: CommonResultSets_def)

text \<open>
  Adding the runtime's result sets to a descriptor is idempotent; the set \<open>summary\<close> is
  always the runtime's own, in front, and the keys of the result are distinct, whatever
  sets the module declares.
\<close>

theorem with_common_result_sets_idempotent:
  "WithCommonResultSets (WithCommonResultSets d) = WithCommonResultSets d \<and>
   distinct (map st_key (md_result_sets (WithCommonResultSets d))) \<and>
   take 1 (md_result_sets (WithCommonResultSets d)) = CommonResultSets"
proof -
  let ?r = "add_module_sets [''summary''] (md_result_sets d)"
  have keys: "distinct (map st_key ?r)" "set (map st_key ?r) \<inter> {''summary''} = {}"
    using add_module_sets_keys [of "[''summary'']"] by auto
  have "add_module_sets [''summary''] (CommonResultSets @ ?r) = ?r"
    using keys add_module_sets_scope
    by (subst add_module_sets_skip) (auto simp: common_keys intro!: add_module_sets_id)
  moreover have "length CommonResultSets = 1" by (simp add: CommonResultSets_def)
  ultimately show ?thesis
    using keys by (auto simp: WithCommonResultSets_def common_keys)
qed

end
