(* ===== verification/StatusEval.thy ===== *)
theory StatusEval
  imports Domain
begin

section \<open>Samples and trends of the status board (internal/statusboard/evaluator.go)\<close>

text \<open>
  A status item turns each record of its monitor into a sample (a level, a state and a
  display text), and its trend rules look at a window of the latest samples. The
  floating-point computations of the height, the average and the slope are the code's
  operations in its order (without fused multiply-add).
\<close>

definition lv_success :: string where "lv_success = ''success''"
definition lv_warning :: string where "lv_warning = ''warning''"
definition lv_failure :: string where "lv_failure = ''failure''"
definition lv_unknown :: string where "lv_unknown = ''unknown''"

lemmas lv_defs = lv_success_def lv_warning_def lv_failure_def lv_unknown_def

subsection \<open>Extracting the value of a record\<close>

definition str_field :: "obj \<Rightarrow> string \<Rightarrow> string" where
  "str_field m k = (case get m k of Some (VStr s) \<Rightarrow> s | _ \<Rightarrow> [])"

text \<open>The pairs of id and state that \<open>decodeConditionDetails\<close> reads through JSON: none where
  the value cannot be encoded.\<close>

definition decodeConditionDetails :: "val \<Rightarrow> (string \<times> string) list" where
  "decodeConditionDetails v =
     (if json_marshal v = None then []
      else (case v of
        VArr xs \<Rightarrow> map (\<lambda>x. case x of VObj m \<Rightarrow> (str_field m ''id'', str_field m ''state'') | _ \<Rightarrow> ([], [])) xs
      | _ \<Rightarrow> []))"

definition state_value :: "string \<Rightarrow> val option" where
  "state_value s =
     (if s = ''true'' then Some (VBool True)
      else if s = ''false'' then Some (VBool False) else None)"

definition extractValue :: "status_source \<Rightarrow> monitor_record \<Rightarrow> val option" where
  "extractValue source record =
     (if ss_kind source = ''condition_overall'' then state_value (mr_condition_state record)
      else if ss_kind source = ''condition_rule'' then
        (case get (mr_result record) ''summary'' of
           Some (VObj summary) \<Rightarrow>
             (case find_first (\<lambda>d. fst d = ss_rule_id source)
                (decodeConditionDetails
                  (case get summary ''condition_details'' of Some v \<Rightarrow> v | None \<Rightarrow> VNil)) of
                Some d \<Rightarrow> state_value (snd d)
              | None \<Rightarrow> None)
         | _ \<Rightarrow> None)
      else if ss_kind source = ''result_field'' then
        LookupResultValue (mr_result record)
          (if ss_result_set source \<noteq> [] \<and> ss_result_set source \<noteq> ''result''
           then ss_result_set source @ ''.'' @ ss_field source else ss_field source)
          (ss_path source)
      else None)"

subsection \<open>Levels\<close>

definition applySampleLevel :: "status_sample \<Rightarrow> string \<Rightarrow> string \<Rightarrow> string \<Rightarrow> status_sample" where
  "applySampleLevel sample level label color =
     sample\<lparr>sm_level := level, sm_label := label, sm_color := color,
       sm_state := (if level = lv_success then lv_success else lv_failure)\<rparr>"

definition matchNumericValueMapping :: "value_mapping list \<Rightarrow> f64 \<Rightarrow> value_mapping option" where
  "matchNumericValueMapping mappings v =
     find_first (\<lambda>m. case parse_float (trim_space (vm_value m)) of
         Inr x \<Rightarrow> f64_eq x v | Inl _ \<Rightarrow> False) mappings"

type_synonym matcher = "value_mapping \<times> (string \<Rightarrow> bool) option"

definition compileTextValueMappings :: "regex \<Rightarrow> value_mapping list \<Rightarrow> matcher list" where
  "compileTextValueMappings rx mappings =
     map (\<lambda>m. (m, if vm_match_type m = ''regex'' then rx (vm_value m) else None)) mappings"

definition matchTextValueMapping :: "matcher list \<Rightarrow> string \<Rightarrow> value_mapping option" where
  "matchTextValueMapping matchers v =
     map_option fst (find_first (\<lambda>(m, re).
       (case re of Some f \<Rightarrow> f v | None \<Rightarrow> False) \<or>
       (vm_match_type m \<noteq> ''regex'' \<and> vm_value m = v)) matchers)"

definition matchThreshold :: "threshold list \<Rightarrow> f64 \<Rightarrow> threshold option" where
  "matchThreshold thresholds v =
     find_first (\<lambda>t. case th_maximum t of None \<Rightarrow> True | Some m \<Rightarrow> f64_le v m) thresholds"

subsection \<open>Building samples\<close>

definition mappings_of :: "status_source \<Rightarrow> value_mapping list" where
  "mappings_of source = (case ss_mappings source of None \<Rightarrow> [] | Some ms \<Rightarrow> ms)"

definition unknown_sample :: "monitor_record \<Rightarrow> status_sample" where
  "unknown_sample record =
     \<lparr>sm_record_id = mr_id record, sm_started_at = mr_started_at record, sm_raw_value = VNil,
      sm_display = txt_unknown, sm_state = lv_unknown, sm_level = lv_unknown, sm_color = [],
      sm_label = [], sm_height = Fin 28, sm_numeric = None\<rparr>"

definition boolean_sample :: "status_item \<Rightarrow> status_sample \<Rightarrow> val \<Rightarrow> status_sample" where
  "boolean_sample item sample v =
     (case v of
        VBool b0 \<Rightarrow>
          (let b = (if si_invert item then \<not> b0 else b0);
               s = sample\<lparr>sm_display := bool_str b, sm_height := Fin 100\<rparr>
           in if b then s\<lparr>sm_state := lv_success, sm_level := lv_success, sm_label := txt_success\<rparr>
              else s\<lparr>sm_state := lv_failure, sm_level := lv_failure, sm_label := txt_failure\<rparr>)
      | _ \<Rightarrow> sample)"

definition number_sample :: "status_item \<Rightarrow> status_sample \<Rightarrow> val \<Rightarrow> status_sample" where
  "number_sample item sample v =
     (case numberValue v of
        Inl _ \<Rightarrow> sample
      | Inr x \<Rightarrow>
          if is_nan x \<or> is_inf x then sample
          else (let s = sample\<lparr>sm_numeric := Some x, sm_display := format_f x\<rparr> in
            case matchNumericValueMapping (mappings_of (si_source item)) x of
              Some m \<Rightarrow> applySampleLevel s (vm_level m) (vm_label m) (vm_color m)
            | None \<Rightarrow>
                (case matchThreshold (si_thresholds item) x of
                   None \<Rightarrow> s
                 | Some t \<Rightarrow> applySampleLevel s (th_level t) (th_label t) (th_color t))))"

definition text_sample ::
    "status_item \<Rightarrow> matcher list \<Rightarrow> status_sample \<Rightarrow> val \<Rightarrow> status_sample" where
  "text_sample item matchers sample v =
     (case v of
        VStr text \<Rightarrow>
          (let s = sample\<lparr>sm_raw_value := VStr text,
                 sm_display := (if trim_space text = [] then txt_empty else text),
                 sm_height := Fin 100\<rparr>
           in case matchTextValueMapping matchers text of
                Some m \<Rightarrow> applySampleLevel s (vm_level m) (vm_label m) (vm_color m)
              | None \<Rightarrow>
                  applySampleLevel s
                    (if ss_default_level (si_source item) = [] then lv_success
                     else ss_default_level (si_source item))
                    (if ss_default_label (si_source item) = [] then txt_normal
                     else ss_default_label (si_source item))
                    (ss_default_color (si_source item)))
      | _ \<Rightarrow> sample)"

definition buildSample :: "status_item \<Rightarrow> matcher list \<Rightarrow> monitor_record \<Rightarrow> status_sample" where
  "buildSample item matchers record =
     (case extractValue (si_source item) record of
        None \<Rightarrow> unknown_sample record
      | Some v \<Rightarrow>
          (let sample = (unknown_sample record)\<lparr>sm_raw_value := v\<rparr> in
           if ss_value_type (si_source item) = ''boolean'' then boolean_sample item sample v
           else if ss_value_type (si_source item) = ''number'' then number_sample item sample v
           else if ss_value_type (si_source item) = ''text'' then text_sample item matchers sample v
           else sample))"

definition numerics :: "status_sample list \<Rightarrow> f64 list" where
  "numerics samples = List.map_filter sm_numeric samples"

definition sample_height :: "f64 \<Rightarrow> f64 \<Rightarrow> f64 \<Rightarrow> f64" where
  "sample_height lo hi x =
     (if f64_eq lo hi then Fin 100
      else f64_add (Fin 10) (f64_mul (f64_div (f64_sub x lo) (f64_sub hi lo)) (Fin 90)))"

definition scaleNumericSamples :: "status_sample list \<Rightarrow> status_sample list" where
  "scaleNumericSamples samples =
     (let lo = fold (\<lambda>x m. f64_min m x) (numerics samples) PInf;
          hi = fold (\<lambda>x m. f64_max m x) (numerics samples) NInf
      in if is_inf lo then samples
         else map (\<lambda>s. case sm_numeric s of
                None \<Rightarrow> s | Some x \<Rightarrow> s\<lparr>sm_height := sample_height lo hi x\<rparr>) samples)"

definition BuildSamples :: "regex \<Rightarrow> status_item \<Rightarrow> monitor_record list \<Rightarrow> status_sample list" where
  "BuildSamples rx item records =
     scaleNumericSamples
       (map (buildSample item (compileTextValueMappings rx (mappings_of (si_source item)))) records)"

subsection \<open>Trends\<close>

definition countAbnormal :: "status_sample list \<Rightarrow> int" where
  "countAbnormal samples = int (length (filter (\<lambda>s. sm_state s = lv_failure) samples))"

definition trendState :: "bool \<Rightarrow> string" where
  "trendState b = (if b then ''true'' else ''false'')"

definition compareNumber :: "f64 \<Rightarrow> string \<Rightarrow> f64 \<Rightarrow> bool" where
  "compareNumber v operator limit =
     (if operator = ''gt'' then f64_gt v limit
      else if operator = ''gte'' then f64_ge v limit
      else if operator = ''lt'' then f64_lt v limit
      else if operator = ''lte'' then f64_le v limit
      else False)"

text \<open>The loop of \<open>linearSlope\<close>: index, and the sums of x, y, xy and xx so far.\<close>

fun slope_sums :: "int \<Rightarrow> f64 \<Rightarrow> f64 \<Rightarrow> f64 \<Rightarrow> f64 \<Rightarrow> f64 list \<Rightarrow> f64 \<times> f64 \<times> f64 \<times> f64" where
  "slope_sums i sx sy sxy sxx [] = (sx, sy, sxy, sxx)"
| "slope_sums i sx sy sxy sxx (v # vs) =
     (let x = f64_of_int i in
      slope_sums (i + 1) (f64_add sx x) (f64_add sy v) (f64_add sxy (f64_mul x v))
        (f64_add sxx (f64_mul x x)) vs)"

definition linearSlope :: "f64 list \<Rightarrow> f64" where
  "linearSlope values =
     (let n = f64_of_int (int (length values));
          (sx, sy, sxy, sxx) = slope_sums 0 (Fin 0) (Fin 0) (Fin 0) (Fin 0) values;
          denominator = f64_sub (f64_mul n sxx) (f64_mul sx sx)
      in if f64_eq denominator (Fin 0) then Fin 0
         else f64_div (f64_sub (f64_mul n sxy) (f64_mul sx sy)) denominator)"

definition average :: "f64 list \<Rightarrow> f64" where
  "average values =
     f64_div (fold (\<lambda>v acc. f64_add acc v) values (Fin 0)) (f64_of_int (int (length values)))"

definition reason :: "string \<Rightarrow> obj" where
  "reason r = [(''reason'', VStr r)]"

definition trend_detail :: "trend_rule \<Rightarrow> obj" where
  "trend_detail rule =
     [(''window'', VInt (tr_window rule)), (''threshold'', VNum (tr_threshold rule)),
      (''operator'', VStr (tr_operator rule))]"

text \<open>
  The value the three numeric rules compare, or the reason why there is none. The rules
  reach this code with a window of at least one sample.
\<close>

definition measured :: "trend_rule \<Rightarrow> f64 list \<Rightarrow> string + f64" where
  "measured rule values =
     (if tr_type rule = ''average'' then Inr (average values)
      else if tr_type rule = ''delta'' then
        (let d = f64_sub (last values) (hd values) in
         if tr_delta_mode rule = ''percent'' then
           (if f64_eq (hd values) (Fin 0) then Inl ''zero_percent_baseline''
            else Inr (f64_mul (f64_div d (f64_abs (hd values))) (Fin 100)))
         else Inr d)
      else Inr (linearSlope values))"

definition EvaluateTrend :: "trend_rule \<Rightarrow> status_sample list \<Rightarrow> string \<times> obj" where
  "EvaluateTrend rule samples =
     (if tr_window rule < 1 \<or> int (length samples) < tr_window rule
      then (''unknown'', reason ''window_incomplete'')
      else let window = last_n (nat (tr_window rule)) samples in
        if list_ex (\<lambda>s. sm_state s = lv_unknown) window then (''unknown'', reason ''unknown_sample'')
        else let detail = trend_detail rule; count = countAbnormal window in
          if tr_type rule = ''consecutive'' then
            (trendState (list_all (\<lambda>s. sm_state s = lv_failure) window),
             put ''abnormal_count'' (VInt count) detail)
          else if tr_type rule = ''count'' then
            (trendState (tr_minimum rule \<le> count),
             put ''minimum'' (VInt (tr_minimum rule)) (put ''abnormal_count'' (VInt count) detail))
          else if tr_type rule = ''average'' \<or> tr_type rule = ''delta'' \<or> tr_type rule = ''slope'' then
            (if list_ex (\<lambda>s. sm_numeric s = None) window
             then (''unknown'', reason ''non_numeric_sample'')
             else (case measured rule (map (\<lambda>s. the (sm_numeric s)) window) of
                     Inl r \<Rightarrow> (''unknown'', reason r)
                   | Inr m \<Rightarrow>
                       (trendState (compareNumber m (tr_operator rule) (tr_threshold rule)),
                        put ''value'' (VNum m) detail)))
          else (''unknown'', reason ''unsupported_rule''))"

subsection \<open>Facts about samples\<close>

lemma trendState_simps [simp, go_simps]:
  "trendState True = ''true''" "trendState False = ''false''"
  "trendState b = ''true'' \<longleftrightarrow> b" "trendState b = ''false'' \<longleftrightarrow> \<not> b" "trendState b \<noteq> ''unknown''"
  by (simp_all add: trendState_def)

lemma level_distinct [simp]:
  "lv_success \<noteq> lv_failure" "lv_success \<noteq> lv_warning" "lv_success \<noteq> lv_unknown"
  "lv_failure \<noteq> lv_warning" "lv_failure \<noteq> lv_unknown" "lv_warning \<noteq> lv_unknown"
  "lv_failure \<noteq> lv_success" "lv_warning \<noteq> lv_success" "lv_unknown \<noteq> lv_success"
  "lv_warning \<noteq> lv_failure" "lv_unknown \<noteq> lv_failure" "lv_unknown \<noteq> lv_warning"
  by (simp_all add: lv_defs)

definition real_levels :: "string set" where
  "real_levels = {lv_success, lv_warning, lv_failure}"

lemma real_levels [simp]:
  "lv_success \<in> real_levels" "lv_warning \<in> real_levels" "lv_failure \<in> real_levels"
  "lv_unknown \<notin> real_levels"
  by (simp_all add: real_levels_def)

text \<open>
  The well-formedness of a sample: unknown in state and level together, or a real level
  whose state is \<open>success\<close> exactly for the level \<open>success\<close>.
\<close>

definition wf_sample :: "status_sample \<Rightarrow> bool" where
  "wf_sample s \<longleftrightarrow>
     (sm_state s = lv_unknown \<and> sm_level s = lv_unknown) \<or>
     (sm_level s \<in> real_levels \<and>
      sm_state s = (if sm_level s = lv_success then lv_success else lv_failure))"

lemma applySampleLevel_wf [wf_intros]: "level \<in> real_levels \<Longrightarrow> wf_sample (applySampleLevel s level l c)"
  by (simp add: wf_sample_def applySampleLevel_def)

lemma unknown_sample_wf [simp]: "wf_sample ((unknown_sample r)\<lparr>sm_raw_value := v\<rparr>)"
  "wf_sample (unknown_sample r)"
  by (simp_all add: wf_sample_def unknown_sample_def)

lemma wf_sample_cong [simp]:
  "wf_sample (s\<lparr>sm_display := d\<rparr>) = wf_sample s" "wf_sample (s\<lparr>sm_height := h\<rparr>) = wf_sample s"
  "wf_sample (s\<lparr>sm_numeric := n\<rparr>) = wf_sample s" "wf_sample (s\<lparr>sm_raw_value := v\<rparr>) = wf_sample s"
  by (simp_all add: wf_sample_def)

lemma wf_sample_trichotomy:
  "wf_sample s \<Longrightarrow> sm_state s = lv_success \<or> sm_state s = lv_failure \<or> sm_state s = lv_unknown"
  by (auto simp: wf_sample_def split: if_splits)

text \<open>The levels an item may assign: those of its mappings, its thresholds and its default.\<close>

definition item_levels_ok :: "status_item \<Rightarrow> bool" where
  "item_levels_ok item \<longleftrightarrow>
     (\<forall>m \<in> set (mappings_of (si_source item)). vm_level m \<in> real_levels) \<and>
     (\<forall>t \<in> set (si_thresholds item). th_level t \<in> real_levels) \<and>
     (ss_default_level (si_source item) = [] \<or> ss_default_level (si_source item) \<in> real_levels)"

lemma boolean_sample_wf: "wf_sample s \<Longrightarrow> wf_sample (boolean_sample item s v)"
  by (cases v) (auto simp: boolean_sample_def Let_def wf_sample_def)

lemma number_sample_wf:
  assumes "item_levels_ok item" and "wf_sample s"
  shows "wf_sample (number_sample item s v)"
proof -
  have m: "vm_level m \<in> real_levels" if "matchNumericValueMapping (mappings_of (si_source item)) x = Some m" for x m
    using assms(1) find_first_Some [OF that [unfolded matchNumericValueMapping_def]]
    by (simp add: item_levels_ok_def)
  have t: "th_level t \<in> real_levels" if "matchThreshold (si_thresholds item) x = Some t" for x t
    using assms(1) find_first_Some [OF that [unfolded matchThreshold_def]]
    by (simp add: item_levels_ok_def)
  show ?thesis
    using assms(2) by (simp add: number_sample_def Let_def applySampleLevel_wf m t split: sum.split option.split)
qed

lemma matchers_levels:
  assumes "matchTextValueMapping (compileTextValueMappings rx ms) v = Some m"
  shows "m \<in> set ms"
proof -
  obtain re where "find_first (\<lambda>(m, re). (case re of Some f \<Rightarrow> f v | None \<Rightarrow> False) \<or>
      (vm_match_type m \<noteq> ''regex'' \<and> vm_value m = v)) (compileTextValueMappings rx ms) = Some (m, re)"
    using assms by (auto simp: matchTextValueMapping_def)
  from find_first_Some [OF this] show ?thesis by (auto simp: compileTextValueMappings_def)
qed

lemma text_sample_wf:
  assumes "item_levels_ok item" and "wf_sample s"
  shows "wf_sample (text_sample item
    (compileTextValueMappings rx (mappings_of (si_source item))) s v)"
proof -
  have m: "vm_level m \<in> real_levels"
    if "matchTextValueMapping (compileTextValueMappings rx (mappings_of (si_source item))) x = Some m" for x m
    using assms(1) matchers_levels [OF that] by (simp add: item_levels_ok_def)
  show ?thesis
    using assms by (auto simp: text_sample_def Let_def item_levels_ok_def m
        split: val.split option.split intro!: applySampleLevel_wf)
qed

lemma buildSample_wf:
  assumes "item_levels_ok item"
  shows "wf_sample (buildSample item (compileTextValueMappings rx (mappings_of (si_source item))) r)"
proof -
  have "wf_sample ((unknown_sample r)\<lparr>sm_raw_value := v\<rparr>)" for v by simp
  with boolean_sample_wf number_sample_wf [OF assms] text_sample_wf [OF assms] show ?thesis
    by (simp add: buildSample_def Let_def split: option.split)
qed

lemma scaleNumericSamples_map:
  "\<exists>h. scaleNumericSamples ss = map (\<lambda>s. s\<lparr>sm_height := h s\<rparr>) ss"
proof -
  have "ss = map (\<lambda>s. s\<lparr>sm_height := sm_height s\<rparr>) ss" by simp
  then have "\<exists>h. ss = map (\<lambda>s. s\<lparr>sm_height := h s\<rparr>) ss" by (rule exI [where x = sm_height])
  moreover have "(case sm_numeric s of None \<Rightarrow> s | Some x \<Rightarrow> s\<lparr>sm_height := f x\<rparr>) =
      s\<lparr>sm_height := (case sm_numeric s of None \<Rightarrow> sm_height s | Some x \<Rightarrow> f x)\<rparr>"
    for f and s :: status_sample by (simp split: option.split)
  ultimately show ?thesis
    by (auto simp: scaleNumericSamples_def Let_def simp del: map_ident)
qed

lemma length_BuildSamples [simp]: "length (BuildSamples rx item rs) = length rs"
proof -
  obtain h where "BuildSamples rx item rs = map (\<lambda>s. s\<lparr>sm_height := h s\<rparr>)
      (map (buildSample item (compileTextValueMappings rx (mappings_of (si_source item)))) rs)"
    unfolding BuildSamples_def using scaleNumericSamples_map by blast
  then show ?thesis by simp
qed

subsection \<open>Facts about trends\<close>

definition numeric_trends :: "string set" where
  "numeric_trends = {''average'', ''delta'', ''slope''}"

definition trend_types :: "string set" where
  "trend_types = {''consecutive'', ''count''} \<union> numeric_trends"

definition trend_window :: "trend_rule \<Rightarrow> status_sample list \<Rightarrow> status_sample list" where
  "trend_window rule samples = last_n (nat (tr_window rule)) samples"

lemma measured_Inl:
  "(\<exists>e. measured rule vs = Inl e) \<longleftrightarrow>
   tr_type rule = ''delta'' \<and> tr_delta_mode rule = ''percent'' \<and> f64_eq (hd vs) (Fin 0)"
  by (auto simp: measured_def Let_def)

lemma hd_map_the: "xs \<noteq> [] \<Longrightarrow> hd (map f xs) = f (hd xs)"
  by (cases xs) auto

text \<open>
  A trend rule is undecided exactly in the cases the code names: the window is not full
  or holds an unknown sample, the type is not one of the five, a numeric rule meets a
  sample without a number, or a percentage has a baseline of zero. Otherwise it is true or
  false.
\<close>

theorem trend_unknown_iff:
  fixes rule samples
  defines "window \<equiv> trend_window rule samples"
  shows "fst (EvaluateTrend rule samples) \<in> {''true'', ''false'', ''unknown''} \<and>
    (fst (EvaluateTrend rule samples) = ''unknown'' \<longleftrightarrow>
      \<not> (1 \<le> tr_window rule \<and> tr_window rule \<le> int (length samples) \<and>
         lv_unknown \<notin> sm_state ` set window \<and> tr_type rule \<in> trend_types \<and>
         \<not> (tr_type rule \<in> numeric_trends \<and> None \<in> sm_numeric ` set window) \<and>
         \<not> (tr_type rule = ''delta'' \<and> tr_delta_mode rule = ''percent'' \<and>
            f64_eq (the (sm_numeric (hd window))) (Fin 0))))"
proof (cases "1 \<le> tr_window rule \<and> tr_window rule \<le> int (length samples)")
  case False
  then show ?thesis by (auto simp: EvaluateTrend_def)
next
  case full: True
  then have ne: "window \<noteq> []"
    by (auto simp: window_def trend_window_def last_n_def)
  have full2: "\<not> tr_window rule < 1" "\<not> int (length samples) < tr_window rule"
    using full by auto
  have unk: "list_ex (\<lambda>s. sm_state s = lv_unknown) window \<longleftrightarrow> lv_unknown \<in> sm_state ` set window"
    and non: "list_ex (\<lambda>s. sm_numeric s = None) window \<longleftrightarrow> None \<in> sm_numeric ` set window"
    by (auto simp: list_ex_iff image_iff dest: sym)
  note win = window_def [unfolded trend_window_def, symmetric]
  note defs = EvaluateTrend_def Let_def win unk non full full2 numeric_trends_def trend_types_def
  show ?thesis
  proof (cases "lv_unknown \<in> sm_state ` set window")
    case True
    then show ?thesis using full by (simp add: defs)
  next
    case known: False
    show ?thesis
    proof (cases "tr_type rule \<in> numeric_trends")
      case True
      then have ty: "tr_type rule = ''average'' \<or> tr_type rule = ''delta'' \<or> tr_type rule = ''slope''"
        by (simp add: numeric_trends_def)
      then have not: "tr_type rule \<noteq> ''consecutive''" "tr_type rule \<noteq> ''count''" by auto
      show ?thesis
      proof (cases "measured rule (map (\<lambda>s. the (sm_numeric s)) window)")
        case (Inl e)
        then have "tr_type rule = ''delta'' \<and> tr_delta_mode rule = ''percent'' \<and>
            f64_eq (the (sm_numeric (hd window))) (Fin 0)"
          using measured_Inl [of rule "map (\<lambda>s. the (sm_numeric s)) window"] ne
          by (simp add: hd_map_the)
        then show ?thesis using full known ty not Inl by (simp add: defs)
      next
        case (Inr m)
        then have "\<not> (tr_type rule = ''delta'' \<and> tr_delta_mode rule = ''percent'' \<and>
            f64_eq (the (sm_numeric (hd window))) (Fin 0))"
          using measured_Inl [of rule "map (\<lambda>s. the (sm_numeric s)) window"] ne
          by (auto simp: hd_map_the)
        then show ?thesis
          using full known ty not Inr True by (simp add: defs)
      qed
    next
      case False
      then have not: "tr_type rule \<noteq> ''average''" "tr_type rule \<noteq> ''delta''" "tr_type rule \<noteq> ''slope''"
        by (simp_all add: numeric_trends_def)
      then show ?thesis using full known by (simp add: defs)
    qed
  qed
qed

text \<open>
  A trend rule looks at the last \<open>window\<close> samples only: samples before them do not change
  its verdict or its detail.
\<close>

theorem trend_window_local:
  assumes "tr_window rule \<le> int (length recent)"
  shows "EvaluateTrend rule (older @ recent) = EvaluateTrend rule recent"
proof -
  have "last_n (nat (tr_window rule)) (older @ recent) = last_n (nat (tr_window rule)) recent"
    using assms by (intro last_n_append) simp
  then show ?thesis using assms by (simp add: EvaluateTrend_def Let_def)
qed

definition sample_with :: "string \<Rightarrow> f64 option \<Rightarrow> status_sample" where
  "sample_with state n = \<lparr>sm_record_id = [], sm_started_at = 0, sm_raw_value = VNil,
     sm_display = [], sm_state = state, sm_level = state, sm_color = [], sm_label = [],
     sm_height = Fin 28, sm_numeric = n\<rparr>"

definition count_rule :: "int \<Rightarrow> int \<Rightarrow> trend_rule" where
  "count_rule w m = \<lparr>tr_id = ''t'', tr_name = ''t'', tr_type = ''count'', tr_window = w,
     tr_minimum = m, tr_operator = [], tr_threshold = Fin 0, tr_delta_mode = []\<rparr>"

lemma trend_window_local_witness:
  "EvaluateTrend (count_rule 1 1) ([sample_with lv_success None] @ [sample_with lv_failure None]) =
   EvaluateTrend (count_rule 1 1) [sample_with lv_failure None]"
  by (rule trend_window_local) (simp add: count_rule_def)

lemma filter_all_length: "length (filter P xs) = length xs \<longleftrightarrow> list_all P xs"
  by (metis filter_True filter_id_conv length_filter_less list_all_iff nat_neq_iff)

text \<open>
  \<open>consecutive\<close> is \<open>count\<close> with the whole window as the minimum: both give the same state
  on every history, although one conjoins the samples and the other counts them.
\<close>

theorem consecutive_is_count:
  assumes "tr_type rule = ''consecutive''"
  shows "fst (EvaluateTrend rule samples) =
    fst (EvaluateTrend (rule\<lparr>tr_type := ''count'', tr_minimum := tr_window rule\<rparr>) samples)"
proof -
  let ?w = "last_n (nat (tr_window rule)) samples"
  have "tr_window rule \<le> countAbnormal ?w \<longleftrightarrow> list_all (\<lambda>s. sm_state s = lv_failure) ?w"
    if "1 \<le> tr_window rule" "tr_window rule \<le> int (length samples)"
  proof -
    have len: "int (length ?w) = tr_window rule" using that by (simp add: nat_le_iff)
    have "length (filter (\<lambda>s. sm_state s = lv_failure) ?w) \<le> length ?w" by (rule length_filter_le)
    with len have "tr_window rule \<le> countAbnormal ?w \<longleftrightarrow>
        length (filter (\<lambda>s. sm_state s = lv_failure) ?w) = length ?w"
      unfolding countAbnormal_def by linarith
    then show ?thesis by (simp only: filter_all_length)
  qed
  then show ?thesis using assms by (auto simp: EvaluateTrend_def Let_def)
qed

lemma consecutive_is_count_witness:
  "fst (EvaluateTrend ((count_rule 2 0)\<lparr>tr_type := ''consecutive''\<rparr>)
     [sample_with lv_failure None, sample_with lv_failure None]) =
   fst (EvaluateTrend ((count_rule 2 0)\<lparr>tr_type := ''count'', tr_minimum := 2\<rparr>)
     [sample_with lv_failure None, sample_with lv_failure None])"
  using consecutive_is_count [of "(count_rule 2 0)\<lparr>tr_type := ''consecutive''\<rparr>"
      "[sample_with lv_failure None, sample_with lv_failure None]"]
  by (simp add: count_rule_def)

end
