(* ===== verification/GoTime.thy ===== *)
theory GoTime
  imports GoStrings
begin

section \<open>Times as text (the layouts of Go's time package)\<close>

text \<open>
  The database keeps most times as text in the layout \<open>RFC3339Nano\<close> and compares and sorts
  them as text; records and deliveries keep microseconds. The calendar is the proleptic
  Gregorian one, in UTC; years are four digits.
\<close>

definition civil_date :: "int \<Rightarrow> int \<times> int \<times> int" where
  "civil_date days =
     (let z = days + 719468; era = z div 146097; doe = z mod 146097;
          yoe = (doe - doe div 1460 + doe div 36524 - doe div 146096) div 365;
          doy = doe - (365 * yoe + yoe div 4 - yoe div 100);
          mp = (5 * doy + 2) div 153;
          m = (if mp < 10 then mp + 3 else mp - 9);
          y = yoe + era * 400
      in (if m \<le> 2 then y + 1 else y, m, doy - (153 * mp + 2) div 5 + 1))"

definition pad_int :: "nat \<Rightarrow> int \<Rightarrow> string" where
  "pad_int w n = (let s = itoa n in replicate (w - length s) (CHR ''0'') @ s)"

definition date_time :: "int \<Rightarrow> string" where
  "date_time seconds =
     (let (y, m, d) = civil_date (seconds div 86400); s = seconds mod 86400
      in pad_int 4 y @ ''-'' @ pad_int 2 m @ ''-'' @ pad_int 2 d @ ''T'' @
         pad_int 2 (s div 3600) @ '':'' @ pad_int 2 (s div 60 mod 60) @ '':'' @ pad_int 2 (s mod 60))"

fun strip_trailing_zeros :: "string \<Rightarrow> string" where
  "strip_trailing_zeros s = rev (dropWhile (\<lambda>c. c = CHR ''0'') (rev s))"

text \<open>The fraction of the layout \<open>RFC3339Nano\<close>: up to nine digits without trailing zeros.\<close>

definition nano_fraction :: "int \<Rightarrow> string" where
  "nano_fraction n = (if n = 0 then [] else ''.'' @ strip_trailing_zeros (pad_int 9 n))"

definition timestamp :: "time \<Rightarrow> string" where
  "timestamp t = date_time (t div second) @ nano_fraction (t mod second) @ ''Z''"

definition rfc3339 :: "time \<Rightarrow> string" where
  "rfc3339 t = date_time (t div second) @ ''Z''"

definition unixMicros :: "time \<Rightarrow> int" where
  "unixMicros t = t div 1000"

text \<open>The time a column of microseconds gives back.\<close>

definition stored_time :: "time \<Rightarrow> time" where
  "stored_time t = unixMicros t * 1000"

lemma stored_time_idem [simp]: "stored_time (stored_time t) = stored_time t"
  by (simp add: stored_time_def unixMicros_def)

lemma unixMicros_stored [simp]: "unixMicros (stored_time t) = unixMicros t"
  by (simp add: stored_time_def unixMicros_def)

lemma stored_time_bounds: "stored_time t \<le> t" "t < stored_time t + 1000"
  unfolding stored_time_def unixMicros_def by presburger+

lemma stored_time_mono: "s \<le> t \<Longrightarrow> stored_time s \<le> stored_time t"
  by (simp add: stored_time_def unixMicros_def zdiv_mono1)

lemma unixMicros_less_iff: "unixMicros s < unixMicros t \<longleftrightarrow> stored_time s < stored_time t"
  by (simp add: stored_time_def)

end
