(* ===== verification/StoreSchema.thy ===== *)
theory StoreSchema
  imports Domain GoTime "HOL-Library.Multiset"
begin

section \<open>The database schema and its statements (internal/store)\<close>

text \<open>
  The tables of \<open>models.go\<close> as lists of rows in the order in which the database scans
  them; a new row is appended. The columns that hold JSON text are the values that the
  text decodes to. What the two supported engines do differently, and whether the engine
  executes a statement at all, is the argument \<open>engine\<close> of every operation.
\<close>

subsection \<open>Rows\<close>

record inapp_notification =
  in_id :: string
  in_channel_id :: string
  in_monitor_id :: string
  in_record_id :: string
  in_event_type :: string
  in_title :: string
  in_content :: string
  in_read :: bool
  in_created_at :: time
  in_read_at :: "time option"

record monitor_row =
  mw_monitor :: monitor
  mw_condition_active :: bool
  mw_last_success :: bool

text \<open>
  A row of \<open>monitor_records\<close>: the events are kept apart from the record, as the value of
  their JSON column, with \<open>None\<close> where the column does not decode to a list.
\<close>

record record_row =
  rw_record :: monitor_record
  rw_events :: "record_event list option"
  rw_event_count :: int
  rw_trend_triggered :: bool
  rw_trend_recovered :: bool

record share =
  sh_id :: string
  sh_token :: string
  sh_name :: string
  sh_monitor_ids :: "string list"
  sh_item_ids :: "string list"
  sh_active :: bool
  sh_created_at :: time

record system_config =
  sc_type :: string
  sc_data :: val
  sc_version :: int
  sc_created_at :: time
  sc_updated_at :: time

record admin_session =
  as_token_hash :: string
  as_csrf_token :: string
  as_expires_at :: time
  as_last_seen_at :: time
  as_created_at :: time

record api_token =
  at_id :: string
  at_name :: string
  at_type :: string
  at_scopes :: "string list"
  at_token_hash :: string
  at_secret_ciphertext :: string
  at_secret_nonce :: string
  at_token_hint :: string
  at_expires_at :: "time option"
  at_revoked_at :: "time option"
  at_last_used_at :: "time option"
  at_created_at :: time

record plugin_module =
  pm_type :: string
  pm_name :: string
  pm_version :: string
  pm_config_version :: string
  pm_result_schema_version :: string

record plugin_installation =
  pi_id :: string
  pi_name :: string
  pi_version :: string
  pi_vendor :: string
  pi_description :: string
  pi_url :: string
  pi_enabled :: bool
  pi_verified :: bool
  pi_official :: bool
  pi_trust_state :: string
  pi_signer_key_id :: string
  pi_signer_fingerprint :: string
  pi_status :: string
  pi_error :: string
  pi_package_path :: string
  pi_binary_path :: string
  pi_signer_public_key :: string
  pi_readme :: string
  pi_package_name :: string
  pi_package_sha256 :: string
  pi_manifest :: val
  pi_modules :: "plugin_module list"
  pi_created_at :: time
  pi_updated_at :: time

record trusted_signer =
  sg_fingerprint :: string
  sg_key_id :: string
  sg_public_key :: string
  sg_vendor :: string
  sg_source :: string
  sg_created_at :: time
  sg_updated_at :: time

record db =
  db_monitors :: "monitor_row list"
  db_records :: "record_row list"
  db_items :: "status_item list"
  db_shares :: "share list"
  db_channels :: "channel list"
  db_deliveries :: "delivery_record list"
  db_plugins :: "plugin_installation list"
  db_signers :: "trusted_signer list"
  db_snapshots :: "module_descriptor list"
  db_configs :: "system_config list"
  db_sessions :: "admin_session list"
  db_tokens :: "api_token list"

definition empty_db :: db where
  "empty_db = \<lparr>db_monitors = [], db_records = [], db_items = [], db_shares = [],
     db_channels = [], db_deliveries = [], db_plugins = [], db_signers = [],
     db_snapshots = [], db_configs = [], db_sessions = [], db_tokens = []\<rparr>"

subsection \<open>Statements\<close>

text \<open>A statement: what it does, the table, and the key of the row it is about.\<close>

datatype stmt =
    Select string string
  | Insert string string
  | Update string string
  | Delete string string
  | Commit

text \<open>
  The engine. \<open>en_ok\<close> says which statements it executes without an error of its own,
  \<open>en_like\<close> is its \<open>LIKE\<close>, and \<open>en_counts_matched\<close> says what \<open>RowsAffected\<close> of an \<open>UPDATE\<close>
  counts: the rows that match (SQLite), or the rows whose contents change (the MySQL
  driver, unless the option \<open>clientFoundRows\<close> is set).
\<close>

record engine =
  en_ok :: "stmt \<Rightarrow> bool"
  en_like :: "string \<Rightarrow> string \<Rightarrow> bool"
  en_counts_matched :: bool

datatype db_error =
    NoRows
  | Fault stmt
  | Unique string
  | ForeignKey string
  | Undecodable string
  | NotUpdated string string
  | InvalidData string
  | VersionConflict
  | ConfigNotFound string
  | MigratorFailed string

definition run :: "engine \<Rightarrow> stmt \<Rightarrow> db_error + 'a \<Rightarrow> db_error + 'a" where
  "run en s r = (if en_ok en s then r else Inl (Fault s))"

lemma run_Inr [simp]: "run en s r = Inr x \<longleftrightarrow> en_ok en s \<and> r = Inr x"
  by (simp add: run_def)

text \<open>The database after a call whose error the caller ignores.\<close>

definition or_same :: "db \<Rightarrow> db_error + db \<Rightarrow> db" where
  "or_same db r = (case r of Inl _ \<Rightarrow> db | Inr db' \<Rightarrow> db')"

text \<open>A transaction: an error rolls every statement back.\<close>

definition transaction :: "engine \<Rightarrow> (db \<Rightarrow> db_error + db) \<Rightarrow> db \<Rightarrow> db_error + db" where
  "transaction en body db = ok_then (body db) (\<lambda>db'. run en Commit (Inr db'))"

definition update_rows :: "('r \<Rightarrow> bool) \<Rightarrow> ('r \<Rightarrow> 'r) \<Rightarrow> 'r list \<Rightarrow> 'r list" where
  "update_rows P f rows = map (\<lambda>r. if P r then f r else r) rows"

definition rows_affected :: "engine \<Rightarrow> ('r \<Rightarrow> bool) \<Rightarrow> ('r \<Rightarrow> 'r) \<Rightarrow> 'r list \<Rightarrow> nat" where
  "rows_affected en P f rows =
     length (filter (\<lambda>r. P r \<and> (en_counts_matched en \<or> f r \<noteq> r)) rows)"

definition delete_rows :: "('r \<Rightarrow> bool) \<Rightarrow> 'r list \<Rightarrow> 'r list" where
  "delete_rows P rows = filter (\<lambda>r. \<not> P r) rows"

text \<open>An \<open>INSERT\<close> into a table with a unique key.\<close>

definition insert_row :: "('r \<Rightarrow> 'k) \<Rightarrow> string \<Rightarrow> 'r \<Rightarrow> 'r list \<Rightarrow> db_error + 'r list" where
  "insert_row key table r rows =
     (if key r \<in> key ` set rows then Inl (Unique table) else Inr (rows @ [r]))"

definition select_first :: "('r \<Rightarrow> bool) \<Rightarrow> 'r list \<Rightarrow> db_error + 'r" where
  "select_first P rows = (case find_first P rows of None \<Rightarrow> Inl NoRows | Some r \<Rightarrow> Inr r)"

text \<open>\<open>ORDER BY key DESC\<close>; rows with equal keys keep the order of the scan.\<close>

definition order_desc :: "('r \<Rightarrow> 'k::linorder) \<Rightarrow> 'r list \<Rightarrow> 'r list" where
  "order_desc key rows = rev (sort_key key (rev rows))"

lemma mset_order_desc [simp]: "mset (order_desc key rows) = mset rows"
  by (simp add: order_desc_def)

lemma set_order_desc [simp]: "set (order_desc key rows) = set rows"
  by (simp add: order_desc_def)

lemma length_order_desc [simp]: "length (order_desc key rows) = length rows"
  by (simp add: order_desc_def)

lemma sorted_order_desc: "sorted (rev (map key (order_desc key rows)))"
  by (simp add: order_desc_def rev_map)

lemma order_desc_append_newest:
  assumes "\<forall>r \<in> set rows. key r < key x"
  shows "order_desc key (rows @ [x]) = x # order_desc key rows"
proof -
  have "insort_key key x ys = ys @ [x]" if "\<forall>r \<in> set ys. key r < key x" for ys
    using that by (induction ys) auto
  then have "insort_key key x (sort_key key (rev rows)) = sort_key key (rev rows) @ [x]"
    using assms by simp
  then show ?thesis by (simp add: order_desc_def)
qed

lemma map_key_update_rows [simp]:
  "(\<And>r. key (f r) = key r) \<Longrightarrow> map key (update_rows P f rows) = map key rows"
  by (simp add: update_rows_def)

lemma length_update_rows [simp]: "length (update_rows P f rows) = length rows"
  by (simp add: update_rows_def)

lemma update_rows_Nil [simp]: "update_rows P f [] = []"
  by (simp add: update_rows_def)

lemma in_update_rows: "r \<in> set (update_rows P f rows) \<longleftrightarrow> (\<exists>q \<in> set rows. r = (if P q then f q else q))"
  by (auto simp: update_rows_def)

lemma update_rows_none: "(\<forall>r \<in> set rows. \<not> P r) \<Longrightarrow> update_rows P f rows = rows"
  by (simp add: update_rows_def map_idI)

lemma distinct_delete_rows [simp]: "distinct (map key rows) \<Longrightarrow> distinct (map key (delete_rows P rows))"
  by (simp add: delete_rows_def distinct_map_filter)

lemma set_delete_rows [simp]: "set (delete_rows P rows) = {r \<in> set rows. \<not> P r}"
  by (simp add: delete_rows_def)

lemma insert_row_Inr:
  "insert_row key table r rows = Inr rows' \<longleftrightarrow> key r \<notin> key ` set rows \<and> rows' = rows @ [r]"
  by (auto simp: insert_row_def)

lemma insert_row_distinct:
  "insert_row key table r rows = Inr rows' \<Longrightarrow> distinct (map key rows) \<Longrightarrow> distinct (map key rows')"
  by (auto simp: insert_row_Inr)

lemma find_first_key:
  assumes "distinct (map key rows)" and "r \<in> set rows"
  shows "find_first (\<lambda>x. key x = key r) rows = Some r"
  using assms by (induction rows) (auto simp: image_iff)

lemma select_first_Inr:
  "select_first P rows = Inr r \<Longrightarrow> r \<in> set rows \<and> P r"
  by (auto simp: select_first_def dest: find_first_Some split: option.splits)

lemma select_first_key:
  "distinct (map key rows) \<Longrightarrow> r \<in> set rows \<Longrightarrow> select_first (\<lambda>x. key x = key r) rows = Inr r"
  by (simp add: select_first_def find_first_key)

lemma rows_affected_matched:
  "en_counts_matched en \<Longrightarrow> distinct (map key rows) \<Longrightarrow> r \<in> set rows \<Longrightarrow>
   rows_affected en (\<lambda>x. key x = key r) f rows = 1"
proof (induction rows)
  case (Cons x xs)
  have "filter (\<lambda>y. key y = key x) xs = []" if "key x \<notin> key ` set xs"
    using that by (force simp: filter_empty_conv image_iff)
  with Cons show ?case by (cases "r = x") (auto simp: rows_affected_def image_iff)
qed (simp add: rows_affected_def)

subsection \<open>Pages\<close>

record 'a page_result =
  pg_items :: "'a list"
  pg_page :: int
  pg_page_size :: int
  pg_total :: int
  pg_total_pages :: int

definition normalizePage :: "int \<Rightarrow> int \<Rightarrow> int \<times> int" where
  "normalizePage page pageSize =
     (if page < 1 then 1 else page,
      if pageSize < 1 \<or> 100 < pageSize then 20 else pageSize)"

text \<open>Go's integer division, of numbers that are not negative here.\<close>

definition totalPages :: "int \<Rightarrow> int \<Rightarrow> int" where
  "totalPages n pageSize = (if n = 0 then 0 else (n + pageSize - 1) div pageSize)"

text \<open>\<open>LIMIT pageSize OFFSET (page - 1) * pageSize\<close>.\<close>

definition page_rows :: "int \<Rightarrow> int \<Rightarrow> 'r list \<Rightarrow> 'r list" where
  "page_rows page pageSize rows = take (nat pageSize) (drop (nat ((page - 1) * pageSize)) rows)"

lemma normalizePage_bounds:
  "normalizePage p n = (p', n') \<Longrightarrow> 1 \<le> p' \<and> 1 \<le> n' \<and> n' \<le> 100"
  by (auto simp: normalizePage_def)

lemma pages_concat:
  assumes "0 < n"
  shows "concat (map (\<lambda>k. take n (drop (k * n) xs)) [0..<p]) = take (p * n) xs"
proof (induction p)
  case (Suc p)
  have "take (p * n + n) xs = take (p * n) xs @ take n (drop (p * n) xs)"
    by (rule take_add)
  with Suc show ?case by (simp add: add.commute)
qed simp

lemma totalPages_covers:
  assumes "1 \<le> n" and "0 \<le> k"
  shows "k \<le> totalPages k n * n" and "0 \<le> totalPages k n"
    and "0 < totalPages k n \<Longrightarrow> (totalPages k n - 1) * n < k"
proof -
  define q where "q = totalPages k n"
  have "k \<le> q * n \<and> 0 \<le> q \<and> (0 < q \<longrightarrow> (q - 1) * n < k)"
  proof (cases "k = 0")
    case False
    have q: "q = (k + n - 1) div n" using False by (simp add: q_def totalPages_def)
    have "q * n + (k + n - 1) mod n = k + n - 1" unfolding q by (rule div_mult_mod_eq)
    moreover have "(k + n - 1) mod n < n" "0 \<le> (k + n - 1) mod n" using assms by simp_all
    moreover have "0 \<le> q" unfolding q using assms by (intro pos_imp_zdiv_nonneg_iff [THEN iffD2]) auto
    moreover have "(q - 1) * n = q * n - n" by (simp add: algebra_simps)
    ultimately show ?thesis by linarith
  qed (simp add: q_def totalPages_def)
  then show "k \<le> totalPages k n * n" "0 \<le> totalPages k n"
    "0 < totalPages k n \<Longrightarrow> (totalPages k n - 1) * n < k"
    by (simp_all add: q_def)
qed

lemma pages_cover:
  assumes "1 \<le> n"
  shows "concat (map (\<lambda>p. page_rows (int p + 1) n rows) [0..<nat (totalPages (int (length rows)) n)]) = rows"
proof -
  let ?t = "totalPages (int (length rows)) n"
  have "page_rows (int p + 1) n rows = take (nat n) (drop (p * nat n) rows)" for p
    using assms by (simp add: page_rows_def nat_mult_distrib)
  moreover have "length rows \<le> nat ?t * nat n"
    using totalPages_covers [OF assms, of "int (length rows)"]
    by (simp add: nat_mult_distrib [symmetric] assms le_nat_iff)
  ultimately show ?thesis
    using assms by (simp add: pages_concat)
qed

end
