(* ===== verification/Store.thy ===== *)
theory Store
  imports StoreSchema
begin

section \<open>Monitors, records, deliveries, channels and status items (internal/store)\<close>

text \<open>
  The operations of \<open>store.go\<close> and \<open>status_board.go\<close>. An operation takes the engine, the
  clock (\<open>now\<close>) where the code reads it, and the database, and returns an error or its
  result with the new database. An error of a statement outside a transaction changes
  nothing; the operations with several statements say what they roll back.
\<close>

subsection \<open>Values as the columns keep them\<close>

text \<open>
  \<open>jsonString\<close>: an object that does not encode (it holds a number that is not finite) is
  stored as the empty object.
\<close>

definition json_text :: "val \<Rightarrow> string" where
  "json_text v = (case json_marshal v of None \<Rightarrow> [byte 123, byte 125] | Some t \<Rightarrow> t)"

definition stored_obj :: "obj \<Rightarrow> obj" where
  "stored_obj m =
     (case json_marshal (VObj m) of
        None \<Rightarrow> []
      | Some _ \<Rightarrow> map (\<lambda>(k, v). (k, from_json v)) m)"

definition encodes :: "obj option \<Rightarrow> bool" where
  "encodes d = (case d of None \<Rightarrow> True | Some m \<Rightarrow> json_marshal (VObj m) \<noteq> None)"

definition notificationEventMetadata :: "record_event list \<Rightarrow> record_event list" where
  "notificationEventMetadata events = map (\<lambda>e. e\<lparr>re_deliveries := []\<rparr>) events"

text \<open>
  The JSON column of the events: if one of them does not encode, the text is that of the
  empty object, and this does not decode to a list.
\<close>

definition stored_events :: "record_event list \<Rightarrow> record_event list option" where
  "stored_events events =
     (if list_all (\<lambda>e. encodes (re_trend_detail e)) events
      then Some (map (\<lambda>e. e\<lparr>re_trend_detail := map_option stored_obj (re_trend_detail e)\<rparr>)
             (notificationEventMetadata events))
      else None)"

definition notificationEventFlags :: "record_event list \<Rightarrow> int \<times> bool \<times> bool" where
  "notificationEventFlags events =
     (int (length events),
      list_ex (\<lambda>e. re_event_type e = ''trend_triggered'') events,
      list_ex (\<lambda>e. re_event_type e = ''trend_recovered'') events)"

definition recordFromDomain :: "monitor_record \<Rightarrow> record_row" where
  "recordFromDomain r =
     (let (n, triggered, recovered) = notificationEventFlags (mr_events r) in
      \<lparr>rw_record = r\<lparr>mr_started_at := stored_time (mr_started_at r),
         mr_finished_at := stored_time (mr_finished_at r),
         mr_result := stored_obj (mr_result r), mr_events := []\<rparr>,
       rw_events = stored_events (mr_events r), rw_event_count = n,
       rw_trend_triggered = triggered, rw_trend_recovered = recovered\<rparr>)"

definition recordToDomain :: "record_row \<Rightarrow> db_error + monitor_record" where
  "recordToDomain row =
     (case rw_events row of
        None \<Rightarrow> Inl (Undecodable (mr_id (rw_record row)))
      | Some events \<Rightarrow> Inr ((rw_record row)\<lparr>mr_events := events\<rparr>))"

abbreviation row_id :: "record_row \<Rightarrow> string" where
  "row_id row \<equiv> mr_id (rw_record row)"

abbreviation row_monitor :: "record_row \<Rightarrow> string" where
  "row_monitor row \<equiv> mr_monitor_id (rw_record row)"

abbreviation monitor_key :: "monitor_row \<Rightarrow> string" where
  "monitor_key row \<equiv> mo_id (mw_monitor row)"

abbreviation delivery_key :: "delivery_record \<Rightarrow> string \<times> string" where
  "delivery_key d \<equiv> (dr_event_id d, dr_channel_id d)"

definition monitorRuntimeFlags :: "runtime_state option \<Rightarrow> bool \<times> bool" where
  "monitorRuntimeFlags st =
     (case st of None \<Rightarrow> (False, False) | Some s \<Rightarrow> (rs_condition_active s, rs_last_success s))"

definition monitorFromDomain :: "monitor \<Rightarrow> monitor_row" where
  "monitorFromDomain m =
     (let (active, success) = monitorRuntimeFlags (mo_runtime_state m) in
      \<lparr>mw_monitor = m, mw_condition_active = active, mw_last_success = success\<rparr>)"

definition monitorToDomain :: "monitor_row \<Rightarrow> monitor" where
  "monitorToDomain row = mw_monitor row"

subsection \<open>Monitors\<close>

definition default_config_version :: "monitor \<Rightarrow> monitor" where
  "default_config_version m =
     m\<lparr>mo_module_config_version :=
        (if mo_module_config_version m = [] then ''1'' else mo_module_config_version m)\<rparr>"

definition CreateMonitor :: "engine \<Rightarrow> monitor \<Rightarrow> db \<Rightarrow> db_error + db" where
  "CreateMonitor en m db =
     run en (Insert ''monitors'' (mo_id m))
       (ok_then (insert_row monitor_key ''monitors''
           (monitorFromDomain (default_config_version m)) (db_monitors db))
         (\<lambda>rows. Inr (db\<lparr>db_monitors := rows\<rparr>)))"

text \<open>The columns that \<open>UpdateMonitor\<close> sets: all but the id and the time of creation.\<close>

definition UpdateMonitor :: "engine \<Rightarrow> monitor \<Rightarrow> db \<Rightarrow> db_error + db" where
  "UpdateMonitor en m db =
     run en (Update ''monitors'' (mo_id m))
       (Inr (db\<lparr>db_monitors := update_rows (\<lambda>row. monitor_key row = mo_id m)
          (\<lambda>row. monitorFromDomain
             ((default_config_version m)\<lparr>mo_created_at := mo_created_at (mw_monitor row)\<rparr>))
          (db_monitors db)\<rparr>))"

definition set_runtime_state :: "runtime_state \<Rightarrow> time \<Rightarrow> monitor_row \<Rightarrow> monitor_row" where
  "set_runtime_state st now row =
     \<lparr>mw_monitor = (mw_monitor row)\<lparr>mo_runtime_state := Some st, mo_updated_at := now\<rparr>,
      mw_condition_active = rs_condition_active st, mw_last_success = rs_last_success st\<rparr>"

definition UpdateRuntimeState :: "engine \<Rightarrow> time \<Rightarrow> string \<Rightarrow> runtime_state \<Rightarrow> db \<Rightarrow> db_error + db" where
  "UpdateRuntimeState en now mid st db =
     run en (Update ''monitors'' mid)
       (Inr (db\<lparr>db_monitors := update_rows (\<lambda>row. monitor_key row = mid)
          (set_runtime_state st now) (db_monitors db)\<rparr>))"

text \<open>The foreign keys of records and status items delete with the monitor.\<close>

definition remove_monitors :: "(string \<Rightarrow> bool) \<Rightarrow> db \<Rightarrow> db" where
  "remove_monitors P db =
     db\<lparr>db_monitors := delete_rows (\<lambda>row. P (monitor_key row)) (db_monitors db),
        db_records := delete_rows (\<lambda>row. P (row_monitor row)) (db_records db),
        db_items := delete_rows (\<lambda>item. P (si_monitor_id item)) (db_items db)\<rparr>"

definition DeleteMonitor :: "engine \<Rightarrow> string \<Rightarrow> db \<Rightarrow> db_error + db" where
  "DeleteMonitor en mid db =
     run en (Delete ''monitors'' mid) (Inr (remove_monitors (\<lambda>k. k = mid) db))"

definition GetMonitor :: "engine \<Rightarrow> string \<Rightarrow> db \<Rightarrow> db_error + monitor" where
  "GetMonitor en mid db =
     run en (Select ''monitors'' mid)
       (ok_then (select_first (\<lambda>row. monitor_key row = mid) (db_monitors db))
         (\<lambda>row. Inr (monitorToDomain row)))"

definition monitor_order :: "monitor_row \<Rightarrow> string" where
  "monitor_order row = timestamp (mo_created_at (mw_monitor row))"

definition ListMonitors :: "engine \<Rightarrow> db \<Rightarrow> db_error + monitor list" where
  "ListMonitors en db =
     run en (Select ''monitors'' [])
       (Inr (map monitorToDomain (order_desc monitor_order (db_monitors db))))"

record monitor_list_options =
  lo_page :: int
  lo_page_size :: int
  lo_search :: string
  lo_module_type :: string
  lo_status :: string
  lo_available :: "string list"

definition like_any :: "engine \<Rightarrow> string \<Rightarrow> string list \<Rightarrow> bool" where
  "like_any en search texts =
     (let needle = trim_space (to_lower search) in
      needle = [] \<or> list_ex (\<lambda>t. en_like en (to_lower t) (''%'' @ needle @ ''%'')) texts)"

definition applyModuleAvailabilityFilter :: "string list \<Rightarrow> bool \<Rightarrow> string \<Rightarrow> bool" where
  "applyModuleAvailabilityFilter available wanted mtype =
     (if available = [] then \<not> wanted
      else if wanted then mtype \<in> set available else mtype \<notin> set available)"

definition applyMonitorListOptions :: "engine \<Rightarrow> monitor_list_options \<Rightarrow> monitor_row \<Rightarrow> bool" where
  "applyMonitorListOptions en opts row =
     (let m = mw_monitor row; mtype = trim_space (lo_module_type opts); status = lo_status opts;
          available = applyModuleAvailabilityFilter (lo_available opts) True (mo_module_type m)
      in like_any en (lo_search opts) [mo_name m, mo_module_type m, json_text (mo_module_config m)] \<and>
         (mtype = [] \<or> mtype = ''all'' \<or> mo_module_type m = mtype) \<and>
         (if status = ''enabled'' then mo_enabled m
          else if status = ''disabled'' then \<not> mo_enabled m
          else if status = ''triggered'' then mo_enabled m \<and> mw_condition_active row \<and> available
          else if status = ''healthy'' then
            mo_enabled m \<and> mw_last_success row \<and> \<not> mw_condition_active row \<and> available
          else if status = ''waiting'' then mo_enabled m \<and> \<not> mw_last_success row \<and> available
          else if status = ''unavailable'' then
            mo_enabled m \<and>
            applyModuleAvailabilityFilter (lo_available opts) False (mo_module_type m)
          else True))"

definition make_page :: "int \<Rightarrow> int \<Rightarrow> int \<Rightarrow> 'a list \<Rightarrow> 'a page_result" where
  "make_page page pageSize n items =
     \<lparr>pg_items = items, pg_page = page, pg_page_size = pageSize, pg_total = n,
      pg_total_pages = totalPages n pageSize\<rparr>"

definition ListMonitorsPage ::
    "engine \<Rightarrow> monitor_list_options \<Rightarrow> db \<Rightarrow> db_error + monitor page_result" where
  "ListMonitorsPage en opts db =
     (let (page, pageSize) = normalizePage (lo_page opts) (lo_page_size opts);
          rows = filter (applyMonitorListOptions en opts) (db_monitors db)
      in run en (Select ''monitors'' [])
           (Inr (make_page page pageSize (int (length rows))
             (map monitorToDomain (page_rows page pageSize (order_desc monitor_order rows))))))"

subsection \<open>Records\<close>

definition addRecordTx :: "engine \<Rightarrow> monitor_record \<Rightarrow> db \<Rightarrow> db_error + db" where
  "addRecordTx en r db =
     run en (Insert ''monitor_records'' (mr_id r))
       (if mr_monitor_id r \<notin> monitor_key ` set (db_monitors db)
        then Inl (ForeignKey (mr_monitor_id r))
        else ok_then (insert_row row_id ''monitor_records'' (recordFromDomain r) (db_records db))
          (\<lambda>rows. Inr (db\<lparr>db_records := rows\<rparr>)))"

text \<open>
  The row of a delivery that waits to be sent. \<open>ids\<close> is the identifier that the random
  source gives for a pair of event and channel.
\<close>

definition pending_delivery ::
    "(string \<Rightarrow> string \<Rightarrow> string) \<Rightarrow> time \<Rightarrow> monitor_record \<Rightarrow> record_event \<Rightarrow> string \<Rightarrow> delivery_record" where
  "pending_delivery ids now r e ch =
     \<lparr>dr_id = ids (re_id e) ch, dr_event_id = re_id e, dr_source = re_source e,
      dr_event_type = re_event_type e, dr_item_id = re_item_id e, dr_rule_id = re_rule_id e,
      dr_channel_id = ch, dr_notifier_type = ''unknown'', dr_monitor_id = mr_monitor_id r,
      dr_record_id = mr_id r, dr_title = [], dr_content = re_summary e, dr_status = ''pending'',
      dr_attempts = 0, dr_message = [], dr_read = False, dr_created_at = stored_time now,
      dr_updated_at = stored_time now, dr_delivered_at = None, dr_read_at = None\<rparr>"

definition insert_delivery :: "engine \<Rightarrow> delivery_record \<Rightarrow> db \<Rightarrow> db_error + db" where
  "insert_delivery en d db =
     run en (Insert ''notification_deliveries'' (dr_id d))
       (if delivery_key d \<in> delivery_key ` set (db_deliveries db)
        then Inl (Unique ''notification_deliveries'')
        else ok_then (insert_row dr_id ''notification_deliveries'' d (db_deliveries db))
          (\<lambda>rows. Inr (db\<lparr>db_deliveries := rows\<rparr>)))"

definition pending_rows ::
    "(string \<Rightarrow> string \<Rightarrow> string) \<Rightarrow> time \<Rightarrow> monitor_record \<Rightarrow> delivery_record list" where
  "pending_rows ids now r =
     concat (map (\<lambda>e. map (\<lambda>(ch, _). pending_delivery ids now r e ch) (re_deliveries e)) (mr_events r))"

definition addPendingNotificationDeliveriesTx ::
    "engine \<Rightarrow> (string \<Rightarrow> string \<Rightarrow> string) \<Rightarrow> time \<Rightarrow> monitor_record \<Rightarrow> db \<Rightarrow> db_error + db" where
  "addPendingNotificationDeliveriesTx en ids now r db =
     each (insert_delivery en) (pending_rows ids now r) db"

definition AddRecord ::
    "engine \<Rightarrow> (string \<Rightarrow> string \<Rightarrow> string) \<Rightarrow> time \<Rightarrow> monitor_record \<Rightarrow> db \<Rightarrow> db_error + db" where
  "AddRecord en ids now r =
     transaction en (\<lambda>db. ok_then (addRecordTx en r db) (addPendingNotificationDeliveriesTx en ids now r))"

text \<open>The statement of \<open>UpdateRecordNotificationEvents\<close> for one delivery.\<close>

definition set_delivery_result :: "time \<Rightarrow> delivery \<Rightarrow> delivery_record \<Rightarrow> delivery_record" where
  "set_delivery_result now d row =
     row\<lparr>dr_status := dl_status d, dr_attempts := dl_attempts d, dr_message := dl_message d,
       dr_updated_at := stored_time now,
       dr_delivered_at := (if dl_status d = ''sent'' then Some (stored_time now)
          else dr_delivered_at row)\<rparr>"

definition update_delivery_result ::
    "engine \<Rightarrow> time \<Rightarrow> string \<Rightarrow> string \<times> delivery \<Rightarrow> db \<Rightarrow> db_error + db" where
  "update_delivery_result en now ev chd db =
     run en (Update ''notification_deliveries'' ev)
       (Inr (db\<lparr>db_deliveries := update_rows (\<lambda>row. delivery_key row = (ev, fst chd))
          (set_delivery_result now (snd chd)) (db_deliveries db)\<rparr>))"

definition set_record_events :: "record_event list \<Rightarrow> record_row \<Rightarrow> record_row" where
  "set_record_events events row =
     (let (n, triggered, recovered) = notificationEventFlags events in
      row\<lparr>rw_events := stored_events events, rw_event_count := n,
        rw_trend_triggered := triggered, rw_trend_recovered := recovered\<rparr>)"

definition UpdateRecordNotificationEvents ::
    "engine \<Rightarrow> time \<Rightarrow> string \<Rightarrow> record_event list \<Rightarrow> db \<Rightarrow> db_error + db" where
  "UpdateRecordNotificationEvents en now rid events =
     transaction en (\<lambda>db.
       run en (Update ''monitor_records'' rid)
         (each (\<lambda>e. each (update_delivery_result en now (re_id e)) (re_deliveries e)) events
           (db\<lparr>db_records := update_rows (\<lambda>row. row_id row = rid)
              (set_record_events events) (db_records db)\<rparr>)))"

text \<open>
  \<open>hydrateNotificationDeliveries\<close>: each delivery row of a record is entered at the first of
  its events with the row's event id.
\<close>

fun add_delivery :: "delivery_record \<Rightarrow> record_event list \<Rightarrow> record_event list" where
  "add_delivery d [] = []"
| "add_delivery d (e # es) =
     (if re_id e = dr_event_id d
      then e\<lparr>re_deliveries := put (dr_channel_id d)
          \<lparr>dl_status = dr_status d, dl_attempts = dr_attempts d, dl_message = dr_message d\<rparr>
          (re_deliveries e)\<rparr> # es
      else e # add_delivery d es)"

definition hydrateNotificationDeliveries :: "delivery_record list \<Rightarrow> monitor_record \<Rightarrow> monitor_record" where
  "hydrateNotificationDeliveries rows r =
     r\<lparr>mr_events := fold add_delivery (filter (\<lambda>d. dr_record_id d = mr_id r) rows)
        (notificationEventMetadata (mr_events r))\<rparr>"

definition GetRecord :: "engine \<Rightarrow> string \<Rightarrow> string \<Rightarrow> db \<Rightarrow> db_error + monitor_record" where
  "GetRecord en mid rid db =
     run en (Select ''monitor_records'' rid)
       (ok_then (select_first (\<lambda>row. row_monitor row = mid \<and> row_id row = rid) (db_records db))
         (\<lambda>row. ok_then (recordToDomain row) (\<lambda>r.
           run en (Select ''notification_deliveries'' rid)
             (Inr (hydrateNotificationDeliveries (db_deliveries db) r)))))"

record record_list_options =
  ro_page :: int
  ro_page_size :: int
  ro_search :: string
  ro_status :: string
  ro_event_type :: string

definition applyRecordListOptions ::
    "engine \<Rightarrow> string \<Rightarrow> record_list_options \<Rightarrow> record_row \<Rightarrow> bool" where
  "applyRecordListOptions en mid opts row =
     (let r = rw_record row; etype = trim_space (ro_event_type opts) in
      mr_monitor_id r = mid \<and>
      like_any en (ro_search opts) [mr_error_message r, mr_event_type r, mr_condition_state r,
        mr_result_hash r, json_text (VObj (mr_result r))] \<and>
      (if ro_status opts = ''success'' then mr_success r
       else if ro_status opts = ''failed'' then \<not> mr_success r else True) \<and>
      (if etype = [] \<or> etype = ''all'' then True
       else if etype = ''trend_triggered'' then rw_trend_triggered row
       else if etype = ''trend_recovered'' then rw_trend_recovered row
       else if etype = ''none'' then mr_event_type r = ''none'' \<and> rw_event_count row = 0
       else mr_event_type r = etype))"

definition record_order :: "record_row \<Rightarrow> int" where
  "record_order row = mr_started_at (rw_record row)"

definition ListRecordsPage ::
    "engine \<Rightarrow> string \<Rightarrow> record_list_options \<Rightarrow> db \<Rightarrow> db_error + monitor_record page_result" where
  "ListRecordsPage en mid opts db =
     (let (page, pageSize) = normalizePage (ro_page opts) (ro_page_size opts);
          rows = filter (applyRecordListOptions en mid opts) (db_records db)
      in run en (Select ''monitor_records'' mid)
           (ok_then (all_ok (map recordToDomain
               (page_rows page pageSize (order_desc record_order rows))))
             (\<lambda>items. if items = [] then Inr (make_page page pageSize (int (length rows)) [])
               else run en (Select ''notification_deliveries'' mid)
                 (Inr (make_page page pageSize (int (length rows))
                   (map (hydrateNotificationDeliveries (db_deliveries db)) items))))))"

definition first_page :: "int \<Rightarrow> record_list_options" where
  "first_page limit = \<lparr>ro_page = 1, ro_page_size = limit, ro_search = [], ro_status = [],
     ro_event_type = []\<rparr>"

definition ListRecords :: "engine \<Rightarrow> string \<Rightarrow> int \<Rightarrow> db \<Rightarrow> db_error + monitor_record list" where
  "ListRecords en mid limit db =
     ok_then (ListRecordsPage en mid (first_page limit) db) (\<lambda>p. Inr (pg_items p))"

definition LatestSuccessfulRecord :: "engine \<Rightarrow> string \<Rightarrow> db \<Rightarrow> db_error + monitor_record" where
  "LatestSuccessfulRecord en mid db =
     run en (Select ''monitor_records'' mid)
       (ok_then (select_first (\<lambda>_. True) (order_desc record_order
           (filter (\<lambda>row. row_monitor row = mid \<and> mr_success (rw_record row)) (db_records db))))
         recordToDomain)"

definition DeleteMonitorRecords :: "engine \<Rightarrow> string \<Rightarrow> db \<Rightarrow> db_error + nat \<times> db" where
  "DeleteMonitorRecords en mid db =
     run en (Delete ''monitor_records'' mid)
       (Inr (length (filter (\<lambda>row. row_monitor row = mid) (db_records db)),
         db\<lparr>db_records := delete_rows (\<lambda>row. row_monitor row = mid) (db_records db)\<rparr>))"

definition record_expired :: "time \<Rightarrow> record_row \<Rightarrow> bool" where
  "record_expired before row = (mr_finished_at (rw_record row) < stored_time before)"

definition PruneRecords :: "engine \<Rightarrow> time \<Rightarrow> db \<Rightarrow> db_error + nat \<times> db" where
  "PruneRecords en before db =
     run en (Delete ''monitor_records'' [])
       (Inr (length (filter (record_expired before) (db_records db)),
         db\<lparr>db_records := delete_rows (record_expired before) (db_records db)\<rparr>))"

subsection \<open>Channels\<close>

definition notificationChannelFromDomain :: "channel \<Rightarrow> channel" where
  "notificationChannelFromDomain c = c\<lparr>ch_built_in := (ch_id c = BuiltInNotificationChannelID)\<rparr>"

text \<open>The unique index on \<open>builtin_key\<close>: at most one row is the built-in channel.\<close>

definition CreateChannel :: "engine \<Rightarrow> channel \<Rightarrow> db \<Rightarrow> db_error + db" where
  "CreateChannel en c db =
     (let row = notificationChannelFromDomain c in
      run en (Insert ''notification_channels'' (ch_id c))
        (if ch_built_in row \<and> list_ex ch_built_in (db_channels db)
         then Inl (Unique ''notification_channels'')
         else ok_then (insert_row ch_id ''notification_channels'' row (db_channels db))
           (\<lambda>rows. Inr (db\<lparr>db_channels := rows\<rparr>))))"

definition UpdateChannel :: "engine \<Rightarrow> channel \<Rightarrow> db \<Rightarrow> db_error + db" where
  "UpdateChannel en c db =
     run en (Update ''notification_channels'' (ch_id c))
       (Inr (db\<lparr>db_channels := update_rows (\<lambda>row. ch_id row = ch_id c)
          (\<lambda>row. row\<lparr>ch_name := ch_name c, ch_notifier_type := ch_notifier_type c,
             ch_enabled := ch_enabled c, ch_config := ch_config c,
             ch_updated_at := ch_updated_at c\<rparr>) (db_channels db)\<rparr>))"

definition DeleteChannel :: "engine \<Rightarrow> string \<Rightarrow> db \<Rightarrow> db_error + db" where
  "DeleteChannel en cid db =
     run en (Delete ''notification_channels'' cid)
       (Inr (db\<lparr>db_channels := delete_rows (\<lambda>row. ch_id row = cid) (db_channels db)\<rparr>))"

definition GetChannel :: "engine \<Rightarrow> string \<Rightarrow> db \<Rightarrow> db_error + channel" where
  "GetChannel en cid db =
     run en (Select ''notification_channels'' cid)
       (select_first (\<lambda>row. ch_id row = cid) (db_channels db))"

definition ListChannels :: "engine \<Rightarrow> db \<Rightarrow> db_error + channel list" where
  "ListChannels en db =
     run en (Select ''notification_channels'' [])
       (Inr (order_desc (\<lambda>c. timestamp (ch_created_at c)) (db_channels db)))"

subsection \<open>Deliveries\<close>

definition notificationDeliveryFromDomain :: "delivery_record \<Rightarrow> delivery_record" where
  "notificationDeliveryFromDomain d =
     d\<lparr>dr_created_at := stored_time (dr_created_at d), dr_updated_at := stored_time (dr_updated_at d),
       dr_delivered_at := map_option stored_time (dr_delivered_at d),
       dr_read_at := map_option stored_time (dr_read_at d)\<rparr>"

definition default_delivery :: "string \<Rightarrow> time \<Rightarrow> delivery_record \<Rightarrow> delivery_record" where
  "default_delivery new_id now d =
     (let created = (if dr_created_at d = zero_time then now else dr_created_at d) in
      d\<lparr>dr_id := (if dr_id d = [] then new_id else dr_id d), dr_created_at := created,
        dr_updated_at := (if dr_updated_at d = zero_time then created else dr_updated_at d)\<rparr>)"

text \<open>The insert ignores a row whose id, or whose event and channel, is already there.\<close>

definition CreateNotificationDelivery ::
    "engine \<Rightarrow> string \<Rightarrow> time \<Rightarrow> delivery_record \<Rightarrow> db \<Rightarrow> db_error + db" where
  "CreateNotificationDelivery en new_id now d db =
     (let row = notificationDeliveryFromDomain (default_delivery new_id now d) in
      run en (Insert ''notification_deliveries'' (dr_id row))
        (Inr (if dr_id row \<in> dr_id ` set (db_deliveries db) \<or>
                 delivery_key row \<in> delivery_key ` set (db_deliveries db)
              then db else db\<lparr>db_deliveries := db_deliveries db @ [row]\<rparr>)))"

definition CreateInAppNotification ::
    "engine \<Rightarrow> string \<Rightarrow> time \<Rightarrow> inapp_notification \<Rightarrow> db \<Rightarrow> db_error + db" where
  "CreateInAppNotification en new_id now n =
     (let created = (if in_created_at n = zero_time then now else in_created_at n) in
      CreateNotificationDelivery en new_id now
        \<lparr>dr_id = in_id n, dr_event_id = in_id n, dr_source = ''inapp'',
         dr_event_type = in_event_type n, dr_item_id = [], dr_rule_id = [],
         dr_channel_id = in_channel_id n, dr_notifier_type = ''inapp'',
         dr_monitor_id = in_monitor_id n, dr_record_id = in_record_id n, dr_title = in_title n,
         dr_content = in_content n, dr_status = ''sent'', dr_attempts = 1, dr_message = [],
         dr_read = in_read n, dr_created_at = created, dr_updated_at = created,
         dr_delivered_at = Some created, dr_read_at = in_read_at n\<rparr>)"

definition update_deliveries ::
    "engine \<Rightarrow> string \<Rightarrow> (delivery_record \<Rightarrow> bool) \<Rightarrow> (delivery_record \<Rightarrow> delivery_record) \<Rightarrow> db \<Rightarrow>
     db_error + db" where
  "update_deliveries en k P f db =
     run en (Update ''notification_deliveries'' k)
       (Inr (db\<lparr>db_deliveries := update_rows P f (db_deliveries db)\<rparr>))"

definition UpdateNotificationDeliveryContent ::
    "engine \<Rightarrow> time \<Rightarrow> string \<Rightarrow> string \<Rightarrow> string \<Rightarrow> string \<Rightarrow> db \<Rightarrow> db_error + db" where
  "UpdateNotificationDeliveryContent en now ev ch title content =
     update_deliveries en ev (\<lambda>row. delivery_key row = (ev, ch))
       (\<lambda>row. row\<lparr>dr_title := title, dr_content := content, dr_updated_at := stored_time now\<rparr>)"

definition UpdateNotificationDeliveryResult ::
    "engine \<Rightarrow> time \<Rightarrow> string \<Rightarrow> string \<Rightarrow> delivery \<Rightarrow> db \<Rightarrow> db_error + db" where
  "UpdateNotificationDeliveryResult en now ev ch d =
     update_deliveries en ev (\<lambda>row. delivery_key row = (ev, ch)) (set_delivery_result now d)"

definition UpdateNotificationDeliveryNotifier ::
    "engine \<Rightarrow> time \<Rightarrow> string \<Rightarrow> string \<Rightarrow> string \<Rightarrow> db \<Rightarrow> db_error + db" where
  "UpdateNotificationDeliveryNotifier en now ev ch ntype =
     update_deliveries en ev (\<lambda>row. delivery_key row = (ev, ch))
       (\<lambda>row. row\<lparr>dr_notifier_type := ntype, dr_updated_at := stored_time now\<rparr>)"

subsection \<open>In-app notifications: the deliveries of the in-app notifier\<close>

definition is_inapp :: "delivery_record \<Rightarrow> bool" where
  "is_inapp d \<longleftrightarrow> dr_notifier_type d = ''inapp''"

definition scanInAppNotification :: "delivery_record \<Rightarrow> inapp_notification" where
  "scanInAppNotification d =
     \<lparr>in_id = dr_id d, in_channel_id = dr_channel_id d, in_monitor_id = dr_monitor_id d,
      in_record_id = dr_record_id d, in_event_type = dr_event_type d, in_title = dr_title d,
      in_content = dr_content d, in_read = dr_read d, in_created_at = dr_created_at d,
      in_read_at = dr_read_at d\<rparr>"

definition select_inapp :: "engine \<Rightarrow> (delivery_record \<Rightarrow> bool) \<Rightarrow> db \<Rightarrow> db_error + inapp_notification" where
  "select_inapp en P db =
     run en (Select ''notification_deliveries'' [])
       (ok_then (select_first (\<lambda>d. is_inapp d \<and> P d) (db_deliveries db))
         (\<lambda>d. Inr (scanInAppNotification d)))"

definition GetInAppNotification :: "engine \<Rightarrow> string \<Rightarrow> db \<Rightarrow> db_error + inapp_notification" where
  "GetInAppNotification en nid = select_inapp en (\<lambda>d. dr_id d = nid)"

definition GetInAppNotificationByEvent :: "engine \<Rightarrow> string \<Rightarrow> string \<Rightarrow> db \<Rightarrow> db_error + inapp_notification" where
  "GetInAppNotificationByEvent en ev ch = select_inapp en (\<lambda>d. delivery_key d = (ev, ch))"

record notification_list_options =
  no_page :: int
  no_page_size :: int
  no_search :: string
  no_unread_only :: bool

definition inapp_matches :: "engine \<Rightarrow> notification_list_options \<Rightarrow> delivery_record \<Rightarrow> bool" where
  "inapp_matches en opts d \<longleftrightarrow>
     is_inapp d \<and> (no_unread_only opts \<longrightarrow> \<not> dr_read d) \<and>
     like_any en (no_search opts) [dr_title d, dr_content d]"

definition ListInAppNotificationsPage ::
    "engine \<Rightarrow> notification_list_options \<Rightarrow> db \<Rightarrow> db_error + inapp_notification page_result" where
  "ListInAppNotificationsPage en opts db =
     (let (page, pageSize) = normalizePage (no_page opts) (no_page_size opts);
          rows = filter (inapp_matches en opts) (db_deliveries db)
      in run en (Select ''notification_deliveries'' [])
           (Inr (make_page page pageSize (int (length rows))
             (map scanInAppNotification (page_rows page pageSize (order_desc dr_created_at rows))))))"

definition CountUnreadInAppNotifications :: "engine \<Rightarrow> db \<Rightarrow> db_error + nat" where
  "CountUnreadInAppNotifications en db =
     run en (Select ''notification_deliveries'' [])
       (Inr (length (filter (\<lambda>d. is_inapp d \<and> \<not> dr_read d) (db_deliveries db))))"

definition mark_read :: "time \<Rightarrow> delivery_record \<Rightarrow> delivery_record" where
  "mark_read now d =
     d\<lparr>dr_read := True,
       dr_read_at := (case dr_read_at d of None \<Rightarrow> Some (stored_time now) | Some t \<Rightarrow> Some t),
       dr_updated_at := stored_time now\<rparr>"

text \<open>The row is marked, and then read back; a failure to read it back does not unmark it.\<close>

definition MarkInAppNotificationRead ::
    "engine \<Rightarrow> time \<Rightarrow> string \<Rightarrow> db \<Rightarrow> (db_error + inapp_notification) \<times> db" where
  "MarkInAppNotificationRead en now nid db =
     (case update_deliveries en nid (\<lambda>d. is_inapp d \<and> dr_id d = nid) (mark_read now) db of
        Inl e \<Rightarrow> (Inl e, db)
      | Inr db' \<Rightarrow> (GetInAppNotification en nid db', db'))"

definition MarkAllInAppNotificationsRead :: "engine \<Rightarrow> time \<Rightarrow> db \<Rightarrow> db_error + nat \<times> db" where
  "MarkAllInAppNotificationsRead en now db =
     (let P = (\<lambda>d. is_inapp d \<and> \<not> dr_read d);
          f = (\<lambda>d. d\<lparr>dr_read := True, dr_read_at := Some (stored_time now),
                 dr_updated_at := stored_time now\<rparr>)
      in ok_then (update_deliveries en [] P f db)
           (\<lambda>db'. Inr (rows_affected en P f (db_deliveries db), db')))"

definition delete_deliveries :: "engine \<Rightarrow> (delivery_record \<Rightarrow> bool) \<Rightarrow> db \<Rightarrow> db_error + nat \<times> db" where
  "delete_deliveries en P db =
     run en (Delete ''notification_deliveries'' [])
       (Inr (length (filter P (db_deliveries db)),
         db\<lparr>db_deliveries := delete_rows P (db_deliveries db)\<rparr>))"

definition DeleteReadInAppNotifications :: "engine \<Rightarrow> db \<Rightarrow> db_error + nat \<times> db" where
  "DeleteReadInAppNotifications en = delete_deliveries en (\<lambda>d. is_inapp d \<and> dr_read d)"

definition PruneNotificationDeliveries :: "engine \<Rightarrow> time \<Rightarrow> db \<Rightarrow> db_error + nat \<times> db" where
  "PruneNotificationDeliveries en before =
     delete_deliveries en (\<lambda>d. dr_created_at d < stored_time before)"

definition PruneInAppNotifications :: "engine \<Rightarrow> time \<Rightarrow> db \<Rightarrow> db_error + nat \<times> db" where
  "PruneInAppNotifications en before = PruneNotificationDeliveries en before"

subsection \<open>Status board items\<close>

definition CreateStatusBoardItem :: "engine \<Rightarrow> status_item \<Rightarrow> db \<Rightarrow> db_error + db" where
  "CreateStatusBoardItem en item db =
     run en (Insert ''status_board_items'' (si_id item))
       (if si_monitor_id item \<notin> monitor_key ` set (db_monitors db)
        then Inl (ForeignKey (si_monitor_id item))
        else ok_then (insert_row si_id ''status_board_items'' item (db_items db))
          (\<lambda>rows. Inr (db\<lparr>db_items := rows\<rparr>)))"

definition UpdateStatusBoardItem :: "engine \<Rightarrow> status_item \<Rightarrow> db \<Rightarrow> db_error + db" where
  "UpdateStatusBoardItem en item db =
     run en (Update ''status_board_items'' (si_id item))
       (if list_ex (\<lambda>row. si_id row = si_id item) (db_items db) \<and>
           si_monitor_id item \<notin> monitor_key ` set (db_monitors db)
        then Inl (ForeignKey (si_monitor_id item))
        else Inr (db\<lparr>db_items := update_rows (\<lambda>row. si_id row = si_id item)
          (\<lambda>row. item\<lparr>si_created_at := si_created_at row\<rparr>) (db_items db)\<rparr>))"

definition statusBoardItemToDomain :: "status_item \<Rightarrow> status_item" where
  "statusBoardItemToDomain item =
     item\<lparr>si_runtime := (si_runtime item)\<lparr>ir_rules :=
        Some (case ir_rules (si_runtime item) of None \<Rightarrow> [] | Some rules \<Rightarrow> rules)\<rparr>\<rparr>"

definition GetStatusBoardItem :: "engine \<Rightarrow> string \<Rightarrow> db \<Rightarrow> db_error + status_item" where
  "GetStatusBoardItem en iid db =
     run en (Select ''status_board_items'' iid)
       (ok_then (select_first (\<lambda>item. si_id item = iid) (db_items db))
         (\<lambda>item. Inr (statusBoardItemToDomain item)))"

text \<open>\<open>ORDER BY created_at ASC\<close> on the text of the time.\<close>

definition listStatusBoardItems :: "engine \<Rightarrow> string \<Rightarrow> db \<Rightarrow> db_error + status_item list" where
  "listStatusBoardItems en mid db =
     run en (Select ''status_board_items'' mid)
       (Inr (map statusBoardItemToDomain (sort_key (\<lambda>item. timestamp (si_created_at item))
         (filter (\<lambda>item. mid = [] \<or> si_monitor_id item = mid) (db_items db)))))"

definition ListStatusBoardItems :: "engine \<Rightarrow> db \<Rightarrow> db_error + status_item list" where
  "ListStatusBoardItems en = listStatusBoardItems en []"

definition ListStatusBoardItemsByMonitor :: "engine \<Rightarrow> string \<Rightarrow> db \<Rightarrow> db_error + status_item list" where
  "ListStatusBoardItemsByMonitor en mid = listStatusBoardItems en mid"

definition DeleteStatusBoardItem :: "engine \<Rightarrow> string \<Rightarrow> db \<Rightarrow> db_error + db" where
  "DeleteStatusBoardItem en iid db =
     run en (Delete ''status_board_items'' iid)
       (Inr (db\<lparr>db_items := delete_rows (\<lambda>item. si_id item = iid) (db_items db)\<rparr>))"

definition fresh_item_runtime :: "time \<Rightarrow> item_runtime" where
  "fresh_item_runtime since = \<lparr>ir_started_at = since, ir_rules = Some []\<rparr>"

definition ResetStatusBoardRuntimeByMonitor :: "engine \<Rightarrow> string \<Rightarrow> time \<Rightarrow> db \<Rightarrow> db_error + db" where
  "ResetStatusBoardRuntimeByMonitor en mid since db =
     run en (Update ''status_board_items'' mid)
       (Inr (db\<lparr>db_items := update_rows (\<lambda>item. si_monitor_id item = mid)
          (\<lambda>item. item\<lparr>si_runtime := fresh_item_runtime since, si_updated_at := since\<rparr>) (db_items db)\<rparr>))"

subsection \<open>The transaction that ends an execution\<close>

definition commit_monitor_state :: "engine \<Rightarrow> time \<Rightarrow> string \<Rightarrow> runtime_state \<Rightarrow> db \<Rightarrow> db_error + db" where
  "commit_monitor_state en now mid st db =
     (let P = (\<lambda>row. monitor_key row = mid); f = set_runtime_state st now in
      run en (Update ''monitors'' mid)
        (if rows_affected en P f (db_monitors db) \<noteq> 1 then Inl (NotUpdated ''monitor'' mid)
         else Inr (db\<lparr>db_monitors := update_rows P f (db_monitors db)\<rparr>)))"

definition commit_item_state :: "engine \<Rightarrow> string \<times> item_runtime \<Rightarrow> db \<Rightarrow> db_error + db" where
  "commit_item_state en ist db =
     (let P = (\<lambda>item. si_id item = fst ist); f = (\<lambda>item. item\<lparr>si_runtime := snd ist\<rparr>) in
      run en (Update ''status_board_items'' (fst ist))
        (if rows_affected en P f (db_items db) \<noteq> 1
         then Inl (NotUpdated ''status board item'' (fst ist))
         else Inr (db\<lparr>db_items := update_rows P f (db_items db)\<rparr>)))"

definition CommitMonitorExecution ::
    "engine \<Rightarrow> (string \<Rightarrow> string \<Rightarrow> string) \<Rightarrow> time \<Rightarrow> monitor_record \<Rightarrow> string \<Rightarrow> runtime_state \<Rightarrow>
     item_runtime go_map \<Rightarrow> db \<Rightarrow> db_error + db" where
  "CommitMonitorExecution en ids now r mid st itemStates =
     transaction en (\<lambda>db.
       ok_then (addRecordTx en r db) (\<lambda>db1.
       ok_then (addPendingNotificationDeliveriesTx en ids now r db1) (\<lambda>db2.
       ok_then (commit_monitor_state en now mid st db2)
         (each (commit_item_state en) itemStates))))"

end
