(* ===== verification/StoreInvariant.thy ===== *)
theory StoreInvariant
  imports Store
begin

section \<open>What every operation of the store keeps\<close>

text \<open>
  The integrity of the database: unique keys, no record or status item without its
  monitor, and the redundant columns equal to what they summarise. It holds for the seeded
  database and every operation keeps it, so it holds in every reachable state.
\<close>

definition wf_monitors :: "monitor_row list \<Rightarrow> bool" where
  "wf_monitors rows \<longleftrightarrow>
     distinct (map monitor_key rows) \<and>
     (\<forall>row \<in> set rows.
        (mw_condition_active row, mw_last_success row) =
          monitorRuntimeFlags (mo_runtime_state (mw_monitor row)))"

definition wf_record_row :: "record_row \<Rightarrow> bool" where
  "wf_record_row row \<longleftrightarrow>
     stored_time (mr_started_at (rw_record row)) = mr_started_at (rw_record row) \<and>
     stored_time (mr_finished_at (rw_record row)) = mr_finished_at (rw_record row) \<and>
     (case rw_events row of
        None \<Rightarrow> True
      | Some events \<Rightarrow>
          (rw_event_count row, rw_trend_triggered row, rw_trend_recovered row) =
            notificationEventFlags events)"

definition wf_records :: "string set \<Rightarrow> record_row list \<Rightarrow> bool" where
  "wf_records mids rows \<longleftrightarrow>
     distinct (map row_id rows) \<and> row_monitor ` set rows \<subseteq> mids \<and> (\<forall>row \<in> set rows. wf_record_row row)"

definition wf_items :: "string set \<Rightarrow> status_item list \<Rightarrow> bool" where
  "wf_items mids items \<longleftrightarrow> distinct (map si_id items) \<and> si_monitor_id ` set items \<subseteq> mids"

definition wf_channels :: "channel list \<Rightarrow> bool" where
  "wf_channels rows \<longleftrightarrow>
     distinct (map ch_id rows) \<and>
     (\<forall>c \<in> set rows. ch_built_in c \<longrightarrow> ch_id c = BuiltInNotificationChannelID)"

definition wf_deliveries :: "delivery_record list \<Rightarrow> bool" where
  "wf_deliveries rows \<longleftrightarrow> distinct (map dr_id rows) \<and> distinct (map delivery_key rows)"

definition monitor_ids :: "db \<Rightarrow> string set" where
  "monitor_ids db = monitor_key ` set (db_monitors db)"

definition wf_db :: "db \<Rightarrow> bool" where
  "wf_db db \<longleftrightarrow>
     wf_monitors (db_monitors db) \<and> wf_records (monitor_ids db) (db_records db) \<and>
     wf_items (monitor_ids db) (db_items db) \<and> wf_channels (db_channels db) \<and>
     wf_deliveries (db_deliveries db)"

lemma wf_dbI [wf_intros]:
  assumes "wf_monitors (db_monitors db)" and "wf_records (monitor_ids db) (db_records db)"
    and "wf_items (monitor_ids db) (db_items db)" and "wf_channels (db_channels db)"
    and "wf_deliveries (db_deliveries db)"
  shows "wf_db db"
  using assms by (simp add: wf_db_def)

subsection \<open>Tables\<close>

lemma monitorFromDomain_simps [simp]:
  "mw_monitor (monitorFromDomain m) = m"
  "(mw_condition_active (monitorFromDomain m), mw_last_success (monitorFromDomain m)) =
     monitorRuntimeFlags (mo_runtime_state m)"
  by (simp_all add: monitorFromDomain_def split: prod.split)

lemma default_config_version_simps [simp]:
  "mo_id (default_config_version m) = mo_id m"
  "mo_runtime_state (default_config_version m) = mo_runtime_state m"
  by (simp_all add: default_config_version_def)

lemma set_runtime_state_simps [simp]:
  "monitor_key (set_runtime_state st now row) = monitor_key row"
  "(mw_condition_active (set_runtime_state st now row), mw_last_success (set_runtime_state st now row)) =
     monitorRuntimeFlags (mo_runtime_state (mw_monitor (set_runtime_state st now row)))"
  by (simp_all add: set_runtime_state_def monitorRuntimeFlags_def)

lemma wf_monitors_insert:
  "insert_row monitor_key t (monitorFromDomain m) rows = Inr rows' \<Longrightarrow> wf_monitors rows \<Longrightarrow> wf_monitors rows'"
  by (auto simp: wf_monitors_def insert_row_Inr)

lemma keys_update_rows:
  "(\<And>r. r \<in> set rows \<Longrightarrow> P r \<Longrightarrow> key (f r) = key r) \<Longrightarrow> map key (update_rows P f rows) = map key rows"
  by (simp add: update_rows_def)

lemma wf_monitors_update:
  assumes "wf_monitors rows" and "\<And>row. P row \<Longrightarrow> monitor_key (f row) = monitor_key row"
    and "\<And>row. (mw_condition_active (f row), mw_last_success (f row)) =
           monitorRuntimeFlags (mo_runtime_state (mw_monitor (f row)))"
  shows "wf_monitors (update_rows P f rows)"
    and "monitor_key ` set (update_rows P f rows) = monitor_key ` set rows"
proof -
  have keys: "map monitor_key (update_rows P f rows) = map monitor_key rows"
    using assms(2) by (rule keys_update_rows)
  then show "monitor_key ` set (update_rows P f rows) = monitor_key ` set rows"
    by (metis list.set_map)
  show "wf_monitors (update_rows P f rows)"
    using assms keys unfolding wf_monitors_def by (auto simp: in_update_rows)
qed

lemma wf_records_mono: "wf_records A rows \<Longrightarrow> A \<subseteq> B \<Longrightarrow> wf_records B rows"
  by (auto simp: wf_records_def)

lemma wf_items_mono: "wf_items A items \<Longrightarrow> A \<subseteq> B \<Longrightarrow> wf_items B items"
  by (auto simp: wf_items_def)

lemma distinct_filter_map: "distinct (map f xs) \<Longrightarrow> distinct (map f (filter P xs))"
  by (rule distinct_map_filter)

lemma wf_records_delete [wf_intros]: "wf_records A rows \<Longrightarrow> wf_records A (delete_rows P rows)"
  by (auto simp: wf_records_def)

lemma wf_items_delete [wf_intros]: "wf_items A items \<Longrightarrow> wf_items A (delete_rows P items)"
  by (auto simp: wf_items_def)


lemma wf_channels_delete [wf_intros]: "wf_channels rows \<Longrightarrow> wf_channels (delete_rows P rows)"
  by (auto simp: wf_channels_def)

lemma wf_deliveries_update [wf_intros]:
  assumes "wf_deliveries rows" and "\<And>d. dr_id (f d) = dr_id d" and "\<And>d. delivery_key (f d) = delivery_key d"
  shows "wf_deliveries (update_rows P f rows)"
proof -
  have "map delivery_key (update_rows P f rows) = map delivery_key rows"
    by (rule keys_update_rows) (rule assms(3))
  moreover have "map dr_id (update_rows P f rows) = map dr_id rows"
    by (rule keys_update_rows) (rule assms(2))
  ultimately show ?thesis using assms(1) by (simp add: wf_deliveries_def)
qed

lemma set_delivery_result_keys [simp]:
  "dr_id (set_delivery_result now d row) = dr_id row"
  "dr_event_id (set_delivery_result now d row) = dr_event_id row"
  "dr_channel_id (set_delivery_result now d row) = dr_channel_id row"
  by (simp_all add: set_delivery_result_def)

lemma mark_read_keys [simp]:
  "dr_id (mark_read now row) = dr_id row" "dr_event_id (mark_read now row) = dr_event_id row"
  "dr_channel_id (mark_read now row) = dr_channel_id row"
  by (simp_all add: mark_read_def)

lemma stored_events_flags:
  assumes "stored_events events = Some stored"
  shows "notificationEventFlags stored = notificationEventFlags events"
proof -
  have "stored = map (\<lambda>e. e\<lparr>re_trend_detail := map_option stored_obj (re_trend_detail e)\<rparr>)
      (notificationEventMetadata events)"
    using assms by (simp add: stored_events_def split: if_splits)
  then show ?thesis
    by (simp add: notificationEventFlags_def notificationEventMetadata_def list_ex_iff)
qed

lemma wf_recordFromDomain [simp]: "wf_record_row (recordFromDomain r)"
  by (auto simp: wf_record_row_def recordFromDomain_def Let_def
      dest: stored_events_flags split: prod.split option.split)

lemma recordFromDomain_keys [simp]:
  "row_id (recordFromDomain r) = mr_id r" "row_monitor (recordFromDomain r) = mr_monitor_id r"
  by (simp_all add: recordFromDomain_def split: prod.split)

lemma set_record_events_simps [simp]:
  "rw_record (set_record_events events row) = rw_record row"
  by (simp add: set_record_events_def split: prod.split)

lemma wf_set_record_events: "wf_record_row row \<Longrightarrow> wf_record_row (set_record_events events row)"
  by (auto simp: wf_record_row_def set_record_events_def
      dest: stored_events_flags split: prod.split option.splits)

lemma wf_records_update:
  assumes "wf_records A rows" and "\<And>row. rw_record (f row) = rw_record row"
    and "\<And>row. wf_record_row row \<Longrightarrow> wf_record_row (f row)"
  shows "wf_records A (update_rows P f rows)"
proof -
  have "map row_id (update_rows P f rows) = map row_id rows"
    by (rule keys_update_rows) (simp add: assms(2))
  with assms show ?thesis
    unfolding wf_records_def by (auto simp: in_update_rows image_subset_iff)
qed

subsection \<open>Operations\<close>

lemma db_simps [simp]:
  "monitor_ids (db\<lparr>db_records := rs\<rparr>) = monitor_ids db"
  "monitor_ids (db\<lparr>db_items := is\<rparr>) = monitor_ids db"
  "monitor_ids (db\<lparr>db_channels := cs\<rparr>) = monitor_ids db"
  "monitor_ids (db\<lparr>db_deliveries := ds\<rparr>) = monitor_ids db"
  "monitor_ids (db\<lparr>db_monitors := ms\<rparr>) = monitor_key ` set ms"
  by (simp_all add: monitor_ids_def)

lemma wf_set_deliveries [inv_intros]:
  "wf_db db \<Longrightarrow> wf_deliveries ds \<Longrightarrow> wf_db (db\<lparr>db_deliveries := ds\<rparr>)"
  by (simp add: wf_db_def)

lemma wf_set_records [inv_intros]:
  "wf_db db \<Longrightarrow> wf_records (monitor_ids db) rs \<Longrightarrow> wf_db (db\<lparr>db_records := rs\<rparr>)"
  by (simp add: wf_db_def)

lemma wf_set_items [inv_intros]:
  "wf_db db \<Longrightarrow> wf_items (monitor_ids db) is \<Longrightarrow> wf_db (db\<lparr>db_items := is\<rparr>)"
  by (simp add: wf_db_def)

lemma wf_set_channels [inv_intros]:
  "wf_db db \<Longrightarrow> wf_channels cs \<Longrightarrow> wf_db (db\<lparr>db_channels := cs\<rparr>)"
  by (simp add: wf_db_def)

lemma wf_set_monitors [inv_intros]:
  "wf_db db \<Longrightarrow> wf_monitors ms \<Longrightarrow> monitor_ids db \<subseteq> monitor_key ` set ms \<Longrightarrow>
   wf_db (db\<lparr>db_monitors := ms\<rparr>)"
  by (auto simp: wf_db_def intro: wf_records_mono wf_items_mono)

lemma wf_dbD:
  assumes "wf_db db"
  shows "wf_monitors (db_monitors db)" "wf_records (monitor_ids db) (db_records db)"
    "wf_items (monitor_ids db) (db_items db)" "wf_channels (db_channels db)"
    "wf_deliveries (db_deliveries db)"
  using assms by (simp_all add: wf_db_def)

lemma create_monitor_wf [inv_intros]: "CreateMonitor en m db = Inr db' \<Longrightarrow> wf_db db \<Longrightarrow> wf_db db'"
proof -
  assume a: "CreateMonitor en m db = Inr db'" and w: "wf_db db"
  then obtain rows where r: "insert_row monitor_key ''monitors''
      (monitorFromDomain (default_config_version m)) (db_monitors db) = Inr rows"
    and db': "db' = db\<lparr>db_monitors := rows\<rparr>"
    by (auto simp: CreateMonitor_def ok_then_Inr)
  have "wf_monitors rows" by (rule wf_monitors_insert [OF r wf_dbD(1) [OF w]])
  moreover have "monitor_ids db \<subseteq> monitor_key ` set rows" using r by (auto simp: insert_row_Inr monitor_ids_def)
  ultimately show ?thesis using w by (simp add: db' wf_set_monitors)
qed

lemma monitors_update_wf:
  assumes "wf_db db" and "\<And>row. P row \<Longrightarrow> monitor_key (f row) = monitor_key row"
    and "\<And>row. (mw_condition_active (f row), mw_last_success (f row)) =
           monitorRuntimeFlags (mo_runtime_state (mw_monitor (f row)))"
  shows "wf_db (db\<lparr>db_monitors := update_rows P f (db_monitors db)\<rparr>)"
  using wf_monitors_update [OF wf_dbD(1) [OF assms(1)] assms(2,3)]
  by (intro wf_set_monitors [OF assms(1)]) (simp_all add: monitor_ids_def)

lemma update_monitor_wf [inv_intros]:
  "UpdateMonitor en m db = Inr db' \<Longrightarrow> wf_db db \<Longrightarrow> wf_db db'"
  unfolding UpdateMonitor_def by (auto intro!: monitors_update_wf)

lemma update_runtime_state_wf [inv_intros]:
  "UpdateRuntimeState en now mid st db = Inr db' \<Longrightarrow> wf_db db \<Longrightarrow> wf_db db'"
  unfolding UpdateRuntimeState_def by (auto intro!: monitors_update_wf)

lemma commit_monitor_state_wf [inv_intros]:
  "commit_monitor_state en now mid st db = Inr db' \<Longrightarrow> wf_db db \<Longrightarrow> wf_db db'"
  by (auto simp: commit_monitor_state_def Let_def split: if_splits intro!: monitors_update_wf)

lemma remove_monitors_wf: "wf_db db \<Longrightarrow> wf_db (remove_monitors P db)"
  by (rule wf_dbI) (auto simp: remove_monitors_def wf_db_def monitor_ids_def wf_monitors_def
      wf_records_def wf_items_def wf_channels_def wf_deliveries_def)

lemma delete_monitor_wf [inv_intros]: "DeleteMonitor en mid db = Inr db' \<Longrightarrow> wf_db db \<Longrightarrow> wf_db db'"
  by (auto simp: DeleteMonitor_def remove_monitors_wf)

lemma add_record_tx_wf [inv_intros]: "addRecordTx en r db = Inr db' \<Longrightarrow> wf_db db \<Longrightarrow> wf_db db'"
  by (auto simp: addRecordTx_def ok_then_Inr insert_row_Inr wf_records_def monitor_ids_def
      split: if_splits intro!: wf_set_records dest: wf_dbD(2))

lemma insert_delivery_wf [inv_intros]: "insert_delivery en d db = Inr db' \<Longrightarrow> wf_db db \<Longrightarrow> wf_db db'"
  by (auto simp: insert_delivery_def ok_then_Inr insert_row_Inr wf_deliveries_def
      split: if_splits intro!: wf_set_deliveries dest: wf_dbD(5))

lemma pending_deliveries_wf [inv_intros]:
  "addPendingNotificationDeliveriesTx en ids now r db = Inr db' \<Longrightarrow> wf_db db \<Longrightarrow> wf_db db'"
  unfolding addPendingNotificationDeliveriesTx_def
  by (erule each_keeps) (auto intro: insert_delivery_wf)

lemma transaction_Inr:
  "transaction en body db = Inr db' \<Longrightarrow> body db = Inr db'"
  by (auto simp: transaction_def ok_then_Inr)

lemma add_record_wf [inv_intros]: "AddRecord en ids now r db = Inr db' \<Longrightarrow> wf_db db \<Longrightarrow> wf_db db'"
  unfolding AddRecord_def
  by (drule transaction_Inr) (auto simp: ok_then_Inr intro: add_record_tx_wf pending_deliveries_wf)

lemma update_deliveries_wf [inv_intros]:
  assumes "update_deliveries en k P f db = Inr db'" and "wf_db db"
    and "\<And>d. dr_id (f d) = dr_id d" and "\<And>d. delivery_key (f d) = delivery_key d"
  shows "wf_db db'"
  using assms by (auto simp: update_deliveries_def intro!: wf_set_deliveries wf_deliveries_update dest: wf_dbD(5))

lemma update_delivery_result_wf:
  "update_delivery_result en now ev chd db = Inr db' \<Longrightarrow> wf_db db \<Longrightarrow> wf_db db'"
  by (auto simp: update_delivery_result_def intro!: wf_set_deliveries wf_deliveries_update dest: wf_dbD(5))

lemma update_record_events_wf [inv_intros]:
  assumes "UpdateRecordNotificationEvents en now rid events db = Inr db'" and "wf_db db"
  shows "wf_db db'"
proof -
  let ?db = "db\<lparr>db_records := update_rows (\<lambda>row. row_id row = rid) (set_record_events events) (db_records db)\<rparr>"
  have "wf_db ?db"
    by (intro wf_set_records wf_records_update wf_dbD(2) assms wf_set_record_events) simp_all
  moreover have "each (\<lambda>e. each (update_delivery_result en now (re_id e)) (re_deliveries e)) events ?db = Inr db'"
    using assms(1) unfolding UpdateRecordNotificationEvents_def by (auto dest: transaction_Inr)
  ultimately show ?thesis
    by (elim each_keeps) (auto elim!: each_keeps intro: update_delivery_result_wf)
qed

lemma commit_item_state_wf [inv_intros]:
  assumes "commit_item_state en ist db = Inr db'" and "wf_db db"
  shows "wf_db db'"
proof -
  let ?is = "update_rows (\<lambda>item. si_id item = fst ist) (\<lambda>item. item\<lparr>si_runtime := snd ist\<rparr>) (db_items db)"
  have "map si_id ?is = map si_id (db_items db)" "map si_monitor_id ?is = map si_monitor_id (db_items db)"
    by (rule keys_update_rows; simp)+
  then have "wf_items (monitor_ids db) ?is"
    using wf_dbD(3) [OF assms(2)] unfolding wf_items_def by (metis list.set_map)
  then show ?thesis
    using assms by (auto simp: commit_item_state_def Let_def split: if_splits intro: wf_set_items)
qed

lemma commit_monitor_execution_wf [inv_intros]:
  assumes "CommitMonitorExecution en ids now r mid st items db = Inr db'" and "wf_db db"
  shows "wf_db db'"
proof -
  obtain db1 db2 db3 where "addRecordTx en r db = Inr db1"
    "addPendingNotificationDeliveriesTx en ids now r db1 = Inr db2"
    "commit_monitor_state en now mid st db2 = Inr db3"
    and e: "each (commit_item_state en) items db3 = Inr db'"
    using assms(1) unfolding CommitMonitorExecution_def by (auto dest!: transaction_Inr simp: ok_then_Inr)
  then have "wf_db db3"
    using assms(2) by (blast intro: add_record_tx_wf pending_deliveries_wf commit_monitor_state_wf)
  with e show ?thesis by (rule each_keeps) (rule commit_item_state_wf)
qed

lemma delete_records_wf [inv_intros]:
  "DeleteMonitorRecords en mid db = Inr (n, db') \<Longrightarrow> wf_db db \<Longrightarrow> wf_db db'"
  "PruneRecords en before db = Inr (n, db') \<Longrightarrow> wf_db db \<Longrightarrow> wf_db db'"
  by (auto simp: DeleteMonitorRecords_def PruneRecords_def intro!: wf_set_records wf_records_delete dest: wf_dbD(2))

lemma channels_wf [inv_intros]:
  "CreateChannel en c db = Inr db' \<Longrightarrow> wf_db db \<Longrightarrow> wf_db db'"
  "UpdateChannel en c db = Inr db' \<Longrightarrow> wf_db db \<Longrightarrow> wf_db db'"
  "DeleteChannel en cid db = Inr db' \<Longrightarrow> wf_db db \<Longrightarrow> wf_db db'"
proof -
  show "CreateChannel en c db = Inr db' \<Longrightarrow> wf_db db \<Longrightarrow> wf_db db'"
    by (auto simp: CreateChannel_def Let_def ok_then_Inr insert_row_Inr wf_channels_def
        notificationChannelFromDomain_def split: if_splits intro!: wf_set_channels dest: wf_dbD(4))
  show "UpdateChannel en c db = Inr db' \<Longrightarrow> wf_db db \<Longrightarrow> wf_db db'"
  proof -
    assume a: "UpdateChannel en c db = Inr db'" and w: "wf_db db"
    let ?f = "\<lambda>row. row\<lparr>ch_name := ch_name c, ch_notifier_type := ch_notifier_type c,
             ch_enabled := ch_enabled c, ch_config := ch_config c, ch_updated_at := ch_updated_at c\<rparr>"
    have "map ch_id (update_rows (\<lambda>row. ch_id row = ch_id c) ?f (db_channels db)) = map ch_id (db_channels db)"
      by (rule keys_update_rows) simp
    then have "wf_channels (update_rows (\<lambda>row. ch_id row = ch_id c) ?f (db_channels db))"
      using wf_dbD(4) [OF w] unfolding wf_channels_def by (auto simp: in_update_rows)
    then show ?thesis using a w by (auto simp: UpdateChannel_def intro: wf_set_channels)
  qed
  show "DeleteChannel en cid db = Inr db' \<Longrightarrow> wf_db db \<Longrightarrow> wf_db db'"
    by (auto simp: DeleteChannel_def intro!: wf_set_channels wf_channels_delete dest: wf_dbD(4))
qed

lemma create_delivery_wf [inv_intros]:
  "CreateNotificationDelivery en nid now d db = Inr db' \<Longrightarrow> wf_db db \<Longrightarrow> wf_db db'"
  by (auto simp: CreateNotificationDelivery_def Let_def wf_deliveries_def
      split: if_splits intro!: wf_set_deliveries dest: wf_dbD(5))

lemma create_inapp_wf [inv_intros]:
  "CreateInAppNotification en nid now n db = Inr db' \<Longrightarrow> wf_db db \<Longrightarrow> wf_db db'"
  unfolding CreateInAppNotification_def Let_def by (rule create_delivery_wf)

lemma delivery_updates_wf [inv_intros]:
  "UpdateNotificationDeliveryContent en now ev ch t c db = Inr db' \<Longrightarrow> wf_db db \<Longrightarrow> wf_db db'"
  "UpdateNotificationDeliveryResult en now ev ch d db = Inr db' \<Longrightarrow> wf_db db \<Longrightarrow> wf_db db'"
  "UpdateNotificationDeliveryNotifier en now ev ch nt db = Inr db' \<Longrightarrow> wf_db db \<Longrightarrow> wf_db db'"
  unfolding UpdateNotificationDeliveryContent_def UpdateNotificationDeliveryResult_def
    UpdateNotificationDeliveryNotifier_def
  by (erule update_deliveries_wf; simp)+

lemma inapp_updates_wf [inv_intros]:
  "wf_db db \<Longrightarrow> wf_db (snd (MarkInAppNotificationRead en now nid db))"
  "MarkAllInAppNotificationsRead en now db = Inr (n, db') \<Longrightarrow> wf_db db \<Longrightarrow> wf_db db'"
  unfolding MarkInAppNotificationRead_def MarkAllInAppNotificationsRead_def Let_def
  by (auto simp: ok_then_Inr elim: update_deliveries_wf split: sum.split)


lemma items_wf [inv_intros]:
  "CreateStatusBoardItem en item db = Inr db' \<Longrightarrow> wf_db db \<Longrightarrow> wf_db db'"
  "DeleteStatusBoardItem en iid db = Inr db' \<Longrightarrow> wf_db db \<Longrightarrow> wf_db db'"
proof -
  show "CreateStatusBoardItem en item db = Inr db' \<Longrightarrow> wf_db db \<Longrightarrow> wf_db db'"
    by (auto simp: CreateStatusBoardItem_def ok_then_Inr insert_row_Inr wf_items_def monitor_ids_def
        split: if_splits intro!: wf_set_items dest: wf_dbD(3))
  show "DeleteStatusBoardItem en iid db = Inr db' \<Longrightarrow> wf_db db \<Longrightarrow> wf_db db'"
    by (auto simp: DeleteStatusBoardItem_def intro!: wf_set_items wf_items_delete dest: wf_dbD(3))
qed

lemma update_item_wf [inv_intros]:
  assumes "UpdateStatusBoardItem en item db = Inr db'" and w: "wf_db db"
  shows "wf_db db'"
proof -
  let ?f = "\<lambda>row. item\<lparr>si_created_at := si_created_at row\<rparr>"
  let ?is = "update_rows (\<lambda>row. si_id row = si_id item) ?f (db_items db)"
  have "map si_id ?is = map si_id (db_items db)" by (rule keys_update_rows) simp
  then have "wf_items (monitor_ids db) ?is"
    using wf_dbD(3) [OF w] assms(1) unfolding wf_items_def
    by (auto simp: in_update_rows UpdateStatusBoardItem_def list_ex_iff monitor_ids_def
        image_subset_iff split: if_splits)
  then show ?thesis
    using assms by (auto simp: UpdateStatusBoardItem_def split: if_splits intro: wf_set_items)
qed

lemma reset_items_wf [inv_intros]:
  assumes "ResetStatusBoardRuntimeByMonitor en mid t db = Inr db'" and w: "wf_db db"
  shows "wf_db db'"
proof -
  let ?is = "update_rows (\<lambda>item. si_monitor_id item = mid)
    (\<lambda>item. item\<lparr>si_runtime := fresh_item_runtime t, si_updated_at := t\<rparr>) (db_items db)"
  have "map si_id ?is = map si_id (db_items db)" "map si_monitor_id ?is = map si_monitor_id (db_items db)"
    by (rule keys_update_rows; simp)+
  then have "wf_items (monitor_ids db) ?is"
    using wf_dbD(3) [OF w] unfolding wf_items_def by (metis list.set_map)
  then show ?thesis using assms by (auto simp: ResetStatusBoardRuntimeByMonitor_def intro: wf_set_items)
qed

subsection \<open>Reachable databases\<close>

text \<open>The channel that the migration inserts (\<open>seedBuiltInChannel\<close>).\<close>

definition seed_channel :: "time \<Rightarrow> channel" where
  "seed_channel now =
     \<lparr>ch_id = ''builtin-inapp'', ch_name = txt_inapp_channel, ch_notifier_type = ''inapp'',
      ch_enabled = True,
      ch_config = VObj [(''title_template'', VStr (''{{monitor.name}}'' @ txt_dot @ ''{{event.type}}'')),
        (''body_template'', VStr ''{{event.summary}}'')],
      ch_created_at = now, ch_updated_at = now, ch_built_in = True\<rparr>"

definition seeded_db :: "time \<Rightarrow> db" where
  "seeded_db now = empty_db\<lparr>db_channels := [seed_channel now]\<rparr>"

text \<open>One call of an operation that changes the tables of this part of the store.\<close>

inductive store_step :: "engine \<Rightarrow> db \<Rightarrow> db \<Rightarrow> bool" for en where
  create_monitor: "CreateMonitor en m db = Inr db' \<Longrightarrow> store_step en db db'"
| update_monitor: "UpdateMonitor en m db = Inr db' \<Longrightarrow> store_step en db db'"
| update_runtime: "UpdateRuntimeState en now mid st db = Inr db' \<Longrightarrow> store_step en db db'"
| delete_monitor: "DeleteMonitor en mid db = Inr db' \<Longrightarrow> store_step en db db'"
| add_record: "AddRecord en ids now r db = Inr db' \<Longrightarrow> store_step en db db'"
| update_events: "UpdateRecordNotificationEvents en now rid events db = Inr db' \<Longrightarrow> store_step en db db'"
| delete_records: "DeleteMonitorRecords en mid db = Inr (n, db') \<Longrightarrow> store_step en db db'"
| prune_records: "PruneRecords en before db = Inr (n, db') \<Longrightarrow> store_step en db db'"
| create_channel: "CreateChannel en c db = Inr db' \<Longrightarrow> store_step en db db'"
| update_channel: "UpdateChannel en c db = Inr db' \<Longrightarrow> store_step en db db'"
| delete_channel: "DeleteChannel en cid db = Inr db' \<Longrightarrow> store_step en db db'"
| create_delivery: "CreateNotificationDelivery en nid now d db = Inr db' \<Longrightarrow> store_step en db db'"
| create_inapp: "CreateInAppNotification en nid now n db = Inr db' \<Longrightarrow> store_step en db db'"
| set_content: "UpdateNotificationDeliveryContent en now ev ch t c db = Inr db' \<Longrightarrow> store_step en db db'"
| set_result: "UpdateNotificationDeliveryResult en now ev ch d db = Inr db' \<Longrightarrow> store_step en db db'"
| set_notifier: "UpdateNotificationDeliveryNotifier en now ev ch nt db = Inr db' \<Longrightarrow> store_step en db db'"
| mark_read: "store_step en db (snd (MarkInAppNotificationRead en now nid db))"
| mark_all_read: "MarkAllInAppNotificationsRead en now db = Inr (n, db') \<Longrightarrow> store_step en db db'"
| delete_read: "DeleteReadInAppNotifications en db = Inr (n, db') \<Longrightarrow> store_step en db db'"
| prune_deliveries: "PruneNotificationDeliveries en before db = Inr (n, db') \<Longrightarrow> store_step en db db'"
| create_item: "CreateStatusBoardItem en item db = Inr db' \<Longrightarrow> store_step en db db'"
| update_item: "UpdateStatusBoardItem en item db = Inr db' \<Longrightarrow> store_step en db db'"
| delete_item: "DeleteStatusBoardItem en iid db = Inr db' \<Longrightarrow> store_step en db db'"
| reset_items: "ResetStatusBoardRuntimeByMonitor en mid t db = Inr db' \<Longrightarrow> store_step en db db'"
| commit: "CommitMonitorExecution en ids now r mid st items db = Inr db' \<Longrightarrow> store_step en db db'"

inductive store_reachable :: "engine \<Rightarrow> db \<Rightarrow> bool" for en where
  seed: "store_reachable en (seeded_db now)"
| step: "store_reachable en db \<Longrightarrow> store_step en db db' \<Longrightarrow> store_reachable en db'"

inductive_cases store_reachable_cases: "store_reachable en db"




definition test_engine :: "bool \<Rightarrow> engine" where
  "test_engine matched = \<lparr>en_ok = (\<lambda>_. True), en_like = (\<lambda>_ _. True), en_counts_matched = matched\<rparr>"

definition test_monitor :: "string \<Rightarrow> monitor" where
  "test_monitor mid = \<lparr>mo_id = mid, mo_name = mid, mo_module_type = ''http'', mo_module_version = ''1'',
     mo_module_config_version = ''1'', mo_schedules = [], mo_enabled = True, mo_module_config = VNil,
     mo_condition_config = None, mo_channel_ids = [], mo_runtime_state = None,
     mo_created_at = 0, mo_updated_at = 0\<rparr>"


text \<open>
  Deleting a monitor takes its records and its status items with it and leaves the rows
  of every other monitor, all channels and all deliveries as they were.
\<close>

theorem delete_monitor_cascades:
  assumes "DeleteMonitor en mid db = Inr db'"
  shows "mid \<notin> monitor_key ` set (db_monitors db') \<and> mid \<notin> row_monitor ` set (db_records db') \<and>
    mid \<notin> si_monitor_id ` set (db_items db') \<and>
    (\<forall>m. m \<noteq> mid \<longrightarrow>
      filter (\<lambda>row. monitor_key row = m) (db_monitors db') = filter (\<lambda>row. monitor_key row = m) (db_monitors db) \<and>
      filter (\<lambda>row. row_monitor row = m) (db_records db') = filter (\<lambda>row. row_monitor row = m) (db_records db) \<and>
      filter (\<lambda>item. si_monitor_id item = m) (db_items db') = filter (\<lambda>item. si_monitor_id item = m) (db_items db)) \<and>
    db_channels db' = db_channels db \<and> db_deliveries db' = db_deliveries db"
proof -
  have db': "db' = remove_monitors (\<lambda>k. k = mid) db"
    using assms by (simp add: DeleteMonitor_def)
  have f: "filter (\<lambda>r. key r = m) (delete_rows (\<lambda>r. key r = mid) rows) = filter (\<lambda>r. key r = m) rows"
    if "m \<noteq> mid" for key :: "'r \<Rightarrow> string" and rows m
    unfolding delete_rows_def filter_filter by (rule filter_cong) (use that in auto)
  show ?thesis by (auto simp: db' remove_monitors_def f)
qed

lemma delete_monitor_cascades_witness:
  "''m'' \<notin> monitor_key ` set (db_monitors (remove_monitors (\<lambda>k. k = ''m'')
     ((seeded_db 0)\<lparr>db_monitors := [monitorFromDomain (test_monitor ''m'')]\<rparr>)))"
  using delete_monitor_cascades [of "test_engine True" "''m''"
      "(seeded_db 0)\<lparr>db_monitors := [monitorFromDomain (test_monitor ''m'')]\<rparr>"]
  by (simp add: DeleteMonitor_def test_engine_def)

end
