(* ===== verification/StoreCommit.thy ===== *)
theory StoreCommit
  imports StoreInvariant
begin

section \<open>What the execution transaction and the pages of records give\<close>

text \<open>
  The effect of \<open>CommitMonitorExecution\<close> row by row, what is read back afterwards, how its
  row counts behave on the two engines, and the paging of records.
\<close>

subsection \<open>The steps of the transaction\<close>

lemma addRecordTx_Inr:
  "addRecordTx en r db = Inr db' \<longleftrightarrow>
   en_ok en (Insert ''monitor_records'' (mr_id r)) \<and> mr_monitor_id r \<in> monitor_ids db \<and>
   mr_id r \<notin> row_id ` set (db_records db) \<and>
   db' = db\<lparr>db_records := db_records db @ [recordFromDomain r]\<rparr>"
  by (auto simp: addRecordTx_def ok_then_Inr insert_row_Inr monitor_ids_def)

lemma insert_deliveries_Inr:
  "each (insert_delivery en) ds db = Inr db' \<Longrightarrow>
   db' = db\<lparr>db_deliveries := db_deliveries db @ ds\<rparr>"
proof (induction ds arbitrary: db)
  case Nil
  then show ?case by simp
next
  case (Cons d ds)
  then obtain u where "insert_delivery en d db = Inr u" and r: "each (insert_delivery en) ds u = Inr db'"
    by (auto simp: ok_then_Inr)
  then have "u = db\<lparr>db_deliveries := db_deliveries db @ [d]\<rparr>"
    by (auto simp: insert_delivery_def ok_then_Inr insert_row_Inr split: if_splits)
  with Cons.IH [OF r] show ?case by simp
qed

lemma insert_deliveries_fresh:
  "each (insert_delivery en) ds db = Inr db' \<Longrightarrow> wf_deliveries (db_deliveries db) \<Longrightarrow>
   wf_deliveries (db_deliveries db @ ds)"
proof (induction ds arbitrary: db)
  case Nil
  then show ?case by simp
next
  case (Cons d ds)
  then obtain u where i: "insert_delivery en d db = Inr u" and r: "each (insert_delivery en) ds u = Inr db'"
    by (auto simp: ok_then_Inr)
  then have u: "u = db\<lparr>db_deliveries := db_deliveries db @ [d]\<rparr>"
    by (auto simp: insert_delivery_def ok_then_Inr insert_row_Inr split: if_splits)
  have "wf_deliveries (db_deliveries u)"
    using i Cons.prems(2) u
    by (auto simp: insert_delivery_def ok_then_Inr insert_row_Inr wf_deliveries_def split: if_splits)
  from Cons.IH [OF r this] show ?case by (simp add: u)
qed

definition with_state :: "item_runtime go_map \<Rightarrow> status_item \<Rightarrow> status_item" where
  "with_state states item =
     (case get states (si_id item) of None \<Rightarrow> item | Some st \<Rightarrow> item\<lparr>si_runtime := st\<rparr>)"

lemma with_state_id [simp]: "si_id (with_state states item) = si_id item"
  by (simp add: with_state_def split: option.split)

lemma with_state_Nil [simp]: "with_state [] item = item"
  by (simp add: with_state_def)

lemma commit_items_Inr:
  "each (commit_item_state en) states db = Inr db' \<Longrightarrow> wf_map states \<Longrightarrow>
   db' = db\<lparr>db_items := map (with_state states) (db_items db)\<rparr>"
proof (induction states arbitrary: db)
  case Nil
  then show ?case by (simp add: map_idI)
next
  case (Cons ist states)
  obtain k st where ist: "ist = (k, st)" by force
  from Cons.prems obtain u where i: "commit_item_state en ist db = Inr u"
    and r: "each (commit_item_state en) states u = Inr db'" by (auto simp: ok_then_Inr)
  have u: "u = db\<lparr>db_items := update_rows (\<lambda>item. si_id item = k) (\<lambda>item. item\<lparr>si_runtime := st\<rparr>) (db_items db)\<rparr>"
    using i by (simp add: commit_item_state_def Let_def ist split: if_splits)
  have k: "get states k = None" and wf: "wf_map states"
    using Cons.prems(2) by (auto simp: ist wf_map_def map_of_eq_None_iff)
  have "with_state states (if si_id item = k then item\<lparr>si_runtime := st\<rparr> else item) =
      with_state (ist # states) item" for item
    using k by (auto simp: with_state_def ist)
  then show ?case
    using Cons.IH [OF r wf] by (simp add: u update_rows_def comp_def)
qed

lemma commit_monitor_state_Inr:
  "commit_monitor_state en now mid st db = Inr db' \<Longrightarrow>
   db' = db\<lparr>db_monitors := update_rows (\<lambda>row. monitor_key row = mid) (set_runtime_state st now) (db_monitors db)\<rparr>"
  by (simp add: commit_monitor_state_def Let_def split: if_splits)

definition committed ::
    "(string \<Rightarrow> string \<Rightarrow> string) \<Rightarrow> time \<Rightarrow> monitor_record \<Rightarrow> string \<Rightarrow> runtime_state \<Rightarrow>
     item_runtime go_map \<Rightarrow> db \<Rightarrow> db" where
  "committed ids now r mid st states db =
     db\<lparr>db_records := db_records db @ [recordFromDomain r],
        db_deliveries := db_deliveries db @ pending_rows ids now r,
        db_monitors := update_rows (\<lambda>row. monitor_key row = mid) (set_runtime_state st now) (db_monitors db),
        db_items := map (with_state states) (db_items db)\<rparr>"

lemma commit_Inr:
  assumes "CommitMonitorExecution en ids now r mid st states db = Inr db'" and "wf_map states"
  shows "db' = committed ids now r mid st states db" and "mr_monitor_id r \<in> monitor_ids db"
    and "mr_id r \<notin> row_id ` set (db_records db)"
    and "wf_deliveries (db_deliveries db) \<Longrightarrow> wf_deliveries (db_deliveries db @ pending_rows ids now r)"
proof -
  obtain db1 db2 db3 where 1: "addRecordTx en r db = Inr db1"
    and 2: "addPendingNotificationDeliveriesTx en ids now r db1 = Inr db2"
    and 3: "commit_monitor_state en now mid st db2 = Inr db3"
    and 4: "each (commit_item_state en) states db3 = Inr db'"
    using assms(1) unfolding CommitMonitorExecution_def by (auto dest!: transaction_Inr simp: ok_then_Inr)
  note 1 = 1 [unfolded addRecordTx_Inr] and 2 = 2 [unfolded addPendingNotificationDeliveriesTx_def]
  show "mr_monitor_id r \<in> monitor_ids db" "mr_id r \<notin> row_id ` set (db_records db)" using 1 by auto
  show "db' = committed ids now r mid st states db"
    using 1 insert_deliveries_Inr [OF 2] commit_monitor_state_Inr [OF 3] commit_items_Inr [OF 4 assms(2)]
    by (simp add: committed_def)
  show "wf_deliveries (db_deliveries db @ pending_rows ids now r)" if "wf_deliveries (db_deliveries db)"
    using insert_deliveries_fresh [OF 2] that 1 by simp
qed

text \<open>
  C5: A committed execution has exactly its five effects: the record is appended, one pending
  delivery per event and channel is appended, the monitor's runtime state and its two
  redundant columns are set, and the runtime state of each evaluated status item is
  replaced; no other row or table changes, and the record was not there before.
\<close>

theorem commit_execution_effect:
  assumes "CommitMonitorExecution en ids now r mid st states db = Inr db'" and "wf_map states"
  shows "db' = committed ids now r mid st states db \<and> mr_id r \<notin> row_id ` set (db_records db) \<and>
    db_channels db' = db_channels db \<and> db_configs db' = db_configs db \<and>
    map si_id (db_items db') = map si_id (db_items db) \<and>
    map monitor_key (db_monitors db') = map monitor_key (db_monitors db) \<and>
    (\<forall>row \<in> set (db_monitors db'). monitor_key row = mid \<longrightarrow>
       mo_runtime_state (mw_monitor row) = Some st \<and> mw_condition_active row = rs_condition_active st \<and>
       mw_last_success row = rs_last_success st) \<and>
    (\<forall>item \<in> set (db_items db'). \<forall>s. get states (si_id item) = Some s \<longrightarrow> si_runtime item = s)"
proof -
  note eq = commit_Inr(1) [OF assms]
  have keys: "map monitor_key (update_rows (\<lambda>row. monitor_key row = mid) (set_runtime_state st now) (db_monitors db)) =
      map monitor_key (db_monitors db)"
    by (rule keys_update_rows) simp
  have mon: "mo_runtime_state (mw_monitor row) = Some st \<and> mw_condition_active row = rs_condition_active st \<and>
       mw_last_success row = rs_last_success st"
    if "monitor_key row = mid"
      "row \<in> set (update_rows (\<lambda>row. monitor_key row = mid) (set_runtime_state st now) (db_monitors db))"
    for row
  proof -
    note h = that
    obtain q where "row = (if monitor_key q = mid then set_runtime_state st now q else q)"
      using h(2) unfolding in_update_rows by blast
    with h(1) have "row = set_runtime_state st now q" by (cases "monitor_key q = mid") simp_all
    then show ?thesis by (simp add: set_runtime_state_def)
  qed
  have item: "si_runtime (with_state states item) = s" if "get states (si_id item) = Some s" for item s
    using that by (simp add: with_state_def)
  show ?thesis
    using commit_Inr(3) [OF assms] keys mon item unfolding eq committed_def
    by (intro conjI ballI allI impI) (auto simp: comp_def)
qed

definition test_record :: "monitor_record" where
  "test_record = \<lparr>mr_id = ''r'', mr_monitor_id = ''m'', mr_module_type = ''http'',
     mr_module_version = ''1'', mr_started_at = 5000, mr_finished_at = 6000, mr_success = True,
     mr_duration_ms = 1, mr_schema_version = ''1'', mr_result = [(''code'', VStr ''ok'')],
     mr_result_hash = [], mr_condition_state = ''true'', mr_event_type = ''triggered'',
     mr_events = [\<lparr>re_id = ''e'', re_source = ''monitor_condition'', re_event_type = ''triggered'',
       re_item_id = [], re_item_name = [], re_rule_id = [], re_rule_name = [],
       re_trend_detail = None, re_summary = ''s'',
       re_deliveries = [(''c'', \<lparr>dl_status = ''pending'', dl_attempts = 0, dl_message = []\<rparr>)]\<rparr>],
     mr_error_code = [], mr_error_message = []\<rparr>"

definition test_item :: "string \<Rightarrow> trend_rule list \<Rightarrow> status_item" where
  "test_item iid rules = \<lparr>si_id = iid, si_name = iid, si_monitor_id = ''m'', si_enabled = True,
     si_source = \<lparr>ss_kind = ''condition_overall'', ss_rule_id = [], ss_result_set = [], ss_field = [],
       ss_path = [], ss_value_type = ''boolean'', ss_mappings = None, ss_default_level = [],
       ss_default_label = [], ss_default_color = []\<rparr>,
     si_invert = False, si_thresholds = [], si_history_limit = 60, si_trend_rules = rules,
     si_channel_ids = [], si_runtime = fresh_item_runtime 0, si_created_at = 0, si_updated_at = 0\<rparr>"

definition test_db :: db where
  "test_db = (seeded_db 0)\<lparr>db_monitors := [monitorFromDomain (test_monitor ''m'')],
     db_items := [test_item ''i'' []]\<rparr>"

definition test_ids :: "string \<Rightarrow> string \<Rightarrow> string" where
  "test_ids ev ch = ev @ ''/'' @ ch"

lemmas test_defs = test_db_def test_record_def test_item_def test_monitor_def test_engine_def
  test_ids_def seeded_db_def empty_db_def monitorFromDomain_def monitorRuntimeFlags_def

lemma insert_deliveries_ok:
  assumes "\<forall>s. en_ok en s" and "wf_deliveries (db_deliveries db @ ds)"
  shows "each (insert_delivery en) ds db = Inr (db\<lparr>db_deliveries := db_deliveries db @ ds\<rparr>)"
  using assms(2)
proof (induction ds arbitrary: db)
  case Nil
  then show ?case by simp
next
  case (Cons d ds)
  have "insert_delivery en d db = Inr (db\<lparr>db_deliveries := db_deliveries db @ [d]\<rparr>)"
    using Cons.prems assms(1) by (auto simp: insert_delivery_def run_def insert_row_def wf_deliveries_def)
  moreover have "each (insert_delivery en) ds (db\<lparr>db_deliveries := db_deliveries db @ [d]\<rparr>) =
      Inr (db\<lparr>db_deliveries := (db_deliveries db @ [d]) @ ds\<rparr>)"
    using Cons.IH [of "db\<lparr>db_deliveries := db_deliveries db @ [d]\<rparr>"] Cons.prems by simp
  ultimately show ?case by simp
qed

lemma commit_items_ok:
  assumes "\<forall>s. en_ok en s" and "en_counts_matched en" and "wf_map states"
    and "fst ` set states \<subseteq> si_id ` set (db_items db)" and "distinct (map si_id (db_items db))"
  shows "is_ok (each (commit_item_state en) states db)"
  using assms(3-)
proof (induction states arbitrary: db)
  case Nil
  then show ?case by simp
next
  case (Cons ist states)
  let ?is = "update_rows (\<lambda>item. si_id item = fst ist) (\<lambda>item. item\<lparr>si_runtime := snd ist\<rparr>) (db_items db)"
  obtain item where item: "item \<in> set (db_items db)" "si_id item = fst ist" using Cons.prems(2) by auto
  have n: "rows_affected en (\<lambda>it. si_id it = fst ist) (\<lambda>it. it\<lparr>si_runtime := snd ist\<rparr>) (db_items db) = 1"
    using rows_affected_matched [OF assms(2) Cons.prems(3) item(1)] item(2) by simp
  have keys: "map si_id ?is = map si_id (db_items db)" by (rule keys_update_rows) simp
  then have "is_ok (each (commit_item_state en) states (db\<lparr>db_items := ?is\<rparr>))"
    using Cons.prems by (intro Cons.IH) (auto simp: wf_map_def simp del: set_map simp flip: set_map)
  then show ?case
    using assms(1) n by (simp add: commit_item_state_def [of _ ist] Let_def run_def)
qed

lemma commit_succeeds:
  assumes "\<forall>s. en_ok en s" and "en_counts_matched en" and "wf_db db" and "wf_map states"
    and "mr_monitor_id r \<in> monitor_ids db" and "mid \<in> monitor_ids db"
    and "mr_id r \<notin> row_id ` set (db_records db)"
    and "wf_deliveries (db_deliveries db @ pending_rows ids now r)"
    and "fst ` set states \<subseteq> si_id ` set (db_items db)"
  shows "CommitMonitorExecution en ids now r mid st states db = Inr (committed ids now r mid st states db)"
proof -
  let ?db1 = "db\<lparr>db_records := db_records db @ [recordFromDomain r]\<rparr>"
  let ?db2 = "?db1\<lparr>db_deliveries := db_deliveries db @ pending_rows ids now r\<rparr>"
  let ?P = "\<lambda>row. monitor_key row = mid" and ?f = "set_runtime_state st now"
  obtain row where row: "row \<in> set (db_monitors db)" "monitor_key row = mid"
    using assms(6) by (auto simp: monitor_ids_def)
  have 1: "addRecordTx en r db = Inr ?db1" using assms by (simp add: addRecordTx_Inr)
  have 2: "addPendingNotificationDeliveriesTx en ids now r ?db1 = Inr ?db2"
    using insert_deliveries_ok [OF assms(1), of ?db1] assms(8)
    by (simp add: addPendingNotificationDeliveriesTx_def)
  have "rows_affected en ?P ?f (db_monitors db) = 1"
    using rows_affected_matched [OF assms(2), of monitor_key "db_monitors db" row ?f] row assms(3)
    by (simp add: wf_db_def wf_monitors_def)
  then have 3: "commit_monitor_state en now mid st ?db2 =
      Inr (?db2\<lparr>db_monitors := update_rows ?P ?f (db_monitors db)\<rparr>)"
    using assms(1) by (simp add: commit_monitor_state_def Let_def run_def)
  have "is_ok (each (commit_item_state en) states (?db2\<lparr>db_monitors := update_rows ?P ?f (db_monitors db)\<rparr>))"
    using assms(3,9) by (intro commit_items_ok assms(1,2,4)) (simp_all add: wf_db_def wf_items_def)
  then obtain db' where "each (commit_item_state en) states (?db2\<lparr>db_monitors := update_rows ?P ?f (db_monitors db)\<rparr>) = Inr db'"
    by (auto simp: is_ok_iff)
  then have "CommitMonitorExecution en ids now r mid st states db = Inr db'"
    using assms(1) 1 2 3 by (simp add: CommitMonitorExecution_def transaction_def run_def)
  with commit_Inr(1) [OF this assms(4)] show ?thesis by simp
qed

lemma test_commit:
  "CommitMonitorExecution (test_engine True) test_ids 9000 test_record ''m'' zero_runtime_state
     [(''i'', fresh_item_runtime 0)] test_db =
   Inr (committed test_ids 9000 test_record ''m'' zero_runtime_state [(''i'', fresh_item_runtime 0)] test_db)"
proof (rule commit_succeeds)
  show "wf_db test_db"
    by (simp add: wf_db_def wf_monitors_def wf_records_def wf_items_def wf_channels_def wf_deliveries_def
        monitor_ids_def test_defs seed_channel_def BuiltInNotificationChannelID_def)
  show "wf_deliveries (db_deliveries test_db @ pending_rows test_ids 9000 test_record)"
    by (simp add: wf_deliveries_def pending_rows_def test_defs)
qed (simp_all add: test_defs monitor_ids_def wf_map_def)

lemma commit_execution_effect_witness:
  "map si_id (db_items (committed test_ids 9000 test_record ''m'' zero_runtime_state
     [(''i'', fresh_item_runtime 0)] test_db)) = map si_id (db_items test_db)"
proof -
  have "wf_map [(''i'', fresh_item_runtime 0)]" by (simp add: wf_map_def)
  from commit_execution_effect [OF test_commit this] show ?thesis by (elim conjE)
qed

subsection \<open>Reading the record back\<close>

definition pending :: delivery where
  "pending = \<lparr>dl_status = ''pending'', dl_attempts = 0, dl_message = []\<rparr>"

definition stored_event :: "record_event \<Rightarrow> record_event" where
  "stored_event e = e\<lparr>re_trend_detail := map_option stored_obj (re_trend_detail e)\<rparr>"

definition read_event :: "record_event \<Rightarrow> record_event" where
  "read_event e = (stored_event e)\<lparr>re_deliveries := map (\<lambda>(ch, _). (ch, pending)) (re_deliveries e)\<rparr>"

definition read_record :: "monitor_record \<Rightarrow> monitor_record" where
  "read_record r = r\<lparr>mr_started_at := stored_time (mr_started_at r),
     mr_finished_at := stored_time (mr_finished_at r), mr_result := stored_obj (mr_result r),
     mr_events := map read_event (mr_events r)\<rparr>"

lemma put_fresh: "get m k = None \<Longrightarrow> put k v m = m @ [(k, v)]"
  by (induction m) auto

lemma add_delivery_other:
  "dr_event_id d \<notin> re_id ` set es \<Longrightarrow> add_delivery d (es @ es') = es @ add_delivery d es'"
  by (induction es) auto

lemma add_delivery_here:
  "dr_event_id d = re_id e \<Longrightarrow> add_delivery d (e # es) =
     e\<lparr>re_deliveries := put (dr_channel_id d) \<lparr>dl_status = dr_status d, dl_attempts = dr_attempts d,
       dl_message = dr_message d\<rparr> (re_deliveries e)\<rparr> # es"
  by simp

lemma fill_event:
  assumes "distinct (map fst (done @ map (\<lambda>(ch, _). (ch, pending)) todo))"
    and "re_id e \<notin> re_id ` set es" and "re_id e' = re_id e" and "re_deliveries e' = done"
  shows "fold add_delivery (map (\<lambda>(ch, _). pending_delivery ids now r e ch) todo) (es @ e' # es') =
    es @ (e'\<lparr>re_deliveries := done @ map (\<lambda>(ch, _). (ch, pending)) todo\<rparr>) # es'"
  using assms
proof (induction todo arbitrary: "done" e')
  case Nil
  then show ?case by simp
next
  case (Cons chd todo)
  obtain ch d where chd: "chd = (ch, d)" by force
  have none: "get done ch = None" using Cons.prems(1) by (auto simp: chd map_of_eq_None_iff)
  let ?e = "e'\<lparr>re_deliveries := done @ [(ch, pending)]\<rparr>"
  have "add_delivery (pending_delivery ids now r e ch) (es @ e' # es') = es @ ?e # es'"
    using Cons.prems none
    by (simp add: add_delivery_other pending_delivery_def put_fresh pending_def)
  moreover have "fold add_delivery (map (\<lambda>(ch, _). pending_delivery ids now r e ch) todo) (es @ ?e # es') =
      es @ (?e\<lparr>re_deliveries := (done @ [(ch, pending)]) @ map (\<lambda>(ch, _). (ch, pending)) todo\<rparr>) # es'"
    using Cons.prems by (intro Cons.IH) (simp_all add: chd)
  ultimately show ?case by (simp add: chd)
qed

lemma fill_events:
  assumes "distinct (map re_id (ds @ es))" and "\<forall>e \<in> set es. wf_map (re_deliveries e)"
  shows "fold add_delivery
      (concat (map (\<lambda>e. map (\<lambda>(ch, _). pending_delivery ids now r e ch) (re_deliveries e)) es))
      (map read_event ds @ map (\<lambda>e. (stored_event e)\<lparr>re_deliveries := []\<rparr>) es) = map read_event (ds @ es)"
  using assms
proof (induction es arbitrary: ds)
  case Nil
  then show ?case by simp
next
  case (Cons e es)
  have id: "re_id (read_event x) = re_id x" for x by (simp add: read_event_def stored_event_def)
  have "fold add_delivery (map (\<lambda>(ch, _). pending_delivery ids now r e ch) (re_deliveries e))
      (map read_event ds @ (stored_event e)\<lparr>re_deliveries := []\<rparr> # map (\<lambda>e. (stored_event e)\<lparr>re_deliveries := []\<rparr>) es) =
      map read_event ds @ ((stored_event e)\<lparr>re_deliveries := []\<rparr>)\<lparr>re_deliveries := [] @ map (\<lambda>(ch, _). (ch, pending)) (re_deliveries e)\<rparr> #
        map (\<lambda>e. (stored_event e)\<lparr>re_deliveries := []\<rparr>) es"
    using Cons.prems by (intro fill_event)
      (auto simp: wf_map_def comp_def case_prod_beta id image_iff stored_event_def)
  moreover have "read_event e = (stored_event e)\<lparr>re_deliveries := map (\<lambda>(ch, _). (ch, pending)) (re_deliveries e)\<rparr>"
    by (simp add: read_event_def)
  ultimately show ?case using Cons.IH [of "ds @ [e]"] Cons.prems by simp
qed

lemma pending_rows_record: "d \<in> set (pending_rows ids now r) \<Longrightarrow> dr_record_id d = mr_id r"
  by (auto simp: pending_rows_def pending_delivery_def)

lemma select_last_new:
  "key x \<notin> key ` set rows \<Longrightarrow> (\<And>y. P y \<Longrightarrow> key y = key x) \<Longrightarrow> P x \<Longrightarrow> select_first P (rows @ [x]) = Inr x"
proof -
  assume a: "key x \<notin> key ` set rows" "\<And>y. P y \<Longrightarrow> key y = key x" "P x"
  then have "find_first P rows = None" unfolding find_first_None by (metis imageI)
  with a(3) show ?thesis by (simp add: select_first_def find_first_append)
qed

text \<open>
  C21: What a committed execution wrote is what \<open>GetRecord\<close> reads: the record with its times
  cut to microseconds, its result as JSON keeps it, and every event with one pending
  delivery for each of its channels, provided its events encode as JSON, event ids differ
  and no delivery of an older record bears its id.
\<close>

theorem commit_then_get_record:
  assumes "CommitMonitorExecution en ids now r mid st states db = Inr db'" and "wf_map states"
    and "list_all (\<lambda>e. encodes (re_trend_detail e)) (mr_events r)"
    and "distinct (map re_id (mr_events r))" and "\<forall>e \<in> set (mr_events r). wf_map (re_deliveries e)"
    and "\<forall>d \<in> set (db_deliveries db). dr_record_id d \<noteq> mr_id r"
    and "en_ok en (Select ''monitor_records'' (mr_id r))"
    and "en_ok en (Select ''notification_deliveries'' (mr_id r))"
  shows "GetRecord en (mr_monitor_id r) (mr_id r) db' = Inr (read_record r)"
proof -
  note eq = commit_Inr(1) [OF assms(1,2)]
  let ?row = "recordFromDomain r"
  have sel: "select_first (\<lambda>row. row_monitor row = mr_monitor_id r \<and> row_id row = mr_id r)
      (db_records db @ [?row]) = Inr ?row"
    using commit_Inr(3) [OF assms(1,2)] by (intro select_last_new [where key = row_id]) auto
  have dom: "recordToDomain ?row = Inr (r\<lparr>mr_started_at := stored_time (mr_started_at r),
     mr_finished_at := stored_time (mr_finished_at r), mr_result := stored_obj (mr_result r),
     mr_events := map (\<lambda>e. (stored_event e)\<lparr>re_deliveries := []\<rparr>) (mr_events r)\<rparr>)"
    using assms(3) by (simp add: recordToDomain_def recordFromDomain_def stored_events_def Let_def
        stored_event_def notificationEventMetadata_def comp_def split: prod.split)
  have rows: "filter (\<lambda>d. dr_record_id d = mr_id r) (db_deliveries db) = []"
    "filter (\<lambda>d. dr_record_id d = mr_id r) (pending_rows ids now r) = pending_rows ids now r"
    using assms(6) by (auto simp: filter_empty_conv filter_id_conv dest: pending_rows_record)
  have "fold add_delivery (pending_rows ids now r)
      (notificationEventMetadata (map (\<lambda>e. (stored_event e)\<lparr>re_deliveries := []\<rparr>) (mr_events r))) = map read_event (mr_events r)"
    using fill_events [of "[]" "mr_events r"] assms(4,5)
    by (simp add: notificationEventMetadata_def pending_rows_def comp_def)
  then show ?thesis
    using assms(7,8) sel dom rows
    by (simp add: GetRecord_def eq committed_def hydrateNotificationDeliveries_def read_record_def run_def)
qed

lemma commit_then_get_record_witness:
  "GetRecord (test_engine True) (mr_monitor_id test_record) (mr_id test_record)
     (committed test_ids 9000 test_record ''m'' zero_runtime_state [(''i'', fresh_item_runtime 0)] test_db) =
   Inr (read_record test_record)"
  by (rule commit_then_get_record [OF test_commit])
    (simp_all add: wf_map_def encodes_def test_record_def test_db_def test_engine_def seeded_db_def empty_db_def)

subsection \<open>Row counts on MySQL\<close>

lemma commit_item_unchanged_fails:
  assumes "\<not> en_counts_matched en" and "\<forall>item \<in> set (db_items db). si_id item = iid \<longrightarrow> si_runtime item = st"
  shows "\<not> is_ok (commit_item_state en (iid, st) db)"
proof -
  have "rows_affected en (\<lambda>item. si_id item = iid) (\<lambda>item. item\<lparr>si_runtime := st\<rparr>) (db_items db) = 0"
    using assms by (auto simp: rows_affected_def filter_empty_conv)
  then show ?thesis by (simp add: commit_item_state_def Let_def run_def)
qed

lemma commit_items_unchanged_fails:
  assumes "\<not> en_counts_matched en" and "wf_map states" and "get states iid = Some st"
    and "\<forall>item \<in> set (db_items db). si_id item = iid \<longrightarrow> si_runtime item = st"
  shows "\<not> is_ok (each (commit_item_state en) states db)"
  using assms(2-4)
proof (induction states arbitrary: db)
  case Nil
  then show ?case by simp
next
  case (Cons ist states)
  obtain k s where ist: "ist = (k, s)" by force
  show ?case
  proof (cases "commit_item_state en ist db")
    case (Inr u)
    then have u: "u = db\<lparr>db_items := update_rows (\<lambda>item. si_id item = k) (\<lambda>item. item\<lparr>si_runtime := s\<rparr>) (db_items db)\<rparr>"
      by (simp add: commit_item_state_def Let_def ist split: if_splits)
    have "k \<noteq> iid"
      using Inr commit_item_unchanged_fails [OF assms(1) Cons.prems(3)] Cons.prems(2)
      by (auto simp: ist is_ok_def split: if_splits)
    moreover from this have "\<forall>item \<in> set (db_items u). si_id item = iid \<longrightarrow> si_runtime item = st"
      using Cons.prems(3) by (auto simp: u in_update_rows)
    ultimately have "\<not> is_ok (each (commit_item_state en) states u)"
      using Cons.prems by (intro Cons.IH) (auto simp: ist wf_map_def)
    then show ?thesis by (simp add: Inr)
  qed (simp add: ist)
qed

text \<open>
  Where the engine counts the rows that an \<open>UPDATE\<close> changes, as the MySQL driver does
  unless it is told otherwise, an execution is lost whenever the state of one evaluated
  status item comes out as it is stored: the check for one affected row then fails and the
  whole transaction, record included, is rolled back.
\<close>

theorem commit_fails_on_unchanged_item:
  assumes "\<not> en_counts_matched en" and "wf_map states" and "get states iid = Some st"
    and "\<forall>item \<in> set (db_items db). si_id item = iid \<longrightarrow> si_runtime item = st"
  shows "\<not> is_ok (CommitMonitorExecution en ids now r mid s states db)"
proof
  assume "is_ok (CommitMonitorExecution en ids now r mid s states db)"
  then obtain db' where "CommitMonitorExecution en ids now r mid s states db = Inr db'" by (auto simp: is_ok_iff)
  then obtain db1 db2 db3 where 1: "addRecordTx en r db = Inr db1"
    and 2: "addPendingNotificationDeliveriesTx en ids now r db1 = Inr db2"
    and 3: "commit_monitor_state en now mid s db2 = Inr db3"
    and 4: "each (commit_item_state en) states db3 = Inr db'"
    unfolding CommitMonitorExecution_def by (auto dest!: transaction_Inr simp: ok_then_Inr)
  have "db_items db3 = db_items db"
    using 1 insert_deliveries_Inr [OF 2 [unfolded addPendingNotificationDeliveriesTx_def]]
      commit_monitor_state_Inr [OF 3] by (simp add: addRecordTx_Inr)
  with commit_items_unchanged_fails [OF assms(1-3), of db3] assms(4) 4 show False by simp
qed

lemma commit_fails_on_unchanged_item_witness:
  "\<not> is_ok (CommitMonitorExecution (test_engine False) test_ids 9000 test_record ''m'' zero_runtime_state
     [(''i'', fresh_item_runtime 0)] test_db)"
  by (rule commit_fails_on_unchanged_item [where iid = "''i''" and st = "fresh_item_runtime 0"])
    (simp_all add: test_engine_def wf_map_def test_db_def test_item_def)

subsection \<open>Records that cannot be read back\<close>

lemma recordToDomain_bad:
  "\<not> list_all (\<lambda>e. encodes (re_trend_detail e)) (mr_events r) \<Longrightarrow>
   recordToDomain (recordFromDomain r) = Inl (Undecodable (mr_id r))"
  by (simp add: recordToDomain_def recordFromDomain_def stored_events_def split: prod.split)

lemma all_ok_bad: "r \<in> set rs \<Longrightarrow> \<not> is_ok r \<Longrightarrow> \<not> is_ok (all_ok rs)"
  by (auto simp: is_ok_iff all_ok_Inr)

text \<open>
  A record whose event carries a number that JSON cannot express, such as an infinite
  average, is stored with an event column that does not decode: from then on every page
  of its monitor's records that contains it is an error.
\<close>

theorem unencodable_event_breaks_pages:
  assumes "CommitMonitorExecution en ids now r mid st states db = Inr db'" and "wf_map states"
    and "\<not> list_all (\<lambda>e. encodes (re_trend_detail e)) (mr_events r)"
    and "recordFromDomain r \<in> set (page_rows 1 20 (order_desc record_order
           (filter (applyRecordListOptions en (mr_monitor_id r) (first_page 20)) (db_records db'))))"
  shows "\<not> is_ok (ListRecords en (mr_monitor_id r) 20 db')"
proof -
  let ?rows = "page_rows 1 20 (order_desc record_order
     (filter (applyRecordListOptions en (mr_monitor_id r) (first_page 20)) (db_records db')))"
  have "recordToDomain (recordFromDomain r) \<in> set (map recordToDomain ?rows)"
    using assms(4) by (simp add: image_iff bexI)
  then have "\<not> is_ok (all_ok (map recordToDomain ?rows))"
    by (rule all_ok_bad) (simp add: recordToDomain_bad [OF assms(3)])
  moreover have "normalizePage (ro_page (first_page 20)) (ro_page_size (first_page 20)) = (1, 20)"
    by (simp add: normalizePage_def first_page_def)
  ultimately show ?thesis
    by (cases "all_ok (map recordToDomain ?rows)") (simp_all add: ListRecords_def ListRecordsPage_def run_def Let_def)
qed

definition bad_record :: monitor_record where
  "bad_record = test_record\<lparr>mr_events := [(hd (mr_events test_record))\<lparr>re_trend_detail := Some [(''value'', VNum PInf)]\<rparr>]\<rparr>"

lemma bad_commit:
  "CommitMonitorExecution (test_engine True) test_ids 9000 bad_record ''m'' zero_runtime_state [] test_db =
   Inr (committed test_ids 9000 bad_record ''m'' zero_runtime_state [] test_db)"
proof (rule commit_succeeds)
  show "wf_db test_db"
    by (simp add: wf_db_def wf_monitors_def wf_records_def wf_items_def wf_channels_def wf_deliveries_def
        monitor_ids_def test_defs seed_channel_def BuiltInNotificationChannelID_def)
  show "wf_deliveries (db_deliveries test_db @ pending_rows test_ids 9000 bad_record)"
    by (simp add: wf_deliveries_def pending_rows_def test_defs bad_record_def)
qed (simp_all add: test_defs monitor_ids_def wf_map_def bad_record_def)

lemma unencodable_event_breaks_pages_witness:
  "\<not> is_ok (ListRecords (test_engine True) (mr_monitor_id bad_record) 20
     (committed test_ids 9000 bad_record ''m'' zero_runtime_state [] test_db))"
proof (rule unencodable_event_breaks_pages [OF bad_commit])
  show "\<not> list_all (\<lambda>e. encodes (re_trend_detail e)) (mr_events bad_record)"
    by (simp add: bad_record_def test_record_def encodes_def sort_fields_def json_number_def)
  have m: "mr_monitor_id bad_record = ''m''" by (simp add: bad_record_def test_record_def)
  have "applyRecordListOptions (test_engine True) ''m'' (first_page 20) (recordFromDomain bad_record)"
    by (simp add: applyRecordListOptions_def first_page_def like_any_def to_lower_def Let_def m)
  moreover have "db_records test_db = []"
    by (simp add: test_db_def seeded_db_def empty_db_def)
  ultimately show "recordFromDomain bad_record \<in> set (page_rows 1 20 (order_desc record_order
      (filter (applyRecordListOptions (test_engine True) (mr_monitor_id bad_record) (first_page 20))
        (db_records (committed test_ids 9000 bad_record ''m'' zero_runtime_state [] test_db)))))"
    by (simp add: committed_def page_rows_def order_desc_def m)
qed (simp add: wf_map_def)

subsection \<open>Pages\<close>

definition record_rows :: "engine \<Rightarrow> string \<Rightarrow> record_list_options \<Rightarrow> db \<Rightarrow> record_row list" where
  "record_rows en mid opts db =
     order_desc record_order (filter (applyRecordListOptions en mid opts) (db_records db))"

definition on_page :: "int \<Rightarrow> record_list_options \<Rightarrow> record_list_options" where
  "on_page p opts = opts\<lparr>ro_page := p\<rparr>"

lemma on_page_filter [simp]: "applyRecordListOptions en mid (on_page p opts) = applyRecordListOptions en mid opts"
  by (simp add: applyRecordListOptions_def on_page_def fun_eq_iff)

lemma list_page_items:
  assumes "ListRecordsPage en mid opts db = Inr p"
    and "normalizePage (ro_page opts) (ro_page_size opts) = (k, n)"
  shows "map recordToDomain (page_rows k n (record_rows en mid opts db)) =
      map Inr (map (\<lambda>row. (rw_record row)\<lparr>mr_events := the (rw_events row)\<rparr>) (page_rows k n (record_rows en mid opts db)))"
    and "pg_items p = map (\<lambda>row. hydrateNotificationDeliveries (db_deliveries db)
           ((rw_record row)\<lparr>mr_events := the (rw_events row)\<rparr>)) (page_rows k n (record_rows en mid opts db))"
    and "pg_total p = int (length (record_rows en mid opts db))"
    and "pg_total_pages p = totalPages (pg_total p) n"
proof -
  let ?rows = "page_rows k n (record_rows en mid opts db)"
  obtain items where items: "all_ok (map recordToDomain ?rows) = Inr items"
    and p: "p = make_page k n (int (length (filter (applyRecordListOptions en mid opts) (db_records db))))
        (map (hydrateNotificationDeliveries (db_deliveries db)) items)"
    using assms by (auto simp: ListRecordsPage_def record_rows_def ok_then_Inr Let_def split: if_splits)
  have eq: "map recordToDomain ?rows = map Inr items" using items by (simp add: all_ok_Inr)
  have dom: "recordToDomain row = Inr ((rw_record row)\<lparr>mr_events := the (rw_events row)\<rparr>)" if "row \<in> set ?rows" for row
  proof -
    have "recordToDomain row \<in> set (map Inr items)" unfolding eq [symmetric] using that by simp
    then show ?thesis by (auto simp: recordToDomain_def split: option.splits)
  qed
  then show m: "map recordToDomain ?rows =
      map Inr (map (\<lambda>row. (rw_record row)\<lparr>mr_events := the (rw_events row)\<rparr>) ?rows)"
    by simp
  have "items = map (\<lambda>row. (rw_record row)\<lparr>mr_events := the (rw_events row)\<rparr>) ?rows"
    using eq m by (metis (no_types, lifting) inj_map_eq_map inj_Inr)
  then show "pg_items p = map (\<lambda>row. hydrateNotificationDeliveries (db_deliveries db)
           ((rw_record row)\<lparr>mr_events := the (rw_events row)\<rparr>)) ?rows"
    by (simp add: p make_page_def)
  show "pg_total p = int (length (record_rows en mid opts db))"
    "pg_total_pages p = totalPages (pg_total p) n"
    by (simp_all add: p make_page_def record_rows_def)
qed

text \<open>
  The pages of a record list partition it: with a page size from 1 to 100, reading the
  pages from 1 to the reported number of pages gives every matching record exactly once,
  in descending order of its start, and the reported total is their number.
\<close>

theorem record_pages_partition:
  assumes "1 \<le> ro_page_size opts" and "ro_page_size opts \<le> 100"
    and "\<And>k. 1 \<le> k \<Longrightarrow> ListRecordsPage en mid (on_page k opts) db = Inr (page k)"
  shows "concat (map (\<lambda>k. pg_items (page (int k + 1))) [0..<nat (pg_total_pages (page 1))]) =
      map (\<lambda>row. hydrateNotificationDeliveries (db_deliveries db)
           ((rw_record row)\<lparr>mr_events := the (rw_events row)\<rparr>)) (record_rows en mid opts db) \<and>
    pg_total (page 1) = int (length (filter (applyRecordListOptions en mid opts) (db_records db))) \<and>
    sorted (rev (map record_order (record_rows en mid opts db)))"
proof -
  let ?n = "ro_page_size opts" and ?rows = "record_rows en mid opts db"
  let ?f = "\<lambda>row. hydrateNotificationDeliveries (db_deliveries db)
           ((rw_record row)\<lparr>mr_events := the (rw_events row)\<rparr>)"
  have norm: "normalizePage (ro_page (on_page k opts)) (ro_page_size (on_page k opts)) = (k, ?n)" if "1 \<le> k" for k
    using assms(1,2) that by (simp add: normalizePage_def on_page_def)
  have same: "record_rows en mid (on_page k opts) db = ?rows" for k by (simp add: record_rows_def)
  have items: "pg_items (page (int k + 1)) = map ?f (page_rows (int k + 1) ?n ?rows)" for k
    using list_page_items(2) [OF assms(3) norm] same by simp
  have t: "pg_total_pages (page 1) = totalPages (int (length ?rows)) ?n" "pg_total (page 1) = int (length ?rows)"
    using list_page_items(3,4) [OF assms(3) norm, of 1] same by simp_all
  have "concat (map (\<lambda>k. pg_items (page (int k + 1))) [0..<nat (totalPages (int (length ?rows)) ?n)]) =
      map ?f (concat (map (\<lambda>k. page_rows (int k + 1) ?n ?rows) [0..<nat (totalPages (int (length ?rows)) ?n)]))"
    by (simp add: items map_concat comp_def)
  also have "\<dots> = map ?f ?rows" by (simp add: pages_cover assms(1))
  finally show ?thesis
    unfolding t by (simp add: sorted_order_desc record_rows_def)
qed

lemma record_pages_partition_witness:
  "sorted (rev (map record_order (record_rows (test_engine True) ''m'' (first_page 20) test_db)))"
proof -
  define page :: "int \<Rightarrow> monitor_record page_result" where "page = (\<lambda>k. make_page k 20 0 [])"
  have "ListRecordsPage (test_engine True) ''m'' (on_page k (first_page 20)) test_db = Inr (page k)" if "1 \<le> k" for k
    using that by (simp add: ListRecordsPage_def on_page_def first_page_def normalizePage_def run_def
        test_engine_def test_db_def seeded_db_def empty_db_def order_desc_def page_rows_def page_def)
  from record_pages_partition [OF _ _ this] show ?thesis
    by (simp only: first_page_def record_list_options.simps)
qed

lemma list_records_Inr:
  assumes "ListRecords en mid limit db = Inr rs"
  shows "rs = map (\<lambda>row. hydrateNotificationDeliveries (db_deliveries db)
      ((rw_record row)\<lparr>mr_events := the (rw_events row)\<rparr>))
    (take (if 1 \<le> limit \<and> limit \<le> 100 then nat limit else 20)
      (order_desc record_order (filter (\<lambda>row. row_monitor row = mid) (db_records db))))"
proof -
  obtain p where p: "ListRecordsPage en mid (first_page limit) db = Inr p" and rs: "rs = pg_items p"
    using assms by (auto simp: ListRecords_def ok_then_Inr)
  have "normalizePage (ro_page (first_page limit)) (ro_page_size (first_page limit)) =
      (1, if 1 \<le> limit \<and> limit \<le> 100 then limit else 20)"
    by (auto simp: normalizePage_def first_page_def)
  moreover have "applyRecordListOptions en mid (first_page limit) = (\<lambda>row. row_monitor row = mid)"
    by (simp add: applyRecordListOptions_def first_page_def like_any_def to_lower_def fun_eq_iff Let_def)
  ultimately show ?thesis
    using list_page_items(2) [OF p] by (simp add: rs page_rows_def record_rows_def if_distrib)
qed

text \<open>
  \<open>ListRecords\<close> returns the newest records of the monitor, as many as asked for when that
  is from 1 to 100, but only 20 when it is asked for more, although the status board lets
  an item show, and a trend rule look at, up to 200.
\<close>

theorem list_records_newest:
  assumes "ListRecords en mid limit db = Inr rs"
  shows "rs = map (\<lambda>row. hydrateNotificationDeliveries (db_deliveries db)
      ((rw_record row)\<lparr>mr_events := the (rw_events row)\<rparr>))
    (take (if 1 \<le> limit \<and> limit \<le> 100 then nat limit else 20)
      (order_desc record_order (filter (\<lambda>row. row_monitor row = mid) (db_records db))))"
  by (rule list_records_Inr [OF assms])

lemma list_records_newest_witness:
  "[] = map (\<lambda>row. hydrateNotificationDeliveries (db_deliveries test_db)
      ((rw_record row)\<lparr>mr_events := the (rw_events row)\<rparr>))
    (take 20 (order_desc record_order (filter (\<lambda>row. row_monitor row = ''m'') (db_records test_db))))"
proof -
  have "ListRecords (test_engine True) ''m'' 200 test_db = Inr []"
    by (simp add: ListRecords_def ListRecordsPage_def first_page_def normalizePage_def run_def
        test_engine_def test_db_def seeded_db_def empty_db_def order_desc_def page_rows_def make_page_def)
  from list_records_newest [OF this] show ?thesis by simp
qed

end
