(* ===== verification/StoreAdmin.thy ===== *)
theory StoreAdmin
  imports StoreInvariant
begin

section \<open>Configuration, authentication, shares and plugins in the store\<close>

text \<open>
  The operations of \<open>config.go\<close>, \<open>auth.go\<close>, \<open>status_board_shares.go\<close>, \<open>plugins.go\<close> and
  \<open>configuration_transfer.go\<close>. Configuration data is the JSON value it encodes; bytes that
  are no JSON are \<open>None\<close>.
\<close>

subsection \<open>System configuration\<close>

definition system_auth :: string where "system_auth = ''auth''"

record auth_config =
  ac_session_ttl :: string
  ac_admin_key_hash :: string

definition zero_auth_config :: auth_config where
  "zero_auth_config = \<lparr>ac_session_ttl = [], ac_admin_key_hash = []\<rparr>"

text \<open>Decoding a string field: absent and null leave it empty, another type is an error.\<close>

definition str_member :: "obj \<Rightarrow> string \<Rightarrow> string option" where
  "str_member m k =
     (case get m k of
        None \<Rightarrow> Some [] | Some VNil \<Rightarrow> Some [] | Some (VStr s) \<Rightarrow> Some s | Some _ \<Rightarrow> None)"

definition decode_auth :: "val \<Rightarrow> auth_config option" where
  "decode_auth v =
     (case v of
        VNil \<Rightarrow> Some zero_auth_config
      | VObj m \<Rightarrow>
          (case (str_member m ''session_ttl'', str_member m ''admin_key_hash'') of
             (Some ttl, Some h) \<Rightarrow> Some \<lparr>ac_session_ttl = ttl, ac_admin_key_hash = h\<rparr>
           | _ \<Rightarrow> None)
      | _ \<Rightarrow> None)"

definition encode_auth :: "auth_config \<Rightarrow> val" where
  "encode_auth c =
     VObj ((if ac_session_ttl c = [] then [] else [(''session_ttl'', VStr (ac_session_ttl c))]) @
       (if ac_admin_key_hash c = [] then [] else [(''admin_key_hash'', VStr (ac_admin_key_hash c))]))"

lemma decode_encode_auth [simp]: "decode_auth (encode_auth c) = Some c"
  by (cases c) (simp add: decode_auth_def encode_auth_def str_member_def)

definition GetSystemConfig :: "engine \<Rightarrow> string \<Rightarrow> db \<Rightarrow> db_error + system_config" where
  "GetSystemConfig en ctype db =
     run en (Select ''system_configs'' ctype)
       (select_first (\<lambda>c. sc_type c = ctype) (db_configs db))"

definition ListSystemConfigs :: "engine \<Rightarrow> db \<Rightarrow> db_error + system_config list" where
  "ListSystemConfigs en db =
     run en (Select ''system_configs'' []) (Inr (sort_key sc_type (db_configs db)))"

definition EnsureSystemConfig ::
    "engine \<Rightarrow> time \<Rightarrow> string \<Rightarrow> val \<Rightarrow> db \<Rightarrow> (db_error + system_config) \<times> db" where
  "EnsureSystemConfig en now ctype data db =
     (case run en (Insert ''system_configs'' ctype)
        (Inr (if ctype \<in> sc_type ` set (db_configs db) then db
          else db\<lparr>db_configs := db_configs db @
            [\<lparr>sc_type = ctype, sc_data = from_json data, sc_version = 1, sc_created_at = now,
              sc_updated_at = now\<rparr>]\<rparr>)) of
        Inl e \<Rightarrow> (Inl e, db)
      | Inr db' \<Rightarrow> (GetSystemConfig en ctype db', db'))"

definition preserveAuthKey :: "engine \<Rightarrow> val \<Rightarrow> db \<Rightarrow> db_error + val" where
  "preserveAuthKey en data db =
     (case decode_auth data of
        None \<Rightarrow> Inl (InvalidData system_auth)
      | Some incoming \<Rightarrow>
          if ac_admin_key_hash incoming \<noteq> [] then Inr data
          else (case GetSystemConfig en system_auth db of
                  Inl NoRows \<Rightarrow> Inr data
                | Inl e \<Rightarrow> Inl e
                | Inr row \<Rightarrow>
                    (case decode_auth (sc_data row) of
                       None \<Rightarrow> Inl (Undecodable system_auth)
                     | Some existing \<Rightarrow>
                         Inr (encode_auth (incoming\<lparr>ac_admin_key_hash := ac_admin_key_hash existing\<rparr>)))))"

definition bump_config :: "time \<Rightarrow> val \<Rightarrow> system_config \<Rightarrow> system_config" where
  "bump_config now data c = c\<lparr>sc_data := data, sc_version := sc_version c + 1, sc_updated_at := now\<rparr>"

text \<open>The \<open>UPDATE\<close> that is conditional on the version, and what follows it.\<close>

definition write_config ::
    "engine \<Rightarrow> time \<Rightarrow> string \<Rightarrow> val \<Rightarrow> int \<Rightarrow> db \<Rightarrow> (db_error + system_config) \<times> db" where
  "write_config en now ctype w expected db =
     (let P = (\<lambda>c. sc_type c = ctype \<and> sc_version c = expected); f = bump_config now w in
      if \<not> en_ok en (Update ''system_configs'' ctype)
      then (Inl (Fault (Update ''system_configs'' ctype)), db)
      else if rows_affected en P f (db_configs db) = 0
      then (Inl (case GetSystemConfig en ctype db of
               Inl NoRows \<Rightarrow> ConfigNotFound ctype | _ \<Rightarrow> VersionConflict), db)
      else (let db' = db\<lparr>db_configs := update_rows P f (db_configs db)\<rparr>
            in (GetSystemConfig en ctype db', db')))"

definition UpdateSystemConfig ::
    "engine \<Rightarrow> time \<Rightarrow> string \<Rightarrow> val option \<Rightarrow> int \<Rightarrow> db \<Rightarrow> (db_error + system_config) \<times> db" where
  "UpdateSystemConfig en now ctype data expected db =
     (case data of
        None \<Rightarrow> (Inl (InvalidData ctype), db)
      | Some v \<Rightarrow>
          if expected < 1 then (Inl (InvalidData ctype), db)
          else (case (if ctype = system_auth then preserveAuthKey en v db else Inr v) of
            Inl e \<Rightarrow> (Inl e, db)
          | Inr w \<Rightarrow> write_config en now ctype w expected db))"

subsection \<open>The administrator's key and sessions\<close>

definition AdminKeyHash :: "engine \<Rightarrow> db \<Rightarrow> db_error + string" where
  "AdminKeyHash en db =
     ok_then (GetSystemConfig en system_auth db) (\<lambda>c.
       (case decode_auth (sc_data c) of
          None \<Rightarrow> Inl (Undecodable system_auth)
        | Some a \<Rightarrow> if ac_admin_key_hash a = [] then Inl NoRows else Inr (ac_admin_key_hash a)))"

text \<open>The new row or the changed row; the version of an existing row stays.\<close>

definition put_admin_key :: "engine \<Rightarrow> time \<Rightarrow> string \<Rightarrow> db \<Rightarrow> db_error + db" where
  "put_admin_key en now h db =
     (case GetSystemConfig en system_auth db of
        Inr row \<Rightarrow>
          (case decode_auth (sc_data row) of
             None \<Rightarrow> Inl (Undecodable system_auth)
           | Some c \<Rightarrow>
               run en (Update ''system_configs'' system_auth)
                 (Inr (db\<lparr>db_configs := update_rows (\<lambda>r. sc_type r = system_auth)
                    (\<lambda>r. r\<lparr>sc_data := encode_auth (c\<lparr>ac_admin_key_hash := h\<rparr>), sc_updated_at := now\<rparr>)
                    (db_configs db)\<rparr>)))
      | Inl NoRows \<Rightarrow>
          run en (Insert ''system_configs'' system_auth)
            (Inr (db\<lparr>db_configs := db_configs db @
               [\<lparr>sc_type = system_auth, sc_data = encode_auth (zero_auth_config\<lparr>ac_admin_key_hash := h\<rparr>),
                 sc_version = 1, sc_created_at = now, sc_updated_at = now\<rparr>]\<rparr>))
      | Inl e \<Rightarrow> Inl e)"

definition SetAdminKeyHash :: "engine \<Rightarrow> time \<Rightarrow> string \<Rightarrow> bool \<Rightarrow> db \<Rightarrow> db_error + db" where
  "SetAdminKeyHash en now h resetSessions =
     transaction en (\<lambda>db.
       ok_then (put_admin_key en now h db) (\<lambda>db'.
         if resetSessions then run en (Delete ''admin_sessions'' []) (Inr (db'\<lparr>db_sessions := []\<rparr>))
         else Inr db'))"

definition CreateAdminSession :: "engine \<Rightarrow> admin_session \<Rightarrow> db \<Rightarrow> db_error + db" where
  "CreateAdminSession en s db =
     run en (Insert ''admin_sessions'' (as_token_hash s))
       (ok_then (insert_row as_token_hash ''admin_sessions'' s (db_sessions db))
         (\<lambda>rows. Inr (db\<lparr>db_sessions := rows\<rparr>)))"

definition GetAdminSession :: "engine \<Rightarrow> string \<Rightarrow> db \<Rightarrow> db_error + admin_session" where
  "GetAdminSession en h db =
     run en (Select ''admin_sessions'' h) (select_first (\<lambda>s. as_token_hash s = h) (db_sessions db))"

definition RefreshAdminSession :: "engine \<Rightarrow> string \<Rightarrow> time \<Rightarrow> time \<Rightarrow> db \<Rightarrow> db_error + db" where
  "RefreshAdminSession en h expires seen db =
     run en (Update ''admin_sessions'' h)
       (Inr (db\<lparr>db_sessions := update_rows (\<lambda>s. as_token_hash s = h)
          (\<lambda>s. s\<lparr>as_expires_at := expires, as_last_seen_at := seen\<rparr>) (db_sessions db)\<rparr>))"

definition DeleteAdminSession :: "engine \<Rightarrow> string \<Rightarrow> db \<Rightarrow> db_error + db" where
  "DeleteAdminSession en h db =
     run en (Delete ''admin_sessions'' h)
       (Inr (db\<lparr>db_sessions := delete_rows (\<lambda>s. as_token_hash s = h) (db_sessions db)\<rparr>))"

text \<open>The comparison is one of texts.\<close>

definition session_expired :: "time \<Rightarrow> admin_session \<Rightarrow> bool" where
  "session_expired now s \<longleftrightarrow> timestamp (as_expires_at s) \<le> timestamp now"

definition DeleteExpiredAdminSessions :: "engine \<Rightarrow> time \<Rightarrow> db \<Rightarrow> db_error + db" where
  "DeleteExpiredAdminSessions en now db =
     run en (Delete ''admin_sessions'' [])
       (Inr (db\<lparr>db_sessions := delete_rows (session_expired now) (db_sessions db)\<rparr>))"

subsection \<open>Access tokens\<close>

definition CreateAPIToken :: "engine \<Rightarrow> api_token \<Rightarrow> db \<Rightarrow> db_error + db" where
  "CreateAPIToken en t db =
     run en (Insert ''api_tokens'' (at_id t))
       (if at_name t \<in> at_name ` set (db_tokens db) \<or> at_token_hash t \<in> at_token_hash ` set (db_tokens db)
        then Inl (Unique ''api_tokens'')
        else ok_then (insert_row at_id ''api_tokens'' t (db_tokens db))
          (\<lambda>rows. Inr (db\<lparr>db_tokens := rows\<rparr>)))"

definition ListAPITokens :: "engine \<Rightarrow> db \<Rightarrow> db_error + api_token list" where
  "ListAPITokens en db =
     run en (Select ''api_tokens'' [])
       (Inr (order_desc (\<lambda>t. timestamp (at_created_at t)) (db_tokens db)))"

definition getAPIToken :: "engine \<Rightarrow> string \<Rightarrow> (api_token \<Rightarrow> bool) \<Rightarrow> db \<Rightarrow> db_error + api_token" where
  "getAPIToken en k P db = run en (Select ''api_tokens'' k) (select_first P (db_tokens db))"

definition GetAPIToken :: "engine \<Rightarrow> string \<Rightarrow> db \<Rightarrow> db_error + api_token" where
  "GetAPIToken en tid = getAPIToken en tid (\<lambda>t. at_id t = tid)"

definition GetAPITokenByHash :: "engine \<Rightarrow> string \<Rightarrow> db \<Rightarrow> db_error + api_token" where
  "GetAPITokenByHash en h = getAPIToken en h (\<lambda>t. at_token_hash t = h)"

definition update_tokens ::
    "engine \<Rightarrow> string \<Rightarrow> (api_token \<Rightarrow> bool) \<Rightarrow> (api_token \<Rightarrow> api_token) \<Rightarrow> db \<Rightarrow> db_error + db" where
  "update_tokens en k P f db =
     run en (Update ''api_tokens'' k) (Inr (db\<lparr>db_tokens := update_rows P f (db_tokens db)\<rparr>))"

definition RevokeAPIToken :: "engine \<Rightarrow> string \<Rightarrow> time \<Rightarrow> db \<Rightarrow> db_error + db" where
  "RevokeAPIToken en tid revoked =
     update_tokens en tid (\<lambda>t. at_id t = tid \<and> at_revoked_at t = None)
       (\<lambda>t. t\<lparr>at_revoked_at := Some revoked\<rparr>)"

definition RestoreAPIToken :: "engine \<Rightarrow> string \<Rightarrow> db \<Rightarrow> db_error + db" where
  "RestoreAPIToken en tid =
     update_tokens en tid (\<lambda>t. at_id t = tid \<and> at_revoked_at t \<noteq> None)
       (\<lambda>t. t\<lparr>at_revoked_at := None\<rparr>)"

definition DeleteAPIToken :: "engine \<Rightarrow> string \<Rightarrow> db \<Rightarrow> db_error + db" where
  "DeleteAPIToken en tid db =
     run en (Delete ''api_tokens'' tid)
       (Inr (db\<lparr>db_tokens := delete_rows (\<lambda>t. at_id t = tid) (db_tokens db)\<rparr>))"

definition TouchAPIToken :: "engine \<Rightarrow> string \<Rightarrow> time \<Rightarrow> db \<Rightarrow> db_error + db" where
  "TouchAPIToken en h seen =
     update_tokens en h (\<lambda>t. at_token_hash t = h) (\<lambda>t. t\<lparr>at_last_used_at := Some seen\<rparr>)"

subsection \<open>Shares of the status board\<close>

definition CreateStatusBoardShare :: "engine \<Rightarrow> share \<Rightarrow> db \<Rightarrow> db_error + db" where
  "CreateStatusBoardShare en s db =
     run en (Insert ''status_board_shares'' (sh_id s))
       (if sh_token s \<in> sh_token ` set (db_shares db) then Inl (Unique ''status_board_shares'')
        else ok_then (insert_row sh_id ''status_board_shares'' s (db_shares db))
          (\<lambda>rows. Inr (db\<lparr>db_shares := rows\<rparr>)))"

definition ListStatusBoardShares :: "engine \<Rightarrow> db \<Rightarrow> db_error + share list" where
  "ListStatusBoardShares en db =
     run en (Select ''status_board_shares'' [])
       (Inr (order_desc (\<lambda>s. timestamp (sh_created_at s)) (db_shares db)))"

definition GetStatusBoardShareByToken :: "engine \<Rightarrow> string \<Rightarrow> db \<Rightarrow> db_error + share" where
  "GetStatusBoardShareByToken en token db =
     run en (Select ''status_board_shares'' token) (select_first (\<lambda>s. sh_token s = token) (db_shares db))"

definition SetStatusBoardShareActive :: "engine \<Rightarrow> string \<Rightarrow> bool \<Rightarrow> db \<Rightarrow> db_error + db" where
  "SetStatusBoardShareActive en sid active db =
     run en (Update ''status_board_shares'' sid)
       (Inr (db\<lparr>db_shares := update_rows (\<lambda>s. sh_id s = sid) (\<lambda>s. s\<lparr>sh_active := active\<rparr>) (db_shares db)\<rparr>))"

definition DeleteStatusBoardShare :: "engine \<Rightarrow> string \<Rightarrow> db \<Rightarrow> db_error + bool \<times> db" where
  "DeleteStatusBoardShare en sid db =
     (let P = (\<lambda>s. sh_id s = sid \<and> \<not> sh_active s) in
      run en (Delete ''status_board_shares'' sid)
        (Inr (list_ex P (db_shares db), db\<lparr>db_shares := delete_rows P (db_shares db)\<rparr>)))"

subsection \<open>Plugins\<close>

abbreviation plugin_key :: "plugin_installation \<Rightarrow> string \<times> string" where
  "plugin_key p \<equiv> (pi_id p, pi_version p)"

definition replace_plugin :: "plugin_installation \<Rightarrow> plugin_installation \<Rightarrow> plugin_installation" where
  "replace_plugin p row = p\<lparr>pi_created_at := pi_created_at row\<rparr>"

text \<open>
  \<open>upsertPluginModel\<close>: an update, an insert if no row is counted as affected, and a second
  update if the insert fails.
\<close>

definition UpsertPlugin :: "engine \<Rightarrow> plugin_installation \<Rightarrow> db \<Rightarrow> db_error + db" where
  "UpsertPlugin en p db =
     (let P = (\<lambda>row. plugin_key row = plugin_key p); f = replace_plugin p;
          updated = run en (Update ''plugins'' (pi_id p))
            (Inr (db\<lparr>db_plugins := update_rows P f (db_plugins db)\<rparr>))
      in ok_then updated (\<lambda>db'.
        if 0 < rows_affected en P f (db_plugins db) then Inr db'
        else (case run en (Insert ''plugins'' (pi_id p))
                (insert_row plugin_key ''plugins'' p (db_plugins db')) of
                Inr rows \<Rightarrow> Inr (db'\<lparr>db_plugins := rows\<rparr>)
              | Inl e \<Rightarrow> (case updated of Inr _ \<Rightarrow> Inr db' | Inl _ \<Rightarrow> Inl e))))"

definition ListPlugins :: "engine \<Rightarrow> db \<Rightarrow> db_error + plugin_installation list" where
  "ListPlugins en db =
     run en (Select ''plugins'' [])
       (Inr (sort_key pi_name (sort_key pi_id (order_desc pi_version (db_plugins db)))))"

definition GetPlugin :: "engine \<Rightarrow> string \<Rightarrow> string \<Rightarrow> db \<Rightarrow> db_error + plugin_installation" where
  "GetPlugin en pid version db =
     run en (Select ''plugins'' pid)
       (if version = []
        then select_first (\<lambda>_. True) (order_desc pi_enabled (order_desc pi_version
               (filter (\<lambda>p. pi_id p = pid) (db_plugins db))))
        else select_first (\<lambda>p. plugin_key p = (pid, version)) (db_plugins db))"

definition trust_row :: "time \<Rightarrow> plugin_installation \<Rightarrow> plugin_installation" where
  "trust_row now p =
     p\<lparr>pi_verified := True, pi_trust_state := (if pi_official p then ''official'' else ''trusted''),
       pi_updated_at := now\<rparr>"

definition TrustPluginSigner :: "engine \<Rightarrow> time \<Rightarrow> trusted_signer \<Rightarrow> db \<Rightarrow> db_error + db" where
  "TrustPluginSigner en now signer0 =
     (let signer = signer0\<lparr>sg_created_at := (if sg_created_at signer0 = zero_time then now else sg_created_at signer0),
            sg_updated_at := now\<rparr>;
          P = (\<lambda>s. sg_fingerprint s = sg_fingerprint signer);
          f = (\<lambda>s. s\<lparr>sg_key_id := sg_key_id signer, sg_public_key := sg_public_key signer,
                 sg_vendor := (if sg_vendor signer = [] then sg_vendor s else sg_vendor signer),
                 sg_source := sg_source signer, sg_updated_at := now\<rparr>)
      in transaction en (\<lambda>db.
        ok_then (run en (Update ''plugin_trusted_signers'' (sg_fingerprint signer))
          (Inr (db\<lparr>db_signers := update_rows P f (db_signers db)\<rparr>))) (\<lambda>db1.
        ok_then (if rows_affected en P f (db_signers db) = 0
            then run en (Insert ''plugin_trusted_signers'' (sg_fingerprint signer))
              (Inr (if list_ex P (db_signers db1) then db1
                    else db1\<lparr>db_signers := db_signers db1 @ [signer]\<rparr>))
            else Inr db1) (\<lambda>db2.
        run en (Update ''plugins'' (sg_fingerprint signer))
          (Inr (db2\<lparr>db_plugins := update_rows (\<lambda>p. pi_signer_fingerprint p = sg_fingerprint signer)
             (trust_row now) (db_plugins db2)\<rparr>))))))"

definition GetTrustedPluginSigner :: "engine \<Rightarrow> string \<Rightarrow> db \<Rightarrow> db_error + trusted_signer" where
  "GetTrustedPluginSigner en fp db =
     run en (Select ''plugin_trusted_signers'' fp)
       (select_first (\<lambda>s. sg_fingerprint s = fp) (db_signers db))"

definition delete_plugins :: "engine \<Rightarrow> string \<Rightarrow> (plugin_installation \<Rightarrow> bool) \<Rightarrow> db \<Rightarrow> db_error + db" where
  "delete_plugins en k P db =
     run en (Delete ''plugins'' k) (Inr (db\<lparr>db_plugins := delete_rows P (db_plugins db)\<rparr>))"

definition DeletePlugin :: "engine \<Rightarrow> string \<Rightarrow> string \<Rightarrow> db \<Rightarrow> db_error + db" where
  "DeletePlugin en pid version = delete_plugins en pid (\<lambda>p. plugin_key p = (pid, version))"

definition DisableOtherPluginVersions :: "engine \<Rightarrow> time \<Rightarrow> string \<Rightarrow> string \<Rightarrow> db \<Rightarrow> db_error + db" where
  "DisableOtherPluginVersions en now pid active db =
     run en (Update ''plugins'' pid)
       (Inr (db\<lparr>db_plugins := update_rows
          (\<lambda>p. pi_id p = pid \<and> pi_version p \<noteq> active \<and> pi_enabled p)
          (\<lambda>p. p\<lparr>pi_enabled := False, pi_status := ''installed'', pi_error := [], pi_updated_at := now\<rparr>)
          (db_plugins db)\<rparr>))"

definition CountPlugins :: "engine \<Rightarrow> db \<Rightarrow> db_error + nat" where
  "CountPlugins en db = run en (Select ''plugins'' []) (Inr (length (db_plugins db)))"

definition DeleteDevelopmentPlugins :: "engine \<Rightarrow> db \<Rightarrow> db_error + db" where
  "DeleteDevelopmentPlugins en = delete_plugins en [] (\<lambda>p. pi_trust_state p = ''development'')"

definition CountMonitorReferences :: "engine \<Rightarrow> string list \<Rightarrow> db \<Rightarrow> db_error + nat" where
  "CountMonitorReferences en types db =
     (if types = [] then Inr 0
      else run en (Select ''monitors'' [])
        (Inr (length (filter (\<lambda>row. mo_module_type (mw_monitor row) \<in> set types) (db_monitors db)))))"

abbreviation snapshot_key :: "module_descriptor \<Rightarrow> string \<times> string" where
  "snapshot_key d \<equiv> (md_type d, md_version d)"

definition SaveDescriptorSnapshot :: "engine \<Rightarrow> module_descriptor \<Rightarrow> db \<Rightarrow> db_error + db" where
  "SaveDescriptorSnapshot en d db =
     (let P = (\<lambda>row. snapshot_key row = snapshot_key d); f = (\<lambda>row. d) in
      ok_then (run en (Update ''module_descriptor_snapshots'' (md_type d))
        (Inr (db\<lparr>db_snapshots := update_rows P f (db_snapshots db)\<rparr>))) (\<lambda>db'.
        if 0 < rows_affected en P f (db_snapshots db) then Inr db'
        else run en (Insert ''module_descriptor_snapshots'' (md_type d))
          (Inr (if list_ex P (db_snapshots db') then db'
                else db'\<lparr>db_snapshots := db_snapshots db' @ [d]\<rparr>))))"

definition GetDescriptorSnapshot :: "engine \<Rightarrow> string \<Rightarrow> string \<Rightarrow> db \<Rightarrow> db_error + module_descriptor" where
  "GetDescriptorSnapshot en mtype version db =
     run en (Select ''module_descriptor_snapshots'' mtype)
       (select_first (\<lambda>d. snapshot_key d = (mtype, version)) (db_snapshots db))"

text \<open>
  \<open>MigrateMonitorConfigs\<close>: the migrator, which asks the plugin, is the argument \<open>migrate\<close>
  (module type, version it has, version wanted, configuration).
\<close>

type_synonym migration_target = "string \<times> string"

definition migrate_monitor ::
    "engine \<Rightarrow> (string \<Rightarrow> string \<Rightarrow> string \<Rightarrow> val \<Rightarrow> string + val) \<Rightarrow> time \<Rightarrow> migration_target go_map \<Rightarrow>
     monitor \<Rightarrow> db \<Rightarrow> db_error + db" where
  "migrate_monitor en migrate now targets m db =
     (case get targets (mo_module_type m) of
        None \<Rightarrow> Inr db
      | Some (module_version, config_version) \<Rightarrow>
          (case (if mo_module_config_version m = config_version then Inr (mo_module_config m)
                 else migrate (mo_module_type m) (mo_module_config_version m) config_version (mo_module_config m)) of
             Inl e \<Rightarrow> Inl (MigratorFailed e)
           | Inr config \<Rightarrow>
               run en (Update ''monitors'' (mo_id m))
                 (Inr (db\<lparr>db_monitors := update_rows (\<lambda>row. monitor_key row = mo_id m)
                    (\<lambda>row. row\<lparr>mw_monitor := (mw_monitor row)\<lparr>mo_module_version := module_version,
                       mo_module_config_version := config_version, mo_module_config := config,
                       mo_updated_at := now\<rparr>\<rparr>) (db_monitors db)\<rparr>))))"

definition MigrateMonitorConfigs ::
    "engine \<Rightarrow> (string \<Rightarrow> string \<Rightarrow> string \<Rightarrow> val \<Rightarrow> string + val) \<Rightarrow> time \<Rightarrow> migration_target go_map \<Rightarrow>
     db \<Rightarrow> db_error + db" where
  "MigrateMonitorConfigs en migrate now targets db =
     (if targets = [] then Inr db
      else transaction en (\<lambda>db.
        run en (Select ''monitors'' [])
          (each (migrate_monitor en migrate now targets)
            (filter (\<lambda>m. has_key targets (mo_module_type m)) (map mw_monitor (db_monitors db))) db)) db)"

subsection \<open>Importing a configuration\<close>

record configuration_import =
  im_runtime :: "val option go_map"
  im_monitors :: "monitor list"
  im_channels :: "channel list"
  im_items :: "status_item list"
  im_shares :: "share list"
  im_replace :: bool
  im_admin_key_hash :: string

text \<open>The data one section is stored with: the authentication section keeps or gets its key.\<close>

definition import_data :: "engine \<Rightarrow> string \<Rightarrow> string \<Rightarrow> val \<Rightarrow> db \<Rightarrow> db_error + val" where
  "import_data en keyHash ctype data db =
     (if ctype \<noteq> system_auth then Inr data
      else (case decode_auth data of
        None \<Rightarrow> Inl (InvalidData ctype)
      | Some auth \<Rightarrow>
          if keyHash \<noteq> [] then Inr (encode_auth (auth\<lparr>ac_admin_key_hash := keyHash\<rparr>))
          else ok_then (GetSystemConfig en ctype db) (\<lambda>row.
            (case decode_auth (sc_data row) of
               None \<Rightarrow> Inl (Undecodable ctype)
             | Some existing \<Rightarrow>
                 Inr (encode_auth (auth\<lparr>ac_admin_key_hash := ac_admin_key_hash existing\<rparr>))))))"

definition import_section ::
    "engine \<Rightarrow> time \<Rightarrow> string \<Rightarrow> string \<times> val option \<Rightarrow> int go_map \<times> db \<Rightarrow> db_error + int go_map \<times> db" where
  "import_section en now keyHash section vdb =
     (let (ctype, data) = section; (versions, db) = vdb in
      case data of
        None \<Rightarrow> Inl (InvalidData ctype)
      | Some v \<Rightarrow>
          ok_then (import_data en keyHash ctype v db) (\<lambda>w.
            (let P = (\<lambda>c. sc_type c = ctype); f = bump_config now w in
             run en (Update ''system_configs'' ctype)
               (if rows_affected en P f (db_configs db) \<noteq> 1 then Inl (NotUpdated ''runtime config'' ctype)
                else (let db' = db\<lparr>db_configs := update_rows P f (db_configs db)\<rparr> in
                  ok_then (GetSystemConfig en ctype db')
                    (\<lambda>c. Inr (put ctype (sc_version c) versions, db')))))))"

definition importRuntimeConfigTx ::
    "engine \<Rightarrow> time \<Rightarrow> val option go_map \<Rightarrow> string \<Rightarrow> db \<Rightarrow> db_error + int go_map \<times> db" where
  "importRuntimeConfigTx en now sections keyHash db =
     each (import_section en now keyHash) sections ([], db)"

definition delete_table :: "engine \<Rightarrow> string \<Rightarrow> (db \<Rightarrow> db) \<Rightarrow> db \<Rightarrow> db_error + db" where
  "delete_table en table f db = run en (Delete table []) (Inr (f db))"

text \<open>
  Everything that an import replaces: all shares and items, the monitors that are not
  imported (with their records), and the channels that are neither imported nor built in.
\<close>

definition clearTransferableConfigurationTx ::
    "engine \<Rightarrow> monitor list \<Rightarrow> channel list \<Rightarrow> db \<Rightarrow> db_error + db" where
  "clearTransferableConfigurationTx en monitors channels db =
     ok_then (delete_table en ''status_board_shares'' (\<lambda>db. db\<lparr>db_shares := []\<rparr>) db) (\<lambda>db1.
     ok_then (delete_table en ''status_board_items'' (\<lambda>db. db\<lparr>db_items := []\<rparr>) db1) (\<lambda>db2.
     ok_then (delete_table en ''monitors''
       (remove_monitors (\<lambda>k. k \<notin> mo_id ` set monitors)) db2) (\<lambda>db3.
     delete_table en ''notification_channels''
       (\<lambda>db. db\<lparr>db_channels := delete_rows (\<lambda>c. \<not> ch_built_in c \<and> ch_id c \<notin> ch_id ` set channels)
          (db_channels db)\<rparr>) db3)))"

definition upsertNotificationChannelTx :: "engine \<Rightarrow> channel \<Rightarrow> db \<Rightarrow> db_error + db" where
  "upsertNotificationChannelTx en c db =
     (let row = c\<lparr>ch_built_in := False\<rparr> in
      if ch_id c \<in> ch_id ` set (db_channels db)
      then run en (Update ''notification_channels'' (ch_id c))
        (Inr (db\<lparr>db_channels := update_rows (\<lambda>r. ch_id r = ch_id c) (\<lambda>_. row) (db_channels db)\<rparr>))
      else run en (Insert ''notification_channels'' (ch_id c))
        (Inr (db\<lparr>db_channels := db_channels db @ [row]\<rparr>)))"

definition upsertMonitorTx :: "engine \<Rightarrow> monitor \<Rightarrow> db \<Rightarrow> db_error + db" where
  "upsertMonitorTx en m db =
     (if mo_id m \<in> monitor_key ` set (db_monitors db)
      then run en (Update ''monitors'' (mo_id m))
        (Inr (db\<lparr>db_monitors := update_rows (\<lambda>r. monitor_key r = mo_id m)
           (\<lambda>_. monitorFromDomain m) (db_monitors db)\<rparr>))
      else run en (Insert ''monitors'' (mo_id m))
        (Inr (db\<lparr>db_monitors := db_monitors db @ [monitorFromDomain m]\<rparr>)))"

definition upsertStatusBoardItemTx :: "engine \<Rightarrow> status_item \<Rightarrow> db \<Rightarrow> db_error + db" where
  "upsertStatusBoardItemTx en item db =
     (if si_monitor_id item \<notin> monitor_key ` set (db_monitors db)
      then run en (Insert ''status_board_items'' (si_id item)) (Inl (ForeignKey (si_monitor_id item)))
      else if si_id item \<in> si_id ` set (db_items db)
      then run en (Update ''status_board_items'' (si_id item))
        (Inr (db\<lparr>db_items := update_rows (\<lambda>r. si_id r = si_id item) (\<lambda>_. item) (db_items db)\<rparr>))
      else run en (Insert ''status_board_items'' (si_id item))
        (Inr (db\<lparr>db_items := db_items db @ [item]\<rparr>)))"

definition upsertStatusBoardShareTx :: "engine \<Rightarrow> share \<Rightarrow> db \<Rightarrow> db_error + db" where
  "upsertStatusBoardShareTx en s db =
     (if list_ex (\<lambda>r. sh_token r = sh_token s \<and> sh_id r \<noteq> sh_id s) (db_shares db)
      then run en (Insert ''status_board_shares'' (sh_id s)) (Inl (Unique ''status_board_shares''))
      else if sh_id s \<in> sh_id ` set (db_shares db)
      then run en (Update ''status_board_shares'' (sh_id s))
        (Inr (db\<lparr>db_shares := update_rows (\<lambda>r. sh_id r = sh_id s) (\<lambda>_. s) (db_shares db)\<rparr>))
      else run en (Insert ''status_board_shares'' (sh_id s))
        (Inr (db\<lparr>db_shares := db_shares db @ [s]\<rparr>)))"

definition import_channels :: "channel list \<Rightarrow> channel list" where
  "import_channels cs = filter (\<lambda>c. ch_id c \<noteq> BuiltInNotificationChannelID \<and> \<not> ch_built_in c) cs"

definition import_body ::
    "engine \<Rightarrow> time \<Rightarrow> configuration_import \<Rightarrow> db \<Rightarrow> db_error + int go_map \<times> db" where
  "import_body en now input db =
     ok_then (importRuntimeConfigTx en now (im_runtime input) (im_admin_key_hash input) db) (\<lambda>(versions, db1).
     ok_then (if im_replace input
        then clearTransferableConfigurationTx en (im_monitors input) (im_channels input) db1 else Inr db1) (\<lambda>db2.
     ok_then (each (upsertNotificationChannelTx en) (import_channels (im_channels input)) db2) (\<lambda>db3.
     ok_then (each (upsertMonitorTx en) (im_monitors input) db3) (\<lambda>db4.
     ok_then (each (upsertStatusBoardItemTx en) (im_items input) db4) (\<lambda>db5.
     ok_then (each (upsertStatusBoardShareTx en) (im_shares input) db5) (\<lambda>db6.
     ok_then (if im_admin_key_hash input = [] then Inr db6
        else delete_table en ''admin_sessions'' (\<lambda>db. db\<lparr>db_sessions := []\<rparr>) db6) (\<lambda>db7.
     Inr (versions, db7))))))))"

text \<open>The whole import is one transaction.\<close>

definition ImportConfiguration ::
    "engine \<Rightarrow> time \<Rightarrow> configuration_import \<Rightarrow> db \<Rightarrow> db_error + int go_map \<times> db" where
  "ImportConfiguration en now input db =
     ok_then (import_body en now input db) (\<lambda>(versions, db'). run en Commit (Inr (versions, db')))"

subsection \<open>Properties of configuration updates\<close>

definition config_version :: "string \<Rightarrow> db \<Rightarrow> int option" where
  "config_version ctype db = map_option sc_version (find_first (\<lambda>c. sc_type c = ctype) (db_configs db))"

lemma find_first_update:
  assumes "\<And>x. P (f x) = P x"
  shows "find_first P (update_rows Q f rows) =
    map_option (\<lambda>x. if Q x then f x else x) (find_first P rows)"
  using assms by (induction rows) (auto simp: update_rows_def)

lemma get_config_Inr: "GetSystemConfig en ctype db = Inr c \<Longrightarrow>
   find_first (\<lambda>c. sc_type c = ctype) (db_configs db) = Some c"
  by (auto simp: GetSystemConfig_def select_first_def split: option.splits)

lemma rows_affected_pos:
  "0 < rows_affected en P f rows \<Longrightarrow> \<exists>r \<in> set rows. P r"
  by (auto simp: rows_affected_def filter_empty_conv)

lemma bump_changes: "bump_config now v c \<noteq> c"
proof
  assume "bump_config now v c = c"
  then have "sc_version (bump_config now v c) = sc_version c" by simp
  then show False by (simp add: bump_config_def)
qed

lemma bump_affected:
  "rows_affected en P (bump_config now v) rows = length (filter P rows)"
  by (simp add: rows_affected_def bump_changes)

lemma unique_config:
  "distinct (map sc_type cs) \<Longrightarrow> c \<in> set cs \<Longrightarrow> sc_type c = t \<Longrightarrow>
   find_first (\<lambda>c. sc_type c = t) cs = Some c"
  using find_first_key [of sc_type cs c] by auto

lemma write_config_Inr:
  "write_config en now ctype w n db = (Inr c, db') \<Longrightarrow>
   rows_affected en (\<lambda>c. sc_type c = ctype \<and> sc_version c = n) (bump_config now w) (db_configs db) \<noteq> 0 \<and>
   db' = db\<lparr>db_configs := update_rows (\<lambda>c. sc_type c = ctype \<and> sc_version c = n) (bump_config now w) (db_configs db)\<rparr> \<and>
   GetSystemConfig en ctype db' = Inr c"
  unfolding write_config_def Let_def by (auto split: if_splits)

lemma update_config_Inr:
  "UpdateSystemConfig en now ctype data n db = (Inr c, db') \<Longrightarrow> \<exists>w.
   rows_affected en (\<lambda>c. sc_type c = ctype \<and> sc_version c = n) (bump_config now w) (db_configs db) \<noteq> 0 \<and>
   db' = db\<lparr>db_configs := update_rows (\<lambda>c. sc_type c = ctype \<and> sc_version c = n) (bump_config now w) (db_configs db)\<rparr> \<and>
   GetSystemConfig en ctype db' = Inr c"
  unfolding UpdateSystemConfig_def
  by (cases data; simp split: if_split_asm sum.split_asm) (blast dest: write_config_Inr)+

lemma write_config_stale:
  "(\<And>w. rows_affected en (\<lambda>c. sc_type c = ctype \<and> sc_version c = n) (bump_config now w) (db_configs db) = 0) \<Longrightarrow>
   \<not> is_ok (fst (write_config en now ctype w n db))"
  by (simp add: write_config_def Let_def)

lemma update_config_stale:
  "(\<And>w. rows_affected en (\<lambda>c. sc_type c = ctype \<and> sc_version c = n) (bump_config now w) (db_configs db) = 0) \<Longrightarrow>
   \<not> is_ok (fst (UpdateSystemConfig en now ctype data n db))"
  unfolding UpdateSystemConfig_def
  by (auto simp del: is_ok_simps split: option.split sum.split intro!: write_config_stale) simp_all

text \<open>
  \<open>UpdateSystemConfig\<close> is an optimistic lock: it succeeds only for the version that is
  stored, stores the next version and returns it, and leaves the other sections alone.
  A second call with the same expected version, whoever makes it, fails.
\<close>

theorem config_update_optimistic:
  assumes "distinct (map sc_type (db_configs db))"
    and "UpdateSystemConfig en now ctype data expected db = (Inr c, db')"
  shows "config_version ctype db = Some expected \<and> sc_version c = expected + 1 \<and>
    config_version ctype db' = Some (expected + 1) \<and>
    (\<forall>t. t \<noteq> ctype \<longrightarrow> config_version t db' = config_version t db) \<and>
    \<not> is_ok (fst (UpdateSystemConfig en2 now2 ctype data2 expected db'))"
proof -
  let ?P = "\<lambda>c. sc_type c = ctype \<and> sc_version c = expected"
  obtain w where n: "rows_affected en ?P (bump_config now w) (db_configs db) \<noteq> 0"
    and db': "db' = db\<lparr>db_configs := update_rows ?P (bump_config now w) (db_configs db)\<rparr>"
    and c: "GetSystemConfig en ctype db' = Inr c"
    using update_config_Inr [OF assms(2)] by blast
  from n obtain r where r: "r \<in> set (db_configs db)" "sc_type r = ctype" "sc_version r = expected"
    using rows_affected_pos [of en ?P "bump_config now w" "db_configs db"] by auto
  have old: "find_first (\<lambda>c. sc_type c = ctype) (db_configs db) = Some r"
    using unique_config [OF assms(1) r(1,2)] .
  have upd: "find_first (\<lambda>c. sc_type c = t) (db_configs db') =
      map_option (\<lambda>x. if ?P x then bump_config now w x else x) (find_first (\<lambda>c. sc_type c = t) (db_configs db))" for t
    unfolding db' by (simp add: find_first_update bump_config_def)
  have new: "find_first (\<lambda>c. sc_type c = ctype) (db_configs db') = Some (bump_config now w r)"
    using upd [of ctype] old r by simp
  then have cr: "c = bump_config now w r" using get_config_Inr [OF c] by simp
  have others: "config_version t db' = config_version t db" if "t \<noteq> ctype" for t
  proof (cases "find_first (\<lambda>c. sc_type c = t) (db_configs db)")
    case (Some x)
    then have "sc_type x \<noteq> ctype" using find_first_Some that by fastforce
    with Some show ?thesis using upd [of t] by (simp add: config_version_def)
  qed (use upd [of t] in \<open>simp add: config_version_def\<close>)
  have d': "distinct (map sc_type (db_configs db'))"
    using assms(1) by (simp add: db' bump_config_def)
  have "filter ?P (db_configs db') = []"
  proof -
    have "\<not> ?P x" if "x \<in> set (db_configs db')" for x
      using unique_config [OF d' that, of ctype] new r by (auto simp: bump_config_def)
    then show ?thesis by (simp add: filter_empty_conv)
  qed
  then have "\<not> is_ok (fst (UpdateSystemConfig en2 now2 ctype data2 expected db'))"
    by (intro update_config_stale) (simp add: bump_affected)
  then show ?thesis
    using old new r others by (simp add: config_version_def cr bump_config_def)
qed

definition test_config :: "string \<Rightarrow> int \<Rightarrow> val \<Rightarrow> system_config" where
  "test_config t n v = \<lparr>sc_type = t, sc_data = v, sc_version = n, sc_created_at = 0, sc_updated_at = 0\<rparr>"

lemma config_update_optimistic_witness:
  "\<not> is_ok (fst (UpdateSystemConfig (test_engine True) 9 ''ui'' (Some VNil) 3
     (empty_db\<lparr>db_configs := [(test_config ''ui'' 4 VNil)\<lparr>sc_updated_at := 7\<rparr>]\<rparr>)))"
proof -
  have u: "UpdateSystemConfig (test_engine True) 7 ''ui'' (Some VNil) 3
      (empty_db\<lparr>db_configs := [test_config ''ui'' 3 VNil]\<rparr>) =
      (Inr ((test_config ''ui'' 4 VNil)\<lparr>sc_updated_at := 7\<rparr>),
       empty_db\<lparr>db_configs := [(test_config ''ui'' 4 VNil)\<lparr>sc_updated_at := 7\<rparr>]\<rparr>)"
    by (simp add: UpdateSystemConfig_def write_config_def test_engine_def test_config_def system_auth_def rows_affected_def
        bump_config_def update_rows_def GetSystemConfig_def run_def select_first_def Let_def)
  show ?thesis
    using config_update_optimistic [OF _ u, of "test_engine True" 9 "Some VNil"] by simp
qed

lemma update_auth_Inr:
  assumes "UpdateSystemConfig en now system_auth (Some v) n db = (Inr c, db')"
  obtains w where "preserveAuthKey en v db = Inr w"
    and "write_config en now system_auth w n db = (Inr c, db')"
  using assms unfolding UpdateSystemConfig_def by (auto split: if_splits sum.splits)

lemma admin_key_Inr:
  "AdminKeyHash en db = Inr h \<longleftrightarrow>
   (\<exists>row a. GetSystemConfig en system_auth db = Inr row \<and> decode_auth (sc_data row) = Some a \<and>
     ac_admin_key_hash a = h \<and> h \<noteq> [])"
  by (auto simp: AdminKeyHash_def ok_then_Inr split: option.splits if_splits)

text \<open>
  Updating the section \<open>auth\<close> with data that leaves out the key's hash, as the editor does,
  never loses the administrator's key.
\<close>

theorem config_update_keeps_admin_key:
  assumes "distinct (map sc_type (db_configs db))"
    and "UpdateSystemConfig en now system_auth (Some v) n db = (Inr c, db')"
    and "decode_auth v = Some a" and "ac_admin_key_hash a = []" and "AdminKeyHash en db = Inr h"
  shows "AdminKeyHash en db' = Inr h \<and> decode_auth (sc_data c) = Some (a\<lparr>ac_admin_key_hash := h\<rparr>)"
proof -
  obtain row b where row: "GetSystemConfig en system_auth db = Inr row" "decode_auth (sc_data row) = Some b"
    "ac_admin_key_hash b = h" "h \<noteq> []"
    using assms(5) by (auto simp: admin_key_Inr)
  obtain w where w: "preserveAuthKey en v db = Inr w"
    and wr: "write_config en now system_auth w n db = (Inr c, db')"
    using assms(2) by (rule update_auth_Inr)
  have w': "w = encode_auth (a\<lparr>ac_admin_key_hash := h\<rparr>)"
    using w row assms(3,4) by (simp add: preserveAuthKey_def)
  let ?P = "\<lambda>c. sc_type c = system_auth \<and> sc_version c = n"
  have db': "db' = db\<lparr>db_configs := update_rows ?P (bump_config now w) (db_configs db)\<rparr>"
    and g: "GetSystemConfig en system_auth db' = Inr c"
    and "rows_affected en ?P (bump_config now w) (db_configs db) \<noteq> 0"
    using write_config_Inr [OF wr] by auto
  then obtain r where r: "r \<in> set (db_configs db)" "sc_type r = system_auth" "sc_version r = n"
    using rows_affected_pos [of en ?P "bump_config now w" "db_configs db"] by auto
  have "find_first (\<lambda>c. sc_type c = system_auth) (db_configs db') = Some (bump_config now w r)"
    using unique_config [OF assms(1) r(1,2)] r
    by (simp add: db' find_first_update bump_config_def)
  then have "c = bump_config now w r" using get_config_Inr [OF g] by simp
  then have "decode_auth (sc_data c) = Some (a\<lparr>ac_admin_key_hash := h\<rparr>)"
    by (simp add: bump_config_def w')
  then show ?thesis using g row(4) by (simp add: admin_key_Inr)
qed

lemma config_update_keeps_admin_key_witness:
  "AdminKeyHash (test_engine True) (empty_db\<lparr>db_configs := [(test_config system_auth 2
      (VObj [(''session_ttl'', VStr ''2h''), (''admin_key_hash'', VStr ''k'')]))\<lparr>sc_updated_at := 7\<rparr>]\<rparr>) = Inr ''k''"
proof -
  let ?db = "empty_db\<lparr>db_configs := [test_config system_auth 1 (VObj [(''admin_key_hash'', VStr ''k'')])]\<rparr>"
  let ?v = "VObj [(''session_ttl'', VStr ''2h'')]"
  let ?c = "(test_config system_auth 2
      (VObj [(''session_ttl'', VStr ''2h''), (''admin_key_hash'', VStr ''k'')]))\<lparr>sc_updated_at := 7\<rparr>"
  have g: "GetSystemConfig (test_engine True) system_auth ?db =
      Inr (test_config system_auth 1 (VObj [(''admin_key_hash'', VStr ''k'')]))"
    by (simp add: GetSystemConfig_def select_first_def run_def test_engine_def test_config_def)
  have d: "decode_auth ?v = Some \<lparr>ac_session_ttl = ''2h'', ac_admin_key_hash = []\<rparr>"
    "decode_auth (VObj [(''admin_key_hash'', VStr ''k'')]) = Some \<lparr>ac_session_ttl = [], ac_admin_key_hash = ''k''\<rparr>"
    by (simp_all add: decode_auth_def str_member_def)
  have p: "preserveAuthKey (test_engine True) ?v ?db =
      Inr (VObj [(''session_ttl'', VStr ''2h''), (''admin_key_hash'', VStr ''k'')])"
  proof -
    have "sc_data (test_config system_auth 1 v) = v" for v by (simp add: test_config_def)
    then show ?thesis by (simp add: preserveAuthKey_def d g encode_auth_def)
  qed
  have u: "UpdateSystemConfig (test_engine True) 7 system_auth (Some ?v) 1 ?db =
      (Inr ?c, empty_db\<lparr>db_configs := [?c]\<rparr>)"
    unfolding UpdateSystemConfig_def option.case if_P [OF refl] p sum.case
    by (simp add: write_config_def rows_affected_def test_engine_def test_config_def
        bump_config_def update_rows_def GetSystemConfig_def run_def select_first_def Let_def)
  have k: "AdminKeyHash (test_engine True) ?db = Inr ''k''"
    using g d by (auto simp: admin_key_Inr test_config_def)
  show ?thesis
    using config_update_keeps_admin_key [OF _ u d(1) _ k] by simp
qed

subsection \<open>Expired sessions\<close>

lemma append_less_common: "(xs @ ys < xs @ zs) = (ys < (zs :: string))"
  by (induction xs) auto

lemma pad_int_ne: "0 < w \<Longrightarrow> pad_int w n \<noteq> []"
  by (cases "itoa n") (auto simp: pad_int_def Let_def)

text \<open>
  The cleanup of sessions compares times as text, and a fraction of a second sorts before
  no fraction: at a full second it deletes every session that expires within the second
  to come, although it is still valid.
\<close>

theorem sessions_deleted_early:
  assumes "now mod second = 0" and "as_expires_at s = now + f" and "0 < f" and "f < second"
  shows "session_expired now s \<and> now < as_expires_at s"
proof -
  have "(now + f) div second = now div second" "(now + f) mod second = f"
    using assms by (auto simp: div_add1_eq mod_add_eq [symmetric] second_def)
  moreover have "''.'' @ strip_trailing_zeros (pad_int 9 f) @ ''Z'' < ''Z''" by simp
  ultimately have "timestamp (now + f) < timestamp now"
    using assms by (simp add: timestamp_def nano_fraction_def append_less_common)
  with assms show ?thesis by (simp add: session_expired_def)
qed

definition test_session :: "time \<Rightarrow> admin_session" where
  "test_session expires = \<lparr>as_token_hash = ''t'', as_csrf_token = ''c'', as_expires_at = expires,
     as_last_seen_at = 0, as_created_at = 0\<rparr>"

lemma sessions_deleted_early_witness:
  "session_expired 5000000000 (test_session 5500000000) \<and> (5000000000 :: time) < as_expires_at (test_session 5500000000)"
  by (rule sessions_deleted_early [where f = 500000000]) (simp_all add: test_session_def second_def)

subsection \<open>What an import leaves\<close>

lemma delete_table_Inr: "delete_table en t f db = Inr db' \<longleftrightarrow> en_ok en (Delete t []) \<and> db' = f db"
  by (auto simp: delete_table_def)

lemma import_section_frame:
  "import_section en now k sec (vs, db) = Inr (vs', db') \<Longrightarrow> \<exists>cs. db' = db\<lparr>db_configs := cs\<rparr>"
  by (auto simp: import_section_def Let_def ok_then_Inr split: prod.splits option.splits if_splits)

lemma import_runtime_same:
  assumes "importRuntimeConfigTx en now secs k db = Inr (vs, db')"
    and frame: "\<And>d cs. g (d\<lparr>db_configs := cs\<rparr>) = g d"
  shows "g db' = g db"
proof -
  have "g (snd b) = g (snd a)" if "import_section en now k sec a = Inr b" for sec a b
    using import_section_frame [of en now k sec "fst a" "snd a" "fst b" "snd b"] that frame by auto
  from each_same [OF assms(1) [unfolded importRuntimeConfigTx_def], of "\<lambda>x. g (snd x)", OF this]
  show ?thesis by simp
qed

lemma delete_table_ok: "delete_table en t f db = Inr db' \<Longrightarrow> db' = f db"
  by (auto simp: delete_table_def)

text \<open>What one insert-or-update does to the keys of its table, and that it touches no other table.\<close>

lemma update_rows_keys: "k new = i \<Longrightarrow>
   k ` set (update_rows (\<lambda>r. k r = i) (\<lambda>_. new) rows) = k ` set rows"
  by (induction rows) (auto simp: update_rows_def)

lemma add_row_keys: "k new = i \<Longrightarrow> k ` set (rows @ [new]) = insert i (k ` set rows)"
  by simp

lemma upsert_channel_frame:
  assumes "upsertNotificationChannelTx en c d = Inr d'"
  shows "d' = d\<lparr>db_channels := db_channels d'\<rparr> \<and>
    ch_id ` set (db_channels d') = insert (ch_id c) (ch_id ` set (db_channels d))"
proof (cases "ch_id c \<in> ch_id ` set (db_channels d)")
  case True
  with assms have "d' = d\<lparr>db_channels := update_rows (\<lambda>r. ch_id r = ch_id c) (\<lambda>_. c\<lparr>ch_built_in := False\<rparr>) (db_channels d)\<rparr>"
    unfolding upsertNotificationChannelTx_def Let_def by (simp split: if_split_asm)
  with True show ?thesis
    using update_rows_keys [of ch_id "c\<lparr>ch_built_in := False\<rparr>" "ch_id c" "db_channels d"] by (simp add: insert_absorb)
next
  case False
  with assms have "d' = d\<lparr>db_channels := db_channels d @ [c\<lparr>ch_built_in := False\<rparr>]\<rparr>"
    unfolding upsertNotificationChannelTx_def Let_def by (simp split: if_split_asm)
  then show ?thesis by simp
qed

lemma upsert_monitor_frame:
  assumes "upsertMonitorTx en m d = Inr d'"
  shows "d' = d\<lparr>db_monitors := db_monitors d'\<rparr> \<and>
    monitor_key ` set (db_monitors d') = insert (mo_id m) (monitor_key ` set (db_monitors d))"
proof (cases "mo_id m \<in> monitor_key ` set (db_monitors d)")
  case True
  with assms have "d' = d\<lparr>db_monitors := update_rows (\<lambda>r. monitor_key r = mo_id m) (\<lambda>_. monitorFromDomain m) (db_monitors d)\<rparr>"
    unfolding upsertMonitorTx_def Let_def by (simp split: if_split_asm)
  with True show ?thesis
    using update_rows_keys [of monitor_key "monitorFromDomain m" "mo_id m" "db_monitors d"] by (simp add: insert_absorb)
next
  case False
  with assms have "d' = d\<lparr>db_monitors := db_monitors d @ [monitorFromDomain m]\<rparr>"
    unfolding upsertMonitorTx_def Let_def by (simp split: if_split_asm)
  then show ?thesis by simp
qed

lemma upsert_item_frame:
  assumes "upsertStatusBoardItemTx en item d = Inr d'"
  shows "d' = d\<lparr>db_items := db_items d'\<rparr> \<and>
    si_id ` set (db_items d') = insert (si_id item) (si_id ` set (db_items d))"
proof (cases "si_id item \<in> si_id ` set (db_items d)")
  case True
  with assms have "d' = d\<lparr>db_items := update_rows (\<lambda>r. si_id r = si_id item) (\<lambda>_. item) (db_items d)\<rparr>"
    unfolding upsertStatusBoardItemTx_def Let_def by (simp split: if_split_asm)
  with True show ?thesis
    using update_rows_keys [of si_id "item" "si_id item" "db_items d"] by (simp add: insert_absorb)
next
  case False
  with assms have "d' = d\<lparr>db_items := db_items d @ [item]\<rparr>"
    unfolding upsertStatusBoardItemTx_def Let_def by (simp split: if_split_asm)
  then show ?thesis by simp
qed

lemma upsert_share_frame:
  assumes "upsertStatusBoardShareTx en s d = Inr d'"
  shows "d' = d\<lparr>db_shares := db_shares d'\<rparr> \<and>
    sh_id ` set (db_shares d') = insert (sh_id s) (sh_id ` set (db_shares d))"
proof (cases "sh_id s \<in> sh_id ` set (db_shares d)")
  case True
  with assms have "d' = d\<lparr>db_shares := update_rows (\<lambda>r. sh_id r = sh_id s) (\<lambda>_. s) (db_shares d)\<rparr>"
    unfolding upsertStatusBoardShareTx_def Let_def by (simp split: if_split_asm)
  with True show ?thesis
    using update_rows_keys [of sh_id "s" "sh_id s" "db_shares d"] by (simp add: insert_absorb)
next
  case False
  with assms have "d' = d\<lparr>db_shares := db_shares d @ [s]\<rparr>"
    unfolding upsertStatusBoardShareTx_def Let_def by (simp split: if_split_asm)
  then show ?thesis by simp
qed

text \<open>The tables after each stage of an import.\<close>

lemma clear_Inr:
  "clearTransferableConfigurationTx en ms cs d = Inr d' \<Longrightarrow>
   db_shares d' = [] \<and> db_items d' = [] \<and>
   db_monitors d' = delete_rows (\<lambda>r. monitor_key r \<notin> mo_id ` set ms) (db_monitors d) \<and>
   db_channels d' = delete_rows (\<lambda>c. \<not> ch_built_in c \<and> ch_id c \<notin> ch_id ` set cs) (db_channels d) \<and>
   db_sessions d' = db_sessions d"
  by (auto simp: clearTransferableConfigurationTx_def ok_then_Inr delete_table_Inr remove_monitors_def delete_rows_def)

lemma each_related:
  assumes "each f xs a = Inr b" and "\<And>x a b. f x a = Inr b \<Longrightarrow> R a b" and "reflp R" and "transp R"
  shows "R a b"
  using assms(1)
proof (induction xs arbitrary: a)
  case Nil
  then show ?case using assms(3) by (simp add: reflp_def)
next
  case (Cons x xs)
  then obtain c where "f x a = Inr c" "each f xs c = Inr b" by (auto simp: ok_then_Inr)
  then show ?case using Cons.IH [of c] assms(2) [of x a c] transpD [OF assms(4)] by blast
qed

lemma frame_relations:
  "reflp (\<lambda>a b. b = a\<lparr>db_channels := db_channels b\<rparr>)" "transp (\<lambda>a b. b = a\<lparr>db_channels := db_channels b\<rparr>)"
  "reflp (\<lambda>a b. b = a\<lparr>db_monitors := db_monitors b\<rparr>)" "transp (\<lambda>a b. b = a\<lparr>db_monitors := db_monitors b\<rparr>)"
  "reflp (\<lambda>a b. b = a\<lparr>db_items := db_items b\<rparr>)" "transp (\<lambda>a b. b = a\<lparr>db_items := db_items b\<rparr>)"
  "reflp (\<lambda>a b. b = a\<lparr>db_shares := db_shares b\<rparr>)" "transp (\<lambda>a b. b = a\<lparr>db_shares := db_shares b\<rparr>)"
proof -
  show "reflp (\<lambda>a b. b = a\<lparr>db_channels := db_channels b\<rparr>)" "reflp (\<lambda>a b. b = a\<lparr>db_monitors := db_monitors b\<rparr>)"
    "reflp (\<lambda>a b. b = a\<lparr>db_items := db_items b\<rparr>)" "reflp (\<lambda>a b. b = a\<lparr>db_shares := db_shares b\<rparr>)"
    by (simp_all add: reflp_def)
  show "transp (\<lambda>a b. b = a\<lparr>db_channels := db_channels b\<rparr>)" "transp (\<lambda>a b. b = a\<lparr>db_monitors := db_monitors b\<rparr>)"
    "transp (\<lambda>a b. b = a\<lparr>db_items := db_items b\<rparr>)" "transp (\<lambda>a b. b = a\<lparr>db_shares := db_shares b\<rparr>)"
    by (rule transpI, case_tac x, case_tac y, case_tac z, simp)+
qed

lemma frames:
  "b = a\<lparr>db_channels := cs\<rparr> \<Longrightarrow> db_monitors b = db_monitors a \<and> db_items b = db_items a \<and>
     db_shares b = db_shares a \<and> db_sessions b = db_sessions a"
  "b = a\<lparr>db_monitors := ms\<rparr> \<Longrightarrow> db_channels b = db_channels a \<and> db_items b = db_items a \<and>
     db_shares b = db_shares a \<and> db_sessions b = db_sessions a"
  "b = a\<lparr>db_items := is\<rparr> \<Longrightarrow> db_monitors b = db_monitors a \<and> db_channels b = db_channels a \<and>
     db_shares b = db_shares a \<and> db_sessions b = db_sessions a"
  "b = a\<lparr>db_shares := ss\<rparr> \<Longrightarrow> db_monitors b = db_monitors a \<and> db_items b = db_items a \<and>
     db_channels b = db_channels a \<and> db_sessions b = db_sessions a"
  by simp_all

lemma upsert_channels:
  assumes "each (upsertNotificationChannelTx en) xs d = Inr d'"
  shows "d' = d\<lparr>db_channels := db_channels d'\<rparr> \<and>
    ch_id ` set (db_channels d') = ch_id ` set (db_channels d) \<union> ch_id ` set xs"
proof
  show "d' = d\<lparr>db_channels := db_channels d'\<rparr>"
    by (rule each_related [OF assms conjunct1 [OF upsert_channel_frame] frame_relations(1,2)])
qed (rule each_insert [OF assms, of "\<lambda>d. ch_id ` set (db_channels d)" ch_id, OF conjunct2 [OF upsert_channel_frame]])

lemma upsert_monitors:
  assumes "each (upsertMonitorTx en) xs d = Inr d'"
  shows "d' = d\<lparr>db_monitors := db_monitors d'\<rparr> \<and>
    monitor_key ` set (db_monitors d') = monitor_key ` set (db_monitors d) \<union> mo_id ` set xs"
proof
  show "d' = d\<lparr>db_monitors := db_monitors d'\<rparr>"
    by (rule each_related [OF assms conjunct1 [OF upsert_monitor_frame] frame_relations(3,4)])
qed (rule each_insert [OF assms, of "\<lambda>d. monitor_key ` set (db_monitors d)" mo_id, OF conjunct2 [OF upsert_monitor_frame]])

lemma upsert_items:
  assumes "each (upsertStatusBoardItemTx en) xs d = Inr d'"
  shows "d' = d\<lparr>db_items := db_items d'\<rparr> \<and>
    si_id ` set (db_items d') = si_id ` set (db_items d) \<union> si_id ` set xs"
proof
  show "d' = d\<lparr>db_items := db_items d'\<rparr>"
    by (rule each_related [OF assms conjunct1 [OF upsert_item_frame] frame_relations(5,6)])
qed (rule each_insert [OF assms, of "\<lambda>d. si_id ` set (db_items d)" si_id, OF conjunct2 [OF upsert_item_frame]])

lemma upsert_shares:
  assumes "each (upsertStatusBoardShareTx en) xs d = Inr d'"
  shows "d' = d\<lparr>db_shares := db_shares d'\<rparr> \<and>
    sh_id ` set (db_shares d') = sh_id ` set (db_shares d) \<union> sh_id ` set xs"
proof
  show "d' = d\<lparr>db_shares := db_shares d'\<rparr>"
    by (rule each_related [OF assms conjunct1 [OF upsert_share_frame] frame_relations(7,8)])
qed (rule each_insert [OF assms, of "\<lambda>d. sh_id ` set (db_shares d)" sh_id, OF conjunct2 [OF upsert_share_frame]])

text \<open>The stages of a successful import that replaces the configuration.\<close>

lemma import_stages:
  assumes "ImportConfiguration en now input db = Inr (vs, db')" and "im_replace input"
  obtains db1 db2 db3 db4 db5 db6 where
    "importRuntimeConfigTx en now (im_runtime input) (im_admin_key_hash input) db = Inr (vs, db1)"
    "clearTransferableConfigurationTx en (im_monitors input) (im_channels input) db1 = Inr db2"
    "each (upsertNotificationChannelTx en) (import_channels (im_channels input)) db2 = Inr db3"
    "each (upsertMonitorTx en) (im_monitors input) db3 = Inr db4"
    "each (upsertStatusBoardItemTx en) (im_items input) db4 = Inr db5"
    "each (upsertStatusBoardShareTx en) (im_shares input) db5 = Inr db6"
    "db' = (if im_admin_key_hash input = [] then db6 else db6\<lparr>db_sessions := []\<rparr>)"
  using assms unfolding ImportConfiguration_def import_body_def
  by (auto simp: ok_then_Inr delete_table_Inr split: if_split_asm)

text \<open>
  An import that replaces the configuration leaves exactly the imported monitors, status
  items and shares, by their ids, no matter what was stored. Built-in channels stay, whatever
  the import says, and a channel that is not built in stays only when the import names it. An
  import that brings a new administrator key ends every session.
\<close>

theorem import_replaces:
  assumes "ImportConfiguration en now input db = Inr (vs, db')" and "im_replace input"
  shows "monitor_key ` set (db_monitors db') = mo_id ` set (im_monitors input) \<and>
    si_id ` set (db_items db') = si_id ` set (im_items input) \<and>
    sh_id ` set (db_shares db') = sh_id ` set (im_shares input) \<and>
    ch_id ` set (db_channels db') =
      ch_id ` {c \<in> set (db_channels db). ch_built_in c \<or> ch_id c \<in> ch_id ` set (im_channels input)} \<union>
      ch_id ` set (import_channels (im_channels input)) \<and>
    (im_admin_key_hash input \<noteq> [] \<longrightarrow> db_sessions db' = [])"
proof -
  from import_stages [OF assms] obtain db1 db2 db3 db4 db5 db6 where
    r: "importRuntimeConfigTx en now (im_runtime input) (im_admin_key_hash input) db = Inr (vs, db1)" and
    c: "clearTransferableConfigurationTx en (im_monitors input) (im_channels input) db1 = Inr db2" and
    u: "each (upsertNotificationChannelTx en) (import_channels (im_channels input)) db2 = Inr db3"
      "each (upsertMonitorTx en) (im_monitors input) db3 = Inr db4"
      "each (upsertStatusBoardItemTx en) (im_items input) db4 = Inr db5"
      "each (upsertStatusBoardShareTx en) (im_shares input) db5 = Inr db6" and
    d: "db' = (if im_admin_key_hash input = [] then db6 else db6\<lparr>db_sessions := []\<rparr>)" .
  note stages = upsert_channels [OF u(1)] upsert_monitors [OF u(2)] upsert_items [OF u(3)] upsert_shares [OF u(4)]
  note f = frames(1) [OF conjunct1 [OF stages(1)]] frames(2) [OF conjunct1 [OF stages(2)]]
    frames(3) [OF conjunct1 [OF stages(3)]] frames(4) [OF conjunct1 [OF stages(4)]]
  have last: "db_monitors db' = db_monitors db6" "db_items db' = db_items db6" "db_shares db' = db_shares db6"
    "db_channels db' = db_channels db6" "im_admin_key_hash input \<noteq> [] \<longrightarrow> db_sessions db' = []"
    using d by simp_all
  have runtime: "db_monitors db1 = db_monitors db" "db_channels db1 = db_channels db"
    by (rule import_runtime_same [OF r]; simp)+
  note cl = clear_Inr [OF c]
  have "monitor_key ` set (db_monitors db') = monitor_key ` set (db_monitors db2) \<union> mo_id ` set (im_monitors input)"
    using f last(1) conjunct2 [OF stages(2)] by simp
  moreover have "monitor_key ` set (db_monitors db2) \<subseteq> mo_id ` set (im_monitors input)"
    using cl by (auto simp: delete_rows_def)
  moreover have "si_id ` set (db_items db') = si_id ` set (im_items input)"
    using f last(2) conjunct2 [OF stages(3)] cl by simp
  moreover have "sh_id ` set (db_shares db') = sh_id ` set (im_shares input)"
    using f last(3) conjunct2 [OF stages(4)] cl by simp
  moreover have "ch_id ` set (db_channels db') =
      ch_id ` set (db_channels db2) \<union> ch_id ` set (import_channels (im_channels input))"
    using f last(4) conjunct2 [OF stages(1)] by simp
  moreover have "set (db_channels db2) =
      {c \<in> set (db_channels db). ch_built_in c \<or> ch_id c \<in> ch_id ` set (im_channels input)}"
    using cl runtime(2) by (auto simp: delete_rows_def)
  ultimately show ?thesis using last(5) by (metis Un_absorb1 sup_commute)
qed

definition test_import :: configuration_import where
  "test_import = \<lparr>im_runtime = [], im_monitors = [test_monitor ''new''], im_channels = [], im_items = [],
     im_shares = [], im_replace = True, im_admin_key_hash = ''h''\<rparr>"

lemma import_replaces_witness:
  "monitor_key ` set (db_monitors (snd (projr (ImportConfiguration (test_engine True) 9 test_import
     (empty_db\<lparr>db_monitors := [monitorFromDomain (test_monitor ''old'')]\<rparr>))))) = {''new''}"
proof -
  let ?db = "empty_db\<lparr>db_monitors := [monitorFromDomain (test_monitor ''old'')]\<rparr>"
  let ?db' = "empty_db\<lparr>db_monitors := [monitorFromDomain (test_monitor ''new'')]\<rparr>"
  have i: "ImportConfiguration (test_engine True) 9 test_import ?db = Inr ([], ?db')"
    by (simp add: ImportConfiguration_def import_body_def test_import_def importRuntimeConfigTx_def
        clearTransferableConfigurationTx_def delete_table_def run_def test_engine_def remove_monitors_def
        delete_rows_def import_channels_def upsertMonitorTx_def empty_db_def test_monitor_def) auto
  show ?thesis
    using import_replaces [OF i] i by (simp add: test_import_def test_monitor_def)
qed

end
