(* ===== verification/Hubs.thy ===== *)
theory Hubs
  imports Prelude "HOL-Library.Sublist"
begin

section \<open>Event hubs (internal/statusboard/hub.go, internal/notification/inapp/inapp.go)\<close>

text \<open>
  A hub hands events to its subscribers through buffered channels. \<open>Publish\<close> sends without
  blocking: an event is dropped for a subscriber whose buffer is full. A subscriber is
  removed and its channel closed under the same lock, at most once. Sending on a closed
  channel would panic, which is the value \<open>None\<close> here. Channels are numbered in the order
  of their creation.
\<close>

subsection \<open>The interface\<close>

locale event_hub =
  fixes cap :: nat
    and inv :: "'h \<Rightarrow> bool"
    and live :: "'h \<Rightarrow> nat \<Rightarrow> bool"
    and buffer :: "'h \<Rightarrow> nat \<Rightarrow> 'e list"
    and publish :: "'e \<Rightarrow> 'h \<Rightarrow> 'h option"
    and receive :: "nat \<Rightarrow> 'h \<Rightarrow> ('e \<times> 'h) option"
  assumes publish_ok: "inv h \<Longrightarrow> \<exists>h'. publish e h = Some h' \<and> inv h'"
    and publish_live: "inv h \<Longrightarrow> publish e h = Some h' \<Longrightarrow> live h' s = live h s"
    and publish_buffer: "inv h \<Longrightarrow> publish e h = Some h' \<Longrightarrow> live h s \<Longrightarrow>
      buffer h' s = (if length (buffer h s) < cap then buffer h s @ [e] else buffer h s)"
    and receive_some: "inv h \<Longrightarrow> receive s h = Some (e, h') \<Longrightarrow>
      buffer h s = e # buffer h' s \<and> inv h' \<and> live h' t = live h t \<and>
      (t \<noteq> s \<longrightarrow> buffer h' t = buffer h t)"
    and receive_none: "inv h \<Longrightarrow> receive s h = None \<longleftrightarrow> buffer h s = []"
begin

fun publish_all :: "'e list \<Rightarrow> 'h \<Rightarrow> 'h option" where
  "publish_all [] h = Some h"
| "publish_all (e # es) h = Option.bind (publish e h) (publish_all es)"

lemma publish_all_ok:
  "inv h \<Longrightarrow> \<exists>h'. publish_all es h = Some h' \<and> inv h' \<and> (\<forall>s. live h' s = live h s) \<and>
   (\<forall>s. live h s \<longrightarrow> buffer h' s = buffer h s @ take (cap - length (buffer h s)) es)"
proof (induction es arbitrary: h)
  case Nil
  then show ?case by simp
next
  case (Cons e es)
  obtain h1 where p: "publish e h = Some h1" "inv h1" using publish_ok [OF Cons.prems] by blast
  obtain h2 where q: "publish_all es h1 = Some h2" "inv h2" "\<forall>s. live h2 s = live h1 s"
    "\<forall>s. live h1 s \<longrightarrow> buffer h2 s = buffer h1 s @ take (cap - length (buffer h1 s)) es"
    using Cons.IH [OF p(2)] by blast
  have "buffer h2 s = buffer h s @ take (cap - length (buffer h s)) (e # es)" if "live h s" for s
  proof (cases "length (buffer h s) < cap")
    case True
    then have "cap - length (buffer h s) = Suc (cap - Suc (length (buffer h s)))" by simp
    with True that q(4) p publish_live [OF Cons.prems p(1)] publish_buffer [OF Cons.prems p(1)]
    show ?thesis by simp
  next
    case False
    with that q(4) publish_live [OF Cons.prems p(1)] publish_buffer [OF Cons.prems p(1)]
    show ?thesis by simp
  qed
  with p q publish_live [OF Cons.prems p(1)] show ?case by simp
qed

text \<open>What one subscriber has received so far, and how a mixed run of events changes it.\<close>

fun session :: "nat \<Rightarrow> 'e option list \<Rightarrow> 'h \<Rightarrow> ('e list \<times> 'h) option" where
  "session s [] h = Some ([], h)"
| "session s (Some e # ops) h = Option.bind (publish e h) (session s ops)"
| "session s (None # ops) h =
     (case receive s h of
        None \<Rightarrow> session s ops h
      | Some (e, h') \<Rightarrow> map_option (\<lambda>(got, h''). (e # got, h'')) (session s ops h'))"

definition published :: "'e option list \<Rightarrow> 'e list" where
  "published ops = List.map_filter id ops"

lemma published_simps [simp]:
  "published [] = []" "published (Some e # ops) = e # published ops"
  "published (None # ops) = published ops"
  by (simp_all add: published_def map_filter_simps)

lemma session_spec:
  assumes "inv h" and "live h s"
  shows "\<exists>got h'. session s ops h = Some (got, h') \<and> inv h' \<and>
    subseq (got @ buffer h' s) (buffer h s @ published ops) \<and>
    (length (buffer h s) + length (published ops) \<le> cap \<longrightarrow>
      got @ buffer h' s = buffer h s @ published ops)"
  using assms
proof (induction ops arbitrary: h)
  case Nil
  then show ?case by simp
next
  case (Cons opn ops)
  show ?case
  proof (cases opn)
    case (Some e)
    obtain h1 where p: "publish e h = Some h1" "inv h1" using publish_ok [OF Cons.prems(1)] by blast
    have l: "live h1 s" using publish_live [OF Cons.prems(1) p(1)] Cons.prems(2) by simp
    note b = publish_buffer [OF Cons.prems(1) p(1) Cons.prems(2)]
    obtain got h2 where i: "session s ops h1 = Some (got, h2)" "inv h2"
      "subseq (got @ buffer h2 s) (buffer h1 s @ published ops)"
      "length (buffer h1 s) + length (published ops) \<le> cap \<longrightarrow>
        got @ buffer h2 s = buffer h1 s @ published ops"
      using Cons.IH [OF p(2) l] by blast
    have "subseq (buffer h1 s @ published ops) (buffer h s @ published (opn # ops))"
      using b by (cases "length (buffer h s) < cap") (simp_all add: Some subseq_append' list_emb_Cons)
    with i(3) have "subseq (got @ buffer h2 s) (buffer h s @ published (opn # ops))"
      by (rule subseq_order.trans)
    moreover have "got @ buffer h2 s = buffer h s @ published (opn # ops)"
      if "length (buffer h s) + length (published (opn # ops)) \<le> cap"
      using that i(4) b by (simp add: Some)
    ultimately show ?thesis using p i by (simp add: Some)
  next
    case None
    show ?thesis
    proof (cases "receive s h")
      case None
      with Cons.IH [OF Cons.prems] \<open>opn = None\<close> show ?thesis by simp
    next
      case (Some eh)
      obtain e h1 where eh: "eh = (e, h1)" by force
      note r = receive_some [OF Cons.prems(1) Some [unfolded eh]]
      obtain got h2 where i: "session s ops h1 = Some (got, h2)" "inv h2"
        "subseq (got @ buffer h2 s) (buffer h1 s @ published ops)"
        "length (buffer h1 s) + length (published ops) \<le> cap \<longrightarrow>
          got @ buffer h2 s = buffer h1 s @ published ops"
        using Cons.IH [of h1] r Cons.prems(2) by blast
      with r show ?thesis by (simp add: Some eh \<open>opn = None\<close>)
    qed
  qed
qed

end

subsection \<open>The hub\<close>

record 'e hub =
  hb_subscribers :: "nat list"
  hb_buffers :: "(nat \<times> 'e list) list"
  hb_closed :: "nat list"
  hb_next :: nat

definition NewHub :: "'e hub" where
  "NewHub = \<lparr>hb_subscribers = [], hb_buffers = [], hb_closed = [], hb_next = 0\<rparr>"

definition Subscribe :: "'e hub \<Rightarrow> nat \<times> 'e hub" where
  "Subscribe h =
     (hb_next h,
      h\<lparr>hb_subscribers := hb_subscribers h @ [hb_next h],
        hb_buffers := (hb_next h, []) # hb_buffers h, hb_next := Suc (hb_next h)\<rparr>)"

text \<open>The function that \<open>Subscribe\<close> returns; its \<open>sync.Once\<close> has fired for closed channels.\<close>

definition cancel :: "nat \<Rightarrow> 'e hub \<Rightarrow> 'e hub" where
  "cancel s h =
     (if s \<in> set (hb_closed h) then h
      else h\<lparr>hb_subscribers := removeAll s (hb_subscribers h), hb_closed := s # hb_closed h\<rparr>)"

definition hub_buffer :: "'e hub \<Rightarrow> nat \<Rightarrow> 'e list" where
  "hub_buffer h s = (case map_of (hb_buffers h) s of None \<Rightarrow> [] | Some q \<Rightarrow> q)"

definition set_buffer :: "nat \<Rightarrow> 'e list \<Rightarrow> 'e hub \<Rightarrow> 'e hub" where
  "set_buffer s q h = h\<lparr>hb_buffers := AList.update s q (hb_buffers h)\<rparr>"

text \<open>The \<open>select\<close> with a default case for one subscriber.\<close>

definition try_send :: "nat \<Rightarrow> 'e \<Rightarrow> nat \<Rightarrow> 'e hub \<Rightarrow> 'e hub option" where
  "try_send cap e s h =
     (if s \<in> set (hb_closed h) then None
      else if length (hub_buffer h s) < cap then Some (set_buffer s (hub_buffer h s @ [e]) h)
      else Some h)"

fun send_each :: "nat \<Rightarrow> 'e \<Rightarrow> nat list \<Rightarrow> 'e hub \<Rightarrow> 'e hub option" where
  "send_each cap e [] h = Some h"
| "send_each cap e (s # ss) h = Option.bind (try_send cap e s h) (send_each cap e ss)"

definition Publish :: "nat \<Rightarrow> 'e \<Rightarrow> 'e hub \<Rightarrow> 'e hub option" where
  "Publish cap e h = send_each cap e (hb_subscribers h) h"

text \<open>Receiving from a channel: its oldest buffered event; closed channels still have theirs.\<close>

definition hub_receive :: "nat \<Rightarrow> 'e hub \<Rightarrow> ('e \<times> 'e hub) option" where
  "hub_receive s h =
     (case hub_buffer h s of [] \<Rightarrow> None | e # q \<Rightarrow> Some (e, set_buffer s q h))"

definition hub_live :: "'e hub \<Rightarrow> nat \<Rightarrow> bool" where
  "hub_live h s \<longleftrightarrow> s \<in> set (hb_subscribers h)"

text \<open>The sizes of the two channels.\<close>

definition status_hub_cap :: nat where "status_hub_cap = 32"
definition inapp_hub_cap :: nat where "inapp_hub_cap = 16"

subsection \<open>The invariant\<close>

definition hub_inv :: "'e hub \<Rightarrow> bool" where
  "hub_inv h \<longleftrightarrow>
     distinct (hb_subscribers h) \<and> set (hb_subscribers h) \<inter> set (hb_closed h) = {} \<and>
     (\<forall>s \<in> set (hb_subscribers h) \<union> set (hb_closed h). s < hb_next h)"

lemma NewHub_inv [simp]: "hub_inv NewHub"
  by (simp add: hub_inv_def NewHub_def)

lemma Subscribe_inv: "hub_inv h \<Longrightarrow> hub_inv (snd (Subscribe h))"
  by (auto simp: hub_inv_def Subscribe_def intro: less_SucI)

lemma cancel_inv: "hub_inv h \<Longrightarrow> s < hb_next h \<Longrightarrow> hub_inv (cancel s h)"
  by (auto simp: hub_inv_def cancel_def distinct_removeAll)

lemma set_buffer_simps [simp]:
  "hb_subscribers (set_buffer s q h) = hb_subscribers h" "hb_closed (set_buffer s q h) = hb_closed h"
  "hb_next (set_buffer s q h) = hb_next h" "hub_live (set_buffer s q h) = hub_live h"
  "hub_inv (set_buffer s q h) = hub_inv h"
  "hub_buffer (set_buffer s q h) t = (if t = s then q else hub_buffer h t)"
  by (simp_all add: set_buffer_def hub_inv_def hub_live_def hub_buffer_def update_conv' fun_eq_iff)

definition pushed :: "nat \<Rightarrow> 'e \<Rightarrow> 'e list \<Rightarrow> 'e list" where
  "pushed cap e q = (if length q < cap then q @ [e] else q)"

lemma send_each_ok:
  assumes "distinct ss" and "set ss \<inter> set (hb_closed h) = {}"
  shows "\<exists>h'. send_each cap e ss h = Some h' \<and> hb_subscribers h' = hb_subscribers h \<and>
    hb_closed h' = hb_closed h \<and> hb_next h' = hb_next h \<and>
    (\<forall>s. hub_buffer h' s = (if s \<in> set ss then pushed cap e (hub_buffer h s) else hub_buffer h s))"
  using assms
proof (induction ss arbitrary: h)
  case Nil
  then show ?case by simp
next
  case (Cons s ss)
  define h1 where "h1 = (if length (hub_buffer h s) < cap then set_buffer s (hub_buffer h s @ [e]) h else h)"
  have t: "try_send cap e s h = Some h1" using Cons.prems by (simp add: try_send_def h1_def)
  have k: "hb_subscribers h1 = hb_subscribers h" "hb_closed h1 = hb_closed h" "hb_next h1 = hb_next h"
    by (auto simp: h1_def)
  have b: "hub_buffer h1 s' = (if s' = s then pushed cap e (hub_buffer h s') else hub_buffer h s')" for s'
    by (simp add: pushed_def h1_def)
  obtain h' where h': "send_each cap e ss h1 = Some h'" "hb_subscribers h' = hb_subscribers h1"
    "hb_closed h' = hb_closed h1" "hb_next h' = hb_next h1"
    "\<forall>s'. hub_buffer h' s' = (if s' \<in> set ss then pushed cap e (hub_buffer h1 s') else hub_buffer h1 s')"
    using Cons.IH [of h1] Cons.prems k by auto
  have "hub_buffer h' s' = (if s' \<in> set (s # ss) then pushed cap e (hub_buffer h s') else hub_buffer h s')" for s'
    using h'(5) b [of s'] Cons.prems(1) by auto
  then show ?case using t k h'(1-4) by simp
qed

lemma Publish_ok:
  assumes "hub_inv h"
  shows "\<exists>h'. Publish cap e h = Some h' \<and> hub_inv h' \<and> (\<forall>s. hub_live h' s = hub_live h s) \<and>
    (\<forall>s. hub_buffer h' s = (if hub_live h s then pushed cap e (hub_buffer h s) else hub_buffer h s))"
proof -
  obtain h' where "send_each cap e (hb_subscribers h) h = Some h'" "hb_subscribers h' = hb_subscribers h"
    "hb_closed h' = hb_closed h" "hb_next h' = hb_next h"
    "\<forall>s. hub_buffer h' s = (if s \<in> set (hb_subscribers h) then pushed cap e (hub_buffer h s) else hub_buffer h s)"
    using send_each_ok [of "hb_subscribers h" h cap e] assms by (auto simp: hub_inv_def)
  then show ?thesis using assms by (auto simp: Publish_def hub_inv_def hub_live_def)
qed

lemma hub_receive_Some:
  "hub_receive s h = Some (e, h') \<Longrightarrow> h' = set_buffer s (tl (hub_buffer h s)) h \<and> hub_buffer h s = e # tl (hub_buffer h s)"
  by (auto simp: hub_receive_def split: list.splits)

lemma Publish_some: "hub_inv h \<Longrightarrow> \<exists>h'. Publish cap e h = Some h' \<and> hub_inv h'"
  by (drule Publish_ok [of h cap e], elim exE conjE) simp

lemma Publish_live: "hub_inv h \<Longrightarrow> Publish cap e h = Some h' \<Longrightarrow> hub_live h' s = hub_live h s"
  by (drule Publish_ok [of h cap e], elim exE conjE) simp

lemma Publish_buffer:
  "hub_inv h \<Longrightarrow> Publish cap e h = Some h' \<Longrightarrow> hub_live h s \<Longrightarrow>
   hub_buffer h' s = (if length (hub_buffer h s) < cap then hub_buffer h s @ [e] else hub_buffer h s)"
  by (drule Publish_ok [of h cap e], elim exE conjE) (simp add: pushed_def)

lemma hub_receive_law:
  assumes "hub_inv h" and "hub_receive s h = Some (e, h')"
  shows "hub_buffer h s = e # hub_buffer h' s \<and> hub_inv h' \<and> hub_live h' t = hub_live h t \<and>
    (t \<noteq> s \<longrightarrow> hub_buffer h' t = hub_buffer h t)"
proof -
  note r = hub_receive_Some [OF assms(2)]
  show ?thesis using r [THEN conjunct2] assms(1) unfolding r [THEN conjunct1] by simp
qed

lemma hub_receive_None: "hub_inv h \<Longrightarrow> hub_receive s h = None \<longleftrightarrow> hub_buffer h s = []"
  by (simp add: hub_receive_def split: list.split)

lemmas hub_laws = Publish_some Publish_live Publish_buffer hub_receive_law hub_receive_None

interpretation status_hub: event_hub status_hub_cap hub_inv hub_live hub_buffer
  "Publish status_hub_cap" hub_receive
  by unfold_locales (erule hub_laws; assumption)+

interpretation inapp_hub: event_hub inapp_hub_cap hub_inv hub_live hub_buffer
  "Publish inapp_hub_cap" hub_receive
  by unfold_locales (erule hub_laws; assumption)+

subsection \<open>Properties\<close>

inductive hub_reachable :: "nat \<Rightarrow> 'e hub \<Rightarrow> bool" for cap where
  new: "hub_reachable cap NewHub"
| subscribe: "hub_reachable cap h \<Longrightarrow> hub_reachable cap (snd (Subscribe h))"
| cancel: "hub_reachable cap h \<Longrightarrow> s < hb_next h \<Longrightarrow> hub_reachable cap (cancel s h)"
| publish: "hub_reachable cap h \<Longrightarrow> Publish cap e h = Some h' \<Longrightarrow> hub_reachable cap h'"
| receive: "hub_reachable cap h \<Longrightarrow> hub_receive s h = Some (e, h') \<Longrightarrow> hub_reachable cap h'"

lemma hub_reachable_inv: "hub_reachable cap h \<Longrightarrow> hub_inv h"
proof (induction rule: hub_reachable.induct)
  case (publish h e h')
  then show ?case using Publish_ok [of h cap e] by auto
next
  case (receive h s e h')
  then show ?case using hub_receive_Some [of s h e h'] by auto
qed (simp_all add: Subscribe_inv cancel_inv)

text \<open>
  In no reachable state does \<open>Publish\<close> send on a closed channel, which would panic, and
  cancelling a subscription twice is the same as cancelling it once.
\<close>

theorem hub_never_panics:
  assumes "hub_reachable cap h"
  shows "Publish cap e h \<noteq> None \<and> cancel s (cancel s h) = cancel s h \<and>
    \<not> hub_live (cancel s h) s"
proof -
  have inv: "hub_inv h" using assms by (rule hub_reachable_inv)
  then have "\<not> hub_live (cancel s h) s" by (auto simp: hub_inv_def cancel_def hub_live_def)
  moreover have "cancel s (cancel s h) = cancel s h" by (simp add: cancel_def)
  moreover have "Publish cap e h \<noteq> None" using Publish_ok [OF inv, of cap e] by auto
  ultimately show ?thesis by simp
qed

lemma hub_never_panics_witness:
  "Publish 32 (7::nat) (cancel 0 (snd (Subscribe NewHub))) \<noteq> None"
proof -
  have "hub_reachable 32 (cancel 0 (snd (Subscribe (NewHub :: nat hub))))"
    by (intro hub_reachable.intros) (simp add: Subscribe_def)
  from hub_never_panics [OF this, of 7 0] show ?thesis by (rule conjunct1)
qed

text \<open>
  C39: What a status board subscriber receives, followed by what waits in its buffer, is the
  published events in their order with some left out; none is left out as long as no more
  than 32 events are published.
\<close>

theorem status_hub_delivery:
  assumes "hub_inv h" and "hub_live h s" and "hub_buffer h s = []"
  shows "\<exists>got h'. status_hub.session s ops h = Some (got, h') \<and>
    subseq (got @ hub_buffer h' s) (List.map_filter id ops) \<and>
    (length (List.map_filter id ops) \<le> 32 \<longrightarrow> got @ hub_buffer h' s = List.map_filter id ops)"
  using status_hub.session_spec [OF assms(1,2), of ops] assms(3)
  by (auto simp: status_hub.published_def status_hub_cap_def)

lemma status_hub_delivery_witness:
  "\<exists>got h'. status_hub.session 0 [Some 1, None, Some (2::nat)] (snd (Subscribe NewHub)) = Some (got, h') \<and>
    got @ hub_buffer h' 0 = [1, 2]"
  using status_hub_delivery [of "snd (Subscribe NewHub)" 0 "[Some 1, None, Some (2::nat)]"]
  by (auto simp: Subscribe_def NewHub_def hub_inv_def hub_live_def hub_buffer_def map_filter_simps)

text \<open>
  An in-app subscriber that does not read keeps the first sixteen events and loses the
  later ones.
\<close>

theorem inapp_hub_keeps_oldest:
  assumes "hub_inv h" and "hub_live h s"
  shows "\<exists>h'. inapp_hub.publish_all es h = Some h' \<and> hub_inv h' \<and>
    hub_buffer h' s = hub_buffer h s @ take (16 - length (hub_buffer h s)) es"
  using inapp_hub.publish_all_ok [OF assms(1), of es] assms(2) by (auto simp: inapp_hub_cap_def)

lemma inapp_hub_keeps_oldest_witness:
  "\<exists>h'. inapp_hub.publish_all [0..<20] (snd (Subscribe NewHub)) = Some h' \<and> hub_inv h' \<and>
    hub_buffer h' 0 = [0..<16]"
  using inapp_hub_keeps_oldest [of "snd (Subscribe NewHub)" 0 "[0..<20]"]
  by (simp add: Subscribe_def NewHub_def hub_inv_def hub_live_def hub_buffer_def)

end
