(* ===== verification/Registry.thy ===== *)
theory Registry
  imports Domain
begin

section \<open>The registry of monitor modules (internal/monitor)\<close>

text \<open>
  The module types that the host and its plugins offer, each with its owner
  (\<open>registry.go\<close>), and the gate that lets a plugin stop only when no execution is in
  flight (\<open>remote.go\<close>). A \<open>core.MonitorModule\<close> is its descriptor and the two calls the
  host makes: the plugin behind them is not part of this repository, so they are functions
  the module carries.
\<close>

record mon_module =
  mm_descriptor :: module_descriptor
  mm_validate :: "val \<Rightarrow> string option"
  mm_execute :: "val \<Rightarrow> observation \<times> string option"

abbreviation module_type :: "mon_module \<Rightarrow> string" where
  "module_type m \<equiv> md_type (mm_descriptor m)"

record registryEntry =
  rg_owner :: string
  rg_owner_name :: string
  rg_module :: mon_module

type_synonym registry = "registryEntry go_map"

datatype registry_error =
    OwnerAndModuleRequired
  | TypeRequired
  | OwnedBy string string
  | InvalidModule string
  | DuplicateType string

subsection \<open>Operations\<close>

definition NewRegistry :: registry where
  "NewRegistry = []"

definition owned_by_other :: "string \<Rightarrow> registry \<Rightarrow> string \<Rightarrow> string option" where
  "owned_by_other owner r t =
     (case get r t of
        None \<Rightarrow> None
      | Some e \<Rightarrow> if rg_owner e \<noteq> owner then Some (rg_owner e) else None)"

definition RegisterOwnedAs ::
    "string \<Rightarrow> string \<Rightarrow> mon_module option \<Rightarrow> registry \<Rightarrow> registry_error + registry" where
  "RegisterOwnedAs owner ownerName impl r =
     (case impl of
        None \<Rightarrow> Inl OwnerAndModuleRequired
      | Some m \<Rightarrow>
          if owner = [] then Inl OwnerAndModuleRequired
          else if module_type m = [] then Inl TypeRequired
          else (case owned_by_other owner r (module_type m) of
              Some other \<Rightarrow> Inl (OwnedBy (module_type m) other)
            | None \<Rightarrow> Inr (put (module_type m)
                \<lparr>rg_owner = owner, rg_owner_name = ownerName, rg_module = m\<rparr> r)))"

definition RegisterOwned :: "string \<Rightarrow> mon_module option \<Rightarrow> registry \<Rightarrow> registry_error + registry" where
  "RegisterOwned owner = RegisterOwnedAs owner owner"

text \<open>\<open>Register\<close> drops the error of \<open>RegisterOwned\<close>.\<close>

definition Register :: "mon_module option \<Rightarrow> registry \<Rightarrow> registry" where
  "Register impl r =
     (case RegisterOwned ''system'' impl r of Inl _ \<Rightarrow> r | Inr r' \<Rightarrow> r')"

definition RemoveOwner :: "string \<Rightarrow> registry \<Rightarrow> registry" where
  "RemoveOwner owner r = filter (\<lambda>(t, e). rg_owner e \<noteq> owner) r"

text \<open>The map of new entries that \<open>ReplaceOwnerAs\<close> collects first.\<close>

definition collect_module ::
    "string \<Rightarrow> string \<Rightarrow> mon_module option \<Rightarrow> registry \<Rightarrow> registry_error + registry" where
  "collect_module owner ownerName impl next_map =
     (case impl of
        None \<Rightarrow> Inl (InvalidModule owner)
      | Some m \<Rightarrow>
          if module_type m = [] then Inl (InvalidModule owner)
          else if has_key next_map (module_type m) then Inl (DuplicateType (module_type m))
          else Inr (put (module_type m)
            \<lparr>rg_owner = owner, rg_owner_name = ownerName, rg_module = m\<rparr> next_map))"

definition first_conflict :: "string \<Rightarrow> registry \<Rightarrow> string list \<Rightarrow> (string \<times> string) option" where
  "first_conflict owner r types =
     (case find_first (\<lambda>t. owned_by_other owner r t \<noteq> None) types of
        None \<Rightarrow> None
      | Some t \<Rightarrow> Some (t, the (owned_by_other owner r t)))"

definition ReplaceOwnerAs ::
    "string \<Rightarrow> string \<Rightarrow> mon_module option list \<Rightarrow> registry \<Rightarrow> registry_error + registry" where
  "ReplaceOwnerAs owner ownerName modules r =
     ok_then (each (collect_module owner ownerName) modules []) (\<lambda>next_map.
       (case first_conflict owner r (map fst next_map) of
          Some (t, other) \<Rightarrow> Inl (OwnedBy t other)
        | None \<Rightarrow> Inr (put_all next_map (RemoveOwner owner r))))"

definition ReplaceOwner ::
    "string \<Rightarrow> mon_module option list \<Rightarrow> registry \<Rightarrow> registry_error + registry" where
  "ReplaceOwner owner = ReplaceOwnerAs owner owner"

fun validate_types :: "string \<Rightarrow> registry \<Rightarrow> string list \<Rightarrow> string list \<Rightarrow> registry_error + unit" where
  "validate_types owner r seen [] = Inr ()"
| "validate_types owner r seen (t # ts) =
     (if t = [] then Inl TypeRequired
      else if t \<in> set seen then Inl (DuplicateType t)
      else (case owned_by_other owner r t of
          Some other \<Rightarrow> Inl (OwnedBy t other)
        | None \<Rightarrow> validate_types owner r (t # seen) ts))"

definition ValidateReplaceOwner :: "string \<Rightarrow> string list \<Rightarrow> registry \<Rightarrow> registry_error + unit" where
  "ValidateReplaceOwner owner types r = validate_types owner r [] types"

definition Get :: "string \<Rightarrow> registry \<Rightarrow> mon_module option" where
  "Get t r = map_option rg_module (get r t)"

definition Owner :: "string \<Rightarrow> registry \<Rightarrow> string option" where
  "Owner t r = map_option rg_owner (get r t)"

definition Types :: "registry \<Rightarrow> string list" where
  "Types r = sort (map fst r)"

definition descriptorWithOwner :: "registryEntry \<Rightarrow> module_descriptor" where
  "descriptorWithOwner e =
     (WithCommonResultSets (mm_descriptor (rg_module e)))
       \<lparr>md_plugin_id := rg_owner e, md_plugin_name := rg_owner_name e\<rparr>"

definition Descriptors :: "registry \<Rightarrow> module_descriptor list" where
  "Descriptors r = sort_key md_type (map (\<lambda>(t, e). descriptorWithOwner e) r)"

definition Descriptor :: "string \<Rightarrow> registry \<Rightarrow> module_descriptor option" where
  "Descriptor t r = map_option descriptorWithOwner (get r t)"

subsection \<open>The registry's invariant\<close>

text \<open>Keys are distinct, and every entry is filed under its module's non-empty type.\<close>

definition wf_registry :: "registry \<Rightarrow> bool" where
  "wf_registry r \<longleftrightarrow> wf_map r \<and> (\<forall>(t, e) \<in> set r. t = module_type (rg_module e) \<and> t \<noteq> [])"

lemma wf_registry_get:
  "wf_registry r \<Longrightarrow> get r t = Some e \<Longrightarrow> module_type (rg_module e) = t \<and> t \<noteq> []"
  by (auto simp: wf_registry_def dest!: map_of_SomeD)

lemma wf_registryI:
  assumes "wf_map r" and "\<And>t e. get r t = Some e \<Longrightarrow> t = module_type (rg_module e) \<and> t \<noteq> []"
  shows "wf_registry r"
  using assms by (auto simp: wf_registry_def get_eq_Some_iff)

lemma wf_registry_put [wf_intros]:
  "wf_registry r \<Longrightarrow> t = module_type (rg_module e) \<Longrightarrow> t \<noteq> [] \<Longrightarrow> wf_registry (put t e r)"
  by (rule wf_registryI) (auto simp: wf_registry_def dest: wf_registry_get split: if_splits intro: wf_map_put dest!: map_of_SomeD)

lemma get_RemoveOwner:
  assumes "wf_map r"
  shows "get (RemoveOwner owner r) t =
    (case get r t of None \<Rightarrow> None | Some e \<Rightarrow> if rg_owner e = owner then None else Some e)"
  using filter_map_of [of r "\<lambda>t e. rg_owner e \<noteq> owner" t] assms
  by (auto simp: RemoveOwner_def wf_map_def split: option.splits)

lemma wf_RemoveOwner [wf_intros]: "wf_registry r \<Longrightarrow> wf_registry (RemoveOwner owner r)"
  by (auto simp: wf_registry_def RemoveOwner_def)

text \<open>What the collection of new entries succeeds with.\<close>

definition entry_of :: "string \<Rightarrow> string \<Rightarrow> mon_module \<Rightarrow> registryEntry" where
  "entry_of owner name m = \<lparr>rg_owner = owner, rg_owner_name = name, rg_module = m\<rparr>"

lemma collect_module_Inr:
  "collect_module owner name m acc = Inr a \<longleftrightarrow>
   (\<exists>x. m = Some x \<and> module_type x \<noteq> [] \<and> \<not> has_key acc (module_type x) \<and>
     a = put (module_type x) (entry_of owner name x) acc)"
  by (auto simp: collect_module_def entry_of_def split: option.splits)

lemma wf_put_entry [wf_intros]:
  "wf_registry acc \<Longrightarrow> module_type x \<noteq> [] \<Longrightarrow> wf_registry (put (module_type x) (entry_of owner name x) acc)"
  by (auto intro!: wf_registry_put simp: entry_of_def)

lemma collect_ok_iff:
  assumes "wf_registry acc"
  shows "is_ok (each (collect_module owner name) modules acc) \<longleftrightarrow>
      (\<forall>m \<in> set modules. \<exists>x. m = Some x \<and> module_type x \<noteq> []) \<and>
      distinct (map (\<lambda>m. module_type (the m)) modules) \<and>
      (\<forall>m \<in> set modules. \<not> has_key acc (module_type (the m)))"
  using assms
proof (induction modules arbitrary: acc)
  case Nil
  then show ?case by simp
next
  case (Cons m modules)
  show ?case
  proof (cases "\<exists>a. collect_module owner name m acc = Inr a")
    case True
    then obtain x where x: "m = Some x" "module_type x \<noteq> []" "\<not> has_key acc (module_type x)"
      "collect_module owner name m acc = Inr (put (module_type x) (entry_of owner name x) acc)"
      by (metis collect_module_Inr)
    then show ?thesis
      using Cons.IH [OF wf_put_entry [OF Cons.prems x(2)]] by (auto simp: x(4) image_iff split: if_splits)
  next
    case False
    then obtain e where "collect_module owner name m acc = Inl e"
      by (cases "collect_module owner name m acc") auto
    moreover have "\<not> (\<exists>x. m = Some x \<and> module_type x \<noteq> [] \<and> \<not> has_key acc (module_type x))"
      using False collect_module_Inr [of owner name m acc] by blast
    ultimately show ?thesis by auto
  qed
qed

lemma collect_result:
  assumes "wf_registry acc" and "each (collect_module owner name) modules acc = Inr out"
  shows "wf_registry out \<and>
      (\<forall>t. get out t = (case find_first (\<lambda>m. module_type (the m) = t) modules of
         Some m \<Rightarrow> Some (entry_of owner name (the m)) | None \<Rightarrow> get acc t))"
  using assms
proof (induction modules arbitrary: acc)
  case Nil
  then show ?case by simp
next
  case (Cons m modules)
  then obtain x where x: "m = Some x" "module_type x \<noteq> []" "\<not> has_key acc (module_type x)"
    and r: "each (collect_module owner name) modules (put (module_type x) (entry_of owner name x) acc) = Inr out"
    by (auto simp: ok_then_Inr collect_module_Inr)
  note wf = wf_put_entry [OF Cons.prems(1) x(2)]
  have "is_ok (each (collect_module owner name) modules (put (module_type x) (entry_of owner name x) acc))"
    using r by simp
  then have "find_first (\<lambda>m. module_type (the m) = module_type x) modules = None"
    using collect_ok_iff [OF wf] by (auto simp: find_first_None)
  with Cons.IH [OF wf r] x(1) show ?case by (auto split: option.split)
qed

lemma wf_NewRegistry [simp, wf_intros]: "wf_registry []"
  by (simp add: wf_registry_def)

text \<open>A successful replacement: every new type, and of the other owners everything as before.\<close>

lemma owned_by_other_None:
  "owned_by_other owner r t = None \<longleftrightarrow> (\<forall>e. get r t = Some e \<longrightarrow> rg_owner e = owner)"
  by (auto simp: owned_by_other_def split: option.splits)

lemma first_conflict_None:
  "first_conflict owner r ts = None \<longleftrightarrow> (\<forall>t \<in> set ts. owned_by_other owner r t = None)"
  by (auto simp: first_conflict_def find_first_None split: option.splits dest!: find_first_Some)

lemma replace_result:
  assumes "wf_registry r" and "ReplaceOwnerAs owner name modules r = Inr r'"
  obtains out where "each (collect_module owner name) modules [] = Inr out"
    "first_conflict owner r (map fst out) = None"
    "wf_registry r'"
    "\<And>t. get r' t = (case get out t of Some e \<Rightarrow> Some e
       | None \<Rightarrow> (case get r t of None \<Rightarrow> None | Some e \<Rightarrow> if rg_owner e = owner then None else Some e))"
proof -
  obtain out where out: "each (collect_module owner name) modules [] = Inr out"
    and nc: "first_conflict owner r (map fst out) = None"
    and r': "r' = put_all out (RemoveOwner owner r)"
    using assms(2) unfolding ReplaceOwnerAs_def ok_then_Inr
    by (auto split: option.split_asm prod.split_asm) (metis not_None_eq surj_pair)
  have wf: "wf_registry out" using collect_result [OF wf_NewRegistry out] by simp
  then have wfm: "wf_map out" "wf_map r" using assms(1) by (simp_all add: wf_registry_def)
  have g: "get r' t = (case get out t of Some e \<Rightarrow> Some e
       | None \<Rightarrow> (case get r t of None \<Rightarrow> None | Some e \<Rightarrow> if rg_owner e = owner then None else Some e))" for t
    by (simp add: r' get_put_all [OF wfm(1)] get_RemoveOwner [OF wfm(2)] split: option.split)
  have "wf_registry r'"
  proof (rule wf_registryI)
    show "wf_map r'" using wfm by (simp add: r' RemoveOwner_def)
  next
    fix t e assume "get r' t = Some e"
    then show "t = module_type (rg_module e) \<and> t \<noteq> []"
      using wf_registry_get [OF wf] wf_registry_get [OF assms(1)]
      by (auto simp: g split: option.splits if_splits)
  qed
  with out nc g that show ?thesis by blast
qed

subsection \<open>What the registry promises its owners\<close>

lemma validate_types_iff:
  "is_ok (validate_types owner r seen ts) \<longleftrightarrow>
   [] \<notin> set ts \<and> distinct ts \<and> set ts \<inter> set seen = {} \<and> (\<forall>t \<in> set ts. owned_by_other owner r t = None)"
  by (induction ts arbitrary: seen) (auto split: option.split)

text \<open>
  The dry run agrees with the real one: \<open>ValidateReplaceOwner\<close> on the types of the modules
  succeeds exactly when \<open>ReplaceOwnerAs\<close> with the modules does, so that a plugin that
  passed the check before it is started cannot fail to register afterwards.
\<close>

theorem validate_agrees_with_replace:
  "is_ok (ValidateReplaceOwner owner (map module_type ms) r) =
   is_ok (ReplaceOwnerAs owner ownerName (map Some ms) r)"
proof (cases "\<exists>out. each (collect_module owner ownerName) (map Some ms) [] = Inr out")
  case False
  then have "\<not> is_ok (each (collect_module owner ownerName) (map Some ms) [])" by (auto simp: is_ok_iff)
  then have "[] \<in> set (map module_type ms) \<or> \<not> distinct (map module_type ms)"
    by (auto simp: collect_ok_iff comp_def image_iff) (metis)?
  moreover from False have "\<not> is_ok (ReplaceOwnerAs owner ownerName (map Some ms) r)"
    by (auto simp: ReplaceOwnerAs_def is_ok_iff ok_then_Inr)
  ultimately show ?thesis by (auto simp: ValidateReplaceOwner_def validate_types_iff)
next
  case True
  then obtain out where out: "each (collect_module owner ownerName) (map Some ms) [] = Inr out" by blast
  then have ok: "[] \<notin> set (map module_type ms)" "distinct (map module_type ms)"
    using collect_ok_iff [OF wf_NewRegistry, of owner ownerName "map Some ms"] by (auto simp: comp_def)
  have "t \<in> set (map fst out) \<longleftrightarrow> t \<in> set (map module_type ms)" for t
  proof -
    have "t \<in> set (map fst out) \<longleftrightarrow> get out t \<noteq> None" by (simp add: map_of_eq_None_iff)
    also have "\<dots> \<longleftrightarrow> find_first (\<lambda>m. module_type (the m) = t) (map Some ms) \<noteq> None"
      using collect_result [OF wf_NewRegistry out] by (auto split: option.splits)
    also have "\<dots> \<longleftrightarrow> t \<in> set (map module_type ms)" by (auto simp: find_first_None)
    finally show ?thesis .
  qed
  then have "set (map fst out) = set (map module_type ms)" by blast
  then have "first_conflict owner r (map fst out) = None \<longleftrightarrow>
      (\<forall>t \<in> set (map module_type ms). owned_by_other owner r t = None)"
    by (simp add: first_conflict_None del: set_map)
  then show ?thesis
    using ok by (auto simp: ReplaceOwnerAs_def out ValidateReplaceOwner_def validate_types_iff
        simp del: set_map split: option.split)
qed

text \<open>
  A replacement that succeeds leaves the owner with exactly the modules it named, each
  found under its own type, takes away its other types, and changes nothing that
  belongs to anyone else.
\<close>

theorem replace_owner_effect:
  assumes "wf_registry r" and "ReplaceOwnerAs owner ownerName (map Some ms) r = Inr r'"
  shows "wf_registry r' \<and>
    (\<forall>t. Owner t r' = Some owner \<longleftrightarrow> t \<in> set (map module_type ms)) \<and>
    (\<forall>m \<in> set ms. Get (module_type m) r' = Some m) \<and>
    (\<forall>t other. other \<noteq> owner \<longrightarrow> Owner t r = Some other \<longrightarrow> get r' t = get r t)"
proof -
  from replace_result [OF assms] obtain out where
    out: "each (collect_module owner ownerName) (map Some ms) [] = Inr out" and
    nc: "first_conflict owner r (map fst out) = None" and wf: "wf_registry r'" and
    g: "\<And>t. get r' t = (case get out t of Some e \<Rightarrow> Some e
       | None \<Rightarrow> (case get r t of None \<Rightarrow> None | Some e \<Rightarrow> if rg_owner e = owner then None else Some e))"
    by blast
  have o: "get out t = map_option (\<lambda>m. entry_of owner ownerName (the m))
      (find_first (\<lambda>m. module_type (the m) = t) (map Some ms))" for t
    using collect_result [OF wf_NewRegistry out] by (auto split: option.splits)
  have dist: "distinct (map module_type ms)"
    using collect_ok_iff [OF wf_NewRegistry, of owner ownerName "map Some ms"] out by (auto simp: comp_def)
  have own: "Owner t r' = Some owner \<longleftrightarrow> t \<in> set (map module_type ms)" for t
  proof (cases "find_first (\<lambda>m. module_type (the m) = t) (map Some ms)")
    case None
    then have "t \<notin> set (map module_type ms)" by (auto simp: find_first_None)
    then show ?thesis using None by (auto simp: Owner_def g o split: option.splits)
  next
    case (Some m)
    then have "t \<in> set (map module_type ms)" using find_first_Some [OF Some] by auto
    then show ?thesis using Some by (auto simp: Owner_def g o entry_of_def)
  qed
  have mod: "Get (module_type m) r' = Some m" if "m \<in> set ms" for m
  proof -
    have "find_first (\<lambda>n. module_type (the n) = module_type m) (map Some ms) \<noteq> None"
      using that by (auto simp: find_first_None)
    then obtain n where n: "find_first (\<lambda>n. module_type (the n) = module_type m) (map Some ms) = Some n"
      by blast
    from find_first_Some [OF n] obtain k where "n = Some k" "k \<in> set ms" "module_type k = module_type m"
      by auto
    with dist that have "n = Some m" by (auto simp: distinct_map dest: inj_onD)
    with n show ?thesis by (simp add: Get_def g o entry_of_def)
  qed
  have "get r' t = get r t" if h: "other \<noteq> owner" "Owner t r = Some other" for t other
  proof -
    obtain e where e: "get r t = Some e" "rg_owner e = other" using h by (auto simp: Owner_def)
    have "get out t = None"
    proof (rule ccontr)
      assume "get out t \<noteq> None"
      then have "t \<in> set (map fst out)" by (simp add: map_of_eq_None_iff)
      with nc e h show False by (auto simp: first_conflict_None owned_by_other_None)
    qed
    with e h show ?thesis by (simp add: g)
  qed
  with wf own mod show ?thesis by blast
qed

definition test_module :: "string \<Rightarrow> mon_module" where
  "test_module t = \<lparr>mm_descriptor = \<lparr>md_type = t, md_version = ''1'', md_config_version = ''1'',
       md_result_schema_version = ''1'', md_plugin_id = [], md_plugin_name = [], md_name = t,
       md_description = [], md_fields = [], md_result_sets = []\<rparr>,
     mm_validate = (\<lambda>_. None),
     mm_execute = (\<lambda>_. (\<lparr>ob_success = True, ob_schema_version = ''1'', ob_result = None, ob_result_sets = [],
        ob_summary = ''ok'', ob_error_code = [], ob_error_message = []\<rparr>, None))\<rparr>"

lemma replace_owner_effect_witness:
  "Owner ''http'' [(''tcp'', entry_of ''p'' ''P'' (test_module ''tcp''))] = None \<and>
   (\<exists>r'. ReplaceOwnerAs ''p'' ''P'' (map Some [test_module ''http''])
      [(''tcp'', entry_of ''p'' ''P'' (test_module ''tcp''))] = Inr r' \<and> Owner ''http'' r' = Some ''p'')"
proof -
  let ?r = "[(''tcp'', entry_of ''p'' ''P'' (test_module ''tcp''))]"
  let ?r' = "[(''http'', entry_of ''p'' ''P'' (test_module ''http''))]"
  have wf: "wf_registry ?r" by (simp add: wf_registry_def wf_map_def entry_of_def test_module_def)
  have e: "ReplaceOwnerAs ''p'' ''P'' (map Some [test_module ''http'']) ?r = Inr ?r'"
    by (simp add: ReplaceOwnerAs_def collect_module_def test_module_def first_conflict_def
        owned_by_other_def RemoveOwner_def entry_of_def)
  have m: "module_type (test_module t) = t" for t by (simp add: test_module_def)
  have "Owner ''http'' ?r' = Some ''p''"
    using conjunct1 [OF conjunct2 [OF replace_owner_effect [OF wf e]], THEN spec, of "''http''"]
    by (simp add: m)
  moreover have "Owner ''http'' ?r = None" by (simp add: Owner_def)
  ultimately show ?thesis using e by blast
qed

subsection \<open>Owners do not disturb each other\<close>

text \<open>
  A store whose entries have owners, and whose every operation is done for one owner. Its two
  laws say that an operation can neither take away nor take over what belongs to another.
\<close>

locale owned_store =
  fixes act :: "'o \<Rightarrow> 's \<Rightarrow> 's \<Rightarrow> bool"
    and view :: "'s \<Rightarrow> 'k \<Rightarrow> ('o \<times> 'm) option"
    and valid :: "'s \<Rightarrow> bool"
  assumes keeps: "valid s \<Longrightarrow> act o1 s s' \<Longrightarrow> view s k = Some (o2, m) \<Longrightarrow> o2 \<noteq> o1 \<Longrightarrow> view s' k = Some (o2, m)"
    and no_forgery: "valid s \<Longrightarrow> act o1 s s' \<Longrightarrow> view s' k = Some (o2, m) \<Longrightarrow> o2 \<noteq> o1 \<Longrightarrow> view s k = Some (o2, m)"
    and valid_act: "valid s \<Longrightarrow> act o1 s s' \<Longrightarrow> valid s'"
begin

text \<open>A run: the owners that act, one after the other.\<close>

inductive run :: "'o list \<Rightarrow> 's \<Rightarrow> 's \<Rightarrow> bool" where
  stop: "run [] s s"
| step: "act o1 s t \<Longrightarrow> run os t u \<Longrightarrow> run (o1 # os) s u"

lemma run_valid: "run os s u \<Longrightarrow> valid s \<Longrightarrow> valid u"
  by (induction rule: run.induct) (auto intro: valid_act)

lemma isolated:
  assumes "run os s u" and "valid s" and "o2 \<notin> set os"
  shows "(\<exists>m. view s k = Some (o2, m) \<and> view u k = Some (o2, m)) \<or>
    ((\<nexists>m. view s k = Some (o2, m)) \<and> (\<nexists>m. view u k = Some (o2, m)))"
  using assms
proof (induction rule: run.induct)
  case (stop s)
  then show ?case by blast
next
  case (step o1 s t os u)
  have v: "valid t" using step.prems(1) step.hyps(1) by (rule valid_act)
  from step.prems(2) have ne: "o2 \<noteq> o1" "o2 \<notin> set os" by auto
  have "view s k = Some (o2, m) \<longleftrightarrow> view t k = Some (o2, m)" for m
    using keeps [OF step.prems(1) step.hyps(1) _ ne(1)] no_forgery [OF step.prems(1) step.hyps(1) _ ne(1)]
    by blast
  with step.IH [OF v ne(2)] show ?case by simp
qed

end

text \<open>The registry's operations on behalf of an owner.\<close>

inductive registry_act :: "string \<Rightarrow> registry \<Rightarrow> registry \<Rightarrow> bool" where
  register: "RegisterOwnedAs owner name m r = Inr r' \<Longrightarrow> registry_act owner r r'"
| replace: "ReplaceOwnerAs owner name ms r = Inr r' \<Longrightarrow> registry_act owner r r'"
| remove: "registry_act owner r (RemoveOwner owner r)"

definition owned_view :: "registry \<Rightarrow> string \<Rightarrow> (string \<times> mon_module) option" where
  "owned_view r t = map_option (\<lambda>e. (rg_owner e, rg_module e)) (get r t)"

lemma register_Inr:
  "RegisterOwnedAs owner name m r = Inr r' \<Longrightarrow> \<exists>x. m = Some x \<and> module_type x \<noteq> [] \<and>
   owned_by_other owner r (module_type x) = None \<and> r' = put (module_type x) (entry_of owner name x) r"
  by (auto simp: RegisterOwnedAs_def entry_of_def split: option.split_asm if_split_asm)

lemma registry_act_wf: "wf_registry r \<Longrightarrow> registry_act owner r r' \<Longrightarrow> wf_registry r'"
  by (erule registry_act.cases)
    (auto dest!: register_Inr intro: wf_put_entry wf_RemoveOwner elim: replace_result)

text \<open>What one operation does to an entry of another owner: nothing, in either direction.\<close>

lemma registry_act_other:
  assumes "wf_registry r" and "registry_act owner r r'" and "other \<noteq> owner"
  shows "owned_view r t = Some (other, m) \<longleftrightarrow> owned_view r' t = Some (other, m)"
  using assms(2)
proof cases
  case (register name m)
  from register_Inr [OF this] obtain x where x: "owned_by_other owner r (module_type x) = None"
    "r' = put (module_type x) (entry_of owner name x) r" by blast
  then show ?thesis
    using assms(3) by (auto simp: owned_view_def owned_by_other_None entry_of_def)
next
  case (replace name ms)
  from replace_result [OF assms(1) this] obtain out where
    out: "each (collect_module owner name) ms [] = Inr out" and
    nc: "first_conflict owner r (map fst out) = None" and
    g: "\<And>t. get r' t = (case get out t of Some e \<Rightarrow> Some e
       | None \<Rightarrow> (case get r t of None \<Rightarrow> None | Some e \<Rightarrow> if rg_owner e = owner then None else Some e))"
    by blast
  show ?thesis
  proof (cases "get out t")
    case None
    then show ?thesis using assms(3) by (auto simp: owned_view_def g split: option.splits)
  next
    case (Some e)
    have "rg_owner e = owner"
      using Some collect_result [OF wf_NewRegistry out] by (auto simp: entry_of_def split: option.splits)
    moreover have "t \<in> set (map fst out)" using Some by (force dest!: map_of_SomeD)
    ultimately show ?thesis
      using nc assms(3) by (auto simp: owned_view_def g Some first_conflict_None owned_by_other_None)
  qed
next
  case remove
  then show ?thesis
    using assms by (auto simp: owned_view_def get_RemoveOwner wf_registry_def split: option.splits)
qed

interpretation modules: owned_store registry_act owned_view wf_registry
  by unfold_locales (auto simp: registry_act_wf registry_act_other)

text \<open>
  C40: Plugins cannot disturb each other's modules: after any sequence of registrations,
  replacements and removals by other owners, an owner has exactly the modules it had.
\<close>

theorem owners_isolated:
  assumes "modules.run owners r r'" and "wf_registry r" and "owner \<notin> set owners"
  shows "(owned_view r t = Some (owner, m)) = (owned_view r' t = Some (owner, m))"
  using modules.isolated [OF assms, of t] by auto

lemma owners_isolated_witness:
  "owned_view (RemoveOwner ''p'' [(''tcp'', entry_of ''q'' ''Q'' (test_module ''tcp''))]) ''tcp'' =
     Some (''q'', test_module ''tcp'')"
proof -
  let ?r = "[(''tcp'', entry_of ''q'' ''Q'' (test_module ''tcp''))]"
  have "modules.run [''p''] ?r (RemoveOwner ''p'' ?r)"
    by (rule modules.run.step [OF registry_act.remove modules.run.stop])
  moreover have "wf_registry ?r" by (simp add: wf_registry_def wf_map_def entry_of_def test_module_def)
  moreover have "owned_view ?r ''tcp'' = Some (''q'', test_module ''tcp'')" by (simp add: owned_view_def entry_of_def)
  ultimately show ?thesis
    using owners_isolated [of "[''p'']" ?r _ "''q''" "''tcp''" "test_module ''tcp''"] by simp
qed

end
