(* ===== verification/Gate.thy ===== *)
theory Gate
  imports Prelude
begin

section \<open>Stopping a plugin while its modules run (internal/monitor/remote.go)\<close>

text \<open>
  \<open>ExecutionGate\<close> counts the executions in flight, so that a plugin process is closed only
  when none is left. \<open>remoteModule.Execute\<close> first loads \<open>accepting\<close> and then adds itself to
  the wait group: two atomic actions between which other goroutines run. The model is a
  state with one program counter per call and one for the goroutine that stops the plugin;
  an action is one atomic action of one goroutine, and an interleaving is a list of actions.
\<close>

datatype call = Idle | Accepted | Running | Refused | Returned

datatype stopper = Serving | Stopping | Drained

record gate =
  gt_accepting :: bool
  gt_inflight :: nat
  gt_calls :: "call list"
  gt_stopper :: stopper

datatype gate_action = Load nat | Add nat | Done nat | Stop | Wait | Start

definition NewExecutionGate :: "nat \<Rightarrow> gate" where
  "NewExecutionGate n =
     \<lparr>gt_accepting = True, gt_inflight = 0, gt_calls = replicate n Idle, gt_stopper = Serving\<rparr>"

definition at_call :: "gate \<Rightarrow> nat \<Rightarrow> call \<Rightarrow> bool" where
  "at_call g i c \<longleftrightarrow> i < length (gt_calls g) \<and> gt_calls g ! i = c"

definition set_call :: "nat \<Rightarrow> call \<Rightarrow> gate \<Rightarrow> gate" where
  "set_call i c g = g\<lparr>gt_calls := (gt_calls g)[i := c]\<rparr>"

text \<open>
  One atomic action; \<open>None\<close> where the goroutine is not at that point, or blocks:
  \<open>Wait\<close> returns only when the count is zero.
\<close>

fun gate_step :: "gate_action \<Rightarrow> gate \<Rightarrow> gate option" where
  "gate_step (Load i) g =
     (if at_call g i Idle then Some (set_call i (if gt_accepting g then Accepted else Refused) g) else None)"
| "gate_step (Add i) g =
     (if at_call g i Accepted then Some (set_call i Running (g\<lparr>gt_inflight := gt_inflight g + 1\<rparr>)) else None)"
| "gate_step (Done i) g =
     (if at_call g i Running then Some (set_call i Returned (g\<lparr>gt_inflight := gt_inflight g - 1\<rparr>)) else None)"
| "gate_step Stop g =
     (if gt_stopper g \<noteq> Stopping then Some (g\<lparr>gt_accepting := False, gt_stopper := Stopping\<rparr>) else None)"
| "gate_step Wait g =
     (if gt_stopper g = Stopping \<and> gt_inflight g = 0 then Some (g\<lparr>gt_stopper := Drained\<rparr>) else None)"
| "gate_step Start g =
     (if gt_stopper g = Drained then Some (g\<lparr>gt_accepting := True, gt_stopper := Serving\<rparr>) else None)"

fun gate_exec :: "gate_action list \<Rightarrow> gate \<Rightarrow> gate option" where
  "gate_exec [] g = Some g"
| "gate_exec (a # as) g = (case gate_step a g of None \<Rightarrow> None | Some h \<Rightarrow> gate_exec as h)"

lemma gate_exec_append:
  "gate_exec (xs @ ys) g = (case gate_exec xs g of None \<Rightarrow> None | Some h \<Rightarrow> gate_exec ys h)"
  by (induction xs arbitrary: g) (auto split: option.split)

lemma gate_exec_induct [consumes 2, case_names step]:
  assumes "gate_exec as g = Some h" and "P g"
    and "\<And>a g h. a \<in> set as \<Longrightarrow> gate_step a g = Some h \<Longrightarrow> P g \<Longrightarrow> P h"
  shows "P h"
  using assms
proof (induction as arbitrary: g)
  case Nil
  then show ?case by simp
next
  case (Cons a as)
  then obtain k where "gate_step a g = Some k" "gate_exec as k = Some h" by (auto split: option.splits)
  with Cons show ?case by (metis list.set_intros)
qed

subsection \<open>The count of calls in flight\<close>

abbreviation running :: "gate \<Rightarrow> nat" where
  "running g \<equiv> count_list (gt_calls g) Running"

lemma count_list_pos: "x \<in> set xs \<Longrightarrow> 0 < count_list xs x"
  by (metis count_list_0_iff neq0_conv)

lemma count_list_update:
  "i < length xs \<Longrightarrow> xs ! i \<noteq> x \<Longrightarrow> count_list (xs[i := x]) x = Suc (count_list xs x)"
  "i < length xs \<Longrightarrow> xs ! i = x \<Longrightarrow> y \<noteq> x \<Longrightarrow> count_list (xs[i := y]) x = count_list xs x - 1"
  "i < length xs \<Longrightarrow> xs ! i \<noteq> x \<Longrightarrow> y \<noteq> x \<Longrightarrow> count_list (xs[i := y]) x = count_list xs x"
proof -
  show "i < length xs \<Longrightarrow> xs ! i \<noteq> x \<Longrightarrow> count_list (xs[i := x]) x = Suc (count_list xs x)"
    by (induction xs arbitrary: i) (auto simp: nth_Cons split: nat.splits)
  show "i < length xs \<Longrightarrow> xs ! i \<noteq> x \<Longrightarrow> y \<noteq> x \<Longrightarrow> count_list (xs[i := y]) x = count_list xs x"
    by (induction xs arbitrary: i) (auto simp: nth_Cons split: nat.splits)
  show "i < length xs \<Longrightarrow> xs ! i = x \<Longrightarrow> y \<noteq> x \<Longrightarrow> count_list (xs[i := y]) x = count_list xs x - 1"
  proof (induction xs arbitrary: i)
    case (Cons z zs)
    then show ?case
      by (cases i) (auto simp: Suc_diff_le count_list_pos)
  qed simp
qed

definition gate_inv :: "gate \<Rightarrow> bool" where
  "gate_inv g \<longleftrightarrow> gt_inflight g = running g \<and> (gt_accepting g \<longleftrightarrow> gt_stopper g = Serving)"

lemma gate_inv_step: "gate_step a g = Some h \<Longrightarrow> gate_inv g \<Longrightarrow> gate_inv h"
  by (cases a) (auto simp: gate_inv_def at_call_def set_call_def count_list_update split: if_splits)

lemma gate_inv_exec: "gate_exec as g = Some h \<Longrightarrow> gate_inv g \<Longrightarrow> gate_inv h"
  by (induction rule: gate_exec_induct) (auto intro: gate_inv_step)

lemma gate_inv_new [simp]: "gate_inv (NewExecutionGate n)"
  by (simp add: gate_inv_def NewExecutionGate_def count_list_0_iff)


text \<open>
  The count never lies: in every state that any interleaving of calls, stops and restarts
  reaches, the wait group counts exactly the calls between \<open>Add\<close> and \<open>Done\<close>, and new
  calls are accepted exactly while nobody stops the plugin.
\<close>

theorem gate_count_exact:
  assumes "gate_exec as (NewExecutionGate n) = Some g"
  shows "gt_inflight g = running g \<and> (gt_accepting g \<longleftrightarrow> gt_stopper g = Serving)"
  using gate_inv_exec [OF assms gate_inv_new] by (simp add: gate_inv_def)

lemma gate_count_exact_witness:
  "gt_inflight (the (gate_exec [Load 0, Add 0] (NewExecutionGate 1))) = 1"
proof -
  let ?g = "\<lparr>gt_accepting = True, gt_inflight = 1, gt_calls = [Running], gt_stopper = Serving\<rparr>"
  have "gate_exec [Load 0, Add 0] (NewExecutionGate 1) = Some ?g"
    by (simp add: NewExecutionGate_def at_call_def set_call_def)
  from gate_count_exact [OF this] this show ?thesis by simp
qed

subsection \<open>What \<open>Wait\<close> does and does not promise\<close>

definition none_accepted :: "gate \<Rightarrow> bool" where
  "none_accepted g \<longleftrightarrow> Accepted \<notin> set (gt_calls g)"

definition quiet :: "gate \<Rightarrow> bool" where
  "quiet g \<longleftrightarrow> gate_inv g \<and> \<not> gt_accepting g \<and> none_accepted g \<and>
     (gt_stopper g = Drained \<longrightarrow> Running \<notin> set (gt_calls g))"

lemma set_list_update: "x \<in> set (xs[i := y]) \<Longrightarrow> x = y \<or> x \<in> set xs"
  by (metis insertE set_update_subset_insert subsetD)

lemma quiet_step:
  assumes "gate_step a g = Some h" and "quiet g" and "a \<noteq> Start"
  shows "quiet h"
proof -
  have inv: "gate_inv h" using gate_inv_step [OF assms(1)] assms(2) by (simp add: quiet_def)
  have na: "\<not> at_call g i Accepted" for i
    using assms(2) by (auto simp: quiet_def none_accepted_def at_call_def dest: nth_mem)
  have nr: "gt_inflight g = 0 \<Longrightarrow> Running \<notin> set (gt_calls g)"
    using assms(2) by (simp add: quiet_def gate_inv_def count_list_0_iff)
  show ?thesis
    using assms inv na nr
    by (cases a) (auto simp: quiet_def none_accepted_def set_call_def dest!: set_list_update split: if_splits)
qed

lemma quiet_exec: "gate_exec bs g = Some h \<Longrightarrow> quiet g \<Longrightarrow> Start \<notin> set bs \<Longrightarrow> quiet h"
proof (induction bs arbitrary: g)
  case (Cons a bs)
  then obtain k where k: "gate_step a g = Some k" "gate_exec bs k = Some h" by (auto split: option.splits)
  with Cons quiet_step [OF k(1)] show ?case by auto
qed simp

text \<open>
  C34: Stopping works when no call stands between the check and the count: once \<open>Stop\<close> has been
  executed at such a moment, then whatever the other goroutines do, no call is running
  after \<open>Wait\<close> has returned, until the plugin is started again.
\<close>

theorem gate_drains:
  assumes "gate_exec as (NewExecutionGate n) = Some g" and "none_accepted g"
    and "gate_exec (Stop # bs) g = Some h" and "Start \<notin> set bs" and "gt_stopper h = Drained"
  shows "Running \<notin> set (gt_calls h) \<and> Accepted \<notin> set (gt_calls h)"
proof -
  obtain k where k: "gate_step Stop g = Some k" "gate_exec bs k = Some h"
    using assms(3) by (auto split: option.splits)
  have "gate_inv g" using gate_inv_exec [OF assms(1) gate_inv_new] .
  with k(1) gate_inv_step [OF k(1)] assms(2) have "quiet k"
    by (auto simp: quiet_def none_accepted_def split: if_splits)
  with k(2) have "quiet h" using assms(4) quiet_exec by blast
  with assms(5) show ?thesis by (simp add: quiet_def none_accepted_def)
qed

lemma gate_drains_witness:
  "Running \<notin> set (gt_calls (the (gate_exec [Stop, Done 0, Wait, Load 1]
     (the (gate_exec [Load 0, Add 0] (NewExecutionGate 2))))))"
proof -
  let ?g = "\<lparr>gt_accepting = True, gt_inflight = 1, gt_calls = [Running, Idle], gt_stopper = Serving\<rparr>"
  let ?h = "\<lparr>gt_accepting = False, gt_inflight = 0, gt_calls = [Returned, Refused], gt_stopper = Drained\<rparr>"
  have g: "gate_exec [Load 0, Add 0] (NewExecutionGate 2) = Some ?g"
    by (simp add: NewExecutionGate_def at_call_def set_call_def numeral_2_eq_2)
  have h: "gate_exec [Stop, Done 0, Wait, Load 1] ?g = Some ?h"
    by (simp add: at_call_def set_call_def)
  have "none_accepted ?g" by (simp add: none_accepted_def)
  from gate_drains [OF g this h] show ?thesis unfolding g option.sel h by simp
qed

text \<open>
  C33: The check and the count are not atomic: a call that loaded \<open>accepting\<close> before \<open>Stop\<close>
  and adds itself after \<open>Wait\<close> has returned runs against the plugin that is being closed.
  This happens exactly when a call stands between the two at the time of \<open>Wait\<close>.
\<close>

theorem gate_race:
  "(\<exists>bs h. gate_exec bs g = Some h \<and> Start \<notin> set bs \<and> gt_stopper h = Drained \<and> Running \<in> set (gt_calls h)) \<longleftrightarrow>
   Accepted \<in> set (gt_calls g)"
  if "gate_inv g" and "gt_stopper g = Drained" and "Running \<notin> set (gt_calls g)"
proof
  assume "Accepted \<in> set (gt_calls g)"
  then obtain i where i: "at_call g i Accepted" by (auto simp: in_set_conv_nth at_call_def)
  let ?h = "set_call i Running (g\<lparr>gt_inflight := gt_inflight g + 1\<rparr>)"
  have "gate_exec [Add i] g = Some ?h" using i by simp
  moreover have "gt_stopper ?h = Drained" using that(2) by (simp add: set_call_def)
  moreover have "Running \<in> set (gt_calls ?h)" using i by (simp add: set_call_def at_call_def set_update_memI)
  moreover have "Start \<notin> set [Add i]" by simp
  ultimately show "\<exists>bs h. gate_exec bs g = Some h \<and> Start \<notin> set bs \<and> gt_stopper h = Drained \<and>
      Running \<in> set (gt_calls h)" by blast
next
  assume "\<exists>bs h. gate_exec bs g = Some h \<and> Start \<notin> set bs \<and> gt_stopper h = Drained \<and> Running \<in> set (gt_calls h)"
  then obtain bs h where b: "gate_exec bs g = Some h" "Start \<notin> set bs" "Running \<in> set (gt_calls h)"
    "gt_stopper h = Drained" by blast
  show "Accepted \<in> set (gt_calls g)"
  proof (rule ccontr)
    assume "Accepted \<notin> set (gt_calls g)"
    then have "quiet g" using that by (simp add: quiet_def none_accepted_def gate_inv_def)
    with b(1,2) have "quiet h" using quiet_exec by blast
    with b show False by (simp add: quiet_def)
  qed
qed

lemma gate_race_witness:
  "\<exists>bs h. gate_exec bs (the (gate_exec [Load 0, Stop, Wait] (NewExecutionGate 1))) = Some h \<and>
     Start \<notin> set bs \<and> gt_stopper h = Drained \<and> Running \<in> set (gt_calls h)"
proof -
  let ?g = "\<lparr>gt_accepting = False, gt_inflight = 0, gt_calls = [Accepted], gt_stopper = Drained\<rparr>"
  have g: "gate_exec [Load 0, Stop, Wait] (NewExecutionGate 1) = Some ?g"
    by (simp add: NewExecutionGate_def at_call_def set_call_def)
  show ?thesis
    unfolding g option.sel using gate_inv_exec [OF g gate_inv_new] gate_race [of ?g] by simp
qed

subsection \<open>Stopping ends\<close>

text \<open>The goroutines that are running return one after the other, and \<open>Wait\<close> can return.\<close>

definition drain_schedule :: "gate \<Rightarrow> gate_action list" where
  "drain_schedule g = map Done (filter (\<lambda>i. gt_calls g ! i = Running) [0..<length (gt_calls g)]) @ [Wait]"

lemma done_all:
  assumes "gate_inv g" and "distinct is" and "\<forall>i \<in> set is. at_call g i Running"
  shows "\<exists>h. gate_exec (map Done is) g = Some h \<and> gate_inv h \<and> gt_stopper h = gt_stopper g \<and>
    length (gt_calls h) = length (gt_calls g) \<and>
    (\<forall>i < length (gt_calls g). gt_calls h ! i = (if i \<in> set is then Returned else gt_calls g ! i))"
  using assms
proof (induction "is" arbitrary: g)
  case Nil
  then show ?case by simp
next
  case (Cons i "is")
  let ?k = "set_call i Returned (g\<lparr>gt_inflight := gt_inflight g - 1\<rparr>)"
  have s: "gate_step (Done i) g = Some ?k" using Cons.prems by simp
  have "\<forall>j \<in> set is. at_call ?k j Running" using Cons.prems by (auto simp: at_call_def set_call_def nth_list_update)
  then obtain h where "gate_exec (map Done is) ?k = Some h" "gate_inv h" "gt_stopper h = gt_stopper ?k"
    "length (gt_calls h) = length (gt_calls ?k)"
    "\<forall>j < length (gt_calls ?k). gt_calls h ! j = (if j \<in> set is then Returned else gt_calls ?k ! j)"
    using Cons.IH [OF gate_inv_step [OF s Cons.prems(1)]] Cons.prems(2) by auto
  with s Cons.prems show ?case
    by (intro exI [of _ h]) (auto simp: set_call_def nth_list_update at_call_def)
qed

text \<open>
  Stopping a plugin is not blocked by the gate: in every reachable state in which it is
  being stopped, the calls that are running can return and \<open>Wait\<close> then returns.
\<close>

theorem gate_stop_completes:
  assumes "gate_exec as (NewExecutionGate n) = Some g" and "gt_stopper g = Stopping"
  shows "\<exists>h. gate_exec (drain_schedule g) g = Some h \<and> gt_stopper h = Drained"
proof -
  let ?is = "filter (\<lambda>i. gt_calls g ! i = Running) [0..<length (gt_calls g)]"
  have inv: "gate_inv g" using gate_inv_exec [OF assms(1) gate_inv_new] .
  have "\<forall>i \<in> set ?is. at_call g i Running" by (auto simp: at_call_def)
  with done_all [OF inv, of ?is] obtain h where h: "gate_exec (map Done ?is) g = Some h" "gate_inv h"
    "gt_stopper h = Stopping" "length (gt_calls h) = length (gt_calls g)"
    "\<forall>i < length (gt_calls g). gt_calls h ! i = (if i \<in> set ?is then Returned else gt_calls g ! i)"
    using assms(2) by auto
  have "Running \<notin> set (gt_calls h)"
    using h(4,5) by (auto simp: in_set_conv_nth)
  then have "gt_inflight h = 0" using h(2) by (simp add: gate_inv_def count_list_0_iff)
  with h show ?thesis by (simp add: drain_schedule_def gate_exec_append)
qed

lemma gate_stop_completes_witness:
  "\<exists>h. gate_exec (drain_schedule (the (gate_exec [Load 0, Add 0, Stop] (NewExecutionGate 1))))
     (the (gate_exec [Load 0, Add 0, Stop] (NewExecutionGate 1))) = Some h \<and> gt_stopper h = Drained"
proof -
  let ?g = "\<lparr>gt_accepting = False, gt_inflight = 1, gt_calls = [Running], gt_stopper = Stopping\<rparr>"
  have g: "gate_exec [Load 0, Add 0, Stop] (NewExecutionGate 1) = Some ?g"
    by (simp add: NewExecutionGate_def at_call_def set_call_def)
  show ?thesis unfolding g option.sel using gate_stop_completes [OF g] by simp
qed

end
