(* ===== verification/Edges.thy ===== *)
theory Edges
  imports Prelude
begin

section \<open>Edges of a verdict\<close>

text \<open>
  Two components turn the verdict of each execution into events: a trend rule of the status
  board and the condition of a monitor. Both keep one bit, whether the state is active, and
  report only its changes. This theory states that contract and what follows from it for
  any sequence of verdicts.
\<close>

datatype edge = Rise | Fall

locale edge_detector =
  fixes edge_step :: "string \<Rightarrow> bool \<Rightarrow> edge option \<times> bool"
  assumes verdict_true: "edge_step ''true'' a = (if a then None else Some Rise, True)"
    and verdict_false: "edge_step ''false'' a = (if a then Some Fall else None, False)"
    and verdict_other: "v \<noteq> ''true'' \<Longrightarrow> v \<noteq> ''false'' \<Longrightarrow> edge_step v a = (None, a)"
begin

fun edges :: "bool \<Rightarrow> string list \<Rightarrow> edge list \<times> bool" where
  "edges a [] = ([], a)"
| "edges a (v # vs) =
     (let (e, b) = edge_step v a; (es, c) = edges b vs
      in ((case e of None \<Rightarrow> es | Some x \<Rightarrow> x # es), c))"

lemma edge_step_cases:
  obtains "edge_step v a = (None, a)"
  | "v = ''true''" "\<not> a" "edge_step v a = (Some Rise, True)"
  | "v = ''false''" "a" "edge_step v a = (Some Fall, False)"
  using verdict_true [of a] verdict_false [of a] verdict_other [of v a]
  by (cases "v = ''true''"; cases "v = ''false''"; cases a) auto

text \<open>The events alternate, beginning with the one that leaves the present state.\<close>

fun alternating :: "edge \<Rightarrow> edge list \<Rightarrow> bool" where
  "alternating e [] = True"
| "alternating e (x # xs) = (x = e \<and> alternating (if e = Rise then Fall else Rise) xs)"

lemma alternate: "alternating (if a then Fall else Rise) (fst (edges a vs))"
proof (induction vs arbitrary: a)
  case (Cons v vs)
  show ?case
    by (cases rule: edge_step_cases [of v a])
      (use Cons.IH [of a] Cons.IH [of True] Cons.IH [of False] in \<open>auto split: prod.splits\<close>)
qed simp

lemma last_edge:
  "snd (edges a vs) = (if fst (edges a vs) = [] then a else last (fst (edges a vs)) = Rise)"
proof (induction vs arbitrary: a)
  case (Cons v vs)
  show ?case
    by (cases rule: edge_step_cases [of v a])
      (use Cons.IH [of a] Cons.IH [of True] Cons.IH [of False] in \<open>auto split: prod.splits\<close>)
qed simp

lemma alternating_nth:
  "alternating e xs \<Longrightarrow> (xs \<noteq> [] \<longrightarrow> hd xs = e) \<and> (\<forall>i. Suc i < length xs \<longrightarrow> xs ! i \<noteq> xs ! Suc i)"
proof (induction xs arbitrary: e)
  case (Cons x xs)
  then have "x = e" and xs: "(xs \<noteq> [] \<longrightarrow> hd xs = (if e = Rise then Fall else Rise))"
    "\<forall>i. Suc i < length xs \<longrightarrow> xs ! i \<noteq> xs ! Suc i" by auto
  have "(x # xs) ! i \<noteq> (x # xs) ! Suc i" if "Suc i < length (x # xs)" for i
    using that \<open>x = e\<close> xs by (cases i) (auto simp: hd_conv_nth split: if_splits)
  with \<open>x = e\<close> show ?case by simp
qed simp

lemma edges_alternate:
  "(fst (edges a vs) \<noteq> [] \<longrightarrow> hd (fst (edges a vs)) = (if a then Fall else Rise)) \<and>
   (\<forall>i. Suc i < length (fst (edges a vs)) \<longrightarrow> fst (edges a vs) ! i \<noteq> fst (edges a vs) ! Suc i)"
  by (rule alternating_nth [OF alternate])

text \<open>The state is the last verdict that was decided; without one it is the old state.\<close>

lemma active_decided:
  "snd (edges a vs) = (case filter (\<lambda>v. v = ''true'' \<or> v = ''false'') vs of
     [] \<Rightarrow> a | w # ws \<Rightarrow> last (w # ws) = ''true'')"
proof (induction vs rule: rev_induct)
  case (snoc v vs)
  have app: "snd (edges a (vs @ [v])) = snd (edge_step v (snd (edges a vs)))" for vs a v
    by (induction vs arbitrary: a) (simp_all add: case_prod_beta Let_def)
  show ?case
    using snoc by (cases "v = ''true''"; cases "v = ''false''")
      (auto simp: app verdict_true verdict_false verdict_other split: list.splits)
qed simp

end

end
