(* ===== verification/StatusService.thy ===== *)
theory StatusService
  imports StatusEval StoreCommit StoreAdmin Registry Edges
begin

section \<open>The status board service (internal/statusboard/service.go)\<close>

text \<open>
  The service checks and completes a status item before it is stored, computes the board
  that the web interface shows, and evaluates the items of a monitor after each of its
  executions. It reads the store and the module registry; its only state is theirs.
  \<open>core.NewID\<close> is a parameter that gives the identifier drawn at each place.
\<close>

datatype board_error =
    StoreError db_error
  | NameEmpty
  | HistoryRange
  | MonitorMissing
  | RuleMissing
  | FieldMissing
  | PathRequired
  | PathUnsupported
  | ValueTypeInvalid
  | SourceKindInvalid
  | ThresholdLevel
  | ThresholdLabel
  | ThresholdColor
  | OnlyLastUnbounded
  | LastMustBeUnbounded
  | NotIncreasing
  | DefaultLevelInvalid
  | DefaultColorInvalid
  | TooManyMappings
  | MappingError nat
  | RuleIDTwice
  | TrendInvalid string
  | ChannelMissing string

definition from_store :: "db_error + 'a \<Rightarrow> board_error + 'a" where
  "from_store r = (case r of Inl e \<Rightarrow> Inl (StoreError e) | Inr x \<Rightarrow> Inr x)"

definition or_error :: "board_error \<Rightarrow> db_error + 'a \<Rightarrow> board_error + 'a" where
  "or_error e r = (case r of Inl _ \<Rightarrow> Inl e | Inr x \<Rightarrow> Inr x)"

lemma from_store_Inr [simp]: "from_store r = Inr x \<longleftrightarrow> r = Inr x"
  by (simp add: from_store_def split: sum.split)

lemma store_results [simp]: "from_store (Inr x) = Inr x" "or_error e (Inr x) = Inr x" "or_error e (Inl d) = Inl e"
  by (simp_all add: from_store_def or_error_def)

lemma or_error_Inr [simp]: "or_error e r = Inr x \<longleftrightarrow> r = Inr x"
  by (simp add: or_error_def split: sum.split)

subsection \<open>Sources\<close>

record condition_source =
  cs_id :: string
  cs_label :: string

record result_source =
  qs_result_set :: string
  qs_result_label :: string
  qs_field :: string
  qs_label :: string
  qs_type :: string
  qs_unit :: string
  qs_path :: bool

record board_sources =
  bs_conditions :: "condition_source list"
  bs_results :: "result_source list"

definition monitor_descriptor :: "engine \<Rightarrow> registry \<Rightarrow> monitor \<Rightarrow> db \<Rightarrow> db_error + module_descriptor" where
  "monitor_descriptor en modules m db =
     (case Descriptor (mo_module_type m) modules of
        Some d \<Rightarrow> Inr d
      | None \<Rightarrow> GetDescriptorSnapshot en (mo_module_type m) (mo_module_version m) db)"

definition condition_sources :: "monitor \<Rightarrow> condition_source list" where
  "condition_sources m =
     \<lparr>cs_id = [], cs_label = txt_whole_condition\<rparr> #
     map (\<lambda>(i, rule). \<lparr>cs_id = rl_id rule,
            cs_label = txt_condition_n @ itoa (int i + 1) @ txt_dot @ rl_field rule @ '' '' @ rl_operator rule\<rparr>)
       (List.enumerate 0 (case mo_condition_config m of None \<Rightarrow> [] | Some c \<Rightarrow> cc_rules c))"

definition result_sources :: "module_descriptor \<Rightarrow> result_source list" where
  "result_sources d =
     concat (map (\<lambda>s. map (\<lambda>f. \<lparr>qs_result_set = st_key s, qs_result_label = st_label s,
            qs_field = rf_name f, qs_label = rf_label f, qs_type = rf_type f, qs_unit = rf_unit f,
            qs_path = rf_path f\<rparr>) (st_fields s)) (md_result_sets d))"

definition Sources :: "engine \<Rightarrow> registry \<Rightarrow> string \<Rightarrow> db \<Rightarrow> db_error + board_sources" where
  "Sources en modules mid db =
     ok_then (GetMonitor en mid db) (\<lambda>m.
     ok_then (monitor_descriptor en modules m db) (\<lambda>d.
     Inr \<lparr>bs_conditions = condition_sources m, bs_results = result_sources d\<rparr>))"

subsection \<open>Levels, colors and types\<close>

definition validStatusLevel :: "string \<Rightarrow> bool" where
  "validStatusLevel level \<longleftrightarrow> level = lv_success \<or> level = lv_warning \<or> level = lv_failure"

definition statusLevelLabel :: "string \<Rightarrow> string" where
  "statusLevelLabel level =
     (if level = lv_warning then txt_warning else if level = lv_failure then txt_failure else txt_normal)"

definition defaultStatusColor :: "string \<Rightarrow> string" where
  "defaultStatusColor level =
     (if level = lv_warning then ''amber'' else if level = lv_failure then ''red'' else ''green'')"

definition validStatusColor :: "string \<Rightarrow> bool" where
  "validStatusColor c \<longleftrightarrow>
     c \<in> set [''green'', ''lime'', ''yellow'', ''amber'', ''orange'', ''red'']"

definition normalizeValueType :: "string \<Rightarrow> string" where
  "normalizeValueType t =
     (if t = ''boolean'' then ''boolean''
      else if t = ''number'' \<or> t = ''integer'' then ''number''
      else if t = ''string'' \<or> t = ''text'' then ''text'' else [])"

definition validValueType :: "string \<Rightarrow> bool" where
  "validValueType t \<longleftrightarrow> t = ''boolean'' \<or> t = ''number'' \<or> t = ''text''"

definition isPrimitiveType :: "string \<Rightarrow> bool" where
  "isPrimitiveType t \<longleftrightarrow> normalizeValueType t \<noteq> []"

subsection \<open>Thresholds\<close>

definition check_threshold :: "threshold \<Rightarrow> board_error + threshold" where
  "check_threshold t =
     (if \<not> validStatusLevel (th_level t) then Inl ThresholdLevel
      else if trim_space (th_label t) = [] then Inl ThresholdLabel
      else if th_color t = [] then Inr (t\<lparr>th_color := defaultStatusColor (th_level t)\<rparr>)
      else if \<not> validStatusColor (th_color t) then Inl ThresholdColor
      else Inr t)"

definition not_above :: "f64 option \<Rightarrow> f64 \<Rightarrow> bool" where
  "not_above previous m = (case previous of None \<Rightarrow> False | Some p \<Rightarrow> f64_le m p)"

fun validate_bounds :: "f64 option \<Rightarrow> threshold list \<Rightarrow> board_error + threshold list" where
  "validate_bounds previous [] = Inr []"
| "validate_bounds previous (t # ts) =
     ok_then (check_threshold t) (\<lambda>u.
       (case th_maximum t of
          None \<Rightarrow> if ts \<noteq> [] then Inl OnlyLastUnbounded else Inr [u]
        | Some m \<Rightarrow>
            if ts = [] then Inl LastMustBeUnbounded
            else if not_above previous m then Inl NotIncreasing
            else ok_then (validate_bounds (Some m) ts) (\<lambda>us. Inr (u # us))))"

definition validateThresholds :: "threshold list \<Rightarrow> board_error + threshold list" where
  "validateThresholds ts = validate_bounds None ts"

subsection \<open>Value mappings\<close>

definition effective_match :: "value_mapping \<Rightarrow> string" where
  "effective_match m = (if vm_match_type m = [] then ''exact'' else vm_match_type m)"

definition complete_mapping :: "value_mapping \<Rightarrow> value_mapping" where
  "complete_mapping m =
     m\<lparr>vm_label := (if trim_space (vm_label m) = [] then statusLevelLabel (vm_level m) else vm_label m),
       vm_color := (if vm_color m = [] then defaultStatusColor (vm_level m) else vm_color m)\<rparr>"

definition mapping_ok :: "string \<Rightarrow> value_mapping \<Rightarrow> bool" where
  "mapping_ok vtype m \<longleftrightarrow>
     \<not> (vtype = ''number'' \<and> effective_match m \<noteq> ''exact'') \<and>
     \<not> (vtype = ''text'' \<and> effective_match m \<noteq> ''exact'' \<and> effective_match m \<noteq> ''regex'') \<and>
     validStatusLevel (vm_level m) \<and>
     (vm_color m = [] \<or> validStatusColor (vm_color m))"

text \<open>The key by which exact mappings must differ; \<open>None\<close> where there is an error.\<close>

definition mapping_key :: "string \<Rightarrow> value_mapping \<Rightarrow> string option" where
  "mapping_key vtype m =
     (if vtype = ''number''
      then (case parse_float (trim_space (vm_value m)) of
              Inl _ \<Rightarrow> None
            | Inr x \<Rightarrow> if is_nan x \<or> is_inf x then None else Some (''number:'' @ format_g x))
      else Some (''text:'' @ vm_value m))"

fun check_mappings ::
    "regex \<Rightarrow> string \<Rightarrow> nat \<Rightarrow> string list \<Rightarrow> value_mapping list \<Rightarrow> board_error + value_mapping list" where
  "check_mappings rx vtype n seen [] = Inr []"
| "check_mappings rx vtype n seen (m # ms) =
     (if \<not> mapping_ok vtype m then Inl (MappingError n)
      else if vtype = ''text'' \<and> effective_match m = ''regex'' then
        (if rx (vm_value m) = None then Inl (MappingError n)
         else ok_then (check_mappings rx vtype (n + 1) seen ms) (\<lambda>us. Inr (complete_mapping m # us)))
      else (case mapping_key vtype m of
          None \<Rightarrow> Inl (MappingError n)
        | Some k \<Rightarrow>
            if k \<in> set seen then Inl (MappingError n)
            else ok_then (check_mappings rx vtype (n + 1) (k # seen) ms)
              (\<lambda>us. Inr (complete_mapping m # us))))"

definition default_text_mapping :: value_mapping where
  "default_text_mapping = \<lparr>vm_value = [], vm_match_type = [], vm_level = lv_failure,
     vm_label = txt_no_value, vm_color = ''red''\<rparr>"

definition default_mappings :: "status_source \<Rightarrow> status_source" where
  "default_mappings s =
     (if ss_value_type s = ''text'' \<and> ss_mappings s = None
      then s\<lparr>ss_mappings := Some [default_text_mapping]\<rparr> else s)"

definition complete_default :: "status_source \<Rightarrow> status_source" where
  "complete_default s =
     (let level = (if ss_default_level s = [] then lv_success else ss_default_level s) in
      s\<lparr>ss_default_level := level,
        ss_default_label := (if trim_space (ss_default_label s) = [] then statusLevelLabel level
          else ss_default_label s),
        ss_default_color := (if ss_default_color s = [] then defaultStatusColor level
          else ss_default_color s)\<rparr>)"

definition normalizeAndValidateValueMappings ::
    "regex \<Rightarrow> status_source \<Rightarrow> board_error + status_source" where
  "normalizeAndValidateValueMappings rx s =
     (if ss_value_type s = ''boolean''
      then Inr (s\<lparr>ss_mappings := None, ss_default_level := [], ss_default_label := [],
          ss_default_color := []\<rparr>)
      else if \<not> validStatusLevel (ss_default_level (complete_default s)) then Inl DefaultLevelInvalid
      else if ss_default_color s \<noteq> [] \<and> \<not> validStatusColor (ss_default_color s) then Inl DefaultColorInvalid
      else if 100 < length (mappings_of (default_mappings s)) then Inl TooManyMappings
      else (case ss_mappings (default_mappings s) of
          None \<Rightarrow> Inr ((complete_default s)\<lparr>ss_mappings := None\<rparr>)
        | Some ms \<Rightarrow> ok_then (check_mappings rx (ss_value_type s) 1 [] ms)
            (\<lambda>us. Inr ((complete_default s)\<lparr>ss_mappings := Some us\<rparr>))))"

subsection \<open>Trend rules\<close>

definition validateTrendRule :: "trend_rule \<Rightarrow> string \<Rightarrow> bool" where
  "validateTrendRule rule vtype \<longleftrightarrow>
     1 \<le> tr_window rule \<and> tr_window rule \<le> 200 \<and>
     (if tr_type rule = ''consecutive'' then True
      else if tr_type rule = ''count'' then 1 \<le> tr_minimum rule \<and> tr_minimum rule \<le> tr_window rule
      else if tr_type rule = ''average'' \<or> tr_type rule = ''delta'' \<or> tr_type rule = ''slope'' then
        vtype = ''number'' \<and> 2 \<le> tr_window rule \<and>
        tr_operator rule \<in> set [''gt'', ''gte'', ''lt'', ''lte''] \<and>
        \<not> (tr_type rule = ''delta'' \<and> tr_delta_mode rule \<noteq> ''absolute'' \<and> tr_delta_mode rule \<noteq> ''percent'')
      else False)"

definition complete_rule :: "(nat \<Rightarrow> string) \<Rightarrow> nat \<Rightarrow> trend_rule \<Rightarrow> trend_rule" where
  "complete_rule newid n rule =
     rule\<lparr>tr_id := (if tr_id rule = [] then newid n else tr_id rule),
       tr_name := (if tr_name rule = [] then txt_trend_rule_n @ itoa (int n + 1) else tr_name rule)\<rparr>"

fun check_trends ::
    "(nat \<Rightarrow> string) \<Rightarrow> string \<Rightarrow> nat \<Rightarrow> string list \<Rightarrow> trend_rule list \<Rightarrow> board_error + trend_rule list" where
  "check_trends newid vtype n seen [] = Inr []"
| "check_trends newid vtype n seen (rule # rules) =
     (let u = complete_rule newid n rule in
      if tr_id u \<in> set seen then Inl RuleIDTwice
      else if \<not> validateTrendRule u vtype then Inl (TrendInvalid (tr_name u))
      else ok_then (check_trends newid vtype (n + 1) (tr_id u # seen) rules) (\<lambda>us. Inr (u # us)))"

subsection \<open>Checking and completing an item\<close>

text \<open>\<open>inferValueType\<close>: the type of the first of the newest records that has a value.\<close>

definition value_type_of :: "val \<Rightarrow> string option" where
  "value_type_of v =
     (case v of
        VBool _ \<Rightarrow> Some ''boolean''
      | VStr _ \<Rightarrow> Some ''text''
      | _ \<Rightarrow> (case numberValue v of Inr _ \<Rightarrow> Some ''number'' | Inl _ \<Rightarrow> None))"

definition inferValueType :: "engine \<Rightarrow> status_item \<Rightarrow> db \<Rightarrow> string" where
  "inferValueType en item db =
     (case ListRecords en (si_monitor_id item) 20 db of
        Inl _ \<Rightarrow> []
      | Inr records \<Rightarrow>
          (case first_some (\<lambda>r. case extractValue (si_source item) r of
                None \<Rightarrow> None | Some v \<Rightarrow> value_type_of v) records of
             None \<Rightarrow> [] | Some t \<Rightarrow> t))"

definition clear_result :: "status_source \<Rightarrow> status_source" where
  "clear_result s = s\<lparr>ss_result_set := [], ss_field := [], ss_path := [], ss_value_type := ''boolean''\<rparr>"

definition normalize_field_source ::
    "engine \<Rightarrow> board_sources \<Rightarrow> status_item \<Rightarrow> db \<Rightarrow> board_error + status_source" where
  "normalize_field_source en sources item db =
     (let s = si_source item in
      case find_first (\<lambda>c. qs_result_set c = ss_result_set s \<and> qs_field c = ss_field s) (bs_results sources) of
        None \<Rightarrow> Inl FieldMissing
      | Some sel \<Rightarrow>
          if qs_path sel \<and> trim_space (ss_path s) = [] \<and> \<not> isPrimitiveType (qs_type sel) then Inl PathRequired
          else if \<not> qs_path sel \<and> ss_path s \<noteq> [] then Inl PathUnsupported
          else (let t1 = (if normalizeValueType (qs_type sel) \<noteq> [] then normalizeValueType (qs_type sel)
                     else ss_value_type s);
                    t2 = (if t1 = [] then inferValueType en item db else t1)
                in if validValueType t2 then Inr (s\<lparr>ss_value_type := t2\<rparr>) else Inl ValueTypeInvalid))"

definition normalize_source ::
    "engine \<Rightarrow> board_sources \<Rightarrow> status_item \<Rightarrow> db \<Rightarrow> board_error + status_source" where
  "normalize_source en sources item db =
     (let s = si_source item in
      if ss_kind s = ''condition_overall'' then Inr ((clear_result s)\<lparr>ss_rule_id := []\<rparr>)
      else if ss_kind s = ''condition_rule'' then
        (if list_ex (\<lambda>c. cs_id c \<noteq> [] \<and> cs_id c = ss_rule_id s) (bs_conditions sources)
         then Inr (clear_result s) else Inl RuleMissing)
      else if ss_kind s = ''result_field'' then normalize_field_source en sources item db
      else Inl SourceKindInvalid)"

definition normalize_thresholds :: "string \<Rightarrow> threshold list \<Rightarrow> board_error + threshold list" where
  "normalize_thresholds vtype ts =
     (if vtype = ''number'' then
        validateThresholds (if ts = []
          then [\<lparr>th_maximum = None, th_level = lv_success, th_label = txt_normal, th_color = []\<rparr>] else ts)
      else Inr [])"

definition check_channels :: "engine \<Rightarrow> string list \<Rightarrow> db \<Rightarrow> board_error + unit" where
  "check_channels en ids db =
     each (\<lambda>cid _. or_error (ChannelMissing cid) (ok_then (GetChannel en cid db) (\<lambda>_. Inr ()))) ids ()"

definition NormalizeAndValidate ::
    "engine \<Rightarrow> regex \<Rightarrow> registry \<Rightarrow> (nat \<Rightarrow> string) \<Rightarrow> time \<Rightarrow> bool \<Rightarrow> status_item \<Rightarrow> db \<Rightarrow> board_error + status_item" where
  "NormalizeAndValidate en rx modules newid now resetRuntime item db =
     (let name = trim_space (si_name item);
          limit = (if si_history_limit item = 0 then 60 else si_history_limit item) in
      if name = [] then Inl NameEmpty
      else if limit < 20 \<or> 200 < limit then Inl HistoryRange
      else ok_then (or_error MonitorMissing (GetMonitor en (si_monitor_id item) db)) (\<lambda>_.
        ok_then (from_store (Sources en modules (si_monitor_id item) db)) (\<lambda>sources.
        ok_then (normalize_source en sources item db) (\<lambda>s1.
        ok_then (normalize_thresholds (ss_value_type s1) (si_thresholds item)) (\<lambda>ts.
        ok_then (normalizeAndValidateValueMappings rx s1) (\<lambda>s2.
        ok_then (check_trends newid (ss_value_type s2) 0 [] (si_trend_rules item)) (\<lambda>rules.
        ok_then (check_channels en (si_channel_ids item) db) (\<lambda>_.
        Inr (item\<lparr>si_name := name, si_history_limit := limit, si_source := s2, si_thresholds := ts,
          si_trend_rules := rules,
          si_runtime := (if resetRuntime \<or> ir_rules (si_runtime item) = None
            then \<lparr>ir_started_at = now, ir_rules = Some []\<rparr> else si_runtime item)\<rparr>)))))))))"

subsection \<open>Labels\<close>

definition sourceLabel :: "engine \<Rightarrow> registry \<Rightarrow> status_item \<Rightarrow> db \<Rightarrow> string" where
  "sourceLabel en modules item db =
     (let s = si_source item in
      case Sources en modules (si_monitor_id item) db of
        Inl _ \<Rightarrow> ss_field s
      | Inr sources \<Rightarrow>
          if ss_kind s = ''condition_overall'' then txt_whole_condition
          else (case (if ss_kind s = ''condition_rule''
                 then find_first (\<lambda>c. cs_id c = ss_rule_id s) (bs_conditions sources) else None) of
              Some c \<Rightarrow> cs_label c
            | None \<Rightarrow>
                (case find_first (\<lambda>c. qs_result_set c = ss_result_set s \<and> qs_field c = ss_field s)
                    (bs_results sources) of
                   None \<Rightarrow> ss_field s
                 | Some c \<Rightarrow> qs_result_label c @ txt_dot @ qs_label c @
                     (if ss_path s = [] then [] else txt_dot @ ss_path s))))"

definition detailInt :: "obj \<Rightarrow> string \<Rightarrow> int" where
  "detailInt detail key =
     (case get detail key of
        Some (VInt i) \<Rightarrow> i
      | Some (VNum x) \<Rightarrow> (case f64_val x of None \<Rightarrow> 0 | Some q \<Rightarrow> if 0 \<le> q then \<lfloor>q\<rfloor> else \<lceil>q\<rceil>)
      | _ \<Rightarrow> 0)"

definition detailNumber :: "obj \<Rightarrow> string \<Rightarrow> string" where
  "detailNumber detail key =
     (case get detail key of
        Some (VNum x) \<Rightarrow> format_f x
      | Some (VInt i) \<Rightarrow> itoa i
      | _ \<Rightarrow> ''-'')"

definition trendOperatorLabel :: "string \<Rightarrow> string" where
  "trendOperatorLabel op =
     (case get [(''gt'', ''>''), (''gte'', ''>=''), (''lt'', ''<''), (''lte'', ''<=''), (''eq'', ''=''),
          (''neq'', txt_not_equal)] op of Some l \<Rightarrow> l | None \<Rightarrow> op)"

definition compared :: "obj \<Rightarrow> trend_rule \<Rightarrow> string \<Rightarrow> string" where
  "compared detail rule unit =
     detailNumber detail ''value'' @ unit @ '' '' @ trendOperatorLabel (tr_operator rule) @ txt_threshold @
     detailNumber detail ''threshold'' @ unit"

definition trendDetailSummary :: "trend_rule \<Rightarrow> obj \<Rightarrow> string" where
  "trendDetailSummary rule detail =
     txt_window @ itoa (detailInt detail ''window'') @
     (if tr_type rule = ''consecutive'' then
        txt_consecutive @ itoa (detailInt detail ''abnormal_count'') @ txt_times
      else if tr_type rule = ''count'' then
        txt_abnormal @ itoa (detailInt detail ''abnormal_count'') @ txt_at_least @
        itoa (detailInt detail ''minimum'') @ txt_times_close
      else if tr_type rule = ''average'' then txt_average @ compared detail rule []
      else if tr_type rule = ''delta'' then
        txt_delta @ compared detail rule (if tr_delta_mode rule = ''percent'' then ''%'' else [])
      else if tr_type rule = ''slope'' then txt_slope @ compared detail rule []
      else txt_times)"

subsection \<open>The board\<close>

record item_view =
  iv_item :: status_item
  iv_source_label :: string
  iv_samples :: "status_sample list"
  iv_current :: "status_sample option"

record board_group =
  bg_monitor :: monitor
  bg_items :: "item_view list"

definition item_view_of ::
    "engine \<Rightarrow> regex \<Rightarrow> registry \<Rightarrow> db \<Rightarrow> status_item \<Rightarrow> db_error + item_view" where
  "item_view_of en rx modules db item =
     ok_then (ListRecords en (si_monitor_id item) (si_history_limit item) db) (\<lambda>records.
       (let samples = BuildSamples rx item (rev records) in
        Inr \<lparr>iv_item = item, iv_source_label = sourceLabel en modules item db, iv_samples = samples,
             iv_current = (if samples = [] then None else Some (last samples))\<rparr>))"

definition add_view ::
    "engine \<Rightarrow> regex \<Rightarrow> registry \<Rightarrow> db \<Rightarrow> monitor list \<Rightarrow> status_item \<Rightarrow>
     board_group go_map \<Rightarrow> db_error + board_group go_map" where
  "add_view en rx modules db monitors item groups =
     (case find_first (\<lambda>m. mo_id m = si_monitor_id item) (rev monitors) of
        None \<Rightarrow> Inr groups
      | Some m \<Rightarrow>
          ok_then (item_view_of en rx modules db item) (\<lambda>view.
            (let g = (case get groups (mo_id m) of
                 None \<Rightarrow> \<lparr>bg_monitor = m, bg_items = []\<rparr> | Some g \<Rightarrow> g)
             in Inr (put (mo_id m) (g\<lparr>bg_items := bg_items g @ [view]\<rparr>) groups))))"

text \<open>
  \<open>Snapshot\<close>. The groups are kept in a map and then sorted by the name of the monitor; the
  order of two groups with the same name is not specified, here it is that of the items.
\<close>

definition Snapshot :: "engine \<Rightarrow> regex \<Rightarrow> registry \<Rightarrow> db \<Rightarrow> db_error + board_group list" where
  "Snapshot en rx modules db =
     ok_then (ListStatusBoardItems en db) (\<lambda>items.
     ok_then (ListMonitors en db) (\<lambda>monitors.
     ok_then (each (add_view en rx modules db monitors) items []) (\<lambda>groups.
     Inr (sort_key (\<lambda>g. mo_name (bg_monitor g)) (map snd groups)))))"

subsection \<open>Evaluating an execution\<close>

record pending_notification =
  pn_event :: notification_event
  pn_channel_ids :: "string list"

record stream_event =
  se_type :: string
  se_monitor_id :: string
  se_record_id :: string
  se_items :: "(string \<times> status_sample) list"

record execution_evaluation =
  ee_item_states :: "item_runtime go_map"
  ee_events :: "pending_notification list"
  ee_stream :: stream_event

text \<open>The edge of one trend rule: its new activity and the type of the event, if there is one.\<close>

definition rule_edge :: "string \<Rightarrow> bool \<Rightarrow> edge option \<times> bool" where
  "rule_edge verdict active =
     (if verdict = ''true'' \<and> \<not> active then (Some Rise, True)
      else if verdict = ''false'' \<and> active then (Some Fall, False)
      else (None, active))"

definition trend_event_type :: "edge \<Rightarrow> string" where
  "trend_event_type e = (case e of Rise \<Rightarrow> ''trend_triggered'' | Fall \<Rightarrow> ''trend_recovered'')"

definition trend_summary :: "status_item \<Rightarrow> trend_rule \<Rightarrow> edge \<Rightarrow> obj \<Rightarrow> string" where
  "trend_summary item rule e detail =
     txt_board @ si_name item @ txt_of_rule @ tr_name rule @ txt_quote_close @
     (case e of Rise \<Rightarrow> txt_triggered | Fall \<Rightarrow> txt_recovered) @ txt_colon @ trendDetailSummary rule detail"

definition trend_event ::
    "string \<Rightarrow> monitor \<Rightarrow> monitor_record \<Rightarrow> status_item \<Rightarrow> trend_rule \<Rightarrow> edge \<Rightarrow> obj \<Rightarrow> pending_notification" where
  "trend_event eid m record item rule e detail =
     \<lparr>pn_event = \<lparr>ne_id = eid, ne_source = ''status_trend'', ne_event_type = trend_event_type e,
        ne_monitor_id = mo_id m, ne_record_id = mr_id record, ne_monitor_name = mo_name m,
        ne_module_type = mo_module_type m, ne_triggered_at = mr_finished_at record,
        ne_condition_state = [], ne_summary = trend_summary item rule e detail, ne_previous_result = None,
        ne_current_result = mr_result record, ne_condition_detail = [], ne_item_id = si_id item,
        ne_item_name = si_name item, ne_rule_id = tr_id rule, ne_rule_name = tr_name rule,
        ne_trend_detail = Some detail\<rparr>,
      pn_channel_ids = si_channel_ids item\<rparr>"

definition eval_rule ::
    "(string \<Rightarrow> string \<Rightarrow> string) \<Rightarrow> monitor \<Rightarrow> monitor_record \<Rightarrow> status_item \<Rightarrow> status_sample list \<Rightarrow>
     trend_rule \<Rightarrow> trend_rule_state go_map \<times> pending_notification list \<Rightarrow>
     trend_rule_state go_map \<times> pending_notification list" where
  "eval_rule ids m record item samples rule acc =
     (let (states, events) = acc;
          (verdict, detail) = EvaluateTrend rule samples;
          st = (case get states (tr_id rule) of None \<Rightarrow> zero_trend_rule_state | Some s \<Rightarrow> s);
          (e, active) = rule_edge verdict (ts_active st)
      in (put (tr_id rule) \<lparr>ts_active = active, ts_last_record_id = mr_id record\<rparr> states,
          (case e of None \<Rightarrow> events
           | Some x \<Rightarrow> events @ [trend_event (ids (si_id item) (tr_id rule)) m record item rule x detail])))"

definition max_window :: "trend_rule list \<Rightarrow> int" where
  "max_window rules = fold (\<lambda>r w. if w < tr_window r then tr_window r else w) rules 1"

definition window_samples ::
    "engine \<Rightarrow> regex \<Rightarrow> string \<Rightarrow> monitor_record \<Rightarrow> status_item \<Rightarrow> db \<Rightarrow> db_error + status_sample list" where
  "window_samples en rx mid record item db =
     ok_then (ListRecords en mid (max_window (si_trend_rules item) - 1) db) (\<lambda>records.
       Inr (filter (\<lambda>s. \<not> sm_started_at s < ir_started_at (si_runtime item))
         (BuildSamples rx item (rev records @ [record]))))"

definition eval_item ::
    "engine \<Rightarrow> regex \<Rightarrow> (string \<Rightarrow> string \<Rightarrow> string) \<Rightarrow> monitor \<Rightarrow> monitor_record \<Rightarrow> db \<Rightarrow> status_item \<Rightarrow>
     execution_evaluation \<Rightarrow> db_error + execution_evaluation" where
  "eval_item en rx ids m record db item acc =
     (if \<not> si_enabled item then Inr acc
      else ok_then (window_samples en rx (mo_id m) record item db) (\<lambda>samples.
        (let start = (case ir_rules (si_runtime item) of None \<Rightarrow> [] | Some r \<Rightarrow> r);
             (states, events) = fold (eval_rule ids m record item samples) (si_trend_rules item) (start, [])
         in Inr (acc\<lparr>
              ee_item_states := put (si_id item) ((si_runtime item)\<lparr>ir_rules := Some states\<rparr>) (ee_item_states acc),
              ee_events := ee_events acc @ events,
              ee_stream := (ee_stream acc)\<lparr>se_items := se_items (ee_stream acc) @
                [(si_id item, hd (BuildSamples rx item [record]))]\<rparr>\<rparr>))))"

definition EvaluateExecution ::
    "engine \<Rightarrow> regex \<Rightarrow> (string \<Rightarrow> string \<Rightarrow> string) \<Rightarrow> monitor \<Rightarrow> monitor_record \<Rightarrow> db \<Rightarrow> db_error + execution_evaluation" where
  "EvaluateExecution en rx ids m record db =
     ok_then (ListStatusBoardItemsByMonitor en (mo_id m) db) (\<lambda>items.
       each (eval_item en rx ids m record db) items
         \<lparr>ee_item_states = [], ee_events = [],
          ee_stream = \<lparr>se_type = ''record_created'', se_monitor_id = mo_id m, se_record_id = mr_id record,
            se_items = []\<rparr>\<rparr>)"

subsection \<open>What validation guarantees\<close>

lemma validStatusLevel_real: "validStatusLevel l \<longleftrightarrow> l \<in> real_levels"
  by (auto simp: validStatusLevel_def real_levels_def)

lemma check_threshold_Inr:
  "check_threshold t = Inr u \<Longrightarrow> th_level u \<in> real_levels \<and> th_maximum u = th_maximum t \<and> th_level u = th_level t"
  by (auto simp: check_threshold_def validStatusLevel_real split: if_splits)

lemma validate_bounds_Cons:
  "validate_bounds p (t # ts) = Inr us \<Longrightarrow> \<exists>u vs. check_threshold t = Inr u \<and> us = u # vs \<and>
   (if ts = [] then th_maximum t = None \<and> vs = []
    else \<exists>m. th_maximum t = Some m \<and> \<not> not_above p m \<and> validate_bounds (Some m) ts = Inr vs)"
  by (cases "th_maximum t") (auto simp: ok_then_Inr split: if_split_asm)

lemma validate_bounds_levels:
  "validate_bounds p ts = Inr us \<Longrightarrow> u \<in> set us \<Longrightarrow> th_level u \<in> real_levels"
proof (induction ts arbitrary: p us)
  case (Cons t ts)
  from validate_bounds_Cons [OF Cons.prems(1)] Cons show ?case
    by (auto dest: check_threshold_Inr split: if_split_asm)
qed simp

lemma validate_bounds_last:
  "validate_bounds p ts = Inr us \<Longrightarrow> ts \<noteq> [] \<Longrightarrow> \<exists>u \<in> set us. th_maximum u = None"
proof (induction ts arbitrary: p us)
  case (Cons t ts)
  from validate_bounds_Cons [OF Cons.prems(1)] Cons.IH show ?case
    by (fastforce dest: check_threshold_Inr split: if_split_asm)
qed simp

lemma normalize_thresholds_Inr:
  assumes "normalize_thresholds vt ts = Inr us"
  shows "(\<forall>u \<in> set us. th_level u \<in> real_levels) \<and> (vt = ''number'' \<longrightarrow> (\<forall>x. matchThreshold us x \<noteq> None))"
proof (cases "vt = ''number''")
  case True
  let ?ts = "if ts = [] then [\<lparr>th_maximum = None, th_level = lv_success, th_label = txt_normal, th_color = []\<rparr>] else ts"
  have v: "validate_bounds None ?ts = Inr us"
    using assms True by (simp add: normalize_thresholds_def validateThresholds_def)
  have "?ts \<noteq> []" by simp
  from validate_bounds_last [OF v this] obtain u where "u \<in> set us" "th_maximum u = None" by blast
  then have "matchThreshold us x \<noteq> None" for x
    by (auto simp: matchThreshold_def find_first_None intro!: bexI [of _ u])
  with validate_bounds_levels [OF v] show ?thesis by blast
next
  case False
  then show ?thesis using assms by (simp add: normalize_thresholds_def)
qed

lemma check_mappings_levels:
  "check_mappings rx vt n seen ms = Inr us \<Longrightarrow> u \<in> set us \<Longrightarrow> vm_level u \<in> real_levels"
  by (induction rx vt n seen ms arbitrary: us rule: check_mappings.induct)
    (auto simp: ok_then_Inr mapping_ok_def validStatusLevel_real complete_mapping_def
      split: if_splits option.splits)

lemma mappings_Inr:
  assumes "normalizeAndValidateValueMappings rx s = Inr s2"
  shows "ss_value_type s2 = ss_value_type s \<and> ss_kind s2 = ss_kind s \<and>
    (\<forall>m \<in> set (mappings_of s2). vm_level m \<in> real_levels) \<and>
    (if ss_value_type s = ''boolean'' then ss_default_level s2 = [] else ss_default_level s2 \<in> real_levels)"
proof (cases "ss_value_type s = ''boolean''")
  case True
  then show ?thesis
    using assms by (auto simp: normalizeAndValidateValueMappings_def mappings_of_def)
next
  case False
  then have lv: "ss_default_level (complete_default s) \<in> real_levels"
    and r: "s2 = (complete_default s)\<lparr>ss_mappings := None\<rparr> \<or>
      (\<exists>ms us. check_mappings rx (ss_value_type s) 1 [] ms = Inr us \<and>
        s2 = (complete_default s)\<lparr>ss_mappings := Some us\<rparr>)"
    using assms unfolding normalizeAndValidateValueMappings_def
    by (auto simp: ok_then_Inr validStatusLevel_real split: if_split_asm option.split_asm)
  have "ss_value_type (complete_default s) = ss_value_type s" "ss_kind (complete_default s) = ss_kind s"
    by (simp_all add: complete_default_def Let_def)
  with r lv False show ?thesis
    by (auto simp: mappings_of_def dest: check_mappings_levels)
qed

lemma check_trends_Inr:
  "check_trends newid vt n seen rules = Inr us \<Longrightarrow> distinct (map tr_id us) \<and>
   set (map tr_id us) \<inter> set seen = {} \<and> (\<forall>u \<in> set us. validateTrendRule u vt)"
proof (induction rules arbitrary: n seen us)
  case (Cons rule rules)
  let ?u = "complete_rule newid n rule"
  from Cons.prems obtain vs where "tr_id ?u \<notin> set seen" "validateTrendRule ?u vt" "us = ?u # vs"
    "check_trends newid vt (n + 1) (tr_id ?u # seen) rules = Inr vs"
    by (auto simp: ok_then_Inr Let_def split: if_split_asm)
  with Cons.IH [of "n + 1" "tr_id ?u # seen" vs] show ?case by auto
qed simp

lemma normalize_source_type: "normalize_source en src item db = Inr s \<Longrightarrow> validValueType (ss_value_type s)"
  by (auto simp: normalize_source_def normalize_field_source_def clear_result_def validValueType_def Let_def
      split: if_splits option.splits)

text \<open>The parts of a successful check.\<close>

lemma NormalizeAndValidate_Inr:
  assumes "NormalizeAndValidate en rx modules newid now reset item db = Inr item'"
  obtains sources s1 where
    "normalize_source en sources item db = Inr s1"
    "normalize_thresholds (ss_value_type s1) (si_thresholds item) = Inr (si_thresholds item')"
    "normalizeAndValidateValueMappings rx s1 = Inr (si_source item')"
    "check_trends newid (ss_value_type (si_source item')) 0 [] (si_trend_rules item) = Inr (si_trend_rules item')"
    "20 \<le> si_history_limit item'" "si_history_limit item' \<le> 200"
    "si_name item' \<noteq> []" "ir_rules (si_runtime item') \<noteq> None"
proof -
  let ?limit = "if si_history_limit item = 0 then 60 else si_history_limit item"
  have g: "trim_space (si_name item) \<noteq> []" "\<not> (?limit < 20 \<or> 200 < ?limit)"
    using assms by (auto simp: NormalizeAndValidate_def Let_def simp del: if_split split: if_split_asm)
  then obtain sources s1 ts s2 rules where
    s: "normalize_source en sources item db = Inr s1"
      "normalize_thresholds (ss_value_type s1) (si_thresholds item) = Inr ts"
      "normalizeAndValidateValueMappings rx s1 = Inr s2"
      "check_trends newid (ss_value_type s2) 0 [] (si_trend_rules item) = Inr rules" and
    i: "item' = item\<lparr>si_name := trim_space (si_name item), si_history_limit := ?limit, si_source := s2,
        si_thresholds := ts, si_trend_rules := rules,
        si_runtime := (if reset \<or> ir_rules (si_runtime item) = None
          then \<lparr>ir_started_at = now, ir_rules = Some []\<rparr> else si_runtime item)\<rparr>"
    using assms unfolding NormalizeAndValidate_def Let_def if_not_P [OF g(1)] if_not_P [OF g(2)] ok_then_Inr
    by blast
  show ?thesis
    by (rule that [of sources s1]) (use s g in \<open>auto simp: i\<close>)
qed

text \<open>
  An item that the service accepts is well formed: its history is between 20 and 200, its
  value type is one of three, every level it can assign is a real one, its trend rules have
  distinct identifiers and satisfy their bounds (the numeric ones only on numbers), and
  its thresholds cover every number.
\<close>

theorem accepted_item_well_formed:
  assumes "NormalizeAndValidate en rx modules newid now reset item db = Inr item'"
  shows "20 \<le> si_history_limit item' \<and> si_history_limit item' \<le> 200 \<and> si_name item' \<noteq> [] \<and>
    validValueType (ss_value_type (si_source item')) \<and> item_levels_ok item' \<and>
    distinct (map tr_id (si_trend_rules item')) \<and>
    (\<forall>rule \<in> set (si_trend_rules item'). validateTrendRule rule (ss_value_type (si_source item'))) \<and>
    (ss_value_type (si_source item') = ''number'' \<longrightarrow> (\<forall>x. matchThreshold (si_thresholds item') x \<noteq> None))"
proof -
  from NormalizeAndValidate_Inr [OF assms] obtain sources s1 where
    s: "normalize_source en sources item db = Inr s1" and
    t: "normalize_thresholds (ss_value_type s1) (si_thresholds item) = Inr (si_thresholds item')" and
    m: "normalizeAndValidateValueMappings rx s1 = Inr (si_source item')" and
    r: "check_trends newid (ss_value_type (si_source item')) 0 [] (si_trend_rules item) = Inr (si_trend_rules item')" and
    l: "20 \<le> si_history_limit item'" "si_history_limit item' \<le> 200" "si_name item' \<noteq> []" by metis
  have "validValueType (ss_value_type (si_source item'))"
    using normalize_source_type [OF s] mappings_Inr [OF m] by simp
  moreover have "item_levels_ok item'"
    using mappings_Inr [OF m] normalize_thresholds_Inr [OF t] by (auto simp: item_levels_ok_def split: if_splits)
  ultimately show ?thesis
    using l check_trends_Inr [OF r] normalize_thresholds_Inr [OF t] mappings_Inr [OF m] by simp
qed

text \<open>A concrete item and store for the examples below.\<close>

definition test_source :: status_source where
  "test_source = \<lparr>ss_kind = ''condition_overall'', ss_rule_id = ''x'', ss_result_set = [], ss_field = [],
     ss_path = [], ss_value_type = [], ss_mappings = None, ss_default_level = [], ss_default_label = [],
     ss_default_color = []\<rparr>"

definition board_item :: "trend_rule list \<Rightarrow> status_item" where
  "board_item rules = \<lparr>si_id = ''i'', si_name = '' board '', si_monitor_id = ''m'', si_enabled = True,
     si_source = test_source, si_invert = False, si_thresholds = [], si_history_limit = 0,
     si_trend_rules = rules, si_channel_ids = [], si_runtime = \<lparr>ir_started_at = 0, ir_rules = None\<rparr>,
     si_created_at = 0, si_updated_at = 0\<rparr>"

definition board_db :: "status_item list \<Rightarrow> db" where
  "board_db items = empty_db\<lparr>db_monitors := [monitorFromDomain (test_monitor ''m'')], db_items := items\<rparr>"

definition board_modules :: registry where
  "board_modules = [(''http'', entry_of ''p'' ''P'' (test_module ''http''))]"

lemma trim_board [simp]: "trim_space '' board '' = ''board''"
  by code_simp

definition accepted_item :: "trend_rule list \<Rightarrow> status_item" where
  "accepted_item rules = (board_item rules)\<lparr>si_name := ''board'', si_history_limit := 60,
     si_source := test_source\<lparr>ss_rule_id := [], ss_value_type := ''boolean''\<rparr>,
     si_runtime := \<lparr>ir_started_at = 7, ir_rules = Some []\<rparr>\<rparr>"

lemma accept_board_item:
  "NormalizeAndValidate (test_engine True) (\<lambda>_. None) board_modules (\<lambda>_. ''id'') 7 False
     (board_item [count_rule 5 2]) (board_db []) = Inr (accepted_item [count_rule 5 2])"
  by (simp add: NormalizeAndValidate_def board_item_def board_db_def GetMonitor_def run_def test_engine_def
      select_first_def Sources_def monitor_descriptor_def board_modules_def Descriptor_def test_monitor_def
      monitorToDomain_def monitorFromDomain_def monitorRuntimeFlags_def normalize_source_def test_source_def
      clear_result_def normalize_thresholds_def normalizeAndValidateValueMappings_def complete_rule_def
      count_rule_def validateTrendRule_def check_channels_def accepted_item_def)

lemma accepted_item_well_formed_witness: "item_levels_ok (accepted_item [count_rule 5 2])"
  using accepted_item_well_formed [OF accept_board_item] by blast

text \<open>The values that a value type stands for.\<close>

definition value_fits :: "string \<Rightarrow> val \<Rightarrow> bool" where
  "value_fits vtype v \<longleftrightarrow>
     (if vtype = ''boolean'' then (case v of VBool _ \<Rightarrow> True | _ \<Rightarrow> False)
      else if vtype = ''text'' then (case v of VStr _ \<Rightarrow> True | _ \<Rightarrow> False)
      else (case numberValue v of Inr x \<Rightarrow> \<not> is_nan x \<and> \<not> is_inf x | Inl _ \<Rightarrow> False))"

lemma sm_state_simps [simp]:
  "sm_state (applySampleLevel s l lb c) = (if l = lv_success then lv_success else lv_failure)"
  "sm_state (unknown_sample r) = lv_unknown"
  by (simp_all add: applySampleLevel_def unknown_sample_def)

lemma boolean_sample_state:
  "sm_state s = lv_unknown \<Longrightarrow>
   sm_state (boolean_sample item s v) = lv_unknown \<longleftrightarrow> \<not> value_fits ''boolean'' v"
  by (cases v) (auto simp: boolean_sample_def value_fits_def Let_def)

lemma text_sample_state:
  "sm_state s = lv_unknown \<Longrightarrow>
   sm_state (text_sample item ms s v) = lv_unknown \<longleftrightarrow> \<not> value_fits ''text'' v"
  by (cases v) (auto simp: text_sample_def value_fits_def Let_def split: option.split)

lemma number_sample_state:
  assumes "sm_state s = lv_unknown" and "\<And>x. matchThreshold (si_thresholds item) x \<noteq> None"
  shows "sm_state (number_sample item s v) = lv_unknown \<longleftrightarrow> \<not> value_fits ''number'' v"
proof -
  have h: "\<forall>x. \<exists>t. matchThreshold (si_thresholds item) x = Some t" using assms(2) by auto
  from choice [OF h] obtain th where "\<forall>x. matchThreshold (si_thresholds item) x = Some (th x)" ..
  then show ?thesis
    using assms(1) by (auto simp: number_sample_def value_fits_def Let_def split: sum.split option.split)
qed

text \<open>
  For an item that the service accepted, a sample is unknown exactly when the record has no
  value for it or one that is not of the item's type; every boolean, finite number or text
  is a success or a failure, whatever mappings and thresholds the item has.
\<close>

theorem accepted_item_sample_known:
  assumes "NormalizeAndValidate en rx modules newid now reset item db = Inr item'"
  shows "sm_state (buildSample item' ms r) = lv_unknown \<longleftrightarrow>
    (case extractValue (si_source item') r of
       None \<Rightarrow> True | Some v \<Rightarrow> \<not> value_fits (ss_value_type (si_source item')) v)"
proof (cases "extractValue (si_source item') r")
  case None
  then show ?thesis by (simp add: buildSample_def)
next
  case (Some v)
  note wf = accepted_item_well_formed [OF assms]
  let ?s = "(unknown_sample r)\<lparr>sm_raw_value := v\<rparr>"
  have u: "sm_state ?s = lv_unknown" by (simp add: unknown_sample_def)
  consider "ss_value_type (si_source item') = ''boolean''" | "ss_value_type (si_source item') = ''text''"
    | "ss_value_type (si_source item') = ''number''" using wf by (auto simp: validValueType_def)
  then show ?thesis
  proof cases
    case 3
    then have "\<And>x. matchThreshold (si_thresholds item') x \<noteq> None" using wf by simp
    from number_sample_state [OF u this] 3 Some show ?thesis by (simp add: buildSample_def Let_def)
  qed (use Some boolean_sample_state [OF u] text_sample_state [OF u] in \<open>simp_all add: buildSample_def Let_def\<close>)
qed

definition test_board_record :: "string \<Rightarrow> string \<Rightarrow> monitor_record" where
  "test_board_record rid state = \<lparr>mr_id = rid, mr_monitor_id = ''m'', mr_module_type = ''http'',
     mr_module_version = ''1'', mr_started_at = 10, mr_finished_at = 11, mr_success = True,
     mr_duration_ms = 1, mr_schema_version = ''1'', mr_result = [], mr_result_hash = [],
     mr_condition_state = state, mr_event_type = ''none'', mr_events = [], mr_error_code = [],
     mr_error_message = []\<rparr>"

lemma accepted_item_sample_known_witness:
  "sm_state (buildSample (accepted_item [count_rule 5 2]) [] (test_board_record ''r'' ''true'')) \<noteq> lv_unknown"
  unfolding accepted_item_sample_known [OF accept_board_item]
  by (simp add: accepted_item_def test_source_def extractValue_def state_value_def test_board_record_def value_fits_def)

subsection \<open>Events of a trend rule\<close>

interpretation trend: edge_detector rule_edge
  by unfold_locales (auto simp: rule_edge_def)

text \<open>
  The code of \<open>EvaluateExecution\<close> for one rule, over the executions of a monitor: the verdicts
  come from \<open>EvaluateTrend\<close>, the activity from the state stored after the execution before.
\<close>

definition rule_state :: "trend_rule_state go_map \<Rightarrow> string \<Rightarrow> trend_rule_state" where
  "rule_state states rid = (case get states rid of None \<Rightarrow> zero_trend_rule_state | Some s \<Rightarrow> s)"

lemma eval_rule_edge:
  "eval_rule ids m record item samples rule (states, events) =
   (let (verdict, detail) = EvaluateTrend rule samples;
        (e, active) = rule_edge verdict (ts_active (rule_state states (tr_id rule)))
    in (put (tr_id rule) \<lparr>ts_active = active, ts_last_record_id = mr_id record\<rparr> states,
        (case e of None \<Rightarrow> events
         | Some x \<Rightarrow> events @ [trend_event (ids (si_id item) (tr_id rule)) m record item rule x detail])))"
  by (simp add: eval_rule_def rule_state_def)

lemma eval_rule_other:
  "tr_id rule \<noteq> rid \<Longrightarrow> rule_state (fst (eval_rule ids m record item samples rule acc)) rid =
   rule_state (fst acc) rid"
  by (cases acc) (simp add: eval_rule_edge rule_state_def case_prod_beta Let_def)

lemma eval_rule_state:
  "rule_state (fst (eval_rule ids m record item samples rule acc)) (tr_id rule) =
   \<lparr>ts_active = snd (rule_edge (fst (EvaluateTrend rule samples)) (ts_active (rule_state (fst acc) (tr_id rule)))),
    ts_last_record_id = mr_id record\<rparr>"
  by (cases acc) (simp add: eval_rule_edge rule_state_def case_prod_beta Let_def)

definition rule_events :: "string \<Rightarrow> pending_notification list \<Rightarrow> string list" where
  "rule_events rid events =
     map (\<lambda>p. ne_event_type (pn_event p)) (filter (\<lambda>p. ne_rule_id (pn_event p) = rid) events)"

lemma eval_rule_events_other:
  "tr_id rule \<noteq> rid \<Longrightarrow> rule_events rid (snd (eval_rule ids m record item samples rule acc)) = rule_events rid (snd acc)"
  by (cases acc) (auto simp: eval_rule_edge rule_events_def case_prod_beta Let_def trend_event_def split: option.split)

lemma eval_rule_events:
  "rule_events (tr_id rule) (snd (eval_rule ids m record item samples rule acc)) =
   rule_events (tr_id rule) (snd acc) @
   (case fst (rule_edge (fst (EvaluateTrend rule samples)) (ts_active (rule_state (fst acc) (tr_id rule)))) of
      None \<Rightarrow> [] | Some e \<Rightarrow> [trend_event_type e])"
  by (cases acc) (auto simp: eval_rule_edge rule_events_def case_prod_beta Let_def trend_event_def split: option.split)

text \<open>With distinct identifiers each rule is evaluated on its own, whatever the others do.\<close>

lemma eval_rules:
  assumes "distinct (map tr_id rules)" and "rule \<in> set rules"
    and "edge = rule_edge (fst (EvaluateTrend rule samples)) (ts_active (rule_state (fst acc) (tr_id rule)))"
  shows "rule_state (fst (fold (eval_rule ids m record item samples) rules acc)) (tr_id rule) =
      \<lparr>ts_active = snd edge, ts_last_record_id = mr_id record\<rparr> \<and>
    rule_events (tr_id rule) (snd (fold (eval_rule ids m record item samples) rules acc)) =
      rule_events (tr_id rule) (snd acc) @ (case fst edge of None \<Rightarrow> [] | Some e \<Rightarrow> [trend_event_type e])"
  using assms
proof (induction rules arbitrary: acc)
  case (Cons r rs)
  have skip: "rule_state (fst (fold (eval_rule ids m record item samples) xs a)) rid = rule_state (fst a) rid \<and>
      rule_events rid (snd (fold (eval_rule ids m record item samples) xs a)) = rule_events rid (snd a)"
    if "rid \<notin> set (map tr_id xs)" for xs a rid
    using that by (induction xs arbitrary: a) (auto simp: eval_rule_other eval_rule_events_other)
  show ?case
  proof (cases "rule = r")
    case True
    with Cons.prems show ?thesis
      using skip [of "tr_id r" rs] by (simp add: eval_rule_state eval_rule_events)
  next
    case False
    then have "rule \<in> set rs" "tr_id r \<noteq> tr_id rule" using Cons.prems by (auto simp: image_iff)
    with Cons show ?thesis by (simp add: eval_rule_other eval_rule_events_other)
  qed
qed simp

text \<open>
  The executions of a monitor, as one item sees them: for each the record and the samples of
  its window. The state that one execution leaves is stored and read by the next.
\<close>

fun item_run ::
    "(string \<Rightarrow> string \<Rightarrow> string) \<Rightarrow> monitor \<Rightarrow> status_item \<Rightarrow> trend_rule_state go_map \<Rightarrow>
     (monitor_record \<times> status_sample list) list \<Rightarrow> trend_rule_state go_map \<times> pending_notification list" where
  "item_run ids m item states [] = (states, [])"
| "item_run ids m item states ((r, samples) # xs) =
     (let (st, ev) = fold (eval_rule ids m r item samples) (si_trend_rules item) (states, []);
          (st2, ev2) = item_run ids m item st xs
      in (st2, ev @ ev2))"

lemma rule_events_append [simp]: "rule_events rid (xs @ ys) = rule_events rid xs @ rule_events rid ys"
  by (simp add: rule_events_def)

lemma item_run_edges:
  assumes "distinct (map tr_id (si_trend_rules item))" and "rule \<in> set (si_trend_rules item)"
  shows "rule_events (tr_id rule) (snd (item_run ids m item states xs)) =
      map trend_event_type (fst (trend.edges (ts_active (rule_state states (tr_id rule)))
        (map (\<lambda>x. fst (EvaluateTrend rule (snd x))) xs))) \<and>
    ts_active (rule_state (fst (item_run ids m item states xs)) (tr_id rule)) =
      snd (trend.edges (ts_active (rule_state states (tr_id rule))) (map (\<lambda>x. fst (EvaluateTrend rule (snd x))) xs))"
proof (induction xs arbitrary: states)
  case Nil
  then show ?case by (simp add: rule_events_def)
next
  case (Cons x xs)
  obtain r samples where x: "x = (r, samples)" by force
  let ?f = "fold (eval_rule ids m r item samples) (si_trend_rules item) (states, [])"
  let ?a = "ts_active (rule_state states (tr_id rule))"
  let ?e = "rule_edge (fst (EvaluateTrend rule samples)) ?a"
  have one: "rule_state (fst ?f) (tr_id rule) = \<lparr>ts_active = snd ?e, ts_last_record_id = mr_id r\<rparr>"
    "rule_events (tr_id rule) (snd ?f) = (case fst ?e of None \<Rightarrow> [] | Some e \<Rightarrow> [trend_event_type e])"
    using eval_rules [OF assms, of ?e samples "(states, [])" ids m r item] by (simp_all add: rule_events_def)
  show ?case
    using Cons.IH [of "fst ?f"] one by (auto simp: x case_prod_beta Let_def split: option.split)
qed

lemma trend_event_type_inj: "trend_event_type e = trend_event_type f \<longleftrightarrow> e = f"
  by (cases e; cases f) (simp_all add: trend_event_type_def)

text \<open>
  C24: Over any number of executions a trend rule reports only changes: its events alternate
  between \<open>trend_triggered\<close> and \<open>trend_recovered\<close>, the first one leaves the stored state,
  and the state afterwards is active exactly when the last event was a trigger. Other rules
  of the item make no difference.
\<close>

theorem trend_events_alternate:
  fixes rule item states
  assumes "distinct (map tr_id (si_trend_rules item))" and "rule \<in> set (si_trend_rules item)"
    and "item_run ids m item states xs = (states', events)"
  defines "ev \<equiv> rule_events (tr_id rule) events"
    and "was_active \<equiv> ts_active (rule_state states (tr_id rule))"
  shows "(ev \<noteq> [] \<longrightarrow> hd ev = (if was_active then ''trend_recovered'' else ''trend_triggered'')) \<and>
    (\<forall>i. Suc i < length ev \<longrightarrow> ev ! i \<noteq> ev ! Suc i) \<and>
    ts_active (rule_state states' (tr_id rule)) =
      (if ev = [] then was_active else last ev = ''trend_triggered'')"
proof -
  let ?e = "trend.edges was_active (map (\<lambda>x. fst (EvaluateTrend rule (snd x))) xs)"
  have e: "ev = map trend_event_type (fst ?e)" "ts_active (rule_state states' (tr_id rule)) = snd ?e"
    using item_run_edges [OF assms(1,2), of ids m states xs] assms(3) by (simp_all add: ev_def was_active_def)
  have t: "trend_event_type e = ''trend_triggered'' \<longleftrightarrow> e = Rise" for e
    by (cases e) (simp_all add: trend_event_type_def)
  have "trend_event_type (if was_active then Fall else Rise) =
      (if was_active then ''trend_recovered'' else ''trend_triggered'')" by (simp add: trend_event_type_def)
  then show ?thesis
    using trend.edges_alternate [of was_active "map (\<lambda>x. fst (EvaluateTrend rule (snd x))) xs"]
      trend.last_edge [of was_active "map (\<lambda>x. fst (EvaluateTrend rule (snd x))) xs"]
    by (auto simp: e hd_map last_map trend_event_type_inj t)
qed

lemma trend_events_alternate_witness:
  "rule_events ''t'' (snd (item_run (\<lambda>_ _. ''e'') (test_monitor ''m'') (board_item [count_rule 1 1]) []
     [(test_board_record ''r'' ''false'', [sample_with lv_failure None])])) = [''trend_triggered'']"
proof -
  let ?run = "item_run (\<lambda>_ _. ''e'') (test_monitor ''m'') (board_item [count_rule 1 1]) []
     [(test_board_record ''r'' ''false'', [sample_with lv_failure None])]"
  have d: "distinct (map tr_id (si_trend_rules (board_item [count_rule 1 1])))"
    "count_rule 1 1 \<in> set (si_trend_rules (board_item [count_rule 1 1]))" by (simp_all add: board_item_def)
  have v: "fst (EvaluateTrend (count_rule 1 1) [sample_with lv_failure None]) = ''true''"
    by (simp add: EvaluateTrend_def count_rule_def sample_with_def last_n_def countAbnormal_def)
  have i: "tr_id (count_rule 1 1) = ''t''" by (simp add: count_rule_def)
  have "rule_events ''t'' (snd ?run) = [''trend_triggered'']"
    using item_run_edges [OF d, of "\<lambda>_ _. ''e''" "test_monitor ''m''" "[]"
        "[(test_board_record ''r'' ''false'', [sample_with lv_failure None])]"]
    by (simp add: v i rule_state_def zero_trend_rule_state_def rule_edge_def trend_event_type_def)
  with trend_events_alternate [OF d, of "\<lambda>_ _. ''e''" "test_monitor ''m''" "[]" _ "fst ?run" "snd ?run"] i
  show ?thesis by simp
qed

subsection \<open>Windows wider than a page of records\<close>

lemma window_samples_length:
  assumes "window_samples en rx mid record item db = Inr samples"
  shows "length samples \<le>
    (if 2 \<le> max_window (si_trend_rules item) \<and> max_window (si_trend_rules item) \<le> 101
     then nat (max_window (si_trend_rules item)) else 21)"
proof -
  let ?w = "max_window (si_trend_rules item)"
  obtain rs where rs: "ListRecords en mid (?w - 1) db = Inr rs"
    and s: "samples = filter (\<lambda>s. \<not> sm_started_at s < ir_started_at (si_runtime item))
      (BuildSamples rx item (rev rs @ [record]))"
    using assms by (auto simp: window_samples_def ok_then_Inr)
  have "length rs \<le> (if 1 \<le> ?w - 1 \<and> ?w - 1 \<le> 100 then nat (?w - 1) else 20)"
    unfolding list_records_Inr [OF rs] by simp
  moreover have "length samples \<le> length rs + 1"
    unfolding s by (rule order_trans [OF length_filter_le]) simp
  ultimately show ?thesis by (auto split: if_splits)
qed

text \<open>
  A trend rule may have a window of up to 200, but the store gives the evaluation at most
  100 records before the current one, and only 20 when it is asked for more: as soon as
  one rule of an item has a window above 101, every rule of the item with a window above
  21 is undecided after every execution, so it neither triggers nor recovers.
\<close>

theorem wide_window_never_decides:
  assumes "window_samples en rx mid record item db = Inr samples"
    and "101 < max_window (si_trend_rules item)" and "21 < tr_window rule"
  shows "fst (EvaluateTrend rule samples) = ''unknown'' \<and>
    rule_edge (fst (EvaluateTrend rule samples)) active = (None, active)"
proof -
  have "length samples \<le> 21" using window_samples_length [OF assms(1)] assms(2) by simp
  then have "int (length samples) < tr_window rule" using assms(3) by simp
  then have "fst (EvaluateTrend rule samples) = ''unknown''" by (simp add: EvaluateTrend_def)
  then show ?thesis by (simp add: rule_edge_def)
qed

lemma wide_window_never_decides_witness:
  "fst (EvaluateTrend (count_rule 150 1)
     (projr (window_samples (test_engine True) (\<lambda>_. None) ''m'' (test_board_record ''r'' ''false'')
        (accepted_item [count_rule 150 1]) (board_db [])))) = ''unknown''"
proof -
  let ?w = "window_samples (test_engine True) (\<lambda>_. None) ''m'' (test_board_record ''r'' ''false'')
        (accepted_item [count_rule 150 1]) (board_db [])"
  have "ListRecords (test_engine True) ''m'' 149 (board_db []) = Inr []"
    by (simp add: ListRecords_def ListRecordsPage_def first_page_def normalizePage_def run_def
        test_engine_def board_db_def empty_db_def order_desc_def page_rows_def make_page_def)
  moreover have r: "si_trend_rules (accepted_item [count_rule 150 1]) = [count_rule 150 1]"
    by (simp add: accepted_item_def board_item_def)
  moreover have w: "max_window [count_rule 150 1] = 150" by (simp add: max_window_def count_rule_def)
  ultimately obtain samples where s: "?w = Inr samples" by (simp add: window_samples_def)
  have "21 < tr_window (count_rule 150 1)" by (simp add: count_rule_def)
  from wide_window_never_decides [OF s _ this, where active = False] show ?thesis by (simp add: s r w)
qed

subsection \<open>What an evaluation covers\<close>

lemma eval_item_Inr:
  assumes "eval_item en rx ids m record db item acc = Inr acc'"
  shows "dom (get (ee_item_states acc')) =
      dom (get (ee_item_states acc)) \<union> (if si_enabled item then {si_id item} else {}) \<and>
    map fst (se_items (ee_stream acc')) =
      map fst (se_items (ee_stream acc)) @ (if si_enabled item then [si_id item] else []) \<and>
    (\<exists>ev. ee_events acc' = ee_events acc @ ev \<and>
      (\<forall>p \<in> set ev. si_enabled item \<and> ne_item_id (pn_event p) = si_id item \<and>
        pn_channel_ids p = si_channel_ids item \<and>
        ne_rule_id (pn_event p) \<in> tr_id ` set (si_trend_rules item)))"
proof -
  have ev: "\<forall>p \<in> set (snd (fold (eval_rule ids m record item samples) rules (st, evs))).
      p \<in> set evs \<or> (ne_item_id (pn_event p) = si_id item \<and> pn_channel_ids p = si_channel_ids item \<and>
        ne_rule_id (pn_event p) \<in> tr_id ` set rules)" for samples rules st evs
  proof (induction rules arbitrary: st evs)
    case (Cons r rs)
    then show ?case
      by (simp add: eval_rule_edge case_prod_beta Let_def) (fastforce simp: trend_event_def split: option.splits)
  qed simp
  show ?thesis
  proof (cases "si_enabled item")
    case False
    then show ?thesis using assms by (auto simp: eval_item_def)
  next
    case True
    then obtain samples where s: "window_samples en rx (mo_id m) record item db = Inr samples"
      using assms by (auto simp: eval_item_def ok_then_Inr)
    show ?thesis
      using assms True ev [of samples "si_trend_rules item" "case ir_rules (si_runtime item) of None \<Rightarrow> [] | Some r \<Rightarrow> r" "[]"]
      by (auto simp: eval_item_def s case_prod_beta Let_def dom_def)
  qed
qed

lemma eval_items:
  assumes "each (eval_item en rx ids m record db) items acc = Inr ee"
  shows "dom (get (ee_item_states ee)) = dom (get (ee_item_states acc)) \<union> si_id ` set (filter si_enabled items) \<and>
    map fst (se_items (ee_stream ee)) = map fst (se_items (ee_stream acc)) @ map si_id (filter si_enabled items) \<and>
    (\<forall>p \<in> set (ee_events ee). p \<in> set (ee_events acc) \<or> (\<exists>item \<in> set items. si_enabled item \<and>
      ne_item_id (pn_event p) = si_id item \<and> pn_channel_ids p = si_channel_ids item \<and>
      ne_rule_id (pn_event p) \<in> tr_id ` set (si_trend_rules item)))"
  using assms
proof (induction items arbitrary: acc)
  case (Cons item items)
  then obtain acc1 where a: "eval_item en rx ids m record db item acc = Inr acc1"
    and r: "each (eval_item en rx ids m record db) items acc1 = Inr ee" by (auto simp: ok_then_Inr)
  from Cons.IH [OF r] eval_item_Inr [OF a] show ?case
    by (auto split: if_splits)
qed simp

text \<open>
  The evaluation of an execution gives a new state to exactly the enabled items of the
  monitor, streams one sample for each of them in their order, and every notification is
  about a rule of one of them and goes to that item's channels.
\<close>

theorem evaluation_covers_enabled_items:
  assumes "ListStatusBoardItemsByMonitor en (mo_id m) db = Inr items"
    and "EvaluateExecution en rx ids m record db = Inr ee"
  shows "dom (get (ee_item_states ee)) = si_id ` set (filter si_enabled items) \<and>
    map fst (se_items (ee_stream ee)) = map si_id (filter si_enabled items) \<and>
    (\<forall>p \<in> set (ee_events ee). \<exists>item \<in> set items. si_enabled item \<and>
      ne_item_id (pn_event p) = si_id item \<and> pn_channel_ids p = si_channel_ids item \<and>
      ne_rule_id (pn_event p) \<in> tr_id ` set (si_trend_rules item))"
proof -
  have "each (eval_item en rx ids m record db) items
      \<lparr>ee_item_states = [], ee_events = [], ee_stream = \<lparr>se_type = ''record_created'', se_monitor_id = mo_id m,
        se_record_id = mr_id record, se_items = []\<rparr>\<rparr> = Inr ee"
    using assms by (simp add: EvaluateExecution_def)
  from eval_items [OF this] show ?thesis by simp
qed

lemma evaluation_covers_enabled_items_witness:
  "dom (get (ee_item_states (projr (EvaluateExecution (test_engine True) (\<lambda>_. None) (\<lambda>_ _. ''e'')
     (test_monitor ''m'') (test_board_record ''r'' ''false'') (board_db [accepted_item []]))))) = {''i''}"
proof -
  let ?db = "board_db [accepted_item []]"
  have l: "ListStatusBoardItemsByMonitor (test_engine True) (mo_id (test_monitor ''m'')) ?db =
      Inr [statusBoardItemToDomain (accepted_item [])]"
    by (simp add: ListStatusBoardItemsByMonitor_def listStatusBoardItems_def run_def test_engine_def board_db_def
        test_monitor_def accepted_item_def board_item_def)
  have e: "si_enabled (statusBoardItemToDomain (accepted_item []))" "si_id (statusBoardItemToDomain (accepted_item [])) = ''i''"
    "si_trend_rules (statusBoardItemToDomain (accepted_item [])) = []"
    by (simp_all add: statusBoardItemToDomain_def accepted_item_def board_item_def)
  have "ListRecords (test_engine True) ''m'' 0 ?db = Inr []"
    by (simp add: ListRecords_def ListRecordsPage_def first_page_def normalizePage_def run_def
        test_engine_def board_db_def empty_db_def order_desc_def page_rows_def make_page_def)
  then have "is_ok (EvaluateExecution (test_engine True) (\<lambda>_. None) (\<lambda>_ _. ''e'')
     (test_monitor ''m'') (test_board_record ''r'' ''false'') ?db)"
    unfolding EvaluateExecution_def l
    by (simp add: eval_item_def window_samples_def e max_window_def Let_def test_monitor_def)
  then obtain ee where ee: "EvaluateExecution (test_engine True) (\<lambda>_. None) (\<lambda>_ _. ''e'')
     (test_monitor ''m'') (test_board_record ''r'' ''false'') ?db = Inr ee" by (auto simp: is_ok_iff)
  from evaluation_covers_enabled_items [OF l ee] show ?thesis by (simp add: ee e)
qed

end
