(* ===== verification/GoRunes.thy ===== *)
theory GoRunes
  imports GoStrings
begin

section \<open>UTF-8: strings and runes\<close>

text \<open>
  The conversions between \<open>string\<close> and \<open>[]rune\<close> of \<open>GoStrings\<close> are inverse on valid runes, so
  that cutting a text to a number of runes, as the program does in several places, gives
  a text with that number of runes.
\<close>

definition valid_rune :: "nat \<Rightarrow> bool" where
  "valid_rune r \<longleftrightarrow> r \<le> 0x10FFFF \<and> \<not> (0xD800 \<le> r \<and> r \<le> 0xDFFF)"

lemma rune_error_valid [simp]: "valid_rune rune_error"
  by (simp add: valid_rune_def rune_error_def)

text \<open>Decoding gives a valid rune, also where the bytes are not valid UTF-8.\<close>

lemma decode_valid: "valid_rune (fst (decode_rune s))"
proof (cases s)
  case (Cons a t)
  have "valid_rune r" if "r < 0xD800" for r using that by (simp add: valid_rune_def)
  moreover have "valid_rune ((ord a - 0xE0) * 4096 + (x - 0x80) * 64 + (y - 0x80))"
    if "second_ok (ord a) x" "0x80 \<le> y" "y \<le> 0xBF" "0xE0 \<le> ord a" "ord a \<le> 0xEF" for x y
    using that by (auto simp: valid_rune_def second_ok_def split: if_splits)
  moreover have "valid_rune ((ord a - 0xF0) * 262144 + (x - 0x80) * 4096 + (y - 0x80) * 64 + (z - 0x80))"
    if "second_ok (ord a) x" "0x80 \<le> y" "y \<le> 0xBF" "0x80 \<le> z" "z \<le> 0xBF" "0xF0 \<le> ord a" "ord a \<le> 0xF4" for x y z
    using that by (auto simp: valid_rune_def second_ok_def split: if_splits)
  moreover have "(ord a - 0xC0) * 64 + (ord b - 0x80) < 0xD800" if "ord a \<le> 0xDF" "cont b" for b
    using that by (auto simp: cont_def)
  ultimately show ?thesis
    by (auto simp: Cons Let_def cont_def split: list.split)
qed simp

lemma runes_valid: "r \<in> set (runes s) \<Longrightarrow> valid_rune r"
proof (induction s rule: length_induct)
  case (1 s)
  show ?case
  proof (cases "s = []")
    case False
    have "length (drop (snd (decode_rune s)) s) < length s"
      using decode_rune_width [OF False] False by (cases s) auto
    with 1(1) have "r \<in> set (runes (drop (snd (decode_rune s)) s)) \<Longrightarrow> valid_rune r" by blast
    with 1(2) show ?thesis
      using decode_valid [of s] by (auto simp: runes_step [OF False])
  qed (use 1 in simp)
qed

text \<open>Decoding inverts encoding.\<close>

lemma decode_encode:
  assumes "valid_rune r"
  shows "decode_rune (encode_rune r @ s) = (r, length (encode_rune r))"
proof -
  have r: "(if r > 0x10FFFF \<or> (0xD800 \<le> r \<and> r \<le> 0xDFFF) then rune_error else r) = r"
    using assms by (auto simp: valid_rune_def)
  have m: "r mod 64 < 64" "r div 64 mod 64 < 64" "r div 4096 mod 64 < 64" by simp_all
  have c: "r mod 64 \<le> 63" "r div 64 mod 64 \<le> 63" using m by linarith+
  have d: "r = r div 64 * 64 + r mod 64" "r div 64 = r div 4096 * 64 + r div 64 mod 64"
    "r div 4096 = r div 262144 * 64 + r div 4096 mod 64"
    by (simp_all add: div_mult2_eq [of r 64 64, simplified] div_mult2_eq [of r 4096 64, simplified])
  consider "r < 0x80" | "0x80 \<le> r" "r < 0x800" | "0x800 \<le> r" "r < 0x10000" | "0x10000 \<le> r" by linarith
  then show ?thesis
  proof cases
    case 1
    then show ?thesis by (simp add: encode_rune_def r ord_byte)
  next
    case 2
    then have b: "r div 64 < 32" "2 \<le> r div 64" by auto
    have e: "encode_rune r = [byte (0xC0 + r div 64), byte (0x80 + r mod 64)]"
      unfolding encode_rune_def r Let_def using 2 by simp
    from b m(1) show ?thesis unfolding e by (simp add: ord_byte cont_def Let_def)
  next
    case 3
    then have b: "r div 4096 < 16" by auto
    have "second_ok (0xE0 + r div 4096) (0x80 + r div 64 mod 64)"
    proof -
      have "32 \<le> r div 64 mod 64" if "r div 4096 = 0" using that 3 d by linarith
      moreover have "r div 64 mod 64 < 32" if "r div 4096 = 13"
      proof -
        have "r < 0xE000" using that d m by linarith
        with assms have "r < 0xD800" by (simp add: valid_rune_def)
        with that d show ?thesis by linarith
      qed
      ultimately show ?thesis using m b by (auto simp: second_ok_def)
    qed
    moreover have e: "encode_rune r = [byte (0xE0 + r div 4096), byte (0x80 + (r div 64) mod 64), byte (0x80 + r mod 64)]"
      unfolding encode_rune_def r Let_def using 3 by simp
    moreover have "r div 4096 * 4096 + r div 64 mod 64 * 64 + r mod 64 = r" using d by linarith
    ultimately show ?thesis using b m c unfolding e by (simp add: ord_byte cont_def Let_def)
  next
    case 4
    have le: "r \<le> 0x10FFFF" using assms by (simp add: valid_rune_def)
    then have b: "r div 262144 \<le> 4" by auto
    have "second_ok (0xF0 + r div 262144) (0x80 + r div 4096 mod 64)"
    proof -
      have "16 \<le> r div 4096 mod 64" if "r div 262144 = 0" using that 4 d by linarith
      moreover have "r div 4096 mod 64 < 16" if "r div 262144 = 4" using that le d m by linarith
      ultimately show ?thesis using m b by (auto simp: second_ok_def)
    qed
    moreover have e: "encode_rune r = [byte (0xF0 + r div 262144), byte (0x80 + (r div 4096) mod 64),
         byte (0x80 + (r div 64) mod 64), byte (0x80 + r mod 64)]"
      unfolding encode_rune_def r Let_def using 4 by simp
    moreover have "r div 262144 * 262144 + r div 4096 mod 64 * 4096 + r div 64 mod 64 * 64 + r mod 64 = r"
      using d by linarith
    moreover have o: "ord (byte (128 + r div 4096 mod 64)) = 128 + r div 4096 mod 64"
      by (rule ord_byte) (use m in linarith)
    ultimately show ?thesis using b m c unfolding e by (simp add: o ord_byte cont_def Let_def)
  qed
qed

lemma encode_ne [simp]: "encode_rune r \<noteq> []"
  by (simp add: encode_rune_def Let_def)

lemma runes_of_runes: "\<forall>r \<in> set rs. valid_rune r \<Longrightarrow> runes (of_runes rs @ s) = rs @ runes s"
proof (induction rs)
  case (Cons r rs)
  then have "decode_rune (encode_rune r @ of_runes rs @ s) = (r, length (encode_rune r))"
    by (simp add: decode_encode)
  moreover have "encode_rune r @ of_runes rs @ s \<noteq> []" by simp
  ultimately show ?case using Cons runes_step [of "encode_rune r @ of_runes rs @ s"] by (simp add: of_runes_def)
qed (simp add: of_runes_def)

text \<open>The common shape of the program's truncations.\<close>

definition cut_runes :: "nat \<Rightarrow> string \<Rightarrow> string" where
  "cut_runes n s = of_runes (take n (runes s)) @ ''...''"

lemma runes_cut: "runes (cut_runes n s) = take n (runes s) @ map ord ''...''"
proof -
  have "\<forall>r \<in> set (take n (runes s)). valid_rune r" using runes_valid by (auto dest: in_set_takeD)
  moreover have "\<forall>c \<in> set ''...''. ord c < 128" by (simp add: ord_def)
  ultimately show ?thesis unfolding cut_runes_def by (simp only: runes_of_runes ascii_runes)
qed

end
