(* ===== verification/Summary.thy ===== *)
theory Summary
  imports StatusService GoRunes
begin

section \<open>The summary of an execution (internal/runtime/summary.go)\<close>

text \<open>
  The text that a record, its notifications and the log carry. Of the messages of the
  condition engine, those that the code writes are given here; the texts that Go's library
  writes (of \<open>strconv\<close> and \<open>regexp\<close>, and the quoting of an operator) are the parameter \<open>lib\<close>.
\<close>

definition type_name :: "val \<Rightarrow> string" where
  "type_name v =
     (case v of
        VNil \<Rightarrow> ''<nil>'' | VBool _ \<Rightarrow> ''bool'' | VNum _ \<Rightarrow> ''float64'' | VInt _ \<Rightarrow> ''int''
      | VI64 _ \<Rightarrow> ''int64'' | VStr _ \<Rightarrow> ''string'' | VArr _ \<Rightarrow> ''[]interface {}''
      | VObj _ \<Rightarrow> ''map[string]interface {}'')"

definition message_text :: "(cond_msg \<Rightarrow> string) \<Rightarrow> cond_msg \<Rightarrow> string" where
  "message_text lib msg =
     (case msg of
        BaselineEstablished \<Rightarrow> ''baseline established''
      | MissingEither \<Rightarrow> ''value is missing from current or previous result''
      | MissingValue \<Rightarrow> ''value is missing from result''
      | MissingComparison \<Rightarrow> ''comparison value is missing from current or previous result''
      | NotNumeric v \<Rightarrow> type_name v @ '' is not numeric''
      | RegexNotString \<Rightarrow> ''regex value must be a string''
      | BetweenShape \<Rightarrow> ''between value must contain two numbers''
      | BetweenNotNumeric \<Rightarrow> ''between values must be numeric''
      | NoContains \<Rightarrow> ''value does not support contains''
      | NotMeasurable \<Rightarrow> ''value or comparison is not measurable''
      | NotBoolean \<Rightarrow> ''value is not boolean''
      | BadNumber _ _ \<Rightarrow> lib msg
      | BadRegex _ \<Rightarrow> lib msg
      | UnsupportedOperator _ \<Rightarrow> lib msg)"

subsection \<open>Values and labels\<close>

definition maxSummaryValueLength :: nat where
  "maxSummaryValueLength = 600"

definition truncateSummaryValue :: "string \<Rightarrow> nat \<Rightarrow> string" where
  "truncateSummaryValue v limit =
     (if length (runes v) \<le> limit then v else cut_runes limit v)"

definition one_line :: "string \<Rightarrow> string" where
  "one_line s = replace_char (byte 10) [byte 92, CHR ''n''] (replace_char (byte 13) [] s)"

definition summaryValue :: "val \<Rightarrow> string" where
  "summaryValue v =
     (if v = VNil then txt_empty
      else truncateSummaryValue
        (case v of
           VStr s \<Rightarrow> one_line s
         | _ \<Rightarrow> (case json_marshal v of Some t \<Rightarrow> t | None \<Rightarrow> sprint v))
        maxSummaryValueLength)"

definition executionStateLabel :: "bool \<Rightarrow> string" where
  "executionStateLabel success = (if success then txt_success else txt_failure)"

definition eventTypeLabel :: "string \<Rightarrow> string" where
  "eventTypeLabel t =
     (if t = ''triggered'' then txt_triggered
      else if t = ''recovered'' then txt_recovered
      else if t = ''none'' then txt_no_event
      else if t = [] then txt_undetermined else t)"

definition conditionStateLabel :: "string \<Rightarrow> string" where
  "conditionStateLabel s =
     (if s = ''true'' then txt_satisfied
      else if s = ''false'' then txt_unsatisfied
      else if s = ''unknown'' then txt_unknown
      else if s = [] then txt_undetermined else s)"

definition ruleStateLabel :: "string \<Rightarrow> string" where
  "ruleStateLabel s =
     (if s = ''true'' then txt_satisfied
      else if s = ''false'' then txt_unsatisfied
      else if s = ''unknown'' then txt_unknown
      else if s = [] then txt_undetermined else s)"

definition source_label :: "string \<Rightarrow> string" where
  "source_label s = (if s = ''previous'' then txt_previous_result else txt_current_result)"

definition operatorLabel :: "string \<Rightarrow> string" where
  "operatorLabel op = (case get operator_texts op of Some l \<Rightarrow> l | None \<Rightarrow> op)"

subsection \<open>Conditions\<close>

definition resultFieldLabel :: "module_descriptor \<Rightarrow> string \<Rightarrow> string" where
  "resultFieldLabel d field =
     (case first_some (\<lambda>s. first_some
          (\<lambda>f. if field = st_key s @ ''.'' @ rf_name f then Some (rf_label f) else None) (st_fields s))
        (md_result_sets (WithCommonResultSets d)) of
        Some l \<Rightarrow> l
      | None \<Rightarrow> (case find_first (\<lambda>f. field = fd_name f) (md_fields d) of
          Some f \<Rightarrow> fd_label f | None \<Rightarrow> []))"

definition conditionFieldDisplay :: "module_descriptor \<Rightarrow> string \<Rightarrow> string \<Rightarrow> string" where
  "conditionFieldDisplay d field path =
     (let key = (if path = [] then field else field @ ''.'' @ trim_prefix path ''.'');
          label = resultFieldLabel d field
      in if label = [] then key else label @ txt_open_paren @ key @ txt_close_paren)"

definition expected_text :: "rule_result \<Rightarrow> string" where
  "expected_text r =
     (if rr_expected r = VNil then []
      else let source = (if rr_operator r = ''changed'' then ''previous'' else rr_value_source r) in
        (if source = ''current'' \<or> source = ''previous'' then '' '' @ source_label source else []) @
        txt_expected @ summaryValue (rr_expected r))"

definition actual_text :: "rule_result \<Rightarrow> string" where
  "actual_text r =
     (if rr_actual r \<noteq> VNil then txt_actual @ summaryValue (rr_actual r)
      else if rr_message r \<noteq> None then txt_actual_missing else [])"

definition note_text :: "(cond_msg \<Rightarrow> string) \<Rightarrow> rule_result \<Rightarrow> string" where
  "note_text lib r =
     (case rr_message r of
        None \<Rightarrow> []
      | Some msg \<Rightarrow> txt_note @ summaryValue (VStr (message_text lib msg)))"

definition detail_line :: "(cond_msg \<Rightarrow> string) \<Rightarrow> module_descriptor \<Rightarrow> nat \<times> rule_result \<Rightarrow> string" where
  "detail_line lib d ir =
     (let (i, r) = ir in
      itoa (int i + 1) @ ''. ['' @ ruleStateLabel (rr_state r) @ ''] '' @ source_label (rr_source r) @
      txt_dot @ conditionFieldDisplay d (rr_field r) (rr_path r) @ '' '' @ operatorLabel (rr_operator r) @
      expected_text r @ actual_text r @ note_text lib r)"

definition conditionSummary ::
    "(cond_msg \<Rightarrow> string) \<Rightarrow> module_descriptor \<Rightarrow> evaluation \<Rightarrow> string \<Rightarrow> nat \<Rightarrow> string" where
  "conditionSummary lib d ev logic matched =
     (if ev_details ev = [] then txt_condition_unset
      else join_with [byte 10]
        ((txt_condition_state @ conditionStateLabel (ev_state ev) @ txt_open_paren @ logic @
            txt_logic_matched @ itoa (int matched) @ ''/'' @ itoa (int (length (ev_details ev))) @ txt_items_close) #
         txt_condition_details # map (detail_line lib d) (List.enumerate 0 (ev_details ev))))"

definition common_lines ::
    "(cond_msg \<Rightarrow> string) \<Rightarrow> module_descriptor \<Rightarrow> bool \<Rightarrow> int \<Rightarrow> string \<Rightarrow> string \<Rightarrow> string \<Rightarrow>
     evaluation \<Rightarrow> string \<Rightarrow> nat \<Rightarrow> string list" where
  "common_lines lib d success duration code msg event ev logic matched =
     [txt_exec_result @ executionStateLabel success,
      txt_exec_duration @ itoa duration @ '' ms''] @
     (if code = [] then [] else [txt_error_code @ code]) @
     (if msg = [] then [] else [txt_error_message @ summaryValue (VStr msg)]) @
     [txt_event_type @ eventTypeLabel event, conditionSummary lib d ev logic matched]"

definition composeExecutionSummary ::
    "(cond_msg \<Rightarrow> string) \<Rightarrow> module_descriptor \<Rightarrow> string \<Rightarrow> bool \<Rightarrow> int \<Rightarrow> string \<Rightarrow> string \<Rightarrow> string \<Rightarrow>
     evaluation \<Rightarrow> string \<Rightarrow> nat \<Rightarrow> string" where
  "composeExecutionSummary lib d moduleSummary success duration code msg event ev logic matched =
     join_with [byte 10, byte 10]
       ((if trim_space moduleSummary = [] then [] else [trim_space moduleSummary]) @
        [join_with [byte 10] (common_lines lib d success duration code msg event ev logic matched)])"

subsection \<open>The line that is logged (runtime.go)\<close>

definition log_line :: "string \<Rightarrow> string" where
  "log_line line =
     (if 160 < length (runes line) then cut_runes 157 line else line)"

definition executionLogSummary :: "string \<Rightarrow> string" where
  "executionLogSummary summary =
     (case find_first (\<lambda>l. l \<noteq> []) (map trim_space (split_on (byte 10) summary)) of
        None \<Rightarrow> ''-''
      | Some l \<Rightarrow> log_line l)"

subsection \<open>Bounds\<close>

lemma cut_length: "n < length (runes s) \<Longrightarrow> length (runes (cut_runes n s)) = n + 3"
  by (simp add: runes_cut)

text \<open>
  A value never takes more than 603 characters of a summary: the first 600 and an ellipsis,
  counted in runes, for every value and also for invalid UTF-8.
\<close>

theorem summary_value_bounded:
  "length (runes (summaryValue v)) \<le> maxSummaryValueLength + 3"
proof -
  have "length (runes (truncateSummaryValue s maxSummaryValueLength)) \<le> maxSummaryValueLength + 3" for s
    by (simp add: truncateSummaryValue_def cut_length)
  moreover have "length (runes txt_empty) \<le> maxSummaryValueLength + 3"
    using length_runes [of txt_empty] by (simp add: txt_empty_def utf8_def maxSummaryValueLength_def)
  ultimately show ?thesis by (simp add: summaryValue_def)
qed

end
