(* ===== verification/Runner.thy ===== *)
theory Runner
  imports Summary
begin

section \<open>Running a monitor (internal/runtime/runtime.go)\<close>

text \<open>
  One execution of a monitor: its module is called, the result is completed and judged by
  the condition, the status items are evaluated, and everything is committed in one
  transaction; then the notifications are sent. What the code takes from outside is the
  record \<open>run_env\<close>: the database engine, Go's regular expressions and library texts, the
  hash, the clock and the drawn identifiers.
\<close>

record run_env =
  xe_engine :: engine
  xe_regex :: regex
  xe_lib :: "cond_msg \<Rightarrow> string"
  xe_hash :: "string \<Rightarrow> string"
  xe_json_error :: string
  xe_started :: time
  xe_finished :: time
  xe_duration_ms :: int
  xe_record_id :: string
  xe_event_id :: string
  xe_trend_ids :: "string \<Rightarrow> string \<Rightarrow> string"
  xe_delivery_ids :: "string \<Rightarrow> string \<Rightarrow> string"
  xe_commit_time :: time
  xe_board :: bool

datatype run_error =
    RunStore db_error
  | ModuleUnavailable string
  | CommitFailed db_error

subsection \<open>Availability\<close>

definition ModuleAvailable :: "registry \<Rightarrow> string \<Rightarrow> string \<Rightarrow> bool" where
  "ModuleAvailable modules t version =
     (case Get t modules of
        None \<Rightarrow> False
      | Some m \<Rightarrow> version = [] \<or> md_version (mm_descriptor m) = version)"

definition required_module :: "registry \<Rightarrow> monitor \<Rightarrow> run_error + mon_module" where
  "required_module modules m =
     (case Get (mo_module_type m) modules of
        None \<Rightarrow> Inl (ModuleUnavailable (mo_module_type m))
      | Some impl \<Rightarrow>
          if mo_module_version m \<noteq> [] \<and> md_version (mm_descriptor impl) \<noteq> mo_module_version m
          then Inl (ModuleUnavailable (mo_module_type m)) else Inr impl)"

subsection \<open>Completing the observation\<close>

definition result_sets_into :: "obj go_map \<Rightarrow> obj \<Rightarrow> obj" where
  "result_sets_into sets m = fold (\<lambda>(k, vals). put k (VObj vals)) sets m"

definition executed_ok :: "observation \<Rightarrow> string option \<Rightarrow> bool" where
  "executed_ok ob err \<longleftrightarrow> ob_success ob \<and> err = None"

text \<open>The observation after the error of the call has been entered, without its result.\<close>

definition enter_error :: "observation \<Rightarrow> string option \<Rightarrow> observation" where
  "enter_error ob err =
     (case err of
        None \<Rightarrow> ob
      | Some e \<Rightarrow> ob\<lparr>ob_success := False,
          ob_error_code := (if ob_error_code ob = [] then ''execution_error'' else ob_error_code ob),
          ob_error_message := (if ob_error_message ob = [] then e else ob_error_message ob)\<rparr>)"

definition complete_result :: "observation \<Rightarrow> string option \<Rightarrow> int \<Rightarrow> obj" where
  "complete_result ob err duration =
     (let m = put ''duration_ms'' (VI64 duration) (put ''success'' (VBool (executed_ok ob err))
            (result_sets_into (ob_result_sets ob) (obj_of (ob_result ob))))
      in case err of None \<Rightarrow> m
         | Some _ \<Rightarrow> put ''error'' (VStr (ob_error_message (enter_error ob err))) m)"

text \<open>The observation with the error of a condition configuration that does not decode.\<close>

definition enter_config_error :: "run_env \<Rightarrow> monitor \<Rightarrow> observation \<Rightarrow> observation" where
  "enter_config_error env m ob =
     (if mo_condition_config m = None
      then ob\<lparr>ob_error_code := ''invalid_condition_config'', ob_error_message := xe_json_error env\<rparr>
      else ob)"

definition decoded_config :: "monitor \<Rightarrow> cond_config" where
  "decoded_config m =
     (case mo_condition_config m of
        None \<Rightarrow> \<lparr>cc_logic = [], cc_rules = [], cc_policy = []\<rparr> | Some c \<Rightarrow> c)"

definition execution_result :: "observation \<Rightarrow> bool \<Rightarrow> int \<Rightarrow> obj" where
  "execution_result ob success duration =
     [(''success'', VBool success), (''duration_ms'', VI64 duration),
      (''error_code'', VStr (ob_error_code ob)), (''error_message'', VStr (ob_error_message ob)),
      (''summary'', VStr (ob_summary ob))]"

subsection \<open>The edge of the condition\<close>

definition condition_edge :: "string \<Rightarrow> string \<Rightarrow> bool \<Rightarrow> string \<times> bool" where
  "condition_edge policy verdict active =
     (if verdict = ''true''
      then (if policy = ''every'' \<or> \<not> active then ''triggered'' else ''none'', True)
      else if verdict = ''false'' then (if active then ''recovered'' else ''none'', False)
      else (''none'', active))"

subsection \<open>The details in the result\<close>

text \<open>
  The map \<open>executionResult\<close> is part of the result that the rules read, and the details of the
  rules are later stored in that same map. A rule that reads the whole map therefore makes
  it contain itself, and \<open>json.Marshal\<close> refuses to encode it. The model has no sharing: the
  reference of the map to itself is the value \<open>self_reference\<close>, which encodes to an error
  as well. Only the map itself has an \<open>int64\<close> duration, so a value equal to it is the map.
  In the event that is sent, a detail keeps the map as it was when the rules read it.
\<close>

definition self_reference :: val where
  "self_reference = VNum NaN"

definition link_self :: "obj \<Rightarrow> val \<Rightarrow> val" where
  "link_self er v = (if v = VObj er then self_reference else v)"

definition omit_empty :: "string \<Rightarrow> string \<Rightarrow> obj" where
  "omit_empty k s = (if s = [] then [] else [(k, VStr s)])"

definition omit_nil :: "string \<Rightarrow> val \<Rightarrow> obj" where
  "omit_nil k v = (if v = VNil then [] else [(k, v)])"

text \<open>A \<open>core.RuleResult\<close> as JSON sees it, with its \<open>omitempty\<close> fields.\<close>

definition rule_val :: "(cond_msg \<Rightarrow> string) \<Rightarrow> obj \<Rightarrow> rule_result \<Rightarrow> val" where
  "rule_val lib er r =
     VObj ([(''id'', VStr (rr_id r)), (''field'', VStr (rr_field r))] @
       omit_empty ''source'' (rr_source r) @ omit_empty ''path'' (rr_path r) @
       [(''operator'', VStr (rr_operator r)), (''state'', VStr (rr_state r))] @
       omit_nil ''expected'' (link_self er (rr_expected r)) @ omit_nil ''actual'' (link_self er (rr_actual r)) @
       omit_empty ''value_source'' (rr_value_source r) @ omit_empty ''value_field'' (rr_value_field r) @
       omit_empty ''message'' (case rr_message r of None \<Rightarrow> [] | Some e \<Rightarrow> message_text lib e))"

definition final_execution_result ::
    "(cond_msg \<Rightarrow> string) \<Rightarrow> obj \<Rightarrow> string \<Rightarrow> evaluation \<Rightarrow> string \<Rightarrow> string \<Rightarrow> nat \<Rightarrow> obj" where
  "final_execution_result lib er summary ev event logic matched =
     put ''condition_details'' (VArr (map (rule_val lib er) (ev_details ev)))
     (put ''matched_count'' (VInt (int matched))
     (put ''condition_logic'' (VStr logic)
     (put ''event_type'' (VStr event)
     (put ''condition_state'' (VStr (ev_state ev))
     (put ''triggered'' (VBool (ev_state ev = ''true''))
     (put ''summary'' (VStr summary) er))))))"

subsection \<open>One execution\<close>

text \<open>What the execution computes before the status board and the store are involved.\<close>

record judged =
  jd_record :: monitor_record
  jd_state :: runtime_state
  jd_events :: "pending_notification list"

definition condition_event ::
    "run_env \<Rightarrow> monitor \<Rightarrow> monitor_record \<Rightarrow> string \<Rightarrow> evaluation \<Rightarrow> obj option \<Rightarrow> pending_notification" where
  "condition_event env m r summary ev previous =
     \<lparr>pn_event = \<lparr>ne_id = xe_event_id env, ne_source = ''monitor_condition'', ne_event_type = mr_event_type r,
        ne_monitor_id = mo_id m, ne_record_id = mr_id r, ne_monitor_name = mo_name m,
        ne_module_type = mo_module_type m, ne_triggered_at = xe_finished env,
        ne_condition_state = ev_state ev, ne_summary = summary, ne_previous_result = previous,
        ne_current_result = mr_result r, ne_condition_detail = ev_details ev, ne_item_id = [],
        ne_item_name = [], ne_rule_id = [], ne_rule_name = [], ne_trend_detail = None\<rparr>,
      pn_channel_ids = mo_channel_ids m\<rparr>"

definition judge ::
    "run_env \<Rightarrow> monitor \<Rightarrow> module_descriptor \<Rightarrow> observation \<times> string option \<Rightarrow> obj option \<Rightarrow> judged" where
  "judge env m d outcome previous =
     (let (ob0, err) = outcome;
          ob = enter_config_error env m (enter_error ob0 err);
          success = executed_ok ob0 err;
          duration = xe_duration_ms env;
          config = decoded_config m;
          er = execution_result ob success duration;
          current = put ''summary'' (VObj er) (complete_result ob0 err duration);
          ev = EvaluateConditions (xe_regex env) config current previous;
          logic = effective_logic (cc_logic config);
          matched = count_state ''true'' (ev_details ev);
          st = (case mo_runtime_state m of None \<Rightarrow> zero_runtime_state | Some s \<Rightarrow> s);
          (event, active) = condition_edge (NormalizeNotificationPolicy (cc_policy config))
            (ev_state ev) (rs_condition_active st);
          summary = composeExecutionSummary (xe_lib env) d (ob_summary ob) success duration
            (ob_error_code ob) (ob_error_message ob) event ev logic matched;
          result = put ''summary'' (VObj (final_execution_result (xe_lib env) er summary ev event logic matched)) current;
          r = \<lparr>mr_id = xe_record_id env, mr_monitor_id = mo_id m, mr_module_type = mo_module_type m,
            mr_module_version = md_version d, mr_started_at = xe_started env, mr_finished_at = xe_finished env,
            mr_success = success, mr_duration_ms = duration,
            mr_schema_version = (if ob_schema_version ob0 = [] then md_version d else ob_schema_version ob0),
            mr_result = result, mr_result_hash = xe_hash env (json_text (VObj result)),
            mr_condition_state = ev_state ev, mr_event_type = event, mr_events = [],
            mr_error_code = ob_error_code ob, mr_error_message = ob_error_message ob\<rparr>
      in \<lparr>jd_record = r,
          jd_state = st\<lparr>rs_condition_active := active, rs_last_record_id := xe_record_id env,
            rs_last_run_at := xe_finished env, rs_last_success := success, rs_last_summary := summary\<rparr>,
          jd_events = (if event = ''none'' then []
            else [condition_event env m r summary ev previous])\<rparr>)"

definition pending_event :: "pending_notification \<Rightarrow> record_event" where
  "pending_event p =
     (let e = pn_event p in
      \<lparr>re_id = ne_id e, re_source = ne_source e, re_event_type = ne_event_type e, re_item_id = ne_item_id e,
       re_item_name = ne_item_name e, re_rule_id = ne_rule_id e, re_rule_name = ne_rule_name e,
       re_trend_detail = ne_trend_detail e, re_summary = ne_summary e,
       re_deliveries = fold (\<lambda>c. put c \<lparr>dl_status = ''pending'', dl_attempts = 0, dl_message = []\<rparr>)
         (pn_channel_ids p) []\<rparr>)"

definition pendingRecordEvents :: "pending_notification list \<Rightarrow> record_event list" where
  "pendingRecordEvents todo = map pending_event todo"

record run_outcome =
  xo_record :: monitor_record
  xo_pending :: "pending_notification list"
  xo_stream :: "stream_event option"
  xo_db :: db

definition board_evaluation :: "run_env \<Rightarrow> monitor \<Rightarrow> monitor_record \<Rightarrow> db \<Rightarrow> execution_evaluation option" where
  "board_evaluation env m r db =
     (if \<not> xe_board env then None
      else (case EvaluateExecution (xe_engine env) (xe_regex env) (xe_trend_ids env) m r db of
         Inl _ \<Rightarrow> None | Inr ee \<Rightarrow> Some ee))"

definition previous_result :: "run_env \<Rightarrow> string \<Rightarrow> db \<Rightarrow> db_error + obj option" where
  "previous_result env mid db =
     (case LatestSuccessfulRecord (xe_engine env) mid db of
        Inr r \<Rightarrow> Inr (Some (mr_result r))
      | Inl NoRows \<Rightarrow> Inr None
      | Inl e \<Rightarrow> Inl e)"

definition commit_run :: "run_env \<Rightarrow> monitor \<Rightarrow> judged \<Rightarrow> db \<Rightarrow> run_error + run_outcome" where
  "commit_run env m j db =
     (let ee = board_evaluation env m (jd_record j) db;
          todo = jd_events j @ (case ee of None \<Rightarrow> [] | Some x \<Rightarrow> ee_events x);
          r = (jd_record j)\<lparr>mr_events := pendingRecordEvents todo\<rparr>
      in case CommitMonitorExecution (xe_engine env) (xe_delivery_ids env) (xe_commit_time env) r (mo_id m)
           (jd_state j) (case ee of None \<Rightarrow> [] | Some x \<Rightarrow> ee_item_states x) db of
           Inl e \<Rightarrow> Inl (CommitFailed e)
         | Inr db' \<Rightarrow> Inr \<lparr>xo_record = r, xo_pending = todo, xo_stream = map_option ee_stream ee, xo_db = db'\<rparr>)"

definition as_run_error :: "db_error + 'a \<Rightarrow> run_error + 'a" where
  "as_run_error r = (case r of Inl e \<Rightarrow> Inl (RunStore e) | Inr x \<Rightarrow> Inr x)"

definition runLocked :: "run_env \<Rightarrow> registry \<Rightarrow> string \<Rightarrow> db \<Rightarrow> run_error + run_outcome" where
  "runLocked env modules mid db =
     ok_then (as_run_error (GetMonitor (xe_engine env) mid db)) (\<lambda>m.
     ok_then (required_module modules m) (\<lambda>impl.
     ok_then (as_run_error (previous_result env mid db)) (\<lambda>previous.
       commit_run env m
         (judge env m (mm_descriptor impl) (mm_execute impl (mo_module_config m)) previous) db)))"

subsection \<open>Sending the notifications\<close>

text \<open>
  A notifier's \<open>Send\<close>: of the attempt, the channel's configuration and the event it makes an
  error or none, and it may write to the store as the in-app notifier does.
\<close>

type_synonym sender = "nat \<Rightarrow> val \<Rightarrow> notification_event \<Rightarrow> db \<Rightarrow> string option \<times> db"

text \<open>The loop over the attempts: \<open>left\<close> more after this one.\<close>

fun send_attempts :: "(nat \<Rightarrow> db \<Rightarrow> string option \<times> db) \<Rightarrow> nat \<Rightarrow> nat \<Rightarrow> db \<Rightarrow> string option \<times> nat \<times> db" where
  "send_attempts send attempt 0 db = (let (err, db') = send attempt db in (err, attempt, db'))"
| "send_attempts send attempt (Suc left) db =
     (case send attempt db of
        (None, db') \<Rightarrow> (None, attempt, db')
      | (Some e, db') \<Rightarrow> send_attempts send (attempt + 1) left db')"

record send_env =
  sn_engine :: engine
  sn_notifiers :: "string \<Rightarrow> sender option"
  sn_error_text :: "db_error \<Rightarrow> string"
  sn_now :: time
  sn_new_id :: "string \<Rightarrow> string \<Rightarrow> string"

definition pending_delivery_record :: "send_env \<Rightarrow> string \<Rightarrow> string \<Rightarrow> notification_event \<Rightarrow> delivery_record" where
  "pending_delivery_record env rid cid e =
     \<lparr>dr_id = sn_new_id env (ne_id e) cid, dr_event_id = ne_id e, dr_source = ne_source e,
      dr_event_type = ne_event_type e, dr_item_id = ne_item_id e, dr_rule_id = ne_rule_id e,
      dr_channel_id = cid, dr_notifier_type = ''unknown'', dr_monitor_id = ne_monitor_id e,
      dr_record_id = rid, dr_title = [], dr_content = ne_summary e, dr_status = ''pending'', dr_attempts = 0,
      dr_message = [], dr_read = False, dr_created_at = sn_now env, dr_updated_at = sn_now env,
      dr_delivered_at = None, dr_read_at = None\<rparr>"

definition deliver :: "send_env \<Rightarrow> channel \<Rightarrow> notification_event \<Rightarrow> db \<Rightarrow> delivery \<times> db" where
  "deliver env c e db =
     (if \<not> ch_enabled c
      then (\<lparr>dl_status = ''skipped'', dl_attempts = 0, dl_message = ''channel disabled''\<rparr>, db)
      else (case sn_notifiers env (ch_notifier_type c) of
          None \<Rightarrow> (\<lparr>dl_status = ''error'', dl_attempts = 0, dl_message = ''unknown notifier type''\<rparr>, db)
        | Some send \<Rightarrow>
            (case send_attempts (\<lambda>attempt. send attempt (ch_config c) e) 1 2 db of
               (None, n, db') \<Rightarrow> (\<lparr>dl_status = ''sent'', dl_attempts = int n, dl_message = []\<rparr>, db')
             | (Some err, n, db') \<Rightarrow> (\<lparr>dl_status = ''error'', dl_attempts = int n, dl_message = err\<rparr>, db'))))"

definition sendNotification ::
    "send_env \<Rightarrow> string \<Rightarrow> string \<Rightarrow> notification_event \<Rightarrow> db \<Rightarrow> delivery \<times> db" where
  "sendNotification env rid cid e db =
     (let en = sn_engine env;
          db1 = or_same db (CreateNotificationDelivery en (sn_new_id env (ne_id e) cid) (sn_now env)
            (pending_delivery_record env rid cid e) db)
      in case GetChannel en cid db1 of
           Inl err \<Rightarrow> (\<lparr>dl_status = ''error'', dl_attempts = 0, dl_message = sn_error_text env err\<rparr>, db1)
         | Inr c \<Rightarrow> deliver env c e
             (or_same db1 (UpdateNotificationDeliveryNotifier en (sn_now env) (ne_id e) cid (ch_notifier_type c) db1)))"

definition send_channel ::
    "send_env \<Rightarrow> string \<Rightarrow> notification_event \<Rightarrow> string \<Rightarrow> record_event \<times> db \<Rightarrow> record_event \<times> db" where
  "send_channel env rid e cid acc =
     (let (ev, db) = acc; (d, db') = sendNotification env rid cid e db
      in (ev\<lparr>re_deliveries := put cid d (re_deliveries ev)\<rparr>, db'))"

fun send_events ::
    "send_env \<Rightarrow> string \<Rightarrow> pending_notification list \<Rightarrow> record_event list \<Rightarrow> db \<Rightarrow> record_event list \<times> db" where
  "send_events env rid (p # ps) (ev # evs) db =
     (let (ev', db1) = fold (send_channel env rid (pn_event p)) (pn_channel_ids p) (ev, db);
          (evs', db2) = send_events env rid ps evs db1
      in (ev' # evs', db2))"
| "send_events env rid ps evs db = (evs, db)"

definition sendNotificationEvents ::
    "send_env \<Rightarrow> string \<Rightarrow> pending_notification list \<Rightarrow> record_event list \<Rightarrow> db \<Rightarrow> db" where
  "sendNotificationEvents env rid todo events db =
     (let (evs, db') = send_events env rid todo events db
      in or_same db' (UpdateRecordNotificationEvents (sn_engine env) (sn_now env) rid evs db'))"

subsection \<open>Facts about attempts\<close>

lemma send_attempts_first:
  assumes "\<And>n db. fst (send n db) = r n"
  shows "fst (send_attempts send a left db) =
      (if \<exists>n \<in> {a..a + left}. r n = None then None else r (a + left)) \<and>
    fst (snd (send_attempts send a left db)) =
      (if \<exists>n \<in> {a..a + left}. r n = None then LEAST n. a \<le> n \<and> r n = None else a + left)"
proof (induction left arbitrary: a db)
  case 0
  have "(LEAST n. a \<le> n \<and> r n = None) = a" if "r a = None"
    using that by (intro Least_equality) auto
  then show ?case using assms [of a db] by (auto simp: case_prod_beta Let_def)
next
  case (Suc left)
  show ?case
  proof (cases "r a")
    case None
    then have "(LEAST n. a \<le> n \<and> r n = None) = a" by (intro Least_equality) auto
    then show ?thesis using assms [of a db] None by (cases "send a db") auto
  next
    case (Some e)
    obtain db' where s: "send a db = (Some e, db')" using assms [of a db] Some by (cases "send a db") auto
    have step: "send_attempts send a (Suc left) db = send_attempts send (a + 1) left db'" using s by simp
    have e: "a + Suc left = a + 1 + left" by simp
    have ge: "(a \<le> n \<and> r n = None) = (a + 1 \<le> n \<and> r n = None)" for n
      using Some by (cases "n = a") auto
    have ex: "(\<exists>n \<in> {a..a + 1 + left}. r n = None) = (\<exists>n \<in> {a + 1..a + 1 + left}. r n = None)"
      using ge by (metis atLeastAtMost_iff)
    show ?thesis unfolding step e ge ex by (rule Suc.IH)
  qed
qed

text \<open>
  A notification to an enabled channel with a known notifier is attempted at most three
  times: it is \<open>sent\<close>, with the number of the first attempt that succeeds, if one of the
  three does; otherwise it is an \<open>error\<close> after three attempts with the error of the last.
\<close>

theorem delivery_attempts:
  assumes "ch_enabled c" and "sn_notifiers env (ch_notifier_type c) = Some send"
    and "\<And>n db. fst (send n (ch_config c) e db) = r n"
  shows "fst (deliver env c e db) =
    (if \<exists>n \<in> {1..3}. r n = None
     then \<lparr>dl_status = ''sent'', dl_attempts = int (LEAST n. 1 \<le> n \<and> r n = None), dl_message = []\<rparr>
     else \<lparr>dl_status = ''error'', dl_attempts = 3, dl_message = the (r 3)\<rparr>)"
proof -
  let ?s = "send_attempts (\<lambda>attempt. send attempt (ch_config c) e) 1 2 db"
  have three: "(1 :: nat) + 2 = 3" by simp
  note h = send_attempts_first [of "\<lambda>attempt. send attempt (ch_config c) e" r 1 2 db, OF assms(3), unfolded three]
  have s: "fst ?s = (if \<exists>n \<in> {1..3}. r n = None then None else r 3)"
    "fst (snd ?s) = (if \<exists>n \<in> {1..3}. r n = None then LEAST n. 1 \<le> n \<and> r n = None else 3)"
    by (rule conjunct1 [OF h], rule conjunct2 [OF h])
  obtain o1 n1 db1 where t: "?s = (o1, n1, db1)" by (cases ?s) auto
  have "r 3 \<noteq> None" if "\<not> (\<exists>n \<in> {1..3}. r n = None)" using that by auto
  then show ?thesis
    using s unfolding t by (auto simp: deliver_def assms(1,2) t [simplified] split: option.split if_splits)
qed

definition test_channel :: channel where
  "test_channel = \<lparr>ch_id = ''c'', ch_name = ''c'', ch_notifier_type = ''webhook'', ch_enabled = True,
     ch_config = VNil, ch_created_at = 0, ch_updated_at = 0, ch_built_in = False\<rparr>"

definition test_send_env :: "(nat \<Rightarrow> string option) \<Rightarrow> send_env" where
  "test_send_env r = \<lparr>sn_engine = test_engine True, sn_notifiers = (\<lambda>_. Some (\<lambda>n _ _ db. (r n, db))),
     sn_error_text = (\<lambda>_. []), sn_now = 0, sn_new_id = (\<lambda>_ _. ''d'')\<rparr>"

definition test_event :: notification_event where
  "test_event = pn_event (trend_event ''e'' (test_monitor ''m'') (test_board_record ''r'' ''true'')
    (board_item []) (count_rule 1 1) Rise [])"

lemma delivery_attempts_witness:
  "fst (deliver (test_send_env (\<lambda>n. if n = 2 then None else Some ''down'')) test_channel test_event empty_db) =
     \<lparr>dl_status = ''sent'', dl_attempts = 2, dl_message = []\<rparr>"
proof -
  let ?r = "\<lambda>n :: nat. if n = 2 then None else Some ''down''"
  have "(LEAST n. 1 \<le> n \<and> ?r n = None) = 2" by (rule Least_equality) (auto split: if_splits)
  moreover have "\<exists>n \<in> {1..3}. ?r n = None" by (rule bexI [of _ 2]) auto
  ultimately show ?thesis
    using delivery_attempts [of test_channel "test_send_env ?r" "\<lambda>n _ _ db. (?r n, db)" test_event ?r empty_db]
    by (simp add: test_channel_def test_send_env_def)
qed

subsection \<open>What a run commits\<close>

lemma evaluation_states_wf:
  assumes "EvaluateExecution en rx ids m r db = Inr ee"
  shows "wf_map (ee_item_states ee)"
proof -
  obtain items where e: "each (eval_item en rx ids m r db) items
      \<lparr>ee_item_states = [], ee_events = [], ee_stream = \<lparr>se_type = ''record_created'', se_monitor_id = mo_id m,
        se_record_id = mr_id r, se_items = []\<rparr>\<rparr> = Inr ee"
    using assms by (auto simp: EvaluateExecution_def ok_then_Inr)
  have step: "wf_map (ee_item_states b)" if "eval_item en rx ids m r db item a = Inr b" "wf_map (ee_item_states a)"
    for item a b
    using that by (auto simp: eval_item_def ok_then_Inr case_prod_beta Let_def split: if_splits)
  show ?thesis
    by (rule each_keeps [OF e, of "\<lambda>x. wf_map (ee_item_states x)"]) (auto intro: step)
qed

definition run_states :: "execution_evaluation option \<Rightarrow> item_runtime go_map" where
  "run_states ee = (case ee of None \<Rightarrow> [] | Some x \<Rightarrow> ee_item_states x)"

lemma board_states_wf: "wf_map (run_states (board_evaluation env m r db))"
  by (auto simp: run_states_def board_evaluation_def dest: evaluation_states_wf split: option.split sum.split)

text \<open>The stages of a successful run.\<close>

lemma runLocked_Inr:
  assumes "runLocked env modules mid db = Inr out"
  obtains m impl previous j states where
    "GetMonitor (xe_engine env) mid db = Inr m"
    "j = judge env m (mm_descriptor impl) (mm_execute impl (mo_module_config m)) previous"
    "xo_record out = (jd_record j)\<lparr>mr_events := pendingRecordEvents (xo_pending out)\<rparr>"
    "\<exists>board. xo_pending out = jd_events j @ board"
    "xo_db out = committed (xe_delivery_ids env) (xe_commit_time env) (xo_record out) (mo_id m) (jd_state j) states db"
    "wf_map states" "Get (mo_module_type m) modules = Some impl"
proof -
  from assms obtain m impl previous where
    m: "GetMonitor (xe_engine env) mid db = Inr m" and i: "required_module modules m = Inr impl" and
    c: "commit_run env m (judge env m (mm_descriptor impl) (mm_execute impl (mo_module_config m)) previous) db = Inr out"
    by (auto simp: runLocked_def ok_then_Inr as_run_error_def split: sum.splits)
  let ?j = "judge env m (mm_descriptor impl) (mm_execute impl (mo_module_config m)) previous"
  let ?ee = "board_evaluation env m (jd_record ?j) db"
  let ?todo = "jd_events ?j @ (case ?ee of None \<Rightarrow> [] | Some x \<Rightarrow> ee_events x)"
  let ?r = "(jd_record ?j)\<lparr>mr_events := pendingRecordEvents ?todo\<rparr>"
  from c obtain db' where
    d: "CommitMonitorExecution (xe_engine env) (xe_delivery_ids env) (xe_commit_time env) ?r (mo_id m)
      (jd_state ?j) (run_states ?ee) db = Inr db'" and
    o: "out = \<lparr>xo_record = ?r, xo_pending = ?todo, xo_stream = map_option ee_stream ?ee, xo_db = db'\<rparr>"
    unfolding commit_run_def Let_def run_states_def by (auto split: sum.split_asm)
  have g: "Get (mo_module_type m) modules = Some impl"
    using i by (auto simp: required_module_def split: option.splits if_splits)
  show ?thesis
    by (rule that [OF m refl, of impl previous "run_states ?ee"])
      (use commit_Inr(1) [OF d board_states_wf] board_states_wf g in \<open>auto simp: o\<close>)
qed

subsection \<open>The events of a condition\<close>

definition old_active :: "monitor \<Rightarrow> bool" where
  "old_active m = (case mo_runtime_state m of None \<Rightarrow> False | Some s \<Rightarrow> rs_condition_active s)"

definition policy_of :: "monitor \<Rightarrow> string" where
  "policy_of m = NormalizeNotificationPolicy (cc_policy (decoded_config m))"

lemma judge_edge:
  "(mr_event_type (jd_record (judge env m d outcome previous)),
    rs_condition_active (jd_state (judge env m d outcome previous))) =
   condition_edge (policy_of m) (mr_condition_state (jd_record (judge env m d outcome previous))) (old_active m)"
  by (simp add: judge_def Let_def case_prod_beta policy_of_def old_active_def zero_runtime_state_def split: option.split)

definition edge_of :: "string \<Rightarrow> edge option" where
  "edge_of event =
     (if event = ''triggered'' then Some Rise else if event = ''recovered'' then Some Fall else None)"

definition once_edge :: "string \<Rightarrow> bool \<Rightarrow> edge option \<times> bool" where
  "once_edge verdict active =
     (edge_of (fst (condition_edge ''once'' verdict active)), snd (condition_edge ''once'' verdict active))"

interpretation condition: edge_detector once_edge
  by unfold_locales (auto simp: once_edge_def condition_edge_def edge_of_def)

lemma event_of_edge:
  "fst (condition_edge p v a) =
   (case edge_of (fst (condition_edge p v a)) of None \<Rightarrow> ''none'' | Some Rise \<Rightarrow> ''triggered'' | Some Fall \<Rightarrow> ''recovered'')"
  by (auto simp: condition_edge_def edge_of_def)

text \<open>Successive runs of one monitor; a run that fails leaves the store as it is.\<close>

fun runs :: "(run_env \<times> registry) list \<Rightarrow> string \<Rightarrow> db \<Rightarrow> monitor_record list \<times> db" where
  "runs [] mid db = ([], db)"
| "runs ((env, modules) # xs) mid db =
     (case runLocked env modules mid db of
        Inl _ \<Rightarrow> runs xs mid db
      | Inr out \<Rightarrow> (let (rs, db') = runs xs mid (xo_db out) in (xo_record out # rs, db')))"

definition stored_monitor :: "string \<Rightarrow> db \<Rightarrow> monitor option" where
  "stored_monitor mid db = map_option mw_monitor (find_first (\<lambda>row. monitor_key row = mid) (db_monitors db))"

lemma GetMonitor_stored: "GetMonitor en mid db = Inr m \<Longrightarrow> stored_monitor mid db = Some m \<and> mo_id m = mid"
  by (auto simp: GetMonitor_def stored_monitor_def ok_then_Inr select_first_def monitorToDomain_def run_def
      split: option.splits if_splits dest: find_first_Some)

text \<open>One run, as the condition sees it.\<close>

lemma run_condition:
  assumes "runLocked env modules mid db = Inr out"
  obtains m m' where "stored_monitor mid db = Some m" "stored_monitor mid (xo_db out) = Some m'"
    "mo_condition_config m' = mo_condition_config m"
    "(mr_event_type (xo_record out), old_active m') =
      condition_edge (policy_of m) (mr_condition_state (xo_record out)) (old_active m)"
proof (rule runLocked_Inr [OF assms])
  fix m impl previous j states
  assume m: "GetMonitor (xe_engine env) mid db = Inr m"
    and j: "j = judge env m (mm_descriptor impl) (mm_execute impl (mo_module_config m)) previous"
    and r: "xo_record out = (jd_record j)\<lparr>mr_events := pendingRecordEvents (xo_pending out)\<rparr>"
    and d: "xo_db out = committed (xe_delivery_ids env) (xe_commit_time env) (xo_record out) (mo_id m) (jd_state j) states db"
  obtain row where row: "find_first (\<lambda>row. monitor_key row = mid) (db_monitors db) = Some row" "mw_monitor row = m"
    and mid: "mo_id m = mid"
    using GetMonitor_stored [OF m] by (auto simp: stored_monitor_def)
  let ?row' = "set_runtime_state (jd_state j) (xe_commit_time env) row"
  have keys: "monitor_key (set_runtime_state st now x) = monitor_key x" for st now x
    by (simp add: set_runtime_state_def)
  have upd: "db_monitors (xo_db out) =
      update_rows (\<lambda>row. monitor_key row = mid) (set_runtime_state (jd_state j) (xe_commit_time env)) (db_monitors db)"
    by (simp add: d committed_def mid)
  have key: "monitor_key row = mid" using find_first_Some [OF row(1)] by simp
  have found: "find_first (\<lambda>row. monitor_key row = mid) (db_monitors (xo_db out)) = Some ?row'"
    unfolding upd by (subst find_first_update) (simp_all add: row(1) key keys)
  have m': "stored_monitor mid (xo_db out) = Some (mw_monitor ?row')"
    unfolding stored_monitor_def found by (rule option.map)
  have st: "mo_runtime_state (mw_monitor ?row') = Some (jd_state j)"
    "mo_condition_config (mw_monitor ?row') = mo_condition_config m"
    using row(2) by (simp_all add: set_runtime_state_def)
  have "(mr_event_type (xo_record out), old_active (mw_monitor ?row')) =
      condition_edge (policy_of m) (mr_condition_state (xo_record out)) (old_active m)"
    using judge_edge [of env m "mm_descriptor impl" "mm_execute impl (mo_module_config m)" previous]
    by (simp add: r j [symmetric] old_active_def [of "mw_monitor ?row'"] st)
  with that m' st GetMonitor_stored [OF m] show ?thesis by blast
qed

lemma runs_edges:
  assumes "stored_monitor mid db = Some m" and "policy_of m = ''once''"
    and "runs xs mid db = (rs, db')"
  shows "\<exists>m'. stored_monitor mid db' = Some m' \<and>
    List.map_filter (\<lambda>r. edge_of (mr_event_type r)) rs =
      fst (condition.edges (old_active m) (map mr_condition_state rs)) \<and>
    old_active m' = snd (condition.edges (old_active m) (map mr_condition_state rs)) \<and>
    (\<forall>r \<in> set rs. mr_event_type r \<in> {''none'', ''triggered'', ''recovered''})"
  using assms
proof (induction xs arbitrary: db m rs)
  case Nil
  then show ?case by (simp add: map_filter_simps)
next
  case (Cons x xs)
  obtain env modules where x: "x = (env, modules)" by force
  show ?case
  proof (cases "runLocked env modules mid db")
    case (Inl e)
    then show ?thesis using Cons by (simp add: x)
  next
    case (Inr out)
    from run_condition [OF Inr] obtain m0 m1 where
      s: "stored_monitor mid db = Some m0" "stored_monitor mid (xo_db out) = Some m1"
      "mo_condition_config m1 = mo_condition_config m0" and
      e: "(mr_event_type (xo_record out), old_active m1) =
        condition_edge (policy_of m0) (mr_condition_state (xo_record out)) (old_active m0)" by metis
    have m0: "m0 = m" using s(1) Cons.prems(1) by simp
    have p: "policy_of m1 = ''once''"
      using Cons.prems(2) s(3) by (simp add: m0 policy_of_def decoded_config_def)
    obtain rs2 where r: "runs xs mid (xo_db out) = (rs2, db')" "rs = xo_record out # rs2"
      using Cons.prems(3) by (auto simp: x Inr split: prod.splits)
    have o: "once_edge (mr_condition_state (xo_record out)) (old_active m) =
        (edge_of (mr_event_type (xo_record out)), old_active m1)"
      using e by (simp add: once_edge_def m0 Cons.prems(2)) (metis fst_conv snd_conv)
    have t: "mr_event_type (xo_record out) \<in> {''none'', ''triggered'', ''recovered''}"
      using e by (auto simp: condition_edge_def split: if_splits)
    from Cons.IH [OF s(2) p r(1)] o t show ?thesis
      by (auto simp: r(2) map_filter_simps case_prod_beta Let_def split: option.split)
  qed
qed

definition event_name :: "edge \<Rightarrow> string" where
  "event_name e = (case e of Rise \<Rightarrow> ''triggered'' | Fall \<Rightarrow> ''recovered'')"

lemma event_name_simps: "event_name e = event_name f \<longleftrightarrow> e = f" "event_name e = ''triggered'' \<longleftrightarrow> e = Rise"
  by (cases e; cases f; simp add: event_name_def) (cases e; simp add: event_name_def)

lemma events_of_edges:
  "(\<forall>r \<in> set rs. mr_event_type r \<in> {''none'', ''triggered'', ''recovered''}) \<Longrightarrow>
   filter (\<lambda>e. e \<noteq> ''none'') (map mr_event_type rs) =
   map event_name (List.map_filter (\<lambda>r. edge_of (mr_event_type r)) rs)"
  by (induction rs) (auto simp: map_filter_simps edge_of_def event_name_def)

subsection \<open>A run that can be computed\<close>

definition watch_rule :: cond_rule where
  "watch_rule = \<lparr>rl_id = ''w'', rl_field = ''summary'', rl_source = ''current'', rl_path = [],
     rl_operator = ''exists'', rl_value = VNil, rl_value_source = [], rl_value_field = [], rl_value_path = []\<rparr>"

definition watched_monitor :: monitor where
  "watched_monitor = (test_monitor ''m'')\<lparr>mo_condition_config :=
     Some \<lparr>cc_logic = ''all'', cc_rules = [watch_rule], cc_policy = []\<rparr>\<rparr>"

definition test_run_env :: run_env where
  "test_run_env = \<lparr>xe_engine = test_engine True, xe_regex = (\<lambda>_. None), xe_lib = (\<lambda>_. []),
     xe_hash = (\<lambda>_. []), xe_json_error = [], xe_started = 1000000, xe_finished = 2000000, xe_duration_ms = 1,
     xe_record_id = ''r'', xe_event_id = ''e'', xe_trend_ids = (\<lambda>_ _. []), xe_delivery_ids = (\<lambda>_ _. []),
     xe_commit_time = 3000000, xe_board = False\<rparr>"

definition test_modules :: registry where
  "test_modules = [(''http'', entry_of [] [] (test_module ''http''))]"

definition test_run_db :: db where
  "test_run_db = empty_db\<lparr>db_monitors := [monitorFromDomain watched_monitor]\<rparr>"

lemma watched_monitor_simps [simp]:
  "mo_id watched_monitor = ''m''" "mo_module_type watched_monitor = ''http''"
  "mo_module_version watched_monitor = ''1''" "mo_channel_ids watched_monitor = []"
  "mo_runtime_state watched_monitor = None"
  "mo_condition_config watched_monitor = Some \<lparr>cc_logic = ''all'', cc_rules = [watch_rule], cc_policy = []\<rparr>"
  by (simp_all add: watched_monitor_def test_monitor_def)

lemma test_run_db_simps [simp]:
  "db_monitors test_run_db = [monitorFromDomain watched_monitor]" "db_records test_run_db = []"
  "mw_monitor (monitorFromDomain watched_monitor) = watched_monitor"
  by (simp_all add: test_run_db_def empty_db_def monitorFromDomain_def monitorRuntimeFlags_def
      watched_monitor_def test_monitor_def)

lemma watched_get: "GetMonitor (test_engine True) ''m'' test_run_db = Inr watched_monitor"
  by (simp add: GetMonitor_def monitorToDomain_def select_first_def test_engine_def run_def ok_then_def)

lemma test_run_ok:
  "\<exists>out. runLocked test_run_env test_modules ''m'' test_run_db = Inr out"
proof -
  let ?m = watched_monitor
  have p: "previous_result test_run_env ''m'' test_run_db = Inr None"
    by (simp add: test_run_env_def previous_result_def LatestSuccessfulRecord_def run_def test_engine_def select_first_def
        order_desc_def ok_then_def)
  have q: "required_module test_modules ?m = Inr (test_module ''http'')"
    by (simp add: required_module_def Get_def test_modules_def entry_of_def test_module_def)
  obtain j where j: "j = judge test_run_env ?m (mm_descriptor (test_module ''http''))
      (mm_execute (test_module ''http'') (mo_module_config ?m)) None" by simp
  have r: "mr_monitor_id (jd_record j) = ''m''" "mr_id (jd_record j) = ''r''"
    by (simp_all add: j judge_def Let_def case_prod_beta test_run_env_def)
  have env: "xe_engine test_run_env = test_engine True" "xe_board test_run_env = False"
    "xe_delivery_ids test_run_env = (\<lambda>_ _. [])" "xe_commit_time test_run_env = 3000000"
    by (simp_all add: test_run_env_def)
  have e: "\<forall>x \<in> set (jd_events j). pn_channel_ids x = []"
    by (simp add: j judge_def Let_def case_prod_beta condition_event_def)
  let ?r = "(jd_record j)\<lparr>mr_events := pendingRecordEvents (jd_events j)\<rparr>"
  have none: "pending_rows ids now ?r = []" for ids now
    using e by (simp add: pending_rows_def pendingRecordEvents_def pending_event_def Let_def)
  have "\<exists>db'. CommitMonitorExecution (test_engine True) (\<lambda>_ _. []) 3000000 ?r ''m'' (jd_state j) [] test_run_db = Inr db'"
    by (simp add: CommitMonitorExecution_def transaction_def addRecordTx_def r insert_row_def
        addPendingNotificationDeliveriesTx_def none commit_monitor_state_def rows_affected_def Let_def
        recordFromDomain_def case_prod_beta run_def test_engine_def ok_then_def)
  then show ?thesis
    by (auto simp: runLocked_def env watched_get p q as_run_error_def commit_run_def
        board_evaluation_def j [symmetric] ok_then_def Let_def)
qed

subsection \<open>What successive runs report\<close>

text \<open>
  C4: A monitor with the policy \<open>once\<close> reports only changes of its condition. Over any
  number of runs (with failing ones among them, and whatever the modules, the clock and the
  records between them) the events that are not \<open>none\<close> alternate between \<open>triggered\<close> and
  \<open>recovered\<close>, the first one leaves the stored state, and the state stored afterwards is
  active exactly when the last event was a trigger.
\<close>

theorem monitor_events_alternate:
  fixes m db
  assumes "stored_monitor mid db = Some m" and "policy_of m = ''once''"
    and "runs xs mid db = (rs, db')"
  defines "ev \<equiv> filter (\<lambda>e. e \<noteq> ''none'') (map mr_event_type rs)"
  shows "set ev \<subseteq> {''triggered'', ''recovered''} \<and>
    (ev \<noteq> [] \<longrightarrow> hd ev = (if old_active m then ''recovered'' else ''triggered'')) \<and>
    (\<forall>i. Suc i < length ev \<longrightarrow> ev ! i \<noteq> ev ! Suc i) \<and>
    (\<exists>m'. stored_monitor mid db' = Some m' \<and>
      old_active m' = (if ev = [] then old_active m else last ev = ''triggered''))"
proof -
  let ?e = "condition.edges (old_active m) (map mr_condition_state rs)"
  from runs_edges [OF assms(1-3)] obtain m' where
    m': "stored_monitor mid db' = Some m'" "old_active m' = snd ?e" and
    f: "List.map_filter (\<lambda>r. edge_of (mr_event_type r)) rs = fst ?e" and
    t: "\<forall>r \<in> set rs. mr_event_type r \<in> {''none'', ''triggered'', ''recovered''}" by blast
  have ev: "ev = map event_name (fst ?e)"
    unfolding ev_def events_of_edges [OF t] f by (rule refl)
  have names: "event_name (if a then Fall else Rise) = (if a then ''recovered'' else ''triggered'')" for a
    by (simp add: event_name_def)
  have "set ev \<subseteq> {''triggered'', ''recovered''}" by (auto simp: ev event_name_def split: edge.split)
  moreover have "old_active m' = (if ev = [] then old_active m else last ev = ''triggered'')"
    using condition.last_edge [of "old_active m" "map mr_condition_state rs"]
    by (auto simp: m'(2) ev last_map event_name_simps)
  ultimately show ?thesis
    using condition.edges_alternate [of "old_active m" "map mr_condition_state rs"] m'(1)
    by (auto simp: ev hd_map event_name_simps names)
qed

lemma watched_stored: "stored_monitor ''m'' test_run_db = Some watched_monitor"
  by (simp add: stored_monitor_def)

lemma monitor_events_alternate_witness:
  "\<exists>out :: run_outcome. runs [(test_run_env, test_modules)] ''m'' test_run_db = ([xo_record out], xo_db out) \<and>
     mr_event_type (xo_record out) \<in> {''none'', ''triggered''}"
proof -
  obtain out where out: "runLocked test_run_env test_modules ''m'' test_run_db = Inr out"
    using test_run_ok by blast
  have r: "runs [(test_run_env, test_modules)] ''m'' test_run_db = ([xo_record out], xo_db out)"
    by (simp add: out)
  have p: "policy_of watched_monitor = ''once''"
    by (simp add: policy_of_def decoded_config_def NormalizeNotificationPolicy_def)
  have "\<not> old_active watched_monitor" by (simp add: old_active_def)
  with monitor_events_alternate [OF watched_stored p r]
  have "mr_event_type (xo_record out) \<in> {''none'', ''triggered''}" by (auto split: if_splits)
  with r show ?thesis by blast
qed

subsection \<open>Rules that read the whole summary\<close>

lemma all_some_None: "None \<in> set xs \<Longrightarrow> all_some xs = None"
  by (induction xs rule: all_some.induct) auto

lemma marshal_obj_None:
  assumes "(k, v) \<in> set m" and "json_marshal v = None"
  shows "json_marshal (VObj m) = None"
proof -
  have "None \<in> set (map (\<lambda>(k, t). map_option (\<lambda>u. json_string k @ '':'' @ u) t)
      (sort_fields (map (\<lambda>(k, v). (k, json_marshal v)) m)))"
    using assms by (force simp: image_iff)
  then show ?thesis by (simp add: all_some_None)
qed

lemma marshal_arr_None: "v \<in> set vs \<Longrightarrow> json_marshal v = None \<Longrightarrow> json_marshal (VArr vs) = None"
  by (simp add: all_some_None image_iff) (metis all_some_None image_eqI list.set_map)

lemma get_in: "get m k = Some v \<Longrightarrow> (k, v) \<in> set m"
  by (rule map_of_SomeD)

lemma summary_rule_actual:
  assumes "rl_field rule = ''summary''" and "rl_path rule = []" and "rl_source rule \<noteq> ''previous''"
    and "get current ''summary'' = Some v"
  shows "rr_actual (evaluateRule rx rule current previous) = v"
proof -
  have n: "normalizeField ''summary'' = ''summary''" by code_simp
  have l: "lookupSourceValue ''current'' current p ''summary'' [] = Some v"
    "lookupValue current ''summary'' [] = Some v" for p
    using assms(4) by (simp_all add: lookupSourceValue_def lookupValue_def n normalizeSource_def)
  have s: "rr_actual (start_result rule current p) = v" for p
    using assms(1-3) l by (simp add: start_result_def n normalizeSource_def)
  have c: "rr_actual (evaluate_changed rule current previous (start_result rule current previous)) = v"
    using s l by (simp add: evaluate_changed_def assms(1,2) n Let_def split: option.split)
  show ?thesis using s c by (auto simp: evaluateRule_def Let_def split: option.split sum.split)
qed

lemma self_reference_unencodable:
  assumes "r \<in> set (ev_details ev)" and "rr_actual r = VObj er"
  shows "json_marshal (VObj (final_execution_result lib er summary ev event logic matched)) = None"
proof -
  have "(''actual'', self_reference) \<in> set (omit_nil ''actual'' (link_self er (rr_actual r)))"
    by (simp add: assms(2) link_self_def self_reference_def omit_nil_def)
  then have "json_marshal (rule_val lib er r) = None"
    unfolding rule_val_def by (intro marshal_obj_None [of "''actual''" self_reference])
      (simp_all add: self_reference_def json_number_def)
  then have "json_marshal (VArr (map (rule_val lib er) (ev_details ev))) = None"
    using assms(1) by (intro marshal_arr_None) auto
  then show ?thesis
    by (rule marshal_obj_None [rotated, where k = "''condition_details''"])
      (rule get_in, simp add: final_execution_result_def)
qed

text \<open>
  A condition rule that reads the whole map \<open>summary\<close> of the present result, with any
  operator, costs the record its result: the details of the rules are put into that map, so
  it would contain itself, it does not encode, and the record is stored with an empty result.
\<close>

theorem summary_rule_erases_result:
  assumes "runLocked env modules mid db = Inr out" and "GetMonitor (xe_engine env) mid db = Inr m"
    and "rule \<in> set (cc_rules (decoded_config m))" and "rl_field rule = ''summary''"
    and "rl_path rule = []" and "rl_source rule \<noteq> ''previous''"
  shows "\<exists>row \<in> set (db_records (xo_db out)).
    row_id row = mr_id (xo_record out) \<and> mr_result (rw_record row) = []"
proof (rule runLocked_Inr [OF assms(1)])
  fix m' impl previous j states
  assume m': "GetMonitor (xe_engine env) mid db = Inr m'"
    and j: "j = judge env m' (mm_descriptor impl) (mm_execute impl (mo_module_config m')) previous"
    and r: "xo_record out = (jd_record j)\<lparr>mr_events := pendingRecordEvents (xo_pending out)\<rparr>"
    and d: "xo_db out = committed (xe_delivery_ids env) (xe_commit_time env) (xo_record out) (mo_id m') (jd_state j) states db"
  have m: "m' = m" using m' assms(2) by simp
  have ne: "cc_rules (decoded_config m) \<noteq> []" using assms(3) by auto
  have in_details: "evaluateRule rx rule c p \<in> set (ev_details (EvaluateConditions rx (decoded_config m) c p))" for rx c p
    using assms(3) ne by (simp add: EvaluateConditions_def Let_def)
  have actual: "rr_actual (evaluateRule rx rule (put ''summary'' v c) p) = v" for rx v c p
    by (rule summary_rule_actual [OF assms(4-6)]) simp
  have "\<exists>k v. get (mr_result (jd_record j)) k = Some v \<and> json_marshal v = None"
    unfolding j m judge_def Let_def case_prod_beta judged.simps monitor_record.simps
    by (rule exI [of _ "''summary''"], rule exI, rule conjI, simp,
        rule self_reference_unencodable [OF in_details actual])
  then have "json_marshal (VObj (mr_result (jd_record j))) = None"
    using marshal_obj_None get_in by metis
  then have "mr_result (rw_record (recordFromDomain (xo_record out))) = []"
    by (simp add: r recordFromDomain_def stored_obj_def case_prod_beta Let_def)
  moreover have "row_id (recordFromDomain (xo_record out)) = mr_id (xo_record out)"
    by (simp add: recordFromDomain_def case_prod_beta Let_def)
  moreover have "recordFromDomain (xo_record out) \<in> set (db_records (xo_db out))"
    by (simp add: d committed_def)
  ultimately show ?thesis by blast
qed

lemma summary_rule_erases_result_witness:
  "\<exists>out. runLocked test_run_env test_modules ''m'' test_run_db = Inr out \<and>
     (\<exists>row \<in> set (db_records (xo_db out)). row_id row = mr_id (xo_record out) \<and> mr_result (rw_record row) = [])"
proof -
  obtain out where out: "runLocked test_run_env test_modules ''m'' test_run_db = Inr out"
    using test_run_ok by blast
  have g: "GetMonitor (xe_engine test_run_env) ''m'' test_run_db = Inr watched_monitor"
    using watched_get by (simp add: test_run_env_def)
  have "watch_rule \<in> set (cc_rules (decoded_config watched_monitor))" by (simp add: decoded_config_def)
  from summary_rule_erases_result [OF out g this] out show ?thesis by (auto simp: watch_rule_def)
qed

end
