(* ===== verification/Schedules.thy ===== *)
theory Schedules
  imports GoTime Texts
begin

section \<open>Schedules of a monitor (internal/runtime/runtime.go)\<close>

text \<open>
  The schedules of a monitor are cron expressions. Parsing one and finding the time it fires
  next is the work of the package \<open>robfig/cron\<close>, and the time zones come from the system:
  both are the record \<open>cron_env\<close>. A location is known by its name. \<open>Next\<close> is documented to
  return a later time, or the zero time where an expression never fires.
\<close>

type_synonym cron_schedule = "string \<Rightarrow> time \<Rightarrow> time"

record cron_env =
  cr_parse :: "string \<Rightarrow> string + cron_schedule"
  cr_load :: "string \<Rightarrow> string option"

datatype schedule_error =
    BadTimezone string
  | NoExpression
  | EmptyExpression
  | BadExpression string string

subsection \<open>Parsing\<close>

definition parseSchedule :: "cron_env \<Rightarrow> string \<Rightarrow> schedule_error + cron_schedule" where
  "parseSchedule c e = (case cr_parse c e of Inl err \<Rightarrow> Inl (BadExpression e err) | Inr s \<Rightarrow> Inr s)"

definition schedulerLocation :: "cron_env \<Rightarrow> string \<Rightarrow> schedule_error + string" where
  "schedulerLocation c name =
     (if name = [] \<or> name = ''Local'' then Inr ''Local''
      else (case cr_load c name of None \<Rightarrow> Inr name | Some err \<Rightarrow> Inl (BadTimezone err)))"

definition ValidateSchedules :: "cron_env \<Rightarrow> string list \<Rightarrow> string \<Rightarrow> schedule_error + unit" where
  "ValidateSchedules c es timezone =
     (if es = [] then Inl NoExpression
      else ok_then (schedulerLocation c timezone) (\<lambda>_.
        each (\<lambda>e _. if trim_space e = [] then Inl EmptyExpression
                 else ok_then (parseSchedule c e) (\<lambda>_. Inr ())) es ()))"

subsection \<open>The next time\<close>

text \<open>The loop of \<open>nextScheduleTime\<close>: \<open>next\<close> is the earliest candidate so far.\<close>

fun earliest :: "cron_env \<Rightarrow> string \<Rightarrow> time \<Rightarrow> string list \<Rightarrow> time \<Rightarrow> schedule_error + time" where
  "earliest c loc after [] next = Inr next"
| "earliest c loc after (e # es) next =
     ok_then (parseSchedule c e) (\<lambda>s.
       let candidate = s loc after
       in earliest c loc after es (if next = zero_time \<or> candidate < next then candidate else next))"

definition nextScheduleTime :: "cron_env \<Rightarrow> string list \<Rightarrow> string \<Rightarrow> time \<Rightarrow> schedule_error + time" where
  "nextScheduleTime c es timezone after =
     ok_then (schedulerLocation c timezone) (\<lambda>loc.
       if es = [] then Inl NoExpression else earliest c loc after es zero_time)"

subsection \<open>The next times\<close>

fun fire_times :: "(time \<Rightarrow> time) \<Rightarrow> nat \<Rightarrow> time \<Rightarrow> time list" where
  "fire_times f 0 t = []"
| "fire_times f (Suc n) t = f t # fire_times f n (f t)"

fun collect_times :: "cron_env \<Rightarrow> string \<Rightarrow> nat \<Rightarrow> time \<Rightarrow> string list \<Rightarrow> schedule_error + time list" where
  "collect_times c loc n now [] = Inr []"
| "collect_times c loc n now (e # es) =
     ok_then (parseSchedule c e) (\<lambda>s.
     ok_then (collect_times c loc n now es) (\<lambda>ts. Inr (fire_times (s loc) n now @ ts)))"

text \<open>The loop that drops equal neighbours and stops at \<open>n\<close> times; \<open>kept\<close> are those so far.\<close>

fun unique_times :: "nat \<Rightarrow> time list \<Rightarrow> time list \<Rightarrow> time list" where
  "unique_times n kept [] = kept"
| "unique_times n kept (t # ts) =
     (let kept' = (if kept = [] \<or> t \<noteq> last kept then kept @ [t] else kept)
      in if length kept' = n then kept' else unique_times n kept' ts)"

definition NextScheduleTimes ::
    "cron_env \<Rightarrow> string list \<Rightarrow> string \<Rightarrow> int \<Rightarrow> time \<Rightarrow> schedule_error + time list" where
  "NextScheduleTimes c es timezone n now =
     (if n \<le> 0 then Inr []
      else ok_then (schedulerLocation c timezone) (\<lambda>loc.
        if es = [] then Inl NoExpression
        else ok_then (collect_times c loc (nat n) now es) (\<lambda>ts. Inr (unique_times (nat n) [] (sort ts)))))"

subsection \<open>A task of the scheduler\<close>

record scheduleTask =
  ta_expressions :: "string list"
  ta_next :: time

definition advanceScheduleTask ::
    "cron_env \<Rightarrow> scheduleTask \<Rightarrow> string \<Rightarrow> time \<Rightarrow> schedule_error + bool \<times> scheduleTask" where
  "advanceScheduleTask c task timezone now =
     (if now < ta_next task then Inr (False, task)
      else ok_then (nextScheduleTime c (ta_expressions task) timezone now) (\<lambda>next.
        Inr (True, task\<lparr>ta_next := next\<rparr>)))"

subsection \<open>Describing an expression\<close>

text \<open>\<open>strings.Fields\<close>.\<close>

definition starts_space :: "string \<Rightarrow> bool" where
  "starts_space s \<longleftrightarrow> trim_left s \<noteq> s"

fun break_space :: "string \<Rightarrow> string \<times> string" where
  "break_space [] = ([], [])"
| "break_space (a # s) =
     (if starts_space (a # s) then ([], a # s) else (let (f, r) = break_space s in (a # f, r)))"

lemma length_break_space: "length (snd (break_space s)) \<le> length s"
  by (induction s) (auto simp: case_prod_beta Let_def)

function fields :: "string \<Rightarrow> string list" where
  "fields s =
     (case trim_left s of
        [] \<Rightarrow> []
      | a # t \<Rightarrow> (a # fst (break_space t)) # fields (snd (break_space t)))"
  by pat_completeness auto
termination
proof (relation "measure length")
  fix s t :: string and a
  assume "trim_left s = a # t"
  then show "(snd (break_space t), s) \<in> measure length"
    using length_trim_left [of s] length_break_space [of t] by simp
qed simp

declare fields.simps [simp del]

definition stepValue :: "string \<Rightarrow> int option" where
  "stepValue v =
     (if has_prefix v ''*/''
      then (case atoi (trim_prefix v ''*/'') of Some n \<Rightarrow> if 0 < n then Some n else None | None \<Rightarrow> None)
      else None)"

definition fixedNumber :: "string \<Rightarrow> int option" where
  "fixedNumber v = atoi v"

definition allWildcard :: "string list \<Rightarrow> bool" where
  "allWildcard vs \<longleftrightarrow> (\<forall>v \<in> set vs. v = ''*'')"

text \<open>The five fields: minute, hour, day of the month, month, day of the week.\<close>

definition describe_clock :: "int \<Rightarrow> int \<Rightarrow> string" where
  "describe_clock h m = pad_int 2 h @ '':'' @ pad_int 2 m"

definition describe_day :: "string \<Rightarrow> string \<Rightarrow> string \<Rightarrow> string" where
  "describe_day clock mday wday =
     (if mday = ''*'' \<and> wday = ''*'' then txt_daily @ clock @ txt_run
      else if mday = ''*'' \<and> wday = ''1-5'' then txt_workdays @ clock @ txt_run
      else if wday = ''*'' then
        (case fixedNumber mday of
           Some n \<Rightarrow> txt_monthly @ itoa n @ txt_day @ clock @ txt_run
         | None \<Rightarrow> txt_custom_cron)
      else txt_custom_cron)"

definition describe_fields :: "string list \<Rightarrow> string" where
  "describe_fields fs =
     (if length fs \<noteq> 5 then txt_custom_cron
      else if allWildcard fs then txt_each_minute
      else (let m = fs ! 0; h = fs ! 1; mday = fs ! 2; mon = fs ! 3; wday = fs ! 4 in
        (case (if allWildcard (tl fs) then stepValue m else None) of
           Some n \<Rightarrow> txt_every @ itoa n @ txt_minutes_once
         | None \<Rightarrow>
        (case (if h = ''*'' \<and> mday = ''*'' \<and> mon = ''*'' \<and> wday = ''*'' then fixedNumber m else None) of
           Some n \<Rightarrow> txt_hourly_at @ pad_int 2 n @ txt_minute_run
         | None \<Rightarrow>
        (case (fixedNumber m, fixedNumber h) of
           (Some fm, Some fh) \<Rightarrow>
             if mon = ''*'' then describe_day (describe_clock fh fm) mday wday else txt_custom_cron
         | _ \<Rightarrow> txt_custom_cron)))))"

definition describe_six :: "string list \<Rightarrow> string" where
  "describe_six fs =
     (if length fs = 6 then
        (case (if allWildcard (tl fs) then stepValue (hd fs) else None) of
           Some n \<Rightarrow> txt_every @ itoa n @ txt_seconds_once
         | None \<Rightarrow> if hd fs = ''0'' then describe_fields (tl fs) else txt_custom_cron)
      else describe_fields fs)"

definition DescribeSchedule :: "string \<Rightarrow> string" where
  "DescribeSchedule expression =
     (let e = trim_space expression in
      case get descriptor_texts (to_lower e) of
        Some d \<Rightarrow> d
      | None \<Rightarrow>
          if has_prefix (to_lower e) ''@every ''
          then txt_every @ trim_space (drop (length ''@every '') e) @ txt_run_once
          else describe_six (fields e))"

subsection \<open>Facts about the next time\<close>

lemma parseSchedule_Inr: "parseSchedule c e = Inr s \<longleftrightarrow> cr_parse c e = Inr s"
  by (simp add: parseSchedule_def split: sum.split)

text \<open>All expressions parse and fire again after \<open>now\<close>.\<close>

definition all_fire :: "cron_env \<Rightarrow> string \<Rightarrow> string list \<Rightarrow> time \<Rightarrow> bool" where
  "all_fire c loc es now \<longleftrightarrow> (\<forall>e \<in> set es. \<exists>s. cr_parse c e = Inr s \<and> now < s loc now)"

text \<open>The time at which one expression fires next.\<close>

definition candidate_of :: "cron_env \<Rightarrow> string \<Rightarrow> time \<Rightarrow> string \<Rightarrow> time" where
  "candidate_of c loc now e = (case cr_parse c e of Inr s \<Rightarrow> s loc now | Inl _ \<Rightarrow> zero_time)"

lemma earliest_min:
  assumes "all_fire c loc es now" and "zero_time \<le> now" and "next \<noteq> zero_time"
  shows "earliest c loc now es next = Inr (fold min (map (candidate_of c loc now) es) next)"
  using assms
proof (induction es arbitrary: "next")
  case (Cons e es)
  obtain s where s: "cr_parse c e = Inr s" "now < s loc now"
    using Cons.prems(1) by (auto simp: all_fire_def)
  have m: "(if next = zero_time \<or> s loc now < next then s loc now else next) = min (s loc now) next"
    using Cons.prems(3) by auto
  have "min (s loc now) next \<noteq> zero_time" using s Cons.prems(2,3) by (auto simp: min_def)
  then show ?case
    using Cons.IH [of "min (s loc now) next"] Cons.prems(1,2) s m
    by (simp add: parseSchedule_def candidate_of_def all_fire_def Let_def)
qed simp

lemma fold_min_in: "fold min xs (x :: 'a :: linorder) = Min (set (x # xs))"
proof (induction xs arbitrary: x)
  case (Cons y ys)
  then show ?case by (cases "ys = []") (auto simp: min.assoc min.commute min.left_commute)
qed simp

lemma nextScheduleTime_min:
  assumes "schedulerLocation c timezone = Inr loc" and "es \<noteq> []"
    and "all_fire c loc es now" and "zero_time \<le> now"
  shows "nextScheduleTime c es timezone now = Inr (Min (candidate_of c loc now ` set es))"
proof -
  obtain e es' where es: "es = e # es'" using assms(2) by (cases es) auto
  obtain s where s: "cr_parse c e = Inr s" "now < s loc now"
    using assms(3) by (auto simp: es all_fire_def)
  have z: "candidate_of c loc now e \<noteq> zero_time" using s assms(4) by (simp add: candidate_of_def)
  have "all_fire c loc es' now" using assms(3) by (simp add: es all_fire_def)
  from earliest_min [OF this assms(4) z] show ?thesis
    using assms(1,2) s by (simp add: nextScheduleTime_def es parseSchedule_def candidate_of_def fold_min_in Let_def)
qed

lemma candidate_later: "all_fire c loc es now \<Longrightarrow> e \<in> set es \<Longrightarrow> now < candidate_of c loc now e"
  by (force simp: all_fire_def candidate_of_def)

text \<open>
  The next time of a monitor with several expressions is the earliest of the times at
  which its expressions fire after \<open>now\<close>: one of them fires then, none fires before, and the
  time is strictly later than \<open>now\<close>, so a task that has just run is not due again.
\<close>

theorem next_schedule_earliest:
  assumes "schedulerLocation c timezone = Inr loc" and "es \<noteq> []"
    and "all_fire c loc es now" and "zero_time \<le> now"
  shows "\<exists>t. nextScheduleTime c es timezone now = Inr t \<and> now < t \<and>
    t \<in> candidate_of c loc now ` set es \<and> (\<forall>e \<in> set es. t \<le> candidate_of c loc now e) \<and>
    advanceScheduleTask c \<lparr>ta_expressions = es, ta_next = t\<rparr> timezone now =
      Inr (False, \<lparr>ta_expressions = es, ta_next = t\<rparr>)"
proof -
  let ?t = "Min (candidate_of c loc now ` set es)"
  have "now < ?t" using assms(2) candidate_later [OF assms(3)] by (subst Min_gr_iff) auto
  moreover have "?t \<in> candidate_of c loc now ` set es" using assms(2) by (intro Min_in) auto
  ultimately show ?thesis
    using nextScheduleTime_min [OF assms] by (auto simp: advanceScheduleTask_def)
qed

text \<open>A parser of one's own: an expression of \<open>n\<close> characters fires every \<open>n\<close> seconds.\<close>

definition test_cron :: cron_env where
  "test_cron = \<lparr>cr_parse = (\<lambda>e. if e = [] then Inl ''empty''
       else Inr (\<lambda>_ t. if e = ''never'' then zero_time else t + int (length e) * second)),
     cr_load = (\<lambda>_. None)\<rparr>"

lemma test_cron_simps [simp]:
  "e \<noteq> [] \<Longrightarrow> cr_parse test_cron e =
     Inr (\<lambda>_ t. if e = ''never'' then zero_time else t + int (length e) * second)"
  by (simp add: test_cron_def)

lemma test_location [simp]: "schedulerLocation test_cron ''Local'' = Inr ''Local''"
  by (simp add: schedulerLocation_def)

lemma next_schedule_earliest_witness:
  "nextScheduleTime test_cron [''xx'', ''x'', ''xxx''] ''Local'' 0 = Inr second"
proof -
  have f: "all_fire test_cron ''Local'' [''xx'', ''x'', ''xxx''] 0"
    by (simp add: all_fire_def second_def)
  have c: "candidate_of test_cron ''Local'' 0 ` set [''xx'', ''x'', ''xxx''] = {2 * second, second, 3 * second}"
    by (simp add: candidate_of_def)
  obtain t where t: "nextScheduleTime test_cron [''xx'', ''x'', ''xxx''] ''Local'' 0 = Inr t"
    "t \<in> candidate_of test_cron ''Local'' 0 ` set [''xx'', ''x'', ''xxx'']"
    "\<forall>e \<in> set [''xx'', ''x'', ''xxx'']. t \<le> candidate_of test_cron ''Local'' 0 e"
    using next_schedule_earliest [OF test_location _ f] by (auto simp: zero_time_def)
  have "t \<le> second" using t(3) by (simp add: candidate_of_def)
  moreover have "t \<in> {2 * second, second, 3 * second}" using t(2) unfolding c .
  ultimately have "t = second" by (auto simp: second_def)
  with t(1) show ?thesis by simp
qed

subsection \<open>An expression that never fires\<close>

lemma earliest_last_never:
  assumes "\<forall>e \<in> set es. \<exists>s. cr_parse c e = Inr s \<and> zero_time \<le> s loc now"
    and "cr_parse c e = Inr s" and "s loc now = zero_time" and "zero_time \<le> next"
  shows "earliest c loc now (es @ [e]) next = Inr zero_time"
  using assms
proof (induction es arbitrary: "next")
  case Nil
  then show ?case by (simp add: parseSchedule_def Let_def)
next
  case (Cons x xs)
  then show ?case by (auto simp: parseSchedule_def Let_def)
qed

text \<open>
  An expression that parses but never fires (such as the 30th of February) has the zero
  time as its next time. When it is the last expression of a monitor, it wins against the
  others, the task is due at once and at every poll from then on: the monitor is run as
  often as the scheduler polls, whatever its other expressions say.
\<close>

theorem never_firing_expression_always_due:
  assumes "schedulerLocation c timezone = Inr loc" and "cr_parse c e = Inr s"
    and "s loc now = zero_time" and "zero_time \<le> now"
    and "\<And>x. x \<in> set es \<Longrightarrow> \<exists>s'. cr_parse c x = Inr s' \<and> zero_time \<le> s' loc now"
  defines "task \<equiv> \<lparr>ta_expressions = es @ [e], ta_next = zero_time\<rparr>"
  shows "nextScheduleTime c (es @ [e]) timezone now = Inr zero_time \<and>
    advanceScheduleTask c task timezone now = Inr (True, task)"
proof -
  have "nextScheduleTime c (es @ [e]) timezone now = Inr zero_time"
    using earliest_last_never [of es c loc now e s zero_time] assms(1-5) by (simp add: nextScheduleTime_def)
  then show ?thesis using assms(4) by (simp add: task_def advanceScheduleTask_def)
qed

lemma never_firing_expression_always_due_witness:
  "advanceScheduleTask test_cron \<lparr>ta_expressions = [''hourly'', ''never''], ta_next = zero_time\<rparr> ''Local'' 5 =
     Inr (True, \<lparr>ta_expressions = [''hourly'', ''never''], ta_next = zero_time\<rparr>)"
proof -
  have "''never'' \<noteq> []" "zero_time \<le> 5" by (simp_all add: zero_time_def)
  moreover have "\<exists>s'. cr_parse test_cron x = Inr s' \<and> zero_time \<le> s' ''Local'' 5" if "x \<in> set [''hourly'']" for x
    using that by (auto simp: zero_time_def second_def)
  ultimately show ?thesis
    using never_firing_expression_always_due
      [OF test_location, of "''never''" "\<lambda>_ t. if ''never'' = ''never'' then zero_time else t + int (length ''never'') * second"
        5 "[''hourly'']"] by simp
qed

subsection \<open>The next times of several expressions\<close>

lemma take_remdups_first: "take (Suc 0) (remdups_adj (t # ts)) = [t]"
  by (subst remdups_adj_Cons_alt [symmetric]) (simp del: remdups_adj_Cons_alt)

lemma unique_times_step:
  assumes "kept \<noteq> []" and "length kept < n"
  shows "unique_times n kept ts = take n (kept @ tl (remdups_adj (last kept # ts)))"
  using assms
proof (induction ts arbitrary: kept)
  case (Cons t ts)
  show ?case
  proof (cases "t = last kept")
    case True
    then show ?thesis using Cons.IH [OF Cons.prems] Cons.prems by simp
  next
    case False
    then have r: "tl (remdups_adj (last kept # t # ts)) = t # tl (remdups_adj (t # ts))"
      by simp
    show ?thesis
    proof (cases "Suc (length kept) = n")
      case True
      then show ?thesis using False by (auto simp: r Let_def take_remdups_first simp del: remdups_adj.simps)
    next
      case len: False
      then have "unique_times n (kept @ [t]) ts = take n ((kept @ [t]) @ tl (remdups_adj (t # ts)))"
        using Cons.IH [of "kept @ [t]"] Cons.prems by simp
      then show ?thesis using False len by (simp add: r Let_def del: remdups_adj.simps)
    qed
  qed
qed simp

lemma unique_times_take:
  assumes "0 < n"
  shows "unique_times n [] ts = take n (remdups_adj ts)"
proof (cases ts)
  case (Cons t us)
  have r: "remdups_adj (t # us) = t # tl (remdups_adj (t # us))" by simp
  show ?thesis
  proof (cases "n = 1")
    case True
    then show ?thesis unfolding Cons by (subst r) (simp add: Let_def del: remdups_adj_Cons_alt)
  next
    case False
    then have "unique_times n [t] us = take n ([t] @ tl (remdups_adj (t # us)))"
      using unique_times_step [of "[t]" n us] assms by simp
    then show ?thesis using False by (simp add: Cons Let_def)
  qed
qed simp

lemma sorted_remdups_adj_strict: "sorted (xs :: time list) \<Longrightarrow> sorted_wrt (<) (remdups_adj xs)"
proof (induction xs rule: remdups_adj.induct)
  case (3 x y xs)
  then show ?case by (cases "x = y") force+
qed simp_all

lemma set_fire_times: "set (fire_times f n t) = (\<lambda>k. (f ^^ Suc k) t) ` {..<n}"
proof (induction n arbitrary: t)
  case (Suc n)
  have "{..<Suc n} = insert 0 (Suc ` {..<n})" by (rule lessThan_Suc_eq_insert_0)
  then show ?case using Suc [of "f t"] by (simp add: image_image funpow_swap1)
qed simp

lemma funpow_later:
  assumes "\<And>t :: time. t < f t"
  shows "i < j \<Longrightarrow> (f ^^ i) t < (f ^^ j) t"
  using assms lift_Suc_mono_less [of "\<lambda>i. (f ^^ i) t"] by simp

lemma card_fire_times:
  assumes "\<And>t :: time. t < f t"
  shows "card (set (fire_times f n t)) = n"
proof -
  have "inj_on (\<lambda>k. (f ^^ Suc k) t) {..<n}"
    by (rule inj_onI) (metis Suc_mono assms funpow_later less_irrefl linorder_neqE_nat)
  then show ?thesis by (simp add: set_fire_times card_image)
qed

lemma collect_times_set:
  assumes "collect_times c loc n now es = Inr ts"
  shows "(\<forall>e \<in> set es. \<exists>s. cr_parse c e = Inr s \<and> set (fire_times (s loc) n now) \<subseteq> set ts) \<and>
    (\<forall>t \<in> set ts. \<exists>e \<in> set es. \<exists>s. cr_parse c e = Inr s \<and> t \<in> set (fire_times (s loc) n now))"
  using assms
proof (induction es arbitrary: ts)
  case (Cons e es)
  then obtain s us where "cr_parse c e = Inr s" "collect_times c loc n now es = Inr us"
    "ts = fire_times (s loc) n now @ us"
    by (auto simp: ok_then_Inr parseSchedule_Inr)
  then show ?case using Cons.IH [of us] by fastforce
qed simp

text \<open>The first \<open>n\<close> of a strictly sorted list.\<close>

lemma take_strict_rest:
  assumes "sorted_wrt (<) (xs :: time list)" and "x \<in> set xs" and "x \<notin> set (take n xs)"
    and "y \<in> set (take n xs)"
  shows "y < x"
proof -
  have "x \<in> set (drop n xs)" using assms(2,3) by (metis Un_iff append_take_drop_id set_append)
  moreover have "sorted_wrt (<) (take n xs @ drop n xs)" using assms(1) by simp
  ultimately show ?thesis using assms(4) unfolding sorted_wrt_append by blast
qed

lemma enough_smaller:
  assumes "sorted_wrt (<) (xs :: time list)" and "A \<subseteq> set xs" and "card A = n" and "0 < n"
    and "\<forall>a \<in> A. a < t"
  shows "last (take n xs) < t" and "length (take n xs) = n"
proof -
  have d: "distinct xs" using assms(1) by (simp add: strict_sorted_iff)
  have fin: "finite A" using assms(3,4) by (metis card.infinite less_irrefl)
  have len: "n \<le> length xs" using assms(2,3) d by (metis List.finite_set card_mono distinct_card)
  then show l: "length (take n xs) = n" by simp
  show "last (take n xs) < t"
  proof (rule ccontr)
    assume "\<not> last (take n xs) < t"
    then have less: "\<forall>a \<in> A. a < last (take n xs)" using assms(5) by force
    have lt: "last (take n xs) \<in> set (take n xs)" using l assms(4) by (metis last_in_set length_0_conv less_irrefl)
    have "A \<subseteq> set (take n xs)"
      using take_strict_rest [OF assms(1)] assms(2) less lt by (meson less_asym subsetD subsetI)
    then have "insert (last (take n xs)) A \<subseteq> set (take n xs)" using lt by simp
    then have "card (insert (last (take n xs)) A) \<le> n"
      using card_mono [of "set (take n xs)"] d l by (metis List.finite_set distinct_card distinct_take)
    moreover have "last (take n xs) \<notin> A" using less by blast
    ultimately show False using fin assms(3) by simp
  qed
qed

text \<open>The instants after \<open>now\<close> at which an expression of the list fires.\<close>

definition fires :: "cron_env \<Rightarrow> string \<Rightarrow> time \<Rightarrow> string list \<Rightarrow> time \<Rightarrow> bool" where
  "fires c loc now es t \<longleftrightarrow> (\<exists>e \<in> set es. \<exists>s k. cr_parse c e = Inr s \<and> t = (s loc ^^ Suc k) now)"

text \<open>
  C14: The preview of a schedule is exact. If all expressions parse and always fire again, the
  \<open>n\<close> times are distinct and in order, each is an instant at which an expression fires, and
  no instant is left out: every other instant of any expression comes after the last one.
\<close>

theorem next_times_exact:
  assumes "NextScheduleTimes c es timezone n now = Inr ts" and "0 < n"
    and "schedulerLocation c timezone = Inr loc"
    and "\<And>e s t. e \<in> set es \<Longrightarrow> cr_parse c e = Inr s \<Longrightarrow> t < s loc t"
  shows "length ts = nat n \<and> sorted_wrt (<) ts \<and> (\<forall>t \<in> set ts. fires c loc now es t) \<and>
    (\<forall>t. fires c loc now es t \<longrightarrow> t \<in> set ts \<or> last ts < t)"
proof -
  from assms(1-3) obtain us where es: "es \<noteq> []" and us: "collect_times c loc (nat n) now es = Inr us"
    and ts: "ts = take (nat n) (remdups_adj (sort us))"
    by (auto simp: NextScheduleTimes_def ok_then_Inr unique_times_take split: if_splits)
  let ?xs = "remdups_adj (sort us)"
  have xs: "sorted_wrt (<) ?xs" "set ?xs = set us" by (simp_all add: sorted_remdups_adj_strict)
  note c = collect_times_set [OF us]
  have first: "\<exists>A \<subseteq> set ?xs. card A = nat n \<and> (\<forall>a \<in> A. a < t)"
    if "e \<in> set es" "cr_parse c e = Inr s" "t = (s loc ^^ Suc k) now" "nat n \<le> k" for e s k t
  proof (intro exI [of _ "set (fire_times (s loc) (nat n) now)"] conjI ballI)
    show "set (fire_times (s loc) (nat n) now) \<subseteq> set ?xs" using c that xs(2) by force
    show "card (set (fire_times (s loc) (nat n) now)) = nat n" using assms(4) that by (intro card_fire_times) auto
    show "a < t" if "a \<in> set (fire_times (s loc) (nat n) now)" for a
      using that \<open>t = _\<close> \<open>nat n \<le> k\<close> funpow_later [of "s loc"] assms(4) [OF \<open>e \<in> set es\<close> \<open>cr_parse c e = _\<close>]
      by (auto simp: set_fire_times simp del: funpow.simps)
  qed
  obtain e s where e: "e \<in> set es" "cr_parse c e = Inr s" using es c by (meson last_in_set)
  have n: "0 < nat n" using assms(2) by simp
  from first [OF e refl order_refl] obtain A where
    A: "A \<subseteq> set ?xs" "card A = nat n" "\<forall>a \<in> A. a < (s loc ^^ Suc (nat n)) now" by blast
  have "length ts = nat n" unfolding ts by (rule enough_smaller(2) [OF xs(1) A(1,2) n A(3)])
  moreover have "sorted_wrt (<) ts" using xs(1) by (simp add: ts sorted_wrt_take)
  moreover have "fires c loc now es t" if "t \<in> set ts" for t
    using that c xs(2) by (auto simp: ts fires_def set_fire_times dest!: in_set_takeD simp del: funpow.simps) blast
  moreover have "t \<in> set ts \<or> last ts < t" if "fires c loc now es t" for t
  proof -
    from that obtain e s k where f: "e \<in> set es" "cr_parse c e = Inr s" "t = (s loc ^^ Suc k) now"
      by (auto simp: fires_def simp del: funpow.simps)
    show ?thesis
    proof (cases "k < nat n")
      case True
      then have "t \<in> set ?xs" using c f xs(2) by (force simp: set_fire_times simp del: funpow.simps)
      moreover have "last ts \<in> set (take (nat n) ?xs)"
        using \<open>length ts = nat n\<close> n by (metis last_in_set length_0_conv less_irrefl ts)
      ultimately show ?thesis using take_strict_rest [OF xs(1)] ts by blast
    next
      case False
      then obtain B where "B \<subseteq> set ?xs" "card B = nat n" "\<forall>a \<in> B. a < t"
        using first [OF f] by force
      then show ?thesis using enough_smaller(1) [OF xs(1) _ _ n] ts by blast
    qed
  qed
  ultimately show ?thesis by blast
qed

lemma next_times_exact_witness:
  "\<exists>ts. NextScheduleTimes test_cron [''xx'', ''xxx''] ''Local'' 4 0 = Inr ts \<and> length ts = 4 \<and> sorted_wrt (<) ts"
proof -
  obtain ts where ts: "NextScheduleTimes test_cron [''xx'', ''xxx''] ''Local'' 4 0 = Inr ts"
    by (simp add: NextScheduleTimes_def parseSchedule_def)
  have "t < s ''Local'' t" if "e \<in> set [''xx'', ''xxx'']" "cr_parse test_cron e = Inr s" for e s t
    using that by (auto simp: second_def)
  then have "length ts = nat 4 \<and> sorted_wrt (<) ts"
    using next_times_exact [of test_cron "[''xx'', ''xxx'']" "''Local''" 4 0 ts "''Local''", OF ts _ test_location]
    by fastforce
  then have "length ts = 4 \<and> sorted_wrt (<) ts" by simp
  with ts show ?thesis by blast
qed

end
