(* ===== verification/Scheduler.thy ===== *)
theory Scheduler
  imports Schedules Runner
begin

section \<open>The scheduler (internal/runtime/runtime.go)\<close>

text \<open>
  One poll of the scheduler synchronises its tasks with the stored monitors and queues the
  monitors that are due; a queued monitor is started when the limit of concurrent runs
  allows it and no other run of the monitor is in progress. The first part is the function
  \<open>syncAndRun\<close>, the second the step relation \<open>pool_step\<close> over all interleavings.
\<close>

subsection \<open>One poll\<close>












subsection \<open>Running the queued monitors\<close>

text \<open>
  A run that the scheduler started is a goroutine: it tries to take the lock of its monitor,
  runs if it got it, and lowers \<open>activeRuns\<close> when it has returned. A run through the API
  waits for the lock (\<open>po_manual\<close> holds those that have it) and is not counted.
\<close>

datatype job_phase = Launched | Running | Returned

record pool =
  po_active :: int
  po_jobs :: "(string \<times> job_phase) list"
  po_manual :: "string list"

definition running_jobs :: "(string \<times> job_phase) list \<Rightarrow> string list" where
  "running_jobs js = map fst (filter (\<lambda>(_, ph). ph = Running) js)"

definition running_ids :: "pool \<Rightarrow> string list" where
  "running_ids p = running_jobs (po_jobs p)"

text \<open>Whether the lock of a monitor is held.\<close>

definition locked :: "pool \<Rightarrow> string \<Rightarrow> bool" where
  "locked p mid \<longleftrightarrow> mid \<in> set (running_ids p) \<or> mid \<in> set (po_manual p)"

definition set_job :: "nat \<Rightarrow> job_phase \<Rightarrow> pool \<Rightarrow> pool" where
  "set_job i ph p = p\<lparr>po_jobs := (po_jobs p)[i := (fst (po_jobs p ! i), ph)]\<rparr>"

text \<open>\<open>launch\<close>, up to the start of the goroutine.\<close>

definition launch :: "int \<Rightarrow> string \<Rightarrow> pool \<Rightarrow> pool" where
  "launch limit mid p =
     (if limit \<le> po_active p then p
      else p\<lparr>po_active := po_active p + 1, po_jobs := po_jobs p @ [(mid, Launched)]\<rparr>)"

text \<open>\<open>TryRun\<close> of the goroutine \<open>i\<close> up to the lock, its return, and the deferred decrement.\<close>

definition try_run :: "nat \<Rightarrow> pool \<Rightarrow> pool" where
  "try_run i p = (if locked p (fst (po_jobs p ! i)) then set_job i Returned p else set_job i Running p)"

definition job_done :: "nat \<Rightarrow> pool \<Rightarrow> pool" where
  "job_done i p = p\<lparr>po_active := po_active p - 1, po_jobs := take i (po_jobs p) @ drop (Suc i) (po_jobs p)\<rparr>"

inductive pool_step :: "int \<Rightarrow> pool \<Rightarrow> pool \<Rightarrow> bool" for bound :: int where
  Launch: "limit \<le> bound \<Longrightarrow> pool_step bound p (launch limit mid p)"
| TryRun: "i < length (po_jobs p) \<Longrightarrow> snd (po_jobs p ! i) = Launched \<Longrightarrow> pool_step bound p (try_run i p)"
| Return: "i < length (po_jobs p) \<Longrightarrow> snd (po_jobs p ! i) = Running \<Longrightarrow> pool_step bound p (set_job i Returned p)"
| Done: "i < length (po_jobs p) \<Longrightarrow> snd (po_jobs p ! i) = Returned \<Longrightarrow> pool_step bound p (job_done i p)"
| Lock: "\<not> locked p mid \<Longrightarrow> pool_step bound p (p\<lparr>po_manual := mid # po_manual p\<rparr>)"
| Unlock: "mid \<in> set (po_manual p) \<Longrightarrow> pool_step bound p (p\<lparr>po_manual := remove1 mid (po_manual p)\<rparr>)"

inductive_cases pool_stepE: "pool_step bound p q"

definition NewPool :: pool where
  "NewPool = \<lparr>po_active = 0, po_jobs = [], po_manual = []\<rparr>"

inductive pool_reachable :: "int \<Rightarrow> pool \<Rightarrow> bool" for bound :: int where
  start: "pool_reachable bound NewPool"
| step: "pool_reachable bound p \<Longrightarrow> pool_step bound p q \<Longrightarrow> pool_reachable bound q"

subsection \<open>At most one run of a monitor, within the limit\<close>

text \<open>A job taken out of the list of jobs.\<close>

lemma job_split:
  assumes "i < length (po_jobs p)" and "snd (po_jobs p ! i) = ph"
  obtains xs mid ys where "po_jobs p = xs @ (mid, ph) # ys" and "length xs = i"
proof -
  have "po_jobs p = take i (po_jobs p) @ (fst (po_jobs p ! i), ph) # drop (Suc i) (po_jobs p)"
    using id_take_nth_drop [OF assms(1)] assms(2) by (metis prod.collapse)
  with assms(1) that show ?thesis by (metis length_take min.absorb4)
qed

lemma running_jobs_simps [simp]:
  "running_jobs [] = []" "running_jobs (xs @ ys) = running_jobs xs @ running_jobs ys"
  "running_jobs ((mid, ph) # ys) = (if ph = Running then mid # running_jobs ys else running_jobs ys)"
  by (simp_all add: running_jobs_def)

definition pool_inv :: "int \<Rightarrow> pool \<Rightarrow> bool" where
  "pool_inv bound p \<longleftrightarrow> po_active p = int (length (po_jobs p)) \<and> po_active p \<le> max 0 bound \<and>
     distinct (running_ids p @ po_manual p)"

lemma pool_step_inv [inv_intros]: "pool_step bound p q \<Longrightarrow> pool_inv bound p \<Longrightarrow> pool_inv bound q"
proof (erule pool_stepE)
  fix limit mid
  assume "limit \<le> bound" "q = launch limit mid p" "pool_inv bound p"
  then show "pool_inv bound q" by (auto simp: pool_inv_def launch_def running_ids_def)
next
  fix i
  assume i: "i < length (po_jobs p)" "snd (po_jobs p ! i) = Launched" and q: "q = try_run i p" and inv: "pool_inv bound p"
  obtain xs mid ys where s: "po_jobs p = xs @ (mid, Launched) # ys" "length xs = i" by (rule job_split [OF i])
  show "pool_inv bound q"
    using inv s by (auto simp: q try_run_def set_job_def pool_inv_def running_ids_def locked_def)
next
  fix i
  assume i: "i < length (po_jobs p)" "snd (po_jobs p ! i) = Running" and q: "q = set_job i Returned p" and inv: "pool_inv bound p"
  obtain xs mid ys where s: "po_jobs p = xs @ (mid, Running) # ys" "length xs = i" by (rule job_split [OF i])
  show "pool_inv bound q" using inv s by (auto simp: q set_job_def pool_inv_def running_ids_def)
next
  fix i
  assume i: "i < length (po_jobs p)" "snd (po_jobs p ! i) = Returned" and q: "q = job_done i p" and inv: "pool_inv bound p"
  obtain xs mid ys where s: "po_jobs p = xs @ (mid, Returned) # ys" "length xs = i" by (rule job_split [OF i])
  show "pool_inv bound q" using inv s by (auto simp: q job_done_def pool_inv_def running_ids_def)
next
  fix mid
  assume "\<not> locked p mid" "q = p\<lparr>po_manual := mid # po_manual p\<rparr>" "pool_inv bound p"
  then show "pool_inv bound q" by (auto simp: pool_inv_def running_ids_def locked_def)
next
  fix mid
  assume "mid \<in> set (po_manual p)" "q = p\<lparr>po_manual := remove1 mid (po_manual p)\<rparr>" "pool_inv bound p"
  then show "pool_inv bound q"
    by (auto simp: pool_inv_def running_ids_def dest: notin_set_remove1)
qed

lemma pool_reachable_inv: "pool_reachable bound p \<Longrightarrow> pool_inv bound p"
proof (induction rule: pool_reachable.induct)
  case start
  show ?case by (simp add: pool_inv_def NewPool_def running_ids_def)
next
  case (step p q)
  then show ?case by (auto intro: inv_intros)
qed

text \<open>
  C6: Whatever the order in which polls, goroutines and runs through the API are interleaved,
  a monitor is executed at most once at a time, and the scheduler never executes more
  monitors than the highest limit that was configured: \<open>activeRuns\<close> is exactly the number
  of its goroutines.
\<close>

theorem one_run_per_monitor:
  assumes "pool_reachable bound p"
  shows "distinct (running_ids p @ po_manual p) \<and> po_active p = int (length (po_jobs p)) \<and>
    int (length (running_ids p)) \<le> max 0 bound"
proof -
  have "length (running_ids p) \<le> length (po_jobs p)" by (simp add: running_ids_def running_jobs_def)
  with pool_reachable_inv [OF assms] show ?thesis unfolding pool_inv_def by linarith
qed

lemma one_run_per_monitor_witness:
  "distinct (running_ids (try_run 0 (launch 1 ''m'' NewPool)) @ po_manual (try_run 0 (launch 1 ''m'' NewPool))) \<and>
   running_ids (try_run 0 (launch 1 ''m'' NewPool)) = [''m'']"
proof -
  have "pool_reachable 1 (try_run 0 (launch 1 ''m'' NewPool))"
    by (rule pool_reachable.step [OF pool_reachable.step [OF pool_reachable.start pool_step.Launch [of 1 1]] pool_step.TryRun])
      (simp_all add: launch_def NewPool_def)
  moreover have "running_ids (try_run 0 (launch 1 ''m'' NewPool)) = [''m'']"
    by (simp add: try_run_def launch_def NewPool_def locked_def running_ids_def set_job_def)
  ultimately show ?thesis using one_run_per_monitor by blast
qed

subsection \<open>The goroutines end\<close>










subsection \<open>Every slot of a schedule is served\<close>






























end
