(* ===== verification/Base64.thy ===== *)
theory Base64
  imports GoStrings
begin

section \<open>Base64 (encoding/base64)\<close>

text \<open>
  \<open>base64.RawStdEncoding\<close> and \<open>base64.RawURLEncoding\<close>: the alphabet is chosen by the flag
  \<open>url\<close>. Decoding ignores line breaks and the unused bits of the last character.
\<close>

definition b64_char :: "bool \<Rightarrow> nat \<Rightarrow> char" where
  "b64_char url n =
     (if n < 26 then byte (65 + n)
      else if n < 52 then byte (71 + n)
      else if n < 62 then byte (n - 4)
      else if n = 62 then (if url then CHR ''-'' else CHR ''+'')
      else (if url then CHR ''_'' else CHR ''/''))"

definition b64_val :: "bool \<Rightarrow> char \<Rightarrow> nat option" where
  "b64_val url c =
     (let n = ord c in
      if 65 \<le> n \<and> n \<le> 90 then Some (n - 65)
      else if 97 \<le> n \<and> n \<le> 122 then Some (n - 71)
      else if 48 \<le> n \<and> n \<le> 57 then Some (n + 4)
      else if c = b64_char url 62 then Some 62
      else if c = b64_char url 63 then Some 63
      else None)"

fun b64_digits :: "nat list \<Rightarrow> nat list" where
  "b64_digits [] = []"
| "b64_digits [a] = [a div 4, (a mod 4) * 16]"
| "b64_digits [a, b] = [a div 4, (a mod 4) * 16 + b div 16, (b mod 16) * 4]"
| "b64_digits (a # b # c # s) =
     [a div 4, (a mod 4) * 16 + b div 16, (b mod 16) * 4 + c div 64, c mod 64] @ b64_digits s"

definition b64_encode :: "bool \<Rightarrow> string \<Rightarrow> string" where
  "b64_encode url s = map (b64_char url) (b64_digits (map ord s))"

fun b64_bytes :: "nat list \<Rightarrow> nat list" where
  "b64_bytes [a, b] = [a * 4 + b div 16]"
| "b64_bytes [a, b, c] = [a * 4 + b div 16, (b mod 16) * 16 + c div 4]"
| "b64_bytes (a # b # c # d # s) =
     [a * 4 + b div 16, (b mod 16) * 16 + c div 4, (c mod 4) * 64 + d] @ b64_bytes s"
| "b64_bytes _ = []"

fun all_values :: "'a option list \<Rightarrow> 'a list option" where
  "all_values [] = Some []"
| "all_values (x # xs) =
     (case (x, all_values xs) of (Some v, Some vs) \<Rightarrow> Some (v # vs) | _ \<Rightarrow> None)"

definition b64_decode :: "bool \<Rightarrow> string \<Rightarrow> string option" where
  "b64_decode url s =
     (let t = filter (\<lambda>c. c \<noteq> byte 10 \<and> c \<noteq> byte 13) s in
      if length t mod 4 = 1 then None
      else map_option (\<lambda>ds. map byte (b64_bytes ds)) (all_values (map (b64_val url) t)))"

subsection \<open>Decoding what was encoded\<close>

lemma ord_b64_char:
  assumes "n < 64"
  obtains "n < 26" "ord (b64_char url n) = 65 + n"
  | "26 \<le> n" "n < 52" "ord (b64_char url n) = 71 + n"
  | "52 \<le> n" "n < 62" "ord (b64_char url n) = n - 4"
  | "n = 62" "ord (b64_char url n) = (if url then 45 else 43)"
  | "n = 63" "ord (b64_char url n) = (if url then 95 else 47)"
proof -
  have "ord (CHR ''-'') = 45" "ord (CHR ''+'') = 43" "ord (CHR ''_'') = 95" "ord (CHR ''/'') = 47"
    by (simp_all add: ord_def)
  with assms that show thesis
    by (cases "n < 26"; cases "n < 52"; cases "n < 62"; cases "n = 62") (auto simp: b64_char_def ord_byte)
qed

lemma b64_last: "b64_char url 63 \<noteq> b64_char url 62"
  by (simp add: b64_char_def)

lemma b64_val_char: "n < 64 \<Longrightarrow> b64_val url (b64_char url n) = Some n"
  by (rule ord_b64_char [of n url]) (auto simp: b64_val_def Let_def b64_last)

lemma b64_char_plain: "n < 64 \<Longrightarrow> b64_char url n \<notin> {byte 10, byte 13, CHR ''$''}"
proof -
  assume n: "n < 64"
  have "ord (b64_char url n) \<noteq> 10 \<and> ord (b64_char url n) \<noteq> 13 \<and> ord (b64_char url n) \<noteq> 36"
    by (rule ord_b64_char [OF n, of url]) auto
  moreover have "ord (CHR ''$'') = 36" by (simp add: ord_def)
  ultimately show ?thesis by (auto simp: ord_byte)
qed

lemma b64_digits_less: "\<forall>n \<in> set ns. n < 256 \<Longrightarrow> \<forall>d \<in> set (b64_digits ns). d < 64"
  by (induction ns rule: b64_digits.induct) auto

lemma high_part:
  "b < 256 \<Longrightarrow> b div 16 div 16 = 0" "b < 256 \<Longrightarrow> b div 16 mod 16 = b div 16"
  "b < 256 \<Longrightarrow> b div 64 div 4 = 0" "b < 256 \<Longrightarrow> b div 64 mod 4 = b div 64" for b :: nat
proof -
  have "b div 16 < 16" "b div 64 < 4" if "b < 256" using that by (simp_all add: div_less_iff_less_mult)
  then show "b < 256 \<Longrightarrow> b div 16 div 16 = 0" "b < 256 \<Longrightarrow> b div 16 mod 16 = b div 16"
    "b < 256 \<Longrightarrow> b div 64 div 4 = 0" "b < 256 \<Longrightarrow> b div 64 mod 4 = b div 64" by simp_all
qed

lemma b64_bytes_digits: "\<forall>n \<in> set ns. n < 256 \<Longrightarrow> b64_bytes (b64_digits ns) = ns"
  by (induction ns rule: b64_digits.induct) (simp_all add: high_part)

lemma b64_digits_length: "length (b64_digits ns) mod 4 \<noteq> 1"
  by (induction ns rule: b64_digits.induct) (auto simp: mod_Suc)

lemma all_values_map: "\<forall>x \<in> set xs. f x = Some (g x) \<Longrightarrow> all_values (map f xs) = Some (map g xs)"
  by (induction xs) auto

lemma b64_decode_encode: "b64_decode url (b64_encode url s) = Some s"
proof -
  let ?ds = "b64_digits (map ord s)"
  have d: "\<forall>d \<in> set ?ds. d < 64" by (rule b64_digits_less) simp
  then have t: "filter (\<lambda>c. c \<noteq> byte 10 \<and> c \<noteq> byte 13) (b64_encode url s) = b64_encode url s"
    using b64_char_plain by (force simp: b64_encode_def filter_id_conv)
  have "all_values (map (b64_val url) (b64_encode url s)) = Some (map id ?ds)"
    unfolding b64_encode_def map_map by (rule all_values_map) (simp add: d b64_val_char)
  moreover have "length (b64_encode url s) mod 4 \<noteq> 1" using b64_digits_length [of "map ord s"] by (simp add: b64_encode_def)
  ultimately show ?thesis
    by (simp add: b64_decode_def Let_def t b64_bytes_digits comp_def)
qed

lemma b64_encode_plain: "CHR ''$'' \<notin> set (b64_encode url s)"
proof -
  have "\<forall>d \<in> set (b64_digits (map ord s)). d < 64" by (rule b64_digits_less) simp
  then show ?thesis using b64_char_plain by (force simp: b64_encode_def)
qed

subsection \<open>With padding\<close>

text \<open>\<open>base64.StdEncoding\<close>: the last group of four is filled with \<open>=\<close>.\<close>

definition b64_encode_std :: "string \<Rightarrow> string" where
  "b64_encode_std s =
     (let t = b64_encode False s in t @ replicate ((4 - length t mod 4) mod 4) (CHR ''=''))"

definition b64_decode_std :: "string \<Rightarrow> string option" where
  "b64_decode_std s =
     (let t = filter (\<lambda>c. c \<noteq> byte 10 \<and> c \<noteq> byte 13) s in
      if length t mod 4 \<noteq> 0 then None
      else if drop (length t - 2) t = ''=='' then b64_decode False (take (length t - 2) t)
      else if drop (length t - 1) t = ''='' then b64_decode False (take (length t - 1) t)
      else b64_decode False t)"

lemma b64_no_pad: "c \<in> set (b64_encode False s) \<Longrightarrow> c \<noteq> CHR ''=''"
proof
  assume "c \<in> set (b64_encode False s)" and c: "c = CHR ''=''"
  moreover have "\<forall>d \<in> set (b64_digits (map ord s)). d < 64" by (rule b64_digits_less) simp
  ultimately obtain n where n: "n < 64" "c = b64_char False n" by (auto simp: b64_encode_def)
  have "ord (CHR ''='') = 61" by (simp add: ord_def)
  with n c show False by (auto elim!: ord_b64_char [of n False])
qed

lemma b64_decode_encode_std: "b64_decode_std (b64_encode_std s) = Some s"
proof -
  let ?t = "b64_encode False s"
  have "\<forall>d \<in> set (b64_digits (map ord s)). d < 64" by (rule b64_digits_less) simp
  then have f: "filter (\<lambda>c. c \<noteq> byte 10 \<and> c \<noteq> byte 13) ?t = ?t"
    using b64_char_plain by (force simp: b64_encode_def filter_id_conv)
  have eq: "CHR ''='' \<noteq> byte 10" "CHR ''='' \<noteq> byte 13" by code_simp+
  have last: "drop (length ?t - 1) ?t \<noteq> ''=''" "drop (length ?t - 2) ?t \<noteq> ''==''"
    using b64_no_pad in_set_dropD [of "CHR ''=''"] by (metis list.set_intros(1))+
  have "length ?t mod 4 \<noteq> 1" using b64_digits_length [of "map ord s"] by (simp add: b64_encode_def)
  then consider "length ?t mod 4 = 0" | "length ?t mod 4 = 2" | "length ?t mod 4 = 3" by linarith
  then show ?thesis
  proof cases
    case 1
    with last f show ?thesis by (auto simp: b64_decode_std_def b64_encode_std_def Let_def b64_decode_encode)
  next
    case 2
    then have "(length ?t + 2) mod 4 = 0" by presburger
    with 2 f eq show ?thesis
      by (simp add: b64_decode_std_def b64_encode_std_def b64_decode_encode numeral_2_eq_2)
  next
    case 3
    then have m: "(length ?t + 1) mod 4 = 0" by presburger
    have ne: "?t \<noteq> []" using 3 by auto
    obtain u c where t: "?t = u @ [c]" using ne by (cases ?t rule: rev_cases) auto
    have "c \<noteq> CHR ''=''" using b64_no_pad [of c s] t by simp
    then have "drop (length ?t - 1) (?t @ ''='') \<noteq> ''==''" by (simp add: t)
    with 3 m f eq show ?thesis
      by (simp add: b64_decode_std_def b64_encode_std_def b64_decode_encode)
  qed
qed

end
