(* ===== verification/Auth.thy ===== *)
theory Auth
  imports Base64 StoreAdmin
begin

section \<open>Authentication (internal/auth)\<close>

text \<open>
  The administrator's key, sessions and access tokens. The cryptography is the record
  \<open>crypto\<close> (Argon2id, SHA-256 as a hexadecimal text, AES-GCM); the bytes that the random
  source draws are arguments, \<open>None\<close> where it fails. An operation gives its result or error
  and the database after it, because some write before they fail. Case folding is ASCII.
\<close>

record crypto =
  cy_argon2 :: "string \<Rightarrow> string \<Rightarrow> nat \<Rightarrow> nat \<Rightarrow> nat \<Rightarrow> nat \<Rightarrow> string"
  cy_digest :: "string \<Rightarrow> string"
  cy_seal :: "string \<Rightarrow> string \<Rightarrow> string \<Rightarrow> string"
  cy_open :: "string \<Rightarrow> string \<Rightarrow> string \<Rightarrow> string option"

record draws =
  dw_salt :: "string option"
  dw_token :: "string option"
  dw_csrf :: "string option"
  dw_nonce :: "string option"
  dw_uuid :: string

datatype auth_error =
    AlreadyInitialized
  | NotInitialized
  | InvalidCurrentKey
  | InvalidAccessKey
  | KeyTooShort
  | InvalidKeyHash
  | UnsupportedArgon2
  | InvalidArgon2 string
  | AuthenticationRequired
  | SessionInvalid
  | InvalidToken
  | TokenNameRequired
  | TokenNameExists
  | TokenExpirationPast
  | TokenTypeInvalid
  | TokenScopeInvalid string
  | TokenCopyDisabled
  | TokenRevoked
  | TokenUndecryptable
  | NoncePanic
  | RandomFailed
  | AuthStore db_error

type_synonym 'a auth_result = "(auth_error + 'a) \<times> db"

record session =
  ss_token :: string
  ss_csrf_token :: string
  ss_expires_at :: time

record token_secret =
  ts_id :: string
  ts_type :: string
  ts_token :: string

record auth_service =
  sv_ttl :: duration
  sv_token_key :: string
  sv_allow_copy :: bool
  sv_pending :: "token_secret option"

definition from_db :: "db_error + 'a \<Rightarrow> auth_error + 'a" where
  "from_db r = (case r of Inl e \<Rightarrow> Inl (AuthStore e) | Inr x \<Rightarrow> Inr x)"

lemma from_db_Inr [simp]: "from_db r = Inr x \<longleftrightarrow> r = Inr x"
  by (cases r) (auto simp: from_db_def)

definition default_ttl :: duration where
  "default_ttl = 720 * hour"

definition newService :: "duration \<Rightarrow> string \<Rightarrow> bool \<Rightarrow> auth_service" where
  "newService ttl key allowCopy =
     \<lparr>sv_ttl = (if ttl \<le> 0 then default_ttl else ttl), sv_token_key = key, sv_allow_copy = allowCopy,
      sv_pending = None\<rparr>"

definition SetSessionTTL :: "duration \<Rightarrow> auth_service \<Rightarrow> auth_service" where
  "SetSessionTTL ttl sv = (if 0 < ttl then sv\<lparr>sv_ttl := ttl\<rparr> else sv)"

definition SessionTTL :: "auth_service \<Rightarrow> duration" where
  "SessionTTL sv = (if sv_ttl sv \<le> 0 then default_ttl else sv_ttl sv)"

subsection \<open>Key hashes\<close>

definition minimumAccessKeyLength :: nat where "minimumAccessKeyLength = 12"
definition minimumHashMemory :: int where "minimumHashMemory = 8 * 1024"
definition maximumHashMemory :: int where "maximumHashMemory = 256 * 1024"
definition maximumHashTime :: int where "maximumHashTime = 10"
definition maximumHashThreads :: int where "maximumHashThreads = 16"
definition minimumHashBytes :: nat where "minimumHashBytes = 16"
definition maximumHashBytes :: nat where "maximumHashBytes = 64"
definition argon2_version :: int where "argon2_version = 19"

definition validateAccessKey :: "string \<Rightarrow> auth_error + unit" where
  "validateAccessKey v =
     (if length (trim_space v) < minimumAccessKeyLength then Inl KeyTooShort else Inr ())"

definition key_hash_text :: "string \<Rightarrow> string \<Rightarrow> string" where
  "key_hash_text salt key =
     join_with ''$'' [[], ''argon2id'', ''v='' @ itoa argon2_version,
       join_with '','' [''m='' @ itoa (64 * 1024), ''t='' @ itoa 3, ''p='' @ itoa 4],
       b64_encode False salt, b64_encode False key]"

definition hashAccessKey :: "crypto \<Rightarrow> string option \<Rightarrow> string \<Rightarrow> auth_error + string" where
  "hashAccessKey cy salt v =
     (case salt of
        None \<Rightarrow> Inl RandomFailed
      | Some s \<Rightarrow> Inr (key_hash_text s (cy_argon2 cy v s 3 (64 * 1024) 4 32)))"

text \<open>
  \<open>fmt.Sscanf\<close> of one \<open>%d\<close>: white space before the number is skipped but for a line break,
  and what follows the digits is not looked at.
\<close>

definition scan_int :: "string \<Rightarrow> int option" where
  "scan_int s =
     (let t = trim_left s; skipped = take (length s - length t) s;
          signed = (t \<noteq> [] \<and> (hd t = CHR ''-'' \<or> hd t = CHR ''+''));
          digits = takeWhile is_digit (if signed then tl t else t)
      in if byte 10 \<in> set skipped \<or> digits = [] then None
         else atoi ((if signed then [hd t] else []) @ digits))"

definition scan_version :: "string \<Rightarrow> int option" where
  "scan_version s = (if has_prefix s ''v='' then scan_int (drop 2 s) else None)"

definition parseHashParameter :: "string \<Rightarrow> string \<Rightarrow> nat \<Rightarrow> int option" where
  "parseHashParameter v prefix bits =
     (if \<not> has_prefix v prefix \<or> trim_prefix v prefix = [] then None
      else parse_uint bits (trim_prefix v prefix))"

definition in_range :: "int option \<Rightarrow> int \<Rightarrow> int \<Rightarrow> bool" where
  "in_range v lo hi = (case v of None \<Rightarrow> False | Some n \<Rightarrow> lo \<le> n \<and> n \<le> hi)"

definition hash_bytes :: "string \<Rightarrow> string option" where
  "hash_bytes s =
     (case b64_decode False s of
        None \<Rightarrow> None
      | Some b \<Rightarrow> if length b < minimumHashBytes \<or> maximumHashBytes < length b then None else Some b)"

record key_hash =
  kh_memory :: nat
  kh_time :: nat
  kh_threads :: nat
  kh_salt :: string
  kh_expected :: string

definition parse_parameters :: "string list \<Rightarrow> string \<Rightarrow> string \<Rightarrow> auth_error + key_hash" where
  "parse_parameters ps salt key =
     (if length ps \<noteq> 3 then Inl (InvalidArgon2 ''parameters'')
      else (let m = parseHashParameter (ps ! 0) ''m='' 32; t = parseHashParameter (ps ! 1) ''t='' 32;
                p = parseHashParameter (ps ! 2) ''p='' 8 in
        if \<not> in_range m minimumHashMemory maximumHashMemory then Inl (InvalidArgon2 ''memory'')
        else if \<not> in_range t 1 maximumHashTime then Inl (InvalidArgon2 ''time'')
        else if \<not> in_range p 1 maximumHashThreads then Inl (InvalidArgon2 ''threads'')
        else (case hash_bytes salt of
          None \<Rightarrow> Inl (InvalidArgon2 ''salt'')
        | Some s \<Rightarrow> (case hash_bytes key of
            None \<Rightarrow> Inl (InvalidArgon2 ''key'')
          | Some k \<Rightarrow> Inr \<lparr>kh_memory = nat (the m), kh_time = nat (the t), kh_threads = nat (the p),
              kh_salt = s, kh_expected = k\<rparr>))))"

definition parseAccessKeyHash :: "string \<Rightarrow> auth_error + key_hash" where
  "parseAccessKeyHash encoded =
     (let parts = split_on (CHR ''$'') encoded in
      if length parts \<noteq> 6 \<or> parts ! 0 \<noteq> [] \<or> parts ! 1 \<noteq> ''argon2id'' then Inl InvalidKeyHash
      else if scan_version (parts ! 2) \<noteq> Some argon2_version then Inl UnsupportedArgon2
      else parse_parameters (split_on (CHR '','') (parts ! 3)) (parts ! 4) (parts ! 5))"

definition ValidateAccessKeyHash :: "string \<Rightarrow> auth_error + unit" where
  "ValidateAccessKeyHash encoded = ok_then (parseAccessKeyHash encoded) (\<lambda>_. Inr ())"

definition verifyAccessKey :: "crypto \<Rightarrow> string \<Rightarrow> string \<Rightarrow> auth_error + bool" where
  "verifyAccessKey cy v encoded =
     ok_then (parseAccessKeyHash encoded) (\<lambda>h.
       Inr (cy_argon2 cy v (kh_salt h) (kh_time h) (kh_memory h) (kh_threads h) (length (kh_expected h)) =
            kh_expected h))"

subsection \<open>Sessions\<close>

definition randomToken :: "string option \<Rightarrow> auth_error + string" where
  "randomToken drawn = (case drawn of None \<Rightarrow> Inl RandomFailed | Some b \<Rightarrow> Inr (b64_encode True b))"

definition createSession ::
    "crypto \<Rightarrow> engine \<Rightarrow> auth_service \<Rightarrow> draws \<Rightarrow> time \<Rightarrow> db \<Rightarrow> session auth_result" where
  "createSession cy en sv dw now db =
     (case randomToken (dw_token dw) of
        Inl e \<Rightarrow> (Inl e, db)
      | Inr token \<Rightarrow> (case randomToken (dw_csrf dw) of
          Inl e \<Rightarrow> (Inl e, db)
        | Inr csrf \<Rightarrow> (let expires = now + SessionTTL sv in
            case CreateAdminSession en \<lparr>as_token_hash = cy_digest cy token, as_csrf_token = csrf,
                as_expires_at = expires, as_last_seen_at = now, as_created_at = now\<rparr> db of
              Inl e \<Rightarrow> (Inl (AuthStore e), db)
            | Inr db' \<Rightarrow> (Inr \<lparr>ss_token = token, ss_csrf_token = csrf, ss_expires_at = expires\<rparr>, db'))))"

definition Initialized :: "engine \<Rightarrow> db \<Rightarrow> auth_error + bool" where
  "Initialized en db =
     (case AdminKeyHash en db of
        Inl NoRows \<Rightarrow> Inr False | Inl e \<Rightarrow> Inl (AuthStore e) | Inr _ \<Rightarrow> Inr True)"

text \<open>The new key, validated, hashed and stored.\<close>

definition store_key ::
    "crypto \<Rightarrow> engine \<Rightarrow> draws \<Rightarrow> time \<Rightarrow> string \<Rightarrow> bool \<Rightarrow> db \<Rightarrow> auth_error + db" where
  "store_key cy en dw now accessKey reset db =
     ok_then (validateAccessKey accessKey) (\<lambda>_.
     ok_then (hashAccessKey cy (dw_salt dw) accessKey) (\<lambda>encoded.
       from_db (SetAdminKeyHash en now encoded reset db)))"

definition replaceKey :: "crypto \<Rightarrow> engine \<Rightarrow> draws \<Rightarrow> time \<Rightarrow> string \<Rightarrow> db \<Rightarrow> auth_error + db" where
  "replaceKey cy en dw now accessKey db = store_key cy en dw now accessKey True db"

definition setKeyAndSession ::
    "crypto \<Rightarrow> engine \<Rightarrow> auth_service \<Rightarrow> draws \<Rightarrow> time \<Rightarrow> string \<Rightarrow> bool \<Rightarrow> db \<Rightarrow> session auth_result" where
  "setKeyAndSession cy en sv dw now accessKey reset db =
     (case store_key cy en dw now accessKey reset db of
        Inl e \<Rightarrow> (Inl e, db)
      | Inr db' \<Rightarrow> createSession cy en sv dw now db')"

definition Setup ::
    "crypto \<Rightarrow> engine \<Rightarrow> auth_service \<Rightarrow> draws \<Rightarrow> time \<Rightarrow> string \<Rightarrow> db \<Rightarrow> session auth_result" where
  "Setup cy en sv dw now accessKey db =
     (case Initialized en db of
        Inl e \<Rightarrow> (Inl e, db)
      | Inr b \<Rightarrow> if b then (Inl AlreadyInitialized, db)
          else setKeyAndSession cy en sv dw now accessKey False db)"

definition ResetKey :: "crypto \<Rightarrow> engine \<Rightarrow> draws \<Rightarrow> time \<Rightarrow> string \<Rightarrow> db \<Rightarrow> auth_error + db" where
  "ResetKey = replaceKey"

definition ChangeKey ::
    "crypto \<Rightarrow> engine \<Rightarrow> draws \<Rightarrow> time \<Rightarrow> string \<Rightarrow> string \<Rightarrow> db \<Rightarrow> auth_error + db" where
  "ChangeKey cy en dw now currentKey accessKey db =
     (case AdminKeyHash en db of
        Inl _ \<Rightarrow> Inl NotInitialized
      | Inr encoded \<Rightarrow>
          if verifyAccessKey cy currentKey encoded \<noteq> Inr True then Inl InvalidCurrentKey
          else replaceKey cy en dw now accessKey db)"

definition Login ::
    "crypto \<Rightarrow> engine \<Rightarrow> auth_service \<Rightarrow> draws \<Rightarrow> time \<Rightarrow> string \<Rightarrow> db \<Rightarrow> session auth_result" where
  "Login cy en sv dw now accessKey db =
     (case AdminKeyHash en db of
        Inl _ \<Rightarrow> (Inl NotInitialized, db)
      | Inr encoded \<Rightarrow>
          if verifyAccessKey cy accessKey encoded \<noteq> Inr True then (Inl InvalidAccessKey, db)
          else createSession cy en sv dw now db)"

definition Authenticate ::
    "crypto \<Rightarrow> engine \<Rightarrow> auth_service \<Rightarrow> time \<Rightarrow> string \<Rightarrow> db \<Rightarrow> admin_session auth_result" where
  "Authenticate cy en sv now token db =
     (if token = [] then (Inl AuthenticationRequired, db)
      else (let h = cy_digest cy token; ttl = SessionTTL sv in
        case GetAdminSession en h db of
          Inl _ \<Rightarrow> (Inl SessionInvalid, db)
        | Inr v \<Rightarrow>
            if \<not> now < as_expires_at v then (Inl SessionInvalid, or_same db (DeleteAdminSession en h db))
            else if as_expires_at v - now < ttl div 2 then
              (case RefreshAdminSession en h (now + ttl) now db of
                 Inl e \<Rightarrow> (Inl (AuthStore e), db)
               | Inr db' \<Rightarrow> (Inr (v\<lparr>as_expires_at := now + ttl, as_last_seen_at := now\<rparr>), db'))
            else (Inr v, db)))"

definition Logout :: "crypto \<Rightarrow> engine \<Rightarrow> string \<Rightarrow> db \<Rightarrow> db_error + db" where
  "Logout cy en token db = (if token = [] then Inr db else DeleteAdminSession en (cy_digest cy token) db)"

subsection \<open>Access tokens\<close>

definition TokenTypeREST :: string where "TokenTypeREST = ''rest''"
definition TokenTypeMCP :: string where "TokenTypeMCP = ''mcp''"
definition ScopeAPIRead :: string where "ScopeAPIRead = ''api:read''"
definition ScopeAPIWrite :: string where "ScopeAPIWrite = ''api:write''"
definition ScopeMCP :: string where "ScopeMCP = ''mcp:browser''"

record token_info =
  ti_id :: string
  ti_name :: string
  ti_type :: string
  ti_scopes :: "string list"
  ti_token_hint :: string
  ti_expires_at :: "time option"
  ti_revoked_at :: "time option"
  ti_last_used_at :: "time option"
  ti_created_at :: time

definition tokenInfo :: "api_token \<Rightarrow> token_info" where
  "tokenInfo t = \<lparr>ti_id = at_id t, ti_name = at_name t, ti_type = at_type t, ti_scopes = at_scopes t,
     ti_token_hint = at_token_hint t, ti_expires_at = at_expires_at t, ti_revoked_at = at_revoked_at t,
     ti_last_used_at = at_last_used_at t, ti_created_at = at_created_at t\<rparr>"

record token_principal =
  tp_token_id :: string
  tp_type :: string
  tp_scopes :: "string list"

definition HasScope :: "token_principal \<Rightarrow> string \<Rightarrow> bool" where
  "HasScope p scope \<longleftrightarrow> list_ex (\<lambda>v. v = scope) (tp_scopes p)"

text \<open>The loop of \<open>normalizeScopes\<close>: \<open>result\<close> are the scopes seen so far.\<close>

fun collect_scopes :: "string list \<Rightarrow> string list \<Rightarrow> auth_error + string list" where
  "collect_scopes [] result = Inr result"
| "collect_scopes (s # ss) result =
     (let scope = trim_space s in
      if scope = [] \<or> scope \<in> set result then collect_scopes ss result
      else if scope \<notin> {ScopeAPIRead, ScopeAPIWrite, ScopeMCP} \<or> scope = ScopeMCP then Inl (TokenScopeInvalid scope)
      else collect_scopes ss (result @ [scope]))"

definition normalizeScopes :: "string \<Rightarrow> string list \<Rightarrow> auth_error + string list" where
  "normalizeScopes tokenType scopes =
     (if tokenType = TokenTypeMCP then Inr [ScopeMCP]
      else ok_then (collect_scopes scopes []) (\<lambda>result. Inr (if result = [] then [ScopeAPIRead] else result)))"

definition tokenHint :: "string \<Rightarrow> string" where
  "tokenHint v = (if length v \<le> 8 then v else take 4 v @ ''...'' @ drop (length v - 4) v)"

definition cipher_key_ok :: "string \<Rightarrow> bool" where
  "cipher_key_ok key \<longleftrightarrow> length key \<in> {16, 24, 32}"

definition encryptSecret :: "crypto \<Rightarrow> string option \<Rightarrow> string \<Rightarrow> string \<Rightarrow> auth_error + string \<times> string" where
  "encryptSecret cy nonce key plain =
     (if \<not> cipher_key_ok key then Inl RandomFailed
      else (case nonce of
        None \<Rightarrow> Inl RandomFailed
      | Some n \<Rightarrow> Inr (b64_encode False (cy_seal cy key n plain), b64_encode False n)))"

text \<open>\<open>gcm.Open\<close> panics on a nonce of another length than twelve bytes.\<close>

definition decryptSecret :: "crypto \<Rightarrow> string \<Rightarrow> string \<Rightarrow> string \<Rightarrow> auth_error + string" where
  "decryptSecret cy key encoded nonceEncoded =
     (if \<not> cipher_key_ok key then Inl TokenUndecryptable
      else (case (b64_decode False encoded, b64_decode False nonceEncoded) of
        (Some c, Some n) \<Rightarrow>
          if length n \<noteq> 12 then Inl NoncePanic
          else (case cy_open cy key n c of None \<Rightarrow> Inl TokenUndecryptable | Some p \<Rightarrow> Inr p)
      | _ \<Rightarrow> Inl TokenUndecryptable))"

definition new_token ::
    "crypto \<Rightarrow> auth_service \<Rightarrow> draws \<Rightarrow> time \<Rightarrow> string \<Rightarrow> string \<Rightarrow> string list \<Rightarrow> time option \<Rightarrow>
     auth_error + api_token \<times> token_secret" where
  "new_token cy sv dw now name tokenType scopes expires =
     ok_then (randomToken (dw_token dw)) (\<lambda>drawn.
       let plain = ''mk_'' @ drawn in
       ok_then (encryptSecret cy (dw_nonce dw) (sv_token_key sv) plain) (\<lambda>(ciphertext, nonce).
         Inr (\<lparr>at_id = dw_uuid dw, at_name = name, at_type = tokenType, at_scopes = scopes,
             at_token_hash = cy_digest cy plain, at_secret_ciphertext = ciphertext, at_secret_nonce = nonce,
             at_token_hint = tokenHint plain, at_expires_at = expires, at_revoked_at = None,
             at_last_used_at = None, at_created_at = now\<rparr>,
           \<lparr>ts_id = dw_uuid dw, ts_type = tokenType, ts_token = plain\<rparr>)))"

definition createToken ::
    "crypto \<Rightarrow> engine \<Rightarrow> auth_service \<Rightarrow> draws \<Rightarrow> time \<Rightarrow> string \<Rightarrow> string \<Rightarrow> string list \<Rightarrow> time option \<Rightarrow> db \<Rightarrow>
     (token_info \<times> token_secret) auth_result" where
  "createToken cy en sv dw now name tokenType scopes expires db =
     (if tokenType \<noteq> TokenTypeREST \<and> tokenType \<noteq> TokenTypeMCP then (Inl TokenTypeInvalid, db)
      else (case new_token cy sv dw now name tokenType scopes expires of
          Inl e \<Rightarrow> (Inl e, db)
        | Inr (t, secret) \<Rightarrow>
            (case CreateAPIToken en t db of
               Inl e \<Rightarrow> (Inl (AuthStore e), db)
             | Inr db' \<Rightarrow> (Inr (tokenInfo t, secret), db'))))"

definition CreateToken ::
    "crypto \<Rightarrow> engine \<Rightarrow> auth_service \<Rightarrow> draws \<Rightarrow> time \<Rightarrow> string \<Rightarrow> string \<Rightarrow> string list \<Rightarrow> time option \<Rightarrow> db \<Rightarrow>
     (token_info \<times> string) auth_result" where
  "CreateToken cy en sv dw now rawName tokenType rawScopes expires db =
     (let name = trim_space rawName in
      if name = [] then (Inl TokenNameRequired, db)
      else (case ListAPITokens en db of
          Inl e \<Rightarrow> (Inl (AuthStore e), db)
        | Inr ts \<Rightarrow>
            if list_ex (\<lambda>t. to_lower (trim_space (at_name t)) = to_lower name) ts then (Inl TokenNameExists, db)
            else if (case expires of None \<Rightarrow> False | Some t \<Rightarrow> \<not> now < t) then (Inl TokenExpirationPast, db)
            else (case normalizeScopes tokenType rawScopes of
                Inl e \<Rightarrow> (Inl e, db)
              | Inr scopes \<Rightarrow>
                  (case createToken cy en sv dw now name tokenType scopes expires db of
                     (Inl e, db') \<Rightarrow> (Inl e, db')
                   | (Inr (info, secret), db') \<Rightarrow> (Inr (info, ts_token secret), db')))))"

definition token_live :: "time \<Rightarrow> api_token \<Rightarrow> bool" where
  "token_live now t \<longleftrightarrow> at_revoked_at t = None \<and> (case at_expires_at t of None \<Rightarrow> True | Some e \<Rightarrow> now < e)"

text \<open>The name for a new MCP token: the numbered names are tried until one is free.\<close>

definition mcp_name :: "nat \<Rightarrow> string" where
  "mcp_name n = (if n < 2 then ''MCP Browser'' else ''MCP Browser '' @ itoa (int n))"

function free_mcp_name :: "string list \<Rightarrow> nat \<Rightarrow> string" where
  "free_mcp_name used n =
     (if to_lower (mcp_name n) \<in> set used then free_mcp_name used (Suc n) else mcp_name n)"
  by pat_completeness auto

lemma mcp_name_inj:
  assumes "to_lower (mcp_name (Suc m)) = to_lower (mcp_name (Suc n))"
  shows "m = n"
proof -
  have digits: "to_lower (itoa (int k)) = itoa (int k)" for k
  proof -
    have "lower_char c = c" if "c \<in> set (itoa (int k))" for c
      using that int_digits_digits [of "int k" c] by (auto simp: itoa_def lower_char_def is_digit_def)
    then show ?thesis by (simp add: to_lower_def map_idI)
  qed
  have split: "to_lower (mcp_name (Suc k)) =
      (if k = 0 then to_lower ''MCP Browser'' else to_lower ''MCP Browser '' @ itoa (int (Suc k)))" for k
    using digits [of "Suc k"] by (auto simp: mcp_name_def to_lower_def)
  have "itoa (int (Suc m)) = itoa (int (Suc n))" if "m \<noteq> 0" "n \<noteq> 0"
    using assms that by (simp add: split)
  moreover have "length (to_lower ''MCP Browser'') < length (to_lower ''MCP Browser '' @ itoa (int (Suc k)))" for k
    by (simp add: to_lower_def)
  ultimately show ?thesis
    using assms unfolding split by (metis itoa_inj less_irrefl nat_int of_nat_0_le_iff old.nat.inject)
qed

termination free_mcp_name
proof (relation "measure (\<lambda>(used, n). card (set used \<inter> (to_lower \<circ> mcp_name) ` {k. n \<le> k \<and> 0 < k}) + (if n = 0 then 1 else 0))")
  show "wf (measure (\<lambda>(used, n). card (set used \<inter> (to_lower \<circ> mcp_name) ` {k. n \<le> k \<and> 0 < k}) + (if n = 0 then 1 else 0 :: nat)))"
    by simp
  fix used :: "string list" and n
  assume u: "to_lower (mcp_name n) \<in> set used"
  let ?S = "\<lambda>n. set used \<inter> (to_lower \<circ> mcp_name) ` {k. n \<le> k \<and> 0 < k}"
  show "((used, Suc n), used, n) \<in> measure (\<lambda>(used, n). card (set used \<inter> (to_lower \<circ> mcp_name) ` {k. n \<le> k \<and> 0 < k}) + (if n = 0 then 1 else 0))"
  proof (cases n)
    case 0
    have "{k. 0 \<le> k \<and> 0 < k} = {k. Suc 0 \<le> k \<and> 0 < (k :: nat)}" by auto
    then show ?thesis by (simp add: 0)
  next
    case (Suc m)
    have "to_lower (mcp_name n) \<notin> ?S (Suc n)"
    proof
      assume "to_lower (mcp_name n) \<in> ?S (Suc n)"
      then obtain k where "Suc n \<le> k" "to_lower (mcp_name n) = to_lower (mcp_name k)" by auto
      with mcp_name_inj [of m "k - 1"] Suc show False by (cases k) auto
    qed
    moreover have "to_lower (mcp_name n) \<in> ?S n" using u Suc by auto
    moreover have "?S (Suc n) \<subseteq> ?S n" by auto
    ultimately have "?S (Suc n) \<subset> ?S n" by blast
    then have "card (?S (Suc n)) < card (?S n)" by (intro psubset_card_mono) auto
    then show ?thesis using Suc by simp
  qed
qed

declare free_mcp_name.simps [simp del]

definition EnsureMCPToken ::
    "crypto \<Rightarrow> engine \<Rightarrow> auth_service \<Rightarrow> draws \<Rightarrow> time \<Rightarrow> db \<Rightarrow> token_info auth_result \<times> auth_service" where
  "EnsureMCPToken cy en sv dw now db =
     (case ListAPITokens en db of
        Inl e \<Rightarrow> ((Inl (AuthStore e), db), sv)
      | Inr ts \<Rightarrow>
          (case find_first (\<lambda>t. at_type t = TokenTypeMCP \<and> token_live now t) ts of
             Some t \<Rightarrow> ((Inr (tokenInfo t), db), sv)
           | None \<Rightarrow>
               (case createToken cy en sv dw now
                   (free_mcp_name (map (\<lambda>t. to_lower (trim_space (at_name t))) ts) 1) TokenTypeMCP [ScopeMCP] None db of
                  (Inl e, db') \<Rightarrow> ((Inl e, db'), sv)
                | (Inr (info, secret), db') \<Rightarrow> ((Inr info, db'), sv\<lparr>sv_pending := Some secret\<rparr>))))"

definition ConsumePendingMCPToken :: "auth_service \<Rightarrow> token_secret option \<times> auth_service" where
  "ConsumePendingMCPToken sv = (sv_pending sv, sv\<lparr>sv_pending := None\<rparr>)"

definition ListTokens :: "engine \<Rightarrow> db \<Rightarrow> auth_error + token_info list" where
  "ListTokens en db = ok_then (from_db (ListAPITokens en db)) (\<lambda>ts. Inr (map tokenInfo ts))"

definition GetToken :: "engine \<Rightarrow> string \<Rightarrow> db \<Rightarrow> auth_error + token_info" where
  "GetToken en tid db = ok_then (from_db (GetAPIToken en tid db)) (\<lambda>t. Inr (tokenInfo t))"

definition RevokeToken :: "engine \<Rightarrow> time \<Rightarrow> string \<Rightarrow> db \<Rightarrow> auth_error + db" where
  "RevokeToken en now tid db = from_db (RevokeAPIToken en tid now db)"

definition RestoreToken :: "engine \<Rightarrow> string \<Rightarrow> db \<Rightarrow> auth_error + db" where
  "RestoreToken en tid db = from_db (RestoreAPIToken en tid db)"

definition DeleteToken :: "engine \<Rightarrow> string \<Rightarrow> db \<Rightarrow> auth_error + db" where
  "DeleteToken en tid db = from_db (DeleteAPIToken en tid db)"

definition RevealToken :: "crypto \<Rightarrow> engine \<Rightarrow> auth_service \<Rightarrow> string \<Rightarrow> db \<Rightarrow> auth_error + string" where
  "RevealToken cy en sv tid db =
     (if \<not> sv_allow_copy sv then Inl TokenCopyDisabled
      else ok_then (from_db (GetAPIToken en tid db)) (\<lambda>t.
        if at_revoked_at t \<noteq> None then Inl TokenRevoked
        else decryptSecret cy (sv_token_key sv) (at_secret_ciphertext t) (at_secret_nonce t)))"

definition AuthenticateToken :: "crypto \<Rightarrow> engine \<Rightarrow> time \<Rightarrow> string \<Rightarrow> db \<Rightarrow> token_principal auth_result" where
  "AuthenticateToken cy en now plain db =
     (if trim_space plain = [] then (Inl AuthenticationRequired, db)
      else (let h = cy_digest cy plain in
        case GetAPITokenByHash en h db of
          Inl _ \<Rightarrow> (Inl InvalidToken, db)
        | Inr t \<Rightarrow>
            if \<not> token_live now t then (Inl InvalidToken, db)
            else (case TouchAPIToken en h now db of
                Inl e \<Rightarrow> (Inl (AuthStore e), db)
              | Inr db' \<Rightarrow> (Inr \<lparr>tp_token_id = at_id t, tp_type = at_type t, tp_scopes = at_scopes t\<rparr>, db'))))"

subsection \<open>A key verifies against its hash\<close>

lemma itoa_plain: "0 \<le> n \<Longrightarrow> \<not> is_digit c \<Longrightarrow> c \<notin> set (itoa n)"
  using int_digits_digits [of n c] by (auto simp: itoa_def)

lemma scan_version_printed: "scan_version (''v='' @ itoa argon2_version) = Some argon2_version"
  by code_simp

lemma printed_parameter:
  "0 \<le> n \<Longrightarrow> n < 2 ^ bits \<Longrightarrow> parseHashParameter (p @ itoa n) p bits = Some n"
  by (simp add: parseHashParameter_def has_prefix_iff trim_prefix_append parse_uint_itoa) (simp add: itoa_def)

lemma hash_bytes_encoded: "16 \<le> length b \<Longrightarrow> length b \<le> 64 \<Longrightarrow> hash_bytes (b64_encode False b) = Some b"
  by (simp add: hash_bytes_def b64_decode_encode minimumHashBytes_def maximumHashBytes_def)

lemma parse_parts:
  "split_on (CHR ''$'') encoded = [[], ''argon2id'', v, ps, s, k] \<Longrightarrow>
   parseAccessKeyHash encoded =
     (if scan_version v \<noteq> Some argon2_version then Inl UnsupportedArgon2
      else parse_parameters (split_on (CHR '','') ps) s k)"
  by (simp add: parseAccessKeyHash_def Let_def)

lemma parse_key_hash:
  assumes "length salt = 16" and "length key = 32"
  shows "parseAccessKeyHash (key_hash_text salt key) =
    Inr \<lparr>kh_memory = 65536, kh_time = 3, kh_threads = 4, kh_salt = salt, kh_expected = key\<rparr>"
proof -
  let ?ps = "[''m='' @ itoa (64 * 1024), ''t='' @ itoa 3, ''p='' @ itoa 4]"
  have "\<not> is_digit (CHR ''$'')" "\<not> is_digit (CHR '','')" by (simp_all add: is_digit_def ord_def)
  then have plain: "CHR ''$'' \<notin> set (itoa n) \<and> CHR '','' \<notin> set (itoa n)" if "0 \<le> n" for n
    using itoa_plain that by blast
  have commas: "split_on (CHR '','') (join_with '','' ?ps) = ?ps"
    by (rule split_join) (auto simp: plain)
  have parts: "split_on (CHR ''$'') (key_hash_text salt key) =
      [[], ''argon2id'', ''v='' @ itoa argon2_version, join_with '','' ?ps, b64_encode False salt, b64_encode False key]"
    unfolding key_hash_text_def
    by (rule split_join) (use b64_encode_plain plain in \<open>auto simp: argon2_version_def\<close>)
  have "parseHashParameter (''m='' @ itoa 65536) ''m='' 32 = Some 65536"
    "parseHashParameter (''t='' @ itoa 3) ''t='' 32 = Some 3" "parseHashParameter (''p='' @ itoa 4) ''p='' 8 = Some 4"
    by (rule printed_parameter; simp)+
  then have "parse_parameters ?ps (b64_encode False salt) (b64_encode False key) =
      Inr \<lparr>kh_memory = 65536, kh_time = 3, kh_threads = 4, kh_salt = salt, kh_expected = key\<rparr>"
    using hash_bytes_encoded [of salt] hash_bytes_encoded [of key] assms
    by (simp add: parse_parameters_def in_range_def minimumHashMemory_def maximumHashMemory_def
        maximumHashTime_def maximumHashThreads_def)
  then show ?thesis unfolding parse_parts [OF parts] commas scan_version_printed by simp
qed

text \<open>
  C31: An access key verifies against the hash that was stored for it, and another key exactly
  when Argon2id gives both the same bytes: printing the hash and parsing it back lose
  neither the parameters nor the salt nor the key.
\<close>

theorem key_verifies_own_hash:
  assumes "hashAccessKey cy (Some salt) v = Inr encoded" and "length salt = 16"
    and "\<And>w s t m p n. length (cy_argon2 cy w s t m p n) = n"
  shows "verifyAccessKey cy v encoded = Inr True \<and>
    verifyAccessKey cy w encoded = Inr (cy_argon2 cy w salt 3 65536 4 32 = cy_argon2 cy v salt 3 65536 4 32)"
  using assms by (auto simp: hashAccessKey_def verifyAccessKey_def parse_key_hash)

text \<open>A cryptography that can be computed: it keeps the first bytes of its input.\<close>

definition test_crypto :: crypto where
  "test_crypto = \<lparr>cy_argon2 = (\<lambda>v s t m p n. take n (v @ replicate n (CHR ''x''))),
     cy_digest = (\<lambda>v. CHR ''#'' # v), cy_seal = (\<lambda>k n v. v), cy_open = (\<lambda>k n v. Some v)\<rparr>"

lemma key_verifies_own_hash_witness:
  "verifyAccessKey test_crypto ''correct horse'' (projr (hashAccessKey test_crypto (Some (replicate 16 (CHR ''s''))) ''correct horse'')) =
     Inr True"
proof -
  let ?salt = "replicate 16 (CHR ''s'')"
  have h: "hashAccessKey test_crypto (Some ?salt) ''correct horse'' =
      Inr (projr (hashAccessKey test_crypto (Some ?salt) ''correct horse''))" by (simp add: hashAccessKey_def)
  have l: "length (cy_argon2 test_crypto w s t m p n) = n" for w s t m p n by (simp add: test_crypto_def)
  show ?thesis using key_verifies_own_hash [OF h _ l, of "[]"] by simp
qed

subsection \<open>Sessions\<close>

text \<open>An engine that executes every statement.\<close>

definition sound_engine :: "engine \<Rightarrow> bool" where
  "sound_engine en \<longleftrightarrow> (\<forall>s. en_ok en s)"

lemma SessionTTL_pos: "0 < SessionTTL sv"
  by (simp add: SessionTTL_def default_ttl_def hour_def second_def)

text \<open>The session of a token, as the store has it.\<close>

definition stored_session :: "crypto \<Rightarrow> string \<Rightarrow> db \<Rightarrow> admin_session option" where
  "stored_session cy token db = find_first (\<lambda>s. as_token_hash s = cy_digest cy token) (db_sessions db)"

lemma GetAdminSession_stored:
  "sound_engine en \<Longrightarrow> GetAdminSession en (cy_digest cy token) db =
    (case stored_session cy token db of None \<Rightarrow> Inl NoRows | Some s \<Rightarrow> Inr s)"
  by (simp add: GetAdminSession_def stored_session_def select_first_def run_def sound_engine_def)

lemma Authenticate_live:
  assumes "sound_engine en" and "token \<noteq> []" and "stored_session cy token db = Some v" and "now < as_expires_at v"
  obtains v' db' where "Authenticate cy en sv now token db = (Inr v', db')"
    "stored_session cy token db' = Some v'" "as_csrf_token v' = as_csrf_token v"
    "now + SessionTTL sv div 2 \<le> as_expires_at v'" "as_expires_at v \<le> as_expires_at v' \<or> as_expires_at v' = now + SessionTTL sv"
proof (cases "as_expires_at v - now < SessionTTL sv div 2")
  case False
  with assms have "Authenticate cy en sv now token db = (Inr v, db)"
    by (simp add: Authenticate_def GetAdminSession_stored Let_def)
  with False assms(3) that show thesis by simp
next
  case True
  let ?f = "\<lambda>s. s\<lparr>as_expires_at := now + SessionTTL sv, as_last_seen_at := now\<rparr>"
  let ?db = "db\<lparr>db_sessions := update_rows (\<lambda>s. as_token_hash s = cy_digest cy token) ?f (db_sessions db)\<rparr>"
  have a: "Authenticate cy en sv now token db = (Inr (?f v), ?db)"
    using True assms
    by (simp add: Authenticate_def GetAdminSession_stored Let_def RefreshAdminSession_def run_def sound_engine_def)
  have "stored_session cy token ?db = Some (?f v)"
    using assms(3) find_first_Some [OF assms(3) [unfolded stored_session_def]]
    by (simp add: stored_session_def find_first_update)
  with a SessionTTL_pos [of sv] that [of "?f v" ?db] show thesis by simp
qed

text \<open>Requests with one session, at the given times; the first refusal ends the list.\<close>

fun requests :: "crypto \<Rightarrow> engine \<Rightarrow> auth_service \<Rightarrow> string \<Rightarrow> time list \<Rightarrow> db \<Rightarrow> bool \<times> db" where
  "requests cy en sv token [] db = (True, db)"
| "requests cy en sv token (t # ts) db =
     (case Authenticate cy en sv t token db of
        (Inl _, db') \<Rightarrow> (False, db')
      | (Inr _, db') \<Rightarrow> requests cy en sv token ts db')"

fun gaps_below :: "duration \<Rightarrow> time \<Rightarrow> time list \<Rightarrow> bool" where
  "gaps_below d t [] = True"
| "gaps_below d t (u # us) = (t \<le> u \<and> u - t < d \<and> gaps_below d u us)"

lemma requests_live:
  assumes "sound_engine en" and "token \<noteq> []" and "stored_session cy token db = Some v"
    and "t + SessionTTL sv div 2 \<le> as_expires_at v" and "gaps_below (SessionTTL sv div 2) t ts"
  shows "fst (requests cy en sv token ts db)"
  using assms(3-5)
proof (induction ts arbitrary: db v t)
  case (Cons u us)
  then have "u < as_expires_at v" by simp
  from Authenticate_live [OF assms(1,2) Cons.prems(1) this, of sv] obtain v' db' where
    "Authenticate cy en sv u token db = (Inr v', db')" "stored_session cy token db' = Some v'"
    "u + SessionTTL sv div 2 \<le> as_expires_at v'" by metis
  with Cons show ?case by simp
qed simp

lemma find_first_new:
  assumes "key r \<notin> key ` set rows"
  shows "find_first (\<lambda>s. key s = key r) (rows @ [r]) = Some r"
proof -
  have "find_first (\<lambda>s. key s = key r) rows = None"
    unfolding find_first_None using assms by (metis image_eqI)
  then show ?thesis by (simp add: find_first_append)
qed

lemma createSession_stored:
  assumes "createSession cy en sv dw now db = (Inr s, db')"
  shows "stored_session cy (ss_token s) db' = Some \<lparr>as_token_hash = cy_digest cy (ss_token s),
      as_csrf_token = ss_csrf_token s, as_expires_at = now + SessionTTL sv, as_last_seen_at = now,
      as_created_at = now\<rparr>"
    and "ss_expires_at s = now + SessionTTL sv"
proof -
  let ?r = "\<lparr>as_token_hash = cy_digest cy (ss_token s), as_csrf_token = ss_csrf_token s,
    as_expires_at = now + SessionTTL sv, as_last_seen_at = now, as_created_at = now\<rparr>"
  have "ss_expires_at s = now + SessionTTL sv \<and> as_token_hash ?r \<notin> as_token_hash ` set (db_sessions db) \<and>
      db_sessions db' = db_sessions db @ [?r]"
    using assms
    by (auto simp: createSession_def Let_def CreateAdminSession_def ok_then_Inr insert_row_Inr split: sum.splits)
  then show "stored_session cy (ss_token s) db' = Some ?r" "ss_expires_at s = now + SessionTTL sv"
    using find_first_new [of as_token_hash ?r "db_sessions db"] by (simp_all add: stored_session_def)
qed

lemma Login_session: "Login cy en sv dw now accessKey db = (Inr s, db') \<Longrightarrow> createSession cy en sv dw now db = (Inr s, db')"
  by (auto simp: Login_def split: sum.splits if_splits)

text \<open>
  C15: A session that is used stays alive: after a login, any number of requests is accepted
  as long as each comes less than half the lifetime after the one before, however long
  that lasts, because every request that finds less than half the lifetime left renews it.
\<close>

theorem active_session_survives:
  assumes "Login cy en sv dw now accessKey db = (Inr s, db')" and "sound_engine en" and "ss_token s \<noteq> []"
    and "gaps_below (SessionTTL sv div 2) now ts"
  shows "fst (requests cy en sv (ss_token s) ts db')"
  by (rule requests_live [OF assms(2,3) createSession_stored(1) [OF Login_session [OF assms(1)]] _ assms(4)])
    (use SessionTTL_pos [of sv] in simp)

definition test_draws :: draws where
  "test_draws = \<lparr>dw_salt = Some (replicate 16 (CHR ''s'')), dw_token = Some ''abc'', dw_csrf = Some ''def'',
     dw_nonce = Some (replicate 12 (CHR ''n'')), dw_uuid = ''u''\<rparr>"

definition test_service :: auth_service where
  "test_service = newService 1000 (replicate 32 (CHR ''k'')) True"

definition auth_db :: db where
  "auth_db = projr (store_key test_crypto (test_engine True) test_draws 0 ''correct horse'' False empty_db)"

lemma auth_db_simps: "store_key test_crypto (test_engine True) test_draws 0 ''correct horse'' False empty_db = Inr auth_db"
  "\<exists>h. AdminKeyHash (test_engine True) auth_db = Inr h \<and> hashAccessKey test_crypto (dw_salt test_draws) ''correct horse'' = Inr h"
  "db_sessions auth_db = []"
proof -
  have "validateAccessKey ''correct horse'' = Inr ()" by code_simp
  moreover have "key_hash_text s k \<noteq> []" for s k by (simp add: key_hash_text_def)
  ultimately show "store_key test_crypto (test_engine True) test_draws 0 ''correct horse'' False empty_db = Inr auth_db"
    "\<exists>h. AdminKeyHash (test_engine True) auth_db = Inr h \<and> hashAccessKey test_crypto (dw_salt test_draws) ''correct horse'' = Inr h"
    "db_sessions auth_db = []"
    by (simp_all add: auth_db_def store_key_def hashAccessKey_def test_draws_def from_db_def SetAdminKeyHash_def
        transaction_def put_admin_key_def GetSystemConfig_def run_def test_engine_def select_first_def
        empty_db_def AdminKeyHash_def system_auth_def ok_then_def del: from_db_Inr)
qed

lemma auth_login: "\<exists>s db'. Login test_crypto (test_engine True) test_service test_draws 0 ''correct horse'' auth_db = (Inr s, db') \<and> ss_token s \<noteq> []"
proof -
  obtain h where h: "AdminKeyHash (test_engine True) auth_db = Inr h"
    "hashAccessKey test_crypto (Some (replicate 16 (CHR ''s''))) ''correct horse'' = Inr h"
    using auth_db_simps(2) by (auto simp: test_draws_def)
  have "verifyAccessKey test_crypto ''correct horse'' h = Inr True"
    using h(2) by (auto simp: hashAccessKey_def verifyAccessKey_def parse_key_hash test_crypto_def)
  then show ?thesis
    using h(1) auth_db_simps(3)
    by (simp add: Login_def createSession_def randomToken_def test_draws_def CreateAdminSession_def insert_row_def
        run_def test_engine_def Let_def ok_then_def b64_encode_def)
qed

lemma active_session_survives_witness:
  "\<exists>s db'. Login test_crypto (test_engine True) test_service test_draws 0 ''correct horse'' auth_db = (Inr s, db') \<and>
     fst (requests test_crypto (test_engine True) test_service (ss_token s) [400, 800, 1200, 1600] db')"
proof -
  obtain s db' where l: "Login test_crypto (test_engine True) test_service test_draws 0 ''correct horse'' auth_db = (Inr s, db')"
    "ss_token s \<noteq> []" using auth_login by blast
  have e: "sound_engine (test_engine True)" by (simp add: sound_engine_def test_engine_def)
  have "gaps_below (SessionTTL test_service div 2) 0 [400, 800, 1200, 1600]"
    by (simp add: SessionTTL_def test_service_def newService_def)
  from active_session_survives [OF l(1) e l(2) this] l(1) show ?thesis by blast
qed

subsection \<open>A new key ends every session\<close>

lemma SetAdminKeyHash_reset:
  "SetAdminKeyHash en now h True db = Inr db' \<Longrightarrow> db_sessions db' = []"
  by (auto simp: SetAdminKeyHash_def transaction_def ok_then_Inr)

lemma find_first_appended: "find_first P xs = None \<Longrightarrow> P x \<Longrightarrow> find_first P (xs @ [x]) = Some x"
  by (simp add: find_first_append)

lemma SetAdminKeyHash_stored:
  assumes "SetAdminKeyHash en now h reset db = Inr db'" and "h \<noteq> []" and "sound_engine en"
  shows "AdminKeyHash en db' = Inr h"
proof -
  have ok: "en_ok en s" for s using assms(3) by (simp add: sound_engine_def)
  obtain db1 where p: "put_admin_key en now h db = Inr db1" and "db_configs db' = db_configs db1"
    using assms(1) by (auto simp: SetAdminKeyHash_def transaction_def ok_then_Inr split: if_splits)
  moreover have "AdminKeyHash en db1 = Inr h"
  proof (cases "find_first (\<lambda>c. sc_type c = system_auth) (db_configs db)")
    case None
    then show ?thesis
      using p assms(2) by (auto simp: put_admin_key_def GetSystemConfig_def run_def ok select_first_def
          AdminKeyHash_def find_first_appended)
  next
    case (Some row)
    then show ?thesis
      using p assms(2) find_first_Some [OF Some]
      by (auto simp: put_admin_key_def GetSystemConfig_def run_def ok select_first_def AdminKeyHash_def
          find_first_update split: option.splits)
  qed
  ultimately show ?thesis by (simp add: AdminKeyHash_def GetSystemConfig_def)
qed

lemma SetAdminKeyHash_ok:
  assumes "AdminKeyHash en db = Inr h" and "sound_engine en"
  shows "\<exists>db'. SetAdminKeyHash en now k reset db = Inr db'"
proof -
  have ok: "en_ok en s" for s using assms(2) by (simp add: sound_engine_def)
  obtain row a where "GetSystemConfig en system_auth db = Inr row" "decode_auth (sc_data row) = Some a"
    using assms(1) by (auto simp: AdminKeyHash_def ok_then_Inr split: option.splits)
  then show ?thesis by (simp add: SetAdminKeyHash_def transaction_def put_admin_key_def run_def ok)
qed

text \<open>
  C25: Changing or resetting the access key logs everyone out: afterwards no session token is
  accepted, whatever it is, and a login succeeds only with a key whose Argon2id bytes equal
  those of the new key; the old key in particular is refused.
\<close>

theorem key_change_ends_sessions:
  assumes "ChangeKey cy en dw now current new db = Inr db' \<or> ResetKey cy en dw now new db = Inr db'"
    and "sound_engine en" and "dw_salt dw = Some salt" and "length salt = 16"
    and "\<And>w s t m p n. length (cy_argon2 cy w s t m p n) = n"
  shows "\<not> is_ok (fst (Authenticate cy en sv t token db')) \<and>
    (fst (Login cy en sv dw t key db') = Inl InvalidAccessKey \<longleftrightarrow>
      cy_argon2 cy key salt 3 65536 4 32 \<noteq> cy_argon2 cy new salt 3 65536 4 32)"
proof -
  have "replaceKey cy en dw now new db = Inr db'"
    using assms(1) by (auto simp: ChangeKey_def ResetKey_def split: sum.splits if_splits)
  then obtain h where h: "hashAccessKey cy (Some salt) new = Inr h" and s: "SetAdminKeyHash en now h True db = Inr db'"
    using assms(3) by (auto simp: replaceKey_def store_key_def ok_then_Inr)
  have hh: "h = key_hash_text salt (cy_argon2 cy new salt 3 65536 4 32)" using h by (simp add: hashAccessKey_def)
  have ne: "h \<noteq> []" by (simp add: hh key_hash_text_def)
  have v: "verifyAccessKey cy key h = Inr (cy_argon2 cy key salt 3 65536 4 32 = cy_argon2 cy new salt 3 65536 4 32)"
    using assms(4,5) by (simp add: hh verifyAccessKey_def parse_key_hash)
  have "fst (createSession cy en sv dw t db') \<noteq> Inl InvalidAccessKey"
    by (auto simp: createSession_def randomToken_def Let_def split: sum.split option.split)
  then have "fst (Login cy en sv dw t key db') = Inl InvalidAccessKey \<longleftrightarrow>
      cy_argon2 cy key salt 3 65536 4 32 \<noteq> cy_argon2 cy new salt 3 65536 4 32"
    using SetAdminKeyHash_stored [OF s ne assms(2)] v by (simp add: Login_def)
  moreover have "\<not> is_ok (fst (Authenticate cy en sv t token db'))"
    using SetAdminKeyHash_reset [OF s]
    by (simp add: Authenticate_def GetAdminSession_stored [OF assms(2)] stored_session_def Let_def is_ok_def)
  ultimately show ?thesis by blast
qed

lemma key_change_ends_sessions_witness:
  "\<exists>db'. ResetKey test_crypto (test_engine True) test_draws 5 ''another long key'' auth_db = Inr db' \<and>
     \<not> is_ok (fst (Authenticate test_crypto (test_engine True) test_service 6 ''abc'' db')) \<and>
     fst (Login test_crypto (test_engine True) test_service test_draws 6 ''correct horse'' db') = Inl InvalidAccessKey"
proof -
  let ?new = "''another long key''"
  have v: "validateAccessKey ?new = Inr ()" by code_simp
  obtain h where h: "AdminKeyHash (test_engine True) auth_db = Inr h" using auth_db_simps(2) by blast
  have e: "sound_engine (test_engine True)" by (simp add: sound_engine_def test_engine_def)
  from SetAdminKeyHash_ok [OF h e] have "\<exists>db'. ResetKey test_crypto (test_engine True) test_draws 5 ?new auth_db = Inr db'"
    by (simp add: ResetKey_def replaceKey_def store_key_def v hashAccessKey_def test_draws_def)
  then obtain db' where r: "ResetKey test_crypto (test_engine True) test_draws 5 ?new auth_db = Inr db'" by blast
  have l: "length (cy_argon2 test_crypto w s t m p n) = n" for w s t m p n by (simp add: test_crypto_def)
  have d: "dw_salt test_draws = Some (replicate 16 (CHR ''s''))" by (simp add: test_draws_def)
  have ne: "cy_argon2 test_crypto ''correct horse'' s 3 65536 4 32 \<noteq> cy_argon2 test_crypto ?new s 3 65536 4 32" for s
    by (simp add: test_crypto_def)
  from key_change_ends_sessions [OF disjI2 [OF r] e d _ l, of test_service 6 "''abc''" "''correct horse''"] ne r
  show ?thesis by auto
qed

subsection \<open>Scopes and names of tokens\<close>

lemma collect_scopes_Inr:
  assumes "collect_scopes ss acc = Inr result" and "distinct acc" and "set acc \<subseteq> {ScopeAPIRead, ScopeAPIWrite}"
  shows "distinct result \<and> set result \<subseteq> {ScopeAPIRead, ScopeAPIWrite}"
  using assms by (induction ss acc rule: collect_scopes.induct) (auto simp: Let_def split: if_splits)

lemma normalizeScopes_Inr:
  assumes "normalizeScopes tokenType scopes = Inr ss" and "tokenType \<in> {TokenTypeREST, TokenTypeMCP}"
  shows "distinct ss \<and> ss \<noteq> [] \<and> (if tokenType = TokenTypeMCP then ss = [ScopeMCP]
    else tokenType = TokenTypeREST \<and> set ss \<subseteq> {ScopeAPIRead, ScopeAPIWrite})"
  using assms by (auto simp: normalizeScopes_def ok_then_Inr dest: collect_scopes_Inr split: if_splits)

lemma new_token_Inr:
  assumes "new_token cy sv dw now name tokenType scopes expires = Inr (t, secret)"
  shows "at_scopes t = scopes" "at_type t = tokenType" "at_token_hash t = cy_digest cy (ts_token secret)"
    "at_expires_at t = expires" "at_revoked_at t = None" "at_id t = dw_uuid dw"
    "encryptSecret cy (dw_nonce dw) (sv_token_key sv) (ts_token secret) =
      Inr (at_secret_ciphertext t, at_secret_nonce t)"
  using assms by (auto simp: new_token_def ok_then_Inr Let_def case_prod_beta)

lemma CreateToken_stages:
  assumes "CreateToken cy en sv dw now name tokenType scopes expires db = (Inr (info, plain), db')"
  obtains scopes' t secret where "normalizeScopes tokenType scopes = Inr scopes'"
    "new_token cy sv dw now (trim_space name) tokenType scopes' expires = Inr (t, secret)" "plain = ts_token secret"
    "CreateAPIToken en t db = Inr db'" "tokenType \<in> {TokenTypeREST, TokenTypeMCP}"
    "case expires of None \<Rightarrow> True | Some e \<Rightarrow> now < e"
proof -
  from assms obtain scopes' secret where n: "normalizeScopes tokenType scopes = Inr scopes'"
    and c: "createToken cy en sv dw now (trim_space name) tokenType scopes' expires db = (Inr (info, secret), db')"
    and p: "plain = ts_token secret" and e: "case expires of None \<Rightarrow> True | Some e \<Rightarrow> now < e"
    by (auto simp: CreateToken_def Let_def split: sum.splits if_splits prod.splits option.splits)
  from c show thesis
    by (auto simp: createToken_def split: sum.splits if_splits prod.splits intro!: that [OF n _ p _ _ e])
qed

text \<open>
  The scopes of a created token are distinct and never empty: those of a REST token are
  \<open>api:read\<close> and \<open>api:write\<close> at most, so it can never use the MCP server, and those of an
  MCP token are exactly \<open>mcp:browser\<close>, whatever was asked for.
\<close>

theorem token_scopes_bounded:
  assumes "CreateToken cy en sv dw now name tokenType scopes expires db = (Inr (info, plain), db')"
  shows "\<exists>t \<in> set (db_tokens db'). at_token_hash t = cy_digest cy plain \<and> distinct (at_scopes t) \<and> at_scopes t \<noteq> [] \<and>
    (if tokenType = TokenTypeMCP then at_scopes t = [ScopeMCP]
     else tokenType = TokenTypeREST \<and> set (at_scopes t) \<subseteq> {ScopeAPIRead, ScopeAPIWrite})"
proof -
  from CreateToken_stages [OF assms] obtain scopes' t secret where s: "normalizeScopes tokenType scopes = Inr scopes'"
    and t: "new_token cy sv dw now (trim_space name) tokenType scopes' expires = Inr (t, secret)"
    and p: "plain = ts_token secret" and c: "CreateAPIToken en t db = Inr db'"
    and k: "tokenType \<in> {TokenTypeREST, TokenTypeMCP}" by metis
  have "t \<in> set (db_tokens db')" using c by (auto simp: CreateAPIToken_def ok_then_Inr insert_row_Inr split: if_splits)
  moreover have "at_scopes t = scopes'" "at_token_hash t = cy_digest cy plain"
    using new_token_Inr [OF t] p by simp_all
  ultimately show ?thesis using normalizeScopes_Inr [OF s k] by blast
qed

lemma test_create:
  "\<exists>info plain db'. CreateToken test_crypto (test_engine True) test_service test_draws 5 '' ci '' TokenTypeREST
     [''api:write'', ''api:read'', '' api:write''] (Some 9) empty_db = (Inr (info, plain), db')"
proof -
  have "normalizeScopes TokenTypeREST [''api:write'', ''api:read'', '' api:write''] = Inr [''api:write'', ''api:read'']"
    "trim_space '' ci '' = ''ci''" by code_simp+
  then show ?thesis
    by (simp add: CreateToken_def ListAPITokens_def run_def test_engine_def empty_db_def createToken_def
        new_token_def randomToken_def test_draws_def encryptSecret_def cipher_key_ok_def test_service_def newService_def
        CreateAPIToken_def insert_row_def TokenTypeREST_def TokenTypeMCP_def Let_def order_desc_def ok_then_def)
qed

lemma token_scopes_bounded_witness:
  "\<exists>info plain db'. CreateToken test_crypto (test_engine True) test_service test_draws 5 '' ci '' TokenTypeREST
     [''api:write'', ''api:read'', '' api:write''] (Some 9) empty_db = (Inr (info, plain), db') \<and>
   list_ex (\<lambda>t. set (at_scopes t) \<subseteq> {ScopeAPIRead, ScopeAPIWrite}) (db_tokens db')"
proof -
  obtain info plain db' where c: "CreateToken test_crypto (test_engine True) test_service test_draws 5 '' ci '' TokenTypeREST
     [''api:write'', ''api:read'', '' api:write''] (Some 9) empty_db = (Inr (info, plain), db')" using test_create by blast
  have "TokenTypeREST \<noteq> TokenTypeMCP" by (simp add: TokenTypeREST_def TokenTypeMCP_def)
  with token_scopes_bounded [OF c] c show ?thesis by (auto simp: list_ex_iff)
qed

subsection \<open>A created token works, a revoked one never again\<close>

lemma trim_left_rev_keeps: "trim_left_rev (xs @ [CHR ''m'']) \<noteq> []"
proof (induction xs rule: length_induct)
  case (1 xs)
  have m: "\<not> ascii_space 109" "ord (CHR ''m'') = 109" by (simp_all add: ord_def ascii_space_def)
  show ?case
  proof (cases xs)
    case Nil
    then show ?thesis by (simp add: trim_left_rev.simps(2) m)
  next
    case (Cons a ys)
    have IH: "length zs < length xs \<Longrightarrow> trim_left_rev (zs @ [CHR ''m'']) \<noteq> []" for zs using 1 by blast
    show ?thesis
    proof (cases ys)
      case Nil
      then show ?thesis using IH [of "[]"] Cons by (simp add: trim_left_rev.simps(2) m space3_def)
    next
      case c2: (Cons b zs)
      then show ?thesis
        using IH [of ys] IH [of zs] IH [of "tl zs"] Cons
        by (cases zs) (auto simp: trim_left_rev.simps(2) [of a] m space3_def)
    qed
  qed
qed

lemma mk_not_blank: "trim_space (''mk_'' @ s) \<noteq> []"
proof -
  have "trim_left (''mk_'' @ s) = ''mk_'' @ s"
    by (simp add: trim_left.simps(2) ord_def ascii_space_def space3_def split: list.split)
  then show ?thesis using trim_left_rev_keeps [of "rev s @ ''_k''"] by (simp add: trim_space_def)
qed

lemma new_token_plain: "new_token cy sv dw now name k ss e = Inr (t, secret) \<Longrightarrow> \<exists>s. ts_token secret = ''mk_'' @ s"
  by (auto simp: new_token_def ok_then_Inr Let_def case_prod_beta)

lemma CreateAPIToken_found:
  assumes "CreateAPIToken en t db = Inr db'"
  shows "find_first (\<lambda>x. at_id x = at_id t) (db_tokens db') = Some t"
    and "find_first (\<lambda>x. at_token_hash x = at_token_hash t) (db_tokens db') = Some t"
  using assms find_first_new [of at_id t "db_tokens db"] find_first_new [of at_token_hash t "db_tokens db"]
  by (auto simp: CreateAPIToken_def ok_then_Inr insert_row_Inr split: if_splits)

lemma encryptSecret_decrypt:
  assumes "encryptSecret cy (Some nonce) key plain = Inr (c, n)" and "length nonce = 12"
    and "cy_open cy key nonce (cy_seal cy key nonce plain) = Some plain"
  shows "decryptSecret cy key c n = Inr plain"
  using assms by (auto simp: encryptSecret_def decryptSecret_def b64_decode_encode split: if_splits)

text \<open>
  A token that was created can be used: until it expires it authenticates, with the
  identifier, the type and the scopes it was given, and where copying is allowed it can be
  shown again: what was encrypted and stored decrypts to the token that was handed out.
\<close>

theorem created_token_works:
  assumes "CreateToken cy en sv dw now name tokenType scopes expires db = (Inr (info, plain), db')"
    and "sound_engine en" and "case expires of None \<Rightarrow> True | Some e \<Rightarrow> t < e"
    and "dw_nonce dw = Some nonce" and "length nonce = 12" and "sv_allow_copy sv"
    and "\<And>k n p. cy_open cy k n (cy_seal cy k n p) = Some p"
  shows "RevealToken cy en sv (dw_uuid dw) db' = Inr plain \<and>
    (\<exists>ss db''. normalizeScopes tokenType scopes = Inr ss \<and>
      AuthenticateToken cy en t plain db' = (Inr \<lparr>tp_token_id = dw_uuid dw, tp_type = tokenType, tp_scopes = ss\<rparr>, db''))"
proof -
  from CreateToken_stages [OF assms(1)] obtain ss row secret where s: "normalizeScopes tokenType scopes = Inr ss"
    and n: "new_token cy sv dw now (trim_space name) tokenType ss expires = Inr (row, secret)"
    and p: "plain = ts_token secret" and c: "CreateAPIToken en row db = Inr db'" by metis
  have ok: "en_ok en st" for st using assms(2) by (simp add: sound_engine_def)
  note r = new_token_Inr [OF n] and f = CreateAPIToken_found [OF c]
  have live: "token_live t row" using r(4,5) assms(3) by (simp add: token_live_def)
  have "decryptSecret cy (sv_token_key sv) (at_secret_ciphertext row) (at_secret_nonce row) = Inr plain"
    using r(7) assms(4) by (intro encryptSecret_decrypt [OF _ assms(5,7)]) (simp add: p)
  moreover have "GetAPIToken en (dw_uuid dw) db' = Inr row" "GetAPITokenByHash en (cy_digest cy plain) db' = Inr row"
    using f r(3,6) by (simp_all add: GetAPIToken_def GetAPITokenByHash_def getAPIToken_def run_def ok select_first_def p)
  moreover have "trim_space plain \<noteq> []" using new_token_plain [OF n] mk_not_blank p by metis
  ultimately show ?thesis
    using s live r assms(6)
    by (simp add: RevealToken_def from_db_def AuthenticateToken_def Let_def TouchAPIToken_def update_tokens_def run_def ok)
qed

lemma created_token_works_witness:
  "\<exists>info plain db'. CreateToken test_crypto (test_engine True) test_service test_draws 5 '' ci '' TokenTypeREST
     [''api:write'', ''api:read'', '' api:write''] (Some 9) empty_db = (Inr (info, plain), db') \<and>
   RevealToken test_crypto (test_engine True) test_service ''u'' db' = Inr plain"
proof -
  obtain info plain db' where c: "CreateToken test_crypto (test_engine True) test_service test_draws 5 '' ci '' TokenTypeREST
     [''api:write'', ''api:read'', '' api:write''] (Some 9) empty_db = (Inr (info, plain), db')" using test_create by blast
  have e: "sound_engine (test_engine True)" by (simp add: sound_engine_def test_engine_def)
  have d: "dw_nonce test_draws = Some (replicate 12 (CHR ''n''))" by (simp add: test_draws_def)
  have "RevealToken test_crypto (test_engine True) test_service (dw_uuid test_draws) db' = Inr plain"
    using created_token_works [OF c e _ d, of 7] by (simp add: test_service_def newService_def test_crypto_def)
  with c show ?thesis by (simp add: test_draws_def)
qed

text \<open>What may happen to tokens, but for \<open>RestoreToken\<close>.\<close>

datatype token_op =
    UseToken time string
  | RevokeOp time string
  | DeleteOp string
  | CreateOp draws time string string "string list" "time option"

fun token_act :: "crypto \<Rightarrow> engine \<Rightarrow> auth_service \<Rightarrow> token_op \<Rightarrow> db \<Rightarrow> db" where
  "token_act cy en sv (UseToken t plain) db = snd (AuthenticateToken cy en t plain db)"
| "token_act cy en sv (RevokeOp t tid) db = or_same db (RevokeAPIToken en tid t db)"
| "token_act cy en sv (DeleteOp tid) db = or_same db (DeleteAPIToken en tid db)"
| "token_act cy en sv (CreateOp dw t name k ss e) db = snd (CreateToken cy en sv dw t name k ss e db)"

text \<open>No token that is created gets the hash \<open>h\<close>.\<close>

fun draws_other :: "crypto \<Rightarrow> string \<Rightarrow> token_op \<Rightarrow> bool" where
  "draws_other cy h (CreateOp dw _ _ _ _ _) \<longleftrightarrow>
     (case dw_token dw of None \<Rightarrow> True | Some b \<Rightarrow> cy_digest cy (''mk_'' @ b64_encode True b) \<noteq> h)"
| "draws_other cy h _ \<longleftrightarrow> True"

definition hash_revoked :: "string \<Rightarrow> db \<Rightarrow> bool" where
  "hash_revoked h db \<longleftrightarrow> (\<forall>t \<in> set (db_tokens db). at_token_hash t = h \<longrightarrow> at_revoked_at t \<noteq> None)"

lemma new_token_hash:
  "new_token cy sv dw now name k ss e = Inr (t, secret) \<Longrightarrow>
   \<exists>b. dw_token dw = Some b \<and> at_token_hash t = cy_digest cy (''mk_'' @ b64_encode True b)"
  by (auto simp: new_token_def ok_then_Inr Let_def case_prod_beta randomToken_def split: option.splits)

lemma snd_CreateToken:
  "snd (CreateToken cy en sv dw now name k ss e db) = db \<or>
   (\<exists>t secret ss'. new_token cy sv dw now (trim_space name) k ss' e = Inr (t, secret) \<and>
      CreateAPIToken en t db = Inr (snd (CreateToken cy en sv dw now name k ss e db)))"
  by (auto simp: CreateToken_def createToken_def Let_def split: sum.split prod.split)

lemma token_act_revoked:
  assumes "hash_revoked h db" and "draws_other cy h a"
  shows "hash_revoked h (token_act cy en sv a db)"
proof (cases a)
  case (UseToken t plain)
  have "hash_revoked h db'" if "TouchAPIToken en k t db = Inr db'" for k db'
    using that assms(1) by (auto simp: TouchAPIToken_def update_tokens_def hash_revoked_def update_rows_def)
  then show ?thesis using assms(1) by (auto simp: UseToken AuthenticateToken_def Let_def split: sum.split)
next
  case (RevokeOp t tid)
  then show ?thesis using assms(1)
    by (auto simp: RevokeAPIToken_def update_tokens_def run_def or_same_def hash_revoked_def update_rows_def)
next
  case (DeleteOp tid)
  then show ?thesis using assms(1)
    by (auto simp: DeleteAPIToken_def run_def or_same_def hash_revoked_def delete_rows_def)
next
  case (CreateOp dw t name k ss e)
  from snd_CreateToken [of cy en sv dw t name k ss e db] show ?thesis
  proof (elim disjE exE conjE)
    fix row secret ss'
    assume n: "new_token cy sv dw t (trim_space name) k ss' e = Inr (row, secret)"
      and c: "CreateAPIToken en row db = Inr (snd (CreateToken cy en sv dw t name k ss e db))"
    have "at_token_hash row \<noteq> h" using new_token_hash [OF n] assms(2) by (auto simp: CreateOp)
    moreover have "db_tokens (snd (CreateToken cy en sv dw t name k ss e db)) = db_tokens db @ [row]"
      using c by (auto simp: CreateAPIToken_def ok_then_Inr insert_row_Inr dest: sym split: if_splits)
    ultimately show ?thesis using assms(1) by (auto simp: CreateOp hash_revoked_def)
  qed (use assms(1) in \<open>simp add: CreateOp\<close>)
qed

text \<open>
  C13: A revoked token stays refused. Whatever is done afterwards with this and other tokens
  (use, revocation, deletion, creation of new ones with other hashes), as long as it is not
  restored, authenticating with it fails at every later time.
\<close>

theorem revoked_token_stays_rejected:
  assumes "RevokeToken en now tid db = Inr db1"
    and "\<And>t. t \<in> set (db_tokens db) \<Longrightarrow> at_token_hash t = cy_digest cy plain \<Longrightarrow> at_id t = tid"
    and "list_all (draws_other cy (cy_digest cy plain)) as"
  shows "\<not> is_ok (fst (AuthenticateToken cy en later plain (fold (token_act cy en sv) as db1)))"
proof -
  let ?h = "cy_digest cy plain"
  have rows: "db_tokens db1 = map (\<lambda>t. if at_id t = tid \<and> at_revoked_at t = None then t\<lparr>at_revoked_at := Some now\<rparr> else t)
      (db_tokens db)"
    using assms(1) by (auto simp: RevokeToken_def RevokeAPIToken_def update_tokens_def update_rows_def)
  have "hash_revoked ?h db1"
    unfolding hash_revoked_def
  proof (intro ballI impI)
    fix t assume "t \<in> set (db_tokens db1)" and h: "at_token_hash t = ?h"
    then obtain u where u: "u \<in> set (db_tokens db)"
      "t = (if at_id u = tid \<and> at_revoked_at u = None then u\<lparr>at_revoked_at := Some now\<rparr> else u)"
      unfolding rows by auto
    then have "at_token_hash u = ?h" using h by (simp split: if_splits)
    with assms(2) [OF u(1)] u(2) show "at_revoked_at t \<noteq> None" by auto
  qed
  then have "hash_revoked ?h (fold (token_act cy en sv) as db1)"
    using assms(3) by (induction as arbitrary: db1) (auto simp: token_act_revoked)
  moreover define dbx where "dbx = fold (token_act cy en sv) as db1"
  ultimately have r: "hash_revoked ?h dbx" by simp
  have "\<not> token_live later t" if "GetAPITokenByHash en ?h dbx = Inr t" for t
  proof -
    have "find_first (\<lambda>x. at_token_hash x = ?h) (db_tokens dbx) = Some t"
      using that by (auto simp: GetAPITokenByHash_def getAPIToken_def select_first_def split: option.splits)
    from find_first_Some [OF this] show ?thesis using r by (auto simp: hash_revoked_def token_live_def)
  qed
  then have "\<not> is_ok (fst (AuthenticateToken cy en later plain dbx))"
    by (cases "GetAPITokenByHash en ?h dbx") (auto simp: AuthenticateToken_def Let_def)
  then show ?thesis by (simp add: dbx_def)
qed

lemma revoked_token_stays_rejected_witness:
  "\<exists>info plain db' db1. CreateToken test_crypto (test_engine True) test_service test_draws 5 '' ci '' TokenTypeREST
     [''api:write'', ''api:read'', '' api:write''] (Some 9) empty_db = (Inr (info, plain), db') \<and>
   RevokeToken (test_engine True) 6 ''u'' db' = Inr db1 \<and>
   \<not> is_ok (fst (AuthenticateToken test_crypto (test_engine True) 7 plain
     (fold (token_act test_crypto (test_engine True) test_service) [UseToken 6 plain, RevokeOp 7 ''u''] db1)))"
proof -
  obtain info plain db' where c: "CreateToken test_crypto (test_engine True) test_service test_draws 5 '' ci '' TokenTypeREST
     [''api:write'', ''api:read'', '' api:write''] (Some 9) empty_db = (Inr (info, plain), db')" using test_create by blast
  obtain db1 where r: "RevokeToken (test_engine True) 6 ''u'' db' = Inr db1"
    by (simp add: RevokeToken_def RevokeAPIToken_def update_tokens_def run_def test_engine_def)
  from CreateToken_stages [OF c] obtain ss t secret where
    n: "new_token test_crypto test_service test_draws 5 (trim_space '' ci '') TokenTypeREST ss (Some 9) = Inr (t, secret)"
    and a: "CreateAPIToken (test_engine True) t empty_db = Inr db'" by metis
  have "db_tokens db' = [t]" "at_id t = ''u''"
    using a new_token_Inr(6) [OF n] by (auto simp: CreateAPIToken_def ok_then_Inr insert_row_Inr empty_db_def test_draws_def split: if_splits)
  then have u: "x \<in> set (db_tokens db') \<Longrightarrow> at_token_hash x = cy_digest test_crypto plain \<Longrightarrow> at_id x = ''u''" for x by simp
  have "list_all (draws_other test_crypto (cy_digest test_crypto plain)) [UseToken 6 plain, RevokeOp 7 ''u'']" by simp
  from revoked_token_stays_rejected [OF r u this] c r show ?thesis by blast
qed

subsection \<open>The search for a free name ends\<close>

text \<open>
  Whatever tokens exist, the loop that looks for the name of a new MCP token ends, with a
  name that no token has up to case and surrounding white space, and it takes the first free
  one: every lower number is in use.
\<close>

theorem mcp_name_found:
  "to_lower (free_mcp_name used 1) \<notin> set used \<and>
   (\<exists>n \<ge> 1. free_mcp_name used 1 = mcp_name n \<and> (\<forall>k. 1 \<le> k \<and> k < n \<longrightarrow> to_lower (mcp_name k) \<in> set used))"
proof -
  have "to_lower (free_mcp_name used m) \<notin> set used \<and>
    (\<exists>n \<ge> m. free_mcp_name used m = mcp_name n \<and> (\<forall>k. m \<le> k \<and> k < n \<longrightarrow> to_lower (mcp_name k) \<in> set used))" for m
  proof (induction used m rule: free_mcp_name.induct)
    case (1 used m)
    show ?case
    proof (cases "to_lower (mcp_name m) \<in> set used")
      case False
      then show ?thesis by (subst (1 2) free_mcp_name.simps) auto
    next
      case True
      then have step: "free_mcp_name used m = free_mcp_name used (Suc m)" by (subst free_mcp_name.simps) simp
      from 1 [OF True] obtain n where "to_lower (free_mcp_name used (Suc m)) \<notin> set used" "Suc m \<le> n"
        "free_mcp_name used (Suc m) = mcp_name n" "\<forall>k. Suc m \<le> k \<and> k < n \<longrightarrow> to_lower (mcp_name k) \<in> set used" by blast
      with True show ?thesis unfolding step by (metis Suc_leD Suc_leI le_neq_implies_less)
    qed
  qed
  then show ?thesis .
qed

lemma mcp_name_found_witness: "to_lower (free_mcp_name [''mcp browser'', ''mcp browser 2''] 1) \<noteq> ''mcp browser 2''"
  using mcp_name_found [of "[''mcp browser'', ''mcp browser 2'']"] by auto

end
