(* ===== verification/BrowserLink.thy ===== *)
theory BrowserLink
  imports Prelude GoStrings
begin

section \<open>The connection of a browser extension (internal/browser/manager.go, agentConnection)\<close>

text \<open>
  One WebSocket connection of a browser extension and the calls made over it. A call
  (\<open>sendCommand\<close>) registers a channel of capacity one under a fresh request ID, writes the
  command, waits for a reply or for its context, and removes what it registered. The read
  loop answers a call with a \<open>response\<close>, or with \<open>response_chunk\<close> messages it puts together;
  closing the connection answers every call that still waits.

  A call is a member of \<open>lk_calls\<close>, its channel \<open>cl_chan\<close>; a channel is named by the call's
  position. Each operation \<open>link_op\<close> is one critical section, or one step of a goroutine
  between two of them, and the operations of different goroutines interleave freely.
  Messages are decoded: \<open>wire_message\<close> is what \<open>ReadJSON\<close> makes of a frame. Request IDs come
  from \<open>uuid.NewString\<close>, which does not repeat itself.
\<close>

definition ProtocolVersion :: int where "ProtocolVersion = 1"
definition maxChunkedResponseBytes :: nat where "maxChunkedResponseBytes = 67108864"
definition maxResponseChunks :: int where "maxResponseChunks = 128"

record agent_info =
  ag_id :: string
  ag_name :: string
  ag_version :: string
  ag_protocol :: int
  ag_capabilities :: "string list"
  ag_connected_at :: time
  ag_last_seen_at :: time

record wire_message =
  wm_protocol :: int
  wm_type :: string
  wm_id :: string
  wm_command :: string
  wm_token :: string
  wm_payload :: string
  wm_error :: string
  wm_sequence :: int
  wm_total :: int
  wm_chunk :: string

datatype link_error =
    AgentError string
  | ConnectionClosed string
  | WriteFailed
  | ContextDone
  | InvalidChunks
  | ChunksRejected

text \<open>\<open>pendingResponse\<close>: a message or an error.\<close>

datatype reply = RMessage wire_message | RError link_error

record assembly =
  as_total :: int
  as_next :: int
  as_size :: nat
  as_parts :: "string list"

datatype call_stage =
    Registered
  | Sent
  | Leaving "link_error + string"
  | Finished "link_error + string"

record call =
  cl_id :: string
  cl_stage :: call_stage
  cl_chan :: "reply list"

record link =
  lk_info :: agent_info
  lk_pending :: "nat go_map"
  lk_chunks :: "assembly go_map"
  lk_calls :: "call list"
  lk_done :: bool
  lk_socket_closed :: bool
  lk_drained :: bool

definition new_link :: "agent_info \<Rightarrow> link" where
  "new_link info =
     \<lparr>lk_info = info, lk_pending = [], lk_chunks = [], lk_calls = [], lk_done = False,
      lk_socket_closed = False, lk_drained = False\<rparr>"

subsection \<open>Replies\<close>

text \<open>The \<open>select\<close> with a default case of \<open>notifyPending\<close> and of \<open>close\<close>.\<close>

definition send_reply :: "nat \<Rightarrow> reply \<Rightarrow> call list \<Rightarrow> call list" where
  "send_reply n r cs =
     (if n < length cs \<and> cl_chan (cs ! n) = [] then cs[n := (cs ! n)\<lparr>cl_chan := [r]\<rparr>] else cs)"

definition notifyPending :: "nat option \<Rightarrow> reply \<Rightarrow> call list \<Rightarrow> call list" where
  "notifyPending response r cs = (case response of None \<Rightarrow> cs | Some n \<Rightarrow> send_reply n r cs)"

text \<open>What \<open>sendCommand\<close> returns for a reply, up to the decoding of the payload.\<close>

fun reply_result :: "reply \<Rightarrow> link_error + string" where
  "reply_result (RError e) = Inl e"
| "reply_result (RMessage m) = (if wm_error m \<noteq> '''' then Inl (AgentError (wm_error m)) else Inr (wm_payload m))"

subsection \<open>The read loop\<close>

definition on_response :: "wire_message \<Rightarrow> link \<Rightarrow> link" where
  "on_response m l =
     (if wm_protocol m \<noteq> ProtocolVersion \<or> wm_id m = '''' then l
      else l\<lparr>lk_pending := del (wm_id m) (lk_pending l), lk_chunks := del (wm_id m) (lk_chunks l),
             lk_calls := notifyPending (get (lk_pending l) (wm_id m)) (RMessage m) (lk_calls l)\<rparr>)"

definition reject_chunks :: "string \<Rightarrow> nat \<Rightarrow> link_error \<Rightarrow> link \<Rightarrow> link" where
  "reject_chunks i n e l =
     l\<lparr>lk_pending := del i (lk_pending l), lk_chunks := del i (lk_chunks l),
       lk_calls := notifyPending (Some n) (RError e) (lk_calls l)\<rparr>"

definition joined_response :: "string \<Rightarrow> string list \<Rightarrow> wire_message" where
  "joined_response i parts =
     \<lparr>wm_protocol = ProtocolVersion, wm_type = ''response'', wm_id = i, wm_command = '''',
      wm_token = '''', wm_payload = join_with '''' parts, wm_error = '''', wm_sequence = 0,
      wm_total = 0, wm_chunk = ''''\<rparr>"

text \<open>The part of \<open>handleResponseChunk\<close> after the assembly is known.\<close>

definition add_chunk :: "wire_message \<Rightarrow> nat \<Rightarrow> assembly \<Rightarrow> link \<Rightarrow> link" where
  "add_chunk m n a l =
     (if wm_total m \<noteq> as_total a \<or> wm_sequence m \<noteq> as_next a \<or>
         as_size a + length (wm_chunk m) > maxChunkedResponseBytes
      then reject_chunks (wm_id m) n ChunksRejected l
      else
        let b = a\<lparr>as_parts := as_parts a @ [wm_chunk m], as_size := as_size a + length (wm_chunk m),
                  as_next := as_next a + 1\<rparr>
        in if as_next b \<noteq> as_total b then l\<lparr>lk_chunks := put (wm_id m) b (lk_chunks l)\<rparr>
           else l\<lparr>lk_pending := del (wm_id m) (lk_pending l), lk_chunks := del (wm_id m) (lk_chunks l),
                  lk_calls := notifyPending (Some n) (RMessage (joined_response (wm_id m) (as_parts b)))
                    (lk_calls l)\<rparr>)"

definition handleResponseChunk :: "wire_message \<Rightarrow> link \<Rightarrow> link" where
  "handleResponseChunk m l =
     (if wm_protocol m \<noteq> ProtocolVersion \<or> wm_id m = '''' then l
      else case get (lk_pending l) (wm_id m) of
        None \<Rightarrow> l\<lparr>lk_chunks := del (wm_id m) (lk_chunks l)\<rparr>
      | Some n \<Rightarrow>
          (case get (lk_chunks l) (wm_id m) of
             Some a \<Rightarrow> add_chunk m n a l
           | None \<Rightarrow>
               if wm_sequence m \<noteq> 0 \<or> wm_total m \<le> 0 \<or> wm_total m > maxResponseChunks
               then l\<lparr>lk_pending := del (wm_id m) (lk_pending l),
                      lk_calls := notifyPending (Some n) (RError InvalidChunks) (lk_calls l)\<rparr>
               else add_chunk m n \<lparr>as_total = wm_total m, as_next = 0, as_size = 0, as_parts = []\<rparr> l))"

text \<open>
  One round of \<open>readLoop\<close>. A \<open>ping\<close> is answered on the socket and an \<open>event\<close> handed to the
  manager; neither changes the connection.
\<close>

definition read_message :: "time \<Rightarrow> wire_message \<Rightarrow> link \<Rightarrow> link" where
  "read_message now m l0 =
     (let l = l0\<lparr>lk_info := (lk_info l0)\<lparr>ag_last_seen_at := now\<rparr>\<rparr>
      in if wm_type m = ''response'' then on_response m l
         else if wm_type m = ''response_chunk'' then handleResponseChunk m l
         else l)"

subsection \<open>Calls and closing\<close>

text \<open>\<open>sendCommand\<close> up to the write, its deferred function, and what lies between.\<close>

definition register_call :: "string \<Rightarrow> link \<Rightarrow> link" where
  "register_call i l =
     l\<lparr>lk_calls := lk_calls l @ [\<lparr>cl_id = i, cl_stage = Registered, cl_chan = []\<rparr>],
       lk_pending := put i (length (lk_calls l)) (lk_pending l)\<rparr>"

definition set_stage :: "nat \<Rightarrow> call_stage \<Rightarrow> link \<Rightarrow> link" where
  "set_stage n s l = l\<lparr>lk_calls := (lk_calls l)[n := (lk_calls l ! n)\<lparr>cl_stage := s\<rparr>]\<rparr>"

definition take_reply :: "nat \<Rightarrow> link \<Rightarrow> link" where
  "take_reply n l =
     (case cl_chan (lk_calls l ! n) of
        [] \<Rightarrow> l
      | r # q \<Rightarrow> l\<lparr>lk_calls := (lk_calls l)[n := (lk_calls l ! n)
          \<lparr>cl_stage := Leaving (reply_result r), cl_chan := q\<rparr>]\<rparr>)"

definition leave_call :: "nat \<Rightarrow> link \<Rightarrow> link" where
  "leave_call n l =
     (case cl_stage (lk_calls l ! n) of
        Leaving r \<Rightarrow> set_stage n (Finished r)
          (l\<lparr>lk_pending := del (cl_id (lk_calls l ! n)) (lk_pending l),
             lk_chunks := del (cl_id (lk_calls l ! n)) (lk_chunks l)\<rparr>)
      | _ \<Rightarrow> l)"

text \<open>The loop of \<open>close\<close> over the waiting calls.\<close>

definition drain :: "string \<Rightarrow> link \<Rightarrow> link" where
  "drain cause l =
     l\<lparr>lk_calls := fold (\<lambda>(i, n). send_reply n (RError (ConnectionClosed cause))) (lk_pending l) (lk_calls l),
       lk_pending := [], lk_chunks := [], lk_drained := True\<rparr>"

datatype link_op =
    Register string
  | WriteDone nat
  | WriteError nat
  | Receive nat
  | Cancelled nat
  | Leave nat
  | Read time wire_message
  | CloseBegin
  | CloseSocket
  | Drain string

fun op_enabled :: "link_op \<Rightarrow> link \<Rightarrow> bool" where
  "op_enabled (Register i) l = (i \<noteq> '''' \<and> i \<notin> set (map cl_id (lk_calls l)))"
| "op_enabled (WriteDone n) l =
     (n < length (lk_calls l) \<and> cl_stage (lk_calls l ! n) = Registered \<and> \<not> lk_socket_closed l)"
| "op_enabled (WriteError n) l = (n < length (lk_calls l) \<and> cl_stage (lk_calls l ! n) = Registered)"
| "op_enabled (Receive n) l =
     (n < length (lk_calls l) \<and> cl_stage (lk_calls l ! n) = Sent \<and> cl_chan (lk_calls l ! n) \<noteq> [])"
| "op_enabled (Cancelled n) l = (n < length (lk_calls l) \<and> cl_stage (lk_calls l ! n) = Sent)"
| "op_enabled (Leave n) l =
     (n < length (lk_calls l) \<and> (case cl_stage (lk_calls l ! n) of Leaving _ \<Rightarrow> True | _ \<Rightarrow> False))"
| "op_enabled (Read now m) l = True"
| "op_enabled CloseBegin l = (\<not> lk_done l)"
| "op_enabled CloseSocket l = (lk_done l \<and> \<not> lk_socket_closed l)"
| "op_enabled (Drain cause) l = (lk_socket_closed l \<and> \<not> lk_drained l)"

fun apply_op :: "link_op \<Rightarrow> link \<Rightarrow> link" where
  "apply_op (Register i) l = register_call i l"
| "apply_op (WriteDone n) l = set_stage n Sent l"
| "apply_op (WriteError n) l = set_stage n (Leaving (Inl WriteFailed)) l"
| "apply_op (Receive n) l = take_reply n l"
| "apply_op (Cancelled n) l = set_stage n (Leaving (Inl ContextDone)) l"
| "apply_op (Leave n) l = leave_call n l"
| "apply_op (Read now m) l = read_message now m l"
| "apply_op CloseBegin l = l\<lparr>lk_done := True\<rparr>"
| "apply_op CloseSocket l = l\<lparr>lk_socket_closed := True\<rparr>"
| "apply_op (Drain cause) l = drain cause l"

text \<open>A run of the connection; \<open>None\<close> when an operation is not enabled.\<close>

fun link_run :: "link_op list \<Rightarrow> link \<Rightarrow> link option" where
  "link_run [] l = Some l"
| "link_run (a # as) l = (if op_enabled a l then link_run as (apply_op a l) else None)"

inductive link_reachable :: "link \<Rightarrow> bool" where
  start: "link_reachable (new_link info)"
| step: "link_reachable l \<Longrightarrow> op_enabled a l \<Longrightarrow> link_reachable (apply_op a l)"

lemma link_run_reachable: "link_reachable l \<Longrightarrow> link_run as l = Some l' \<Longrightarrow> link_reachable l'"
  by (induction as arbitrary: l) (auto split: if_splits intro: link_reachable.step)

subsection \<open>The invariant\<close>

definition waiting :: "call \<Rightarrow> bool" where
  "waiting c \<longleftrightarrow> (cl_stage c = Registered \<or> cl_stage c = Sent) \<and> cl_chan c = []"

definition finished :: "call \<Rightarrow> bool" where
  "finished c \<longleftrightarrow> (case cl_stage c of Finished _ \<Rightarrow> True | _ \<Rightarrow> False)"

definition addressed :: "string \<Rightarrow> reply \<Rightarrow> bool" where
  "addressed i r \<longleftrightarrow> (case r of RMessage m \<Rightarrow> wm_id m = i | RError _ \<Rightarrow> True)"

definition assembly_ok :: "assembly \<Rightarrow> bool" where
  "assembly_ok a \<longleftrightarrow>
     as_total a \<le> maxResponseChunks \<and> as_next a < as_total a \<and> as_next a = int (length (as_parts a)) \<and>
     as_size a = length (concat (as_parts a)) \<and> as_size a \<le> maxChunkedResponseBytes"

definition call_ok :: "nat go_map \<Rightarrow> nat \<Rightarrow> call \<Rightarrow> bool" where
  "call_ok p n c \<longleftrightarrow>
     length (cl_chan c) \<le> 1 \<and> (\<forall>r \<in> set (cl_chan c). addressed (cl_id c) r) \<and>
     (waiting c \<longrightarrow> get p (cl_id c) = Some n)"

definition pending_ok :: "link \<Rightarrow> bool" where
  "pending_ok l \<longleftrightarrow>
     (\<forall>i n. get (lk_pending l) i = Some n \<longrightarrow>
        n < length (lk_calls l) \<and> cl_id (lk_calls l ! n) = i \<and> cl_chan (lk_calls l ! n) = [] \<and>
        \<not> finished (lk_calls l ! n))"

definition link_inv :: "link \<Rightarrow> bool" where
  "link_inv l \<longleftrightarrow>
     distinct (map cl_id (lk_calls l)) \<and> wf_map (lk_pending l) \<and> pending_ok l \<and>
     (\<forall>i a. get (lk_chunks l) i = Some a \<longrightarrow> has_key (lk_pending l) i \<and> assembly_ok a) \<and>
     (\<forall>n < length (lk_calls l). call_ok (lk_pending l) n (lk_calls l ! n)) \<and>
     (lk_drained l \<longrightarrow> lk_socket_closed l \<and> 
       (\<forall>n < length (lk_calls l). cl_stage (lk_calls l ! n) = Sent \<longrightarrow> cl_chan (lk_calls l ! n) \<noteq> []))"

lemma addressed_simps [simp]:
  "addressed i (RError e)" "addressed i (RMessage m) \<longleftrightarrow> wm_id m = i"
  by (simp_all add: addressed_def)

text \<open>Answering a call: what every branch that delivers a reply does.\<close>

definition answer :: "string \<Rightarrow> reply \<Rightarrow> link \<Rightarrow> link" where
  "answer i r l =
     l\<lparr>lk_pending := del i (lk_pending l), lk_chunks := del i (lk_chunks l),
       lk_calls := notifyPending (get (lk_pending l) i) r (lk_calls l)\<rparr>"

lemma send_reply_nth:
  "k < length cs \<Longrightarrow> send_reply n r cs ! k =
     (if k = n \<and> cl_chan (cs ! n) = [] then (cs ! n)\<lparr>cl_chan := [r]\<rparr> else cs ! k)"
  by (simp add: send_reply_def nth_list_update)

lemma send_reply_simps [simp]:
  "length (send_reply n r cs) = length cs"
  "map cl_id (send_reply n r cs) = map cl_id cs"
  "map cl_stage (send_reply n r cs) = map cl_stage cs"
  by (auto simp: send_reply_def map_update list_update_same_conv)

lemma link_inv_parts:
  assumes "link_inv l"
  shows "pending_ok l"
    and "n < length (lk_calls l) \<Longrightarrow> call_ok (lk_pending l) n (lk_calls l ! n)"
    and "get (lk_chunks l) i = Some a \<Longrightarrow> has_key (lk_pending l) i \<and> assembly_ok a"
  using assms unfolding link_inv_def by blast+

lemma chunks_pending:
  assumes "link_inv l" and "get (lk_pending l) i = None"
  shows "get (lk_chunks l) i = None"
  using assms unfolding link_inv_def by (metis not_None_eq)

lemma distinct_ids: "distinct (map cl_id cs) \<Longrightarrow> n < length cs \<Longrightarrow> k < length cs \<Longrightarrow>
  cl_id (cs ! n) = cl_id (cs ! k) \<longleftrightarrow> n = k"
  by (metis length_map nth_eq_iff_index_eq nth_map)

lemma answer_Some:
  assumes "link_inv l" and "get (lk_pending l) i = Some n"
  shows "answer i r l =
    l\<lparr>lk_pending := del i (lk_pending l), lk_chunks := del i (lk_chunks l),
      lk_calls := (lk_calls l)[n := (lk_calls l ! n)\<lparr>cl_chan := [r]\<rparr>]\<rparr>"
    and "n < length (lk_calls l)" and "cl_id (lk_calls l ! n) = i"
    and "cl_chan (lk_calls l ! n) = []" and "\<not> finished (lk_calls l ! n)"
proof -
  have "pending_ok l" using assms(1) by (simp add: link_inv_def)
  with assms(2) show n: "n < length (lk_calls l)" "cl_id (lk_calls l ! n) = i"
    "cl_chan (lk_calls l ! n) = []" "\<not> finished (lk_calls l ! n)" by (auto simp: pending_ok_def)
  then show "answer i r l =
    l\<lparr>lk_pending := del i (lk_pending l), lk_chunks := del i (lk_chunks l),
      lk_calls := (lk_calls l)[n := (lk_calls l ! n)\<lparr>cl_chan := [r]\<rparr>]\<rparr>"
    by (simp add: answer_def assms(2) notifyPending_def send_reply_def)
qed

lemma answer_inv [inv_intros]:
  assumes inv: "link_inv l" and r: "addressed i r"
  shows "link_inv (answer i r l)"
proof (cases "get (lk_pending l) i")
  case None
  with inv have "get (lk_chunks l) i = None" by (rule chunks_pending)
  with None inv show ?thesis
    by (auto simp: answer_def notifyPending_def link_inv_def pending_ok_def call_ok_def)
next
  case (Some n)
  note a = answer_Some [OF inv Some]
  have ids: "distinct (map cl_id (lk_calls l))" using inv by (simp add: link_inv_def)
  let ?cs = "(lk_calls l)[n := (lk_calls l ! n)\<lparr>cl_chan := [r]\<rparr>]"
  have "map cl_id ?cs = map cl_id (lk_calls l)" by (simp add: map_update list_update_same_conv a(2))
  moreover have "call_ok (del i (lk_pending l)) k (?cs ! k)" if k: "k < length ?cs" for k
  proof -
    have "call_ok (lk_pending l) k (lk_calls l ! k)" using inv k by (simp add: link_inv_def)
    with r a(2,3) distinct_ids [OF ids _ a(2), of k] k show ?thesis
      by (cases "k = n") (auto simp: call_ok_def waiting_def)
  qed
  moreover have "pending_ok (answer i r l)"
    using inv a(2,3) unfolding a(1) link_inv_def pending_ok_def by (auto simp: nth_list_update)
  moreover have "cl_chan (?cs ! k) \<noteq> []"
    if "lk_drained l" and "k < length ?cs" and "cl_stage (?cs ! k) = Sent" for k
    using that inv by (cases "k = n") (simp_all add: link_inv_def)
  ultimately show ?thesis using inv by (auto simp: a(1) link_inv_def)
qed

lemma del_absent: "get m k = None \<Longrightarrow> del k m = m"
  by (simp add: delete_idem map_of_eq_None_iff)

lemma link_inv_info [simp]: "link_inv (l\<lparr>lk_info := x\<rparr>) = link_inv l"
  by (simp add: link_inv_def pending_ok_def)

lemma join_with_empty [simp]: "join_with [] xs = concat xs"
  by (induction "[] :: string" xs rule: join_with.induct) auto

lemma on_response_cases:
  "on_response m l = l \<or> on_response m l = answer (wm_id m) (RMessage m) l"
  by (simp add: on_response_def answer_def)

lemma add_chunk_cases:
  assumes "get (lk_pending l) (wm_id m) = Some n"
    and "as_size a = length (concat (as_parts a))" and "as_next a = int (length (as_parts a))"
    and "as_total a \<le> maxResponseChunks" and "as_next a < as_total a"
  shows "(\<exists>r. addressed (wm_id m) r \<and> add_chunk m n a l = answer (wm_id m) r l) \<or>
    (\<exists>b. assembly_ok b \<and> add_chunk m n a l = l\<lparr>lk_chunks := put (wm_id m) b (lk_chunks l)\<rparr>)"
proof (cases "wm_total m \<noteq> as_total a \<or> wm_sequence m \<noteq> as_next a \<or>
    as_size a + length (wm_chunk m) > maxChunkedResponseBytes")
  case True
  then have "add_chunk m n a l = answer (wm_id m) (RError ChunksRejected) l"
    by (auto simp: add_chunk_def reject_chunks_def answer_def assms(1))
  then show ?thesis using addressed_simps(1) by blast
next
  case False
  show ?thesis
  proof (cases "as_next a + 1 = as_total a")
    case True
    with False have "add_chunk m n a l =
        answer (wm_id m) (RMessage (joined_response (wm_id m) (as_parts a @ [wm_chunk m]))) l"
      by (simp add: add_chunk_def answer_def assms(1))
    moreover have "addressed (wm_id m) (RMessage (joined_response (wm_id m) (as_parts a @ [wm_chunk m])))"
      by (simp add: joined_response_def)
    ultimately show ?thesis by blast
  next
    case next_chunk: False
    let ?b = "a\<lparr>as_parts := as_parts a @ [wm_chunk m], as_size := as_size a + length (wm_chunk m),
      as_next := as_next a + 1\<rparr>"
    have "assembly_ok ?b" using False next_chunk assms by (simp add: assembly_ok_def)
    moreover from False next_chunk have "add_chunk m n a l = l\<lparr>lk_chunks := put (wm_id m) ?b (lk_chunks l)\<rparr>"
      by (simp add: add_chunk_def Let_def)
    ultimately show ?thesis by blast
  qed
qed

lemma handleResponseChunk_cases:
  assumes inv: "link_inv l"
  obtains (ignored) "handleResponseChunk m l = l"
  | (answered) r where "addressed (wm_id m) r" "handleResponseChunk m l = answer (wm_id m) r l"
  | (stored) a where "assembly_ok a" "has_key (lk_pending l) (wm_id m)"
      "handleResponseChunk m l = l\<lparr>lk_chunks := put (wm_id m) a (lk_chunks l)\<rparr>"
proof (cases "wm_protocol m \<noteq> ProtocolVersion \<or> wm_id m = ''''")
  case True
  then show ?thesis by (intro ignored) (auto simp: handleResponseChunk_def)
next
  case ok: False
  show ?thesis
  proof (cases "get (lk_pending l) (wm_id m)")
    case None
    with ok chunks_pending [OF inv None] show ?thesis
      by (intro ignored) (simp add: handleResponseChunk_def del_absent)
  next
    case pend: (Some n)
    show ?thesis
    proof (cases "get (lk_chunks l) (wm_id m)")
      case None
      show ?thesis
      proof (cases "wm_sequence m \<noteq> 0 \<or> wm_total m \<le> 0 \<or> wm_total m > maxResponseChunks")
        case True
        with ok pend None have "handleResponseChunk m l = answer (wm_id m) (RError InvalidChunks) l"
          by (simp add: handleResponseChunk_def answer_def del_absent)
        then show ?thesis by (intro answered) simp_all
      next
        case False
        with ok pend None add_chunk_cases [OF pend,
            of "\<lparr>as_total = wm_total m, as_next = 0, as_size = 0, as_parts = []\<rparr>"]
        show ?thesis by (auto simp: handleResponseChunk_def intro: answered stored)
      qed
    next
      case (Some a)
      then have "assembly_ok a" using inv by (simp add: link_inv_def)
      then have "(\<exists>r. addressed (wm_id m) r \<and> add_chunk m n a l = answer (wm_id m) r l) \<or>
        (\<exists>b. assembly_ok b \<and> add_chunk m n a l = l\<lparr>lk_chunks := put (wm_id m) b (lk_chunks l)\<rparr>)"
        by (intro add_chunk_cases [OF pend]) (simp_all add: assembly_ok_def)
      with ok pend Some show ?thesis
        by (auto simp: handleResponseChunk_def intro: answered stored)
    qed
  qed
qed

lemma read_message_inv [inv_intros]:
  assumes "link_inv l"
  shows "link_inv (read_message now m l)"
proof -
  define l1 where "l1 = l\<lparr>lk_info := (lk_info l)\<lparr>ag_last_seen_at := now\<rparr>\<rparr>"
  have i: "link_inv l1" using assms by (simp add: l1_def)
  have "link_inv (on_response m l1)"
    using on_response_cases [of m l1] i answer_inv [OF i, of "wm_id m" "RMessage m"]
    by auto
  moreover have "link_inv (handleResponseChunk m l1)"
    using i by (cases rule: handleResponseChunk_cases [OF i, of m])
      (simp_all add: answer_inv, auto simp: link_inv_def pending_ok_def)
  ultimately show ?thesis using i by (simp add: read_message_def l1_def Let_def)
qed

lemma fold_send_reply:
  "map cl_id (fold (\<lambda>(i, n). send_reply n r) p cs) = map cl_id cs \<and>
   length (fold (\<lambda>(i, n). send_reply n r) p cs) = length cs \<and>
   (k < length cs \<longrightarrow>
     fold (\<lambda>(i, n). send_reply n r) p cs ! k =
       (if k \<in> snd ` set p \<and> cl_chan (cs ! k) = [] then (cs ! k)\<lparr>cl_chan := [r]\<rparr> else cs ! k))"
proof (induction p arbitrary: cs)
  case Nil
  then show ?case by simp
next
  case (Cons q p)
  obtain i n where q: "q = (i, n)" by force
  from Cons [of "send_reply n r cs"] show ?case
    by (auto simp: q send_reply_nth)
qed

lemma drain_inv [inv_intros]:
  assumes inv: "link_inv l" and "lk_socket_closed l"
  shows "link_inv (drain cause l)"
proof -
  let ?r = "RError (ConnectionClosed cause)"
  note f = fold_send_reply [of ?r "lk_pending l" "lk_calls l"]
  have c: "call_ok [] k (lk_calls (drain cause l) ! k) \<and>
    (cl_stage (lk_calls (drain cause l) ! k) = Sent \<longrightarrow> cl_chan (lk_calls (drain cause l) ! k) \<noteq> [])"
    if k: "k < length (lk_calls l)" for k
  proof -
    have ok: "call_ok (lk_pending l) k (lk_calls l ! k)" using inv k by (simp add: link_inv_def)
    have "k \<in> snd ` set (lk_pending l)" if "waiting (lk_calls l ! k)"
      using ok that by (force simp: call_ok_def dest: map_of_SomeD)
    with ok f [of k] k show ?thesis
      by (auto simp: drain_def call_ok_def waiting_def)
  qed
  then show ?thesis using inv assms(2) f [of 0]
    by (simp add: link_inv_def pending_ok_def drain_def)
qed

lemma pending_okD:
  "pending_ok l \<Longrightarrow> get (lk_pending l) i = Some n \<Longrightarrow>
   n < length (lk_calls l) \<and> cl_id (lk_calls l ! n) = i \<and> cl_chan (lk_calls l ! n) = [] \<and>
   \<not> finished (lk_calls l ! n)"
  by (simp add: pending_ok_def)

lemma set_call_inv:
  assumes inv: "link_inv l" and n: "n < length (lk_calls l)"
    and c: "cl_id c = cl_id (lk_calls l ! n)" "cl_chan c = cl_chan (lk_calls l ! n) \<or> cl_chan c = []"
      "waiting c \<Longrightarrow> waiting (lk_calls l ! n)" "\<not> finished c \<or> get (lk_pending l) (cl_id c) = None"
      "lk_drained l \<Longrightarrow> cl_stage c = Sent \<Longrightarrow> cl_chan c \<noteq> []"
  shows "link_inv (l\<lparr>lk_calls := (lk_calls l)[n := c]\<rparr>)"
proof -
  have "call_ok (lk_pending l) k ((lk_calls l)[n := c] ! k)" if "k < length (lk_calls l)" for k
    using inv that c(1-3) by (cases "k = n") (auto simp: link_inv_def call_ok_def)
  moreover have "map cl_id ((lk_calls l)[n := c]) = map cl_id (lk_calls l)"
    by (simp add: map_update list_update_same_conv n c(1))
  moreover have "k < length (lk_calls l) \<and> cl_id ((lk_calls l)[n := c] ! k) = i \<and>
      cl_chan ((lk_calls l)[n := c] ! k) = [] \<and> \<not> finished ((lk_calls l)[n := c] ! k)"
    if k: "get (lk_pending l) i = Some k" for i k
    using pending_okD [OF _ k] inv n c(1,2,4) k by (cases "k = n") (auto simp: link_inv_def)
  then have "pending_ok (l\<lparr>lk_calls := (lk_calls l)[n := c]\<rparr>)" by (simp add: pending_ok_def)
  moreover have "cl_chan ((lk_calls l)[n := c] ! k) \<noteq> []"
    if "lk_drained l" "k < length (lk_calls l)" "cl_stage ((lk_calls l)[n := c] ! k) = Sent" for k
    using inv that c(5) by (cases "k = n") (simp_all add: link_inv_def)
  ultimately show ?thesis using inv by (simp add: link_inv_def)
qed

lemma register_call_inv [inv_intros]:
  assumes inv: "link_inv l" and i: "i \<notin> set (map cl_id (lk_calls l))"
  shows "link_inv (register_call i l)"
proof -
  let ?c = "\<lparr>cl_id = i, cl_stage = Registered, cl_chan = []\<rparr>"
  let ?p = "put i (length (lk_calls l)) (lk_pending l)"
  have "call_ok ?p n ((lk_calls l @ [?c]) ! n)" if "n < Suc (length (lk_calls l))" for n
  proof (cases "n = length (lk_calls l)")
    case True
    then show ?thesis by (simp add: call_ok_def)
  next
    case False
    then have n: "n < length (lk_calls l)" using that by simp
    then have "cl_id (lk_calls l ! n) \<noteq> i" using i nth_mem [OF n] by force
    with inv n show ?thesis by (auto simp: link_inv_def call_ok_def nth_append)
  qed
  moreover have "k < Suc (length (lk_calls l)) \<and> cl_id ((lk_calls l @ [?c]) ! k) = j \<and>
      cl_chan ((lk_calls l @ [?c]) ! k) = [] \<and> \<not> finished ((lk_calls l @ [?c]) ! k)"
    if "get ?p j = Some k" for j k
    using that pending_okD [of l j k] inv
    by (cases "j = i") (auto simp: link_inv_def finished_def nth_append)
  then have "pending_ok (register_call i l)" by (simp add: pending_ok_def register_call_def)
  ultimately show ?thesis using inv i
    by (simp add: link_inv_def register_call_def) (auto simp: nth_append less_Suc_eq)
qed

lemma leave_call_inv [inv_intros]:
  assumes inv: "link_inv l" and n: "n < length (lk_calls l)"
  shows "link_inv (leave_call n l)"
proof (cases "cl_stage (lk_calls l ! n)")
  case (Leaving r)
  let ?i = "cl_id (lk_calls l ! n)"
  let ?l = "l\<lparr>lk_pending := del ?i (lk_pending l), lk_chunks := del ?i (lk_chunks l)\<rparr>"
  have ids: "distinct (map cl_id (lk_calls l))" using inv by (simp add: link_inv_def)
  have "call_ok (del ?i (lk_pending l)) k (lk_calls l ! k)" if "k < length (lk_calls l)" for k
    using inv that distinct_ids [OF ids n that] Leaving
    by (cases "k = n") (auto simp: link_inv_def call_ok_def waiting_def)
  then have "link_inv ?l" using inv by (auto simp: link_inv_def pending_ok_def)
  then have "link_inv (set_stage n (Finished r) ?l)"
    unfolding set_stage_def
    by (rule set_call_inv) (use n in \<open>simp_all add: waiting_def finished_def\<close>)
  with Leaving show ?thesis by (simp add: leave_call_def)
qed (simp_all add: leave_call_def inv)

lemma op_inv:
  assumes inv: "link_inv l" and en: "op_enabled a l"
  shows "link_inv (apply_op a l)"
proof (cases a)
  case (Register i)
  with en inv show ?thesis by (simp add: register_call_inv)
next
  case (WriteDone n)
  have nd: "\<not> lk_drained l" using en inv WriteDone by (auto simp: link_inv_def)
  have "link_inv (set_stage n Sent l)"
    unfolding set_stage_def
    by (rule set_call_inv [OF inv]) (use en nd WriteDone in \<open>simp_all add: waiting_def finished_def\<close>)
  with WriteDone show ?thesis by simp
next
  case (WriteError n)
  have "link_inv (set_stage n (Leaving (Inl WriteFailed)) l)"
    unfolding set_stage_def
    by (rule set_call_inv [OF inv]) (use en WriteError in \<open>simp_all add: waiting_def finished_def\<close>)
  with WriteError show ?thesis by simp
next
  case (Cancelled n)
  have "link_inv (set_stage n (Leaving (Inl ContextDone)) l)"
    unfolding set_stage_def
    by (rule set_call_inv [OF inv]) (use en Cancelled in \<open>simp_all add: waiting_def finished_def\<close>)
  with Cancelled show ?thesis by simp
next
  case (Receive n)
  obtain r q where rq: "cl_chan (lk_calls l ! n) = r # q" using en Receive by (cases "cl_chan (lk_calls l ! n)") auto
  have "call_ok (lk_pending l) n (lk_calls l ! n)" using inv en Receive by (simp add: link_inv_def)
  with rq have "q = []" by (simp add: call_ok_def)
  have "link_inv (l\<lparr>lk_calls := (lk_calls l)[n := (lk_calls l ! n)
      \<lparr>cl_stage := Leaving (reply_result r), cl_chan := q\<rparr>]\<rparr>)"
    by (rule set_call_inv [OF inv])
      (use en Receive \<open>q = []\<close> in \<open>simp_all add: waiting_def finished_def\<close>)
  with Receive rq show ?thesis by (simp add: take_reply_def)
next
  case (Leave n)
  with en inv show ?thesis by (simp add: leave_call_inv)
next
  case (Read now m)
  with inv show ?thesis by (simp add: read_message_inv)
next
  case (Drain cause)
  with en inv show ?thesis by (simp add: drain_inv)
qed (use inv in \<open>auto simp: link_inv_def pending_ok_def\<close>)

lemma link_reachable_inv: "link_reachable l \<Longrightarrow> link_inv l"
  by (induction rule: link_reachable.induct)
    (simp_all add: op_inv, simp add: link_inv_def new_link_def pending_ok_def)

subsection \<open>Properties of replies\<close>

text \<open>The agent of the concrete runs below.\<close>

definition example_agent :: agent_info where
  "example_agent =
     \<lparr>ag_id = ''agent-1'', ag_name = ''Chrome'', ag_version = ''1.0'', ag_protocol = 1,
      ag_capabilities = [''tab.open''], ag_connected_at = 0, ag_last_seen_at = 0\<rparr>"

text \<open>
  C9: A response is delivered to the call that carries its ID and to no other: in every
  reachable state, reading a well-formed response whose ID is registered puts it into the
  channel of that call, which was empty, so that no reply is ever dropped for a full channel;
  every other call keeps its state, and a channel never holds more than one reply, nor a
  response to another request.
\<close>

theorem responses_reach_their_call:
  assumes "link_reachable l"
  shows "(wm_type m = ''response'' \<and> wm_protocol m = ProtocolVersion \<and> wm_id m \<noteq> '''' \<and>
      get (lk_pending l) (wm_id m) = Some n \<longrightarrow>
      cl_chan (lk_calls l ! n) = [] \<and> cl_id (lk_calls l ! n) = wm_id m \<and>
      lk_calls (read_message now m l) = (lk_calls l)[n := (lk_calls l ! n)\<lparr>cl_chan := [RMessage m]\<rparr>] \<and>
      get (lk_pending (read_message now m l)) (wm_id m) = None) \<and>
    (\<forall>c \<in> set (lk_calls l). length (cl_chan c) \<le> 1 \<and>
      (\<forall>a. RMessage a \<in> set (cl_chan c) \<longrightarrow> wm_id a = cl_id c))"
proof (intro conjI impI)
  have inv: "link_inv l" using assms by (rule link_reachable_inv)
  show "\<forall>c \<in> set (lk_calls l). length (cl_chan c) \<le> 1 \<and>
      (\<forall>a. RMessage a \<in> set (cl_chan c) \<longrightarrow> wm_id a = cl_id c)"
  proof
    fix c assume "c \<in> set (lk_calls l)"
    then obtain k where "call_ok (lk_pending l) k c"
      using link_inv_parts(2) [OF inv] by (auto simp: in_set_conv_nth)
    then show "length (cl_chan c) \<le> 1 \<and> (\<forall>a. RMessage a \<in> set (cl_chan c) \<longrightarrow> wm_id a = cl_id c)"
      by (auto simp: call_ok_def dest: bspec)
  qed
  assume m: "wm_type m = ''response'' \<and> wm_protocol m = ProtocolVersion \<and> wm_id m \<noteq> '''' \<and>
      get (lk_pending l) (wm_id m) = Some n"
  let ?l = "l\<lparr>lk_info := (lk_info l)\<lparr>ag_last_seen_at := now\<rparr>\<rparr>"
  have "get (lk_pending ?l) (wm_id m) = Some n" and "link_inv ?l" using inv m by simp_all
  note a = answer_Some(1) [OF this(2,1), of "RMessage m"] answer_Some(2-5) [OF this(2,1)]
  have "read_message now m l = answer (wm_id m) (RMessage m) ?l"
    using m by (simp add: read_message_def on_response_def answer_def)
  then show "lk_calls (read_message now m l) = (lk_calls l)[n := (lk_calls l ! n)\<lparr>cl_chan := [RMessage m]\<rparr>]"
    "get (lk_pending (read_message now m l)) (wm_id m) = None"
    "cl_chan (lk_calls l ! n) = []" "cl_id (lk_calls l ! n) = wm_id m"
    using a by simp_all
qed

lemma responses_reach_their_call_witness:
  "lk_calls (read_message 5 \<lparr>wm_protocol = 1, wm_type = ''response'', wm_id = ''b'', wm_command = '''',
      wm_token = '''', wm_payload = ''{}'', wm_error = '''', wm_sequence = 0, wm_total = 0, wm_chunk = ''''\<rparr>
     (register_call ''b'' (register_call ''a'' (new_link example_agent)))) ! 0 =
   \<lparr>cl_id = ''a'', cl_stage = Registered, cl_chan = []\<rparr>"
proof -
  let ?m = "\<lparr>wm_protocol = 1, wm_type = ''response'', wm_id = ''b'', wm_command = '''',
      wm_token = '''', wm_payload = ''{}'', wm_error = '''', wm_sequence = 0, wm_total = 0, wm_chunk = ''''\<rparr>"
  have "link_reachable (apply_op (Register ''b'') (apply_op (Register ''a'') (new_link example_agent)))"
    by (intro link_reachable.intros) (simp_all add: new_link_def register_call_def)
  from responses_reach_their_call [OF this, of ?m 1 5] show ?thesis
    by (simp add: ProtocolVersion_def register_call_def new_link_def)
qed

text \<open>
  The memory that partial responses occupy is bounded: every assembly belongs to a call
  that is still registered, holds fewer parts than its announced total of at most 128, has
  counted its bytes correctly and holds at most 64 MiB of them. Once a connection has been
  drained, only calls registered later can have one.
\<close>

theorem assemblies_bounded:
  assumes "link_reachable l" and "get (lk_chunks l) i = Some a"
  shows "(\<exists>n < length (lk_calls l). get (lk_pending l) i = Some n \<and> cl_id (lk_calls l ! n) = i \<and>
      \<not> finished (lk_calls l ! n)) \<and>
    as_size a = length (concat (as_parts a)) \<and> as_size a \<le> 67108864 \<and>
    int (length (as_parts a)) < as_total a \<and> as_total a \<le> 128"
proof -
  have inv: "link_inv l" using assms(1) by (rule link_reachable_inv)
  then obtain n where n: "get (lk_pending l) i = Some n" and a: "assembly_ok a"
    using link_inv_parts(3) [OF _ assms(2)] by blast
  from pending_okD [OF link_inv_parts(1) [OF inv] n] n a show ?thesis
    by (auto simp: assembly_ok_def maxResponseChunks_def maxChunkedResponseBytes_def)
qed

lemma assemblies_bounded_witness:
  "\<exists>a. get (lk_chunks (read_message 5 \<lparr>wm_protocol = 1, wm_type = ''response_chunk'', wm_id = ''a'',
      wm_command = '''', wm_token = '''', wm_payload = '''', wm_error = '''', wm_sequence = 0, wm_total = 2,
      wm_chunk = ''x''\<rparr> (register_call ''a'' (new_link example_agent)))) ''a'' = Some a \<and> as_size a \<le> 67108864"
proof -
  let ?m = "\<lparr>wm_protocol = 1, wm_type = ''response_chunk'', wm_id = ''a'',
      wm_command = '''', wm_token = '''', wm_payload = '''', wm_error = '''', wm_sequence = 0, wm_total = 2,
      wm_chunk = ''x''\<rparr>"
  let ?l = "apply_op (Read 5 ?m) (apply_op (Register ''a'') (new_link example_agent))"
  have r: "link_reachable ?l"
    by (intro link_reachable.intros) (simp_all add: new_link_def)
  have "get (lk_chunks ?l) ''a'' = Some \<lparr>as_total = 2, as_next = 1, as_size = 1, as_parts = [''x'']\<rparr>"
    by (simp add: new_link_def register_call_def read_message_def handleResponseChunk_def ProtocolVersion_def
      add_chunk_def maxResponseChunks_def maxChunkedResponseBytes_def)
  from assemblies_bounded [OF r this] this show ?thesis by auto
qed

subsection \<open>Closing\<close>

text \<open>The steps a call still has to make once its connection is closed.\<close>

definition call_rank :: "call \<Rightarrow> nat" where
  "call_rank c =
     (case cl_stage c of Registered \<Rightarrow> 2 | Sent \<Rightarrow> 2 | Leaving _ \<Rightarrow> 1 | Finished _ \<Rightarrow> 0)"

definition link_rank :: "link \<Rightarrow> nat" where
  "link_rank l = sum_list (map call_rank (lk_calls l))"

definition own_op :: "nat \<Rightarrow> link_op \<Rightarrow> bool" where
  "own_op n a \<longleftrightarrow> a = WriteError n \<or> a = Receive n \<or> a = Leave n"

lemma rank_update:
  assumes "n < length (lk_calls l)" and "call_rank c < call_rank (lk_calls l ! n)"
    and "lk_calls l' = (lk_calls l)[n := c]"
  shows "link_rank l' < link_rank l"
proof -
  have le: "call_rank (lk_calls l ! n) \<le> link_rank l"
    using assms(1) unfolding link_rank_def by (intro member_le_sum_list) auto
  have "link_rank l' = link_rank l + call_rank c - call_rank (lk_calls l ! n)"
    using assms(1) by (simp add: link_rank_def assms(3) map_update sum_list_update)
  with assms(2) le show ?thesis by linarith
qed

lemma drained_progress:
  assumes inv: "link_inv l" and "lk_drained l" and n: "n < length (lk_calls l)"
    and nf: "\<not> finished (lk_calls l ! n)"
  shows "\<exists>a. own_op n a \<and> op_enabled a l \<and> lk_drained (apply_op a l) \<and>
    link_rank (apply_op a l) < link_rank l \<and>
    map cl_id (lk_calls (apply_op a l)) = map cl_id (lk_calls l)"
proof (cases "cl_stage (lk_calls l ! n)")
  case Registered
  have "link_rank (apply_op (WriteError n) l) < link_rank l"
    by (rule rank_update [OF n, of "(lk_calls l ! n)\<lparr>cl_stage := Leaving (Inl WriteFailed)\<rparr>"])
      (simp_all add: set_stage_def call_rank_def Registered)
  with Registered n assms(2) show ?thesis
    by (intro exI [of _ "WriteError n"]) (simp add: own_op_def set_stage_def map_update list_update_same_conv)
next
  case Sent
  then obtain r q where rq: "cl_chan (lk_calls l ! n) = r # q"
    using inv assms(2) n by (cases "cl_chan (lk_calls l ! n)") (auto simp: link_inv_def)
  have "link_rank (apply_op (Receive n) l) < link_rank l"
    by (rule rank_update [OF n, of "(lk_calls l ! n)\<lparr>cl_stage := Leaving (reply_result r), cl_chan := q\<rparr>"])
      (simp_all add: take_reply_def call_rank_def Sent rq)
  with Sent rq n assms(2) show ?thesis
    by (intro exI [of _ "Receive n"])
      (simp add: own_op_def take_reply_def map_update list_update_same_conv)
next
  case (Leaving r)
  have "link_rank (apply_op (Leave n) l) < link_rank l"
    by (rule rank_update [OF n, of "(lk_calls l ! n)\<lparr>cl_stage := Finished r\<rparr>"])
      (simp_all add: leave_call_def set_stage_def call_rank_def Leaving)
  with Leaving n assms(2) show ?thesis
    by (intro exI [of _ "Leave n"])
      (simp add: own_op_def leave_call_def set_stage_def map_update list_update_same_conv)
next
  case (Finished r)
  with nf show ?thesis by (simp add: finished_def)
qed

text \<open>
  C28: Closing a connection strands no call. Once \<open>close\<close> has closed the socket and answered
  the waiting calls, every call that has not returned, one registered after that included,
  has a step of its own to make, and after finitely many such steps, none of them a
  cancellation by the caller, all calls have returned.
\<close>

theorem closed_link_strands_no_call:
  assumes "link_reachable l" and "lk_drained l"
  shows "(\<forall>n < length (lk_calls l). \<not> finished (lk_calls l ! n) \<longrightarrow>
      (\<exists>a. own_op n a \<and> op_enabled a l \<and> link_rank (apply_op a l) < link_rank l)) \<and>
    (\<exists>as l'. link_run as l = Some l' \<and> (\<forall>a \<in> set as. \<exists>n. own_op n a) \<and>
      length as \<le> link_rank l \<and> map cl_id (lk_calls l') = map cl_id (lk_calls l) \<and>
      (\<forall>c \<in> set (lk_calls l'). finished c))"
proof (rule conjI)
  have inv: "link_inv l" using assms(1) by (rule link_reachable_inv)
  show "\<forall>n < length (lk_calls l). \<not> finished (lk_calls l ! n) \<longrightarrow>
      (\<exists>a. own_op n a \<and> op_enabled a l \<and> link_rank (apply_op a l) < link_rank l)"
    using drained_progress [OF inv assms(2)] by blast
  show "\<exists>as l'. link_run as l = Some l' \<and> (\<forall>a \<in> set as. \<exists>n. own_op n a) \<and>
      length as \<le> link_rank l \<and> map cl_id (lk_calls l') = map cl_id (lk_calls l) \<and>
      (\<forall>c \<in> set (lk_calls l'). finished c)"
    using inv assms(2)
  proof (induction "link_rank l" arbitrary: l rule: less_induct)
    case less
    show ?case
    proof (cases "\<forall>c \<in> set (lk_calls l). finished c")
      case True
      then show ?thesis by (intro exI [of _ "[]"] exI [of _ l]) simp
    next
      case False
      then obtain n where n: "n < length (lk_calls l)" "\<not> finished (lk_calls l ! n)"
        by (auto simp: in_set_conv_nth)
      obtain a where a: "own_op n a" "op_enabled a l" "lk_drained (apply_op a l)"
        "link_rank (apply_op a l) < link_rank l"
        "map cl_id (lk_calls (apply_op a l)) = map cl_id (lk_calls l)"
        using drained_progress [OF less.prems n] by blast
      from less.hyps [OF a(4) op_inv [OF less.prems(1) a(2)] a(3)]
      obtain as l' where r: "link_run as (apply_op a l) = Some l'" "\<forall>b \<in> set as. \<exists>n. own_op n b"
        "length as \<le> link_rank (apply_op a l)"
        "map cl_id (lk_calls l') = map cl_id (lk_calls (apply_op a l))"
        "\<forall>c \<in> set (lk_calls l'). finished c" by blast
      then have "link_run (a # as) l = Some l'" using a(2) by simp
      moreover have "\<forall>b \<in> set (a # as). \<exists>n. own_op n b" using a(1) r(2) by auto
      moreover have "length (a # as) \<le> link_rank l" using a(4) r(3) by simp
      moreover have "map cl_id (lk_calls l') = map cl_id (lk_calls l)" using a(5) r(4) by simp
      ultimately show ?thesis using r(5) by blast
    qed
  qed
qed

text \<open>One call waits for its reply when the connection closes, another has just registered.\<close>

lemma closed_link_strands_no_call_witness:
  "\<exists>l as l'. link_run [Register ''a'', WriteDone 0, CloseBegin, CloseSocket, Drain ''gone'', Register ''b'']
       (new_link example_agent) = Some l \<and> link_run as l = Some l' \<and>
     map cl_id (lk_calls l') = [''a'', ''b''] \<and> (\<forall>c \<in> set (lk_calls l'). finished c)"
proof -
  let ?ops = "[Register ''a'', WriteDone 0, CloseBegin, CloseSocket, Drain ''gone'', Register ''b'']"
  obtain l where l: "link_run ?ops (new_link example_agent) = Some l" and d: "lk_drained l"
    and ids: "map cl_id (lk_calls l) = [''a'', ''b'']"
    by (simp add: new_link_def register_call_def set_stage_def drain_def send_reply_def)
  have "link_reachable l" by (rule link_run_reachable [OF link_reachable.start l])
  from conjunct2 [OF closed_link_strands_no_call [OF this d]]
  obtain as l' where "link_run as l = Some l'" "map cl_id (lk_calls l') = map cl_id (lk_calls l)"
    "\<forall>c \<in> set (lk_calls l'). finished c" by blast
  with l show ?thesis unfolding ids by (intro exI conjI)
qed

subsection \<open>Responses in chunks\<close>

text \<open>
  What the extension sends for a large result: \<open>total\<close> messages, numbered from zero. The
  messages that concern a request are the responses and chunks that carry its ID.
\<close>

definition chunk_message :: "string \<Rightarrow> string list \<Rightarrow> nat \<Rightarrow> wire_message" where
  "chunk_message i cs k =
     \<lparr>wm_protocol = ProtocolVersion, wm_type = ''response_chunk'', wm_id = i, wm_command = '''',
      wm_token = '''', wm_payload = '''', wm_error = '''', wm_sequence = int k,
      wm_total = int (length cs), wm_chunk = cs ! k\<rparr>"

definition concerns :: "string \<Rightarrow> wire_message \<Rightarrow> bool" where
  "concerns i m \<longleftrightarrow> wm_id m = i \<and> (wm_type m = ''response'' \<or> wm_type m = ''response_chunk'')"

fun messages_for :: "string \<Rightarrow> link_op list \<Rightarrow> wire_message list" where
  "messages_for i [] = []"
| "messages_for i (Read now m # as) =
     (if concerns i m then m # messages_for i as else messages_for i as)"
| "messages_for i (_ # as) = messages_for i as"

text \<open>Operations that end the call \<open>n\<close> or the connection.\<close>

fun ends_call :: "nat \<Rightarrow> link_op \<Rightarrow> bool" where
  "ends_call n (WriteError k) = (k = n)"
| "ends_call n (Receive k) = (k = n)"
| "ends_call n (Cancelled k) = (k = n)"
| "ends_call n (Leave k) = (k = n)"
| "ends_call n (Drain _) = True"
| "ends_call n _ = False"

text \<open>The state of the call \<open>n\<close> after its first \<open>k\<close> chunks.\<close>

definition partial_assembly :: "string list \<Rightarrow> nat \<Rightarrow> assembly" where
  "partial_assembly cs k =
     \<lparr>as_total = int (length cs), as_next = int k, as_size = length (concat (take k cs)),
      as_parts = take k cs\<rparr>"

definition chunks_received :: "string \<Rightarrow> nat \<Rightarrow> string list \<Rightarrow> nat \<Rightarrow> link \<Rightarrow> bool" where
  "chunks_received i n cs k l \<longleftrightarrow>
     n < length (lk_calls l) \<and> cl_id (lk_calls l ! n) = i \<and>
     (if k < length cs
      then get (lk_pending l) i = Some n \<and>
        get (lk_chunks l) i = (if k = 0 then None else Some (partial_assembly cs k))
      else get (lk_pending l) i = None \<and> get (lk_chunks l) i = None \<and>
        cl_chan (lk_calls l ! n) = [RMessage (joined_response i cs)])"

lemma chunk_step:
  assumes r: "chunks_received i n cs k l" and inv: "link_inv l" and k: "k < length cs" and i: "i \<noteq> ''''"
    and len: "length cs \<le> 128" and size: "length (concat cs) \<le> 67108864"
  shows "chunks_received i n cs (Suc k) (handleResponseChunk (chunk_message i cs k) l)"
proof -
  have p: "get (lk_pending l) i = Some n" and n: "n < length (lk_calls l)" "cl_id (lk_calls l ! n) = i"
    using r k by (auto simp: chunks_received_def)
  have ch: "cl_chan (lk_calls l ! n) = []"
    using pending_okD [OF link_inv_parts(1) [OF inv] p] by simp
  have part: "take k cs @ [cs ! k] = take (Suc k) cs" using k by (simp add: take_Suc_conv_app_nth)
  then have sz: "length (concat (take k cs)) + length (cs ! k) = length (concat (take (Suc k) cs))"
    by (metis append_Nil2 concat.simps concat_append length_append)
  have le: "length (concat (take (Suc k) cs)) \<le> 67108864"
  proof -
    have "length (concat cs) = length (concat (take (Suc k) cs)) + length (concat (drop (Suc k) cs))"
      by (metis append_take_drop_id concat_append length_append)
    with size show ?thesis by simp
  qed
  have add: "handleResponseChunk (chunk_message i cs k) l =
      add_chunk (chunk_message i cs k) n (partial_assembly cs k) l"
    using r p i k len
    by (auto simp: handleResponseChunk_def chunks_received_def chunk_message_def partial_assembly_def
        maxResponseChunks_def)
  have ok: "\<not> (wm_total (chunk_message i cs k) \<noteq> as_total (partial_assembly cs k) \<or>
      wm_sequence (chunk_message i cs k) \<noteq> as_next (partial_assembly cs k) \<or>
      as_size (partial_assembly cs k) + length (wm_chunk (chunk_message i cs k)) > maxChunkedResponseBytes)"
    using sz le by (simp add: chunk_message_def partial_assembly_def maxChunkedResponseBytes_def)
  have b: "partial_assembly cs k
      \<lparr>as_parts := as_parts (partial_assembly cs k) @ [wm_chunk (chunk_message i cs k)],
       as_size := as_size (partial_assembly cs k) + length (wm_chunk (chunk_message i cs k)),
       as_next := as_next (partial_assembly cs k) + 1\<rparr> = partial_assembly cs (Suc k)"
    using part sz by (simp add: partial_assembly_def chunk_message_def)
  show ?thesis
  proof (cases "Suc k < length cs")
    case True
    then show ?thesis
      unfolding add add_chunk_def if_not_P [OF ok] Let_def b using p n
      by (simp add: chunks_received_def partial_assembly_def chunk_message_def)
  next
    case False
    then have "Suc k = length cs" using k by simp
    then show ?thesis
      unfolding add add_chunk_def if_not_P [OF ok] Let_def b using n ch
      by (simp add: chunks_received_def partial_assembly_def chunk_message_def notifyPending_def send_reply_def)
  qed
qed

lemma answer_other:
  assumes r: "chunks_received i n cs k l" and inv: "link_inv l" and j: "j \<noteq> i"
  shows "chunks_received i n cs k (answer j s l)"
proof (cases "get (lk_pending l) j")
  case None
  with r j show ?thesis
    by (auto simp: answer_def notifyPending_def chunks_received_def)
next
  case (Some m)
  note a = answer_Some(1) [OF inv Some, of s] answer_Some(2-5) [OF inv Some]
  have "m \<noteq> n" using a(3) r j by (auto simp: chunks_received_def)
  with r j show ?thesis unfolding a(1) by (auto simp: chunks_received_def)
qed

lemma read_other:
  assumes r: "chunks_received i n cs k l" and inv: "link_inv l" and m: "\<not> concerns i m"
  shows "chunks_received i n cs k (read_message now m l)"
proof -
  define l1 where "l1 = l\<lparr>lk_info := (lk_info l)\<lparr>ag_last_seen_at := now\<rparr>\<rparr>"
  have i: "link_inv l1" and r1: "chunks_received i n cs k l1"
    using inv r by (simp_all add: l1_def chunks_received_def)
  have "chunks_received i n cs k (on_response m l1)" if "wm_type m = ''response''"
    using on_response_cases [of m l1] answer_other [OF r1 i] r1 m that by (auto simp: concerns_def)
  moreover have "chunks_received i n cs k (handleResponseChunk m l1)" if "wm_type m = ''response_chunk''"
    using i
  proof (cases rule: handleResponseChunk_cases [OF i, of m])
    case 1
    then show ?thesis using r1 by simp
  next
    case (2 s)
    then show ?thesis using answer_other [OF r1 i] m that by (auto simp: concerns_def)
  next
    case (3 a)
    then show ?thesis using r1 m that by (auto simp: chunks_received_def concerns_def)
  qed
  ultimately show ?thesis using r1 by (simp add: read_message_def l1_def Let_def)
qed

lemma other_op:
  assumes r: "chunks_received i n cs k l" and inv: "link_inv l" and en: "op_enabled a l"
    and e: "\<not> ends_call n a" and a: "\<And>now m. a \<noteq> Read now m"
  shows "chunks_received i n cs k (apply_op a l)"
proof (cases a)
  case (Register j)
  then have "j \<noteq> i" using en r by (auto simp: chunks_received_def dest: nth_mem)
  with Register r show ?thesis
    by (auto simp: chunks_received_def register_call_def nth_append)
next
  case (WriteDone m)
  with r show ?thesis by (cases "m = n") (auto simp: chunks_received_def set_stage_def)
next
  case (Leave m)
  have ids: "distinct (map cl_id (lk_calls l))" using inv by (simp add: link_inv_def)
  have "m \<noteq> n" "m < length (lk_calls l)" "n < length (lk_calls l)"
    using e en Leave r by (auto simp: chunks_received_def)
  then have "cl_id (lk_calls l ! m) \<noteq> cl_id (lk_calls l ! n)" using distinct_ids [OF ids] by blast
  with Leave e r show ?thesis
    by (auto simp: chunks_received_def leave_call_def set_stage_def split: call_stage.splits)
qed (use r e a in \<open>auto simp: chunks_received_def set_stage_def take_reply_def split: list.splits\<close>)

lemma chunks_run:
  assumes "chunks_received i n cs k l" and "link_inv l" and "link_run as l = Some l'"
    and "messages_for i as = map (chunk_message i cs) [k..<length cs]" and "k \<le> length cs"
    and "\<forall>a \<in> set as. \<not> ends_call n a" and "i \<noteq> ''''" and "length cs \<le> 128"
    and "length (concat cs) \<le> 67108864"
  shows "chunks_received i n cs (length cs) l'"
  using assms
proof (induction as arbitrary: k l)
  case Nil
  then have "k = length cs" by auto
  with Nil show ?case by simp
next
  case (Cons a as)
  have en: "op_enabled a l" and run: "link_run as (apply_op a l) = Some l'"
    using Cons.prems(3) by (simp_all split: if_splits)
  have inv: "link_inv (apply_op a l)" using op_inv [OF Cons.prems(2) en] .
  note IH = Cons.IH [OF _ inv run _ _ _ Cons.prems(7-9)]
  show ?case
  proof (cases "\<exists>now m. a = Read now m \<and> concerns i m")
    case True
    then obtain now m where m: "a = Read now m" "concerns i m" by blast
    with Cons.prems(4,5) have k: "k < length cs"
      by (cases "k = length cs") auto
    with Cons.prems(4) m have m': "m = chunk_message i cs k"
      and rest: "messages_for i as = map (chunk_message i cs) [Suc k..<length cs]"
      by (simp_all add: upt_conv_Cons)
    let ?l = "l\<lparr>lk_info := (lk_info l)\<lparr>ag_last_seen_at := now\<rparr>\<rparr>"
    have "chunks_received i n cs k ?l" "link_inv ?l"
      using Cons.prems(1,2) by (simp_all add: chunks_received_def)
    from chunk_step [OF this k Cons.prems(7-9)]
    have "chunks_received i n cs (Suc k) (apply_op a l)"
      by (simp add: m(1) m' read_message_def) (simp add: chunk_message_def)
    from IH [OF this rest] k Cons.prems(6) show ?thesis by simp
  next
    case False
    have rest: "messages_for i as = map (chunk_message i cs) [k..<length cs]"
      using Cons.prems(4) False by (cases a) auto
    have "chunks_received i n cs k (apply_op a l)"
    proof (cases "\<exists>now m. a = Read now m")
      case True
      with False read_other [OF Cons.prems(1,2)] show ?thesis by auto
    next
      case f: False
      then show ?thesis using other_op [OF Cons.prems(1,2) en] Cons.prems(6) by simp
    qed
    from IH [OF this rest Cons.prems(5)] Cons.prems(6) show ?thesis by simp
  qed
qed

text \<open>
  C37: A response sent in chunks arrives whole. When the chunks that concern a request are its
  numbered parts in order, at most 128 of them and 64 MiB in all, then however they are
  interleaved with the messages, registrations and endings of other calls, the waiting call
  receives exactly one reply, whose payload is the concatenation of the parts.
\<close>

theorem chunked_response_arrives_whole:
  assumes "link_reachable l" and "get (lk_pending l) i = Some n" and "get (lk_chunks l) i = None"
    and "i \<noteq> ''''" and "cs \<noteq> []" and "length cs \<le> 128" and "length (concat cs) \<le> 67108864"
    and "link_run as l = Some l'" and "messages_for i as = map (chunk_message i cs) [0..<length cs]"
    and "\<forall>a \<in> set as. \<not> ends_call n a"
  shows "cl_chan (lk_calls l' ! n) = [RMessage (joined_response i cs)] \<and>
    reply_result (RMessage (joined_response i cs)) = Inr (concat cs) \<and>
    get (lk_pending l') i = None \<and> get (lk_chunks l') i = None"
proof -
  have inv: "link_inv l" using assms(1) by (rule link_reachable_inv)
  have "chunks_received i n cs 0 l"
    using assms(2,3,5) pending_okD [OF link_inv_parts(1) [OF inv] assms(2)]
    by (simp add: chunks_received_def)
  from chunks_run [OF this inv assms(8,9) _ assms(10,4,6,7)] assms(5)
  show ?thesis by (simp add: chunks_received_def joined_response_def)
qed

lemma chunked_response_arrives_whole_witness:
  "\<exists>l'. link_run [Register ''b'', Read 1 (chunk_message ''a'' [''one'', ''two''] 0),
        Read 2 (chunk_message ''b'' [''x''] 0), Read 3 (chunk_message ''a'' [''one'', ''two''] 1)]
      (register_call ''a'' (new_link example_agent)) = Some l' \<and>
    cl_chan (lk_calls l' ! 0) = [RMessage (joined_response ''a'' [''one'', ''two''])]"
proof -
  let ?l = "register_call ''a'' (new_link example_agent)"
  let ?as = "[Register ''b'', Read 1 (chunk_message ''a'' [''one'', ''two''] 0),
        Read 2 (chunk_message ''b'' [''x''] 0), Read 3 (chunk_message ''a'' [''one'', ''two''] 1)]"
  have l: "link_reachable ?l"
    using link_reachable.step [OF link_reachable.start [of example_agent], of "Register ''a''"]
    by (simp add: new_link_def)
  obtain l' where run: "link_run ?as ?l = Some l'" by (simp add: register_call_def new_link_def)
  have "messages_for ''a'' ?as = map (chunk_message ''a'' [''one'', ''two'']) [0..<length [''one'', ''two'']]"
    by (simp add: concerns_def chunk_message_def upt_rec)
  from chunked_response_arrives_whole [OF l _ _ _ _ _ _ run this, of 0] run show ?thesis
    by (simp add: register_call_def new_link_def)
qed

end
