(* ===== verification/BrowserManager.thy ===== *)
theory BrowserManager
  imports BrowserLink Hubs Base64 GoFloat
begin

section \<open>The browser bridge (internal/browser/manager.go, internal/browser/token.go)\<close>

text \<open>
  The manager of the extension connections: the pairing token, the agents by their ID, the
  network captures with their owners, and the events it publishes. A connection is a
  position in \<open>bm_links\<close>; \<open>bm_presented\<close> records the token each connection has shown, which
  the code does not keep. Operations return the events they publish, in order, beside the
  new state; the events of one operation that come from a loop over a map come in the order
  of the list that stands for it. Between the critical sections of an operation that sends a
  command anything may happen to the manager: \<open>send\<close> stands for the call and for what the
  other goroutines do meanwhile. What \<open>encoding/json\<close> makes of a payload is an argument.
\<close>

definition maxNetworkCaptures :: nat where "maxNetworkCaptures = 32"
definition maxAgentCapabilities :: nat where "maxAgentCapabilities = 128"
definition maxSelectorQueries :: nat where "maxSelectorQueries = 16"
definition maxSelectorCandidates :: int where "maxSelectorCandidates = 200"

subsection \<open>Data\<close>

record browser_target =
  tg_agent :: string
  tg_window :: int
  tg_tab :: int

record network_session =
  ns_id :: string
  ns_target :: browser_target
  ns_status :: string
  ns_started_at :: time
  ns_count :: int
  ns_error :: string

record capture_rule =
  cr_id :: string
  cr_url_contains :: string
  cr_resource_type :: string
  cr_max_body_bytes :: int

record network_start_request =
  sr_target :: browser_target
  sr_rules :: "capture_rule list"
  sr_disable_cache :: bool

record network_result =
  nr_session_id :: string
  nr_capture_id :: string
  nr_url :: string
  nr_method :: string
  nr_status :: int
  nr_status_text :: string
  nr_resource_type :: string
  nr_mime_type :: string
  nr_protocol :: string
  nr_remote_ip :: string
  nr_remote_port :: int
  nr_initiator_type :: string
  nr_headers :: "string go_map"
  nr_request_headers :: "string go_map"
  nr_request_body :: string
  nr_request_body_truncated :: bool
  nr_body :: string
  nr_body_base64 :: bool
  nr_truncated :: bool
  nr_encoded_length :: int
  nr_duration :: int
  nr_from_disk_cache :: bool
  nr_from_service_worker :: bool
  nr_timing :: "f64 go_map"
  nr_error :: string

record capture_session =
  cp_session :: network_session
  cp_rules :: "capture_rule list"
  cp_events :: "network_result list"
  cp_owner :: string

datatype event_payload =
    PSession network_session
  | PResult network_result
  | PRaw string
  | PAvailable bool

record stream_event =
  se_type :: string
  se_agent :: string
  se_session_id :: string
  se_payload :: event_payload
  se_owner :: string

record hello_payload =
  hp_id :: string
  hp_name :: string
  hp_version :: string
  hp_capabilities :: "string list"

record selector_request =
  sq_target :: browser_target
  sq_queries :: "string list"
  sq_limit :: int

record browser_manager =
  bm_token :: string
  bm_agents :: "nat go_map"
  bm_links :: "link list"
  bm_presented :: "string list"
  bm_captures :: "capture_session go_map"

datatype browser_error =
    EmptyToken
  | TokenNotPersisted
  | TokenFileEmpty
  | TokenFileUnreadable
  | TokenUnwritable
  | RandomUnavailable
  | NoExtension
  | AgentNotConnected string
  | CapabilityMissing string
  | SelectorTabRequired
  | SelectorWindowInvalid
  | SelectorQueryCount
  | SelectorQueryLength
  | SelectorLimit
  | CaptureTabRequired
  | CaptureRuleCount
  | CaptureRuleInvalid
  | CaptureNotFound
  | CallFailed link_error

subsection \<open>The pairing token\<close>

definition NewManager :: "string \<Rightarrow> browser_error + browser_manager" where
  "NewManager pairingToken =
     (if trim_space pairingToken = [] then Inl EmptyToken
      else Inr \<lparr>bm_token = pairingToken, bm_agents = [], bm_links = [], bm_presented = [], bm_captures = []\<rparr>)"

definition validToken :: "string \<Rightarrow> browser_manager \<Rightarrow> bool" where
  "validToken v m = (v = bm_token m)"

text \<open>\<open>GenerateToken\<close>; \<open>None\<close> when the random source fails.\<close>

definition GenerateToken :: "string option \<Rightarrow> browser_error + string" where
  "GenerateToken drawn = (case drawn of None \<Rightarrow> Inl RandomUnavailable | Some b \<Rightarrow> Inr (b64_encode True b))"

text \<open>
  The token file: its content, if it exists. \<open>writeToken\<close> writes a temporary file and renames
  it; either may fail, and then the token file is as it was.
\<close>

record token_io =
  ti_read_fails :: bool
  ti_write_fails :: bool
  ti_rename_fails :: bool

definition writeToken :: "token_io \<Rightarrow> string \<Rightarrow> string option \<Rightarrow> (browser_error + unit) \<times> string option" where
  "writeToken io token file =
     (if ti_write_fails io \<or> ti_rename_fails io then (Inl TokenUnwritable, file)
      else (Inr (), Some (token @ [byte 10])))"

definition readOrCreateToken ::
    "token_io \<Rightarrow> string option \<Rightarrow> string option \<Rightarrow> (browser_error + string) \<times> string option" where
  "readOrCreateToken io drawn file =
     (if ti_read_fails io then (Inl TokenFileUnreadable, file)
      else case file of
        Some data \<Rightarrow> let token = trim_space data in
          (if token = [] then Inl TokenFileEmpty else Inr token, file)
      | None \<Rightarrow>
          (case GenerateToken drawn of
             Inl e \<Rightarrow> (Inl e, file)
           | Inr token \<Rightarrow>
               (case writeToken io token file of
                  (Inl e, file') \<Rightarrow> (Inl e, file')
                | (Inr _, file') \<Rightarrow> (Inr token, file'))))"

definition OpenManager ::
    "token_io \<Rightarrow> string option \<Rightarrow> string option \<Rightarrow> (browser_error + browser_manager) \<times> string option" where
  "OpenManager io drawn file =
     (case readOrCreateToken io drawn file of
        (Inl e, file') \<Rightarrow> (Inl e, file')
      | (Inr token, file') \<Rightarrow> (NewManager token, file'))"

subsection \<open>Captures\<close>

definition capture_removed :: "string \<Rightarrow> capture_session \<Rightarrow> stream_event" where
  "capture_removed reason c =
     (let s = (cp_session c)\<lparr>ns_status := ''stopped'', ns_error := reason\<rparr>
      in \<lparr>se_type = ''browser.network.status'', se_agent = tg_agent (ns_target s), se_session_id = ns_id s,
          se_payload = PSession s, se_owner = cp_owner c\<rparr>)"

definition removeCaptures ::
    "(capture_session \<Rightarrow> bool) \<Rightarrow> string \<Rightarrow> browser_manager \<Rightarrow> stream_event list \<times> browser_manager" where
  "removeCaptures matches reason m =
     (map (\<lambda>(i, c). capture_removed reason c) (filter (\<lambda>(i, c). matches c) (bm_captures m)),
      m\<lparr>bm_captures := filter (\<lambda>(i, c). \<not> matches c) (bm_captures m)\<rparr>)"

definition Captures :: "browser_manager \<Rightarrow> network_session list" where
  "Captures m = map (\<lambda>(i, c). (cp_session c)\<lparr>ns_count := int (length (cp_events c))\<rparr>) (bm_captures m)"

subsection \<open>Agents\<close>

definition link_id :: "browser_manager \<Rightarrow> nat \<Rightarrow> string" where
  "link_id m n = ag_id (lk_info (bm_links m ! n))"

definition removeAgent :: "nat \<Rightarrow> browser_manager \<Rightarrow> stream_event list \<times> browser_manager" where
  "removeAgent n m0 =
     (let m = (if get (bm_agents m0) (link_id m0 n) = Some n
               then m0\<lparr>bm_agents := del (link_id m0 n) (bm_agents m0)\<rparr> else m0);
          (events, m') = removeCaptures
            (\<lambda>c. tg_agent (ns_target (cp_session c)) = link_id m0 n) ''browser agent disconnected'' m
      in (events @ [\<lparr>se_type = ''browser.targets.changed'', se_agent = link_id m0 n, se_session_id = '''',
                     se_payload = PAvailable False, se_owner = ''''\<rparr>], m'))"

text \<open>\<open>close\<close>: at most once, and in the order of the code.\<close>

definition close_link :: "string \<Rightarrow> nat \<Rightarrow> browser_manager \<Rightarrow> stream_event list \<times> browser_manager" where
  "close_link cause n m =
     (if lk_done (bm_links m ! n) then ([], m)
      else
        let (events, m') = removeAgent n (m\<lparr>bm_links := (bm_links m)[n := apply_op CloseBegin (bm_links m ! n)]\<rparr>)
        in (events,
            m'\<lparr>bm_links := (bm_links m')[n := apply_op (Drain cause) (apply_op CloseSocket (bm_links m' ! n))]\<rparr>))"

fun close_links :: "string \<Rightarrow> nat list \<Rightarrow> browser_manager \<Rightarrow> stream_event list \<times> browser_manager" where
  "close_links cause [] m = ([], m)"
| "close_links cause (n # ns) m =
     (let (es, m1) = close_link cause n m; (es', m2) = close_links cause ns m1 in (es @ es', m2))"

definition addAgent :: "nat \<Rightarrow> browser_manager \<Rightarrow> stream_event list \<times> browser_manager" where
  "addAgent n m =
     (let m' = m\<lparr>bm_agents := put (link_id m n) n (bm_agents m)\<rparr>
      in case get (bm_agents m) (link_id m n) of
           None \<Rightarrow> ([], m')
         | Some previous \<Rightarrow> close_link ''browser extension replaced by a newer connection'' previous m')"

definition SetPairingToken ::
    "string \<Rightarrow> browser_manager \<Rightarrow> (browser_error + stream_event list) \<times> browser_manager" where
  "SetPairingToken token m =
     (if trim_space token = [] then (Inl EmptyToken, m)
      else let (es, m') = close_links ''browser pairing token rotated'' (map snd (bm_agents m))
                (m\<lparr>bm_token := token\<rparr>)
           in (Inr es, m'))"

definition RotatePairingToken ::
    "token_io \<Rightarrow> string option \<Rightarrow> bool \<Rightarrow> string option \<Rightarrow> browser_manager \<Rightarrow>
     (browser_error + string \<times> stream_event list) \<times> string option \<times> browser_manager" where
  "RotatePairingToken io drawn persisted file m =
     (if \<not> persisted then (Inl TokenNotPersisted, file, m)
      else case GenerateToken drawn of
        Inl e \<Rightarrow> (Inl e, file, m)
      | Inr token \<Rightarrow>
          (case writeToken io token file of
             (Inl e, file') \<Rightarrow> (Inl e, file', m)
           | (Inr _, file') \<Rightarrow>
               (case SetPairingToken token m of
                  (Inl e, m') \<Rightarrow> (Inl e, file', m')
                | (Inr es, m') \<Rightarrow> (Inr (token, es), file', m'))))"

definition validAgentHello :: "hello_payload \<Rightarrow> bool" where
  "validAgentHello p \<longleftrightarrow>
     length (trim_space (hp_id p)) > 0 \<and> length (hp_id p) \<le> 128 \<and> length (hp_name p) \<le> 128 \<and>
     length (hp_version p) \<le> 64 \<and> length (hp_capabilities p) \<le> maxAgentCapabilities"

text \<open>
  \<open>HandleExtension\<close> up to the new connection: the hello message, with its decoded payload,
  makes a connection or is turned away. The connection is added by \<open>addAgent\<close> afterwards, in
  another critical section.
\<close>

definition accept_hello ::
    "time \<Rightarrow> wire_message \<Rightarrow> hello_payload option \<Rightarrow> browser_manager \<Rightarrow> (nat \<times> browser_manager) option" where
  "accept_hello now hello payload m =
     (if wm_type hello \<noteq> ''hello'' \<or> wm_protocol hello \<noteq> ProtocolVersion \<or> \<not> validToken (wm_token hello) m
      then None
      else case payload of
        None \<Rightarrow> None
      | Some p \<Rightarrow>
          if \<not> validAgentHello p then None
          else Some (length (bm_links m),
            m\<lparr>bm_links := bm_links m @ [new_link \<lparr>ag_id = hp_id p, ag_name = hp_name p,
                ag_version = hp_version p, ag_protocol = wm_protocol hello,
                ag_capabilities = hp_capabilities p, ag_connected_at = now, ag_last_seen_at = now\<rparr>],
              bm_presented := bm_presented m @ [wm_token hello]\<rparr>))"

definition Agents :: "browser_manager \<Rightarrow> agent_info list" where
  "Agents m = sort_key ag_id (map (\<lambda>(i, n). lk_info (bm_links m ! n)) (bm_agents m))"

definition selectAgent :: "string \<Rightarrow> browser_manager \<Rightarrow> nat option" where
  "selectAgent i m =
     (if i \<noteq> '''' then get (bm_agents m) i
      else case sort (map fst (bm_agents m)) of [] \<Rightarrow> None | j # _ \<Rightarrow> get (bm_agents m) j)"

definition supportsCapability :: "link \<Rightarrow> string \<Rightarrow> bool" where
  "supportsCapability l required \<longleftrightarrow> required \<in> set (ag_capabilities (lk_info l))"

text \<open>The error of \<open>sendCommand\<close> when there is no agent to send to.\<close>

definition agent_for :: "string \<Rightarrow> browser_manager \<Rightarrow> browser_error + nat" where
  "agent_for i m =
     (case selectAgent i m of
        Some n \<Rightarrow> Inr n
      | None \<Rightarrow> Inl (if i \<noteq> '''' then AgentNotConnected i else NoExtension))"

subsection \<open>Requests\<close>

fun check_queries :: "string list \<Rightarrow> browser_error + unit" where
  "check_queries [] = Inr ()"
| "check_queries (q # qs) =
     (if length (trim_space q) = 0 \<or> length (trim_space q) > 4096 then Inl SelectorQueryLength
      else check_queries qs)"

definition ValidateBrowserSelectorCandidatesRequest :: "selector_request \<Rightarrow> browser_error + unit" where
  "ValidateBrowserSelectorCandidatesRequest r =
     (if tg_tab (sq_target r) \<le> 0 then Inl SelectorTabRequired
      else if tg_window (sq_target r) < 0 then Inl SelectorWindowInvalid
      else if sq_queries r = [] \<or> length (sq_queries r) > maxSelectorQueries then Inl SelectorQueryCount
      else case check_queries (sq_queries r) of
        Inl e \<Rightarrow> Inl e
      | Inr _ \<Rightarrow> if sq_limit r < 0 \<or> sq_limit r > maxSelectorCandidates then Inl SelectorLimit else Inr ())"

text \<open>\<open>SelectorCandidates\<close> up to the command it sends to the agent it names.\<close>

definition SelectorCandidates :: "selector_request \<Rightarrow> browser_manager \<Rightarrow> browser_error + nat" where
  "SelectorCandidates r m =
     ok_then (ValidateBrowserSelectorCandidatesRequest r) (\<lambda>_.
       case selectAgent (tg_agent (sq_target r)) m of
         None \<Rightarrow> Inl NoExtension
       | Some n \<Rightarrow>
           if \<not> supportsCapability (bm_links m ! n) ''browser.selector_candidates''
           then Inl (CapabilityMissing ''browser.selector_candidates'') else Inr n)"

definition rule_ok :: "capture_rule \<Rightarrow> bool" where
  "rule_ok r \<longleftrightarrow>
     length (cr_url_contains r) \<le> 4096 \<and> 0 \<le> cr_max_body_bytes r \<and> cr_max_body_bytes r \<le> 1048576"

definition check_capture :: "network_start_request \<Rightarrow> browser_error + unit" where
  "check_capture r =
     (if tg_tab (sr_target r) \<le> 0 then Inl CaptureTabRequired
      else if sr_rules r = [] \<or> length (sr_rules r) > maxNetworkCaptures then Inl CaptureRuleCount
      else if list_ex (\<lambda>x. \<not> rule_ok x) (sr_rules r) then Inl CaptureRuleInvalid
      else Inr ())"

subsection \<open>Starting and stopping captures\<close>

text \<open>
  The critical sections of \<open>startNetworkCapture\<close>: before the command, and after it failed or
  succeeded. \<open>sendCommand\<close> decodes the agent's answer over the session, its ID included, and
  a failed decoding may have written parts of it; \<open>s\<close> is the session after the call.
\<close>

definition begin_capture ::
    "string \<Rightarrow> string \<Rightarrow> time \<Rightarrow> network_start_request \<Rightarrow> browser_manager \<Rightarrow> network_session \<times> browser_manager" where
  "begin_capture owner i now r m =
     (let s = \<lparr>ns_id = i, ns_target = sr_target r, ns_status = ''starting'', ns_started_at = now,
               ns_count = 0, ns_error = ''''\<rparr>
      in (s, m\<lparr>bm_captures := put i \<lparr>cp_session = s, cp_rules = sr_rules r, cp_events = [], cp_owner = owner\<rparr>
               (bm_captures m)\<rparr>))"

definition fail_capture :: "network_session \<Rightarrow> browser_manager \<Rightarrow> browser_manager" where
  "fail_capture s m = m\<lparr>bm_captures := del (ns_id s) (bm_captures m)\<rparr>"

definition capture_started :: "network_session \<Rightarrow> browser_manager \<Rightarrow> stream_event list \<times> browser_manager" where
  "capture_started s m =
     ([\<lparr>se_type = ''browser.network.status'', se_agent = tg_agent (ns_target s), se_session_id = ns_id s,
        se_payload = PSession s, se_owner = ''''\<rparr>],
      case get (bm_captures m) (ns_id s) of
        None \<Rightarrow> m
      | Some c \<Rightarrow> m\<lparr>bm_captures := put (ns_id s) (c\<lparr>cp_session := s\<rparr>) (bm_captures m)\<rparr>)"

type_synonym command =
  "network_session \<Rightarrow> browser_manager \<Rightarrow>
   browser_error option \<times> network_session \<times> stream_event list \<times> browser_manager"

definition startNetworkCapture ::
    "command \<Rightarrow> string \<Rightarrow> string \<Rightarrow> time \<Rightarrow> network_start_request \<Rightarrow> browser_manager \<Rightarrow>
     (browser_error + network_session) \<times> stream_event list \<times> browser_manager" where
  "startNetworkCapture send owner i now r m =
     (case check_capture r of
        Inl e \<Rightarrow> (Inl e, [], m)
      | Inr _ \<Rightarrow>
          (case begin_capture owner i now r m of (s0, m1) \<Rightarrow>
             (case send s0 m1 of
                (Some e, s, es, m2) \<Rightarrow> (Inl e, es, fail_capture s m2)
              | (None, s, es, m2) \<Rightarrow>
                  (case capture_started s m2 of (es', m3) \<Rightarrow> (Inr s, es @ es', m3)))))"

record stop_result =
  sp_session :: network_session
  sp_events :: "network_result list"

definition capture_stopped ::
    "string \<Rightarrow> network_session \<Rightarrow> browser_manager \<Rightarrow> stop_result \<times> stream_event list \<times> browser_manager" where
  "capture_stopped i s m =
     (case get (bm_captures m) i of
        None \<Rightarrow> (\<lparr>sp_session = s, sp_events = []\<rparr>, [], m)
      | Some c \<Rightarrow>
          let s' = (if ns_error s = '''' then s\<lparr>ns_error := ns_error (cp_session c)\<rparr> else s)
          in (\<lparr>sp_session = s', sp_events = cp_events c\<rparr>,
              [\<lparr>se_type = ''browser.network.status'', se_agent = tg_agent (ns_target s'), se_session_id = i,
                se_payload = PSession s', se_owner = cp_owner c\<rparr>],
              m\<lparr>bm_captures := del i (bm_captures m)\<rparr>))"

definition zero_session :: network_session where
  "zero_session =
     \<lparr>ns_id = '''', ns_target = \<lparr>tg_agent = '''', tg_window = 0, tg_tab = 0\<rparr>, ns_status = '''',
      ns_started_at = zero_time, ns_count = 0, ns_error = ''''\<rparr>"

definition StopNetworkCapture ::
    "command \<Rightarrow> string \<Rightarrow> browser_manager \<Rightarrow>
     (browser_error + stop_result) \<times> stream_event list \<times> browser_manager" where
  "StopNetworkCapture send i m =
     (case get (bm_captures m) i of
        None \<Rightarrow> (Inl CaptureNotFound, [], m)
      | Some c \<Rightarrow>
          (case send zero_session m of
             (Some e, s, es, m1) \<Rightarrow> (Inl e, es, m1)
           | (None, s, es, m1) \<Rightarrow>
               (case capture_stopped i s m1 of (r, es', m2) \<Rightarrow> (Inr r, es @ es', m2))))"

fun stop_each ::
    "(string \<Rightarrow> command) \<Rightarrow> string \<Rightarrow> string list \<Rightarrow> browser_manager \<Rightarrow> stream_event list \<times> browser_manager" where
  "stop_each send owner [] m = ([], m)"
| "stop_each send owner (i # is) m =
     (case StopNetworkCapture (send i) i m of
        (Inl e, es, m1) \<Rightarrow>
          (case removeCaptures (\<lambda>c. cp_owner c = owner) ''plugin browser session disconnected'' m1 of
             (es', m2) \<Rightarrow> (es @ es', m2))
      | (Inr _, es, m1) \<Rightarrow> (case stop_each send owner is m1 of (es', m2) \<Rightarrow> (es @ es', m2)))"

definition stopPluginCaptures ::
    "(string \<Rightarrow> command) \<Rightarrow> string \<Rightarrow> browser_manager \<Rightarrow> stream_event list \<times> browser_manager" where
  "stopPluginCaptures send owner m =
     stop_each send owner (map fst (filter (\<lambda>(i, c). cp_owner c = owner) (bm_captures m))) m"

subsection \<open>Events of the extension\<close>

text \<open>
  \<open>handleEvent\<close> with the payload decoded as the branch decodes it: \<open>None\<close> is a payload that
  does not decode.
\<close>

datatype agent_event =
    NetworkEvent "network_result option"
  | TargetsChanged string
  | NetworkStatus string "network_session option"
  | UnknownEvent

definition handleEvent :: "string \<Rightarrow> agent_event \<Rightarrow> browser_manager \<Rightarrow> stream_event list \<times> browser_manager" where
  "handleEvent agent ev m =
     (case ev of
        UnknownEvent \<Rightarrow> ([], m)
      | TargetsChanged raw \<Rightarrow>
          ([\<lparr>se_type = ''browser.targets.changed'', se_agent = agent, se_session_id = '''',
             se_payload = PRaw raw, se_owner = ''''\<rparr>], m)
      | NetworkEvent None \<Rightarrow> ([], m)
      | NetworkEvent (Some e) \<Rightarrow>
          if nr_session_id e = '''' then ([], m)
          else (case get (bm_captures m) (nr_session_id e) of
            None \<Rightarrow> ([], m)
          | Some c \<Rightarrow>
              ([\<lparr>se_type = ''browser.network'', se_agent = agent, se_session_id = nr_session_id e,
                 se_payload = PResult e, se_owner = ''''\<rparr>],
               if length (cp_events c) < 2000
               then m\<lparr>bm_captures := put (nr_session_id e)
                  (c\<lparr>cp_events := cp_events c @ [e],
                     cp_session := (cp_session c)\<lparr>ns_count := int (Suc (length (cp_events c)))\<rparr>\<rparr>)
                  (bm_captures m)\<rparr>
               else m))
      | NetworkStatus raw None \<Rightarrow> ([], m)
      | NetworkStatus raw (Some s) \<Rightarrow>
          let ev = (\<lambda>owner. \<lparr>se_type = ''browser.network.status'', se_agent = agent,
                se_session_id = ns_id s, se_payload = PRaw raw, se_owner = owner\<rparr>)
          in if ns_id s = '''' then ([], m)
             else if ns_status s \<noteq> ''stopped'' then ([ev ''''], m)
             else (case get (bm_captures m) (ns_id s) of
               None \<Rightarrow> ([], m)
             | Some c \<Rightarrow>
                 if tg_agent (ns_target (cp_session c)) = agent
                 then ([ev (cp_owner c)], m\<lparr>bm_captures := del (ns_id s) (bm_captures m)\<rparr>)
                 else ([ev ''''], m)))"

subsection \<open>What a plugin receives\<close>

definition forwarded_types :: "string list" where
  "forwarded_types = [''browser.network'', ''browser.network.status'', ''browser.targets.changed'']"

text \<open>The check of \<open>ServePluginBridge\<close>, at the time the event is taken from the subscription.\<close>

definition event_allowed :: "string \<Rightarrow> stream_event \<Rightarrow> browser_manager \<Rightarrow> bool" where
  "event_allowed plugin e m \<longleftrightarrow>
     se_type e \<in> set forwarded_types \<and>
     (se_session_id e = '''' \<or>
      (if se_owner e = ''''
       then (case get (bm_captures m) (se_session_id e) of None \<Rightarrow> False | Some c \<Rightarrow> cp_owner c = plugin)
       else se_owner e = plugin))"

text \<open>
  The goroutine that forwards events: its send queue, the sessions it has dropped events of,
  and whether it has given up. \<open>room\<close> is whether the writer makes room within the second that
  a status event of such a session waits. The last component is a capture it asks to stop.
\<close>

definition bridge_queue_cap :: nat where "bridge_queue_cap = 256"

record forwarder =
  fw_queue :: "stream_event list"
  fw_dropped :: "string list"
  fw_failed :: bool

definition forward_event ::
    "string \<Rightarrow> bool \<Rightarrow> stream_event \<Rightarrow> browser_manager \<Rightarrow> forwarder \<Rightarrow> forwarder \<times> string option" where
  "forward_event plugin room e m f =
     (let i = se_session_id e; queued = f\<lparr>fw_queue := fw_queue f @ [e]\<rparr> in
      if \<not> event_allowed plugin e m then (f, None)
      else if i \<noteq> '''' \<and> se_type e = ''browser.network.status'' \<and> i \<in> set (fw_dropped f)
      then (if length (fw_queue f) < bridge_queue_cap \<or> room
            then (queued\<lparr>fw_dropped := removeAll i (fw_dropped f)\<rparr>, None)
            else (f\<lparr>fw_failed := True\<rparr>, None))
      else if length (fw_queue f) < bridge_queue_cap then (queued, None)
      else if i \<noteq> '''' then
        (if i \<in> set (fw_dropped f) then (f, None)
         else (f\<lparr>fw_dropped := i # fw_dropped f\<rparr>, Some i))
      else (f\<lparr>fw_failed := True\<rparr>, None))"

definition queue_full_error :: string where
  "queue_full_error = ''plugin browser bridge event queue is full''"

text \<open>What the goroutine started for that capture does first.\<close>

definition mark_dropped :: "string \<Rightarrow> browser_manager \<Rightarrow> browser_manager" where
  "mark_dropped i m =
     (case get (bm_captures m) i of
        None \<Rightarrow> m
      | Some c \<Rightarrow> m\<lparr>bm_captures := put i (c\<lparr>cp_session := (cp_session c)\<lparr>ns_error := queue_full_error\<rparr>\<rparr>)
          (bm_captures m)\<rparr>)"

subsection \<open>Reachable states\<close>

text \<open>
  \<open>g\<close> is the history of the captures begun so far, each with its owner. Session IDs come
  from \<open>uuid.NewString\<close> and do not repeat. A connection is added once, and the operations of
  a single connection are those of \<open>link_op\<close>, its closing apart, which is \<open>close_link\<close>.
\<close>

fun closing_op :: "link_op \<Rightarrow> bool" where
  "closing_op CloseBegin = True"
| "closing_op CloseSocket = True"
| "closing_op (Drain _) = True"
| "closing_op _ = False"

inductive mgr_reachable :: "(string \<times> string) list \<Rightarrow> browser_manager \<Rightarrow> bool" where
  start: "NewManager token = Inr m \<Longrightarrow> mgr_reachable [] m"
| hello: "mgr_reachable g m \<Longrightarrow> accept_hello now h p m = Some (n, m') \<Longrightarrow> mgr_reachable g m'"
| add: "mgr_reachable g m \<Longrightarrow> n < length (bm_links m) \<Longrightarrow> \<not> lk_done (bm_links m ! n) \<Longrightarrow>
    n \<notin> snd ` set (bm_agents m) \<Longrightarrow> mgr_reachable g (snd (addAgent n m))"
| close: "mgr_reachable g m \<Longrightarrow> n < length (bm_links m) \<Longrightarrow> mgr_reachable g (snd (close_link cause n m))"
| link_op: "mgr_reachable g m \<Longrightarrow> n < length (bm_links m) \<Longrightarrow> op_enabled a (bm_links m ! n) \<Longrightarrow>
    \<not> closing_op a \<Longrightarrow> mgr_reachable g (m\<lparr>bm_links := (bm_links m)[n := apply_op a (bm_links m ! n)]\<rparr>)"
| rotate: "mgr_reachable g m \<Longrightarrow> SetPairingToken token m = (Inr es, m') \<Longrightarrow> mgr_reachable g m'"
| begin_cap: "mgr_reachable g m \<Longrightarrow> i \<noteq> '''' \<Longrightarrow> i \<notin> fst ` set g \<Longrightarrow>
    mgr_reachable ((i, owner) # g) (snd (begin_capture owner i now r m))"
| fail_cap: "mgr_reachable g m \<Longrightarrow> mgr_reachable g (fail_capture s m)"
| started: "mgr_reachable g m \<Longrightarrow> mgr_reachable g (snd (capture_started s m))"
| stopped: "mgr_reachable g m \<Longrightarrow> mgr_reachable g (snd (snd (capture_stopped i s m)))"
| remove: "mgr_reachable g m \<Longrightarrow> mgr_reachable g (snd (removeCaptures P reason m))"
| event: "mgr_reachable g m \<Longrightarrow> mgr_reachable g (snd (handleEvent agent ev m))"
| mark: "mgr_reachable g m \<Longrightarrow> mgr_reachable g (mark_dropped i m)"

definition capture_ok :: "(string \<times> string) list \<Rightarrow> string \<Rightarrow> capture_session \<Rightarrow> bool" where
  "capture_ok g i c \<longleftrightarrow>
     (i, cp_owner c) \<in> set g \<and> length (cp_events c) \<le> 2000 \<and> (\<forall>e \<in> set (cp_events c). nr_session_id e = i)"

definition captures_inv :: "(string \<times> string) list \<Rightarrow> capture_session go_map \<Rightarrow> bool" where
  "captures_inv g cs \<longleftrightarrow> wf_map cs \<and> wf_map g \<and> (\<forall>i c. get cs i = Some c \<longrightarrow> capture_ok g i c)"

definition agents_inv :: "browser_manager \<Rightarrow> bool" where
  "agents_inv m \<longleftrightarrow>
     wf_map (bm_agents m) \<and> length (bm_presented m) = length (bm_links m) \<and>
     (\<forall>l \<in> set (bm_links m). link_reachable l \<and> (lk_done l \<longrightarrow> lk_drained l)) \<and>
     (\<forall>i n. get (bm_agents m) i = Some n \<longrightarrow>
        n < length (bm_links m) \<and> link_id m n = i \<and> \<not> lk_done (bm_links m ! n))"

lemma captures_inv_put:
  "captures_inv g cs \<Longrightarrow> capture_ok g i c \<Longrightarrow> captures_inv g (put i c cs)"
  by (simp add: captures_inv_def)

lemma captures_inv_del: "captures_inv g cs \<Longrightarrow> captures_inv g (del i cs)"
  by (simp add: captures_inv_def)

lemma captures_inv_filter: "captures_inv g cs \<Longrightarrow> captures_inv g (filter (\<lambda>(i, c). P c) cs)"
  by (auto simp: captures_inv_def filter_map_of [of cs "\<lambda>_. P"] wf_map_def distinct_map_filter
      split: option.splits if_splits)

lemma captures_inv_edit:
  assumes "captures_inv g cs" and "get cs i = Some c"
    and "capture_ok g i c \<Longrightarrow> capture_ok g i c'"
  shows "captures_inv g (put i c' cs)"
  using assms by (simp add: captures_inv_def)

lemma captures_inv_begin:
  "captures_inv g cs \<Longrightarrow> i \<notin> fst ` set g \<Longrightarrow> captures_inv ((i, owner) # g) cs"
  by (auto simp: captures_inv_def capture_ok_def wf_map_def)


lemma removeCaptures_simps [simp]:
  "bm_captures (snd (removeCaptures P r m)) = filter (\<lambda>(i, c). \<not> P c) (bm_captures m)"
  "bm_agents (snd (removeCaptures P r m)) = bm_agents m" "bm_links (snd (removeCaptures P r m)) = bm_links m"
  "bm_token (snd (removeCaptures P r m)) = bm_token m"
  "bm_presented (snd (removeCaptures P r m)) = bm_presented m"
  by (simp_all add: removeCaptures_def)

lemma removeAgent_simps [simp]:
  "bm_captures (snd (removeAgent n m)) =
     filter (\<lambda>(i, c). tg_agent (ns_target (cp_session c)) \<noteq> link_id m n) (bm_captures m)"
  "bm_agents (snd (removeAgent n m)) =
     (if get (bm_agents m) (link_id m n) = Some n then del (link_id m n) (bm_agents m) else bm_agents m)"
  "bm_links (snd (removeAgent n m)) = bm_links m" "bm_token (snd (removeAgent n m)) = bm_token m"
  "bm_presented (snd (removeAgent n m)) = bm_presented m"
  by (simp_all add: removeAgent_def Let_def case_prod_beta)

text \<open>The connection that \<open>close_link\<close> leaves behind.\<close>

definition closed_link :: "string \<Rightarrow> link \<Rightarrow> link" where
  "closed_link cause l = apply_op (Drain cause) (apply_op CloseSocket (apply_op CloseBegin l))"

lemma closed_link_simps [simp]:
  "lk_info (closed_link cause l) = lk_info l" "lk_done (closed_link cause l)" "lk_drained (closed_link cause l)"
  by (simp_all add: closed_link_def drain_def)

lemma apply_op_agent: "ag_id (lk_info (apply_op a l)) = ag_id (lk_info l)"
  by (cases a) (auto simp: register_call_def set_stage_def take_reply_def leave_call_def drain_def
      read_message_def on_response_def handleResponseChunk_def add_chunk_def reject_chunks_def Let_def
      split: list.split call_stage.split option.split)

lemma read_message_flags [simp]:
  "lk_done (read_message now m l) = lk_done l" "lk_socket_closed (read_message now m l) = lk_socket_closed l"
  "lk_drained (read_message now m l) = lk_drained l"
  by (auto simp: read_message_def on_response_def handleResponseChunk_def add_chunk_def reject_chunks_def
      Let_def split: option.split)

lemma apply_op_flags:
  "\<not> closing_op a \<Longrightarrow> lk_done (apply_op a l) = lk_done l \<and> lk_drained (apply_op a l) = lk_drained l \<and>
   lk_socket_closed (apply_op a l) = lk_socket_closed l"
  by (cases a) (auto simp: register_call_def set_stage_def take_reply_def leave_call_def
      split: list.split call_stage.split)

lemma socket_closed_done: "link_reachable l \<Longrightarrow> lk_socket_closed l \<longrightarrow> lk_done l"
proof (induction rule: link_reachable.induct)
  case (step l a)
  then show ?case
  proof (cases "closing_op a")
    case True
    with step show ?thesis by (cases a) (auto simp: drain_def)
  next
    case False
    with step apply_op_flags [OF False, of l] show ?thesis by simp
  qed
qed (simp add: new_link_def)

lemma closed_link_reachable:
  assumes "link_reachable l" and "\<not> lk_done l"
  shows "link_reachable (closed_link cause l)"
proof -
  have s: "\<not> lk_socket_closed l" using socket_closed_done assms by blast
  have "\<not> lk_drained l"
    using link_reachable_inv [OF assms(1)] s by (auto simp: link_inv_def)
  with assms s show ?thesis unfolding closed_link_def
    by (intro link_reachable.step) simp_all
qed

lemma close_link_simps:
  assumes "\<not> lk_done (bm_links m ! n)" and "n < length (bm_links m)"
  shows "bm_links (snd (close_link cause n m)) = (bm_links m)[n := closed_link cause (bm_links m ! n)]"
    and "bm_captures (snd (close_link cause n m)) =
      filter (\<lambda>(i, c). tg_agent (ns_target (cp_session c)) \<noteq> link_id m n) (bm_captures m)"
    and "bm_agents (snd (close_link cause n m)) =
      (if get (bm_agents m) (link_id m n) = Some n then del (link_id m n) (bm_agents m) else bm_agents m)"
    and "bm_token (snd (close_link cause n m)) = bm_token m"
    and "bm_presented (snd (close_link cause n m)) = bm_presented m"
proof -
  let ?m = "m\<lparr>bm_links := (bm_links m)[n := apply_op CloseBegin (bm_links m ! n)]\<rparr>"
  have i: "link_id ?m n = link_id m n" using assms(2) by (simp add: link_id_def)
  obtain es m' where r: "removeAgent n ?m = (es, m')" by force
  have c: "close_link cause n m =
      (es, m'\<lparr>bm_links := (bm_links m')[n := apply_op (Drain cause) (apply_op CloseSocket (bm_links m' ! n))]\<rparr>)"
    using assms(1) r by (simp add: close_link_def)
  have m': "m' = snd (removeAgent n ?m)" by (simp only: r snd_conv)
  show "bm_links (snd (close_link cause n m)) = (bm_links m)[n := closed_link cause (bm_links m ! n)]"
    "bm_captures (snd (close_link cause n m)) =
      filter (\<lambda>(i, c). tg_agent (ns_target (cp_session c)) \<noteq> link_id m n) (bm_captures m)"
    "bm_agents (snd (close_link cause n m)) =
      (if get (bm_agents m) (link_id m n) = Some n then del (link_id m n) (bm_agents m) else bm_agents m)"
    "bm_token (snd (close_link cause n m)) = bm_token m"
    "bm_presented (snd (close_link cause n m)) = bm_presented m"
    using assms(2) i unfolding c m' by (simp_all add: closed_link_def)
qed

lemma removeAgent_events:
  "fst (removeAgent n m) =
     map (\<lambda>(i, c). capture_removed ''browser agent disconnected'' c)
       (filter (\<lambda>(i, c). tg_agent (ns_target (cp_session c)) = link_id m n) (bm_captures m)) @
     [\<lparr>se_type = ''browser.targets.changed'', se_agent = link_id m n, se_session_id = '''',
       se_payload = PAvailable False, se_owner = ''''\<rparr>]"
  by (simp add: removeAgent_def removeCaptures_def Let_def case_prod_beta)

lemma close_link_events:
  assumes "\<not> lk_done (bm_links m ! n)" and "n < length (bm_links m)"
  shows "fst (close_link cause n m) =
     map (\<lambda>(i, c). capture_removed ''browser agent disconnected'' c)
       (filter (\<lambda>(i, c). tg_agent (ns_target (cp_session c)) = link_id m n) (bm_captures m)) @
     [\<lparr>se_type = ''browser.targets.changed'', se_agent = link_id m n, se_session_id = '''',
       se_payload = PAvailable False, se_owner = ''''\<rparr>]"
proof -
  let ?m = "m\<lparr>bm_links := (bm_links m)[n := apply_op CloseBegin (bm_links m ! n)]\<rparr>"
  have "fst (close_link cause n m) = fst (removeAgent n ?m)"
    using assms(1) by (simp add: close_link_def case_prod_beta Let_def)
  moreover have "link_id ?m n = link_id m n" using assms(2) by (simp add: link_id_def)
  ultimately show ?thesis by (simp only: removeAgent_events) simp
qed

lemma close_link_done: "lk_done (bm_links m ! n) \<Longrightarrow> close_link cause n m = ([], m)"
  by (simp add: close_link_def)

lemma link_id_update [simp]:
  "link_id (m\<lparr>bm_agents := x\<rparr>) n = link_id m n" "link_id (m\<lparr>bm_captures := y\<rparr>) n = link_id m n"
  "link_id (m\<lparr>bm_token := z\<rparr>) n = link_id m n"
  by (simp_all add: link_id_def)

lemma agents_invD:
  assumes "agents_inv m" and "get (bm_agents m) i = Some n"
  shows "n < length (bm_links m)" and "link_id m n = i" and "\<not> lk_done (bm_links m ! n)"
  using assms by (simp_all add: agents_inv_def)

lemma agents_inv_links:
  assumes "agents_inv m" and "n < length (bm_links m)"
  shows "link_reachable (bm_links m ! n)" and "lk_done (bm_links m ! n) \<Longrightarrow> lk_drained (bm_links m ! n)"
  using assms by (simp_all add: agents_inv_def)

lemma agents_inv_captures [simp]: "agents_inv (m\<lparr>bm_captures := cs\<rparr>) = agents_inv m"
  by (simp add: agents_inv_def)

lemma agents_inv_token [simp]: "agents_inv (m\<lparr>bm_token := t\<rparr>) = agents_inv m"
  by (simp add: agents_inv_def)

text \<open>Replacing the connection \<open>n\<close> by one of the same agent, when \<open>n\<close> may have left the agents.\<close>

lemma set_link_inv:
  assumes inv: "agents_inv m" and n: "n < length (bm_links m)"
    and l: "link_reachable l" "ag_id (lk_info l) = link_id m n" "lk_done l \<longrightarrow> lk_drained l"
    and gone: "lk_done l \<Longrightarrow> get ag (link_id m n) \<noteq> Some n"
    and ag: "wf_map ag" "\<And>i k. get ag i = Some k \<Longrightarrow> get (bm_agents m) i = Some k"
  shows "agents_inv (m\<lparr>bm_links := (bm_links m)[n := l], bm_agents := ag\<rparr>)"
proof -
  let ?m = "m\<lparr>bm_links := (bm_links m)[n := l], bm_agents := ag\<rparr>"
  have "k < length (bm_links m) \<and> link_id ?m k = i \<and> \<not> lk_done ((bm_links m)[n := l] ! k)"
    if k: "get ag i = Some k" for i k
    using agents_invD [OF inv ag(2) [OF k]] gone k l(2) n
    by (cases "k = n") (auto simp: link_id_def)
  moreover have "link_reachable x \<and> (lk_done x \<longrightarrow> lk_drained x)"
    if "x \<in> set ((bm_links m)[n := l])" for x
    using set_update_subset_insert [of "bm_links m" n l] that inv l(1,3) by (auto simp: agents_inv_def)
  ultimately show ?thesis using inv ag(1) by (simp add: agents_inv_def)
qed

lemma close_link_inv:
  assumes inv: "agents_inv m" and n: "n < length (bm_links m)"
  shows "agents_inv (snd (close_link cause n m))"
proof (cases "lk_done (bm_links m ! n)")
  case True
  then show ?thesis using inv by (simp add: close_link_done)
next
  case False
  note c = close_link_simps [OF False n, of cause]
  have wf: "wf_map (bm_agents m)" using inv by (simp add: agents_inv_def)
  let ?ag = "if get (bm_agents m) (link_id m n) = Some n then del (link_id m n) (bm_agents m) else bm_agents m"
  have "agents_inv (m\<lparr>bm_links := (bm_links m)[n := closed_link cause (bm_links m ! n)], bm_agents := ?ag\<rparr>)"
    by (rule set_link_inv [OF inv n closed_link_reachable [OF agents_inv_links(1) [OF inv n] False]])
      (use wf in \<open>simp_all add: link_id_def split: if_splits\<close>)
  moreover have "agents_inv (snd (close_link cause n m)) = agents_inv
      (m\<lparr>bm_links := (bm_links m)[n := closed_link cause (bm_links m ! n)], bm_agents := ?ag\<rparr>)"
    by (simp add: agents_inv_def link_id_def c)
  ultimately show ?thesis by simp
qed

lemma addAgent_inv:
  assumes inv: "agents_inv m" and n: "n < length (bm_links m)" "\<not> lk_done (bm_links m ! n)"
    and new: "n \<notin> snd ` set (bm_agents m)"
  shows "agents_inv (snd (addAgent n m))"
proof -
  let ?m = "m\<lparr>bm_agents := put (link_id m n) n (bm_agents m)\<rparr>"
  have m': "agents_inv ?m" using inv n by (auto simp: agents_inv_def)
  show ?thesis
  proof (cases "get (bm_agents m) (link_id m n)")
    case None
    with m' show ?thesis by (simp add: addAgent_def)
  next
    case (Some p)
    then have "p < length (bm_links ?m)" using agents_invD(1) [OF inv Some] by simp
    from close_link_inv [OF m' this] Some show ?thesis by (simp add: addAgent_def)
  qed
qed

lemma close_links_inv:
  "agents_inv m \<Longrightarrow> \<forall>n \<in> set ns. n < length (bm_links m) \<Longrightarrow> agents_inv (snd (close_links cause ns m))"
proof (induction ns arbitrary: m)
  case (Cons n ns)
  have n: "n < length (bm_links m)" using Cons.prems(2) by simp
  let ?m = "snd (close_link cause n m)"
  have inv: "agents_inv ?m" by (rule close_link_inv [OF Cons.prems(1) n])
  have "length (bm_links ?m) = length (bm_links m)"
    using close_link_simps(1) [OF _ n, of cause] close_link_done [of m n cause]
    by (cases "lk_done (bm_links m ! n)") simp_all
  with Cons.IH [OF inv] Cons.prems(2) show ?case by (simp add: case_prod_beta Let_def)
qed simp

lemma close_link_captures:
  assumes "n < length (bm_links m)" and "captures_inv g (bm_captures m)"
  shows "captures_inv g (bm_captures (snd (close_link cause n m)))"
  using close_link_simps(2) [OF _ assms(1), of cause] close_link_done [of m n cause] assms(2)
    captures_inv_filter [OF assms(2)]
  by (cases "lk_done (bm_links m ! n)") simp_all

lemma close_link_length:
  "n < length (bm_links m) \<Longrightarrow> length (bm_links (snd (close_link cause n m))) = length (bm_links m)"
  using close_link_simps(1) [of m n cause] close_link_done [of m n cause]
  by (cases "lk_done (bm_links m ! n)") simp_all

lemma close_links_captures:
  "\<forall>n \<in> set ns. n < length (bm_links m) \<Longrightarrow> captures_inv g (bm_captures m) \<Longrightarrow>
   captures_inv g (bm_captures (snd (close_links cause ns m)))"
proof (induction ns arbitrary: m)
  case (Cons n ns)
  then show ?case
    using close_link_captures [of n m g cause] close_link_length [of n m cause]
    by (simp add: case_prod_beta Let_def)
qed simp

lemma agents_links:
  assumes "agents_inv m"
  shows "\<forall>n \<in> set (map snd (bm_agents m)). n < length (bm_links m)"
  using agents_invD(1) [OF assms] assms by (auto simp: agents_inv_def wf_map_def)

lemma accept_helloD:
  assumes "accept_hello now h p m = Some (n, m')"
  obtains info where
    "m' = m\<lparr>bm_links := bm_links m @ [new_link info], bm_presented := bm_presented m @ [wm_token h]\<rparr>"
    "n = length (bm_links m)" "ag_id info \<noteq> ''''"
proof -
  obtain q where q: "p = Some q" "validAgentHello q"
    using assms by (auto simp: accept_hello_def split: if_splits option.splits)
  then have "hp_id q \<noteq> ''''" by (auto simp: validAgentHello_def)
  with assms q show thesis
    by (intro that [of "\<lparr>ag_id = hp_id q, ag_name = hp_name q, ag_version = hp_version q,
        ag_protocol = wm_protocol h, ag_capabilities = hp_capabilities q, ag_connected_at = now,
        ag_last_seen_at = now\<rparr>"]) (simp_all add: accept_hello_def split: if_splits)
qed

lemma new_link_inv:
  assumes inv: "agents_inv m"
  shows "agents_inv (m\<lparr>bm_links := bm_links m @ [new_link info], bm_presented := bm_presented m @ [token]\<rparr>)"
proof -
  have "\<not> lk_done (new_link info)" by (simp add: new_link_def)
  moreover have "k < Suc (length (bm_links m)) \<and> link_id (m\<lparr>bm_links := bm_links m @ [new_link info],
      bm_presented := bm_presented m @ [token]\<rparr>) k = i \<and> \<not> lk_done ((bm_links m @ [new_link info]) ! k)"
    if "get (bm_agents m) i = Some k" for i k
    using agents_invD [OF inv that] by (simp add: link_id_def nth_append)
  ultimately show ?thesis using inv by (simp add: agents_inv_def link_reachable.start)
qed

lemma mgr_inv:
  "mgr_reachable g m \<Longrightarrow> agents_inv m \<and> captures_inv g (bm_captures m)"
proof (induction rule: mgr_reachable.induct)
  case (start token m)
  then show ?case by (auto simp: NewManager_def agents_inv_def captures_inv_def split: if_splits)
next
  case (hello g m now h p n m')
  from hello(2) obtain info where
    "m' = m\<lparr>bm_links := bm_links m @ [new_link info], bm_presented := bm_presented m @ [wm_token h]\<rparr>"
    by (rule accept_helloD)
  with hello show ?case by (simp add: new_link_inv)
next
  case (add g m n)
  have "captures_inv g (bm_captures (snd (addAgent n m)))"
    using add agents_invD(1) [of m "link_id m n"]
    by (auto simp: addAgent_def Let_def split: option.split intro!: close_link_captures)
  with add show ?case by (simp add: addAgent_inv)
next
  case (close g m n cause)
  then show ?case by (simp add: close_link_inv close_link_captures)
next
  case (link_op g m n a)
  have "agents_inv (m\<lparr>bm_links := (bm_links m)[n := apply_op a (bm_links m ! n)], bm_agents := bm_agents m\<rparr>)"
    using link_op agents_inv_links [of m n] apply_op_flags [OF link_op(4), of "bm_links m ! n"]
      agents_invD(3) [of m "link_id m n" n]
    by (intro set_link_inv) (auto simp: apply_op_agent link_id_def agents_inv_def intro: link_reachable.step)
  with link_op show ?case by simp
next
  case (rotate g m token es m')
  let ?m = "m\<lparr>bm_token := token\<rparr>"
  have "m' = snd (close_links ''browser pairing token rotated'' (map snd (bm_agents m)) ?m)"
    using rotate(2) by (simp add: SetPairingToken_def case_prod_beta split: if_splits)
  with rotate agents_links [of m] show ?case
    by (simp add: close_links_inv close_links_captures)
next
  case (begin_cap g m i owner now r)
  then have "captures_inv ((i, owner) # g) (bm_captures m)" by (simp add: captures_inv_begin)
  then have "captures_inv ((i, owner) # g) (bm_captures (snd (begin_capture owner i now r m)))"
    unfolding begin_capture_def Let_def by (simp add: captures_inv_put capture_ok_def)
  with begin_cap show ?case by (simp add: begin_capture_def Let_def)
next
  case (fail_cap g m s)
  then show ?case by (simp add: fail_capture_def captures_inv_del)
next
  case (started g m s)
  then show ?case
    by (auto simp: capture_started_def capture_ok_def split: option.split elim!: captures_inv_edit)
next
  case (stopped g m i s)
  then show ?case
    by (auto simp: capture_stopped_def Let_def captures_inv_del split: option.split)
next
  case (remove g m P reason)
  then show ?case by (simp add: removeCaptures_def captures_inv_filter)
next
  case (event g m agent ev)
  then show ?case
    by (auto simp: handleEvent_def Let_def captures_inv_del capture_ok_def
        split: agent_event.split option.split elim!: captures_inv_edit)
next
  case (mark g m i)
  then show ?case
    by (auto simp: mark_dropped_def capture_ok_def split: option.split elim!: captures_inv_edit)
qed

subsection \<open>Properties of the pairing token\<close>

lemma agents_get:
  assumes "agents_inv m"
  shows "get (bm_agents m) i = Some n \<longleftrightarrow> (i, n) \<in> set (bm_agents m)"
  using assms by (simp add: agents_inv_def get_eq_Some_iff)

lemma agents_distinct:
  assumes "agents_inv m"
  shows "distinct (map snd (bm_agents m))"
proof -
  have "inj_on snd (set (bm_agents m))"
  proof (rule inj_onI)
    fix x y assume xy: "x \<in> set (bm_agents m)" "y \<in> set (bm_agents m)" "snd x = snd y"
    obtain i j n where "x = (i, n)" "y = (j, n)" using xy(3) by (cases x; cases y) simp
    then show "x = y"
      using xy agents_invD(2) [OF assms, of i n] agents_invD(2) [OF assms, of j n]
      by (simp add: agents_get [OF assms])
  qed
  moreover have "distinct (bm_agents m)"
    using assms by (auto simp: agents_inv_def wf_map_def distinct_map)
  ultimately show ?thesis by (simp add: distinct_map)
qed

text \<open>
  The connections that \<open>close_links\<close> closes are exactly those of the agents; what it leaves.
\<close>

lemma close_links_spec:
  assumes "agents_inv m" and "set ns \<subseteq> snd ` set (bm_agents m)" and "distinct ns"
  shows "bm_token (snd (close_links cause ns m)) = bm_token m \<and>
    length (bm_links (snd (close_links cause ns m))) = length (bm_links m) \<and>
    (\<forall>i n. get (bm_agents (snd (close_links cause ns m))) i = Some n \<longleftrightarrow>
       get (bm_agents m) i = Some n \<and> n \<notin> set ns) \<and>
    (\<forall>n < length (bm_links m). bm_links (snd (close_links cause ns m)) ! n =
       (if n \<in> set ns then closed_link cause (bm_links m ! n) else bm_links m ! n)) \<and>
    bm_captures (snd (close_links cause ns m)) =
      filter (\<lambda>(i, c). tg_agent (ns_target (cp_session c)) \<notin> link_id m ` set ns) (bm_captures m)"
  using assms
proof (induction ns arbitrary: m)
  case Nil
  then show ?case by simp
next
  case (Cons n ns)
  have wf: "distinct (map fst (bm_agents m))" using Cons.prems(1) by (simp add: agents_inv_def wf_map_def)
  obtain i where i: "get (bm_agents m) i = Some n" using Cons.prems(2) wf by auto
  note n = agents_invD [OF Cons.prems(1) i]
  note c = close_link_simps [OF n(3,1), of cause]
  let ?m = "snd (close_link cause n m)"
  have i': "get (bm_agents m) (link_id m n) = Some n" using i n(2) by simp
  have inv: "agents_inv ?m" using close_link_inv [OF Cons.prems(1) n(1)] .
  have ids: "link_id ?m k = link_id m k" for k
    by (simp add: link_id_def c nth_list_update) (metis closed_link_simps(1) list_update_beyond not_le nth_list_update)
  have sub: "set ns \<subseteq> snd ` set (bm_agents ?m)"
  proof
    fix k assume k: "k \<in> set ns"
    then obtain j where j: "get (bm_agents m) j = Some k" using Cons.prems(2) wf by auto
    moreover have "j \<noteq> link_id m n" using k j i' Cons.prems(3) by auto
    ultimately have "get (bm_agents ?m) j = Some k" by (simp add: c i')
    from map_of_SomeD [OF this] show "k \<in> snd ` set (bm_agents ?m)" by (rule rev_image_eqI) simp
  qed
  have other: "link_id m n \<noteq> j \<longleftrightarrow> k \<noteq> n" if "get (bm_agents m) j = Some k" for j k
    using that i' agents_invD(2) [OF Cons.prems(1) that] by (metis option.inject)
  define mz where "mz = snd (close_links cause ns ?m)"
  have next_state: "snd (close_links cause (n # ns) m) = mz" by (simp add: mz_def case_prod_beta Let_def)
  have d: "distinct ns" "n \<notin> set ns" using Cons.prems(3) by simp_all
  note IH = Cons.IH [OF inv sub d(1), folded mz_def]
  have t: "bm_token mz = bm_token m" "length (bm_links mz) = length (bm_links m)"
    using IH c(1,4) by simp_all
  have a: "get (bm_agents mz) j = Some k \<longleftrightarrow> get (bm_agents m) j = Some k \<and> k \<notin> set (n # ns)" for j k
    using IH c(3) i' other [of j k] by (auto split: if_splits)
  have l: "bm_links mz ! k = (if k \<in> set (n # ns) then closed_link cause (bm_links m ! k) else bm_links m ! k)"
    if "k < length (bm_links m)" for k
    using IH that c(1) d(2) by (cases "k = n") auto
  have "bm_captures mz = filter (\<lambda>(i, c). tg_agent (ns_target (cp_session c)) \<notin> link_id m ` set ns)
      (filter (\<lambda>(i, c). tg_agent (ns_target (cp_session c)) \<noteq> link_id m n) (bm_captures m))"
    using IH c(2) by (simp add: ids)
  also have "\<dots> = filter (\<lambda>(i, c). tg_agent (ns_target (cp_session c)) \<notin> link_id m ` set (n # ns)) (bm_captures m)"
    by (auto simp: filter_filter intro: filter_cong)
  finally show ?case unfolding next_state using t a l by blast
qed

text \<open>
  C29: Rotating the pairing token disconnects every agent: afterwards no agent is registered,
  every connection that was is closed with all its calls answered, no capture aimed at one of
  those agents is left, the new token is the valid one, and no agent can be found to send to.
\<close>

theorem rotation_disconnects_agents:
  assumes "mgr_reachable g m" and "SetPairingToken token m = (Inr es, m')"
  shows "bm_agents m' = [] \<and> (\<forall>v. validToken v m' \<longleftrightarrow> v = token) \<and> (\<forall>i. selectAgent i m' = None) \<and>
    (\<forall>i n. get (bm_agents m) i = Some n \<longrightarrow> lk_drained (bm_links m' ! n) \<and>
       (\<forall>c \<in> set (lk_calls (bm_links m' ! n)). cl_stage c = Sent \<longrightarrow> cl_chan c \<noteq> []) \<and>
       (\<forall>(j, c) \<in> set (bm_captures m'). tg_agent (ns_target (cp_session c)) \<noteq> i))"
proof -
  have inv: "agents_inv m" using mgr_inv [OF assms(1)] by simp
  let ?m = "m\<lparr>bm_token := token\<rparr>" and ?ns = "map snd (bm_agents m)"
  have m': "m' = snd (close_links ''browser pairing token rotated'' ?ns ?m)"
    using assms(2) by (simp add: SetPairingToken_def case_prod_beta split: if_splits)
  have d: "distinct ?ns" using agents_distinct [OF inv] .
  have "agents_inv ?m" using inv by simp
  note s = close_links_spec [OF this _ d, of "''browser pairing token rotated''", folded m', simplified]
  have "get (bm_agents m') i = None" for i
    using s by (metis get_SomeD image_eqI not_None_eq snd_conv)
  then have none: "bm_agents m' = []"
    by (cases "bm_agents m'") (auto, metis option.distinct(1))
  have gone: "lk_drained (bm_links m' ! n)" "n < length (bm_links m')"
    "\<forall>(j, c) \<in> set (bm_captures m'). tg_agent (ns_target (cp_session c)) \<noteq> i"
    if g: "get (bm_agents m) i = Some n" for i n
  proof -
    note n = agents_invD [OF inv g]
    have mem: "n \<in> snd ` set (bm_agents m)" using get_SomeD [OF g] by force
    then show "lk_drained (bm_links m' ! n)" "n < length (bm_links m')" using s n(1) by simp_all
    have "i \<in> link_id m ` snd ` set (bm_agents m)" using mem n(2) by blast
    then show "\<forall>(j, c) \<in> set (bm_captures m'). tg_agent (ns_target (cp_session c)) \<noteq> i"
      using s by auto
  qed
  have "agents_inv m'" using mgr_inv [OF mgr_reachable.rotate [OF assms]] by simp
  have answered: "cl_chan c \<noteq> []"
    if "get (bm_agents m) i = Some n" "c \<in> set (lk_calls (bm_links m' ! n))" "cl_stage c = Sent" for i n c
    using link_reachable_inv [OF agents_inv_links(1) [OF \<open>agents_inv m'\<close> gone(2) [OF that(1)]]]
      gone(1) [OF that(1)] that(2,3) by (auto simp: link_inv_def in_set_conv_nth)
  show ?thesis
  proof (intro conjI allI impI)
    show "validToken v m' \<longleftrightarrow> v = token" for v using s by (simp add: validToken_def)
    show "selectAgent i m' = None" for i by (simp add: selectAgent_def none)
  qed (use none gone(1,3) answered in blast)+
qed

text \<open>The concrete state of the examples: one paired agent with one capture of a plugin.\<close>

definition example_hello :: wire_message where
  "example_hello =
     \<lparr>wm_protocol = 1, wm_type = ''hello'', wm_id = '''', wm_command = '''', wm_token = ''tok'',
      wm_payload = '''', wm_error = '''', wm_sequence = 0, wm_total = 0, wm_chunk = ''''\<rparr>"

definition example_payload :: hello_payload where
  "example_payload =
     \<lparr>hp_id = ''agent-1'', hp_name = ''Chrome'', hp_version = ''1.0'', hp_capabilities = [''tab.open'']\<rparr>"

definition example_info :: agent_info where
  "example_info =
     \<lparr>ag_id = ''agent-1'', ag_name = ''Chrome'', ag_version = ''1.0'', ag_protocol = 1,
      ag_capabilities = [''tab.open''], ag_connected_at = 5, ag_last_seen_at = 5\<rparr>"

definition fresh_manager :: browser_manager where
  "fresh_manager =
     \<lparr>bm_token = ''tok'', bm_agents = [], bm_links = [], bm_presented = [], bm_captures = []\<rparr>"

definition paired_manager :: browser_manager where
  "paired_manager =
     \<lparr>bm_token = ''tok'', bm_agents = [(''agent-1'', 0)], bm_links = [new_link example_info],
      bm_presented = [''tok''], bm_captures = []\<rparr>"

definition example_request :: network_start_request where
  "example_request =
     \<lparr>sr_target = \<lparr>tg_agent = ''agent-1'', tg_window = 1, tg_tab = 2\<rparr>,
      sr_rules = [\<lparr>cr_id = ''r'', cr_url_contains = ''api'', cr_resource_type = '''', cr_max_body_bytes = 10\<rparr>],
      sr_disable_cache = False\<rparr>"

lemma trim_examples [simp]:
  "trim_space ''tok'' = ''tok''" "trim_space ''new'' = ''new''" "trim_space ''agent-1'' = ''agent-1''"
  by code_simp+

lemma accept_example:
  "accept_hello 5 example_hello (Some example_payload) fresh_manager =
     Some (0, fresh_manager\<lparr>bm_links := [new_link example_info], bm_presented := [''tok'']\<rparr>)"
  by (simp add: accept_hello_def example_hello_def example_payload_def fresh_manager_def example_info_def
      ProtocolVersion_def validToken_def validAgentHello_def maxAgentCapabilities_def)

lemma fresh_reachable: "mgr_reachable [] fresh_manager"
  by (rule mgr_reachable.start [of "''tok''"]) (simp add: NewManager_def fresh_manager_def)

lemma paired_reachable: "mgr_reachable [] paired_manager"
proof -
  let ?m = "fresh_manager\<lparr>bm_links := [new_link example_info], bm_presented := [''tok'']\<rparr>"
  have "mgr_reachable [] ?m" by (rule mgr_reachable.hello [OF fresh_reachable accept_example])
  then have "mgr_reachable [] (snd (addAgent 0 ?m))"
    by (rule mgr_reachable.add) (simp_all add: fresh_manager_def new_link_def)
  moreover have "snd (addAgent 0 ?m) = paired_manager"
    by (simp add: addAgent_def link_id_def fresh_manager_def paired_manager_def new_link_def example_info_def)
  ultimately show ?thesis by simp
qed

lemma rotation_disconnects_agents_witness:
  "bm_agents (snd (SetPairingToken ''new'' paired_manager)) = []"
proof -
  obtain es m' where r: "SetPairingToken ''new'' paired_manager = (Inr es, m')"
    by (auto simp: SetPairingToken_def case_prod_beta)
  from rotation_disconnects_agents [OF paired_reachable r] r show ?thesis by simp
qed

text \<open>
  A rotation misses a connection that is being made: when the extension's hello has been
  accepted under the old token and the token is rotated before the connection is added, the
  connection joins the agents afterwards and stays, although the token it has shown is no
  longer valid.
\<close>

theorem rotation_misses_accepted_hello:
  assumes "mgr_reachable g m" and "accept_hello now h p m = Some (n, m1)"
    and "SetPairingToken token m1 = (Inr es, m2)" and "token \<noteq> wm_token h"
  shows "\<exists>m3 i. m3 = snd (addAgent n m2) \<and> mgr_reachable g m3 \<and> get (bm_agents m3) i = Some n \<and>
    selectAgent i m3 = Some n \<and> \<not> lk_done (bm_links m3 ! n) \<and> \<not> validToken (bm_presented m3 ! n) m3"
proof -
  from assms(2) obtain info where
    m1: "m1 = m\<lparr>bm_links := bm_links m @ [new_link info], bm_presented := bm_presented m @ [wm_token h]\<rparr>"
    and n: "n = length (bm_links m)" and id: "ag_id info \<noteq> ''''" by (rule accept_helloD)
  have r1: "mgr_reachable g m1" using mgr_reachable.hello [OF assms(1,2)] .
  have inv: "agents_inv m" and inv1: "agents_inv m1" using mgr_inv [OF assms(1)] mgr_inv [OF r1] by simp_all
  have new: "n \<notin> snd ` set (bm_agents m1)"
    using agents_links [OF inv] by (auto simp: m1 n)
  let ?m = "m1\<lparr>bm_token := token\<rparr>"
  have m2: "m2 = snd (close_links ''browser pairing token rotated'' (map snd (bm_agents m1)) ?m)"
    using assms(3) by (simp add: SetPairingToken_def case_prod_beta split: if_splits)
  have "agents_inv ?m" using inv1 by simp
  note s = close_links_spec [OF this _ agents_distinct [OF inv1], of "''browser pairing token rotated''",
      folded m2, simplified]
  have l2: "bm_links m2 ! n = new_link info" "n < length (bm_links m2)" using s new by (simp_all add: m1 n)
  have none: "bm_agents m2 = []" using rotation_disconnects_agents [OF r1 assms(3)] by simp
  have pres: "bm_presented m2 ! n = wm_token h"
  proof -
    have "bm_presented (snd (close_links c ns x)) = bm_presented x" if "\<forall>k \<in> set ns. k < length (bm_links x)" for c ns x
      using that
    proof (induction ns arbitrary: x)
      case (Cons k ns)
      then show ?case
        using close_link_length [of k x c] close_link_simps(5) [of x k c] close_link_done [of x k c]
        by (cases "lk_done (bm_links x ! k)") (simp_all add: case_prod_beta Let_def)
    qed simp
    from this [of "map snd (bm_agents m1)" ?m] have "bm_presented m2 = bm_presented m1"
      using agents_links [OF inv1] by (simp add: m2)
    then show ?thesis using inv by (simp add: m1 n agents_inv_def nth_append)
  qed
  let ?m3 = "snd (addAgent n m2)"
  have m3: "?m3 = m2\<lparr>bm_agents := [(ag_id info, n)]\<rparr>"
    using none l2 by (simp add: addAgent_def link_id_def) (simp add: new_link_def)
  have "mgr_reachable g ?m3"
    by (rule mgr_reachable.add [OF mgr_reachable.rotate [OF r1 assms(3)] l2(2)])
      (simp_all add: l2 none, simp add: new_link_def)
  moreover have "get (bm_agents ?m3) (ag_id info) = Some n" by (simp add: m3)
  moreover have "\<not> lk_done (bm_links ?m3 ! n)" using l2 by (simp add: m3) (simp add: new_link_def)
  moreover have "\<not> validToken (bm_presented ?m3 ! n) ?m3" using pres s assms(4) by (simp add: m3 validToken_def)
  moreover have "selectAgent (ag_id info) ?m3 = Some n" using id by (simp add: selectAgent_def m3)
  ultimately show ?thesis by blast
qed

lemma rotation_misses_accepted_hello_witness:
  "\<exists>m. mgr_reachable [] m \<and> (\<exists>i. get (bm_agents m) i = Some 0) \<and> \<not> validToken (bm_presented m ! 0) m"
proof -
  let ?m = "fresh_manager\<lparr>bm_links := [new_link example_info], bm_presented := [''tok'']\<rparr>"
  obtain es m2 where r: "SetPairingToken ''new'' ?m = (Inr es, m2)"
    by (auto simp: SetPairingToken_def case_prod_beta)
  have "''new'' \<noteq> wm_token example_hello" by (simp add: example_hello_def)
  from rotation_misses_accepted_hello [OF fresh_reachable accept_example r this] show ?thesis by blast
qed

lemma trim_left_head:
  "\<not> ascii_space (ord a) \<Longrightarrow> ord a < 128 \<Longrightarrow> trim_left (a # s) = a # s"
  by (auto simp: trim_left.simps(2) space3_def split: list.split)

lemma trim_left_rev_plain:
  "\<forall>c \<in> set s. \<not> ascii_space (ord c) \<and> ord c < 128 \<Longrightarrow> trim_left_rev s = s"
  by (cases s) (auto simp: trim_left_rev.simps(2) space3_def split: list.split)

lemma b64_plain:
  assumes "c \<in> set (b64_encode url s)"
  shows "\<not> ascii_space (ord c) \<and> ord c < 128"
proof -
  have "\<forall>n \<in> set (map ord s). n < 256" by simp
  from b64_digits_less [OF this] assms obtain d where "d < 64" "c = b64_char url d"
    by (auto simp: b64_encode_def)
  then show ?thesis by (cases rule: ord_b64_char [of d url]) (auto simp: ascii_space_def)
qed

lemma trim_b64: "trim_space (b64_encode url s) = b64_encode url s"
  and trim_b64_line: "b64_encode url s \<noteq> [] \<Longrightarrow> trim_space (b64_encode url s @ [byte 10]) = b64_encode url s"
proof -
  let ?t = "b64_encode url s"
  have r: "trim_left_rev (rev ?t) = rev ?t" using b64_plain [of _ url s] by (intro trim_left_rev_plain) simp
  have l: "trim_left (?t @ u) = ?t @ u" if "?t \<noteq> []" for u
    using that b64_plain [of _ url s] by (cases ?t) (auto intro: trim_left_head)
  show "trim_space ?t = ?t" using r l [of "[]"] by (cases "?t = []") (simp_all add: trim_space_def)
  have "ascii_space (ord (byte 10))" by (simp add: ascii_space_def ord_byte)
  then have "trim_left_rev (byte 10 # rev ?t) = rev ?t" using r by (simp add: trim_left_rev.simps(2))
  then show "?t \<noteq> [] \<Longrightarrow> trim_space (?t @ [byte 10]) = ?t" using l [of "[byte 10]"] by (simp add: trim_space_def)
qed

text \<open>
  A pairing token survives a restart: what was generated and written, on the first start
  or by a rotation, is the token that the next start reads back, and the manager opened with
  it accepts that token.
\<close>

theorem pairing_token_survives_restart:
  assumes "GenerateToken (Some drawn) = Inr token" and "drawn \<noteq> []"
    and "writeToken io token file = (Inr (), file')" and "\<not> ti_read_fails io'"
  shows "readOrCreateToken io' other file' = (Inr token, file') \<and>
    (\<exists>m. OpenManager io' other file' = (Inr m, file') \<and> validToken token m)"
proof -
  have t: "token = b64_encode True drawn" using assms(1) by (simp add: GenerateToken_def)
  have f: "file' = Some (token @ [byte 10])"
    using assms(3) by (simp add: writeToken_def split: if_splits)
  have ne: "token \<noteq> []" using assms(2) b64_decode_encode [of True drawn] by (auto simp: t b64_decode_def)
  have "trim_space (token @ [byte 10]) = token" using ne unfolding t by (rule trim_b64_line)
  moreover have "trim_space token = token" unfolding t by (rule trim_b64)
  ultimately show ?thesis using ne assms(4)
    by (simp add: readOrCreateToken_def OpenManager_def NewManager_def f validToken_def)
qed

lemma example_token:
  "GenerateToken (Some [byte 1, byte 2, byte 3]) = Inr ''AQID''"
  by code_simp

lemma pairing_token_survives_restart_witness:
  "readOrCreateToken \<lparr>ti_read_fails = False, ti_write_fails = True, ti_rename_fails = True\<rparr> None
     (Some (''AQID'' @ [byte 10])) = (Inr ''AQID'', Some (''AQID'' @ [byte 10]))"
  using pairing_token_survives_restart [OF example_token,
      of "\<lparr>ti_read_fails = False, ti_write_fails = False, ti_rename_fails = False\<rparr>" None _
        "\<lparr>ti_read_fails = False, ti_write_fails = True, ti_rename_fails = True\<rparr>" None]
  by (simp add: writeToken_def)

subsection \<open>Properties of the agents\<close>

lemma map_insort_key: "map f (insort_key f x xs) = insort (f x) (map f xs)"
  by (induction xs) auto

lemma sort_key_map_ids: "map f (sort_key f xs) = sort (map f xs)"
  by (induction xs) (simp_all add: map_insort_key)

text \<open>
  The agent used when none is named is the first of the list that \<open>Agents\<close> shows: the
  list is in the order of the IDs and has each registered agent once, and \<open>selectAgent\<close>
  with a blank ID finds the connection of its head, or nothing when the list is empty.
\<close>

theorem default_agent_is_first:
  assumes "mgr_reachable g m"
  shows "map ag_id (Agents m) = sort (map fst (bm_agents m)) \<and> distinct (map ag_id (Agents m)) \<and>
    (case Agents m of
       [] \<Rightarrow> bm_agents m = [] \<and> selectAgent '''' m = None
     | a # _ \<Rightarrow> (\<exists>n. selectAgent '''' m = Some n \<and> lk_info (bm_links m ! n) = a \<and> \<not> lk_done (bm_links m ! n)))"
proof -
  have inv: "agents_inv m" using mgr_inv [OF assms] by simp
  let ?info = "\<lambda>(i, n). lk_info (bm_links m ! n)"
  have id: "ag_id (?info x) = fst x" if "x \<in> set (bm_agents m)" for x
  proof -
    obtain i n where "x = (i, n)" by force
    with that agents_invD(2) [OF inv, of i n] show ?thesis by (simp add: agents_get [OF inv] link_id_def)
  qed
  have "map ag_id (Agents m) = sort (map ag_id (map ?info (bm_agents m)))"
    by (simp add: Agents_def sort_key_map_ids)
  also have "map ag_id (map ?info (bm_agents m)) = map fst (bm_agents m)" using id by simp
  finally have ids: "map ag_id (Agents m) = sort (map fst (bm_agents m))" .
  have wf: "distinct (map fst (bm_agents m))" using inv by (simp add: agents_inv_def wf_map_def)
  show ?thesis
  proof (cases "Agents m")
    case Nil
    with arg_cong [OF ids, of length] have "bm_agents m = []" by simp
    with Nil ids show ?thesis by (simp add: selectAgent_def)
  next
    case (Cons a as)
    with ids have s: "sort (map fst (bm_agents m)) = ag_id a # map ag_id as" by simp
    have "a \<in> set (Agents m)" using Cons by simp
    then obtain i n where n: "(i, n) \<in> set (bm_agents m)" "a = lk_info (bm_links m ! n)"
      by (auto simp: Agents_def)
    with id [OF n(1)] have g: "get (bm_agents m) (ag_id a) = Some n"
      by (simp add: agents_get [OF inv])
    then have "selectAgent '''' m = Some n" by (simp add: selectAgent_def s)
    moreover have "distinct (map ag_id (Agents m))" using wf by (simp add: ids)
    ultimately show ?thesis using Cons n(2) ids wf agents_invD(3) [OF inv g] by simp
  qed
qed

lemma default_agent_is_first_witness:
  "\<exists>n. selectAgent '''' paired_manager = Some n \<and> lk_info (bm_links paired_manager ! n) = example_info"
proof -
  have "Agents paired_manager = [example_info]" by (simp add: Agents_def paired_manager_def new_link_def)
  with default_agent_is_first [OF paired_reachable] show ?thesis by auto
qed

text \<open>
  A newer connection of an agent replaces the older one: it becomes the connection of that
  ID, the older one is closed with its calls answered, the other agents keep theirs, and the
  captures aimed at the agent, which ran in the older connection, are removed and reported as
  stopped to their owners.
\<close>

theorem newer_connection_replaces_older:
  assumes "mgr_reachable g m" and n: "n < length (bm_links m)" "\<not> lk_done (bm_links m ! n)"
    and "n \<notin> snd ` set (bm_agents m)" and old: "get (bm_agents m) (link_id m n) = Some k"
    and r: "addAgent n m = (es, m')"
  shows "(\<forall>i. get (bm_agents m') i = (if i = link_id m n then Some n else get (bm_agents m) i)) \<and>
    lk_drained (bm_links m' ! k) \<and> bm_links m' ! n = bm_links m ! n \<and>
    (\<forall>(i, c) \<in> set (bm_captures m).
      if tg_agent (ns_target (cp_session c)) = link_id m n
      then capture_removed ''browser agent disconnected'' c \<in> set es \<and> get (bm_captures m') i = None
      else get (bm_captures m') i = Some c)"
proof -
  have inv: "agents_inv m" and cap: "captures_inv g (bm_captures m)" using mgr_inv [OF assms(1)] by simp_all
  note k = agents_invD [OF inv old]
  have kn: "k \<noteq> n" using assms(4) get_SomeD [OF old] by force
  let ?m = "m\<lparr>bm_agents := put (link_id m n) n (bm_agents m)\<rparr>"
  let ?cause = "''browser extension replaced by a newer connection''"
  have c: "close_link ?cause k ?m = (es, m')" using r old by (simp add: addAgent_def)
  have lk: "\<not> lk_done (bm_links ?m ! k)" "k < length (bm_links ?m)" using k by simp_all
  note s = close_link_simps [OF lk, of ?cause, unfolded c snd_conv]
  have ag: "get (bm_agents m') i = (if i = link_id m n then Some n else get (bm_agents m) i)" for i
    using s(3) k(2) kn by simp
  have es: "es = map (\<lambda>(i, c). capture_removed ''browser agent disconnected'' c)
      (filter (\<lambda>(i, c). tg_agent (ns_target (cp_session c)) = link_id m n) (bm_captures m)) @
    [\<lparr>se_type = ''browser.targets.changed'', se_agent = link_id m n, se_session_id = '''',
      se_payload = PAvailable False, se_owner = ''''\<rparr>]"
    using close_link_events [OF lk, of ?cause] k(2) by (simp add: c)
  have wf: "wf_map (bm_captures m)" using cap by (simp add: captures_inv_def)
  have "bm_captures m' = filter (\<lambda>(i, c). tg_agent (ns_target (cp_session c)) \<noteq> link_id m n) (bm_captures m)"
    using s(2) k(2) by simp
  then have g: "get (bm_captures m') i =
      (case get (bm_captures m) i of None \<Rightarrow> None
       | Some c \<Rightarrow> if tg_agent (ns_target (cp_session c)) \<noteq> link_id m n then Some c else None)" for i
    using filter_map_of [of "bm_captures m" "\<lambda>_ c. tg_agent (ns_target (cp_session c)) \<noteq> link_id m n" i] wf
    by (simp add: wf_map_def)
  have caps: "\<forall>(i, c) \<in> set (bm_captures m).
      if tg_agent (ns_target (cp_session c)) = link_id m n
      then capture_removed ''browser agent disconnected'' c \<in> set es \<and> get (bm_captures m') i = None
      else get (bm_captures m') i = Some c"
  proof (intro ballI, clarify)
    fix i c assume ic: "(i, c) \<in> set (bm_captures m)"
    then have "get (bm_captures m) i = Some c" using get_eq_Some_iff [OF wf] by blast
    with ic show "if tg_agent (ns_target (cp_session c)) = link_id m n
      then capture_removed ''browser agent disconnected'' c \<in> set es \<and> get (bm_captures m') i = None
      else get (bm_captures m') i = Some c"
      by (auto simp: g es image_iff intro!: bexI [of _ "(i, c)"])
  qed
  show ?thesis using ag s(1) k(1) kn caps by simp
qed

definition reconnecting_manager :: browser_manager where
  "reconnecting_manager =
     snd (begin_capture ''p'' ''s1'' 7 example_request paired_manager)
       \<lparr>bm_links := [new_link example_info, new_link example_info], bm_presented := [''tok'', ''tok'']\<rparr>"

lemma reconnecting_reachable: "mgr_reachable [(''s1'', ''p'')] reconnecting_manager"
proof -
  let ?c = "snd (begin_capture ''p'' ''s1'' 7 example_request paired_manager)"
  have c: "mgr_reachable [(''s1'', ''p'')] ?c" by (rule mgr_reachable.begin_cap [OF paired_reachable]) simp_all
  have "accept_hello 5 example_hello (Some example_payload) ?c = Some (1, reconnecting_manager)"
    by (simp add: accept_hello_def example_hello_def example_payload_def paired_manager_def example_info_def
        ProtocolVersion_def validToken_def validAgentHello_def maxAgentCapabilities_def begin_capture_def Let_def
        reconnecting_manager_def)
  from mgr_reachable.hello [OF c this] show ?thesis .
qed

lemma newer_connection_replaces_older_witness:
  "get (bm_agents (snd (addAgent 1 reconnecting_manager))) ''agent-1'' = Some 1 \<and>
   lk_drained (bm_links (snd (addAgent 1 reconnecting_manager)) ! 0)"
proof -
  obtain es m' where r: "addAgent 1 reconnecting_manager = (es, m')" by force
  have h: "1 < length (bm_links reconnecting_manager)" "\<not> lk_done (bm_links reconnecting_manager ! 1)"
    "1 \<notin> snd ` set (bm_agents reconnecting_manager)"
    "get (bm_agents reconnecting_manager) (link_id reconnecting_manager 1) = Some 0"
    "link_id reconnecting_manager 1 = ''agent-1''"
    by (simp_all add: reconnecting_manager_def begin_capture_def Let_def paired_manager_def link_id_def new_link_def
        example_info_def)
  from newer_connection_replaces_older [OF reconnecting_reachable h(1-4) r] h(5) show ?thesis
    by (simp only: r snd_conv) simp
qed

subsection \<open>Properties of captures\<close>


text \<open>The network results of a session among the events of the agents, in their order.\<close>

fun results_for :: "string \<Rightarrow> (string \<times> agent_event) list \<Rightarrow> network_result list" where
  "results_for i [] = []"
| "results_for i ((a, NetworkEvent (Some r)) # evs) =
     (if nr_session_id r = i then r # results_for i evs else results_for i evs)"
| "results_for i (_ # evs) = results_for i evs"

fun stops_session :: "string \<Rightarrow> agent_event \<Rightarrow> bool" where
  "stops_session i (NetworkStatus raw (Some s)) = (ns_id s = i \<and> ns_status s = ''stopped'')"
| "stops_session i _ = False"

definition handle_all :: "(string \<times> agent_event) list \<Rightarrow> browser_manager \<Rightarrow> browser_manager" where
  "handle_all evs m = fold (\<lambda>(a, ev) x. snd (handleEvent a ev x)) evs m"

lemma handle_all_simps [simp]:
  "handle_all [] m = m" "handle_all ((a, ev) # evs) m = handle_all evs (snd (handleEvent a ev m))"
  by (simp_all add: handle_all_def)

lemma handleEvent_other:
  assumes "get (bm_captures m) i = Some c" and "\<not> stops_session i ev"
    and "\<And>r. ev = NetworkEvent (Some r) \<Longrightarrow> nr_session_id r \<noteq> i"
  shows "get (bm_captures (snd (handleEvent a ev m))) i = Some c"
  using assms by (auto simp: handleEvent_def Let_def split: agent_event.split option.split)

text \<open>
  A capture records the first 2000 network results of its session, in the order they
  arrive, whatever other events come between, and drops the later ones; its owner does not
  change, and the stop that ends it returns exactly what it recorded.
\<close>

theorem capture_records_first_results:
  assumes "get (bm_captures m) i = Some c" and "i \<noteq> ''''" and "length (cp_events c) \<le> 2000"
    and "\<forall>(a, ev) \<in> set evs. \<not> stops_session i ev"
  shows "\<exists>c'. get (bm_captures (handle_all evs m)) i = Some c' \<and> cp_owner c' = cp_owner c \<and>
    cp_events c' = take 2000 (cp_events c @ results_for i evs) \<and>
    sp_events (fst (capture_stopped i s (handle_all evs m))) = take 2000 (cp_events c @ results_for i evs)"
  using assms(1,3,4)
proof (induction evs arbitrary: m c)
  case Nil
  then show ?case by (simp add: capture_stopped_def Let_def)
next
  case (Cons x evs)
  obtain a ev where x: "x = (a, ev)" by force
  show ?case
  proof (cases "\<exists>r. ev = NetworkEvent (Some r) \<and> nr_session_id r = i")
    case True
    then obtain r where r: "ev = NetworkEvent (Some r)" "nr_session_id r = i" by blast
    let ?c = "if length (cp_events c) < 2000
      then c\<lparr>cp_events := cp_events c @ [r],
          cp_session := (cp_session c)\<lparr>ns_count := int (Suc (length (cp_events c)))\<rparr>\<rparr> else c"
    have "get (bm_captures (snd (handleEvent a ev m))) i = Some ?c"
      using Cons.prems(1) r assms(2) by (simp add: handleEvent_def)
    from Cons.IH [OF this] Cons.prems(2,3) show ?thesis
      by (cases "length (cp_events c) < 2000") (auto simp: x r)
  next
    case False
    then have "get (bm_captures (snd (handleEvent a ev m))) i = Some c"
      using Cons.prems by (intro handleEvent_other) (auto simp: x)
    moreover have "results_for i (x # evs) = results_for i evs"
      using False by (cases "(i, x # evs)" rule: results_for.cases) (auto simp: x)
    ultimately show ?thesis using Cons.IH [of "snd (handleEvent a ev m)" c] Cons.prems(2,3)
      by (simp add: x)
  qed
qed

definition example_result :: "string \<Rightarrow> string \<Rightarrow> network_result" where
  "example_result i url =
     \<lparr>nr_session_id = i, nr_capture_id = '''', nr_url = url, nr_method = ''GET'', nr_status = 200,
      nr_status_text = ''OK'', nr_resource_type = ''XHR'', nr_mime_type = '''', nr_protocol = '''',
      nr_remote_ip = '''', nr_remote_port = 0, nr_initiator_type = '''', nr_headers = [],
      nr_request_headers = [], nr_request_body = '''', nr_request_body_truncated = False, nr_body = '''',
      nr_body_base64 = False, nr_truncated = False, nr_encoded_length = 0, nr_duration = 3,
      nr_from_disk_cache = False, nr_from_service_worker = False, nr_timing = [], nr_error = ''''\<rparr>"

lemma reconnecting_capture:
  "\<exists>c. get (bm_captures reconnecting_manager) ''s1'' = Some c \<and> cp_owner c = ''p'' \<and> cp_events c = []"
  by (simp add: reconnecting_manager_def begin_capture_def Let_def paired_manager_def)


lemma capture_records_first_results_witness:
  "\<exists>c. get (bm_captures (handle_all
        [(''agent-1'', NetworkEvent (Some (example_result ''s1'' ''u''))), (''agent-1'', TargetsChanged ''''),
         (''agent-1'', NetworkEvent (Some (example_result ''s2'' ''v''))),
         (''agent-1'', NetworkEvent (Some (example_result ''s1'' ''w'')))] reconnecting_manager)) ''s1'' = Some c \<and>
     map nr_url (cp_events c) = [''u'', ''w'']"
proof -
  obtain c where c: "get (bm_captures reconnecting_manager) ''s1'' = Some c" "cp_events c = []"
    using reconnecting_capture by blast
  let ?evs = "[(''agent-1'', NetworkEvent (Some (example_result ''s1'' ''u''))), (''agent-1'', TargetsChanged ''''),
         (''agent-1'', NetworkEvent (Some (example_result ''s2'' ''v''))),
         (''agent-1'', NetworkEvent (Some (example_result ''s1'' ''w'')))]"
  have "results_for ''s1'' ?evs = [example_result ''s1'' ''u'', example_result ''s1'' ''w'']"
    by (simp add: example_result_def)
  with capture_records_first_results [OF c(1), of ?evs zero_session] c(2) show ?thesis
    by (auto simp: example_result_def)
qed

text \<open>What a command may do to the captures of an owner meanwhile: nothing but end them.\<close>

definition only_ends :: "string \<Rightarrow> command \<Rightarrow> bool" where
  "only_ends owner send \<longleftrightarrow>
     (\<forall>s0 m e s es m' i c. send s0 m = (e, s, es, m') \<and> get (bm_captures m') i = Some c \<and> cp_owner c = owner \<longrightarrow>
        (\<exists>d. get (bm_captures m) i = Some d \<and> cp_owner d = owner))"

definition owned_by :: "string \<Rightarrow> browser_manager \<Rightarrow> string set" where
  "owned_by owner m = {i. \<exists>c. get (bm_captures m) i = Some c \<and> cp_owner c = owner}"

definition keeps_map :: "command \<Rightarrow> bool" where
  "keeps_map send \<longleftrightarrow>
     (\<forall>s0 m e s es m'. send s0 m = (e, s, es, m') \<and> wf_map (bm_captures m) \<longrightarrow> wf_map (bm_captures m'))"

lemma keeps_mapD:
  "keeps_map send \<Longrightarrow> send s0 m = (e, s, es, m') \<Longrightarrow> wf_map (bm_captures m) \<Longrightarrow> wf_map (bm_captures m')"
  unfolding keeps_map_def by fast

lemma only_endsD:
  "only_ends owner send \<Longrightarrow> send s0 m = (e, s, es, m') \<Longrightarrow> owned_by owner m' \<subseteq> owned_by owner m"
  unfolding only_ends_def owned_by_def by fast

lemma owned_by_removed:
  assumes "wf_map (bm_captures m)"
  shows "owned_by owner (snd (removeCaptures (\<lambda>c. cp_owner c = owner) reason m)) = {}"
  using filter_map_of [of "bm_captures m" "\<lambda>_ c. cp_owner c \<noteq> owner"] assms
  by (auto simp: owned_by_def wf_map_def split: option.splits if_splits)

lemma stop_each_wf:
  assumes "\<And>i. keeps_map (send i)"
    and "wf_map (bm_captures m)"
  shows "wf_map (bm_captures (snd (stop_each send owner is m)))"
  using assms(2)
proof (induction "is" arbitrary: m)
  case (Cons i "is")
  obtain e s es m1 where sd: "send i zero_session m = (e, s, es, m1)" by (cases "send i zero_session m") auto
  have "wf_map (bm_captures m1)" using keeps_mapD [OF assms(1) sd Cons.prems] .
  with Cons.IH [of "snd (snd (capture_stopped i s m1))"] Cons.prems sd show ?case
    by (cases e) (auto simp: StopNetworkCapture_def case_prod_beta capture_stopped_def Let_def split: option.split)
qed simp

lemma stop_each_spec:
  assumes "\<And>i. only_ends owner (send i)"
    and "\<And>i. keeps_map (send i)"
    and "wf_map (bm_captures m)" and "owned_by owner m \<subseteq> set is"
  shows "owned_by owner (snd (stop_each send owner is m)) = {}"
  using assms(3,4)
proof (induction "is" arbitrary: m)
  case Nil
  then show ?case by simp
next
  case (Cons i "is")
  show ?case
  proof (cases "get (bm_captures m) i")
    case None
    then show ?thesis using Cons.prems owned_by_removed [of m owner]
      by (simp add: StopNetworkCapture_def case_prod_beta)
  next
    case (Some c)
    obtain e s es m1 where sd: "send i zero_session m = (e, s, es, m1)" by (cases "send i zero_session m") auto
    have wf: "wf_map (bm_captures m1)" using keeps_mapD [OF assms(2) sd] Cons.prems(1) by simp
    have sub: "owned_by owner m1 \<subseteq> set (i # is)" using only_endsD [OF assms(1) sd] Cons.prems(2) by simp
    show ?thesis
    proof (cases e)
      case (Some err)
      then show ?thesis using \<open>get (bm_captures m) i = Some c\<close> sd owned_by_removed [OF wf, of owner]
        by (simp add: StopNetworkCapture_def case_prod_beta)
    next
      case None
      let ?m2 = "snd (snd (capture_stopped i s m1))"
      have m2: "bm_captures ?m2 = (if has_key (bm_captures m1) i then del i (bm_captures m1) else bm_captures m1)"
        by (auto simp: capture_stopped_def Let_def split: option.split)
      then have "wf_map (bm_captures ?m2)" using wf by simp
      moreover have "owned_by owner ?m2 \<subseteq> set is"
        using sub m2 by (auto simp: owned_by_def split: if_splits)
      ultimately have "owned_by owner (snd (stop_each send owner is ?m2)) = {}" by (rule Cons.IH)
      then show ?thesis using Some sd None
        by (simp add: StopNetworkCapture_def case_prod_beta)
    qed
  qed
qed

text \<open>
  When a plugin's bridge session ends, no capture of the plugin is left, whether stopping
  one fails, and then the others are removed without asking the browser, or each is stopped in
  turn. The hypothesis on the commands is that while they run the plugin, whose requests have
  been cancelled, starts no further capture.
\<close>

theorem ended_session_leaves_no_capture:
  assumes "mgr_reachable g m" and "\<And>i. only_ends plugin (send i)"
    and "\<And>i. keeps_map (send i)"
    and "stopPluginCaptures send plugin m = (es, m')"
  shows "\<forall>(i, c) \<in> set (bm_captures m'). cp_owner c \<noteq> plugin"
proof -
  have wf: "wf_map (bm_captures m)" using mgr_inv [OF assms(1)] by (simp add: captures_inv_def)
  have "owned_by plugin m \<subseteq> set (map fst (filter (\<lambda>(i, c). cp_owner c = plugin) (bm_captures m)))"
    by (force simp: owned_by_def dest: map_of_SomeD)
  from stop_each_spec [of plugin send, OF assms(2,3) wf this] have none: "owned_by plugin m' = {}"
    using assms(4) by (simp add: stopPluginCaptures_def)
  have "wf_map (bm_captures m')"
    using stop_each_wf [of send, OF assms(3) wf] assms(4) by (metis stopPluginCaptures_def snd_conv)
  then show ?thesis using none by (auto simp: owned_by_def get_eq_Some_iff)
qed

lemma ended_session_leaves_no_capture_witness:
  "bm_captures (snd (stopPluginCaptures (\<lambda>i s m. (None, s, [], m)) ''p'' reconnecting_manager)) = []"
proof -
  let ?send = "\<lambda>(i :: string) s m. (None, s, [], m)"
  obtain es m' where r: "stopPluginCaptures ?send ''p'' reconnecting_manager = (es, m')" by force
  have o: "only_ends ''p'' (?send i)" "keeps_map (?send i)" for i
    by (simp_all add: only_ends_def keeps_map_def)
  have m': "m' = snd (stopPluginCaptures ?send ''p'' reconnecting_manager)" by (simp only: r snd_conv)
  have "set (bm_captures m') \<subseteq> set (bm_captures reconnecting_manager)"
    unfolding m' by (simp add: stopPluginCaptures_def reconnecting_manager_def begin_capture_def Let_def
        paired_manager_def StopNetworkCapture_def capture_stopped_def)
  moreover have "\<forall>(i, c) \<in> set (bm_captures reconnecting_manager). cp_owner c = ''p''"
    by (simp add: reconnecting_manager_def begin_capture_def Let_def paired_manager_def)
  ultimately have "set (bm_captures m') = {}"
    using ended_session_leaves_no_capture [of _ _ "''p''" ?send, OF reconnecting_reachable o r]
    by (cases "bm_captures m'") auto
  then show ?thesis by (simp only: r snd_conv) simp
qed

end
