(* ===== verification/BrowserActions.thy ===== *)
theory BrowserActions
  imports BrowserManager GoValue Texts
begin

section \<open>The browser actions (internal/browser/actions.go, internal/browser/action_*.go)\<close>

text \<open>
  The catalogue of the actions a browser can be asked for, the normalisation of a request and
  its validation. Parameters are dynamically typed: \<open>PVal\<close> is what \<open>encoding/json\<close> decodes or a
  default of the catalogue, \<open>PNumber\<close> a \<open>json.Number\<close>, which the API's decoder produces. The
  descriptors keep what the server and the checks use; labels, descriptions, placeholders, icons,
  visibility conditions, selector candidates and other hints for the form are left out. \<open>url\<close> stands
  for \<open>net/url.Parse\<close>: the scheme and the host of a text, or \<open>None\<close> when it does not parse.
\<close>

subsection \<open>Data\<close>

datatype param_value = PVal val | PNumber string

type_synonym params = "param_value go_map"
type_synonym url_parser = "string \<Rightarrow> (string \<times> string) option"

datatype parameter_type =
    PTString | PTText | PTList | PTMap | PTBoolean | PTInteger | PTNumber | PTURL | PTJSON | PTDuration
  | PTBrowserWindow | PTBrowserTab | PTCSSSelector

record param_descriptor =
  pd_key :: string
  pd_type :: parameter_type
  pd_required :: bool
  pd_default :: "val option"
  pd_secret :: bool
  pd_options :: "(string \<times> string) list"
  pd_minimum :: "rat option"
  pd_maximum :: "rat option"

record action_definition =
  ad_type :: string
  ad_category :: string
  ad_capability :: string
  ad_result_type :: string
  ad_target_mode :: string
  ad_destructive :: bool
  ad_sensitive :: bool
  ad_parameters :: "param_descriptor list"

datatype action_error =
    NegativeTarget
  | UnsupportedAction string
  | ActionIDTooLong
  | TabRequired string
  | WindowRequired string
  | BadParameter string action_error
  | InvalidURL
  | InvalidTitle
  | InvalidColor
  | InvalidMode
  | InvalidFormat
  | SelectorInvalid
  | ExpressionInvalid
  | NumberRequired string
  | NumberOutOfRange string
  | ChoiceInvalid string
  | StringInvalid string
  | StringTooLong string
  | NotBoolean string

record action_spec =
  as_definition :: action_definition
  as_validate :: "url_parser \<Rightarrow> params \<Rightarrow> action_error + unit"

record browser_action =
  ba_id :: string
  ba_type :: string
  ba_params :: params

record action_request =
  rq_target :: browser_target
  rq_timeout_ms :: int
  rq_action :: browser_action

subsection \<open>Reading parameters\<close>

definition stringParamRaw :: "params \<Rightarrow> string \<Rightarrow> string" where
  "stringParamRaw ps k = (case get ps k of Some (PVal (VStr s)) \<Rightarrow> s | _ \<Rightarrow> '''')"

definition stringParam :: "params \<Rightarrow> string \<Rightarrow> string" where
  "stringParam ps k = trim_space (stringParamRaw ps k)"

definition numberParam :: "params \<Rightarrow> string \<Rightarrow> f64 option" where
  "numberParam ps k =
     (case get ps k of
        Some (PVal (VInt i)) \<Rightarrow> Some (f64_of_int i)
      | Some (PVal (VI64 i)) \<Rightarrow> Some (f64_of_int i)
      | Some (PVal (VNum x)) \<Rightarrow> Some x
      | Some (PNumber s) \<Rightarrow> (case parse_float s of Inr x \<Rightarrow> Some x | Inl _ \<Rightarrow> None)
      | _ \<Rightarrow> None)"

subsection \<open>Checks of one parameter\<close>

definition validateNumberRange ::
    "params \<Rightarrow> string \<Rightarrow> rat \<Rightarrow> rat \<Rightarrow> bool \<Rightarrow> action_error + unit" where
  "validateNumberRange ps k minimum maximum optional =
     (case numberParam ps k of
        None \<Rightarrow> if optional then Inr () else Inl (NumberRequired k)
      | Some x \<Rightarrow>
          if f64_lt x (Fin minimum) \<or> f64_gt x (Fin maximum) then Inl (NumberOutOfRange k) else Inr ())"

definition validateChoice :: "params \<Rightarrow> string \<Rightarrow> bool \<Rightarrow> string list \<Rightarrow> action_error + unit" where
  "validateChoice ps k required values =
     (let v = stringParam ps k in
      if v = '''' \<and> \<not> required then Inr ()
      else if v = '''' \<or> v \<notin> set values then Inl (ChoiceInvalid k)
      else Inr ())"

definition validateRequiredString :: "params \<Rightarrow> string \<Rightarrow> nat \<Rightarrow> action_error + unit" where
  "validateRequiredString ps k maximum =
     (let v = stringParam ps k in
      if v = '''' \<or> length v > maximum then Inl (StringInvalid k) else Inr ())"

text \<open>\<open>ranges\<close> is a map in the code; of several bad values any one may be reported.\<close>

fun validateOptionalNumbers :: "params \<Rightarrow> (string \<times> rat \<times> rat) list \<Rightarrow> action_error + unit" where
  "validateOptionalNumbers ps [] = Inr ()"
| "validateOptionalNumbers ps ((k, lo, hi) # ranges) =
     (if get ps k = None \<or> get ps k = Some (PVal VNil) \<or> get ps k = Some (PVal (VStr ''''))
      then validateOptionalNumbers ps ranges
      else ok_then (validateNumberRange ps k lo hi False) (\<lambda>_. validateOptionalNumbers ps ranges))"

fun validateOptionalBooleans :: "params \<Rightarrow> string list \<Rightarrow> action_error + unit" where
  "validateOptionalBooleans ps [] = Inr ()"
| "validateOptionalBooleans ps (k # ks) =
     (case get ps k of
        None \<Rightarrow> validateOptionalBooleans ps ks
      | Some (PVal VNil) \<Rightarrow> validateOptionalBooleans ps ks
      | Some (PVal (VBool b)) \<Rightarrow> validateOptionalBooleans ps ks
      | _ \<Rightarrow> Inl (NotBoolean k))"

text \<open>The checks \<open>len(stringParamRaw(params, key)) > n\<close> of several keys, one after the other.\<close>

fun validateShortStrings :: "params \<Rightarrow> string list \<Rightarrow> nat \<Rightarrow> action_error + unit" where
  "validateShortStrings ps [] n = Inr ()"
| "validateShortStrings ps (k # ks) n =
     (if length (stringParamRaw ps k) > n then Inl (StringTooLong k) else validateShortStrings ps ks n)"

definition validateHTTPURL :: "url_parser \<Rightarrow> string \<Rightarrow> bool \<Rightarrow> action_error + unit" where
  "validateHTTPURL url v allowBlank =
     (if v = '''' \<and> allowBlank then Inr ()
      else case url v of
        None \<Rightarrow> Inl InvalidURL
      | Some (scheme, host) \<Rightarrow>
          if (scheme \<noteq> ''http'' \<and> scheme \<noteq> ''https'' \<and> \<not> (allowBlank \<and> v = ''about:blank'')) \<or>
             (host = '''' \<and> v \<noteq> ''about:blank'')
          then Inl InvalidURL else Inr ())"

definition validateSelector :: "params \<Rightarrow> action_error + unit" where
  "validateSelector ps =
     (let s = stringParam ps ''selector'' in
      if s = '''' \<or> length s > 4096 then Inl SelectorInvalid else Inr ())"

definition validateExpression :: "params \<Rightarrow> action_error + unit" where
  "validateExpression ps =
     (let s = stringParam ps ''expression'' in
      if s = '''' \<or> length s > 100000 then Inl ExpressionInvalid else Inr ())"

definition noValidation :: "url_parser \<Rightarrow> params \<Rightarrow> action_error + unit" where
  "noValidation url ps = Inr ()"

subsection \<open>Checks of an action\<close>

text \<open>How \<open>validateTabOpen\<close> and \<open>validateWindowOpen\<close> begin.\<close>

definition validateOptionalURL :: "url_parser \<Rightarrow> params \<Rightarrow> action_error + unit" where
  "validateOptionalURL url ps =
     (if stringParam ps ''url'' \<noteq> '''' then validateHTTPURL url (stringParam ps ''url'') True else Inr ())"

definition validateTabOpen :: "url_parser \<Rightarrow> params \<Rightarrow> action_error + unit" where
  "validateTabOpen url ps =
     ok_then (validateOptionalURL url ps) (\<lambda>_. validateOptionalBooleans ps [''active'', ''wait''])"

definition group_colors :: "string list" where
  "group_colors =
     [''grey'', ''blue'', ''red'', ''yellow'', ''green'', ''pink'', ''purple'', ''cyan'', ''orange'']"

definition validateTabGroup :: "params \<Rightarrow> action_error + unit" where
  "validateTabGroup ps =
     (let title = trim_space (stringParam ps ''title''); color = stringParam ps ''color'' in
      if title = '''' \<or> length title > 128 then Inl InvalidTitle
      else if color \<noteq> '''' \<and> color \<notin> set group_colors then Inl InvalidColor
      else validateOptionalBooleans ps [''collapsed'', ''reuse_group''])"

text \<open>The mode that \<open>validatePageWait\<close> assumes when none is given.\<close>

definition wait_mode :: "params \<Rightarrow> string" where
  "wait_mode ps =
     (if stringParam ps ''mode'' \<noteq> '''' then stringParam ps ''mode''
      else if stringParam ps ''selector'' \<noteq> '''' then ''selector''
      else if has_key ps ''duration_ms'' then ''duration''
      else ''load'')"

definition validatePageWait :: "params \<Rightarrow> action_error + unit" where
  "validatePageWait ps =
     (let mode = wait_mode ps in
      if mode = ''load'' then Inr ()
      else if mode \<in> {''selector'', ''visible'', ''hidden''} then
        ok_then (validateSelector ps) (\<lambda>_. validateNumberRange ps ''timeout_ms'' 100 300000 True)
      else if mode \<in> {''text'', ''url'', ''title''} then
        ok_then (validateRequiredString ps ''value'' 4096)
          (\<lambda>_. validateNumberRange ps ''timeout_ms'' 100 300000 True)
      else if mode = ''duration'' then validateNumberRange ps ''duration_ms'' 0 300000 False
      else Inl InvalidMode)"

definition validateScreenshot :: "params \<Rightarrow> action_error + unit" where
  "validateScreenshot ps =
     (let format = stringParam ps ''format'' in
      if format \<noteq> '''' \<and> format \<noteq> ''png'' \<and> format \<noteq> ''jpeg'' \<and> format \<noteq> ''webp'' then Inl InvalidFormat
      else ok_then (validateNumberRange ps ''quality'' 1 100 True)
        (\<lambda>_. validateOptionalBooleans ps [''full_page'']))"

definition validateWindowOpen :: "url_parser \<Rightarrow> params \<Rightarrow> action_error + unit" where
  "validateWindowOpen url ps =
     ok_then (validateOptionalURL url ps) (\<lambda>_.
     ok_then (validateChoice ps ''type'' False [''normal'', ''popup'']) (\<lambda>_.
     ok_then (validateChoice ps ''state'' False [''normal'', ''minimized'', ''maximized'', ''fullscreen'']) (\<lambda>_.
     validateOptionalNumbers ps
       [(''width'', 100, 10000), (''height'', 100, 10000), (''left'', - 10000, 10000), (''top'', - 10000, 10000)])))"

definition validateWindowResize :: "params \<Rightarrow> action_error + unit" where
  "validateWindowResize ps =
     ok_then (validateNumberRange ps ''width'' 100 10000 False) (\<lambda>_.
     ok_then (validateNumberRange ps ''height'' 100 10000 False) (\<lambda>_.
     validateOptionalNumbers ps [(''left'', - 10000, 10000), (''top'', - 10000, 10000)]))"

definition validateTabMove :: "params \<Rightarrow> action_error + unit" where
  "validateTabMove ps =
     validateOptionalNumbers ps [(''destination_window_id'', 1, 2147483647), (''index'', - 1, 100000)]"

definition validatePageScroll :: "params \<Rightarrow> action_error + unit" where
  "validatePageScroll ps =
     ok_then (validateChoice ps ''mode'' False [''absolute'', ''relative'', ''top'', ''bottom'']) (\<lambda>_.
     ok_then (validateChoice ps ''behavior'' False [''auto'', ''smooth'']) (\<lambda>_.
     validateOptionalNumbers ps [(''x'', - 10000000, 10000000), (''y'', - 10000000, 10000000)]))"

definition validateDOMQueryAll :: "params \<Rightarrow> action_error + unit" where
  "validateDOMQueryAll ps =
     ok_then (validateSelector ps) (\<lambda>_.
     ok_then (validateNumberRange ps ''limit'' 1 500 True) (\<lambda>_.
     validateNumberRange ps ''max_length'' 64 65536 True))"

definition validateDOMSelect :: "params \<Rightarrow> action_error + unit" where
  "validateDOMSelect ps =
     ok_then (validateSelector ps) (\<lambda>_. validateRequiredString ps ''value'' 1048576)"

definition validateDOMAttribute :: "params \<Rightarrow> bool \<Rightarrow> action_error + unit" where
  "validateDOMAttribute ps requireValue =
     ok_then (validateSelector ps) (\<lambda>_.
     ok_then (validateRequiredString ps ''name'' 256) (\<lambda>_.
     if requireValue then validateShortStrings ps [''value''] 1048576 else Inr ()))"

definition validateDOMDispatchEvent :: "params \<Rightarrow> action_error + unit" where
  "validateDOMDispatchEvent ps =
     ok_then (validateSelector ps) (\<lambda>_.
     ok_then (validateChoice ps ''event'' True [''input'', ''change'', ''blur'', ''focus'', ''submit'', ''reset'']) (\<lambda>_.
     validateOptionalBooleans ps [''bubbles'', ''cancelable'']))"

definition validateDOMScrollIntoView :: "params \<Rightarrow> action_error + unit" where
  "validateDOMScrollIntoView ps =
     ok_then (validateSelector ps) (\<lambda>_.
     ok_then (validateChoice ps ''block'' False [''start'', ''center'', ''end'', ''nearest'']) (\<lambda>_.
     ok_then (validateChoice ps ''inline'' False [''start'', ''center'', ''end'', ''nearest'']) (\<lambda>_.
     validateChoice ps ''behavior'' False [''auto'', ''smooth''])))"

definition validateInputClick :: "params \<Rightarrow> action_error + unit" where
  "validateInputClick ps =
     ok_then (validateSelector ps) (\<lambda>_.
     ok_then (validateChoice ps ''button'' False [''left'', ''right'', ''middle'']) (\<lambda>_.
     validateNumberRange ps ''click_count'' 1 3 True))"

definition validateInputType :: "params \<Rightarrow> action_error + unit" where
  "validateInputType ps =
     ok_then (validateSelector ps) (\<lambda>_.
     ok_then (validateShortStrings ps [''text''] 100000) (\<lambda>_.
     ok_then (validateNumberRange ps ''interval_ms'' 0 5000 True) (\<lambda>_.
     validateOptionalBooleans ps [''clear''])))"

definition validateInputKey :: "params \<Rightarrow> action_error + unit" where
  "validateInputKey ps =
     ok_then (validateRequiredString ps ''key'' 128) (\<lambda>_.
     ok_then (validateShortStrings ps [''code'', ''text'', ''modifiers''] 256) (\<lambda>_.
     validateNumberRange ps ''repeat'' 1 100 True))"

definition validateInputWheel :: "params \<Rightarrow> action_error + unit" where
  "validateInputWheel ps =
     (if length (stringParam ps ''selector'') > 4096 then Inl (StringTooLong ''selector'')
      else validateOptionalNumbers ps
        [(''delta_x'', - 1000000, 1000000), (''delta_y'', - 1000000, 1000000)])"

definition validateCookieSet :: "params \<Rightarrow> action_error + unit" where
  "validateCookieSet ps =
     ok_then (validateRequiredString ps ''name'' 256) (\<lambda>_.
     ok_then (validateShortStrings ps [''value''] 16384) (\<lambda>_.
     ok_then (validateShortStrings ps [''domain'', ''path''] 2048) (\<lambda>_.
     ok_then (validateChoice ps ''same_site'' False [''unspecified'', ''no_restriction'', ''lax'', ''strict'']) (\<lambda>_.
     ok_then (validateNumberRange ps ''expiration_date'' 0 253402300799 True) (\<lambda>_.
     validateOptionalBooleans ps [''secure'', ''http_only''])))))"

definition validateStorageGet :: "params \<Rightarrow> action_error + unit" where
  "validateStorageGet ps =
     ok_then (validateChoice ps ''area'' False [''local'', ''session'']) (\<lambda>_.
     ok_then (validateShortStrings ps [''key''] 1048576) (\<lambda>_.
     validateNumberRange ps ''max_value_length'' 1 1048576 True))"

definition validateStorageMutation :: "params \<Rightarrow> action_error + unit" where
  "validateStorageMutation ps =
     ok_then (validateChoice ps ''area'' False [''local'', ''session'']) (\<lambda>_.
     ok_then (validateRequiredString ps ''key'' 1048576) (\<lambda>_.
     validateShortStrings ps [''value''] 1048576))"

definition validateDOMQuery :: "params \<Rightarrow> action_error + unit" where
  "validateDOMQuery ps =
     ok_then (validateSelector ps) (\<lambda>_. validateNumberRange ps ''max_length'' 256 1048576 True)"

subsection \<open>The catalogue\<close>

definition param :: "string \<Rightarrow> parameter_type \<Rightarrow> param_descriptor" where
  "param k t =
     \<lparr>pd_key = k, pd_type = t, pd_required = False, pd_default = None, pd_secret = False,
      pd_options = [], pd_minimum = None, pd_maximum = None\<rparr>"

definition txt_all :: string where "txt_all = utf8 [229, 133, 168, 233, 131, 168]"

definition options :: "string list \<Rightarrow> (string \<times> string) list" where
  "options values = map (\<lambda>v. (v, if v = '''' then txt_all else v)) values"

fun labeledOptions :: "string list \<Rightarrow> (string \<times> string) list" where
  "labeledOptions (v # l # rest) = (v, l) # labeledOptions rest"
| "labeledOptions _ = []"

definition windowStateOptions :: "(string \<times> string) list" where
  "windowStateOptions = labeledOptions
     [''normal'', utf8 [230, 153, 174, 233, 128, 154], ''minimized'', utf8 [230, 156, 128, 229, 176, 143, 229, 140, 150], ''maximized'', utf8 [230, 156, 128, 229, 164, 167, 229, 140, 150], ''fullscreen'', utf8 [229, 133, 168, 229, 177, 143]]"

definition storageAreaOptions :: "(string \<times> string) list" where
  "storageAreaOptions = labeledOptions [''local'', ''localStorage'', ''session'', ''sessionStorage'']"

definition selectorParameter :: param_descriptor where
  "selectorParameter = (param ''selector'' PTCSSSelector)\<lparr>pd_required := True\<rparr>"

definition interactiveSelectorParameters :: "param_descriptor list" where
  "interactiveSelectorParameters = [selectorParameter]"

definition genericSelectorParameters :: "param_descriptor list" where
  "genericSelectorParameters = [selectorParameter]"

definition selectorParameters :: "param_descriptor list" where
  "selectorParameters = interactiveSelectorParameters"

definition newAction ::
    "string \<Rightarrow> string \<Rightarrow> string \<Rightarrow> string \<Rightarrow> bool \<Rightarrow> param_descriptor list \<Rightarrow>
     (url_parser \<Rightarrow> params \<Rightarrow> action_error + unit) \<Rightarrow> action_spec" where
  "newAction actionType category resultType targetMode destructive parameters validate =
     \<lparr>as_definition =
        \<lparr>ad_type = actionType, ad_category = category, ad_capability = actionType,
         ad_result_type = resultType, ad_target_mode = targetMode, ad_destructive = destructive,
         ad_sensitive = False, ad_parameters = parameters\<rparr>,
      as_validate = validate\<rparr>"

definition sensitiveAction :: "action_spec \<Rightarrow> action_spec" where
  "sensitiveAction s = s\<lparr>as_definition := (as_definition s)\<lparr>ad_sensitive := True\<rparr>\<rparr>"

definition cookieClearAction :: action_spec where
  "cookieClearAction =
     sensitiveAction (newAction ''cookie.clear'' ''cookie'' ''status'' ''tab_required'' True []
       noValidation)"

definition cookieDeleteAction :: action_spec where
  "cookieDeleteAction =
     sensitiveAction (newAction ''cookie.delete'' ''cookie'' ''status'' ''tab_required'' True
       [(param ''name'' PTString)\<lparr>pd_required := True\<rparr>,
        param ''store_id'' PTString]
       (\<lambda>_ ps. validateRequiredString ps ''name'' 256))"

definition cookieListAction :: action_spec where
  "cookieListAction =
     sensitiveAction (newAction ''cookie.list'' ''cookie'' ''cookies'' ''tab_required'' False
       [param ''name'' PTString]
       noValidation)"

definition cookieSetAction :: action_spec where
  "cookieSetAction =
     sensitiveAction (newAction ''cookie.set'' ''cookie'' ''cookie'' ''tab_required'' True
       [(param ''name'' PTString)\<lparr>pd_required := True\<rparr>,
        (param ''value'' PTText)\<lparr>pd_required := True, pd_secret := True\<rparr>,
        param ''domain'' PTString,
        (param ''path'' PTString)\<lparr>pd_default := Some (VStr ''/'')\<rparr>,
        (param ''same_site'' PTList)\<lparr>pd_default := Some (VStr ''unspecified''), pd_options := options [''unspecified'', ''no_restriction'', ''lax'', ''strict'']\<rparr>,
        (param ''secure'' PTBoolean)\<lparr>pd_default := Some (VBool False)\<rparr>,
        (param ''http_only'' PTBoolean)\<lparr>pd_default := Some (VBool False)\<rparr>,
        (param ''expiration_date'' PTNumber)\<lparr>pd_minimum := Some 0\<rparr>]
       (\<lambda>_. validateCookieSet))"

definition domBlurAction :: action_spec where
  "domBlurAction =
     newAction ''dom.blur'' ''dom'' ''status'' ''tab_required'' False genericSelectorParameters
       (\<lambda>_. validateSelector)"

definition domCheckAction :: action_spec where
  "domCheckAction =
     newAction ''dom.check'' ''dom'' ''status'' ''tab_required'' False
       [(param ''selector'' PTCSSSelector)\<lparr>pd_required := True\<rparr>,
        (param ''checked'' PTBoolean)\<lparr>pd_default := Some (VBool True)\<rparr>]
       (\<lambda>_ ps. ok_then (validateSelector ps) (\<lambda>_. validateOptionalBooleans ps [''checked'']))"

definition domClickAction :: action_spec where
  "domClickAction =
     newAction ''dom.click'' ''dom'' ''status'' ''tab_required'' False selectorParameters
       (\<lambda>_. validateSelector)"

definition domDispatchEventAction :: action_spec where
  "domDispatchEventAction =
     newAction ''dom.dispatch_event'' ''dom'' ''status'' ''tab_required'' False
       [(param ''selector'' PTCSSSelector)\<lparr>pd_required := True\<rparr>,
        (param ''event'' PTList)\<lparr>pd_required := True, pd_default := Some (VStr ''change''), pd_options := options [''input'', ''change'', ''blur'', ''focus'', ''submit'', ''reset'']\<rparr>,
        (param ''bubbles'' PTBoolean)\<lparr>pd_default := Some (VBool True)\<rparr>,
        (param ''cancelable'' PTBoolean)\<lparr>pd_default := Some (VBool True)\<rparr>]
       (\<lambda>_. validateDOMDispatchEvent)"

definition domDocumentAction :: action_spec where
  "domDocumentAction =
     newAction ''dom.document'' ''dom'' ''document'' ''tab_required'' False
       [(param ''max_length'' PTInteger)\<lparr>pd_default := Some (VInt 262144), pd_minimum := Some 1024, pd_maximum := Some 1048576\<rparr>]
       (\<lambda>_ ps. validateNumberRange ps ''max_length'' 1024 1048576 True)"

definition domFocusAction :: action_spec where
  "domFocusAction =
     newAction ''dom.focus'' ''dom'' ''status'' ''tab_required'' False genericSelectorParameters
       (\<lambda>_. validateSelector)"

definition domInputAction :: action_spec where
  "domInputAction =
     newAction ''dom.input'' ''dom'' ''status'' ''tab_required'' False
       [(param ''selector'' PTCSSSelector)\<lparr>pd_required := True\<rparr>,
        (param ''value'' PTText)\<lparr>pd_default := Some (VStr '''')\<rparr>]
       (\<lambda>_. validateSelector)"

definition domQueryAction :: action_spec where
  "domQueryAction =
     newAction ''dom.query'' ''dom'' ''element'' ''tab_required'' False
       [(param ''selector'' PTCSSSelector)\<lparr>pd_required := True\<rparr>,
        (param ''max_length'' PTInteger)\<lparr>pd_default := Some (VInt 65536), pd_minimum := Some 256, pd_maximum := Some 1048576\<rparr>]
       (\<lambda>_. validateDOMQuery)"

definition domQueryAllAction :: action_spec where
  "domQueryAllAction =
     newAction ''dom.query_all'' ''dom'' ''elements'' ''tab_required'' False
       [(param ''selector'' PTCSSSelector)\<lparr>pd_required := True\<rparr>,
        (param ''limit'' PTInteger)\<lparr>pd_default := Some (VInt 50), pd_minimum := Some 1, pd_maximum := Some 500\<rparr>,
        (param ''max_length'' PTInteger)\<lparr>pd_default := Some (VInt 4096), pd_minimum := Some 64, pd_maximum := Some 65536\<rparr>]
       (\<lambda>_. validateDOMQueryAll)"

definition domRemoveAttributeAction :: action_spec where
  "domRemoveAttributeAction =
     newAction ''dom.remove_attribute'' ''dom'' ''status'' ''tab_required'' False
       [(param ''selector'' PTCSSSelector)\<lparr>pd_required := True\<rparr>,
        (param ''name'' PTString)\<lparr>pd_required := True\<rparr>]
       (\<lambda>_ ps. validateDOMAttribute ps False)"

definition domScrollIntoViewAction :: action_spec where
  "domScrollIntoViewAction =
     newAction ''dom.scroll_into_view'' ''dom'' ''status'' ''tab_required'' False
       [(param ''selector'' PTCSSSelector)\<lparr>pd_required := True\<rparr>,
        (param ''block'' PTList)\<lparr>pd_default := Some (VStr ''center''), pd_options := options [''start'', ''center'', ''end'', ''nearest'']\<rparr>,
        (param ''inline'' PTList)\<lparr>pd_default := Some (VStr ''nearest''), pd_options := options [''start'', ''center'', ''end'', ''nearest'']\<rparr>,
        (param ''behavior'' PTList)\<lparr>pd_default := Some (VStr ''auto''), pd_options := labeledOptions [''auto'', utf8 [231, 171, 139, 229, 141, 179], ''smooth'', utf8 [229, 185, 179, 230, 187, 145]]\<rparr>]
       (\<lambda>_. validateDOMScrollIntoView)"

definition domSelectAction :: action_spec where
  "domSelectAction =
     newAction ''dom.select'' ''dom'' ''status'' ''tab_required'' False
       [(param ''selector'' PTCSSSelector)\<lparr>pd_required := True\<rparr>,
        (param ''value'' PTString)\<lparr>pd_required := True\<rparr>]
       (\<lambda>_. validateDOMSelect)"

definition domSetAttributeAction :: action_spec where
  "domSetAttributeAction =
     newAction ''dom.set_attribute'' ''dom'' ''status'' ''tab_required'' False
       [(param ''selector'' PTCSSSelector)\<lparr>pd_required := True\<rparr>,
        (param ''name'' PTString)\<lparr>pd_required := True\<rparr>,
        (param ''value'' PTText)\<lparr>pd_default := Some (VStr '''')\<rparr>]
       (\<lambda>_ ps. validateDOMAttribute ps True)"

definition domSubmitAction :: action_spec where
  "domSubmitAction =
     newAction ''dom.submit'' ''dom'' ''status'' ''tab_required'' False
       [selectorParameter]
       (\<lambda>_. validateSelector)"

definition inputClickAction :: action_spec where
  "inputClickAction =
     newAction ''input.click'' ''input'' ''status'' ''tab_required'' False
       [(param ''selector'' PTCSSSelector)\<lparr>pd_required := True\<rparr>,
        (param ''button'' PTList)\<lparr>pd_default := Some (VStr ''left''), pd_options := options [''left'', ''right'', ''middle'']\<rparr>,
        (param ''click_count'' PTInteger)\<lparr>pd_default := Some (VInt 1), pd_minimum := Some 1, pd_maximum := Some 3\<rparr>]
       (\<lambda>_. validateInputClick)"

definition inputHoverAction :: action_spec where
  "inputHoverAction =
     newAction ''input.hover'' ''input'' ''status'' ''tab_required'' False interactiveSelectorParameters
       (\<lambda>_. validateSelector)"

definition inputKeyAction :: action_spec where
  "inputKeyAction =
     newAction ''input.key'' ''input'' ''status'' ''tab_required'' False
       [(param ''key'' PTString)\<lparr>pd_required := True\<rparr>,
        param ''code'' PTString,
        param ''text'' PTString,
        param ''modifiers'' PTString,
        (param ''repeat'' PTInteger)\<lparr>pd_default := Some (VInt 1), pd_minimum := Some 1, pd_maximum := Some 100\<rparr>]
       (\<lambda>_. validateInputKey)"

definition inputTypeAction :: action_spec where
  "inputTypeAction =
     newAction ''input.type'' ''input'' ''status'' ''tab_required'' False
       [(param ''selector'' PTCSSSelector)\<lparr>pd_required := True\<rparr>,
        (param ''text'' PTText)\<lparr>pd_default := Some (VStr '''')\<rparr>,
        (param ''clear'' PTBoolean)\<lparr>pd_default := Some (VBool False)\<rparr>,
        (param ''interval_ms'' PTDuration)\<lparr>pd_default := Some (VInt 20), pd_minimum := Some 0, pd_maximum := Some 5000\<rparr>]
       (\<lambda>_. validateInputType)"

definition inputWheelAction :: action_spec where
  "inputWheelAction =
     newAction ''input.wheel'' ''input'' ''status'' ''tab_required'' False
       [param ''selector'' PTCSSSelector,
        (param ''delta_x'' PTInteger)\<lparr>pd_default := Some (VInt 0), pd_minimum := Some (- 1000000), pd_maximum := Some 1000000\<rparr>,
        (param ''delta_y'' PTInteger)\<lparr>pd_default := Some (VInt 600), pd_minimum := Some (- 1000000), pd_maximum := Some 1000000\<rparr>]
       (\<lambda>_. validateInputWheel)"

definition pageInfoAction :: action_spec where
  "pageInfoAction =
     newAction ''page.info'' ''page'' ''page'' ''tab_required'' False []
       noValidation"

definition pagePerformanceAction :: action_spec where
  "pagePerformanceAction =
     newAction ''page.performance'' ''page'' ''performance'' ''tab_required'' False []
       noValidation"

definition pageScreenshotAction :: action_spec where
  "pageScreenshotAction =
     newAction ''page.screenshot'' ''page'' ''screenshot'' ''tab_required'' False
       [(param ''format'' PTList)\<lparr>pd_default := Some (VStr ''png''), pd_options := [(''png'', ''PNG''), (''jpeg'', ''JPEG''), (''webp'', ''WebP'')]\<rparr>,
        (param ''quality'' PTInteger)\<lparr>pd_default := Some (VInt 90), pd_minimum := Some 1, pd_maximum := Some 100\<rparr>,
        (param ''full_page'' PTBoolean)\<lparr>pd_default := Some (VBool False)\<rparr>]
       (\<lambda>_. validateScreenshot)"

definition pageScrollAction :: action_spec where
  "pageScrollAction =
     newAction ''page.scroll'' ''page'' ''page'' ''tab_required'' False
       [(param ''mode'' PTList)\<lparr>pd_default := Some (VStr ''relative''), pd_options := labeledOptions [''absolute'', utf8 [231, 187, 157, 229, 175, 185, 228, 189, 141, 231, 189, 174], ''relative'', utf8 [231, 155, 184, 229, 175, 185, 232, 183, 157, 231, 166, 187], ''top'', utf8 [233, 161, 181, 233, 157, 162, 233, 161, 182, 233, 131, 168], ''bottom'', utf8 [233, 161, 181, 233, 157, 162, 229, 186, 149, 233, 131, 168]]\<rparr>,
        (param ''x'' PTInteger)\<lparr>pd_default := Some (VInt 0), pd_minimum := Some (- 10000000), pd_maximum := Some 10000000\<rparr>,
        (param ''y'' PTInteger)\<lparr>pd_default := Some (VInt 600), pd_minimum := Some (- 10000000), pd_maximum := Some 10000000\<rparr>,
        (param ''behavior'' PTList)\<lparr>pd_default := Some (VStr ''auto''), pd_options := labeledOptions [''auto'', utf8 [231, 171, 139, 229, 141, 179], ''smooth'', utf8 [229, 185, 179, 230, 187, 145]]\<rparr>]
       (\<lambda>_. validatePageScroll)"

definition pageStopLoadingAction :: action_spec where
  "pageStopLoadingAction =
     newAction ''page.stop_loading'' ''page'' ''status'' ''tab_required'' False []
       noValidation"

definition pageWaitAction :: action_spec where
  "pageWaitAction =
     newAction ''page.wait'' ''page'' ''status'' ''tab_required'' False
       [(param ''mode'' PTList)\<lparr>pd_default := Some (VStr ''load''), pd_options := [(''load'', utf8 [233, 161, 181, 233, 157, 162, 229, 138, 160, 232, 189, 189]), (''selector'', utf8 [229, 133, 131, 231, 180, 160, 229, 135, 186, 231, 142, 176]), (''visible'', utf8 [229, 133, 131, 231, 180, 160, 229, 143, 175, 232, 167, 129]), (''hidden'', utf8 [229, 133, 131, 231, 180, 160, 233, 154, 144, 232, 151, 143]), (''text'', utf8 [233, 161, 181, 233, 157, 162, 229, 140, 133, 229, 144, 171, 230, 150, 135, 230, 156, 172]), (''url'', utf8 [229, 156, 176, 229, 157, 128, 229, 140, 133, 229, 144, 171, 230, 150, 135, 230, 156, 172]), (''title'', utf8 [230, 160, 135, 233, 162, 152, 229, 140, 133, 229, 144, 171, 230, 150, 135, 230, 156, 172]), (''duration'', utf8 [229, 155, 186, 229, 174, 154, 230, 151, 182, 233, 149, 191])]\<rparr>,
        param ''selector'' PTCSSSelector,
        param ''value'' PTString,
        (param ''timeout_ms'' PTDuration)\<lparr>pd_default := Some (VInt 60000), pd_minimum := Some 100, pd_maximum := Some 300000\<rparr>,
        (param ''duration_ms'' PTDuration)\<lparr>pd_default := Some (VInt 1000), pd_minimum := Some 0, pd_maximum := Some 300000\<rparr>]
       (\<lambda>_. validatePageWait)"

definition runtimeEvaluateAction :: action_spec where
  "runtimeEvaluateAction =
     sensitiveAction (newAction ''runtime.evaluate'' ''runtime'' ''script'' ''tab_required'' True
       [(param ''expression'' PTText)\<lparr>pd_required := True, pd_default := Some (VStr ''({ title: document.title, url: location.href })'')\<rparr>]
       (\<lambda>_. validateExpression))"

definition storageClearAction :: action_spec where
  "storageClearAction =
     sensitiveAction (newAction ''storage.clear'' ''storage'' ''status'' ''tab_required'' True
       [(param ''area'' PTList)\<lparr>pd_default := Some (VStr ''local''), pd_options := storageAreaOptions\<rparr>]
       (\<lambda>_ ps. validateChoice ps ''area'' False [''local'', ''session'']))"

definition storageGetAction :: action_spec where
  "storageGetAction =
     sensitiveAction (newAction ''storage.get'' ''storage'' ''storage'' ''tab_required'' False
       [(param ''area'' PTList)\<lparr>pd_default := Some (VStr ''local''), pd_options := storageAreaOptions\<rparr>,
        param ''key'' PTString,
        (param ''max_value_length'' PTInteger)\<lparr>pd_default := Some (VInt 65536), pd_minimum := Some 1, pd_maximum := Some 1048576\<rparr>]
       (\<lambda>_. validateStorageGet))"

definition storageRemoveAction :: action_spec where
  "storageRemoveAction =
     sensitiveAction (newAction ''storage.remove'' ''storage'' ''status'' ''tab_required'' True
       [(param ''area'' PTList)\<lparr>pd_default := Some (VStr ''local''), pd_options := storageAreaOptions\<rparr>,
        (param ''key'' PTString)\<lparr>pd_required := True\<rparr>]
       (\<lambda>_. validateStorageMutation))"

definition storageSetAction :: action_spec where
  "storageSetAction =
     sensitiveAction (newAction ''storage.set'' ''storage'' ''status'' ''tab_required'' True
       [(param ''area'' PTList)\<lparr>pd_default := Some (VStr ''local''), pd_options := storageAreaOptions\<rparr>,
        (param ''key'' PTString)\<lparr>pd_required := True\<rparr>,
        (param ''value'' PTText)\<lparr>pd_required := True, pd_secret := True\<rparr>]
       (\<lambda>_. validateStorageMutation))"

definition tabActivateAction :: action_spec where
  "tabActivateAction =
     newAction ''tab.activate'' ''tab'' ''tab'' ''tab_required'' False []
       noValidation"

definition tabAutoDiscardableAction :: action_spec where
  "tabAutoDiscardableAction =
     newAction ''tab.auto_discardable'' ''tab'' ''tab'' ''tab_required'' False
       [(param ''auto_discardable'' PTBoolean)\<lparr>pd_default := Some (VBool True)\<rparr>]
       (\<lambda>_ ps. validateOptionalBooleans ps [''auto_discardable''])"

definition tabBackAction :: action_spec where
  "tabBackAction =
     newAction ''tab.back'' ''tab'' ''tab'' ''tab_required'' False []
       noValidation"

definition tabCloseAction :: action_spec where
  "tabCloseAction =
     newAction ''tab.close'' ''tab'' ''tab'' ''tab_required'' True []
       noValidation"

definition tabDetectLanguageAction :: action_spec where
  "tabDetectLanguageAction =
     newAction ''tab.detect_language'' ''tab'' ''language'' ''tab_required'' False []
       noValidation"

definition tabDiscardAction :: action_spec where
  "tabDiscardAction =
     newAction ''tab.discard'' ''tab'' ''tab'' ''tab_required'' False []
       noValidation"

definition tabDuplicateAction :: action_spec where
  "tabDuplicateAction =
     newAction ''tab.duplicate'' ''tab'' ''tab'' ''tab_required'' False
       [(param ''active'' PTBoolean)\<lparr>pd_default := Some (VBool True)\<rparr>]
       (\<lambda>_ ps. validateOptionalBooleans ps [''active''])"

definition tabForwardAction :: action_spec where
  "tabForwardAction =
     newAction ''tab.forward'' ''tab'' ''tab'' ''tab_required'' False []
       noValidation"

definition tabGroupAction :: action_spec where
  "tabGroupAction =
     newAction ''tab.group'' ''tab'' ''tab'' ''tab_required'' False
       [(param ''title'' PTString)\<lparr>pd_required := True, pd_default := Some (VStr ''Meerkit'')\<rparr>,
        (param ''color'' PTList)\<lparr>pd_default := Some (VStr ''blue''), pd_options := options [''grey'', ''blue'', ''red'', ''yellow'', ''green'', ''pink'', ''purple'', ''cyan'', ''orange'']\<rparr>,
        (param ''collapsed'' PTBoolean)\<lparr>pd_default := Some (VBool False)\<rparr>,
        (param ''reuse_group'' PTBoolean)\<lparr>pd_default := Some (VBool True)\<rparr>]
       (\<lambda>_. validateTabGroup)"

definition tabMoveAction :: action_spec where
  "tabMoveAction =
     newAction ''tab.move'' ''tab'' ''tab'' ''tab_required'' False
       [param ''destination_window_id'' PTBrowserWindow,
        (param ''index'' PTInteger)\<lparr>pd_default := Some (VInt (- 1)), pd_minimum := Some (- 1), pd_maximum := Some 100000\<rparr>]
       (\<lambda>_. validateTabMove)"

definition tabMuteAction :: action_spec where
  "tabMuteAction =
     newAction ''tab.mute'' ''tab'' ''tab'' ''tab_required'' False
       [(param ''muted'' PTBoolean)\<lparr>pd_default := Some (VBool True)\<rparr>]
       (\<lambda>_ ps. validateOptionalBooleans ps [''muted''])"

definition tabNavigateAction :: action_spec where
  "tabNavigateAction =
     newAction ''tab.navigate'' ''tab'' ''tab'' ''tab_required'' False
       [(param ''url'' PTURL)\<lparr>pd_required := True\<rparr>,
        (param ''wait'' PTBoolean)\<lparr>pd_default := Some (VBool True)\<rparr>]
       (\<lambda>url ps. ok_then (validateHTTPURL url (stringParam ps ''url'') False)
        (\<lambda>_. validateOptionalBooleans ps [''wait'']))"

definition tabOpenAction :: action_spec where
  "tabOpenAction =
     newAction ''tab.open'' ''tab'' ''tab'' ''window_optional'' False
       [(param ''url'' PTURL)\<lparr>pd_default := Some (VStr ''about:blank'')\<rparr>,
        (param ''active'' PTBoolean)\<lparr>pd_default := Some (VBool True)\<rparr>,
        (param ''wait'' PTBoolean)\<lparr>pd_default := Some (VBool True)\<rparr>]
       validateTabOpen"

definition tabPinAction :: action_spec where
  "tabPinAction =
     newAction ''tab.pin'' ''tab'' ''tab'' ''tab_required'' False
       [(param ''pinned'' PTBoolean)\<lparr>pd_default := Some (VBool True)\<rparr>]
       (\<lambda>_ ps. validateOptionalBooleans ps [''pinned''])"

definition tabReloadAction :: action_spec where
  "tabReloadAction =
     newAction ''tab.reload'' ''tab'' ''tab'' ''tab_required'' False
       [(param ''bypass_cache'' PTBoolean)\<lparr>pd_default := Some (VBool False)\<rparr>,
        (param ''wait'' PTBoolean)\<lparr>pd_default := Some (VBool True)\<rparr>]
       (\<lambda>_ ps. validateOptionalBooleans ps [''bypass_cache'', ''wait''])"

definition tabUngroupAction :: action_spec where
  "tabUngroupAction =
     newAction ''tab.ungroup'' ''tab'' ''tab'' ''tab_required'' False []
       noValidation"

definition tabZoomAction :: action_spec where
  "tabZoomAction =
     newAction ''tab.zoom'' ''tab'' ''tab'' ''tab_required'' False
       [(param ''factor'' PTNumber)\<lparr>pd_required := True, pd_default := Some (VInt 1), pd_minimum := Some (1 / 4), pd_maximum := Some 5\<rparr>]
       (\<lambda>_ ps. validateNumberRange ps ''factor'' (1 / 4) 5 False)"

definition windowCloseAction :: action_spec where
  "windowCloseAction =
     newAction ''window.close'' ''window'' ''window'' ''window_required'' True []
       noValidation"

definition windowFocusAction :: action_spec where
  "windowFocusAction =
     newAction ''window.focus'' ''window'' ''window'' ''window_required'' False []
       noValidation"

definition windowOpenAction :: action_spec where
  "windowOpenAction =
     newAction ''window.open'' ''window'' ''window'' ''none'' False
       [(param ''url'' PTURL)\<lparr>pd_default := Some (VStr ''about:blank'')\<rparr>,
        (param ''type'' PTList)\<lparr>pd_default := Some (VStr ''normal''), pd_options := labeledOptions [''normal'', utf8 [230, 153, 174, 233, 128, 154, 231, 170, 151, 229, 143, 163], ''popup'', utf8 [229, 188, 185, 229, 135, 186, 231, 170, 151, 229, 143, 163]]\<rparr>,
        (param ''state'' PTList)\<lparr>pd_default := Some (VStr ''normal''), pd_options := windowStateOptions\<rparr>,
        (param ''width'' PTInteger)\<lparr>pd_minimum := Some 100, pd_maximum := Some 10000\<rparr>,
        (param ''height'' PTInteger)\<lparr>pd_minimum := Some 100, pd_maximum := Some 10000\<rparr>,
        (param ''left'' PTInteger)\<lparr>pd_minimum := Some (- 10000), pd_maximum := Some 10000\<rparr>,
        (param ''top'' PTInteger)\<lparr>pd_minimum := Some (- 10000), pd_maximum := Some 10000\<rparr>]
       validateWindowOpen"

definition windowResizeAction :: action_spec where
  "windowResizeAction =
     newAction ''window.resize'' ''window'' ''window'' ''window_required'' False
       [(param ''width'' PTInteger)\<lparr>pd_required := True, pd_default := Some (VInt 1280), pd_minimum := Some 100, pd_maximum := Some 10000\<rparr>,
        (param ''height'' PTInteger)\<lparr>pd_required := True, pd_default := Some (VInt 800), pd_minimum := Some 100, pd_maximum := Some 10000\<rparr>,
        (param ''left'' PTInteger)\<lparr>pd_minimum := Some (- 10000), pd_maximum := Some 10000\<rparr>,
        (param ''top'' PTInteger)\<lparr>pd_minimum := Some (- 10000), pd_maximum := Some 10000\<rparr>]
       (\<lambda>_. validateWindowResize)"

definition windowStateAction :: action_spec where
  "windowStateAction =
     newAction ''window.state'' ''window'' ''window'' ''window_required'' False
       [(param ''state'' PTList)\<lparr>pd_required := True, pd_default := Some (VStr ''normal''), pd_options := windowStateOptions\<rparr>]
       (\<lambda>_ ps. validateChoice ps ''state'' True [''normal'', ''minimized'', ''maximized'', ''fullscreen''])"

definition action_specs :: "action_spec list" where
  "action_specs =
     [tabOpenAction, tabNavigateAction, tabGroupAction, tabCloseAction,
      windowOpenAction, windowFocusAction, windowStateAction, windowResizeAction,
      windowCloseAction, tabActivateAction, tabReloadAction, tabBackAction,
      tabForwardAction, tabDuplicateAction, tabMoveAction, tabPinAction,
      tabMuteAction, tabDiscardAction, tabAutoDiscardableAction, tabDetectLanguageAction,
      tabUngroupAction, tabZoomAction, pageWaitAction, pageScreenshotAction,
      pageInfoAction, pageScrollAction, pageStopLoadingAction, pagePerformanceAction,
      domDocumentAction, domQueryAction, domQueryAllAction, domClickAction,
      domInputAction, domFocusAction, domCheckAction, domSelectAction,
      domScrollIntoViewAction, domBlurAction, domSubmitAction, domSetAttributeAction,
      domRemoveAttributeAction, domDispatchEventAction, inputClickAction, inputHoverAction,
      inputTypeAction, inputKeyAction, inputWheelAction, cookieListAction,
      cookieSetAction, cookieDeleteAction, cookieClearAction, storageGetAction,
      storageSetAction, storageRemoveAction, storageClearAction, runtimeEvaluateAction]"

text \<open>\<open>buildActionSpecMap\<close>; \<open>None\<close> is the panic on a type that appears twice.\<close>

fun buildActionSpecMap :: "action_spec list \<Rightarrow> action_spec go_map \<Rightarrow> action_spec go_map option" where
  "buildActionSpecMap [] m = Some m"
| "buildActionSpecMap (s # ss) m =
     (if has_key m (ad_type (as_definition s)) then None
      else buildActionSpecMap ss (put (ad_type (as_definition s)) s m))"

definition actionSpecs :: "action_spec go_map" where
  "actionSpecs = (case buildActionSpecMap action_specs [] of Some m \<Rightarrow> m | None \<Rightarrow> [])"

subsection \<open>Normalisation and validation of a request\<close>

fun fill_defaults :: "param_descriptor list \<Rightarrow> params \<Rightarrow> params" where
  "fill_defaults [] ps = ps"
| "fill_defaults (d # ds) ps =
     fill_defaults ds
       (case pd_default d of
          None \<Rightarrow> ps
        | Some v \<Rightarrow> if has_key ps (pd_key d) then ps else put (pd_key d) (PVal v) ps)"

definition infer_wait_mode :: "params \<Rightarrow> params" where
  "infer_wait_mode ps =
     (if stringParam ps ''mode'' \<noteq> '''' then ps
      else if stringParam ps ''selector'' \<noteq> '''' then put ''mode'' (PVal (VStr ''selector'')) ps
      else if has_key ps ''duration_ms'' then put ''mode'' (PVal (VStr ''duration'')) ps
      else ps)"

definition normalize_params :: "action_spec \<Rightarrow> params \<Rightarrow> params" where
  "normalize_params s ps =
     fill_defaults (ad_parameters (as_definition s))
       (if ad_type (as_definition s) = ''page.wait'' then infer_wait_mode ps else ps)"

definition normalizeBrowserActionRequest :: "action_request \<Rightarrow> action_request" where
  "normalizeBrowserActionRequest r =
     (case get actionSpecs (ba_type (rq_action r)) of
        None \<Rightarrow> r
      | Some s \<Rightarrow> r\<lparr>rq_action := (rq_action r)\<lparr>ba_params := normalize_params s (ba_params (rq_action r))\<rparr>\<rparr>)"

definition ValidateBrowserActionRequest :: "url_parser \<Rightarrow> action_request \<Rightarrow> action_error + unit" where
  "ValidateBrowserActionRequest url r =
     (let t = ba_type (rq_action r) in
      if tg_tab (rq_target r) < 0 \<or> tg_window (rq_target r) < 0 then Inl NegativeTarget
      else case get actionSpecs t of
        None \<Rightarrow> Inl (UnsupportedAction t)
      | Some s \<Rightarrow>
          if length (ba_id (rq_action r)) > 128 then Inl ActionIDTooLong
          else if ad_target_mode (as_definition s) = ''tab_required'' \<and> tg_tab (rq_target r) \<le> 0
          then Inl (TabRequired t)
          else if ad_target_mode (as_definition s) = ''window_required'' \<and> tg_window (rq_target r) \<le> 0
          then Inl (WindowRequired t)
          else (case as_validate s url (ba_params (rq_action r)) of
            Inl e \<Rightarrow> Inl (BadParameter t e)
          | Inr _ \<Rightarrow> Inr ()))"

definition actionCapability :: "string \<Rightarrow> string" where
  "actionCapability t =
     (case get actionSpecs t of Some s \<Rightarrow> ad_capability (as_definition s) | None \<Rightarrow> t)"

datatype execute_error = ActionRejected action_error | BridgeError browser_error

text \<open>\<open>ExecuteAction\<close> up to the command: the connection it goes to and the request sent.\<close>

definition ExecuteAction ::
    "url_parser \<Rightarrow> action_request \<Rightarrow> browser_manager \<Rightarrow> execute_error + nat \<times> action_request" where
  "ExecuteAction url r0 m =
     (let r = normalizeBrowserActionRequest r0 in
      case ValidateBrowserActionRequest url r of
        Inl e \<Rightarrow> Inl (ActionRejected e)
      | Inr _ \<Rightarrow>
          (case selectAgent (tg_agent (rq_target r)) m of
             None \<Rightarrow> Inl (BridgeError NoExtension)
           | Some n \<Rightarrow>
               if \<not> supportsCapability (bm_links m ! n) (actionCapability (ba_type (rq_action r)))
               then Inl (BridgeError (CapabilityMissing (actionCapability (ba_type (rq_action r)))))
               else Inr (n, r)))"

subsection \<open>The order of the catalogue\<close>

definition categoryOrder :: "string \<Rightarrow> nat" where
  "categoryOrder c =
     (if c = ''window'' then 0 else if c = ''tab'' then 1 else if c = ''page'' then 2
      else if c = ''dom'' then 3 else if c = ''input'' then 4 else if c = ''cookie'' then 5
      else if c = ''storage'' then 6 else 7)"

definition action_order_table :: "string list" where
  "action_order_table =
     [''window.open'', ''window.focus'', ''window.state'', ''window.resize'', ''window.close'',
      ''tab.open'', ''tab.activate'', ''tab.navigate'', ''tab.reload'', ''tab.back'', ''tab.forward'',
      ''tab.duplicate'', ''tab.move'', ''tab.pin'', ''tab.mute'', ''tab.discard'', ''tab.auto_discardable'',
      ''tab.detect_language'', ''tab.group'', ''tab.ungroup'', ''tab.zoom'', ''tab.close'',
      ''page.info'', ''page.wait'', ''page.scroll'', ''page.stop_loading'', ''page.performance'',
      ''page.screenshot'',
      ''dom.document'', ''dom.query'', ''dom.query_all'', ''dom.focus'', ''dom.blur'', ''dom.click'',
      ''dom.input'', ''dom.check'', ''dom.select'', ''dom.submit'', ''dom.set_attribute'',
      ''dom.remove_attribute'', ''dom.dispatch_event'', ''dom.scroll_into_view'',
      ''input.click'', ''input.hover'', ''input.type'', ''input.key'', ''input.wheel'',
      ''cookie.list'', ''cookie.set'', ''cookie.delete'', ''cookie.clear'',
      ''storage.get'', ''storage.set'', ''storage.remove'', ''storage.clear'',
      ''runtime.evaluate'']"

fun index_from :: "nat \<Rightarrow> string list \<Rightarrow> string \<Rightarrow> nat" where
  "index_from i [] t = 100"
| "index_from i (x # xs) t = (if x = t then i else index_from (Suc i) xs t)"

definition actionOrder :: "string \<Rightarrow> nat" where
  "actionOrder t = index_from 0 action_order_table t"

definition action_before :: "action_definition \<Rightarrow> action_definition \<Rightarrow> bool" where
  "action_before a b \<longleftrightarrow>
     (if ad_category a = ad_category b then actionOrder (ad_type a) < actionOrder (ad_type b)
      else categoryOrder (ad_category a) < categoryOrder (ad_category b))"

text \<open>\<open>sort.Slice\<close> with this order; no two actions of the catalogue are equal in it.\<close>

fun insert_action :: "action_definition \<Rightarrow> action_definition list \<Rightarrow> action_definition list" where
  "insert_action a [] = [a]"
| "insert_action a (b # bs) = (if action_before b a then b # insert_action a bs else a # b # bs)"

definition BrowserActionCatalog :: "action_definition list" where
  "BrowserActionCatalog = foldr insert_action (map (\<lambda>(t, s). as_definition s) actionSpecs) []"

subsection \<open>The catalogue is a map\<close>

lemmas action_defs = cookieClearAction_def cookieDeleteAction_def cookieListAction_def
    cookieSetAction_def domBlurAction_def domCheckAction_def domClickAction_def
    domDispatchEventAction_def domDocumentAction_def domFocusAction_def domInputAction_def
    domQueryAction_def domQueryAllAction_def domRemoveAttributeAction_def
    domScrollIntoViewAction_def domSelectAction_def domSetAttributeAction_def
    domSubmitAction_def inputClickAction_def inputHoverAction_def inputKeyAction_def
    inputTypeAction_def inputWheelAction_def pageInfoAction_def pagePerformanceAction_def
    pageScreenshotAction_def pageScrollAction_def pageStopLoadingAction_def pageWaitAction_def
    runtimeEvaluateAction_def storageClearAction_def storageGetAction_def
    storageRemoveAction_def storageSetAction_def tabActivateAction_def
    tabAutoDiscardableAction_def tabBackAction_def tabCloseAction_def
    tabDetectLanguageAction_def tabDiscardAction_def tabDuplicateAction_def
    tabForwardAction_def tabGroupAction_def tabMoveAction_def tabMuteAction_def
    tabNavigateAction_def tabOpenAction_def tabPinAction_def tabReloadAction_def
    tabUngroupAction_def tabZoomAction_def windowCloseAction_def windowFocusAction_def
    windowOpenAction_def windowResizeAction_def windowStateAction_def

lemma newAction_simps [simp]:
  "ad_type (as_definition (newAction t c r tm d ps v)) = t"
  "ad_category (as_definition (newAction t c r tm d ps v)) = c"
  "ad_capability (as_definition (newAction t c r tm d ps v)) = t"
  "ad_target_mode (as_definition (newAction t c r tm d ps v)) = tm"
  "ad_parameters (as_definition (newAction t c r tm d ps v)) = ps"
  "as_validate (newAction t c r tm d ps v) = v"
  by (simp_all add: newAction_def)

lemma sensitiveAction_simps [simp]:
  "ad_type (as_definition (sensitiveAction s)) = ad_type (as_definition s)"
  "ad_category (as_definition (sensitiveAction s)) = ad_category (as_definition s)"
  "ad_capability (as_definition (sensitiveAction s)) = ad_capability (as_definition s)"
  "ad_target_mode (as_definition (sensitiveAction s)) = ad_target_mode (as_definition s)"
  "ad_parameters (as_definition (sensitiveAction s)) = ad_parameters (as_definition s)"
  "as_validate (sensitiveAction s) = as_validate s"
  by (simp_all add: sensitiveAction_def)

abbreviation spec_type :: "action_spec \<Rightarrow> string" where
  "spec_type s \<equiv> ad_type (as_definition s)"

lemma put_new: "get m k = None \<Longrightarrow> put k v m = m @ [(k, v)]"
  by (induction m) auto

lemma buildActionSpecMap_distinct:
  "distinct (map spec_type ss) \<Longrightarrow> \<forall>s \<in> set ss. \<not> has_key m (spec_type s) \<Longrightarrow>
   buildActionSpecMap ss m = Some (m @ map (\<lambda>s. (spec_type s, s)) ss)"
proof (induction ss arbitrary: m)
  case (Cons s ss)
  then have "put (spec_type s) s m = m @ [(spec_type s, s)]"
    by (intro put_new) simp
  moreover have "buildActionSpecMap ss (put (spec_type s) s m) =
      Some (put (spec_type s) s m @ map (\<lambda>s. (spec_type s, s)) ss)"
    using Cons.prems by (intro Cons.IH) (auto simp: image_iff)
  ultimately show ?case using Cons.prems by simp
qed simp

lemma action_types:
  "map spec_type action_specs =
     [''tab.open'', ''tab.navigate'', ''tab.group'', ''tab.close'', ''window.open'',
      ''window.focus'', ''window.state'', ''window.resize'', ''window.close'',
      ''tab.activate'', ''tab.reload'', ''tab.back'', ''tab.forward'', ''tab.duplicate'',
      ''tab.move'', ''tab.pin'', ''tab.mute'', ''tab.discard'', ''tab.auto_discardable'',
      ''tab.detect_language'', ''tab.ungroup'', ''tab.zoom'', ''page.wait'',
      ''page.screenshot'', ''page.info'', ''page.scroll'', ''page.stop_loading'',
      ''page.performance'', ''dom.document'', ''dom.query'', ''dom.query_all'', ''dom.click'',
      ''dom.input'', ''dom.focus'', ''dom.check'', ''dom.select'', ''dom.scroll_into_view'',
      ''dom.blur'', ''dom.submit'', ''dom.set_attribute'', ''dom.remove_attribute'',
      ''dom.dispatch_event'', ''input.click'', ''input.hover'', ''input.type'', ''input.key'',
      ''input.wheel'', ''cookie.list'', ''cookie.set'', ''cookie.delete'', ''cookie.clear'',
      ''storage.get'', ''storage.set'', ''storage.remove'', ''storage.clear'',
      ''runtime.evaluate'']"
  by (simp add: action_specs_def action_defs)

lemma action_types_distinct: "distinct (map spec_type action_specs)"
  unfolding action_types by code_simp

text \<open>The map is built without a panic and has every action under its type.\<close>

lemma actionSpecs_list: "actionSpecs = map (\<lambda>s. (spec_type s, s)) action_specs"
  using buildActionSpecMap_distinct [OF action_types_distinct, of "[]"] by (simp add: actionSpecs_def)

lemma actionSpecs_wf: "wf_map actionSpecs"
  using action_types_distinct by (simp add: actionSpecs_list wf_map_def comp_def)

lemma actionSpecs_get: "get actionSpecs t = Some s \<longleftrightarrow> s \<in> set action_specs \<and> spec_type s = t"
  using actionSpecs_wf by (auto simp: get_eq_Some_iff actionSpecs_list)

subsection \<open>Filling in defaults keeps what is accepted\<close>

definition default_of :: "param_descriptor list \<Rightarrow> string \<Rightarrow> val option" where
  "default_of ds k =
     (case find_first (\<lambda>d. pd_key d = k \<and> pd_default d \<noteq> None) ds of
        None \<Rightarrow> None | Some d \<Rightarrow> pd_default d)"

lemma default_of_simps [simp]:
  "default_of [] k = None"
  "default_of (d # ds) k = (if pd_key d = k \<and> pd_default d \<noteq> None then pd_default d else default_of ds k)"
  by (simp add: default_of_def) (auto simp: default_of_def)

lemma get_fill_defaults:
  "get (fill_defaults ds ps) k =
     (case get ps k of Some v \<Rightarrow> Some v | None \<Rightarrow> map_option PVal (default_of ds k))"
  by (induction ds arbitrary: ps) (auto split: option.splits)

text \<open>\<open>filled ps ps' k d\<close>: the second map has the default \<open>d\<close> at \<open>k\<close> where the first has nothing.\<close>

definition filled :: "params \<Rightarrow> params \<Rightarrow> string \<Rightarrow> val option \<Rightarrow> bool" where
  "filled ps ps' k d \<longleftrightarrow>
     get ps' k = (case get ps k of Some v \<Rightarrow> Some v | None \<Rightarrow> map_option PVal d)"

lemma filled_defaults: "filled ps (fill_defaults ds ps) k (default_of ds k)"
  by (simp add: filled_def get_fill_defaults)

text \<open>
  A check of one key that accepts the parameters accepts them with the default filled in, if
  it accepts the default.
\<close>

abbreviation accepts_default :: "(params \<Rightarrow> action_error + unit) \<Rightarrow> string \<Rightarrow> val option \<Rightarrow> bool" where
  "accepts_default check k d \<equiv> (case d of None \<Rightarrow> True | Some v \<Rightarrow> check [(k, PVal v)] = Inr ())"

lemma keep_number:
  "filled ps ps' k d \<Longrightarrow> validateNumberRange ps k lo hi opt = Inr () \<Longrightarrow>
   accepts_default (\<lambda>q. validateNumberRange q k lo hi opt) k d \<Longrightarrow>
   validateNumberRange ps' k lo hi opt = Inr ()"
  by (cases "get ps k"; cases d) (auto simp: filled_def validateNumberRange_def numberParam_def)

lemma string_filled:
  "filled ps ps' k d \<Longrightarrow> stringParamRaw ps' k =
     (case get ps k of Some v \<Rightarrow> stringParamRaw ps k | None \<Rightarrow> (case d of Some (VStr s) \<Rightarrow> s | _ \<Rightarrow> ''''))"
  by (auto simp: filled_def stringParamRaw_def split: option.split val.split)

lemma keep_string_check:
  assumes "filled ps ps' k d" and "P (stringParamRaw ps k)"
    and "case d of Some (VStr s) \<Rightarrow> P s | _ \<Rightarrow> P ''''"
  shows "P (stringParamRaw ps' k)"
  using assms by (auto simp: string_filled split: option.splits val.splits)

lemma keep_choice:
  assumes "filled ps ps' k d" and "validateChoice ps k req vs = Inr ()"
    and "accepts_default (\<lambda>q. validateChoice q k req vs) k d"
  shows "validateChoice ps' k req vs = Inr ()"
  using assms by (cases "get ps k"; cases d)
    (auto simp: filled_def validateChoice_def stringParam_def stringParamRaw_def)

lemma keep_required_string:
  assumes "filled ps ps' k d" and "validateRequiredString ps k n = Inr ()"
  shows "validateRequiredString ps' k n = Inr ()"
  using assms by (cases "get ps k")
    (auto simp: filled_def validateRequiredString_def stringParam_def stringParamRaw_def)

lemma keep_selector:
  assumes "filled ps ps' ''selector'' d" and "validateSelector ps = Inr ()"
  shows "validateSelector ps' = Inr ()"
  using assms by (cases "get ps ''selector''")
    (auto simp: filled_def validateSelector_def stringParam_def stringParamRaw_def)

lemma keep_booleans:
  assumes "\<And>k. filled ps ps' k (default_of ds k)" and "validateOptionalBooleans ps ks = Inr ()"
    and "\<forall>k \<in> set ks. accepts_default (\<lambda>q. validateOptionalBooleans q [k]) k (default_of ds k)"
  shows "validateOptionalBooleans ps' ks = Inr ()"
  using assms(2,3)
proof (induction ks)
  case (Cons k ks)
  have "get ps' k = (case get ps k of Some v \<Rightarrow> Some v | None \<Rightarrow> map_option PVal (default_of ds k))"
    using assms(1) [of k] by (simp add: filled_def)
  with Cons show ?case
    by (cases "get ps k"; cases "default_of ds k")
      (auto split: param_value.splits val.splits)
qed simp

lemma keep_numbers:
  assumes "\<And>k. filled ps ps' k (default_of ds k)" and "validateOptionalNumbers ps rs = Inr ()"
    and "\<forall>(k, lo, hi) \<in> set rs. accepts_default (\<lambda>q. validateOptionalNumbers q [(k, lo, hi)]) k (default_of ds k)"
  shows "validateOptionalNumbers ps' rs = Inr ()"
  using assms(2,3)
proof (induction rs)
  case (Cons r rs)
  obtain k lo hi where r: "r = (k, lo, hi)" by (cases r)
  have "get ps' k = (case get ps k of Some v \<Rightarrow> Some v | None \<Rightarrow> map_option PVal (default_of ds k))"
    using assms(1) [of k] by (simp add: filled_def)
  with Cons show ?case
    by (cases "get ps k"; cases "default_of ds k")
      (auto simp: r ok_then_Inr validateNumberRange_def numberParam_def split: if_splits)
qed simp

lemma keep_short:
  assumes "\<And>k. filled ps ps' k (default_of ds k)" and "validateShortStrings ps ks n = Inr ()"
    and "\<forall>k \<in> set ks. accepts_default (\<lambda>q. validateShortStrings q [k] n) k (default_of ds k)"
  shows "validateShortStrings ps' ks n = Inr ()"
  using assms(2,3)
proof (induction ks)
  case (Cons k ks)
  have "get ps' k = (case get ps k of Some v \<Rightarrow> Some v | None \<Rightarrow> map_option PVal (default_of ds k))"
    using assms(1) [of k] by (simp add: filled_def)
  with Cons show ?case
    by (cases "get ps k"; cases "default_of ds k")
      (auto simp: stringParamRaw_def split: if_splits)
qed simp

lemma default_numbers [simp]:
  "f64_of_int (- 1) = Fin (- 1)" "f64_of_int 0 = Fin 0" "f64_of_int 1 = Fin 1" "f64_of_int 20 = Fin 20"
  "f64_of_int 50 = Fin 50" "f64_of_int 90 = Fin 90" "f64_of_int 600 = Fin 600" "f64_of_int 800 = Fin 800"
  "f64_of_int 1000 = Fin 1000" "f64_of_int 1280 = Fin 1280" "f64_of_int 4096 = Fin 4096"
  "f64_of_int 60000 = Fin 60000" "f64_of_int 65536 = Fin 65536" "f64_of_int 262144 = Fin 262144"
  by (simp_all add: f64_of_int_exact)

lemma default_trims [simp]:
  "trim_space ''/'' = ''/''" "trim_space ''unspecified'' = ''unspecified''" "trim_space ''change'' = ''change''"
  "trim_space ''center'' = ''center''" "trim_space ''nearest'' = ''nearest''" "trim_space ''auto'' = ''auto''"
  "trim_space ''left'' = ''left''" "trim_space ''png'' = ''png''" "trim_space ''relative'' = ''relative''"
  "trim_space ''load'' = ''load''" "trim_space ''local'' = ''local''" "trim_space ''Meerkit'' = ''Meerkit''"
  "trim_space ''blue'' = ''blue''" "trim_space ''about:blank'' = ''about:blank''"
  "trim_space ''normal'' = ''normal''" "trim_space ''selector'' = ''selector''"
  "trim_space ''duration'' = ''duration''"
  by code_simp+

lemma number_default [simp]:
  "f64_of_int i = Fin x \<Longrightarrow>
   validateNumberRange [(k, PVal (VInt i))] k lo hi opt = Inr () \<longleftrightarrow> lo \<le> x \<and> x \<le> hi"
  by (auto simp: validateNumberRange_def numberParam_def f64_gt_def)

lemma choice_default [simp]:
  "validateChoice [(k, PVal (VStr s))] k req vs = Inr () \<longleftrightarrow>
   (trim_space s = '''' \<and> \<not> req \<or> trim_space s \<noteq> '''' \<and> trim_space s \<in> set vs)"
  by (auto simp: validateChoice_def stringParam_def stringParamRaw_def Let_def)

definition keeps_defaults :: "url_parser \<Rightarrow> action_spec \<Rightarrow> bool" where
  "keeps_defaults url s \<longleftrightarrow>
     (\<forall>ps. as_validate s url ps = Inr () \<longrightarrow>
        as_validate s url (fill_defaults (ad_parameters (as_definition s)) ps) = Inr ())"

lemmas keep_rules =
  keep_number [OF filled_defaults] keep_choice [OF filled_defaults] keep_selector [OF filled_defaults]
  keep_required_string [OF filled_defaults] keep_booleans [OF filled_defaults]
  keep_numbers [OF filled_defaults] keep_short [OF filled_defaults]

lemma keeps_simple:
  "keeps_defaults url tabActivateAction" "keeps_defaults url tabBackAction" "keeps_defaults url tabCloseAction"
  "keeps_defaults url tabDetectLanguageAction" "keeps_defaults url tabDiscardAction"
  "keeps_defaults url tabForwardAction" "keeps_defaults url tabUngroupAction"
  "keeps_defaults url windowCloseAction" "keeps_defaults url windowFocusAction"
  "keeps_defaults url pageInfoAction" "keeps_defaults url pagePerformanceAction"
  "keeps_defaults url pageStopLoadingAction" "keeps_defaults url cookieClearAction"
  "keeps_defaults url cookieListAction"
  by (simp_all add: keeps_defaults_def action_defs noValidation_def)

lemma param_simps [simp]:
  "pd_key (param k t) = k" "pd_default (param k t) = None"
  by (simp_all add: param_def)

lemma boolean_default [simp]: "validateOptionalBooleans [(k, PVal (VBool b))] [k] = Inr ()"
  by simp

lemma numbers_default [simp]:
  "f64_of_int i = Fin x \<Longrightarrow>
   validateOptionalNumbers [(k, PVal (VInt i))] [(k, lo, hi)] = Inr () \<longleftrightarrow> lo \<le> x \<and> x \<le> hi"
  using number_default [of i x k lo hi False] by (auto simp: ok_then_Inr)

lemma short_default [simp]:
  "validateShortStrings [(k, PVal (VStr s))] [k] n = Inr () \<longleftrightarrow> length s \<le> n"
  by (simp add: stringParamRaw_def)

declare fill_defaults.simps(2) [simp del] validateOptionalBooleans.simps(2) [simp del]
  validateOptionalNumbers.simps(2) [simp del] validateShortStrings.simps(2) [simp del]

lemmas check_defs =
  validateCookieSet_def validateDOMDispatchEvent_def validateDOMQuery_def validateDOMQueryAll_def
  validateDOMAttribute_def validateDOMScrollIntoView_def validateDOMSelect_def validateInputClick_def
  validateInputType_def validateInputKey_def validatePageScroll_def validateStorageGet_def
  validateStorageMutation_def validateTabMove_def validateWindowResize_def

lemmas descriptor_defs =
  selectorParameters_def genericSelectorParameters_def interactiveSelectorParameters_def selectorParameter_def

lemma keeps_cookies: "keeps_defaults url cookieDeleteAction" "keeps_defaults url cookieSetAction"
  by (auto simp: keeps_defaults_def action_defs check_defs ok_then_Inr intro!: keep_rules)

lemma keeps_dom:
  "keeps_defaults url domBlurAction" "keeps_defaults url domCheckAction" "keeps_defaults url domClickAction"
  "keeps_defaults url domDispatchEventAction" "keeps_defaults url domDocumentAction"
  "keeps_defaults url domFocusAction" "keeps_defaults url domInputAction" "keeps_defaults url domQueryAction"
  "keeps_defaults url domQueryAllAction" "keeps_defaults url domRemoveAttributeAction"
  "keeps_defaults url domScrollIntoViewAction" "keeps_defaults url domSelectAction"
  "keeps_defaults url domSetAttributeAction" "keeps_defaults url domSubmitAction"
  by (auto simp: keeps_defaults_def action_defs check_defs descriptor_defs ok_then_Inr intro!: keep_rules)

lemma keeps_input:
  "keeps_defaults url inputClickAction" "keeps_defaults url inputHoverAction"
  "keeps_defaults url inputTypeAction" "keeps_defaults url inputKeyAction"
  by (auto simp: keeps_defaults_def action_defs check_defs descriptor_defs ok_then_Inr intro!: keep_rules)

lemma keeps_page_storage:
  "keeps_defaults url pageScrollAction" "keeps_defaults url storageClearAction"
  "keeps_defaults url storageGetAction" "keeps_defaults url storageRemoveAction"
  "keeps_defaults url storageSetAction"
  by (auto simp: keeps_defaults_def action_defs check_defs ok_then_Inr intro!: keep_rules)

lemma keeps_tab_window:
  "keeps_defaults url tabAutoDiscardableAction" "keeps_defaults url tabDuplicateAction"
  "keeps_defaults url tabMoveAction" "keeps_defaults url tabMuteAction" "keeps_defaults url tabPinAction"
  "keeps_defaults url tabReloadAction" "keeps_defaults url tabZoomAction"
  "keeps_defaults url windowResizeAction" "keeps_defaults url windowStateAction"
  by (auto simp: keeps_defaults_def action_defs check_defs ok_then_Inr intro!: keep_rules)

lemma stringParam_fill:
  "stringParam (fill_defaults ds ps) k =
     (if has_key ps k then stringParam ps k
      else case default_of ds k of Some (VStr s) \<Rightarrow> trim_space s | _ \<Rightarrow> '''')"
  by (auto simp: stringParam_def stringParamRaw_def get_fill_defaults split: option.split val.split)

lemma stringParam_absent: "get ps k = None \<Longrightarrow> stringParam ps k = ''''"
  by (simp add: stringParam_def stringParamRaw_def)

lemma keeps_special:
  "keeps_defaults url inputWheelAction" "keeps_defaults url runtimeEvaluateAction"
  "keeps_defaults url pageScreenshotAction" "keeps_defaults url tabGroupAction"
  "keeps_defaults url tabNavigateAction"
  by (auto simp: keeps_defaults_def action_defs ok_then_Inr validateInputWheel_def validateExpression_def
      validateScreenshot_def validateTabGroup_def Let_def stringParam_fill stringParam_absent group_colors_def
      validateHTTPURL_def intro!: keep_rules split: if_splits option.splits)

lemma keeps_url:
  assumes "url ''about:blank'' \<noteq> None" and "default_of ds ''url'' = Some (VStr ''about:blank'')"
    and "validateOptionalURL url ps = Inr ()"
  shows "validateOptionalURL url (fill_defaults ds ps) = Inr ()"
  using assms by (auto simp: validateOptionalURL_def stringParam_fill validateHTTPURL_def)

lemma keeps_open:
  assumes "url ''about:blank'' \<noteq> None"
  shows "keeps_defaults url tabOpenAction" "keeps_defaults url windowOpenAction"
  using assms
  by (auto simp: keeps_defaults_def action_defs ok_then_Inr validateTabOpen_def validateWindowOpen_def
      intro!: keep_rules keeps_url)

text \<open>\<open>page.wait\<close>: its checks for a mode, which the normalisation may have chosen.\<close>

definition check_wait :: "string \<Rightarrow> params \<Rightarrow> action_error + unit" where
  "check_wait mode ps =
     (if mode = ''load'' then Inr ()
      else if mode \<in> {''selector'', ''visible'', ''hidden''} then
        ok_then (validateSelector ps) (\<lambda>_. validateNumberRange ps ''timeout_ms'' 100 300000 True)
      else if mode \<in> {''text'', ''url'', ''title''} then
        ok_then (validateRequiredString ps ''value'' 4096)
          (\<lambda>_. validateNumberRange ps ''timeout_ms'' 100 300000 True)
      else if mode = ''duration'' then validateNumberRange ps ''duration_ms'' 0 300000 False
      else Inl InvalidMode)"

lemma validatePageWait_check: "validatePageWait ps = check_wait (wait_mode ps) ps"
  by (simp add: validatePageWait_def check_wait_def Let_def)

abbreviation wait_descriptors :: "param_descriptor list" where
  "wait_descriptors \<equiv> ad_parameters (as_definition pageWaitAction)"

lemma wait_defaults:
  "default_of wait_descriptors ''mode'' = Some (VStr ''load'')"
  "default_of wait_descriptors ''selector'' = None" "default_of wait_descriptors ''value'' = None"
  "default_of wait_descriptors ''timeout_ms'' = Some (VInt 60000)"
  "default_of wait_descriptors ''duration_ms'' = Some (VInt 1000)"
  by (simp_all add: pageWaitAction_def)

lemma check_wait_fill:
  assumes "check_wait mode ps = Inr ()"
  shows "check_wait mode (fill_defaults wait_descriptors ps) = Inr ()"
proof -
  let ?q = "fill_defaults wait_descriptors ps"
  have "validateSelector ps = Inr () \<Longrightarrow> validateSelector ?q = Inr ()"
    "validateRequiredString ps ''value'' 4096 = Inr () \<Longrightarrow> validateRequiredString ?q ''value'' 4096 = Inr ()"
    "validateNumberRange ps ''timeout_ms'' 100 300000 True = Inr () \<Longrightarrow>
      validateNumberRange ?q ''timeout_ms'' 100 300000 True = Inr ()"
    "validateNumberRange ps ''duration_ms'' 0 300000 False = Inr () \<Longrightarrow>
      validateNumberRange ?q ''duration_ms'' 0 300000 False = Inr ()"
    by (erule keep_rules; simp add: wait_defaults)+
  with assms show ?thesis by (auto simp: check_wait_def ok_then_Inr split: if_splits)
qed

lemma check_wait_mode: "check_wait mode (put ''mode'' v ps) = check_wait mode ps"
  by (simp add: check_wait_def validateSelector_def validateNumberRange_def validateRequiredString_def
      stringParam_def stringParamRaw_def numberParam_def)

lemma wait_mode_infer: "wait_mode (infer_wait_mode ps) = wait_mode ps"
  by (auto simp: wait_mode_def infer_wait_mode_def stringParam_def stringParamRaw_def)

lemma check_wait_infer: "check_wait mode (infer_wait_mode ps) = check_wait mode ps"
  by (simp add: infer_wait_mode_def check_wait_mode)

text \<open>
  The mode after the defaults are filled in is the one before, except for a parameter \<open>mode\<close>
  that is there but blank: the default of \<open>duration_ms\<close> then turns waiting for the page to load
  into a fixed delay.
\<close>

lemma wait_mode_fill:
  assumes "infer_wait_mode ps = ps"
  shows "wait_mode (fill_defaults wait_descriptors ps) =
    (if has_key ps ''mode'' \<and> stringParam ps ''mode'' = '''' then ''duration'' else wait_mode ps)"
proof (cases "stringParam ps ''mode'' = ''''")
  case False
  then have "has_key ps ''mode''"
    using stringParam_absent [of ps "''mode''"] by (cases "get ps ''mode''") simp_all
  with False show ?thesis by (simp add: wait_mode_def stringParam_fill)
next
  case True
  have "stringParam ps ''selector'' = ''''"
  proof (rule ccontr)
    assume "stringParam ps ''selector'' \<noteq> ''''"
    then have "ps = put ''mode'' (PVal (VStr ''selector'')) ps"
      using assms True by (simp add: infer_wait_mode_def)
    then have "get ps ''mode'' = Some (PVal (VStr ''selector''))" by (metis get_put)
    with True show False by (simp add: stringParam_def stringParamRaw_def)
  qed
  moreover have "get ps ''duration_ms'' = None"
  proof (rule ccontr)
    assume "get ps ''duration_ms'' \<noteq> None"
    then have "ps = put ''mode'' (PVal (VStr ''duration'')) ps"
      using assms True calculation by (simp add: infer_wait_mode_def split: if_splits)
    then have "get ps ''mode'' = Some (PVal (VStr ''duration''))" by (metis get_put)
    with True show False by (simp add: stringParam_def stringParamRaw_def)
  qed
  ultimately show ?thesis using True
    by (auto simp: wait_mode_def stringParam_fill wait_defaults get_fill_defaults)
qed

lemma infer_idem: "infer_wait_mode (infer_wait_mode ps) = infer_wait_mode ps"
  by (simp add: infer_wait_mode_def stringParam_def stringParamRaw_def)

lemma keeps_wait:
  assumes "validatePageWait ps = Inr ()"
  shows "validatePageWait (fill_defaults wait_descriptors (infer_wait_mode ps)) = Inr ()"
proof -
  let ?q = "infer_wait_mode ps"
  have q: "check_wait (wait_mode ?q) ?q = Inr ()"
    using assms by (simp add: validatePageWait_check wait_mode_infer check_wait_infer)
  show ?thesis
  proof (cases "has_key ?q ''mode'' \<and> stringParam ?q ''mode'' = ''''")
    case False
    have "wait_mode (fill_defaults wait_descriptors ?q) = wait_mode ?q"
      using wait_mode_fill [OF infer_idem, of ps] unfolding if_not_P [OF False] .
    with check_wait_fill [OF q] show ?thesis by (simp only: validatePageWait_check)
  next
    case True
    have m: "wait_mode (fill_defaults wait_descriptors ?q) = ''duration''"
      using wait_mode_fill [OF infer_idem, of ps] unfolding if_P [OF True] .
    have "get ?q ''duration_ms'' = None" using True
      by (auto simp: infer_wait_mode_def stringParam_def stringParamRaw_def split: if_splits)
    then have "numberParam (fill_defaults wait_descriptors ?q) ''duration_ms'' = Some (Fin 1000)"
      by (simp add: numberParam_def get_fill_defaults wait_defaults)
    then show ?thesis
      by (simp add: validatePageWait_check m check_wait_def validateNumberRange_def f64_gt_def)
  qed
qed

subsection \<open>Properties of normalisation\<close>

lemma all_keep_defaults:
  assumes "url ''about:blank'' \<noteq> None" and "s \<in> set action_specs" and "spec_type s \<noteq> ''page.wait''"
  shows "keeps_defaults url s"
proof -
  have "\<forall>s \<in> set action_specs. spec_type s \<noteq> ''page.wait'' \<longrightarrow> keeps_defaults url s"
    unfolding action_specs_def
    using keeps_simple keeps_cookies keeps_dom keeps_input keeps_page_storage keeps_tab_window keeps_special
      keeps_open [of url, OF assms(1)]
    by (simp add: pageWaitAction_def)
  with assms(2,3) show ?thesis by blast
qed

lemma wait_spec: "s \<in> set action_specs \<Longrightarrow> spec_type s = ''page.wait'' \<Longrightarrow> s = pageWaitAction"
proof -
  assume s: "s \<in> set action_specs" "spec_type s = ''page.wait''"
  have "pageWaitAction \<in> set action_specs" by (simp add: action_specs_def)
  moreover have "spec_type pageWaitAction = ''page.wait''" by (simp add: pageWaitAction_def)
  ultimately show "s = pageWaitAction" using s action_types_distinct by (auto simp: distinct_map inj_on_def)
qed

text \<open>
  C35: Normalising an action request never turns an acceptable request into a rejected one:
  for every action of the catalogue, filling in the catalogue's defaults, and the mode of
  \<open>page.wait\<close>, keeps what validation accepts. (Of the URL parser it is only used that the
  default \<open>about:blank\<close> parses.)
\<close>

theorem normalization_preserves_acceptance:
  assumes "url ''about:blank'' \<noteq> None" and "ValidateBrowserActionRequest url r = Inr ()"
  shows "ValidateBrowserActionRequest url (normalizeBrowserActionRequest r) = Inr ()"
proof -
  obtain s where s: "get actionSpecs (ba_type (rq_action r)) = Some s"
    and v: "as_validate s url (ba_params (rq_action r)) = Inr ()"
    using assms(2) by (auto simp: ValidateBrowserActionRequest_def Let_def split: if_splits option.splits sum.splits)
  from s have m: "s \<in> set action_specs" by (simp add: actionSpecs_get)
  have "as_validate s url (normalize_params s (ba_params (rq_action r))) = Inr ()"
  proof (cases "spec_type s = ''page.wait''")
    case True
    then have w: "s = pageWaitAction" using wait_spec [OF m] by simp
    then have "as_validate s = (\<lambda>_. validatePageWait)" by (simp add: pageWaitAction_def)
    with v keeps_wait [of "ba_params (rq_action r)"] True w show ?thesis
      by (simp add: normalize_params_def)
  next
    case False
    then have "keeps_defaults url s" by (rule all_keep_defaults [of url s, OF assms(1) m])
    with v False show ?thesis by (simp add: keeps_defaults_def normalize_params_def)
  qed
  with assms(2) s show ?thesis
    by (simp add: ValidateBrowserActionRequest_def normalizeBrowserActionRequest_def Let_def split: if_splits)
qed

text \<open>A request of the examples.\<close>

definition example_action :: "string \<Rightarrow> params \<Rightarrow> action_request" where
  "example_action t ps =
     \<lparr>rq_target = \<lparr>tg_agent = '''', tg_window = 0, tg_tab = 3\<rparr>, rq_timeout_ms = 0,
      rq_action = \<lparr>ba_id = ''a'', ba_type = t, ba_params = ps\<rparr>\<rparr>"

definition example_url :: url_parser where
  "example_url u = (if u = ''about:blank'' then Some (''about'', '''') else None)"

lemma example_specs:
  "get actionSpecs ''page.wait'' = Some pageWaitAction"
  "get actionSpecs ''dom.query'' = Some domQueryAction"
  by (simp_all add: actionSpecs_get action_specs_def pageWaitAction_def domQueryAction_def)

lemma trim_main [simp]: "trim_space ''main'' = ''main''" by code_simp

lemma normalization_preserves_acceptance_witness:
  "ValidateBrowserActionRequest example_url
     (normalizeBrowserActionRequest (example_action ''dom.query'' [(''selector'', PVal (VStr ''main''))])) = Inr ()"
proof (rule normalization_preserves_acceptance)
  show "example_url ''about:blank'' \<noteq> None" by (simp add: example_url_def)
  show "ValidateBrowserActionRequest example_url
      (example_action ''dom.query'' [(''selector'', PVal (VStr ''main''))]) = Inr ()"
    by (simp add: ValidateBrowserActionRequest_def example_action_def example_specs)
      (simp add: domQueryAction_def validateDOMQuery_def validateSelector_def stringParam_def stringParamRaw_def
        validateNumberRange_def numberParam_def)
qed

lemma default_of_some: "d \<in> set ds \<Longrightarrow> pd_default d \<noteq> None \<Longrightarrow> default_of ds (pd_key d) \<noteq> None"
  by (induction ds) (auto split: option.splits)

lemma fill_defaults_idem:
  "fill_defaults ds (fill_defaults ds ps) = fill_defaults ds ps"
proof -
  have "fill_defaults es (fill_defaults ds ps) = fill_defaults ds ps"
    if "\<forall>d \<in> set es. pd_default d \<noteq> None \<longrightarrow> has_key (fill_defaults ds ps) (pd_key d)" for es
    using that by (induction es) (auto simp: fill_defaults.simps(2) split: option.splits)
  moreover have "has_key (fill_defaults ds ps) (pd_key d)" if "d \<in> set ds" "pd_default d \<noteq> None" for d
    using default_of_some [OF that] by (auto simp: get_fill_defaults split: option.splits)
  ultimately show ?thesis by blast
qed

end
