(* ===== verification/PluginPackage.thy ===== *)
theory PluginPackage
  imports StoreSchema "HOL-Library.Word" "HOL-Library.Sublist"
begin

section \<open>Plugin packages (internal/plugin: archive.go, manifest.go, runtime.go, signature.go)\<close>

text \<open>
  Unpacking an archive into a directory, the manifest and its validation, the command that
  starts a plugin, and the bytes that a signature covers. The file system is a list of the
  files and directories that exist, newest first, each under its path from the root; \<open>os\<close>
  says which of them the operating system lets the process create. What the decompressors
  deliver is part of an archive. Paths are those of Unix.
\<close>

subsection \<open>Paths\<close>

text \<open>\<open>filepath.Clean\<close>: one element of the path, on a stack of the elements kept so far.\<close>

fun clean_step :: "bool \<Rightarrow> string \<Rightarrow> string list \<Rightarrow> string list" where
  "clean_step rooted p st =
     (if p = '''' \<or> p = ''.'' then st
      else if p = ''..'' then
        (case st of
           [] \<Rightarrow> if rooted then [] else [''..'']
         | q # qs \<Rightarrow> if q = ''..'' then ''..'' # st else qs)
      else p # st)"

definition clean_parts :: "bool \<Rightarrow> string \<Rightarrow> string list" where
  "clean_parts rooted s = rev (fold (clean_step rooted) (split_on (CHR ''/'') s) [])"

definition is_abs :: "string \<Rightarrow> bool" where
  "is_abs s = has_prefix s ''/''"

definition path_clean :: "string \<Rightarrow> string" where
  "path_clean s =
     (if s = '''' then ''.''
      else let b = join_with ''/'' (clean_parts (is_abs s) s) in
        if is_abs s then ''/'' @ b else if b = '''' then ''.'' else b)"

type_synonym location = "string list"

text \<open>\<open>filepath.Join\<close> of an absolute directory and a name.\<close>

definition locate :: "location \<Rightarrow> string \<Rightarrow> location" where
  "locate dest name = rev (fold (clean_step True) (split_on (CHR ''/'') name) (rev dest))"

definition backslash :: char where "backslash = byte 92"

subsection \<open>Files\<close>

datatype node = Directory | File string

type_synonym file_tree = "(location \<times> node) list"

definition node_at :: "file_tree \<Rightarrow> location \<Rightarrow> node option" where
  "node_at fs p = (if p = [] then Some Directory else map_of fs p)"

fun node_size :: "node \<Rightarrow> nat" where
  "node_size Directory = 0"
| "node_size (File s) = length s"

definition disk_use :: "file_tree \<Rightarrow> nat" where
  "disk_use fs = sum_list (map (node_size \<circ> snd) fs)"

datatype archive_error =
    NotAnArchive
  | ArchiveUnreadable
  | TooManyFiles
  | UnsafePath string
  | DuplicatePath string
  | NotRegular string
  | ArchiveTooLarge
  | UnsafeRatio string
  | EntryTooLarge
  | EntryUnreadable
  | NotDirectory
  | CannotCreate

text \<open>\<open>os.MkdirAll\<close>: the directories from \<open>done\<close> on.\<close>

fun make_dirs ::
    "(location \<Rightarrow> bool) \<Rightarrow> location \<Rightarrow> location \<Rightarrow> file_tree \<Rightarrow> (archive_error + unit) \<times> file_tree" where
  "make_dirs os done [] fs = (Inr (), fs)"
| "make_dirs os done (c # cs) fs =
     (let p = done @ [c] in
      case node_at fs p of
        Some Directory \<Rightarrow> make_dirs os p cs fs
      | Some (File _) \<Rightarrow> (Inl NotDirectory, fs)
      | None \<Rightarrow> if os p then make_dirs os p cs ((p, Directory) # fs) else (Inl CannotCreate, fs))"

subsection \<open>Unpacking\<close>

definition maxArchiveFiles :: nat where "maxArchiveFiles = 256"
definition maxArchiveBytes :: int where "maxArchiveBytes = 268435456"

text \<open>The map \<open>seen\<close> is the list of its keys.\<close>

definition safeArchivePath :: "string \<Rightarrow> string list \<Rightarrow> archive_error + string \<times> string list" where
  "safeArchivePath name0 seen =
     (let name = replace_char backslash ''/'' name0; clean = path_clean name in
      if clean = ''.'' \<or> has_prefix clean ''../'' \<or> has_prefix clean ''/'' \<or> is_abs name
      then Inl (UnsafePath name)
      else if clean \<in> set seen then Inl (DuplicatePath clean)
      else Inr (clean, clean # seen))"

text \<open>
  \<open>writeExtractedFile\<close>: \<open>content\<close> is what the reader delivers; \<open>io.CopyN\<close> fails if that is less
  than expected, and the file then holds what was copied.
\<close>

definition writeExtractedFile ::
    "(location \<Rightarrow> bool) \<Rightarrow> location \<Rightarrow> string \<Rightarrow> int \<Rightarrow> file_tree \<Rightarrow> (archive_error + unit) \<times> file_tree" where
  "writeExtractedFile os path content expected fs =
     (if expected < 0 \<or> expected > maxArchiveBytes then (Inl EntryTooLarge, fs)
      else case make_dirs os [] (butlast path) fs of
        (Inl e, fs1) \<Rightarrow> (Inl e, fs1)
      | (Inr _, fs1) \<Rightarrow>
          if node_at fs1 path \<noteq> None \<or> \<not> os path then (Inl CannotCreate, fs1)
          else ((if length content < nat expected then Inl EntryUnreadable else Inr ()),
                (path, File (take (nat expected) content)) # fs1))"

record zip_entry =
  ze_name :: string
  ze_symlink :: bool
  ze_regular :: bool
  ze_directory :: bool
  ze_uncompressed :: "64 word"
  ze_compressed :: "64 word"
  ze_opens :: bool
  ze_content :: string

text \<open>
  The loop of \<open>extractZIP\<close>. The sizes of an entry are unsigned and converted to \<open>int64\<close>; the
  sum is an \<open>int64\<close> that wraps around.
\<close>

fun zip_entries ::
    "(location \<Rightarrow> bool) \<Rightarrow> location \<Rightarrow> zip_entry list \<Rightarrow> string list \<Rightarrow> 64 word \<Rightarrow> file_tree \<Rightarrow>
     (archive_error + unit) \<times> file_tree" where
  "zip_entries os dest [] seen used fs = (Inr (), fs)"
| "zip_entries os dest (e # es) seen used fs =
     (case safeArchivePath (ze_name e) seen of
        Inl x \<Rightarrow> (Inl x, fs)
      | Inr (name, seen') \<Rightarrow>
          if ze_symlink e \<or> (\<not> ze_regular e \<and> \<not> ze_directory e) then (Inl (NotRegular name), fs)
          else if ze_directory e then
            (case make_dirs os [] (locate dest name) fs of
               (Inl x, fs1) \<Rightarrow> (Inl x, fs1)
             | (Inr _, fs1) \<Rightarrow> zip_entries os dest es seen' used fs1)
          else let used' = used + ze_uncompressed e in
            if sint used' > maxArchiveBytes then (Inl ArchiveTooLarge, fs)
            else if 0 < unat (ze_compressed e) \<and> unat (ze_uncompressed e) div unat (ze_compressed e) > 200
            then (Inl (UnsafeRatio name), fs)
            else if \<not> ze_opens e then (Inl EntryUnreadable, fs)
            else
              (case writeExtractedFile os (locate dest name) (ze_content e) (sint (ze_uncompressed e)) fs of
                 (Inl x, fs1) \<Rightarrow> (Inl x, fs1)
               | (Inr _, fs1) \<Rightarrow> zip_entries os dest es seen' used' fs1))"

definition extractZIP ::
    "(location \<Rightarrow> bool) \<Rightarrow> zip_entry list option \<Rightarrow> location \<Rightarrow> file_tree \<Rightarrow> (archive_error + unit) \<times> file_tree" where
  "extractZIP os entries dest fs =
     (case entries of
        None \<Rightarrow> (Inl ArchiveUnreadable, fs)
      | Some es \<Rightarrow>
          if length es > maxArchiveFiles then (Inl TooManyFiles, fs) else zip_entries os dest es [] 0 fs)"

datatype tar_type = TarDirectory | TarRegular | TarOther

record tar_entry =
  te_name :: string
  te_type :: tar_type
  te_size :: "64 word"
  te_content :: string

text \<open>What \<open>reader.Next\<close> returns, up to the end of the archive: headers, or an error.\<close>

datatype tar_item = TarBroken | TarHeader tar_entry

fun tar_entries ::
    "(location \<Rightarrow> bool) \<Rightarrow> location \<Rightarrow> tar_item list \<Rightarrow> nat \<Rightarrow> string list \<Rightarrow> 64 word \<Rightarrow> file_tree \<Rightarrow>
     (archive_error + unit) \<times> file_tree" where
  "tar_entries os dest [] n seen used fs = (Inr (), fs)"
| "tar_entries os dest (TarBroken # items) n seen used fs = (Inl ArchiveUnreadable, fs)"
| "tar_entries os dest (TarHeader e # items) n seen used fs =
     (if Suc n > maxArchiveFiles then (Inl TooManyFiles, fs)
      else case safeArchivePath (te_name e) seen of
        Inl x \<Rightarrow> (Inl x, fs)
      | Inr (name, seen') \<Rightarrow>
          (case te_type e of
             TarDirectory \<Rightarrow>
               (case make_dirs os [] (locate dest name) fs of
                  (Inl x, fs1) \<Rightarrow> (Inl x, fs1)
                | (Inr _, fs1) \<Rightarrow> tar_entries os dest items (Suc n) seen' used fs1)
           | TarRegular \<Rightarrow>
               let used' = used + te_size e in
               if sint used' > maxArchiveBytes then (Inl ArchiveTooLarge, fs)
               else
                 (case writeExtractedFile os (locate dest name) (te_content e) (sint (te_size e)) fs of
                    (Inl x, fs1) \<Rightarrow> (Inl x, fs1)
                  | (Inr _, fs1) \<Rightarrow> tar_entries os dest items (Suc n) seen' used' fs1)
           | TarOther \<Rightarrow> (Inl (NotRegular name), fs)))"

definition extractTarGZ ::
    "(location \<Rightarrow> bool) \<Rightarrow> tar_item list option \<Rightarrow> location \<Rightarrow> file_tree \<Rightarrow> (archive_error + unit) \<times> file_tree" where
  "extractTarGZ os headers dest fs =
     (case headers of None \<Rightarrow> (Inl ArchiveUnreadable, fs) | Some items \<Rightarrow> tar_entries os dest items 0 [] 0 fs)"

text \<open>An archive file: its name, and its contents as either format, if it can be read as that.\<close>

record archive =
  ar_path :: string
  ar_zip :: "zip_entry list option"
  ar_tar :: "tar_item list option"

definition extractArchive ::
    "(location \<Rightarrow> bool) \<Rightarrow> archive \<Rightarrow> location \<Rightarrow> file_tree \<Rightarrow> (archive_error + unit) \<times> file_tree" where
  "extractArchive os a dest fs =
     (if has_suffix (to_lower (ar_path a)) ''.zip'' then extractZIP os (ar_zip a) dest fs
      else if has_suffix (to_lower (ar_path a)) ''.tar.gz'' then extractTarGZ os (ar_tar a) dest fs
      else (Inl NotAnArchive, fs))"

subsection \<open>What cleaning a path leaves\<close>

text \<open>A name of a file in its directory.\<close>

definition plain_name :: "string \<Rightarrow> bool" where
  "plain_name p \<longleftrightarrow> p \<noteq> '''' \<and> p \<noteq> ''.'' \<and> p \<noteq> ''..'' \<and> CHR ''/'' \<notin> set p"

lemma plain_no_slash: "plain_name p \<Longrightarrow> CHR ''/'' \<notin> set p"
  by (simp add: plain_name_def)

lemma clean_fold_relative:
  assumes "\<forall>p \<in> set ps. CHR ''/'' \<notin> set p" and "\<forall>q \<in> set qs. plain_name q"
  shows "\<exists>k' qs'. fold (clean_step False) ps (rev qs @ replicate k ''..'') = rev qs' @ replicate k' ''..'' \<and>
    (\<forall>q \<in> set qs'. plain_name q)"
  using assms
proof (induction ps arbitrary: qs k)
  case (Cons p ps)
  show ?case
  proof (cases "p = '''' \<or> p = ''.''")
    case True
    then show ?thesis using Cons.IH [of qs k] Cons.prems by auto
  next
    case blank: False
    show ?thesis
    proof (cases "p = ''..''")
      case True
      show ?thesis
      proof (cases qs rule: rev_cases)
        case Nil
        have "clean_step False p (rev qs @ replicate k ''..'') = rev [] @ replicate (Suc k) ''..''"
          using True Nil by (cases k) auto
        then show ?thesis using Cons.IH [of "[]" "Suc k"] Cons.prems by simp
      next
        case (snoc rs r)
        then have "clean_step False p (rev qs @ replicate k ''..'') = rev rs @ replicate k ''..''"
          using True Cons.prems by (auto simp: plain_name_def)
        then show ?thesis using Cons.IH [of rs k] Cons.prems snoc by simp
      qed
    next
      case False
      then have "clean_step False p (rev qs @ replicate k ''..'') = rev (qs @ [p]) @ replicate k ''..''"
        using blank by simp
      moreover have "plain_name p" using False blank Cons.prems by (simp add: plain_name_def)
      ultimately show ?thesis using Cons.IH [of "qs @ [p]" k] Cons.prems by simp
    qed
  qed
qed auto

lemma clean_parts_relative:
  obtains k qs where "clean_parts False s = replicate k ''..'' @ qs" "\<forall>q \<in> set qs. plain_name q"
proof -
  from clean_fold_relative [of "split_on (CHR ''/'') s" "[]" 0] obtain k qs where
    "fold (clean_step False) (split_on (CHR ''/'') s) [] = rev qs @ replicate k ''..''" "\<forall>q \<in> set qs. plain_name q"
    by (auto dest: split_on_parts)
  then have "clean_parts False s = replicate k ''..'' @ qs" "\<forall>q \<in> set qs. plain_name q"
    by (simp_all add: clean_parts_def)
  then show ?thesis by (rule that)
qed

lemma locate_names: "\<forall>q \<in> set qs. plain_name q \<Longrightarrow> fold (clean_step True) qs st = rev qs @ st"
  by (induction qs arbitrary: st) (auto simp: plain_name_def)

text \<open>Where the entry of a path that was accepted goes: below the directory, or to its parent.\<close>

lemma locate_clean:
  assumes "\<not> is_abs name" and "path_clean name \<noteq> ''.''" and "\<not> has_prefix (path_clean name) ''../''"
    and "\<forall>d \<in> set dest. plain_name d"
  obtains (below) qs where "qs \<noteq> []" "\<forall>q \<in> set qs. plain_name q" "locate dest (path_clean name) = dest @ qs"
      "path_clean name = join_with ''/'' qs"
    | (parent) "path_clean name = ''..''" "locate dest (path_clean name) = butlast dest"
proof -
  obtain k qs where ps: "clean_parts False name = replicate k ''..'' @ qs" and plain: "\<forall>q \<in> set qs. plain_name q"
    by (rule clean_parts_relative)
  let ?b = "join_with ''/'' (clean_parts False name)"
  have c: "path_clean name = ?b" and ne: "clean_parts False name \<noteq> []"
    using assms(1,2) by (auto simp: path_clean_def Let_def split: if_splits)
  have noslash: "\<forall>p \<in> set (clean_parts False name). CHR ''/'' \<notin> set p"
  proof
    fix p assume "p \<in> set (clean_parts False name)"
    then have "p = ''..'' \<or> p \<in> set qs" by (auto simp: ps)
    then show "CHR ''/'' \<notin> set p" using plain plain_no_slash [of p] by (elim disjE) simp_all
  qed
  have split: "split_on (CHR ''/'') ?b = clean_parts False name" by (rule split_join [OF ne noslash])
  show ?thesis
  proof (cases k)
    case 0
    have "locate dest (path_clean name) = dest @ qs"
      using plain by (simp add: locate_def c split) (simp add: ps 0 locate_names)
    with plain ne c 0 ps show ?thesis by (intro below [of qs]) auto
  next
    case (Suc j)
    have "replicate j ''..'' @ qs = []"
    proof (rule ccontr)
      assume "replicate j ''..'' @ qs \<noteq> []"
      then obtain x xs where "replicate j ''..'' @ qs = x # xs" by (meson list.exhaust)
      then have "path_clean name = ''../'' @ join_with ''/'' (x # xs)" by (simp add: c ps Suc)
      with assms(3) show False by (auto simp: has_prefix_iff)
    qed
    then have "clean_parts False name = [''..'']" by (simp add: ps Suc)
    then have pc: "path_clean name = ''..''" by (simp add: c)
    have "locate dest ''..'' = rev (clean_step True ''..'' (rev dest))"
      by (simp add: locate_def)
    also have "\<dots> = butlast dest"
    proof (cases dest rule: rev_cases)
      case (snoc ds d)
      then have "d \<noteq> ''..''" using assms(4) by (simp add: plain_name_def)
      with snoc show ?thesis by simp
    qed simp
    finally show ?thesis using pc by (intro parent) simp_all
  qed
qed

subsection \<open>Unpacking adds files below the directory\<close>

definition dirs_exist :: "location \<Rightarrow> file_tree \<Rightarrow> bool" where
  "dirs_exist dest fs \<longleftrightarrow> (\<forall>p. prefix p dest \<longrightarrow> node_at fs p = Some Directory)"

text \<open>\<open>fs'\<close> is \<open>fs\<close> with new files and directories strictly below \<open>dest\<close>.\<close>

definition grows :: "location \<Rightarrow> file_tree \<Rightarrow> file_tree \<Rightarrow> bool" where
  "grows dest fs fs' \<longleftrightarrow>
     (\<exists>new. fs' = new @ fs \<and> (\<forall>p \<in> fst ` set new. strict_prefix dest p \<and> node_at fs p = None))"

lemma node_at_append: "node_at (new @ fs) p =
    (if p = [] then Some Directory else case map_of new p of Some n \<Rightarrow> Some n | None \<Rightarrow> node_at fs p)"
  by (simp add: node_at_def map_add_def split: option.splits)

lemma node_at_Cons: "node_at ((q, n) # fs) p = (if p = q \<and> p \<noteq> [] then Some n else node_at fs p)"
  by (simp add: node_at_def)

lemma grows_refl [simp, intro]: "grows dest fs fs"
  unfolding grows_def by (rule exI [of _ "[]"]) simp

lemma grows_node:
  "grows dest fs fs' \<Longrightarrow> node_at fs p = Some n \<Longrightarrow> node_at fs' p = Some n"
proof -
  assume g: "grows dest fs fs'" and n: "node_at fs p = Some n"
  then obtain new where new: "fs' = new @ fs" "\<forall>p \<in> fst ` set new. strict_prefix dest p \<and> node_at fs p = None"
    by (auto simp: grows_def)
  with n have "map_of new p = None" by (auto simp: map_of_eq_None_iff)
  with new n show ?thesis by (cases "p = []") (auto simp: node_at_append, simp add: node_at_def)
qed

lemma grows_trans:
  assumes "grows dest fs fs1" and "grows dest fs1 fs2"
  shows "grows dest fs fs2"
proof -
  from assms obtain new1 new2 where n: "fs1 = new1 @ fs" "fs2 = new2 @ fs1"
    "\<forall>p \<in> fst ` set new1. strict_prefix dest p \<and> node_at fs p = None"
    "\<forall>p \<in> fst ` set new2. strict_prefix dest p \<and> node_at fs1 p = None"
    by (auto simp: grows_def)
  have "node_at fs p = None" if "node_at fs1 p = None" for p
    using grows_node [OF assms(1)] that by (cases "node_at fs p") auto
  with n show ?thesis unfolding grows_def by (intro exI [of _ "new2 @ new1"]) auto
qed

lemma grows_add: "strict_prefix dest p \<Longrightarrow> node_at fs p = None \<Longrightarrow> grows dest fs ((p, n) # fs)"
  unfolding grows_def by (rule exI [of _ "[(p, n)]"]) simp

lemma grows_dirs: "grows dest fs fs' \<Longrightarrow> dirs_exist dest fs \<Longrightarrow> dirs_exist dest fs'"
  by (auto simp: dirs_exist_def dest: grows_node)

lemma disk_use_Cons [simp]: "disk_use ((p, n) # fs) = node_size n + disk_use fs"
  by (simp add: disk_use_def)

lemma make_dirs_grows:
  assumes "dirs_exist dest fs" and "prefix dest (done @ cs) \<or> prefix (done @ cs) dest"
    and "make_dirs os done cs fs = (r, fs')"
  shows "grows dest fs fs' \<and> disk_use fs' = disk_use fs \<and>
    (r = Inr () \<longrightarrow> cs \<noteq> [] \<longrightarrow> node_at fs' (done @ cs) = Some Directory)"
  using assms
proof (induction os "done" cs fs arbitrary: r fs' rule: make_dirs.induct)
  case (2 os "done" c cs fs)
  let ?p = "done @ [c]"
  have pre: "prefix dest (?p @ cs) \<or> prefix (?p @ cs) dest" using "2.prems"(2) by simp
  show ?case
  proof (cases "node_at fs ?p")
    case None
    have "\<not> prefix ?p dest" using None "2.prems"(1) by (auto simp: dirs_exist_def)
    moreover have "prefix ?p dest \<or> prefix dest ?p"
      using pre by (meson prefix_same_cases prefix_def append_prefixD prefix_order.trans)
    ultimately have s: "strict_prefix dest ?p" by (auto simp: strict_prefix_def)
    show ?thesis
    proof (cases "os ?p")
      case True
      let ?fs = "(?p, Directory) # fs"
      have g: "grows dest fs ?fs" using s None by (rule grows_add)
      then have "dirs_exist dest ?fs" using "2.prems"(1) by (rule grows_dirs)
      moreover have "make_dirs os ?p cs ?fs = (r, fs')" using "2.prems"(3) None True by (simp add: Let_def)
      ultimately have "grows dest ?fs fs' \<and> disk_use fs' = disk_use ?fs \<and>
          (r = Inr () \<longrightarrow> cs \<noteq> [] \<longrightarrow> node_at fs' (?p @ cs) = Some Directory)"
        using "2.IH"(1) [OF refl None True _ pre] by blast
      moreover have "node_at ?fs ?p = Some Directory" by (simp add: node_at_def)
      ultimately show ?thesis using grows_trans [OF g] grows_node [of dest ?fs fs' ?p]
        by (cases cs) auto
    next
      case False
      with None "2.prems" show ?thesis by auto
    qed
  next
    case (Some n)
    show ?thesis
    proof (cases n)
      case Directory
      have "make_dirs os ?p cs fs = (r, fs')" using "2.prems"(3) Some Directory by (simp add: Let_def)
      with "2.IH"(2) [OF refl Some Directory "2.prems"(1) pre]
      have "grows dest fs fs' \<and> disk_use fs' = disk_use fs \<and>
          (r = Inr () \<longrightarrow> cs \<noteq> [] \<longrightarrow> node_at fs' (?p @ cs) = Some Directory)" by blast
      then show ?thesis using Some Directory grows_node [of dest fs fs' ?p] by (cases cs) auto
    next
      case (File s)
      with Some "2.prems" show ?thesis by auto
    qed
  qed
qed auto

text \<open>Where accepted entries go.\<close>

definition target :: "location \<Rightarrow> location \<Rightarrow> bool" where
  "target dest p \<longleftrightarrow> strict_prefix dest p \<or> p = butlast dest"

lemma safe_target:
  assumes "safeArchivePath n seen = Inr (name, seen')" and "\<forall>d \<in> set dest. plain_name d"
  shows "target dest (locate dest name)"
proof -
  let ?n = "replace_char backslash ''/'' n"
  from assms(1) have n: "name = path_clean ?n" "\<not> is_abs ?n" "path_clean ?n \<noteq> ''.''"
    "\<not> has_prefix (path_clean ?n) ''../''"
    by (auto simp: safeArchivePath_def Let_def split: if_splits)
  show ?thesis
    by (rule locate_clean [OF n(2-4) assms(2)]) (auto simp: target_def n(1) strict_prefix_def)
qed

lemma target_prefix: "target dest p \<Longrightarrow> prefix dest p \<or> prefix p dest"
  by (auto simp: target_def strict_prefix_def prefixeq_butlast)

lemma make_dirs_target:
  assumes "dirs_exist dest fs" and "target dest p" and "make_dirs os [] p fs = (r, fs')"
  shows "grows dest fs fs'" "disk_use fs' = disk_use fs"
    "r = Inr () \<Longrightarrow> node_at fs' p = Some Directory"
  using make_dirs_grows [OF assms(1), of "[]" p os r fs'] target_prefix [OF assms(2)] assms(3)
  by (auto simp: node_at_def)

lemma butlast_target:
  assumes "target dest p"
  shows "prefix dest (butlast p) \<or> prefix (butlast p) dest"
proof (cases "p = butlast dest")
  case True
  then have "prefix (butlast p) dest"
    by (metis prefix_order.trans prefixeq_butlast)
  then show ?thesis ..
next
  case False
  with assms have "strict_prefix dest p" by (simp add: target_def)
  then obtain q qs where "p = dest @ q # qs" by (elim strict_prefixE')
  then show ?thesis by (simp add: butlast_append)
qed

lemma writeExtractedFile_grows:
  assumes "dirs_exist dest fs" and "target dest p"
    and "writeExtractedFile os p content k fs = (r, fs')"
  shows "grows dest fs fs'"
    and "r = Inr () \<Longrightarrow> node_at fs' p = Some (File (take (nat k) content)) \<and> nat k \<le> length content \<and> 0 \<le> k"
    and "disk_use fs' \<le> disk_use fs + (if 0 \<le> k \<and> k \<le> maxArchiveBytes then nat k else 0)"
proof -
  obtain r1 fs1 where m: "make_dirs os [] (butlast p) fs = (r1, fs1)" by (metis surj_pair)
  from make_dirs_grows [OF assms(1) _ m] butlast_target [OF assms(2)]
  have g1: "grows dest fs fs1" and d1: "disk_use fs1 = disk_use fs" by simp_all
  have s: "strict_prefix dest p" if "node_at fs1 p = None"
  proof -
    have "\<not> prefix p dest"
      using grows_dirs [OF g1 assms(1)] that by (auto simp: dirs_exist_def)
    then have "p \<noteq> butlast dest" by (auto simp: prefixeq_butlast)
    with assms(2) show ?thesis by (simp add: target_def)
  qed
  note w = assms(3) [unfolded writeExtractedFile_def m]
  have g2: "grows dest fs ((p, n) # fs1)" if "node_at fs1 p = None" for n
    using grows_trans [OF g1 grows_add [OF s [OF that] that]] .
  show "grows dest fs fs'"
    using w g1 g2 by (auto split: if_splits sum.splits)
  show "disk_use fs' \<le> disk_use fs + (if 0 \<le> k \<and> k \<le> maxArchiveBytes then nat k else 0)"
    using w d1 by (auto split: if_splits sum.splits)
  assume "r = Inr ()"
  then have "node_at fs1 p = None" "fs' = (p, File (take (nat k) content)) # fs1" "nat k \<le> length content" "0 \<le> k"
    using w by (auto split: if_splits sum.splits)
  moreover have "p \<noteq> []" using s [OF calculation(1)] by auto
  ultimately show "node_at fs' p = Some (File (take (nat k) content)) \<and> nat k \<le> length content \<and> 0 \<le> k"
    by (simp add: node_at_def)
qed

subsection \<open>The limit on the size\<close>

lemma sint_add:
  fixes a b :: "64 word"
  assumes "0 \<le> sint a" and "sint a \<le> maxArchiveBytes" and "0 \<le> sint b" and "sint b \<le> maxArchiveBytes"
  shows "sint (a + b) = sint a + sint b"
  using assms by (simp add: sint_word_ariths signed_take_bit_int_eq_self maxArchiveBytes_def)

text \<open>From \<open>fs\<close> to \<open>fs'\<close> files came below \<open>dest\<close>, of no more bytes than were added to \<open>used\<close>.\<close>

definition budget :: "location \<Rightarrow> 64 word \<Rightarrow> file_tree \<Rightarrow> 64 word \<Rightarrow> file_tree \<Rightarrow> bool" where
  "budget dest used fs used' fs' \<longleftrightarrow>
     grows dest fs fs' \<and> 0 \<le> sint used' \<and> sint used' \<le> maxArchiveBytes \<and>
     int (disk_use fs') + sint used \<le> int (disk_use fs) + sint used'"

lemma budget_trans: "budget dest u fs u1 fs1 \<Longrightarrow> budget dest u1 fs1 u2 fs2 \<Longrightarrow> budget dest u fs u2 fs2"
  by (auto simp: budget_def intro: grows_trans)

lemma budget_dirs:
  assumes "budget dest u fs u fs" and "dirs_exist dest fs" and "target dest p" and "make_dirs os [] p fs = (r, fs')"
  shows "budget dest u fs u fs'"
  using make_dirs_target [OF assms(2-4)] assms(1) by (simp add: budget_def)

lemma budget_write:
  assumes "budget dest u fs u fs" and "dirs_exist dest fs" and "target dest p"
    and "sint (u + k) \<le> maxArchiveBytes" and "writeExtractedFile os p content (sint k) fs = (r, fs')"
  shows "\<exists>u'. budget dest u fs u' fs' \<and> (r = Inr () \<longrightarrow> u' = u + k)"
proof (cases "0 \<le> sint k \<and> sint k \<le> maxArchiveBytes")
  case True
  note w = writeExtractedFile_grows [OF assms(2,3,5)]
  have "sint (u + k) = sint u + sint k" using True assms(1) by (intro sint_add) (simp_all add: budget_def)
  moreover have "int (disk_use fs') \<le> int (disk_use fs) + sint k" using w(3) True by auto
  ultimately have "budget dest u fs (u + k) fs'" using w(1) True assms(1,4) by (simp add: budget_def)
  then show ?thesis by blast
next
  case False
  then have "r = Inl EntryTooLarge" "fs' = fs" using assms(5) by (auto simp: writeExtractedFile_def)
  with assms(1) show ?thesis by auto
qed

lemma budget_start: "budget dest u fs u' fs' \<Longrightarrow> budget dest u' fs' u' fs'"
  by (simp add: budget_def)

lemma budget_exists: "budget dest u fs u' fs' \<Longrightarrow> dirs_exist dest fs \<Longrightarrow> dirs_exist dest fs'"
  by (auto simp: budget_def intro: grows_dirs)

lemma zip_entries_budget:
  assumes "dirs_exist dest fs" and "\<forall>d \<in> set dest. plain_name d" and "budget dest used fs used fs"
    and "zip_entries os dest es seen used fs = (r, fs')"
  shows "\<exists>used'. budget dest used fs used' fs'"
  using assms
proof (induction es arbitrary: seen used fs)
  case (Cons e es)
  note dirs = Cons.prems(1) and start = Cons.prems(3) and z = Cons.prems(4)
  have rest: "\<exists>u'. budget dest used fs u' fs'"
    if b: "budget dest used fs u1 fs1" and "zip_entries os dest es s u1 fs1 = (r, fs')" for s u1 fs1
    using Cons.IH [OF budget_exists [OF b dirs] Cons.prems(2) budget_start [OF b] that(2)] budget_trans [OF b] by blast
  show ?case
  proof (cases "safeArchivePath (ze_name e) seen")
    case (Inr ns)
    obtain name s where "ns = (name, s)" by (cases ns)
    note safe = Inr [unfolded this]
    have t: "target dest (locate dest name)" by (rule safe_target [OF safe Cons.prems(2)])
    obtain r1 fs1 where m: "make_dirs os [] (locate dest name) fs = (r1, fs1)" by (metis surj_pair)
    obtain r2 fs2 where w: "writeExtractedFile os (locate dest name) (ze_content e) (sint (ze_uncompressed e)) fs = (r2, fs2)"
      by (metis surj_pair)
    note b1 = budget_dirs [OF start dirs t m]
    note b2 = budget_write [OF start dirs t _ w]
    from z safe m w b1 b2 start rest [of used fs1 s] rest [of _ fs2 s] show ?thesis
      by (auto simp: Let_def split: if_splits sum.splits)
  qed (use z start in auto)
qed auto

lemma tar_entries_budget:
  assumes "dirs_exist dest fs" and "\<forall>d \<in> set dest. plain_name d" and "budget dest used fs used fs"
    and "tar_entries os dest items n seen used fs = (r, fs')"
  shows "\<exists>used'. budget dest used fs used' fs'"
  using assms
proof (induction items arbitrary: n seen used fs)
  case (Cons item items)
  note dirs = Cons.prems(1) and start = Cons.prems(3) and z = Cons.prems(4)
  have rest: "\<exists>u'. budget dest used fs u' fs'"
    if b: "budget dest used fs u1 fs1" and "tar_entries os dest items k s u1 fs1 = (r, fs')" for k s u1 fs1
    using Cons.IH [OF budget_exists [OF b dirs] Cons.prems(2) budget_start [OF b] that(2)] budget_trans [OF b] by blast
  show ?case
  proof (cases item)
    case (TarHeader e)
    show ?thesis
    proof (cases "safeArchivePath (te_name e) seen")
      case (Inr ns)
      obtain name s where "ns = (name, s)" by (cases ns)
      note safe = Inr [unfolded this]
      have t: "target dest (locate dest name)" by (rule safe_target [OF safe Cons.prems(2)])
      obtain r1 fs1 where m: "make_dirs os [] (locate dest name) fs = (r1, fs1)" by (metis surj_pair)
      obtain r2 fs2 where w: "writeExtractedFile os (locate dest name) (te_content e) (sint (te_size e)) fs = (r2, fs2)"
        by (metis surj_pair)
      note b1 = budget_dirs [OF start dirs t m]
      note b2 = budget_write [OF start dirs t _ w]
      from z safe m w b1 b2 start rest [of used fs1 "Suc n" s] rest [of _ fs2 "Suc n" s] TarHeader show ?thesis
        by (auto simp: Let_def split: if_splits sum.splits tar_type.splits)
    qed (use z start TarHeader in \<open>auto split: if_splits\<close>)
  qed (use z start in auto)
qed auto

lemma extractArchive_budget:
  assumes "dirs_exist dest fs" and "\<forall>d \<in> set dest. plain_name d" and "extractArchive os a dest fs = (r, fs')"
  shows "\<exists>used'. budget dest 0 fs used' fs'"
proof -
  have start: "budget dest 0 fs 0 fs" by (simp add: budget_def maxArchiveBytes_def)
  note z = zip_entries_budget [OF assms(1,2) start] and t = tar_entries_budget [OF assms(1,2) start]
  from assms(3) start show ?thesis
    by (auto simp: extractArchive_def extractZIP_def extractTarGZ_def split: if_splits option.splits
        intro: z t)
qed

text \<open>
  C22: Unpacking a plugin package cannot escape its directory or replace a file. Whatever the
  archive contains, and whether the extraction succeeds or fails half way, it only adds
  entries, each strictly below the directory (which exists and whose path is clean) and where
  nothing existed, and together the added files have at most 256 MiB, although the sizes in
  the headers are numbers of 64 bits whose sum can wrap around.
\<close>

theorem extraction_contained:
  assumes "dirs_exist dest fs" and "\<forall>d \<in> set dest. plain_name d" and "extractArchive os a dest fs = (r, fs')"
  shows "\<exists>new. fs' = new @ fs \<and> (\<forall>p \<in> fst ` set new. strict_prefix dest p \<and> node_at fs p = None) \<and>
    disk_use new \<le> 268435456"
proof -
  obtain used' where b: "budget dest 0 fs used' fs'" using extractArchive_budget [OF assms] by blast
  then obtain new where n: "fs' = new @ fs" "\<forall>p \<in> fst ` set new. strict_prefix dest p \<and> node_at fs p = None"
    by (auto simp: budget_def grows_def)
  have "disk_use fs' = disk_use new + disk_use fs" by (simp add: n(1) disk_use_def)
  with b have "disk_use new \<le> 268435456" by (simp add: budget_def maxArchiveBytes_def)
  with n show ?thesis by blast
qed

text \<open>Archives of the examples: one that tries to escape, and one with a directory and a file.\<close>

definition example_file :: "string \<Rightarrow> string \<Rightarrow> zip_entry" where
  "example_file name content =
     \<lparr>ze_name = name, ze_symlink = False, ze_regular = True, ze_directory = False,
      ze_uncompressed = of_nat (length content), ze_compressed = of_nat (length content),
      ze_opens = True, ze_content = content\<rparr>"

definition example_stage :: location where "example_stage = [''tmp'', ''stage'']"

definition example_tree :: file_tree where
  "example_tree = [([''tmp'', ''stage''], Directory), ([''tmp''], Directory)]"

lemma example_stage_ok: "dirs_exist example_stage example_tree" "\<forall>d \<in> set example_stage. plain_name d"
  by (auto simp: dirs_exist_def example_stage_def example_tree_def node_at_def prefix_Cons)
    (simp_all add: plain_name_def)

lemma extraction_contained_witness:
  "\<exists>new. snd (extractArchive (\<lambda>_. True)
       \<lparr>ar_path = ''p.zip'', ar_zip = Some [example_file ''bin/plugin'' ''abc'', example_file ''../x'' ''d''], ar_tar = None\<rparr>
       example_stage example_tree) = new @ example_tree \<and>
     (\<forall>p \<in> fst ` set new. strict_prefix example_stage p \<and> node_at example_tree p = None) \<and> disk_use new \<le> 268435456"
  by (rule extraction_contained [OF example_stage_ok]) (rule surjective_pairing)

text \<open>Where the entry of a name is put, and what is there after it was unpacked.\<close>

definition entry_location :: "location \<Rightarrow> string \<Rightarrow> location" where
  "entry_location dest name = locate dest (path_clean (replace_char backslash ''/'' name))"

definition zip_unpacked :: "zip_entry \<Rightarrow> node \<Rightarrow> bool" where
  "zip_unpacked e n \<longleftrightarrow>
     (if ze_directory e then n = Directory
      else n = File (take (unat (ze_uncompressed e)) (ze_content e)) \<and>
        unat (ze_uncompressed e) \<le> length (ze_content e))"

lemma nat_sint:
  fixes w :: "64 word"
  assumes "0 \<le> sint w"
  shows "nat (sint w) = unat w"
proof -
  have "sint w < 2 ^ 64" using sint_lt [of w] by simp
  with assms have "uint w = sint w" by (simp add: uint_sint take_bit_int_eq_self)
  then show ?thesis by (metis unat_eq_nat_uint)
qed

lemma zip_entries_complete:
  assumes "dirs_exist dest fs" and "\<forall>d \<in> set dest. plain_name d" and "budget dest used fs used fs"
    and "zip_entries os dest es seen used fs = (Inr (), fs')" and "e \<in> set es"
  shows "\<exists>n. node_at fs' (entry_location dest (ze_name e)) = Some n \<and> zip_unpacked e n"
  using assms
proof (induction es arbitrary: seen used fs)
  case (Cons x es)
  note dirs = Cons.prems(1) and start = Cons.prems(3) and z = Cons.prems(4)
  from z obtain name s where safe: "safeArchivePath (ze_name x) seen = Inr (name, s)"
    by (auto split: sum.splits)
  have name: "locate dest name = entry_location dest (ze_name x)"
    using safe by (auto simp: entry_location_def safeArchivePath_def Let_def split: if_splits)
  have t: "target dest (locate dest name)" by (rule safe_target [OF safe Cons.prems(2)])
  obtain r1 fs1 where m: "make_dirs os [] (locate dest name) fs = (r1, fs1)" by (metis surj_pair)
  obtain r2 fs2 where w: "writeExtractedFile os (locate dest name) (ze_content x) (sint (ze_uncompressed x)) fs = (r2, fs2)"
    by (metis surj_pair)
  have "\<exists>fs3 u3 n. zip_entries os dest es s u3 fs3 = (Inr (), fs') \<and> budget dest used fs u3 fs3 \<and>
      node_at fs3 (locate dest name) = Some n \<and> zip_unpacked x n"
  proof (cases "ze_directory x")
    case True
    then have "r1 = Inr ()" "zip_entries os dest es s used fs1 = (Inr (), fs')"
      using z safe m by (auto split: if_splits sum.splits)
    moreover have "node_at fs1 (locate dest name) = Some Directory"
      using make_dirs_target(3) [OF dirs t m] calculation(1) by simp
    ultimately show ?thesis using budget_dirs [OF start dirs t m] True
      by (auto simp: zip_unpacked_def)
  next
    case False
    then have r: "r2 = Inr ()" "sint (used + ze_uncompressed x) \<le> maxArchiveBytes"
        "zip_entries os dest es s (used + ze_uncompressed x) fs2 = (Inr (), fs')"
      using z safe w by (auto simp: Let_def split: if_splits sum.splits)
    have f: "node_at fs2 (locate dest name) = Some (File (take (nat (sint (ze_uncompressed x))) (ze_content x)))"
        "nat (sint (ze_uncompressed x)) \<le> length (ze_content x)" "0 \<le> sint (ze_uncompressed x)"
      using writeExtractedFile_grows(2) [OF dirs t w r(1)] by auto
    have "nat (sint (ze_uncompressed x)) = unat (ze_uncompressed x)"
      using f(3) by (rule nat_sint)
    with f False have "zip_unpacked x (File (take (nat (sint (ze_uncompressed x))) (ze_content x)))"
      by (simp add: zip_unpacked_def)
    with r(3) f(1) budget_write [OF start dirs t r(2) w] r(1) show ?thesis by blast
  qed
  then obtain fs3 u3 n where n: "zip_entries os dest es s u3 fs3 = (Inr (), fs')" "budget dest used fs u3 fs3"
    "node_at fs3 (locate dest name) = Some n" "zip_unpacked x n" by blast
  have dirs3: "dirs_exist dest fs3" by (rule budget_exists [OF n(2) dirs])
  show ?case
  proof (cases "e = x")
    case True
    obtain u4 where "budget dest u3 fs3 u4 fs'"
      using zip_entries_budget [OF dirs3 Cons.prems(2) budget_start [OF n(2)] n(1)] by blast
    then have "grows dest fs3 fs'" by (simp add: budget_def)
    then show ?thesis using grows_node n(3,4) True name by metis
  next
    case False
    with Cons.prems(5) have "e \<in> set es" by simp
    then show ?thesis by (rule Cons.IH [OF dirs3 Cons.prems(2) budget_start [OF n(2)] n(1)])
  qed
qed simp

text \<open>
  A package that unpacks was unpacked completely: every directory of a zip archive is a
  directory at its cleaned path below the target, and every other entry a file there with
  exactly the bytes its header announces. No entry of the archive overwrites another.
\<close>

theorem extraction_complete:
  assumes "dirs_exist dest fs" and "\<forall>d \<in> set dest. plain_name d"
    and "extractZIP os (Some es) dest fs = (Inr (), fs')" and "e \<in> set es"
  shows "\<exists>n. node_at fs' (entry_location dest (ze_name e)) = Some n \<and> zip_unpacked e n"
proof -
  have "budget dest 0 fs 0 fs" by (simp add: budget_def maxArchiveBytes_def)
  moreover have "zip_entries os dest es [] 0 fs = (Inr (), fs')"
    using assms(3) by (auto simp: extractZIP_def split: if_splits)
  ultimately show ?thesis using zip_entries_complete [OF assms(1,2)] assms(4) by blast
qed

lemma example_unpacks:
  "fst (extractZIP (\<lambda>_. True) (Some [example_file ''plugin'' ''abc'']) example_stage example_tree) = Inr ()"
  by code_simp

lemma extraction_complete_witness:
  "\<exists>n. node_at (snd (extractZIP (\<lambda>_. True) (Some [example_file ''plugin'' ''abc'']) example_stage example_tree))
      (entry_location example_stage ''plugin'') = Some n \<and> zip_unpacked (example_file ''plugin'' ''abc'') n"
proof -
  have "extractZIP (\<lambda>_. True) (Some [example_file ''plugin'' ''abc'']) example_stage example_tree =
      (Inr (), snd (extractZIP (\<lambda>_. True) (Some [example_file ''plugin'' ''abc'']) example_stage example_tree))"
    using example_unpacks by (simp add: prod_eq_iff)
  from extraction_complete [OF example_stage_ok this, of "example_file ''plugin'' ''abc''"]
  show ?thesis by (simp add: example_file_def)
qed

section \<open>The manifest\<close>

record artifact_runtime =
  rt_mode :: string
  rt_command :: string
  rt_args :: "string list option"

record artifact =
  af_goos :: string
  af_goarch :: string
  af_path :: string
  af_size :: int
  af_sha256 :: string
  af_runtime :: "artifact_runtime option"

record manifest =
  mf_schema_version :: int
  mf_id :: string
  mf_name :: string
  mf_version :: string
  mf_vendor :: string
  mf_description :: string
  mf_url :: string
  mf_protocol_min :: int
  mf_protocol_max :: int
  mf_modules :: "plugin_module list"
  mf_runtime :: "artifact_runtime option"
  mf_artifacts :: "artifact list"

datatype manifest_error =
    SchemaVersion int
  | InvalidID string
  | NameRequired
  | InvalidPluginURL
  | InvalidVersion string
  | ProtocolRangeInvalid
  | ProtocolUnsupported
  | NoModules
  | InvalidModuleType string
  | DuplicateModuleType string
  | ModuleVersions string
  | RuntimeRequired
  | RuntimeInvalid manifest_error
  | DirectCommand
  | DirectArgsMissing
  | DirectArtifact
  | InterpreterCommand string
  | InterpreterArgsEmpty
  | InterpreterArtifact
  | ModeInvalid
  | TooManyArgs
  | InvalidArg
  | ArtifactTarget string string
  | ArtifactPath string
  | ArtifactDigest string
  | DuplicateTarget string
  | DuplicateArtifactPath string
  | ArtifactCount nat
  | CommandUnavailable string
  | ManifestMissing
  | ManifestUndecodable

subsection \<open>The regular expressions\<close>

definition lower_alnum :: "char \<Rightarrow> bool" where
  "lower_alnum c \<longleftrightarrow> (97 \<le> ord c \<and> ord c \<le> 122) \<or> is_digit c"

definition alnum :: "char \<Rightarrow> bool" where
  "alnum c \<longleftrightarrow> lower_alnum c \<or> (65 \<le> ord c \<and> ord c \<le> 90)"

text \<open>\<open>identityPattern\<close>: runs of letters and digits with one separator between them.\<close>

fun identity_from :: "bool \<Rightarrow> string \<Rightarrow> bool" where
  "identity_from after_alnum [] = after_alnum"
| "identity_from after_alnum (c # cs) =
     (if lower_alnum c then identity_from True cs
      else c \<in> {CHR ''.'', CHR ''_'', CHR ''-''} \<and> after_alnum \<and> identity_from False cs)"

definition identityPattern :: "string \<Rightarrow> bool" where
  "identityPattern s = identity_from False s"

text \<open>\<open>versionPattern\<close>: three numbers, then perhaps a suffix.\<close>

definition digits_then :: "string \<Rightarrow> string option" where
  "digits_then s = (if takeWhile is_digit s = '''' then None else Some (dropWhile is_digit s))"

definition dot_then :: "string \<Rightarrow> string option" where
  "dot_then s = (case s of c # r \<Rightarrow> if c = CHR ''.'' then Some r else None | [] \<Rightarrow> None)"

definition suffix_ok :: "string \<Rightarrow> bool" where
  "suffix_ok s =
     (case s of
        [] \<Rightarrow> True
      | c # r \<Rightarrow> c \<in> {CHR ''-'', CHR ''+''} \<and> r \<noteq> '''' \<and>
          list_all (\<lambda>x. alnum x \<or> x = CHR ''.'' \<or> x = CHR ''-'') r)"

definition versionPattern :: "string \<Rightarrow> bool" where
  "versionPattern s =
     (case Option.bind (digits_then s) (\<lambda>s1. Option.bind (dot_then s1) (\<lambda>s2.
             Option.bind (digits_then s2) (\<lambda>s3. Option.bind (dot_then s3) digits_then))) of
        None \<Rightarrow> False
      | Some r \<Rightarrow> suffix_ok r)"

definition artifactTargetPattern :: "string \<Rightarrow> bool" where
  "artifactTargetPattern s \<longleftrightarrow> s \<noteq> '''' \<and> list_all lower_alnum s"

definition hex_char :: "char \<Rightarrow> bool" where
  "hex_char c \<longleftrightarrow> is_digit c \<or> (97 \<le> ord c \<and> ord c \<le> 102) \<or> (65 \<le> ord c \<and> ord c \<le> 70)"

definition artifactHashPattern :: "string \<Rightarrow> bool" where
  "artifactHashPattern s \<longleftrightarrow> length s = 64 \<and> list_all hex_char s"

definition runtimeCommandPattern :: "string \<Rightarrow> bool" where
  "runtimeCommandPattern s =
     (case s of
        [] \<Rightarrow> False
      | c # r \<Rightarrow> alnum c \<and> list_all (\<lambda>x. alnum x \<or> x \<in> {CHR ''.'', CHR ''_'', CHR ''+'', CHR ''-''}) r)"

subsection \<open>Validation\<close>

fun args_ok :: "string list \<Rightarrow> bool" where
  "args_ok [] = True"
| "args_ok (a # as) = (\<not> (a = '''' \<or> length a > 4096 \<or> byte 0 \<in> set a) \<and> args_ok as)"

definition validateRuntimeArgs :: "string list \<Rightarrow> manifest_error + unit" where
  "validateRuntimeArgs as =
     (if length as > 32 then Inl TooManyArgs else if args_ok as then Inr () else Inl InvalidArg)"

definition artifact_argument :: string where "artifact_argument = ''{artifact}''"

text \<open>The length of nil is 0.\<close>

definition runtime_args :: "artifact_runtime \<Rightarrow> string list" where
  "runtime_args r = (case rt_args r of None \<Rightarrow> [] | Some as \<Rightarrow> as)"

definition validate_runtime :: "artifact_runtime \<Rightarrow> manifest_error + unit" where
  "validate_runtime r =
     (if rt_mode r = ''direct'' then
        if rt_command r \<noteq> '''' then Inl DirectCommand
        else if rt_args r = None then Inl DirectArgsMissing
        else ok_then (validateRuntimeArgs (runtime_args r)) (\<lambda>_.
          if artifact_argument \<in> set (runtime_args r) then Inl DirectArtifact else Inr ())
      else if rt_mode r = ''interpreter'' then
        if \<not> runtimeCommandPattern (rt_command r) then Inl (InterpreterCommand (rt_command r))
        else if runtime_args r = [] then Inl InterpreterArgsEmpty
        else ok_then (validateRuntimeArgs (runtime_args r)) (\<lambda>_.
          if count_list (runtime_args r) artifact_argument \<noteq> 1 then Inl InterpreterArtifact else Inr ())
      else Inl ModeInvalid)"

definition validate_artifact :: "artifact \<Rightarrow> manifest_error + unit" where
  "validate_artifact a =
     (let clean = path_clean (replace_char backslash ''/'' (af_path a)) in
      if \<not> artifactTargetPattern (af_goos a) \<or> \<not> artifactTargetPattern (af_goarch a)
      then Inl (ArtifactTarget (af_goos a) (af_goarch a))
      else if clean = ''.'' \<or> clean \<noteq> af_path a \<or> has_prefix clean ''../'' \<or> has_prefix clean ''/''
      then Inl (ArtifactPath (af_path a))
      else if af_size a < 1 \<or> \<not> artifactHashPattern (af_sha256 a) then Inl (ArtifactDigest (af_path a))
      else case af_runtime a of
        None \<Rightarrow> Inr ()
      | Some r \<Rightarrow> (case validate_runtime r of Inl e \<Rightarrow> Inl (RuntimeInvalid e) | Inr _ \<Rightarrow> Inr ()))"

text \<open>The loops over the modules and the artifacts; the second and third argument hold what was seen.\<close>

fun validate_modules :: "plugin_module list \<Rightarrow> string list \<Rightarrow> manifest_error + unit" where
  "validate_modules [] seen = Inr ()"
| "validate_modules (m # ms) seen =
     (if \<not> identityPattern (pm_type m) then Inl (InvalidModuleType (pm_type m))
      else if pm_type m \<in> set seen then Inl (DuplicateModuleType (pm_type m))
      else if trim_space (pm_name m) = '''' \<or> pm_version m = '''' \<or> pm_config_version m = '''' \<or>
              pm_result_schema_version m = ''''
      then Inl (ModuleVersions (pm_type m))
      else validate_modules ms (pm_type m # seen))"

definition artifact_target :: "artifact \<Rightarrow> string" where
  "artifact_target a = af_goos a @ ''/'' @ af_goarch a"

fun validate_artifacts :: "artifact list \<Rightarrow> string list \<Rightarrow> string list \<Rightarrow> manifest_error + unit" where
  "validate_artifacts [] targets paths = Inr ()"
| "validate_artifacts (a # as) targets paths =
     ok_then (validate_artifact a) (\<lambda>_.
       if artifact_target a \<in> set targets then Inl (DuplicateTarget (artifact_target a))
       else if af_path a \<in> set paths then Inl (DuplicateArtifactPath (af_path a))
       else validate_artifacts as (artifact_target a # targets) (af_path a # paths))"

text \<open>\<open>uri\<close> stands for \<open>url.ParseRequestURI\<close>: the scheme and the host, if the text parses.\<close>

definition validate_manifest ::
    "(string \<Rightarrow> (string \<times> string) option) \<Rightarrow> int \<Rightarrow> manifest \<Rightarrow> manifest_error + unit" where
  "validate_manifest uri protocolVersion m =
     (if mf_schema_version m \<noteq> 1 then Inl (SchemaVersion (mf_schema_version m))
      else if \<not> identityPattern (mf_id m) then Inl (InvalidID (mf_id m))
      else if trim_space (mf_name m) = '''' \<or> trim_space (mf_vendor m) = '''' \<or> trim_space (mf_description m) = ''''
      then Inl NameRequired
      else if (case uri (mf_url m) of
          None \<Rightarrow> True
        | Some (scheme, host) \<Rightarrow> (scheme \<noteq> ''https'' \<and> scheme \<noteq> ''http'') \<or> host = '''')
      then Inl InvalidPluginURL
      else if \<not> versionPattern (mf_version m) then Inl (InvalidVersion (mf_version m))
      else if mf_protocol_min m < 1 \<or> mf_protocol_max m < mf_protocol_min m then Inl ProtocolRangeInvalid
      else if protocolVersion < mf_protocol_min m \<or> protocolVersion > mf_protocol_max m then Inl ProtocolUnsupported
      else if mf_modules m = [] then Inl NoModules
      else ok_then (validate_modules (mf_modules m) []) (\<lambda>_.
        case mf_runtime m of
          None \<Rightarrow> Inl RuntimeRequired
        | Some r \<Rightarrow>
            (case validate_runtime r of
               Inl e \<Rightarrow> Inl (RuntimeInvalid e)
             | Inr _ \<Rightarrow> validate_artifacts (mf_artifacts m) [] [])))"

definition ResolveRuntime :: "artifact option \<Rightarrow> manifest \<Rightarrow> manifest_error + artifact_runtime" where
  "ResolveRuntime a m =
     (case Option.bind a af_runtime of
        Some r \<Rightarrow> Inr r
      | None \<Rightarrow> (case mf_runtime m of Some r \<Rightarrow> Inr r | None \<Rightarrow> Inl RuntimeRequired))"

text \<open>\<open>goos\<close> and \<open>goarch\<close> are those of the host.\<close>

definition CurrentArtifact :: "string \<Rightarrow> string \<Rightarrow> manifest \<Rightarrow> manifest_error + artifact" where
  "CurrentArtifact goos goarch m =
     (let found = filter (\<lambda>a. af_goos a = goos \<and> af_goarch a = goarch) (mf_artifacts m) in
      case found of
        [a] \<Rightarrow> ok_then (validate_artifact a) (\<lambda>_. Inr a)
      | _ \<Rightarrow> Inl (ArtifactCount (length found)))"

subsection \<open>The command that starts a plugin\<close>

text \<open>The path and the arguments of \<open>exec.Command\<close>; \<open>look\<close> stands for \<open>exec.LookPath\<close>.\<close>

definition NewArtifactCommand ::
    "(string \<Rightarrow> string option) \<Rightarrow> string \<Rightarrow> artifact_runtime \<Rightarrow> manifest_error + string \<times> string list" where
  "NewArtifactCommand look path r =
     ok_then (validate_runtime r) (\<lambda>_.
       if rt_mode r = ''direct'' then Inr (path, runtime_args r)
       else (case look (rt_command r) of
         None \<Rightarrow> Inl (CommandUnavailable (rt_command r))
       | Some command \<Rightarrow>
           Inr (command, map (\<lambda>a. if a = artifact_argument then path else a) (runtime_args r))))"

text \<open>\<open>decode\<close> stands for the decoding of the stored manifest.\<close>

definition commandForInstallation ::
    "(string \<Rightarrow> string option) \<Rightarrow> (val \<Rightarrow> manifest option) \<Rightarrow> string \<Rightarrow> string \<Rightarrow> plugin_installation \<Rightarrow>
     manifest_error + string \<times> string list" where
  "commandForInstallation look decode goos goarch p =
     (if pi_manifest p = VNil then Inl ManifestMissing
      else case decode (pi_manifest p) of
        None \<Rightarrow> Inl ManifestUndecodable
      | Some m \<Rightarrow>
          ok_then (if mf_artifacts m = [] then Inr None
                   else ok_then (CurrentArtifact goos goarch m) (\<lambda>a. Inr (Some a))) (\<lambda>a.
          ok_then (ResolveRuntime a m) (NewArtifactCommand look (pi_binary_path p))))"

subsection \<open>What a valid manifest guarantees\<close>

lemma identity_from_chars: "identity_from b s \<Longrightarrow> c \<in> set s \<Longrightarrow> lower_alnum c \<or> c \<in> {CHR ''.'', CHR ''_'', CHR ''-''}"
  by (induction b s rule: identity_from.induct) (auto split: if_splits)

lemma not_alnum [simp]:
  "\<not> lower_alnum (CHR ''/'')" "\<not> lower_alnum (CHR ''.'')" "\<not> alnum (CHR ''/'')" "\<not> is_digit (CHR ''.'')"
  "\<not> is_digit (CHR ''/'')"
  by code_simp+

lemma identity_plain:
  assumes "identityPattern s"
  shows "plain_name s"
proof -
  have "CHR ''/'' \<notin> set s"
    using identity_from_chars [of False s "CHR ''/''"] assms by (auto simp: identityPattern_def)
  moreover have "s \<noteq> ''''" "s \<noteq> ''.''" "s \<noteq> ''..''" using assms by (auto simp: identityPattern_def)
  ultimately show ?thesis by (simp add: plain_name_def)
qed

lemma digits_then_Some:
  assumes "digits_then s = Some r"
  obtains ds where "s = ds @ r" "ds \<noteq> ''''" "\<forall>c \<in> set ds. is_digit c"
proof (rule that [of "takeWhile is_digit s"])
  show "s = takeWhile is_digit s @ r" "takeWhile is_digit s \<noteq> ''''"
    using assms by (auto simp: digits_then_def split: if_splits)
  show "\<forall>c \<in> set (takeWhile is_digit s). is_digit c" by (auto dest: set_takeWhileD)
qed

lemma suffix_no_slash: "suffix_ok s \<Longrightarrow> CHR ''/'' \<notin> set s"
  by (auto simp: suffix_ok_def list_all_iff split: list.splits)

lemma version_plain:
  assumes "versionPattern s"
  shows "plain_name s"
proof -
  from assms obtain s1 s2 s3 s4 r where parts: "digits_then s = Some s1" "dot_then s1 = Some s2"
      "digits_then s2 = Some s3" "dot_then s3 = Some s4" "digits_then s4 = Some r" "suffix_ok r"
    by (auto simp: versionPattern_def bind_eq_Some_conv split: option.splits)
  have dots: "s1 = ''.'' @ s2" "s3 = ''.'' @ s4"
    using parts(2,4) by (auto simp: dot_then_def split: list.splits if_splits)
  obtain d1 where d1: "s = d1 @ s1" "d1 \<noteq> ''''" "\<forall>c \<in> set d1. is_digit c" by (rule digits_then_Some [OF parts(1)])
  obtain d2 where d2: "s2 = d2 @ s3" "\<forall>c \<in> set d2. is_digit c" by (rule digits_then_Some [OF parts(3)])
  obtain d3 where d3: "s4 = d3 @ r" "\<forall>c \<in> set d3. is_digit c" by (rule digits_then_Some [OF parts(5)])
  have s: "s = d1 @ ''.'' @ d2 @ ''.'' @ d3 @ r" by (simp add: d1(1) dots d2(1) d3(1))
  obtain c cs where "d1 = c # cs" "is_digit c" using d1(2,3) by (cases d1) auto
  then have "s \<noteq> ''''" "s \<noteq> ''.''" "s \<noteq> ''..''" using s by auto
  moreover have "CHR ''/'' \<notin> set s"
    using d1(3) d2(2) d3(2) suffix_no_slash [OF parts(6)] by (auto simp: s)
  ultimately show ?thesis by (simp add: plain_name_def)
qed

lemma validate_artifact_path:
  assumes "validate_artifact a = Inr ()" and "\<forall>d \<in> set dest. plain_name d"
  shows "strict_prefix dest (locate dest (af_path a)) \<or> af_path a = ''..''"
proof -
  let ?n = "replace_char backslash ''/'' (af_path a)"
  from assms(1) have c: "path_clean ?n = af_path a" "path_clean ?n \<noteq> ''.''"
      "\<not> has_prefix (path_clean ?n) ''../''" "\<not> has_prefix (path_clean ?n) ''/''"
    by (auto simp: validate_artifact_def Let_def split: if_splits)
  have abs: "\<not> is_abs ?n" using c(4) by (auto simp: path_clean_def Let_def has_prefix_iff is_abs_def split: if_splits)
  show ?thesis
    by (rule locate_clean [OF abs c(2,3) assms(2)]) (auto simp: c(1) strict_prefix_def)
qed

lemma validate_artifacts_Inr:
  "validate_artifacts as ts ps = Inr () \<Longrightarrow>
   (\<forall>a \<in> set as. validate_artifact a = Inr () \<and> artifact_target a \<notin> set ts) \<and> distinct (map artifact_target as)"
  by (induction as arbitrary: ts ps) (fastforce simp: ok_then_Inr split: if_splits)+

lemma validate_modules_Inr:
  "validate_modules ms seen = Inr () \<Longrightarrow>
   (\<forall>m \<in> set ms. identityPattern (pm_type m) \<and> pm_type m \<notin> set seen) \<and> distinct (map pm_type ms)"
  by (induction ms arbitrary: seen) (fastforce split: if_splits)+

lemma validate_manifest_Inr:
  assumes "validate_manifest uri v m = Inr ()"
  shows "identityPattern (mf_id m)" "versionPattern (mf_version m)" "mf_modules m \<noteq> []"
    "validate_modules (mf_modules m) [] = Inr ()" "validate_artifacts (mf_artifacts m) [] [] = Inr ()"
    "\<exists>r. mf_runtime m = Some r \<and> validate_runtime r = Inr ()"
proof -
  note v = assms [unfolded validate_manifest_def]
  show "identityPattern (mf_id m)" "versionPattern (mf_version m)" "mf_modules m \<noteq> []"
    using v by (auto split: if_splits)
  have r: "ok_then (validate_modules (mf_modules m) []) (\<lambda>_.
        case mf_runtime m of None \<Rightarrow> Inl RuntimeRequired
        | Some r \<Rightarrow> (case validate_runtime r of Inl e \<Rightarrow> Inl (RuntimeInvalid e)
             | Inr _ \<Rightarrow> validate_artifacts (mf_artifacts m) [] [])) = Inr ()"
    using v by (simp split: if_splits)
  then show "validate_modules (mf_modules m) [] = Inr ()" "validate_artifacts (mf_artifacts m) [] [] = Inr ()"
    "\<exists>r. mf_runtime m = Some r \<and> validate_runtime r = Inr ()"
    by (auto simp: ok_then_Inr split: option.splits sum.splits)
qed

text \<open>
  C36: A manifest that passes validation names only places inside the plugin directories: its
  ID and its version are plain file names (no separator, not \<open>.\<close> or \<open>..\<close>), so the directories
  made of them are two levels below the root, and the path of every artifact lies strictly
  below the directory the package was unpacked in, or is the text \<open>..\<close>, which the check lets
  pass.
\<close>

theorem valid_manifest_paths:
  assumes "validate_manifest uri v m = Inr ()" and "\<forall>d \<in> set dest. plain_name d"
  shows "plain_name (mf_id m) \<and> plain_name (mf_version m) \<and>
    locate dest (mf_id m @ ''/'' @ mf_version m) = dest @ [mf_id m, mf_version m] \<and>
    (\<forall>a \<in> set (mf_artifacts m). strict_prefix dest (locate dest (af_path a)) \<or> af_path a = ''..'')"
proof -
  note v = validate_manifest_Inr [OF assms(1)]
  have p: "plain_name (mf_id m)" "plain_name (mf_version m)"
    using identity_plain [OF v(1)] version_plain [OF v(2)] by auto
  have "split_on (CHR ''/'') (mf_id m @ ''/'' @ mf_version m) = [mf_id m, mf_version m]"
    using split_on_append_sep [OF plain_no_slash [OF p(1)]] split_on_no_sep [OF plain_no_slash [OF p(2)]] by simp
  then have "locate dest (mf_id m @ ''/'' @ mf_version m) = dest @ [mf_id m, mf_version m]"
    using locate_names [of "[mf_id m, mf_version m]" "rev dest"] p by (simp add: locate_def)
  with p v(5) assms(2) show ?thesis
    by (auto dest!: validate_artifacts_Inr validate_artifact_path)
qed

text \<open>
  A valid manifest has at most one artifact for any host, so choosing the current
  artifact finds the artifact of the host whenever there is one, and the only failure is that
  there is none.
\<close>

theorem current_artifact_unique:
  assumes "validate_manifest uri v m = Inr ()"
  shows "CurrentArtifact goos goarch m =
    (case find_first (\<lambda>a. af_goos a = goos \<and> af_goarch a = goarch) (mf_artifacts m) of
       Some a \<Rightarrow> Inr a | None \<Rightarrow> Inl (ArtifactCount 0))"
proof -
  let ?P = "\<lambda>a. af_goos a = goos \<and> af_goarch a = goarch"
  have all: "\<forall>a \<in> set (mf_artifacts m). validate_artifact a = Inr ()" "distinct (map artifact_target (mf_artifacts m))"
    using validate_artifacts_Inr [OF validate_manifest_Inr(5) [OF assms]] by auto
  have "filter ?P as = (case find_first ?P as of Some a \<Rightarrow> [a] | None \<Rightarrow> [])"
    if "distinct (map artifact_target as)" for as
    using that
  proof (induction as)
    case (Cons a as)
    have "filter ?P as = []" if "?P a"
    proof -
      have "\<not> ?P b" if "b \<in> set as" for b
      proof -
        have "artifact_target b \<noteq> artifact_target a" using Cons.prems that by (auto simp: rev_image_eqI)
        with \<open>?P a\<close> show ?thesis by (auto simp: artifact_target_def)
      qed
      then show ?thesis by (simp add: filter_empty_conv)
    qed
    with Cons show ?case by auto
  qed simp
  with all show ?thesis
    by (auto simp: CurrentArtifact_def Let_def split: option.splits dest: find_first_Some)
qed

lemma count_list_one:
  assumes "count_list xs x = 1"
  obtains before after where "xs = before @ [x] @ after" "x \<notin> set before \<union> set after"
proof -
  have "x \<in> set xs" using assms count_list_0_iff [of xs x] by auto
  then obtain before after where b: "xs = before @ x # after" "x \<notin> set before"
    using split_list_first by metis
  then have "count_list after x = 0" using assms by (simp add: count_notin)
  with b show ?thesis by (intro that [of before after]) (auto simp: count_list_0_iff)
qed

text \<open>
  The command that starts a plugin runs its artifact. In direct mode the artifact is the
  program and the arguments are those of the manifest; in interpreter mode the program is the
  interpreter found in the search path, and the artifact's path takes the place of exactly
  one argument, the others being those of the manifest. In neither mode does the placeholder
  reach the plugin.
\<close>

theorem command_runs_artifact:
  assumes "NewArtifactCommand look path r = Inr (program, args)"
  shows "((rt_mode r = ''direct'' \<and> program = path \<and> args = runtime_args r) \<or>
     (rt_mode r = ''interpreter'' \<and> look (rt_command r) = Some program \<and>
      (\<exists>before after. runtime_args r = before @ [''{artifact}''] @ after \<and> args = before @ [path] @ after))) \<and>
    (path = ''{artifact}'' \<or> ''{artifact}'' \<notin> set args)"
proof -
  have v: "validate_runtime r = Inr ()" using assms by (auto simp: NewArtifactCommand_def ok_then_Inr)
  show ?thesis
  proof (cases "rt_mode r = ''direct''")
    case True
    then have "artifact_argument \<notin> set (runtime_args r)"
      using v by (auto simp: validate_runtime_def ok_then_Inr split: if_splits)
    with True assms show ?thesis by (auto simp: NewArtifactCommand_def ok_then_Inr artifact_argument_def)
  next
    case False
    then have i: "rt_mode r = ''interpreter''" "count_list (runtime_args r) artifact_argument = 1"
      using v by (auto simp: validate_runtime_def ok_then_Inr split: if_splits)
    obtain before after where ba: "runtime_args r = before @ [artifact_argument] @ after"
        "artifact_argument \<notin> set before \<union> set after" using count_list_one [OF i(2)] .
    have "look (rt_command r) = Some program"
        "args = map (\<lambda>a. if a = artifact_argument then path else a) (runtime_args r)"
      using assms False by (auto simp: NewArtifactCommand_def ok_then_Inr split: option.splits)
    moreover have "map (\<lambda>a. if a = artifact_argument then path else a) xs = xs"
      if "artifact_argument \<notin> set xs" for xs using that by (intro map_idI) auto
    ultimately show ?thesis using i(1) ba by (auto simp: artifact_argument_def)
  qed
qed

text \<open>A manifest of the examples.\<close>

definition example_runtime :: artifact_runtime where
  "example_runtime = \<lparr>rt_mode = ''interpreter'', rt_command = ''python3'', rt_args = Some [''-u'', ''{artifact}'']\<rparr>"

definition example_artifact :: artifact where
  "example_artifact =
     \<lparr>af_goos = ''linux'', af_goarch = ''amd64'', af_path = ''bin/plugin'', af_size = 3,
      af_sha256 = replicate 64 (CHR ''a''), af_runtime = None\<rparr>"

definition example_manifest :: manifest where
  "example_manifest =
     \<lparr>mf_schema_version = 1, mf_id = ''org.ping'', mf_name = ''Ping'', mf_version = ''1.2.0'', mf_vendor = ''V'',
      mf_description = ''D'', mf_url = ''u'', mf_protocol_min = 1, mf_protocol_max = 2,
      mf_modules = [\<lparr>pm_type = ''ping'', pm_name = ''Ping'', pm_version = ''1'', pm_config_version = ''1'',
        pm_result_schema_version = ''1''\<rparr>],
      mf_runtime = Some example_runtime, mf_artifacts = [example_artifact]\<rparr>"

definition example_uri :: "string \<Rightarrow> (string \<times> string) option" where
  "example_uri u = Some (''https'', ''h'')"

lemma example_manifest_valid: "validate_manifest example_uri 1 example_manifest = Inr ()"
  by code_simp

lemma valid_manifest_paths_witness:
  "locate example_stage ''org.ping/1.2.0'' = example_stage @ [''org.ping'', ''1.2.0'']"
  using valid_manifest_paths [OF example_manifest_valid example_stage_ok(2)] by (simp add: example_manifest_def)

lemma current_artifact_unique_witness:
  "CurrentArtifact ''linux'' ''amd64'' example_manifest = Inr example_artifact \<and>
   CurrentArtifact ''plan9'' ''amd64'' example_manifest = Inl (ArtifactCount 0)"
  unfolding current_artifact_unique [OF example_manifest_valid]
  by (simp add: example_manifest_def example_artifact_def)

lemma command_runs_artifact_witness:
  "\<exists>before after. [''-u'', ''{artifact}''] = before @ [''{artifact}''] @ after \<and> [''-u'', ''/p''] = before @ [''/p''] @ after"
proof -
  have "NewArtifactCommand (\<lambda>c. Some (''/bin/'' @ c)) ''/p'' example_runtime = Inr (''/bin/python3'', [''-u'', ''/p''])"
    by code_simp
  from command_runs_artifact [OF this] show ?thesis by (simp add: example_runtime_def runtime_args_def)
qed

section \<open>The signature\<close>

text \<open>\<open>binary.Write\<close> in big-endian order of a number of \<open>n\<close> bytes.\<close>

fun big_endian :: "nat \<Rightarrow> nat \<Rightarrow> string" where
  "big_endian 0 v = []"
| "big_endian (Suc n) v = big_endian n (v div 256) @ [byte (v mod 256)]"

definition writeSignatureChunk :: "string \<Rightarrow> string \<Rightarrow> string" where
  "writeSignatureChunk name content =
     big_endian 4 (length name mod 2 ^ 32) @ name @ big_endian 8 (length content) @ content"

definition signedDocumentNames :: "string list" where
  "signedDocumentNames = [''README.md'', ''README.en.md'', ''LICENSE'']"

definition document_chunk :: "string go_map \<Rightarrow> string \<Rightarrow> string" where
  "document_chunk files name =
     (case get files name of None \<Rightarrow> [] | Some content \<Rightarrow> writeSignatureChunk name content)"

definition SignaturePayload :: "string \<Rightarrow> string go_map \<Rightarrow> string" where
  "SignaturePayload mf files =
     ''meerkit-plugin-signature-v1'' @ writeSignatureChunk ''meerkit-plugin.yaml'' mf @
     concat (map (document_chunk files) signedDocumentNames)"

lemma length_big_endian [simp]: "length (big_endian n v) = n"
  by (induction n arbitrary: v) auto

lemma byte_inj: "m < 256 \<Longrightarrow> n < 256 \<Longrightarrow> byte m = byte n \<longleftrightarrow> m = n"
  using ord_byte by metis

lemma big_endian_inj: "v < 256 ^ n \<Longrightarrow> w < 256 ^ n \<Longrightarrow> big_endian n v = big_endian n w \<Longrightarrow> v = w"
proof (induction n arbitrary: v w)
  case (Suc n)
  have "v div 256 < 256 ^ n" "w div 256 < 256 ^ n" using Suc.prems(1,2) by (simp_all add: less_mult_imp_div_less mult.commute)
  moreover have "big_endian n (v div 256) = big_endian n (w div 256)" "v mod 256 = w mod 256"
    using Suc.prems(3) by (auto simp: byte_inj)
  ultimately have "v div 256 = w div 256" "v mod 256 = w mod 256" using Suc.IH by auto
  then show ?case by (metis div_mult_mod_eq)
qed simp

text \<open>A chunk can be told from what follows it.\<close>

lemma chunk_inj:
  assumes "length a < 2 ^ 64" and "length b < 2 ^ 64" and "length n < 2 ^ 32" and "length k < 2 ^ 32"
    and "writeSignatureChunk n a @ r = writeSignatureChunk k b @ s"
  shows "n = k \<and> a = b \<and> r = s"
proof -
  have bounds: "length n < 256 ^ 4" "length k < 256 ^ 4" "length a < 256 ^ 8" "length b < 256 ^ 8"
    using assms(1-4) by simp_all
  have "big_endian 4 (length n) = big_endian 4 (length k)"
    and e: "n @ big_endian 8 (length a) @ a @ r = k @ big_endian 8 (length b) @ b @ s"
    using assms(3-5) by (simp_all add: writeSignatureChunk_def)
  then have "length n = length k" using big_endian_inj [OF bounds(1,2)] by blast
  with e have n: "n = k" and "big_endian 8 (length a) = big_endian 8 (length b)" "a @ r = b @ s" by simp_all
  then have "length a = length b" using big_endian_inj [OF bounds(3,4)] by blast
  with n \<open>a @ r = b @ s\<close> show ?thesis by simp
qed

lemma document_chunks_start:
  "concat (map (document_chunk f) ns) = [] \<or>
   (\<exists>k b s. k \<in> set ns \<and> get f k = Some b \<and> concat (map (document_chunk f) ns) = writeSignatureChunk k b @ s)"
  by (induction ns) (auto simp: document_chunk_def split: option.splits)

lemma chunk_ne [simp]: "writeSignatureChunk n c \<noteq> []"
  by (auto simp: writeSignatureChunk_def dest: arg_cong [where f = length])

lemma document_chunks_inj:
  assumes "\<forall>n \<in> set ns. length n < 2 ^ 32" and "distinct ns"
    and "\<And>n c. get f n = Some c \<Longrightarrow> length c < 2 ^ 64" and "\<And>n c. get g n = Some c \<Longrightarrow> length c < 2 ^ 64"
    and "concat (map (document_chunk f) ns) = concat (map (document_chunk g) ns)"
  shows "\<forall>n \<in> set ns. get f n = get g n"
  using assms(1,2,5)
proof (induction ns)
  case (Cons n ns)
  have differ: False
    if h: "get h n = Some c" and e: "writeSignatureChunk n c @ r = concat (map (document_chunk h') ns)"
      and len: "\<And>n c. get h n = Some c \<Longrightarrow> length c < 2 ^ 64" and len': "\<And>n c. get h' n = Some c \<Longrightarrow> length c < 2 ^ 64"
    for h h' c r
  proof -
    obtain k b s where k: "k \<in> set ns" "get h' k = Some b"
        "concat (map (document_chunk h') ns) = writeSignatureChunk k b @ s"
    proof -
      have "concat (map (document_chunk h') ns) \<noteq> []" unfolding e [symmetric] by simp
      with document_chunks_start [of h' ns] show thesis by (blast intro: that)
    qed
    have lens: "length n < 2 ^ 32" "length k < 2 ^ 32" using Cons.prems(1) k(1) by auto
    have "writeSignatureChunk n c @ r = writeSignatureChunk k b @ s" using e k(3) by (rule trans)
    from chunk_inj [OF len [OF h] len' [OF k(2)] lens this] have "n = k" by blast
    with k(1) Cons.prems(2) show False by simp
  qed
  show ?case
  proof (cases "get f n")
    case None
    have "get g n = None"
    proof (cases "get g n")
      case (Some c)
      have "writeSignatureChunk n c @ concat (map (document_chunk g) ns) = concat (map (document_chunk f) ns)"
        using None Some Cons.prems(3) by (simp add: document_chunk_def [of _ n])
      from differ [OF Some this assms(4,3)] show ?thesis ..
    qed
    with None Cons show ?thesis by (simp add: document_chunk_def [of _ n])
  next
    case (Some c)
    show ?thesis
    proof (cases "get g n")
      case None
      have "writeSignatureChunk n c @ concat (map (document_chunk f) ns) = concat (map (document_chunk g) ns)"
        using None Some Cons.prems(3) by (simp add: document_chunk_def [of _ n])
      from differ [OF Some this assms(3,4)] show ?thesis ..
    next
      case (Some d)
      with \<open>get f n = Some c\<close> Cons.prems(3)
      have "writeSignatureChunk n c @ concat (map (document_chunk f) ns) =
          writeSignatureChunk n d @ concat (map (document_chunk g) ns)"
        by (simp add: document_chunk_def [of _ n])
      then have "c = d" "concat (map (document_chunk f) ns) = concat (map (document_chunk g) ns)"
        using chunk_inj [of c d n n] assms(3) [OF \<open>get f n = Some c\<close>] assms(4) [OF Some] Cons.prems(1) by auto
      with Cons Some \<open>get f n = Some c\<close> show ?thesis by simp
    qed
  qed
qed simp

text \<open>
  C30: A signature covers everything it should: two packages have the same signed bytes only if
  their manifests are the same and they agree on every signed document, README, README.en and
  LICENSE, its presence included. So nothing that is shown to the user can be exchanged under
  a signature, nor moved from one document to another.
\<close>

theorem signature_covers_documents:
  assumes "SignaturePayload m f = SignaturePayload m' g" and "length m < 2 ^ 64" and "length m' < 2 ^ 64"
    and "\<And>n c. get f n = Some c \<Longrightarrow> length c < 2 ^ 64" and "\<And>n c. get g n = Some c \<Longrightarrow> length c < 2 ^ 64"
  shows "m = m' \<and> (\<forall>n \<in> {''README.md'', ''README.en.md'', ''LICENSE''}. get f n = get g n)"
proof -
  let ?c = "\<lambda>h. concat (map (document_chunk h) signedDocumentNames)"
  have "writeSignatureChunk ''meerkit-plugin.yaml'' m @ ?c f = writeSignatureChunk ''meerkit-plugin.yaml'' m' @ ?c g"
    using assms(1) by (simp add: SignaturePayload_def)
  then have "m = m'" and c: "?c f = ?c g"
    using chunk_inj [OF assms(2,3), of "''meerkit-plugin.yaml''" "''meerkit-plugin.yaml''"] by auto
  have "\<forall>n \<in> set signedDocumentNames. get f n = get g n"
    by (rule document_chunks_inj [OF _ _ assms(4,5) c]) (simp_all add: signedDocumentNames_def)
  with \<open>m = m'\<close> show ?thesis by (simp add: signedDocumentNames_def)
qed

lemma signature_covers_documents_witness:
  "SignaturePayload ''a'' [(''README.md'', ''b'')] \<noteq> SignaturePayload ''a'' [(''LICENSE'', ''b'')]"
proof
  assume "SignaturePayload ''a'' [(''README.md'', ''b'')] = SignaturePayload ''a'' [(''LICENSE'', ''b'')]"
  from signature_covers_documents [OF this] show False by (fastforce split: if_splits)
qed

end
