(* ===== verification/PluginManager.thy ===== *)
theory PluginManager
  imports PluginPackage StoreAdmin Registry Base64
begin

section \<open>Running plugins (internal/plugin/manager.go)\<close>

text \<open>
  Which plugins run: \<open>Enable\<close>, \<open>Disable\<close>, \<open>Uninstall\<close>, the restart of a plugin that died, and
  the restart of all when the logging changes. A plugin process is a client: a position in
  \<open>mg_clients\<close>, where it stays after it was killed; \<open>m.processes\<close> maps the ID of a plugin to
  its client. \<open>launch\<close> holds what starting the candidate gives: which step fails, the modules
  it lists, the migration of configurations. \<open>gate.Wait\<close> is taken to return (see \<open>Gate\<close>), and
  an operation to run without others in between; the two halves of \<open>Enable\<close> are also
  definitions of their own, for the results on what happens otherwise.
\<close>

subsection \<open>State\<close>

datatype launch_step = Connect | GRPCProtocol | StandardHealth | Dispense | ProviderType | Health | Bridge

datatype plugin_error =
    StoreFailed db_error
  | UntrustedPublisher string
  | UnverifiedPlugin string
  | LogFileFailed
  | CommandFailed manifest_error
  | LaunchFailed launch_step
  | ListModulesFailed
  | ModuleCount nat nat
  | ModuleMismatch string string
  | DescriptorUndecodable string
  | RegistryFailed registry_error
  | SnapshotFailed db_error
  | MigrationFailed db_error
  | RecordFailed db_error
  | UnsignedPlugin string
  | FingerprintChanged
  | SignerInvalid
  | PluginReferenced nat
  | DevelopmentPlugin
  | LogLevelInvalid
  | LogFormatInvalid

record client =
  pc_plugin :: string
  pc_version :: string
  pc_accepting :: bool
  pc_killed :: bool
  pc_exited :: bool
  pc_bridge :: bool
  pc_log_open :: bool

record plugin_manager =
  mg_db :: db
  mg_registry :: registry
  mg_processes :: "nat go_map"
  mg_clients :: "client list"
  mg_files :: file_tree
  mg_root :: location
  mg_log_level :: string
  mg_log_format :: string

text \<open>
  The host: its target, \<open>exec.LookPath\<close>, the decoding of stored manifests, whether there is a
  browser manager, the text of an error, and SHA-256 in upper-case hexadecimal digits.
\<close>

record host =
  ho_goos :: string
  ho_goarch :: string
  ho_look :: "string \<Rightarrow> string option"
  ho_decode :: "val \<Rightarrow> manifest option"
  ho_browser :: bool
  ho_text :: "plugin_error \<Rightarrow> string"
  ho_sha256 :: "string \<Rightarrow> string"

record launch =
  la_now :: time
  la_log_fails :: bool
  la_fails :: "launch_step \<Rightarrow> bool"
  la_modules :: "module_descriptor list option"
  la_decodes :: "module_descriptor \<Rightarrow> bool"
  la_validate :: "string \<Rightarrow> val \<Rightarrow> string option"
  la_execute :: "string \<Rightarrow> val \<Rightarrow> observation \<times> string option"
  la_migrate :: "string \<Rightarrow> string \<Rightarrow> string \<Rightarrow> val \<Rightarrow> string + val"

subsection \<open>Clients\<close>

text \<open>\<open>pc_bridge\<close>: the bridge to the browser was not cancelled by the manager.\<close>

definition edit_client :: "nat \<Rightarrow> (client \<Rightarrow> client) \<Rightarrow> plugin_manager \<Rightarrow> plugin_manager" where
  "edit_client n f m = m\<lparr>mg_clients := (mg_clients m)[n := f (mg_clients m ! n)]\<rparr>"

definition new_client :: "string \<Rightarrow> string \<Rightarrow> client" where
  "new_client i version =
     \<lparr>pc_plugin = i, pc_version = version, pc_accepting = True, pc_killed = False, pc_exited = False,
      pc_bridge = True, pc_log_open = True\<rparr>"

definition add_client :: "client \<Rightarrow> plugin_manager \<Rightarrow> plugin_manager" where
  "add_client c m = m\<lparr>mg_clients := mg_clients m @ [c]\<rparr>"

text \<open>\<open>cleanupCandidate\<close>: the bridge is cancelled, the process killed, its log file closed.\<close>

definition cleanup :: "client \<Rightarrow> client" where
  "cleanup c = c\<lparr>pc_bridge := False, pc_killed := True, pc_exited := True, pc_log_open := False\<rparr>"

definition stop_gate :: "client \<Rightarrow> client" where "stop_gate c = c\<lparr>pc_accepting := False\<rparr>"
definition start_gate :: "client \<Rightarrow> client" where "start_gate c = c\<lparr>pc_accepting := True\<rparr>"

text \<open>What a replaced process gets: no cancelling of its bridge, which ends with its connection.\<close>

definition retire :: "client \<Rightarrow> client" where
  "retire c = (stop_gate c)\<lparr>pc_killed := True, pc_exited := True, pc_log_open := False\<rparr>"

definition stopActive :: "string \<Rightarrow> plugin_manager \<Rightarrow> plugin_manager" where
  "stopActive i m0 =
     (let m = m0\<lparr>mg_registry := RemoveOwner i (mg_registry m0), mg_processes := del i (mg_processes m0)\<rparr>
      in case get (mg_processes m0) i of
           None \<Rightarrow> m
         | Some n \<Rightarrow> edit_client n (\<lambda>c. cleanup (stop_gate c)) m)"

subsection \<open>Enable\<close>

definition markFailure ::
    "engine \<Rightarrow> host \<Rightarrow> time \<Rightarrow> plugin_installation \<Rightarrow> plugin_error \<Rightarrow> plugin_manager \<Rightarrow> plugin_manager" where
  "markFailure en ho now p e m =
     m\<lparr>mg_db := or_same (mg_db m) (UpsertPlugin en (p\<lparr>pi_enabled := False, pi_status := ''degraded'',
         pi_error := ho_text ho e, pi_updated_at := now\<rparr>) (mg_db m))\<rparr>"

definition launch_steps :: "host \<Rightarrow> launch_step list" where
  "launch_steps ho =
     [Connect, GRPCProtocol, StandardHealth, Dispense, ProviderType, Health] @ (if ho_browser ho then [Bridge] else [])"

definition declared_versions :: "plugin_module list \<Rightarrow> string go_map" where
  "declared_versions ms = fold (\<lambda>x. put (pm_type x) (pm_version x)) ms []"

fun check_versions :: "string go_map \<Rightarrow> module_descriptor list \<Rightarrow> plugin_error + unit" where
  "check_versions expected [] = Inr ()"
| "check_versions expected (d # ds) =
     (if get expected (md_type d) \<noteq> Some (md_version d) then Inl (ModuleMismatch (md_type d) (md_version d))
      else check_versions expected ds)"

definition verifyDescriptors :: "plugin_module list \<Rightarrow> module_descriptor list \<Rightarrow> plugin_error + unit" where
  "verifyDescriptors declared actual =
     (let expected = declared_versions declared in
      if length expected \<noteq> length actual then Inl (ModuleCount (length actual) (length expected))
      else check_versions expected actual)"

text \<open>The declared configuration and result versions, written into a descriptor.\<close>

definition declared_descriptor :: "plugin_module list \<Rightarrow> module_descriptor \<Rightarrow> module_descriptor" where
  "declared_descriptor declared d =
     (case get (fold (\<lambda>x. put (pm_type x) x) declared []) (md_type d) of
        Some x \<Rightarrow> d\<lparr>md_config_version := pm_config_version x, md_result_schema_version := pm_result_schema_version x\<rparr>
      | None \<Rightarrow> d\<lparr>md_config_version := '''', md_result_schema_version := ''''\<rparr>)"

definition NewRemoteModule :: "launch \<Rightarrow> module_descriptor \<Rightarrow> plugin_error + mon_module" where
  "NewRemoteModule la d =
     (if la_decodes la d
      then Inr \<lparr>mm_descriptor = d, mm_validate = la_validate la (md_type d), mm_execute = la_execute la (md_type d)\<rparr>
      else Inl (DescriptorUndecodable (md_type d)))"

text \<open>From the listing of the modules to the check of their types.\<close>

definition candidate_modules ::
    "launch \<Rightarrow> plugin_installation \<Rightarrow> registry \<Rightarrow> plugin_error + mon_module list" where
  "candidate_modules la p r =
     (case la_modules la of
        None \<Rightarrow> Inl ListModulesFailed
      | Some ds \<Rightarrow>
          ok_then (verifyDescriptors (pi_modules p) ds) (\<lambda>_.
          ok_then (all_ok (map (NewRemoteModule la \<circ> declared_descriptor (pi_modules p)) ds)) (\<lambda>ms.
          case ValidateReplaceOwner (pi_id p) (map module_type ms) r of
            Inl e \<Rightarrow> Inl (RegistryFailed e)
          | Inr _ \<Rightarrow> Inr ms)))"

text \<open>\<open>SaveDescriptorSnapshot\<close> of each module; those before an error stay saved.\<close>

fun save_snapshots :: "engine \<Rightarrow> mon_module list \<Rightarrow> db \<Rightarrow> (plugin_error + unit) \<times> db" where
  "save_snapshots en [] db = (Inr (), db)"
| "save_snapshots en (x # xs) db =
     (case SaveDescriptorSnapshot en (mm_descriptor x) db of
        Inl e \<Rightarrow> (Inl (SnapshotFailed e), db)
      | Inr db' \<Rightarrow> save_snapshots en xs db')"

text \<open>
  \<open>Enable\<close> up to where it reads \<open>m.processes\<close>: the candidate runs, or the call has failed. The
  result names the installation as it was read, the client and its modules.
\<close>

definition give_up ::
    "engine \<Rightarrow> host \<Rightarrow> launch \<Rightarrow> plugin_installation \<Rightarrow> nat \<Rightarrow> plugin_error \<Rightarrow> plugin_manager \<Rightarrow>
     (plugin_error + 'a) \<times> plugin_manager" where
  "give_up en ho la p n e m = (Inl e, markFailure en ho (la_now la) p e (edit_client n cleanup m))"

definition start_candidate ::
    "engine \<Rightarrow> host \<Rightarrow> launch \<Rightarrow> string \<Rightarrow> string \<Rightarrow> bool \<Rightarrow> plugin_manager \<Rightarrow>
     (plugin_error + plugin_installation \<times> nat \<times> mon_module list) \<times> plugin_manager" where
  "start_candidate en ho la i version allowUnverified m =
     (case GetPlugin en i version (mg_db m) of
        Inl e \<Rightarrow> (Inl (StoreFailed e), m)
      | Inr p \<Rightarrow>
          let fail = (\<lambda>e. (Inl e, markFailure en ho (la_now la) p e m));
              n = length (mg_clients m); m1 = add_client (new_client i (pi_version p)) m in
          if pi_trust_state p = ''untrusted'' then (Inl (UntrustedPublisher i), m)
          else if \<not> pi_verified p \<and> \<not> allowUnverified then (Inl (UnverifiedPlugin i), m)
          else if la_log_fails la then fail LogFileFailed
          else (case commandForInstallation (ho_look ho) (ho_decode ho) (ho_goos ho) (ho_goarch ho) p of
            Inl e \<Rightarrow> fail (CommandFailed e)
          | Inr command \<Rightarrow>
              (case find_first (la_fails la) (launch_steps ho) of
                 Some s \<Rightarrow> give_up en ho la p n (LaunchFailed s) m1
               | None \<Rightarrow>
                   (case candidate_modules la p (mg_registry m) of
                      Inl e \<Rightarrow> give_up en ho la p n e m1
                    | Inr ms \<Rightarrow>
                        (case save_snapshots en ms (mg_db m) of
                           (Inl e, db) \<Rightarrow> give_up en ho la p n e (m1\<lparr>mg_db := db\<rparr>)
                         | (Inr _, db) \<Rightarrow> (Inr (p, n, ms), m1\<lparr>mg_db := db\<rparr>))))))"

definition migration_targets :: "plugin_module list \<Rightarrow> migration_target go_map" where
  "migration_targets ms = fold (\<lambda>x. put (pm_type x) (pm_version x, pm_config_version x)) ms []"

definition edit_previous :: "nat option \<Rightarrow> (client \<Rightarrow> client) \<Rightarrow> plugin_manager \<Rightarrow> plugin_manager" where
  "edit_previous previous f m = (case previous of None \<Rightarrow> m | Some q \<Rightarrow> edit_client q f m)"

text \<open>The store's part at the end: the other versions are disabled, the installation is healthy.\<close>

definition record_activation ::
    "engine \<Rightarrow> time \<Rightarrow> string \<Rightarrow> plugin_installation \<Rightarrow> plugin_manager \<Rightarrow> (plugin_error + unit) \<times> plugin_manager" where
  "record_activation en now i p m =
     (case DisableOtherPluginVersions en now i (pi_version p) (mg_db m) of
        Inl e \<Rightarrow> (Inl (RecordFailed e), m)
      | Inr db1 \<Rightarrow>
          (case UpsertPlugin en (p\<lparr>pi_enabled := True, pi_status := ''healthy'', pi_error := '''',
              pi_updated_at := now\<rparr>) db1 of
             Inl e \<Rightarrow> (Inl (RecordFailed e), stopActive i (m\<lparr>mg_db := db1\<rparr>))
           | Inr db2 \<Rightarrow> (Inr (), m\<lparr>mg_db := db2\<rparr>)))"

text \<open>The rest of \<open>Enable\<close>; \<open>previous\<close> is what it read from \<open>m.processes\<close>.\<close>

definition switch_over ::
    "engine \<Rightarrow> host \<Rightarrow> launch \<Rightarrow> string \<Rightarrow> nat option \<Rightarrow> plugin_installation \<Rightarrow> nat \<Rightarrow> mon_module list \<Rightarrow>
     plugin_manager \<Rightarrow> (plugin_error + unit) \<times> plugin_manager" where
  "switch_over en ho la i previous p n ms m0 =
     (let m = edit_previous previous stop_gate m0;
          back = (\<lambda>e x. give_up en ho la p n e (edit_previous previous start_gate x)) in
      case MigrateMonitorConfigs en (la_migrate la) (la_now la) (migration_targets (pi_modules p)) (mg_db m) of
        Inl e \<Rightarrow> back (MigrationFailed e) m
      | Inr db \<Rightarrow>
          (case ReplaceOwnerAs i (pi_name p) (map Some ms) (mg_registry m) of
             Inl e \<Rightarrow> back (RegistryFailed e) (m\<lparr>mg_db := db\<rparr>)
           | Inr r \<Rightarrow>
               record_activation en (la_now la) i p
                 (edit_previous previous retire
                   (m\<lparr>mg_db := db, mg_registry := r, mg_processes := put i n (mg_processes m)\<rparr>))))"

definition Enable ::
    "engine \<Rightarrow> host \<Rightarrow> launch \<Rightarrow> string \<Rightarrow> string \<Rightarrow> bool \<Rightarrow> plugin_manager \<Rightarrow> (plugin_error + unit) \<times> plugin_manager" where
  "Enable en ho la i version allowUnverified m =
     (case start_candidate en ho la i version allowUnverified m of
        (Inl e, m1) \<Rightarrow> (Inl e, m1)
      | (Inr (p, n, ms), m1) \<Rightarrow> switch_over en ho la i (get (mg_processes m1) i) p n ms m1)"

subsection \<open>The other operations\<close>

definition Disable ::
    "engine \<Rightarrow> time \<Rightarrow> string \<Rightarrow> string \<Rightarrow> plugin_manager \<Rightarrow> (plugin_error + unit) \<times> plugin_manager" where
  "Disable en now i version m0 =
     (let m = stopActive i m0 in
      case GetPlugin en i version (mg_db m) of
        Inl e \<Rightarrow> (Inl (StoreFailed e), m)
      | Inr p \<Rightarrow>
          (case UpsertPlugin en (p\<lparr>pi_enabled := False, pi_status := ''disabled'', pi_error := '''',
              pi_updated_at := now\<rparr>) (mg_db m) of
             Inl e \<Rightarrow> (Inl (StoreFailed e), m)
           | Inr db \<Rightarrow> (Inr (), m\<lparr>mg_db := db\<rparr>)))"

text \<open>\<open>os.RemoveAll\<close>, whose error the callers ignore.\<close>

definition remove_all :: "location \<Rightarrow> file_tree \<Rightarrow> file_tree" where
  "remove_all p fs = filter (\<lambda>(q, n). \<not> prefix p q) fs"

definition Uninstall ::
    "engine \<Rightarrow> string \<Rightarrow> string \<Rightarrow> plugin_manager \<Rightarrow> (plugin_error + unit) \<times> plugin_manager" where
  "Uninstall en i version m0 =
     (case GetPlugin en i version (mg_db m0) of
        Inl e \<Rightarrow> (Inl (StoreFailed e), m0)
      | Inr p \<Rightarrow>
          (case CountMonitorReferences en (map pm_type (pi_modules p)) (mg_db m0) of
             Inl e \<Rightarrow> (Inl (StoreFailed e), m0)
           | Inr n \<Rightarrow>
               if n > 0 then (Inl (PluginReferenced n), m0)
               else let m = stopActive i m0 in
                 (case DeletePlugin en i version (mg_db m) of
                    Inl e \<Rightarrow> (Inl (StoreFailed e), m)
                  | Inr db \<Rightarrow> (Inr (), m\<lparr>mg_db := db,
                      mg_files := remove_all (mg_root m @ [''packages'', i, version])
                        (remove_all (mg_root m @ [''installed'', i, version]) (mg_files m))\<rparr>))))"

definition Export :: "engine \<Rightarrow> string \<Rightarrow> string \<Rightarrow> plugin_manager \<Rightarrow> plugin_error + string" where
  "Export en i version m =
     (case GetPlugin en i version (mg_db m) of
        Inl e \<Rightarrow> Inl (StoreFailed e)
      | Inr p \<Rightarrow>
          if pi_trust_state p = ''development'' \<or> trim_space (pi_package_path p) = ''''
          then Inl DevelopmentPlugin else Inr (pi_package_path p))"

definition public_key_size :: nat where "public_key_size = 32"

definition publicKeyFingerprint :: "host \<Rightarrow> string \<Rightarrow> string" where
  "publicKeyFingerprint ho key = ''SHA256:'' @ ho_sha256 ho key"

definition TrustPublisher ::
    "engine \<Rightarrow> host \<Rightarrow> time \<Rightarrow> string \<Rightarrow> string \<Rightarrow> string \<Rightarrow> plugin_manager \<Rightarrow>
     (plugin_error + plugin_installation) \<times> plugin_manager" where
  "TrustPublisher en ho now i version fingerprint m =
     (case GetPlugin en i version (mg_db m) of
        Inl e \<Rightarrow> (Inl (StoreFailed e), m)
      | Inr p \<Rightarrow>
          if pi_signer_fingerprint p = '''' \<or> pi_signer_public_key p = '''' then (Inl (UnsignedPlugin i), m)
          else if fingerprint \<noteq> pi_signer_fingerprint p then (Inl FingerprintChanged, m)
          else if (case b64_decode_std (pi_signer_public_key p) of
              None \<Rightarrow> True
            | Some key \<Rightarrow> length key \<noteq> public_key_size \<or> publicKeyFingerprint ho key \<noteq> fingerprint)
          then (Inl SignerInvalid, m)
          else (case TrustPluginSigner en now \<lparr>sg_fingerprint = fingerprint, sg_key_id = pi_signer_key_id p,
              sg_public_key = pi_signer_public_key p, sg_vendor = pi_vendor p, sg_source = ''user'',
              sg_created_at = zero_time, sg_updated_at = zero_time\<rparr> (mg_db m) of
            Inl e \<Rightarrow> (Inl (StoreFailed e), m)
          | Inr db \<Rightarrow>
              (case GetPlugin en i version db of
                 Inl e \<Rightarrow> (Inl (StoreFailed e), m\<lparr>mg_db := db\<rparr>)
               | Inr q \<Rightarrow> (Inr q, m\<lparr>mg_db := db\<rparr>))))"

text \<open>The loop of \<open>UpdateLogConfig\<close> over the plugins that were active, with their versions.\<close>

fun restart_each ::
    "engine \<Rightarrow> host \<Rightarrow> (string \<Rightarrow> launch) \<Rightarrow> (string \<times> string) list \<Rightarrow> plugin_manager \<Rightarrow>
     (plugin_error + unit) \<times> plugin_manager" where
  "restart_each en ho la [] m = (Inr (), m)"
| "restart_each en ho la ((i, version) # rest) m =
     (case Enable en ho (la i) i version True (stopActive i m) of
        (Inl e, m1) \<Rightarrow> (Inl e, m1)
      | (Inr _, m1) \<Rightarrow> restart_each en ho la rest m1)"

definition active_versions :: "plugin_manager \<Rightarrow> (string \<times> string) list" where
  "active_versions m = map (\<lambda>(i, n). (i, pc_version (mg_clients m ! n))) (mg_processes m)"

definition UpdateLogConfig ::
    "engine \<Rightarrow> host \<Rightarrow> (string \<Rightarrow> launch) \<Rightarrow> string \<Rightarrow> string \<Rightarrow> plugin_manager \<Rightarrow>
     (plugin_error + unit) \<times> plugin_manager" where
  "UpdateLogConfig en ho la level0 format0 m =
     (let l = to_lower (trim_space level0); level = (if l = ''warning'' then ''warn'' else l);
          format = to_lower (trim_space format0) in
      if level \<notin> {''debug'', ''info'', ''warn'', ''error''} then (Inl LogLevelInvalid, m)
      else if format \<notin> {''text'', ''simple'', ''json''} then (Inl LogFormatInvalid, m)
      else restart_each en ho la (active_versions m) (m\<lparr>mg_log_level := level, mg_log_format := format\<rparr>))"

text \<open>
  One tick of \<open>supervise\<close>: the map is copied, and each client of the copy that has exited is
  started again. \<open>supervise_one\<close> is one round of that loop.
\<close>

definition supervise_one ::
    "engine \<Rightarrow> host \<Rightarrow> launch \<Rightarrow> string \<Rightarrow> nat \<Rightarrow> plugin_manager \<Rightarrow> plugin_manager" where
  "supervise_one en ho la i n m =
     (if pc_exited (mg_clients m ! n)
      then snd (Enable en ho la i (pc_version (mg_clients m ! n)) True
        (m\<lparr>mg_registry := RemoveOwner i (mg_registry m)\<rparr>))
      else m)"

definition supervise_tick ::
    "engine \<Rightarrow> host \<Rightarrow> (string \<Rightarrow> launch) \<Rightarrow> plugin_manager \<Rightarrow> plugin_manager" where
  "supervise_tick en ho la m = fold (\<lambda>(i, n). supervise_one en ho (la i) i n) (mg_processes m) m"

text \<open>The stopping of every plugin by \<open>Close\<close>.\<close>

definition Close :: "plugin_manager \<Rightarrow> plugin_manager" where
  "Close m = fold stopActive (map fst (mg_processes m)) m"

text \<open>The loop of \<open>Start\<close> over the installations; its errors are only logged.\<close>

definition restore_plugins ::
    "engine \<Rightarrow> host \<Rightarrow> (string \<Rightarrow> string \<Rightarrow> launch) \<Rightarrow> plugin_manager \<Rightarrow> (plugin_error + unit) \<times> plugin_manager" where
  "restore_plugins en ho la m =
     (case ListPlugins en (mg_db m) of
        Inl e \<Rightarrow> (Inl (StoreFailed e), m)
      | Inr ps \<Rightarrow> (Inr (),
          fold (\<lambda>p x. snd (Enable en ho (la (pi_id p) (pi_version p)) (pi_id p) (pi_version p) True x))
            (filter pi_enabled ps) m))"

text \<open>A plugin's process ends by itself.\<close>

definition crash :: "nat \<Rightarrow> plugin_manager \<Rightarrow> plugin_manager" where
  "crash n = edit_client n (\<lambda>c. c\<lparr>pc_exited := True\<rparr>)"

subsection \<open>How an activation ends\<close>

text \<open>
  Nothing that ran is affected: registry, processes and files are as before, and the only
  new clients are dead ones.
\<close>

definition keeps_running :: "plugin_manager \<Rightarrow> plugin_manager \<Rightarrow> bool" where
  "keeps_running m m' \<longleftrightarrow>
     mg_registry m' = mg_registry m \<and> mg_processes m' = mg_processes m \<and> mg_files m' = mg_files m \<and>
     mg_root m' = mg_root m \<and>
     (\<exists>cs. mg_clients m' = mg_clients m @ cs \<and> (\<forall>c \<in> set cs. pc_killed c))"

lemma keeps_running_refl [simp]: "keeps_running m m"
  by (simp add: keeps_running_def)

lemma markFailure_simps [simp]:
  "mg_registry (markFailure en ho now p e m) = mg_registry m"
  "mg_processes (markFailure en ho now p e m) = mg_processes m"
  "mg_clients (markFailure en ho now p e m) = mg_clients m"
  "mg_files (markFailure en ho now p e m) = mg_files m" "mg_root (markFailure en ho now p e m) = mg_root m"
  by (simp_all add: markFailure_def)

lemma edit_client_simps [simp]:
  "mg_registry (edit_client n f m) = mg_registry m" "mg_processes (edit_client n f m) = mg_processes m"
  "mg_files (edit_client n f m) = mg_files m" "mg_root (edit_client n f m) = mg_root m"
  "mg_db (edit_client n f m) = mg_db m" "length (mg_clients (edit_client n f m)) = length (mg_clients m)"
  by (simp_all add: edit_client_def)

lemma edit_previous_simps [simp]:
  "mg_registry (edit_previous q f m) = mg_registry m" "mg_processes (edit_previous q f m) = mg_processes m"
  "mg_files (edit_previous q f m) = mg_files m" "mg_root (edit_previous q f m) = mg_root m"
  "mg_db (edit_previous q f m) = mg_db m" "length (mg_clients (edit_previous q f m)) = length (mg_clients m)"
  by (simp_all add: edit_previous_def split: option.splits)

lemma nth_edit_client:
  "k < length (mg_clients m) \<Longrightarrow>
   mg_clients (edit_client n f m) ! k = (if k = n then f (mg_clients m ! k) else mg_clients m ! k)"
  by (simp add: edit_client_def nth_list_update)

lemma nth_edit_previous:
  "k < length (mg_clients m) \<Longrightarrow>
   mg_clients (edit_previous q f m) ! k = (if q = Some k then f (mg_clients m ! k) else mg_clients m ! k)"
  by (auto simp: edit_previous_def nth_edit_client split: option.splits)

lemma give_up_keeps:
  assumes "give_up en ho la p (length (mg_clients m)) e (m1 :: plugin_manager) = (r, m2)"
    and "mg_clients m1 = mg_clients m @ [c]" and "mg_registry m1 = mg_registry m"
    and "mg_processes m1 = mg_processes m" and "mg_files m1 = mg_files m" and "mg_root m1 = mg_root m"
  shows "keeps_running m m2 \<and> r = Inl e"
  using assms by (auto simp: give_up_def keeps_running_def edit_client_def cleanup_def)

lemma save_snapshots_plugins: "snd (save_snapshots en ms db) = db' \<Longrightarrow> db_plugins db' = db_plugins db"
proof (induction ms arbitrary: db)
  case (Cons x ms)
  have "db_plugins d = db_plugins db" if "SaveDescriptorSnapshot en (mm_descriptor x) db = Inr d" for d
    using that by (auto simp: SaveDescriptorSnapshot_def Let_def ok_then_Inr split: if_splits)
  with Cons show ?case by (auto split: sum.splits)
qed auto

lemma start_candidate_cases:
  assumes "start_candidate en ho la i version allow m = (r, m1)"
  obtains (failed) e where "r = Inl e" "keeps_running m m1"
    | (started) p ms where "r = Inr (p, length (mg_clients m), ms)" "GetPlugin en i version (mg_db m) = Inr p"
      "pi_trust_state p \<noteq> ''untrusted''" "pi_verified p \<or> allow"
      "candidate_modules la p (mg_registry m) = Inr ms"
      "mg_clients m1 = mg_clients m @ [new_client i (pi_version p)]" "mg_registry m1 = mg_registry m"
      "mg_processes m1 = mg_processes m" "mg_files m1 = mg_files m" "mg_root m1 = mg_root m"
      "db_plugins (mg_db m1) = db_plugins (mg_db m)"
proof (cases r)
  case (Inl e)
  have "keeps_running m m1"
    using assms Inl
    by (auto simp: start_candidate_def Let_def add_client_def split: sum.splits if_splits option.splits prod.splits
        intro: conjunct1 [OF give_up_keeps] simp: keeps_running_def give_up_def edit_client_def cleanup_def)
  with Inl show ?thesis by (rule failed)
next
  case (Inr pn)
  obtain p where p: "GetPlugin en i version (mg_db m) = Inr p"
    using assms Inr by (auto simp: start_candidate_def split: sum.splits)
  note s = assms [unfolded start_candidate_def p Inr]
  from s have c: "pi_trust_state p \<noteq> ''untrusted''" "pi_verified p \<or> allow"
    by (auto simp: Let_def split: if_splits)
  from s obtain ms where ms: "candidate_modules la p (mg_registry m) = Inr ms"
    by (auto simp: Let_def give_up_def split: if_splits sum.splits option.splits)
  from s ms obtain db where db: "save_snapshots en ms (mg_db m) = (Inr (), db)"
    "pn = (p, length (mg_clients m), ms)"
    "m1 = (add_client (new_client i (pi_version p)) m)\<lparr>mg_db := db\<rparr>"
    by (auto simp: Let_def give_up_def split: if_splits sum.splits option.splits prod.splits)
  then have "db_plugins db = db_plugins (mg_db m)" using save_snapshots_plugins [of en ms "mg_db m" db] by simp
  with db p c ms Inr show ?thesis by (intro started [of p ms]) (simp_all add: add_client_def)
qed

lemma switch_over_cases:
  assumes "switch_over en ho la i previous p n ms m = (r, m')"
  obtains (failed) e where "r = Inl e" "\<And>x. e \<noteq> RecordFailed x" "mg_registry m' = mg_registry m"
      "mg_processes m' = mg_processes m" "mg_files m' = mg_files m" "mg_root m' = mg_root m"
      "mg_clients m' = mg_clients (edit_client n cleanup
         (edit_previous previous start_gate (edit_previous previous stop_gate m)))"
    | (switched) db reg where
      "MigrateMonitorConfigs en (la_migrate la) (la_now la) (migration_targets (pi_modules p)) (mg_db m) = Inr db"
      "ReplaceOwnerAs i (pi_name p) (map Some ms) (mg_registry m) = Inr reg"
      "record_activation en (la_now la) i p (edit_previous previous retire ((edit_previous previous stop_gate m)
         \<lparr>mg_db := db, mg_registry := reg, mg_processes := put i n (mg_processes m)\<rparr>)) = (r, m')"
proof (cases "MigrateMonitorConfigs en (la_migrate la) (la_now la) (migration_targets (pi_modules p)) (mg_db m)")
  case (Inl e)
  with assms show ?thesis
    by (intro failed [of "MigrationFailed e"])
      (auto simp: switch_over_def give_up_def Let_def edit_client_def edit_previous_def split: option.splits)
next
  case (Inr db)
  show ?thesis
  proof (cases "ReplaceOwnerAs i (pi_name p) (map Some ms) (mg_registry m)")
    case (Inl e)
    with assms Inr show ?thesis
      by (intro failed [of "RegistryFailed e"])
        (auto simp: switch_over_def give_up_def Let_def edit_client_def edit_previous_def split: option.splits)
  next
    case (Inr reg)
    with assms \<open>MigrateMonitorConfigs _ _ _ _ _ = Inr db\<close> show ?thesis
      by (intro switched [of db reg]) (simp_all add: switch_over_def Let_def)
  qed
qed

subsection \<open>The invariant\<close>


text \<open>
  Every process of the map runs and accepts executions, every client that was not killed is
  the process of its plugin, and only plugins with a process own modules.
\<close>

definition processes_inv :: "nat go_map \<Rightarrow> client list \<Rightarrow> bool" where
  "processes_inv ps cs \<longleftrightarrow>
     wf_map ps \<and>
     (\<forall>i n. get ps i = Some n \<longrightarrow>
        n < length cs \<and> pc_plugin (cs ! n) = i \<and> \<not> pc_killed (cs ! n) \<and> pc_accepting (cs ! n)) \<and>
     (\<forall>n < length cs. \<not> pc_killed (cs ! n) \<longrightarrow> get ps (pc_plugin (cs ! n)) = Some n)"

definition owners_inv :: "nat go_map \<Rightarrow> registry \<Rightarrow> bool" where
  "owners_inv ps r \<longleftrightarrow> wf_registry r \<and> (\<forall>t w. Owner t r = Some w \<longrightarrow> has_key ps w)"

definition manager_inv :: "plugin_manager \<Rightarrow> bool" where
  "manager_inv m \<longleftrightarrow>
     processes_inv (mg_processes m) (mg_clients m) \<and> owners_inv (mg_processes m) (mg_registry m)"

lemma processes_invI:
  assumes "wf_map ps"
    and "\<And>i n. get ps i = Some n \<Longrightarrow>
      n < length cs \<and> pc_plugin (cs ! n) = i \<and> \<not> pc_killed (cs ! n) \<and> pc_accepting (cs ! n)"
    and "\<And>n. n < length cs \<Longrightarrow> \<not> pc_killed (cs ! n) \<Longrightarrow> get ps (pc_plugin (cs ! n)) = Some n"
  shows "processes_inv ps cs"
  using assms unfolding processes_inv_def by blast

lemma processes_inv_wf: "processes_inv ps cs \<Longrightarrow> wf_map ps"
  by (simp add: processes_inv_def)

lemma processes_inv_active:
  assumes "processes_inv ps cs" and "get ps i = Some n"
  shows "n < length cs" "pc_plugin (cs ! n) = i" "\<not> pc_killed (cs ! n)" "pc_accepting (cs ! n)"
  using assms unfolding processes_inv_def by blast+

lemma processes_inv_alive:
  "processes_inv ps cs \<Longrightarrow> n < length cs \<Longrightarrow> \<not> pc_killed (cs ! n) \<Longrightarrow> get ps (pc_plugin (cs ! n)) = Some n"
  unfolding processes_inv_def by blast

lemma processes_inv_dead:
  assumes "processes_inv ps cs" and "\<forall>c \<in> set ds. pc_killed c"
  shows "processes_inv ps (cs @ ds)"
proof (rule processes_invI)
  show "wf_map ps" by (rule processes_inv_wf [OF assms(1)])
next
  fix i n assume "get ps i = Some n"
  from processes_inv_active [OF assms(1) this] show "n < length (cs @ ds) \<and> pc_plugin ((cs @ ds) ! n) = i \<and>
      \<not> pc_killed ((cs @ ds) ! n) \<and> pc_accepting ((cs @ ds) ! n)" by (simp add: nth_append)
next
  fix n assume n: "n < length (cs @ ds)" "\<not> pc_killed ((cs @ ds) ! n)"
  have "n < length cs"
  proof (rule ccontr)
    assume "\<not> n < length cs"
    with n assms(2) show False by (simp add: nth_append)
  qed
  with n processes_inv_alive [OF assms(1)] show "get ps (pc_plugin ((cs @ ds) ! n)) = Some n"
    by (simp add: nth_append)
qed

lemma keeps_running_inv: "keeps_running m m' \<Longrightarrow> manager_inv m \<Longrightarrow> manager_inv m'"
  by (auto simp: keeps_running_def manager_inv_def processes_inv_dead)

lemma processes_inv_stop:
  assumes "processes_inv ps cs" and "get ps i = Some n" and "pc_killed c"
  shows "processes_inv (del i ps) (cs[n := c])"
proof (rule processes_invI)
  show "wf_map (del i ps)" using processes_inv_wf [OF assms(1)] by simp
next
  fix j k assume "get (del i ps) j = Some k"
  then have k: "j \<noteq> i" "get ps j = Some k" by (simp_all split: if_splits)
  then have "k \<noteq> n" using processes_inv_active(2) [OF assms(1)] assms(2) by metis
  with processes_inv_active [OF assms(1) k(2)]
  show "k < length (cs[n := c]) \<and> pc_plugin (cs[n := c] ! k) = j \<and> \<not> pc_killed (cs[n := c] ! k) \<and>
      pc_accepting (cs[n := c] ! k)" by simp
next
  fix k assume k: "k < length (cs[n := c])" "\<not> pc_killed (cs[n := c] ! k)"
  then have "k \<noteq> n" using assms(3) by auto
  with k processes_inv_alive [OF assms(1)] have "get ps (pc_plugin (cs ! k)) = Some k" by simp
  with \<open>k \<noteq> n\<close> assms(2) show "get (del i ps) (pc_plugin (cs[n := c] ! k)) = Some k" by auto
qed

lemma Owner_RemoveOwner:
  "wf_registry r \<Longrightarrow> Owner t (RemoveOwner i r) = (if Owner t r = Some i then None else Owner t r)"
  by (auto simp: Owner_def get_RemoveOwner wf_registry_def split: option.splits)

lemma owners_inv_remove: "owners_inv ps r \<Longrightarrow> owners_inv (del i ps) (RemoveOwner i r)"
  by (auto simp: owners_inv_def Owner_RemoveOwner wf_RemoveOwner split: if_splits)

lemma delete_absent: "get ps i = None \<Longrightarrow> del i ps = ps"
  by (induction ps) auto

lemma stopActive_inv:
  assumes "manager_inv m"
  shows "manager_inv (stopActive i m)"
proof (cases "get (mg_processes m) i")
  case None
  with assms show ?thesis
    using owners_inv_remove [of "mg_processes m" "mg_registry m" i]
    by (simp add: manager_inv_def stopActive_def Let_def delete_absent)
next
  case (Some n)
  with assms show ?thesis
    by (simp add: manager_inv_def stopActive_def Let_def edit_client_def owners_inv_remove)
      (simp add: processes_inv_stop cleanup_def)
qed

lemma stopActive_simps [simp]:
  "mg_db (stopActive i m) = mg_db m" "mg_files (stopActive i m) = mg_files m" "mg_root (stopActive i m) = mg_root m"
  "get (mg_processes (stopActive i m)) j = (if j = i then None else get (mg_processes m) j)"
  "mg_registry (stopActive i m) = RemoveOwner i (mg_registry m)"
  "length (mg_clients (stopActive i m)) = length (mg_clients m)"
  by (auto simp: stopActive_def Let_def split: option.splits)

text \<open>The new process takes the place of the previous one.\<close>

lemma processes_inv_replace:
  assumes "processes_inv ps cs" and "pc_plugin c = i" and "\<not> pc_killed c" and "pc_accepting c" and "pc_killed d"
  shows "processes_inv (put i (length cs) ps) ((case get ps i of None \<Rightarrow> cs | Some q \<Rightarrow> cs[q := d]) @ [c])"
proof -
  have add: "processes_inv (put i (length xs) qs) (xs @ [c])" if p: "processes_inv qs xs" and "get qs i = None" for qs xs
  proof (rule processes_invI)
    show "wf_map (put i (length xs) qs)" using processes_inv_wf [OF p] by simp
  next
    fix j k assume "get (put i (length xs) qs) j = Some k"
    then consider "j = i" "k = length xs" | "j \<noteq> i" "get qs j = Some k" by (auto split: if_splits)
    then show "k < length (xs @ [c]) \<and> pc_plugin ((xs @ [c]) ! k) = j \<and> \<not> pc_killed ((xs @ [c]) ! k) \<and>
        pc_accepting ((xs @ [c]) ! k)"
    proof cases
      case 2
      from processes_inv_active [OF p 2(2)] show ?thesis by (simp add: nth_append)
    qed (use assms in simp)
  next
    fix k assume k: "k < length (xs @ [c])" "\<not> pc_killed ((xs @ [c]) ! k)"
    show "get (put i (length xs) qs) (pc_plugin ((xs @ [c]) ! k)) = Some k"
    proof (cases "k = length xs")
      case False
      with k have "k < length xs" "\<not> pc_killed (xs ! k)" by (auto simp: nth_append)
      from processes_inv_alive [OF p this] that(2) this(1) show ?thesis by (auto simp: nth_append)
    qed (use assms in simp)
  qed
  show ?thesis
  proof (cases "get ps i")
    case None
    with add [OF assms(1)] show ?thesis by simp
  next
    case (Some q)
    have "processes_inv (del i ps) (cs[q := d])" by (rule processes_inv_stop [OF assms(1) Some assms(5)])
    then have "processes_inv (put i (length (cs[q := d])) (del i ps)) (cs[q := d] @ [c])" by (rule add) simp
    moreover have "processes_inv (put i n ps) xs" if "processes_inv (put i n (del i ps)) xs" for n xs
      using that processes_inv_wf [OF assms(1)] unfolding processes_inv_def get_put get_del
      by (simp add: if_distrib cong: if_cong)
    ultimately show ?thesis using Some by simp
  qed
qed

lemma owners_inv_replace:
  assumes "owners_inv ps r" and "ReplaceOwnerAs i name (map Some ms) r = Inr r'"
  shows "owners_inv (put i n ps) r'"
proof -
  have wf: "wf_registry r" using assms(1) by (simp add: owners_inv_def)
  have e: "wf_registry r'" "\<And>t other. other \<noteq> i \<Longrightarrow> Owner t r' = Some other \<Longrightarrow> Owner t r = Some other"
  proof -
    from replace_result [OF wf assms(2)] obtain out where
      out: "each (collect_module i name) (map Some ms) [] = Inr out" and w: "wf_registry r'"
      and g: "\<And>t. get r' t = (case get out t of Some e \<Rightarrow> Some e
        | None \<Rightarrow> (case get r t of None \<Rightarrow> None | Some e \<Rightarrow> if rg_owner e = i then None else Some e))" by blast
    show "wf_registry r'" by (rule w)
    fix t other assume "other \<noteq> i" "Owner t r' = Some other"
    then show "Owner t r = Some other"
      using conjunct2 [OF collect_result [OF wf_NewRegistry out]]
      by (auto simp: Owner_def g entry_of_def split: option.splits if_splits)
  qed
  show ?thesis
    unfolding owners_inv_def
  proof (intro conjI allI impI)
    show "wf_registry r'" by (rule e(1))
    fix t w assume w: "Owner t r' = Some w"
    show "has_key (put i n ps) w"
    proof (cases "w = i")
      case False
      from e(2) [OF this w] assms(1) have "has_key ps w" unfolding owners_inv_def by blast
      then show ?thesis by auto
    qed simp
  qed
qed

text \<open>What recording an activation can end with.\<close>

lemma record_activation_cases:
  assumes "record_activation en now i p m = (r, m')"
  shows "(\<exists>e. r = Inl (RecordFailed e) \<and> (m' = m \<or> (\<exists>db. m' = stopActive i (m\<lparr>mg_db := db\<rparr>)))) \<or>
    (r = Inr () \<and> (\<exists>db. m' = m\<lparr>mg_db := db\<rparr>))"
  using assms by (auto simp: record_activation_def split: sum.splits)

lemma manager_inv_db [simp]: "manager_inv (m\<lparr>mg_db := db\<rparr>) = manager_inv m"
  by (simp add: manager_inv_def)

lemma record_activation_inv:
  "record_activation en now i p m = (r, m') \<Longrightarrow> manager_inv m \<Longrightarrow> manager_inv m'"
  using record_activation_cases [of en now i p m r m'] by (auto intro: stopActive_inv)

text \<open>The candidate is the last client; before, everything is as the invariant says.\<close>

lemma restore_gate: "pc_accepting c \<Longrightarrow> start_gate (stop_gate c) = c"
  by (simp add: start_gate_def stop_gate_def)

lemma switch_over_effect:
  assumes "switch_over en ho la i (get (mg_processes m) i) p (length (mg_clients m)) ms m1 = (r, m')"
    and "processes_inv (mg_processes m) (mg_clients m)"
    and "mg_clients m1 = mg_clients m @ [c]" and "mg_registry m1 = mg_registry m"
    and "mg_processes m1 = mg_processes m" and "mg_files m1 = mg_files m" and "mg_root m1 = mg_root m"
  obtains (failed) e where "r = Inl e" "\<And>x. e \<noteq> RecordFailed x" "keeps_running m m'"
    | (switched) db reg m2 where
      "MigrateMonitorConfigs en (la_migrate la) (la_now la) (migration_targets (pi_modules p)) (mg_db m1) = Inr db"
      "ReplaceOwnerAs i (pi_name p) (map Some ms) (mg_registry m) = Inr reg"
      "mg_registry m2 = reg" "mg_processes m2 = put i (length (mg_clients m)) (mg_processes m)"
      "mg_clients m2 = (case get (mg_processes m) i of None \<Rightarrow> mg_clients m
          | Some q \<Rightarrow> (mg_clients m)[q := retire (mg_clients m ! q)]) @ [c]"
      "mg_db m2 = db" "record_activation en (la_now la) i p m2 = (r, m')"
proof (rule switch_over_cases [OF assms(1)])
  let ?q = "get (mg_processes m) i"
  fix e
  assume f: "r = Inl e" "\<And>x. e \<noteq> RecordFailed x" "mg_registry m' = mg_registry m1"
    "mg_processes m' = mg_processes m1" "mg_files m' = mg_files m1" "mg_root m' = mg_root m1"
    "mg_clients m' = mg_clients (edit_client (length (mg_clients m)) cleanup
       (edit_previous ?q start_gate (edit_previous ?q stop_gate m1)))"
  have q: "k < length (mg_clients m) \<and> pc_accepting (mg_clients m ! k)" if "?q = Some k" for k
    using processes_inv_active [OF assms(2) that] by simp
  have "mg_clients (edit_previous ?q start_gate (edit_previous ?q stop_gate m1)) = mg_clients m @ [c]"
  proof (cases ?q)
    case (Some k)
    with q [OF Some] assms(3) show ?thesis
      by (simp add: edit_previous_def edit_client_def restore_gate nth_append list_update_append)
  qed (simp add: edit_previous_def assms(3))
  then have "mg_clients m' = mg_clients m @ [cleanup c]"
    by (simp add: f(7) edit_client_def)
  then have "keeps_running m m'"
    using f(3-6) assms(4-7) by (simp add: keeps_running_def cleanup_def)
  with f(1,2) show ?thesis by (rule failed)
next
  let ?q = "get (mg_processes m) i"
  fix db reg
  let ?m2 = "edit_previous ?q retire ((edit_previous ?q stop_gate m1)
      \<lparr>mg_db := db, mg_registry := reg, mg_processes := put i (length (mg_clients m)) (mg_processes m1)\<rparr>)"
  assume s: "MigrateMonitorConfigs en (la_migrate la) (la_now la) (migration_targets (pi_modules p)) (mg_db m1) = Inr db"
    "ReplaceOwnerAs i (pi_name p) (map Some ms) (mg_registry m1) = Inr reg"
    "record_activation en (la_now la) i p ?m2 = (r, m')"
  have q: "k < length (mg_clients m)" if "?q = Some k" for k
    using processes_inv_active [OF assms(2) that] by simp
  have "mg_clients ?m2 = (case ?q of None \<Rightarrow> mg_clients m
      | Some k \<Rightarrow> (mg_clients m)[k := retire (mg_clients m ! k)]) @ [c]"
  proof (cases ?q)
    case (Some k)
    with q [OF Some] assms(3) show ?thesis
      by (simp add: edit_previous_def edit_client_def nth_append list_update_append retire_def stop_gate_def)
  qed (simp add: edit_previous_def assms(3))
  then show ?thesis using s assms(4,5) by (intro switched [of db reg ?m2]) simp_all
qed

lemma Enable_inv:
  assumes "manager_inv m" and "Enable en ho la i version allow m = (r, m')"
  shows "manager_inv m'"
proof -
  obtain r1 m1 where s: "start_candidate en ho la i version allow m = (r1, m1)" by (metis surj_pair)
  from s show ?thesis
  proof (cases rule: start_candidate_cases)
    case (failed e)
    with assms s show ?thesis by (auto simp: Enable_def intro: keeps_running_inv)
  next
    case (started p ms)
    have sw: "switch_over en ho la i (get (mg_processes m) i) p (length (mg_clients m)) ms m1 = (r, m')"
      using assms(2) s started by (simp add: Enable_def)
    have pinv: "processes_inv (mg_processes m) (mg_clients m)" and oinv: "owners_inv (mg_processes m) (mg_registry m)"
      using assms(1) by (simp_all add: manager_inv_def)
    from sw pinv started(6-10) show ?thesis
    proof (cases rule: switch_over_effect)
      case (failed e)
      with assms(1) show ?thesis by (auto intro: keeps_running_inv)
    next
      case (switched db reg m2)
      have "owners_inv (mg_processes m2) (mg_registry m2)"
        using owners_inv_replace [OF oinv switched(2)] switched(3,4) by simp
      moreover have "processes_inv (mg_processes m2) (mg_clients m2)"
        unfolding switched(4,5)
      proof -
        have "processes_inv (put i (length (mg_clients m)) (mg_processes m))
          ((case get (mg_processes m) i of None \<Rightarrow> mg_clients m | Some q \<Rightarrow> (mg_clients m)[q := retire (mg_clients m ! q)])
            @ [new_client i (pi_version p)])"
        proof (cases "get (mg_processes m) i")
          case None
          with processes_inv_replace [OF pinv, of "new_client i (pi_version p)" i "retire (new_client i '''')"]
          show ?thesis by (simp add: new_client_def retire_def)
        next
          case (Some q)
          with processes_inv_replace [OF pinv, of "new_client i (pi_version p)" i "retire (mg_clients m ! q)"]
          show ?thesis by (simp add: new_client_def retire_def)
        qed
        then show "processes_inv (put i (length (mg_clients m)) (mg_processes m))
          ((case get (mg_processes m) i of None \<Rightarrow> mg_clients m | Some q \<Rightarrow> (mg_clients m)[q := retire (mg_clients m ! q)])
            @ [new_client i (pi_version p)])" .
      qed
      ultimately have "manager_inv m2" by (simp add: manager_inv_def)
      with switched(7) show ?thesis by (rule record_activation_inv)
    qed
  qed
qed

subsection \<open>Every reachable state\<close>

text \<open>
  The operations of the manager in any order, the death of a process, and changes of the
  store and of the files by others. The supervisor may work on an entry of an old copy of the
  map.
\<close>

inductive manager_reachable :: "plugin_manager \<Rightarrow> bool" where
  start: "mg_registry m = NewRegistry \<Longrightarrow> mg_processes m = [] \<Longrightarrow> mg_clients m = [] \<Longrightarrow> manager_reachable m"
| enable: "manager_reachable m \<Longrightarrow> Enable en ho la i version allow m = (r, m') \<Longrightarrow> manager_reachable m'"
| disable: "manager_reachable m \<Longrightarrow> Disable en now i version m = (r, m') \<Longrightarrow> manager_reachable m'"
| uninstall: "manager_reachable m \<Longrightarrow> Uninstall en i version m = (r, m') \<Longrightarrow> manager_reachable m'"
| trust: "manager_reachable m \<Longrightarrow> TrustPublisher en ho now i version fp m = (r', m') \<Longrightarrow> manager_reachable m'"
| log_config: "manager_reachable m \<Longrightarrow> UpdateLogConfig en ho las level format m = (r, m') \<Longrightarrow> manager_reachable m'"
| restore: "manager_reachable m \<Longrightarrow> restore_plugins en ho la2 m = (r, m') \<Longrightarrow> manager_reachable m'"
| supervise: "manager_reachable m \<Longrightarrow> n < length (mg_clients m) \<Longrightarrow> pc_plugin (mg_clients m ! n) = i \<Longrightarrow>
    manager_reachable (supervise_one en ho la i n m)"
| close: "manager_reachable m \<Longrightarrow> manager_reachable (Close m)"
| died: "manager_reachable m \<Longrightarrow> n < length (mg_clients m) \<Longrightarrow> manager_reachable (crash n m)"
| others: "manager_reachable m \<Longrightarrow> manager_reachable (m\<lparr>mg_db := db, mg_files := fs\<rparr>)"

lemma manager_inv_files [simp]: "manager_inv (m\<lparr>mg_files := fs\<rparr>) = manager_inv m"
  by (simp add: manager_inv_def)

lemma manager_inv_log [simp]: "manager_inv (m\<lparr>mg_log_level := l, mg_log_format := f\<rparr>) = manager_inv m"
  by (simp add: manager_inv_def)

lemma manager_inv_remove: "manager_inv m \<Longrightarrow> manager_inv (m\<lparr>mg_registry := RemoveOwner i (mg_registry m)\<rparr>)"
  by (auto simp: manager_inv_def owners_inv_def Owner_RemoveOwner wf_RemoveOwner split: if_splits)

lemma Disable_inv: "manager_inv m \<Longrightarrow> Disable en now i version m = (r, m') \<Longrightarrow> manager_inv m'"
  by (auto simp: Disable_def Let_def intro: stopActive_inv split: sum.splits)

lemma Uninstall_inv: "manager_inv m \<Longrightarrow> Uninstall en i version m = (r, m') \<Longrightarrow> manager_inv m'"
  by (auto simp: Uninstall_def Let_def intro: stopActive_inv split: sum.splits if_splits)

lemma TrustPublisher_inv: "manager_inv m \<Longrightarrow> TrustPublisher en ho now i version fp m = (r, m') \<Longrightarrow> manager_inv m'"
  by (auto simp: TrustPublisher_def split: sum.splits if_splits)

lemma restart_each_inv: "manager_inv m \<Longrightarrow> restart_each en ho la ivs m = (r, m') \<Longrightarrow> manager_inv m'"
proof (induction ivs arbitrary: m)
  case (Cons iv ivs)
  obtain i v where iv: "iv = (i, v)" by (cases iv)
  obtain r1 m1 where e: "Enable en ho (la i) i v True (stopActive i m) = (r1, m1)" by (metis surj_pair)
  have "manager_inv m1" by (rule Enable_inv [OF stopActive_inv [OF Cons.prems(1)] e])
  with Cons iv e show ?case by (cases r1) auto
qed simp

lemma UpdateLogConfig_inv:
  assumes "manager_inv m" and "UpdateLogConfig en ho la level format m = (r, m')"
  shows "manager_inv m'"
proof -
  let ?x = "\<lambda>l f. m\<lparr>mg_log_level := l, mg_log_format := f\<rparr>"
  have "\<exists>l f. m' = m \<or> restart_each en ho la (active_versions m) (?x l f) = (r, m')"
    using assms(2) by (fastforce simp: UpdateLogConfig_def Let_def split: if_splits)
  then obtain l f where "m' = m \<or> restart_each en ho la (active_versions m) (?x l f) = (r, m')" by blast
  with assms(1) show ?thesis using restart_each_inv [of "?x l f" en ho la "active_versions m" r m'] by auto
qed

lemma fold_keeps: "(\<And>x s. P s \<Longrightarrow> P (f x s)) \<Longrightarrow> P s \<Longrightarrow> P (fold f xs s)"
  by (induction xs arbitrary: s) auto

lemma Close_inv: "manager_inv m \<Longrightarrow> manager_inv (Close m)"
  unfolding Close_def by (rule fold_keeps) (auto intro: stopActive_inv)

lemma snd_Enable_inv: "manager_inv m \<Longrightarrow> manager_inv (snd (Enable en ho la i version allow m))"
  by (rule Enable_inv) (auto simp: prod_eq_iff)

lemma restore_inv:
  assumes "manager_inv m" and "restore_plugins en ho la m = (r, m')"
  shows "manager_inv m'"
proof (cases "ListPlugins en (mg_db m)")
  case (Inr ps)
  then have "m' = fold (\<lambda>p x. snd (Enable en ho (la (pi_id p) (pi_version p)) (pi_id p) (pi_version p) True x))
      (filter pi_enabled ps) m"
    using assms(2) by (simp add: restore_plugins_def)
  then show ?thesis
    using fold_keeps [where P = manager_inv, OF snd_Enable_inv assms(1)] by simp
qed (use assms in \<open>simp add: restore_plugins_def\<close>)

lemma supervise_inv: "manager_inv m \<Longrightarrow> manager_inv (supervise_one en ho la i n m)"
  by (simp add: supervise_one_def snd_Enable_inv manager_inv_remove)

lemma crash_inv:
  assumes "manager_inv m"
  shows "manager_inv (crash n m)"
proof -
  let ?f = "\<lambda>c. c\<lparr>pc_exited := True\<rparr>"
  have nth: "(cs[n := ?f (cs ! n)]) ! k = (if k = n then ?f (cs ! k) else cs ! k)" if "k < length cs" for k cs
    using that by (simp add: nth_list_update)
  have "processes_inv ps (cs[n := ?f (cs ! n)])" if p: "processes_inv ps cs" for ps cs
  proof (rule processes_invI)
    show "wf_map ps" by (rule processes_inv_wf [OF p])
  next
    fix j k assume "get ps j = Some k"
    from processes_inv_active [OF p this]
    show "k < length (cs[n := ?f (cs ! n)]) \<and> pc_plugin (cs[n := ?f (cs ! n)] ! k) = j \<and>
        \<not> pc_killed (cs[n := ?f (cs ! n)] ! k) \<and> pc_accepting (cs[n := ?f (cs ! n)] ! k)"
      by (auto simp: nth)
  next
    fix k assume k: "k < length (cs[n := ?f (cs ! n)])" "\<not> pc_killed (cs[n := ?f (cs ! n)] ! k)"
    then have "\<not> pc_killed (cs ! k)" "k < length cs" by (auto simp: nth split: if_splits)
    with processes_inv_alive [OF p] show "get ps (pc_plugin (cs[n := ?f (cs ! n)] ! k)) = Some k"
      using k(1) by (auto simp: nth)
  qed
  with assms show ?thesis by (simp add: manager_inv_def crash_def edit_client_def)
qed

lemma reachable_inv: "manager_reachable m \<Longrightarrow> manager_inv m"
proof (induction rule: manager_reachable.induct)
  case (start m)
  then show ?case by (simp add: manager_inv_def processes_inv_def owners_inv_def NewRegistry_def Owner_def)
next
  case (others m db fs)
  then show ?case by (simp add: manager_inv_def)
qed (auto intro: Enable_inv Disable_inv Uninstall_inv TrustPublisher_inv UpdateLogConfig_inv Close_inv
    restore_inv supervise_inv crash_inv)


text \<open>
  C8: An activation that fails leaves what runs alone: whichever step fails (the log file, the
  command, the launch, a health check, the modules, their snapshots, the migration, the
  registry), the registry, the processes and every existing client are as before, the old
  version accepting executions, and the candidate has been killed. Only a failure of the last
  two statements, which record the new version, comes after the switch.
\<close>

theorem failed_activation_keeps_running:
  assumes "manager_reachable m" and "Enable en ho la i version allow m = (Inl e, m')"
    and "\<And>x. e \<noteq> RecordFailed x"
  shows "mg_registry m' = mg_registry m \<and> mg_processes m' = mg_processes m \<and>
    (\<exists>cs. mg_clients m' = mg_clients m @ cs \<and> (\<forall>c \<in> set cs. pc_killed c))"
proof -
  have pinv: "processes_inv (mg_processes m) (mg_clients m)"
    using reachable_inv [OF assms(1)] by (simp add: manager_inv_def)
  obtain r1 m1 where s: "start_candidate en ho la i version allow m = (r1, m1)" by (metis surj_pair)
  from s have "keeps_running m m'"
  proof (cases rule: start_candidate_cases)
    case (failed d)
    with assms(2) s show ?thesis by (simp add: Enable_def)
  next
    case (started p ms)
    have "switch_over en ho la i (get (mg_processes m) i) p (length (mg_clients m)) ms m1 = (Inl e, m')"
      using assms(2) s started by (simp add: Enable_def)
    from this pinv started(6-10) show ?thesis
    proof (cases rule: switch_over_effect)
      case (switched db reg m2)
      with record_activation_cases [OF switched(7)] assms(3) show ?thesis by auto
    qed simp
  qed
  then show ?thesis by (simp add: keeps_running_def)
qed

subsection \<open>What an activation writes\<close>

lemma UpsertPlugin_rows:
  assumes "UpsertPlugin en p db = Inr db'"
  shows "(\<forall>row \<in> set (db_plugins db'). plugin_key row = plugin_key p \<longrightarrow> row = replace_plugin p row)"
    and "\<And>row. plugin_key row \<noteq> plugin_key p \<Longrightarrow> row \<in> set (db_plugins db') \<longleftrightarrow> row \<in> set (db_plugins db)"
    and "plugin_key p \<in> plugin_key ` set (db_plugins db) \<Longrightarrow> plugin_key p \<in> plugin_key ` set (db_plugins db')"
proof -
  let ?P = "\<lambda>row. plugin_key row = plugin_key p"
  let ?u = "update_rows ?P (replace_plugin p) (db_plugins db)"
  have key: "plugin_key (replace_plugin p row) = plugin_key p" for row by (simp add: replace_plugin_def)
  have out: "db_plugins db' = ?u \<or> (db_plugins db' = ?u @ [p])"
    using assms by (auto simp: UpsertPlugin_def Let_def ok_then_Inr insert_row_Inr split: if_splits sum.splits)
  have u: "row \<in> set ?u \<longleftrightarrow> (\<exists>q \<in> set (db_plugins db). row = (if ?P q then replace_plugin p q else q))" for row
    by (rule in_update_rows)
  have rep: "replace_plugin p p = p" "\<And>q. replace_plugin p (replace_plugin p q) = replace_plugin p q"
    by (simp_all add: replace_plugin_def)
  show "\<forall>row \<in> set (db_plugins db'). ?P row \<longrightarrow> row = replace_plugin p row"
  proof (intro ballI impI)
    fix row assume row: "row \<in> set (db_plugins db')" "?P row"
    then consider "row = p" | "row \<in> set ?u" using out by auto
    then show "row = replace_plugin p row"
    proof cases
      case 2
      from 2 have "\<exists>q \<in> set (db_plugins db). row = (if ?P q then replace_plugin p q else q)" by (simp only: u)
      then obtain q where q: "row = (if ?P q then replace_plugin p q else q)" by blast
      with row(2) have "?P q" by (auto split: if_splits)
      with q have "row = replace_plugin p q" by simp
      then show ?thesis using rep(2) by metis
    qed (simp add: rep)
  qed
  show "row \<in> set (db_plugins db') \<longleftrightarrow> row \<in> set (db_plugins db)" if "\<not> ?P row" for row
  proof -
    have "row \<in> set (db_plugins db') \<longleftrightarrow> row \<in> set ?u" using out that by auto
    also have "\<dots> \<longleftrightarrow> row \<in> set (db_plugins db)"
    proof
      assume "row \<in> set ?u"
      then have "\<exists>q \<in> set (db_plugins db). row = (if ?P q then replace_plugin p q else q)" by (simp only: u)
      then obtain q where "q \<in> set (db_plugins db)" "row = (if ?P q then replace_plugin p q else q)" by blast
      then show "row \<in> set (db_plugins db)" using that key by (cases "?P q") metis+
    next
      assume "row \<in> set (db_plugins db)"
      moreover have "row = (if ?P row then replace_plugin p row else row)" using that by (simp only: if_False simp_thms)
      ultimately show "row \<in> set ?u" unfolding u by blast
    qed
    finally show ?thesis .
  qed
  assume "plugin_key p \<in> plugin_key ` set (db_plugins db)"
  then obtain q where "q \<in> set (db_plugins db)" "?P q" by force
  then have "replace_plugin p q \<in> set ?u" unfolding u by (intro bexI [of _ q]) simp_all
  then have "replace_plugin p q \<in> set (db_plugins db')" using out by auto
  then have "plugin_key (replace_plugin p q) \<in> plugin_key ` set (db_plugins db')" by (rule imageI)
  then show "plugin_key p \<in> plugin_key ` set (db_plugins db')" by (simp only: key)
qed

lemma MigrateMonitorConfigs_plugins:
  assumes "MigrateMonitorConfigs en mig now ts db = Inr db'"
  shows "db_plugins db' = db_plugins db"
proof -
  have step: "db_plugins d' = db_plugins d" if "migrate_monitor en mig now ts x d = Inr d'" for x d d'
    using that by (auto simp: migrate_monitor_def split: option.splits sum.splits prod.splits)
  have "db_plugins d' = db_plugins d" if "each (migrate_monitor en mig now ts) xs d = Inr d'" for xs d d'
    using that
  proof (induction xs arbitrary: d)
    case (Cons x xs)
    then obtain d1 where d1: "migrate_monitor en mig now ts x d = Inr d1" "each (migrate_monitor en mig now ts) xs d1 = Inr d'"
      by (auto simp: ok_then_Inr)
    with Cons.IH [OF d1(2)] step [OF d1(1)] show ?case by simp
  qed simp
  with assms show ?thesis
    by (auto simp: MigrateMonitorConfigs_def transaction_def ok_then_Inr split: if_splits)
qed

lemma GetPlugin_row:
  assumes "GetPlugin en i version db = Inr p"
  shows "p \<in> set (db_plugins db) \<and> pi_id p = i"
  using assms by (auto simp: GetPlugin_def dest!: select_first_Inr split: if_splits)

lemma record_activation_rows:
  assumes "record_activation en now i p m = (Inr (), m')" and "p \<in> set (db_plugins (mg_db m))" and "pi_id p = i"
  shows "(\<forall>row \<in> set (db_plugins (mg_db m')). pi_id row = i \<longrightarrow>
      (pi_enabled row \<longleftrightarrow> pi_version row = pi_version p) \<and> (pi_enabled row \<longrightarrow> pi_status row = ''healthy''))"
    and "\<exists>row \<in> set (db_plugins (mg_db m')). plugin_key row = (i, pi_version p)"
proof -
  let ?p = "p\<lparr>pi_enabled := True, pi_status := ''healthy'', pi_error := '''', pi_updated_at := now\<rparr>"
  from assms(1) obtain db1 db2 where d: "DisableOtherPluginVersions en now i (pi_version p) (mg_db m) = Inr db1"
    "UpsertPlugin en ?p db1 = Inr db2" "mg_db m' = db2"
    by (auto simp: record_activation_def split: sum.splits)
  note up = UpsertPlugin_rows [OF d(2)]
  from d(1) have db1: "\<exists>q \<in> set (db_plugins (mg_db m)). row = (if pi_id q = i \<and> pi_version q \<noteq> pi_version p \<and> pi_enabled q
      then q\<lparr>pi_enabled := False, pi_status := ''installed'', pi_error := [], pi_updated_at := now\<rparr> else q)"
    if "row \<in> set (db_plugins db1)" for row
  proof -
    have "db_plugins db1 = update_rows (\<lambda>p'. pi_id p' = i \<and> pi_version p' \<noteq> pi_version p \<and> pi_enabled p')
        (\<lambda>p. p\<lparr>pi_enabled := False, pi_status := ''installed'', pi_error := [], pi_updated_at := now\<rparr>) (db_plugins (mg_db m))"
      using d(1) by (auto simp: DisableOtherPluginVersions_def)
    with that show ?thesis by (simp only: in_update_rows)
  qed
  show "\<forall>row \<in> set (db_plugins (mg_db m')). pi_id row = i \<longrightarrow>
      (pi_enabled row \<longleftrightarrow> pi_version row = pi_version p) \<and> (pi_enabled row \<longrightarrow> pi_status row = ''healthy'')"
    unfolding d(3)
  proof (intro ballI impI)
    fix row assume row: "row \<in> set (db_plugins db2)" "pi_id row = i"
    show "(pi_enabled row \<longleftrightarrow> pi_version row = pi_version p) \<and> (pi_enabled row \<longrightarrow> pi_status row = ''healthy'')"
    proof (cases "pi_version row = pi_version p")
      case True
      then have e: "row = replace_plugin ?p row" using up(1) row assms(3) by simp
      have "pi_enabled row" "pi_status row = ''healthy''"
        by (subst e, simp add: replace_plugin_def)+
      with True show ?thesis by simp
    next
      case False
      then have "row \<in> set (db_plugins db1)" using up(2) [of row] row by simp
      from db1 [OF this] obtain q where q: "row = (if pi_id q = i \<and> pi_version q \<noteq> pi_version p \<and> pi_enabled q
        then q\<lparr>pi_enabled := False, pi_status := ''installed'', pi_error := [], pi_updated_at := now\<rparr> else q)" by blast
      have "\<not> pi_enabled row"
      proof (cases "pi_id q = i \<and> pi_version q \<noteq> pi_version p \<and> pi_enabled q")
        case False
        with q have "row = q" by simp
        with False \<open>pi_version row \<noteq> pi_version p\<close> row(2) show ?thesis by simp
      qed (simp add: q)
      with False show ?thesis by simp
    qed
  qed
  have "p \<in> set (db_plugins (mg_db m))" by (rule assms(2))
  then have "p \<in> set (db_plugins db1)" using d(1) by (auto simp: DisableOtherPluginVersions_def in_update_rows)
  then have "plugin_key ?p \<in> plugin_key ` set (db_plugins db1)" by force
  then have "plugin_key ?p \<in> plugin_key ` set (db_plugins db2)" by (rule up(3))
  then show "\<exists>row \<in> set (db_plugins (mg_db m')). plugin_key row = (i, pi_version p)"
    using assms(3) d(3) by force
qed

lemma candidate_modules_types:
  "candidate_modules la p r = Inr ms \<Longrightarrow> la_modules la = Some ds \<Longrightarrow>
   map module_type ms = map md_type ds \<and> verifyDescriptors (pi_modules p) ds = Inr ()"
proof -
  assume "candidate_modules la p r = Inr ms" and ds: "la_modules la = Some ds"
  then obtain ms' where v: "verifyDescriptors (pi_modules p) ds = Inr ()"
    and a': "all_ok (map (NewRemoteModule la \<circ> declared_descriptor (pi_modules p)) ds) = Inr ms'"
    and "(case ValidateReplaceOwner (pi_id p) (map module_type ms') r of Inl e \<Rightarrow> Inl (RegistryFailed e) | Inr _ \<Rightarrow> Inr ms') = Inr ms"
    by (auto simp: candidate_modules_def ok_then_Inr)
  from this(3) have "ms' = ms" by (cases "ValidateReplaceOwner (pi_id p) (map module_type ms') r") simp_all
  with a' have a: "map (NewRemoteModule la \<circ> declared_descriptor (pi_modules p)) ds = map Inr ms"
    by (simp only: all_ok_Inr)
  have t: "md_type (declared_descriptor (pi_modules p) d) = md_type d" for d
    by (simp add: declared_descriptor_def split: option.splits)
  from a have "map (\<lambda>d. case NewRemoteModule la (declared_descriptor (pi_modules p) d) of Inr x \<Rightarrow> module_type x | Inl e \<Rightarrow> '''') ds =
      map module_type ms"
    by (metis (no_types, lifting) comp_def list.map_comp list.map_cong0 old.sum.simps(6))
  moreover have "(case NewRemoteModule la (declared_descriptor (pi_modules p) d) of Inr x \<Rightarrow> module_type x | Inl e \<Rightarrow> '''') = md_type d"
    if "d \<in> set ds" for d
  proof -
    from a that obtain x where "NewRemoteModule la (declared_descriptor (pi_modules p) d) = Inr x"
      by (auto simp: comp_def) (metis (no_types, lifting) imageE image_eqI list.set_map)
    then show ?thesis by (auto simp: NewRemoteModule_def t split: if_splits)
  qed
  ultimately have "map module_type ms = map md_type ds"
    by (metis (no_types, lifting) map_cong)
  with v show ?thesis by simp
qed

text \<open>
  C23: What a successful activation does. The installation existed, its publisher is not an
  untrusted one, and it is verified or the risk was confirmed; afterwards the new process is
  the one of the plugin and the previous one has been stopped and killed, the other plugins
  keep theirs, the registry offers for this plugin exactly the modules the process listed,
  and in the store this version is enabled and healthy and every other version of the plugin
  is disabled.
\<close>

theorem activation_effect:
  assumes "manager_reachable m" and "Enable en ho la i version allow m = (Inr (), m')"
    and "la_modules la = Some ds"
  shows "\<exists>p. GetPlugin en i version (mg_db m) = Inr p \<and> pi_trust_state p \<noteq> ''untrusted'' \<and> (pi_verified p \<or> allow) \<and>
    get (mg_processes m') i = Some (length (mg_clients m)) \<and>
    mg_clients m' ! length (mg_clients m) = new_client i (pi_version p) \<and>
    (\<forall>q. get (mg_processes m) i = Some q \<longrightarrow> pc_killed (mg_clients m' ! q) \<and> \<not> pc_accepting (mg_clients m' ! q)) \<and>
    (\<forall>j. j \<noteq> i \<longrightarrow> get (mg_processes m') j = get (mg_processes m) j) \<and>
    (\<forall>t. Owner t (mg_registry m') = Some i \<longleftrightarrow> t \<in> set (map md_type ds)) \<and>
    (\<forall>row \<in> set (db_plugins (mg_db m')). pi_id row = i \<longrightarrow>
       (pi_enabled row \<longleftrightarrow> pi_version row = pi_version p) \<and> (pi_enabled row \<longrightarrow> pi_status row = ''healthy'')) \<and>
    (\<exists>row \<in> set (db_plugins (mg_db m')). plugin_key row = (i, pi_version p))"
proof -
  have inv: "processes_inv (mg_processes m) (mg_clients m)" "owners_inv (mg_processes m) (mg_registry m)"
    using reachable_inv [OF assms(1)] by (simp_all add: manager_inv_def)
  obtain r1 m1 where s: "start_candidate en ho la i version allow m = (r1, m1)" by (metis surj_pair)
  from s show ?thesis
  proof (cases rule: start_candidate_cases)
    case (failed e)
    with assms(2) s show ?thesis by (simp add: Enable_def)
  next
    case (started p ms)
    have "switch_over en ho la i (get (mg_processes m) i) p (length (mg_clients m)) ms m1 = (Inr (), m')"
      using assms(2) s started by (simp add: Enable_def)
    from this inv(1) started(6-10) show ?thesis
    proof (cases rule: switch_over_effect)
      case (switched db reg m2)
      obtain db' where m': "m' = m2\<lparr>mg_db := db'\<rparr>" using record_activation_cases [OF switched(7)] by auto
      have row: "p \<in> set (db_plugins (mg_db m2))" "pi_id p = i"
        using GetPlugin_row [OF started(2)] started(11) MigrateMonitorConfigs_plugins [OF switched(1)] switched(6)
        by simp_all
      have "wf_registry (mg_registry m)" using inv(2) by (simp add: owners_inv_def)
      from replace_owner_effect [OF this switched(2)]
      have own: "Owner t (mg_registry m') = Some i \<longleftrightarrow> t \<in> set (map md_type ds)" for t
        using candidate_modules_types [OF started(5) assms(3)] switched(3) m' by (metis plugin_manager.select_convs(2) plugin_manager.surjective plugin_manager.update_convs(1))
      have old: "pc_killed (mg_clients m' ! q) \<and> \<not> pc_accepting (mg_clients m' ! q)" if "get (mg_processes m) i = Some q" for q
        using processes_inv_active(1) [OF inv(1) that] that
        by (simp add: m' switched(5) nth_append retire_def stop_gate_def)
      have new: "mg_clients m' ! length (mg_clients m) = new_client i (pi_version p)"
        by (simp add: m' switched(5) nth_append split: option.splits)
      have procs: "get (mg_processes m') j = (if j = i then Some (length (mg_clients m)) else get (mg_processes m) j)" for j
        by (simp add: m' switched(4))
      from started(2-4) own old new procs record_activation_rows [OF switched(7) row] show ?thesis
        by (intro exI [of _ p] conjI) auto
    qed simp
  qed
qed

subsection \<open>What goes wrong\<close>

text \<open>
  Disabling or uninstalling a version that is not the active one stops the active one.
  \<open>Disable\<close> stops whatever process the plugin has before it looks at the version: afterwards
  the plugin has no process and no module, while the row of the version that was running is
  untouched, enabled and healthy as before. (\<open>Uninstall\<close> does the same.)
\<close>

theorem disabling_stops_other_version:
  assumes "manager_reachable m" and "Disable en now i version m = (Inr (), m')" and "version \<noteq> ''''"
    and "row \<in> set (db_plugins (mg_db m))" and "pi_id row = i" and "pi_version row \<noteq> version"
  shows "get (mg_processes m') i = None \<and> (\<forall>t. Owner t (mg_registry m') \<noteq> Some i) \<and>
    row \<in> set (db_plugins (mg_db m'))"
proof -
  have wf: "wf_registry (mg_registry m)"
    using reachable_inv [OF assms(1)] by (simp add: manager_inv_def owners_inv_def)
  let ?m = "stopActive i m"
  obtain p db where p: "GetPlugin en i version (mg_db m) = Inr p"
    "UpsertPlugin en (p\<lparr>pi_enabled := False, pi_status := ''disabled'', pi_error := '''', pi_updated_at := now\<rparr>)
       (mg_db m) = Inr db" "m' = ?m\<lparr>mg_db := db\<rparr>"
    using assms(2) by (auto simp: Disable_def Let_def split: sum.splits)
  have "pi_version p = version"
    using p(1) assms(3) by (auto simp: GetPlugin_def dest!: select_first_Inr)
  then have "row \<in> set (db_plugins db)"
    using UpsertPlugin_rows(2) [OF p(2), of row] assms(4,6) by simp
  with p(3) wf show ?thesis by (simp add: Owner_RemoveOwner)
qed

text \<open>
  The supervisor can start a plugin that was just disabled. It copies the table of
  processes and then works through the copy; a plugin that is disabled in between has been
  killed, so its client in the copy has exited, and the round for that entry activates the
  plugin again: if the launch succeeds, its process runs and its row is enabled.
\<close>

theorem supervisor_revives_disabled:
  assumes "manager_reachable m" and "get (mg_processes m) i = Some n"
    and "Disable en now i (pc_version (mg_clients m ! n)) m = (Inr (), m1)"
    and "Enable en ho la i (pc_version (mg_clients m ! n)) True
           (m1\<lparr>mg_registry := RemoveOwner i (mg_registry m1)\<rparr>) = (Inr (), m2)"
  shows "get (mg_processes m1) i = None \<and> supervise_one en ho la i n m1 = m2 \<and> has_key (mg_processes m2) i \<and>
    (\<exists>row \<in> set (db_plugins (mg_db m2)). pi_id row = i \<and> pi_enabled row)"
proof -
  have n: "n < length (mg_clients m)"
    using processes_inv_active(1) reachable_inv [OF assms(1)] assms(2) by (auto simp: manager_inv_def)
  obtain db where m1: "m1 = (stopActive i m)\<lparr>mg_db := db\<rparr>"
    using assms(3) by (auto simp: Disable_def Let_def split: sum.splits)
  have c: "mg_clients m1 ! n = cleanup (stop_gate (mg_clients m ! n))"
    using n assms(2) by (simp add: m1 stopActive_def Let_def edit_client_def)
  then have s: "supervise_one en ho la i n m1 = m2"
    using assms(4) by (simp add: supervise_one_def) (simp add: cleanup_def stop_gate_def)
  let ?m = "m1\<lparr>mg_registry := RemoveOwner i (mg_registry m1)\<rparr>"
  have inv: "manager_inv ?m"
    by (rule manager_inv_remove) (rule Disable_inv [OF reachable_inv [OF assms(1)] assms(3)])
  obtain r1 m3 where st: "start_candidate en ho la i (pc_version (mg_clients m ! n)) True ?m = (r1, m3)"
    by (metis surj_pair)
  from st have "has_key (mg_processes m2) i \<and> (\<exists>row \<in> set (db_plugins (mg_db m2)). pi_id row = i \<and> pi_enabled row)"
  proof (cases rule: start_candidate_cases)
    case (failed e)
    with assms(4) st show ?thesis by (simp add: Enable_def)
  next
    case (started p ms)
    have "switch_over en ho la i (get (mg_processes ?m) i) p (length (mg_clients ?m)) ms m3 = (Inr (), m2)"
      using assms(4) st started by (simp add: Enable_def)
    moreover have "processes_inv (mg_processes ?m) (mg_clients ?m)" using inv by (simp add: manager_inv_def)
    ultimately show ?thesis using started(6-10)
    proof (cases rule: switch_over_effect)
      case (switched db reg m4)
      have "p \<in> set (db_plugins (mg_db m4))" "pi_id p = i"
        using GetPlugin_row [OF started(2)] started(11) MigrateMonitorConfigs_plugins [OF switched(1)] switched(6)
        by simp_all
      note rows = record_activation_rows [OF switched(7) this]
      obtain db' where "m2 = m4\<lparr>mg_db := db'\<rparr>" using record_activation_cases [OF switched(7)] by auto
      with switched(4) have "has_key (mg_processes m2) i" by simp
      moreover have "\<exists>row \<in> set (db_plugins (mg_db m2)). pi_id row = i \<and> pi_enabled row"
        using rows by auto
      ultimately show ?thesis by blast
    qed simp
  qed
  with s show ?thesis by (simp add: m1)
qed

text \<open>
  Two activations of one plugin at the same time can lose a process. If both have started
  their candidates and have read the table before either changes it, and both succeed, the
  candidate of the first one runs on, not killed, with no entry in the table, so no later
  operation can stop it.
\<close>

theorem concurrent_activations_lose_process:
  assumes "manager_reachable m"
    and "start_candidate en ho la1 i v1 allow1 m = (Inr (p1, n1, ms1), m1)"
    and "start_candidate en ho la2 i v2 allow2 m1 = (Inr (p2, n2, ms2), m2)"
    and "switch_over en ho la1 i (get (mg_processes m2) i) p1 n1 ms1 m2 = (Inr (), m3)"
    and "switch_over en ho la2 i (get (mg_processes m2) i) p2 n2 ms2 m3 = (Inr (), m4)"
  shows "n1 < length (mg_clients m4) \<and> \<not> pc_killed (mg_clients m4 ! n1) \<and> pc_accepting (mg_clients m4 ! n1) \<and>
    (\<forall>j. get (mg_processes m4) j \<noteq> Some n1)"
proof -
  have inv: "processes_inv (mg_processes m) (mg_clients m)"
    using reachable_inv [OF assms(1)] by (simp add: manager_inv_def)
  from assms(2) have s1: "n1 = length (mg_clients m)" "mg_clients m1 = mg_clients m @ [new_client i (pi_version p1)]"
    "mg_processes m1 = mg_processes m"
    by (cases rule: start_candidate_cases; simp)+
  from assms(3) have s2: "n2 = length (mg_clients m1)" "mg_clients m2 = mg_clients m1 @ [new_client i (pi_version p2)]"
    "mg_processes m2 = mg_processes m1"
    by (cases rule: start_candidate_cases; simp)+
  have sw: "mg_processes y = put i n (mg_processes x) \<and> length (mg_clients y) = length (mg_clients x) \<and>
      (\<forall>k < length (mg_clients x). mg_clients y ! k =
        (if get (mg_processes m) i = Some k then retire (stop_gate (mg_clients x ! k)) else mg_clients x ! k))"
    if "switch_over en ho la i (get (mg_processes m2) i) p n ms x = (Inr (), y)" for la p n ms x y
    using that
  proof (cases rule: switch_over_cases)
    case (switched db reg)
    obtain db' where y: "y = (edit_previous (get (mg_processes m2) i) retire
        ((edit_previous (get (mg_processes m2) i) stop_gate x)
         \<lparr>mg_db := db, mg_registry := reg, mg_processes := put i n (mg_processes x)\<rparr>))\<lparr>mg_db := db'\<rparr>"
      using record_activation_cases [OF switched(3)] by auto
    show ?thesis by (auto simp: y nth_edit_previous s1(3) s2(3))
  qed simp
  have q: "get (mg_processes m) i \<noteq> Some n1" using processes_inv_active(1) [OF inv] s1(1) by force
  from sw [OF assms(4)] q s1 s2 have c3: "mg_clients m3 ! n1 = new_client i (pi_version p1)"
    "n1 < length (mg_clients m3)" "mg_processes m3 = put i n1 (mg_processes m)" by (simp_all add: nth_append)
  from sw [OF assms(5)] q c3 have c4: "mg_clients m4 ! n1 = new_client i (pi_version p1)"
    "n1 < length (mg_clients m4)" "mg_processes m4 = put i n2 (put i n1 (mg_processes m))" by simp_all
  have "get (mg_processes m4) j \<noteq> Some n1" for j
    using s1 s2 processes_inv_active(1) [OF inv, of j n1] by (auto simp: c4(3))
  with c4 show ?thesis by (simp add: new_client_def)
qed

subsection \<open>An example\<close>

definition example_engine :: engine where
  "example_engine = \<lparr>en_ok = (\<lambda>_. True), en_like = (\<lambda>_ _. False), en_counts_matched = True\<rparr>"

definition example_installation :: "string \<Rightarrow> bool \<Rightarrow> plugin_installation" where
  "example_installation version enabled =
     \<lparr>pi_id = ''org.ping'', pi_name = ''Ping'', pi_version = version, pi_vendor = ''V'', pi_description = ''D'',
      pi_url = ''u'', pi_enabled = enabled, pi_verified = True, pi_official = True, pi_trust_state = ''official'',
      pi_signer_key_id = '''', pi_signer_fingerprint = '''', pi_status = ''installed'', pi_error = '''',
      pi_package_path = ''p'', pi_binary_path = ''/b'', pi_signer_public_key = '''', pi_readme = '''',
      pi_package_name = ''p'', pi_package_sha256 = '''', pi_manifest = VStr ''m'',
      pi_modules = mf_modules example_manifest, pi_created_at = 0, pi_updated_at = 0\<rparr>"

definition example_manager :: plugin_manager where
  "example_manager =
     \<lparr>mg_db = empty_db\<lparr>db_plugins := [example_installation ''1.0.0'' False, example_installation ''1.2.0'' False]\<rparr>,
      mg_registry = NewRegistry, mg_processes = [], mg_clients = [], mg_files = [], mg_root = [''data''],
      mg_log_level = ''info'', mg_log_format = ''simple''\<rparr>"

definition example_host :: host where
  "example_host =
     \<lparr>ho_goos = ''linux'', ho_goarch = ''amd64'', ho_look = (\<lambda>c. Some c), ho_decode = (\<lambda>_. Some example_manifest),
      ho_browser = True, ho_text = (\<lambda>_. ''e''), ho_sha256 = (\<lambda>k. k)\<rparr>"

definition example_descriptor :: module_descriptor where
  "example_descriptor =
     \<lparr>md_type = ''ping'', md_version = ''1'', md_config_version = ''1'', md_result_schema_version = ''1'',
      md_plugin_id = '''', md_plugin_name = '''', md_name = ''Ping'', md_description = '''', md_fields = [],
      md_result_sets = []\<rparr>"

definition example_observation :: observation where
  "example_observation =
     \<lparr>ob_success = True, ob_schema_version = ''1'', ob_result = None, ob_result_sets = [], ob_summary = '''', ob_error_code = '''', ob_error_message = ''''\<rparr>"

definition example_launch :: "(launch_step \<Rightarrow> bool) \<Rightarrow> launch" where
  "example_launch fails =
     \<lparr>la_now = 1, la_log_fails = False, la_fails = fails, la_modules = Some [example_descriptor],
      la_decodes = (\<lambda>_. True), la_validate = (\<lambda>_ _. None),
      la_execute = (\<lambda>_ _. (example_observation, None)), la_migrate = (\<lambda>_ _ _ c. Inr c)\<rparr>"

definition example_running :: plugin_manager where
  "example_running = snd (Enable example_engine example_host (example_launch (\<lambda>_. False)) ''org.ping'' ''1.2.0'' False example_manager)"

lemma example_runs:
  "fst (Enable example_engine example_host (example_launch (\<lambda>_. False)) ''org.ping'' ''1.2.0'' False example_manager) = Inr ()"
  by code_simp

lemma example_manager_reachable: "manager_reachable example_manager"
  by (rule manager_reachable.start) (simp_all add: example_manager_def)

lemma example_running_step:
  "Enable example_engine example_host (example_launch (\<lambda>_. False)) ''org.ping'' ''1.2.0'' False example_manager = (Inr (), example_running)"
  using example_runs by (simp add: example_running_def prod_eq_iff)

lemma example_running_reachable: "manager_reachable example_running"
  by (rule manager_reachable.enable [OF example_manager_reachable example_running_step])

lemma example_running_facts:
  "get (mg_processes example_running) ''org.ping'' = Some 0"
  "pc_version (mg_clients example_running ! 0) = ''1.2.0''"
  "fst (Enable example_engine example_host (example_launch (\<lambda>s. s = Health)) ''org.ping'' ''1.2.0'' False example_running) =
     Inl (LaunchFailed Health)"
  "fst (Disable example_engine 2 ''org.ping'' ''1.0.0'' example_running) = Inr ()"
  "fst (Disable example_engine 2 ''org.ping'' ''1.2.0'' example_running) = Inr ()"
  "fst (Enable example_engine example_host (example_launch (\<lambda>_. False)) ''org.ping'' ''1.2.0'' True
     ((snd (Disable example_engine 2 ''org.ping'' ''1.2.0'' example_running))
        \<lparr>mg_registry := RemoveOwner ''org.ping'' (mg_registry (snd (Disable example_engine 2 ''org.ping'' ''1.2.0'' example_running)))\<rparr>))
     = Inr ()"
  by code_simp+

definition example_healthy :: plugin_installation where
  "example_healthy = (example_installation ''1.2.0'' True)\<lparr>pi_status := ''healthy'', pi_updated_at := 1\<rparr>"

lemma example_healthy_row: "example_healthy \<in> set (db_plugins (mg_db example_running))"
proof -
  have "find (\<lambda>r. pi_version r = ''1.2.0'') (db_plugins (mg_db example_running)) = Some example_healthy" by code_simp
  then show ?thesis by (metis find_Some_iff nth_mem)
qed


lemma failed_activation_keeps_running_witness:
  "mg_processes (snd (Enable example_engine example_host (example_launch (\<lambda>s. s = Health)) ''org.ping'' ''1.2.0'' False example_running)) =
   mg_processes example_running"
proof -
  have "Enable example_engine example_host (example_launch (\<lambda>s. s = Health)) ''org.ping'' ''1.2.0'' False example_running =
      (Inl (LaunchFailed Health),
       snd (Enable example_engine example_host (example_launch (\<lambda>s. s = Health)) ''org.ping'' ''1.2.0'' False example_running))"
    using example_running_facts(3) by (simp add: prod_eq_iff)
  from failed_activation_keeps_running [OF example_running_reachable this] show ?thesis by simp
qed

lemma activation_effect_witness:
  "get (mg_processes example_running) ''org.ping'' = Some 0 \<and> Owner ''ping'' (mg_registry example_running) = Some ''org.ping''"
  using activation_effect [OF example_manager_reachable example_running_step, of "[example_descriptor]"]
  by (auto simp: example_launch_def example_manager_def example_descriptor_def)

lemma disabling_stops_other_version_witness:
  "get (mg_processes (snd (Disable example_engine 2 ''org.ping'' ''1.0.0'' example_running))) ''org.ping'' = None \<and>
   example_healthy \<in> set (db_plugins (mg_db (snd (Disable example_engine 2 ''org.ping'' ''1.0.0'' example_running))))"
proof -
  have "Disable example_engine 2 ''org.ping'' ''1.0.0'' example_running =
      (Inr (), snd (Disable example_engine 2 ''org.ping'' ''1.0.0'' example_running))"
    using example_running_facts(4) by (simp add: prod_eq_iff)
  from disabling_stops_other_version [OF example_running_reachable this _ example_healthy_row] show ?thesis
    by (simp add: example_healthy_def example_installation_def)
qed

lemma supervisor_revives_disabled_witness:
  "\<exists>m1. get (mg_processes m1) ''org.ping'' = None \<and>
     has_key (mg_processes (supervise_one example_engine example_host (example_launch (\<lambda>_. False)) ''org.ping'' 0 m1)) ''org.ping''"
proof -
  define m1 where "m1 = snd (Disable example_engine 2 ''org.ping'' ''1.2.0'' example_running)"
  have d: "Disable example_engine 2 ''org.ping'' (pc_version (mg_clients example_running ! 0)) example_running = (Inr (), m1)"
    using example_running_facts(2,5) by (simp add: m1_def prod_eq_iff)
  obtain m2 where "Enable example_engine example_host (example_launch (\<lambda>_. False)) ''org.ping''
      (pc_version (mg_clients example_running ! 0)) True (m1\<lparr>mg_registry := RemoveOwner ''org.ping'' (mg_registry m1)\<rparr>) = (Inr (), m2)"
    using example_running_facts(2,6) by (metis m1_def prod.collapse)
  from supervisor_revives_disabled [OF example_running_reachable example_running_facts(1) d this] show ?thesis by blast
qed

text \<open>Both activations of the race, from the state in which nothing runs.\<close>

definition example_start :: "plugin_manager \<Rightarrow> (plugin_installation \<times> nat \<times> mon_module list \<times> plugin_manager) option" where
  "example_start m =
     (case start_candidate example_engine example_host (example_launch (\<lambda>_. False)) ''org.ping'' ''1.2.0'' True m of
        (Inl _, _) \<Rightarrow> None | (Inr (p, n, ms), m1) \<Rightarrow> Some (p, n, ms, m1))"

definition example_switch :: "plugin_installation \<Rightarrow> nat \<Rightarrow> mon_module list \<Rightarrow> plugin_manager \<Rightarrow> plugin_manager option" where
  "example_switch p n ms m =
     (case switch_over example_engine example_host (example_launch (\<lambda>_. False)) ''org.ping'' None p n ms m of
        (Inl _, _) \<Rightarrow> None | (Inr _, m1) \<Rightarrow> Some m1)"

definition example_race :: "plugin_manager option" where
  "example_race =
     Option.bind (example_start example_manager) (\<lambda>(p1, n1, ms1, m1).
     Option.bind (example_start m1) (\<lambda>(p2, n2, ms2, m2).
     Option.bind (example_switch p1 n1 ms1 m2) (example_switch p2 n2 ms2)))"

lemma example_race_runs: "example_race \<noteq> None"
proof -
  have "map_option mg_root example_race = Some [''data'']" by code_simp
  then show ?thesis by auto
qed

lemma example_startD:
  "example_start m = Some (p, n, ms, m1) \<Longrightarrow>
   start_candidate example_engine example_host (example_launch (\<lambda>_. False)) ''org.ping'' ''1.2.0'' True m = (Inr (p, n, ms), m1)"
  by (simp add: example_start_def split: prod.splits sum.splits)

lemma example_switchD:
  "example_switch p n ms m = Some m1 \<Longrightarrow>
   switch_over example_engine example_host (example_launch (\<lambda>_. False)) ''org.ping'' None p n ms m = (Inr (), m1)"
  by (simp add: example_switch_def split: prod.splits sum.splits)

lemma concurrent_activations_lose_process_witness:
  "\<exists>n (m :: plugin_manager). \<not> pc_killed (mg_clients m ! n) \<and> (\<forall>j. get (mg_processes m) j \<noteq> Some n)"
proof -
  from example_race_runs obtain p1 n1 ms1 m1 p2 n2 ms2 m2 m3 m4 where s:
    "example_start example_manager = Some (p1, n1, ms1, m1)" "example_start m1 = Some (p2, n2, ms2, m2)"
    "example_switch p1 n1 ms1 m2 = Some m3" "example_switch p2 n2 ms2 m3 = Some m4"
    by (auto simp: example_race_def bind_eq_Some_conv)
  note c = example_startD [OF s(1)] example_startD [OF s(2)]
  have "mg_processes m1 = mg_processes example_manager"
    using c(1) by (cases rule: start_candidate_cases) simp_all
  moreover have "mg_processes m2 = mg_processes m1"
    using c(2) by (cases rule: start_candidate_cases) simp_all
  ultimately have none: "get (mg_processes m2) ''org.ping'' = None" by (simp add: example_manager_def)
  from concurrent_activations_lose_process [OF example_manager_reachable c] example_switchD [OF s(3)]
      example_switchD [OF s(4)] none
  have "\<not> pc_killed (mg_clients m4 ! n1) \<and> (\<forall>j. get (mg_processes m4) j \<noteq> Some n1)" by simp
  then show ?thesis by blast
qed

end
