(* ===== verification/PluginImport.thy ===== *)
theory PluginImport
  imports PluginManager
begin

section \<open>Installing plugins (internal/plugin/manager.go)\<close>

text \<open>
  From a package file to an installed plugin: \<open>Import\<close>, the scan of the inbox, the official
  packages of a distribution, and the plugins built from source while developing. Files are
  those of \<open>mg_files\<close>. \<open>importer\<close> holds what is not in the repository: reading bytes as an
  archive, YAML and JSON, SHA-256 in hexadecimal digits, Ed25519, URLs, and the operating
  system. Identifiers of temporary files and times are arguments.
\<close>

subsection \<open>Data\<close>

datatype import_error =
    NotAPackage
  | StageFailed
  | InspectFailed archive_error
  | ManifestUnreadable
  | ManifestNotYAML
  | ManifestInvalid manifest_error
  | SignatureUnreadable
  | SignatureUndecodable
  | SignatureVersion
  | SignatureKey
  | SignatureWrong
  | ReadmeUnreadable
  | ReadmeTooLarge
  | ArtifactUnreadable
  | ArtifactMismatch
  | DifferentContents string string
  | ImportStore db_error
  | InstallFailed
  | ActivationFailed plugin_error
  | DirectoryUnreadable
  | NoDevelopmentPlugins
  | NoGoModule
  | BuildFailed

record signature_document =
  sd_version :: int
  sd_key_id :: string
  sd_public_key :: string
  sd_signature :: string

record importer =
  im_zip :: "string \<Rightarrow> zip_entry list option"
  im_tar :: "string \<Rightarrow> tar_item list option"
  im_yaml :: "string \<Rightarrow> manifest option"
  im_signature :: "string \<Rightarrow> signature_document option"
  im_verify :: "string \<Rightarrow> string \<Rightarrow> string \<Rightarrow> bool"
  im_sha256 :: "string \<Rightarrow> string"
  im_encode :: "manifest \<Rightarrow> val"
  im_uri :: "string \<Rightarrow> (string \<times> string) option"
  im_os :: "location \<Rightarrow> bool"

record import_options =
  io_enable :: bool
  io_official :: bool
  io_allow_unverified :: bool

record signature_info =
  si_key_id :: string
  si_public_key :: string
  si_fingerprint :: string

definition pluginProtocolVersion :: int where "pluginProtocolVersion = 1"

subsection \<open>Files of a package\<close>

definition isArchive :: "string \<Rightarrow> bool" where
  "isArchive path \<longleftrightarrow> has_suffix (to_lower path) ''.zip'' \<or> has_suffix (to_lower path) ''.tar.gz''"

text \<open>\<open>os.ReadFile\<close>: \<open>Inl True\<close> when the file does not exist, \<open>Inl False\<close> for any other error.\<close>

definition read_file :: "file_tree \<Rightarrow> location \<Rightarrow> bool + string" where
  "read_file fs p =
     (case node_at fs p of None \<Rightarrow> Inl True | Some Directory \<Rightarrow> Inl False | Some (File s) \<Rightarrow> Inr s)"

definition hashFile :: "importer \<Rightarrow> file_tree \<Rightarrow> location \<Rightarrow> (string \<times> int) option" where
  "hashFile im fs p =
     (case node_at fs p of Some (File s) \<Rightarrow> Some (im_sha256 im s, int (length s)) | _ \<Rightarrow> None)"

definition readPackageReadme :: "file_tree \<Rightarrow> location \<Rightarrow> import_error + string" where
  "readPackageReadme fs dir =
     (case read_file fs (dir @ [''README.md'']) of
        Inl True \<Rightarrow> Inr ''''
      | Inl False \<Rightarrow> Inl ReadmeUnreadable
      | Inr s \<Rightarrow> if length s > 1048576 then Inl ReadmeTooLarge else Inr s)"

text \<open>The signed documents that are there; \<open>None\<close> when one cannot be read.\<close>

fun read_documents :: "file_tree \<Rightarrow> location \<Rightarrow> string list \<Rightarrow> string go_map option" where
  "read_documents fs dir [] = Some []"
| "read_documents fs dir (n # ns) =
     (case read_file fs (dir @ [n]) of
        Inl True \<Rightarrow> read_documents fs dir ns
      | Inl False \<Rightarrow> None
      | Inr s \<Rightarrow> map_option (put n s) (read_documents fs dir ns))"

text \<open>\<open>None\<close> is a package without a signature.\<close>

definition check_signature ::
    "importer \<Rightarrow> host \<Rightarrow> string \<Rightarrow> string go_map \<Rightarrow> signature_document \<Rightarrow> import_error + signature_info option" where
  "check_signature im ho mf documents d =
     (if sd_version d \<noteq> 1 \<or> trim_space (sd_key_id d) = '''' then Inl SignatureVersion
      else case b64_decode_std (sd_public_key d) of
        None \<Rightarrow> Inl SignatureKey
      | Some key \<Rightarrow>
          if length key \<noteq> public_key_size then Inl SignatureKey
          else (case b64_decode_std (sd_signature d) of
            None \<Rightarrow> Inl SignatureWrong
          | Some s \<Rightarrow>
              if length s \<noteq> 64 \<or> \<not> im_verify im key (SignaturePayload mf documents) s then Inl SignatureWrong
              else Inr (Some \<lparr>si_key_id = sd_key_id d, si_public_key = b64_encode_std key,
                si_fingerprint = publicKeyFingerprint ho key\<rparr>)))"

definition inspectSignature ::
    "importer \<Rightarrow> host \<Rightarrow> file_tree \<Rightarrow> location \<Rightarrow> string \<Rightarrow> import_error + signature_info option" where
  "inspectSignature im ho fs stage mf =
     (case read_documents fs stage signedDocumentNames of
        None \<Rightarrow> Inl SignatureUnreadable
      | Some documents \<Rightarrow>
          (case read_file fs (stage @ [''meerkit-plugin.sig'']) of
             Inl True \<Rightarrow> Inr None
           | Inl False \<Rightarrow> Inl SignatureUnreadable
           | Inr s \<Rightarrow>
               (case im_signature im s of
                  None \<Rightarrow> Inl SignatureUndecodable
                | Some d \<Rightarrow> check_signature im ho mf documents d)))"

text \<open>
  \<open>atomicCopy\<close>: the content is written to a temporary file in the same directory, which is
  then renamed; if that fails the destination is as before.
\<close>

definition atomicCopy :: "importer \<Rightarrow> string \<Rightarrow> location \<Rightarrow> file_tree \<Rightarrow> file_tree option" where
  "atomicCopy im content dest fs =
     (if im_os im dest \<and> node_at fs (butlast dest) = Some Directory \<and> node_at fs dest \<noteq> Some Directory
      then Some ((dest, File content) # filter (\<lambda>(q, n). q \<noteq> dest) fs) else None)"

text \<open>\<open>filepath.Base\<close> and \<open>filepath.Join\<close> of locations.\<close>

definition base_name :: "location \<Rightarrow> string" where
  "base_name p = (if p = [] then ''/'' else last p)"

definition path_of :: "location \<Rightarrow> string" where
  "path_of p = ''/'' @ join_with ''/'' p"

subsection \<open>Import\<close>

text \<open>What is known of a package after its inspection.\<close>

record inspected =
  in_manifest :: manifest
  in_signature :: "signature_info option"
  in_readme :: string
  in_binary :: string
  in_package_hash :: string
  in_package :: string

definition inspect_package ::
    "importer \<Rightarrow> host \<Rightarrow> location \<Rightarrow> string \<Rightarrow> file_tree \<Rightarrow> import_error + inspected" where
  "inspect_package im ho stage package fs =
     (case read_file fs (stage @ [''meerkit-plugin.yaml'']) of
        Inl _ \<Rightarrow> Inl ManifestUnreadable
      | Inr mf \<Rightarrow>
          (case im_yaml im mf of
             None \<Rightarrow> Inl ManifestNotYAML
           | Some m \<Rightarrow>
               (case validate_manifest (im_uri im) pluginProtocolVersion m of
                  Inl e \<Rightarrow> Inl (ManifestInvalid e)
                | Inr _ \<Rightarrow>
                    ok_then (inspectSignature im ho fs stage mf) (\<lambda>signature.
                    ok_then (readPackageReadme fs stage) (\<lambda>readme.
                    case CurrentArtifact (ho_goos ho) (ho_goarch ho) m of
                      Inl e \<Rightarrow> Inl (ManifestInvalid e)
                    | Inr a \<Rightarrow>
                        (case node_at fs (locate stage (af_path a)) of
                           Some (File binary) \<Rightarrow>
                             if int (length binary) \<noteq> af_size a \<or>
                                to_lower (im_sha256 im binary) \<noteq> to_lower (af_sha256 a)
                             then Inl ArtifactMismatch
                             else Inr \<lparr>in_manifest = m, in_signature = signature, in_readme = readme,
                               in_binary = binary, in_package_hash = im_sha256 im package, in_package = package\<rparr>
                         | _ \<Rightarrow> Inl ArtifactUnreadable))))))"

text \<open>The trust of a new installation: whether it is verified, its state, and the store.\<close>

definition trust_decision ::
    "engine \<Rightarrow> time \<Rightarrow> bool \<Rightarrow> string \<Rightarrow> signature_info option \<Rightarrow> db \<Rightarrow> (import_error + bool \<times> string) \<times> db" where
  "trust_decision en now official vendor signature db =
     (case signature of
        None \<Rightarrow> (Inr (official, if official then ''official'' else ''unsigned''), db)
      | Some s \<Rightarrow>
          (case GetTrustedPluginSigner en (si_fingerprint s) db of
             Inr _ \<Rightarrow> (Inr (True, if official then ''official'' else ''trusted''), db)
           | Inl NoRows \<Rightarrow>
               if official then
                 (case TrustPluginSigner en now \<lparr>sg_fingerprint = si_fingerprint s, sg_key_id = si_key_id s,
                     sg_public_key = si_public_key s, sg_vendor = vendor, sg_source = ''official'',
                     sg_created_at = zero_time, sg_updated_at = zero_time\<rparr> db of
                    Inl e \<Rightarrow> (Inl (ImportStore e), db)
                  | Inr db' \<Rightarrow> (Inr (True, ''official''), db'))
               else (Inr (False, ''untrusted''), db)
           | Inl e \<Rightarrow> (Inl (ImportStore e), db)))"

definition binary_name :: "host \<Rightarrow> string" where
  "binary_name ho = (if ho_goos ho = ''windows'' then ''plugin.exe'' else ''plugin'')"

definition package_dir :: "plugin_manager \<Rightarrow> manifest \<Rightarrow> location" where
  "package_dir m mf = mg_root m @ [''packages'', mf_id mf, mf_version mf]"

definition install_dir :: "host \<Rightarrow> plugin_manager \<Rightarrow> manifest \<Rightarrow> location" where
  "install_dir ho m mf = mg_root m @ [''installed'', mf_id mf, mf_version mf, ho_goos ho @ ''-'' @ ho_goarch ho]"

text \<open>The two directories and the two files; on an error what was created before stays.\<close>

definition install_files ::
    "importer \<Rightarrow> host \<Rightarrow> plugin_manager \<Rightarrow> string \<Rightarrow> inspected \<Rightarrow> bool \<times> file_tree" where
  "install_files im ho m name x =
     (let pd = package_dir m (in_manifest x); idir = install_dir ho m (in_manifest x) in
      case make_dirs (im_os im) [] pd (mg_files m) of
        (Inl _, fs1) \<Rightarrow> (False, fs1)
      | (Inr _, fs1) \<Rightarrow>
          (case make_dirs (im_os im) [] idir fs1 of
             (Inl _, fs2) \<Rightarrow> (False, fs2)
           | (Inr _, fs2) \<Rightarrow>
               (case atomicCopy im (in_package x) (pd @ [name]) fs2 of
                  None \<Rightarrow> (False, fs2)
                | Some fs3 \<Rightarrow>
                    (case atomicCopy im (in_binary x) (idir @ [binary_name ho]) fs3 of
                       None \<Rightarrow> (False, fs3)
                     | Some fs4 \<Rightarrow> (True, fs4)))))"

definition new_installation ::
    "importer \<Rightarrow> host \<Rightarrow> time \<Rightarrow> bool \<Rightarrow> plugin_manager \<Rightarrow> string \<Rightarrow> inspected \<Rightarrow> bool \<times> string \<Rightarrow> plugin_installation" where
  "new_installation im ho now official m name x trust =
     (let mf = in_manifest x; s = in_signature x in
      \<lparr>pi_id = mf_id mf, pi_name = mf_name mf, pi_version = mf_version mf, pi_vendor = mf_vendor mf,
       pi_description = mf_description mf, pi_url = mf_url mf, pi_enabled = False, pi_verified = fst trust,
       pi_official = official, pi_trust_state = snd trust,
       pi_signer_key_id = (case s of Some i \<Rightarrow> si_key_id i | None \<Rightarrow> ''''),
       pi_signer_fingerprint = (case s of Some i \<Rightarrow> si_fingerprint i | None \<Rightarrow> ''''),
       pi_status = ''installed'', pi_error = '''',
       pi_package_path = path_of (package_dir m mf @ [name]),
       pi_binary_path = path_of (install_dir ho m mf @ [binary_name ho]),
       pi_signer_public_key = (case s of Some i \<Rightarrow> si_public_key i | None \<Rightarrow> ''''),
       pi_readme = in_readme x, pi_package_name = name, pi_package_sha256 = in_package_hash x,
       pi_manifest = im_encode im mf, pi_modules = mf_modules mf, pi_created_at = now, pi_updated_at = now\<rparr>)"

text \<open>The activation that a successful import may end with.\<close>

definition import_enable ::
    "engine \<Rightarrow> host \<Rightarrow> launch \<Rightarrow> import_options \<Rightarrow> string \<Rightarrow> string \<Rightarrow> plugin_manager \<Rightarrow>
     (import_error + plugin_installation) \<times> plugin_manager" where
  "import_enable en ho la opts i version m =
     (case Enable en ho la i version (io_allow_unverified opts \<or> io_official opts) m of
        (Inl e, m1) \<Rightarrow> (Inl (ActivationFailed e), m1)
      | (Inr _, m1) \<Rightarrow>
          ((case GetPlugin en i version (mg_db m1) of Inl e \<Rightarrow> Inl (ImportStore e) | Inr p \<Rightarrow> Inr p), m1))"

definition install_new ::
    "engine \<Rightarrow> host \<Rightarrow> importer \<Rightarrow> launch \<Rightarrow> time \<Rightarrow> import_options \<Rightarrow> string \<Rightarrow> inspected \<Rightarrow> plugin_manager \<Rightarrow>
     (import_error + plugin_installation) \<times> plugin_manager" where
  "install_new en ho im la now opts name x m =
     (case trust_decision en now (io_official opts) (mf_vendor (in_manifest x)) (in_signature x) (mg_db m) of
        (Inl e, db) \<Rightarrow> (Inl e, m\<lparr>mg_db := db\<rparr>)
      | (Inr trust, db) \<Rightarrow>
          (case install_files im ho m name x of
             (False, fs) \<Rightarrow> (Inl InstallFailed, m\<lparr>mg_db := db, mg_files := fs\<rparr>)
           | (True, fs) \<Rightarrow>
               let m1 = m\<lparr>mg_db := db, mg_files := fs\<rparr>;
                   p = new_installation im ho now (io_official opts) m name x trust in
               (case UpsertPlugin en p db of
                  Inl e \<Rightarrow> (Inl (ImportStore e), m1)
                | Inr db' \<Rightarrow>
                    let m2 = m1\<lparr>mg_db := db'\<rparr> in
                    if io_enable opts then import_enable en ho la opts (pi_id p) (pi_version p) m2
                    else (Inr p, m2))))"

text \<open>The part of \<open>Import\<close> after the extraction.\<close>

definition import_staged ::
    "engine \<Rightarrow> host \<Rightarrow> importer \<Rightarrow> launch \<Rightarrow> time \<Rightarrow> import_options \<Rightarrow> location \<Rightarrow> string \<Rightarrow> string \<Rightarrow> plugin_manager \<Rightarrow>
     (import_error + plugin_installation) \<times> plugin_manager" where
  "import_staged en ho im la now opts stage name package m =
     (case inspect_package im ho stage package (mg_files m) of
        Inl e \<Rightarrow> (Inl e, m)
      | Inr x \<Rightarrow>
          (case GetPlugin en (mf_id (in_manifest x)) (mf_version (in_manifest x)) (mg_db m) of
             Inr existing \<Rightarrow>
               if pi_package_sha256 existing \<noteq> in_package_hash x
               then (Inl (DifferentContents (pi_id existing) (pi_version existing)), m)
               else if io_enable opts \<and> \<not> pi_enabled existing
               then import_enable en ho la opts (pi_id existing) (pi_version existing) m
               else (Inr existing, m)
           | Inl NoRows \<Rightarrow> install_new en ho im la now opts name x m
           | Inl e \<Rightarrow> (Inl (ImportStore e), m)))"

definition Import ::
    "engine \<Rightarrow> host \<Rightarrow> importer \<Rightarrow> launch \<Rightarrow> time \<Rightarrow> string \<Rightarrow> location \<Rightarrow> import_options \<Rightarrow> plugin_manager \<Rightarrow>
     (import_error + plugin_installation) \<times> plugin_manager" where
  "Import en ho im la now stage_id path opts m =
     (let stage = mg_root m @ [''staging'', stage_id] in
      if \<not> isArchive (path_of path) then (Inl NotAPackage, m)
      else case make_dirs (im_os im) [] stage (mg_files m) of
        (Inl _, fs) \<Rightarrow> (Inl StageFailed, m\<lparr>mg_files := fs\<rparr>)
      | (Inr _, fs) \<Rightarrow>
          (case (case node_at fs path of
               Some (File package) \<Rightarrow>
                 (case extractArchive (im_os im)
                     \<lparr>ar_path = path_of path, ar_zip = im_zip im package, ar_tar = im_tar im package\<rparr> stage fs of
                    (Inl e, fs1) \<Rightarrow> (Inl (InspectFailed e), m\<lparr>mg_files := fs1\<rparr>)
                  | (Inr _, fs1) \<Rightarrow>
                      import_staged en ho im la now opts stage (base_name path) package (m\<lparr>mg_files := fs1\<rparr>))
             | _ \<Rightarrow> (Inl (InspectFailed ArchiveUnreadable), m\<lparr>mg_files := fs\<rparr>)) of
             (r, m1) \<Rightarrow> (r, m1\<lparr>mg_files := remove_all stage (mg_files m1)\<rparr>)))"

subsection \<open>Rejecting and scanning\<close>

text \<open>\<open>os.ReadDir\<close>: the names in a directory, sorted, and whether each is a directory.\<close>

definition read_dir :: "file_tree \<Rightarrow> location \<Rightarrow> (string \<times> bool) list option" where
  "read_dir fs dir =
     (if node_at fs dir = Some Directory
      then Some (map (\<lambda>n. (n, node_at fs (dir @ [n]) = Some Directory))
        (sort (remdups (map (last \<circ> fst) (filter (\<lambda>(p, n). p \<noteq> [] \<and> butlast p = dir) fs)))))
      else None)"

text \<open>\<open>os.Rename\<close> and \<open>os.WriteFile\<close> of \<open>reject\<close>; \<open>stamp\<close> is the time as its name has it.\<close>

definition write_file :: "importer \<Rightarrow> string \<Rightarrow> location \<Rightarrow> file_tree \<Rightarrow> file_tree" where
  "write_file im content p fs =
     (if im_os im p \<and> node_at fs (butlast p) = Some Directory \<and> node_at fs p \<noteq> Some Directory
      then (p, File content) # filter (\<lambda>(q, n). q \<noteq> p) fs else fs)"

definition reject :: "importer \<Rightarrow> string \<Rightarrow> string \<Rightarrow> location \<Rightarrow> plugin_manager \<Rightarrow> plugin_manager" where
  "reject im stamp cause source m =
     (case node_at (mg_files m) source of
        Some (File content) \<Rightarrow>
          let dest = mg_root m @ [''rejected'', stamp @ ''-'' @ base_name source] in
          (case atomicCopy im content dest (filter (\<lambda>(q, n). q \<noteq> source) (mg_files m)) of
             None \<Rightarrow> m
           | Some fs \<Rightarrow> m\<lparr>mg_files := write_file im (cause @ [byte 10])
               (butlast dest @ [last dest @ ''.error.txt'']) fs\<rparr>)
      | _ \<Rightarrow> m)"

definition remove_file :: "location \<Rightarrow> plugin_manager \<Rightarrow> plugin_manager" where
  "remove_file p m = m\<lparr>mg_files := filter (\<lambda>(q, n). \<not> (q = p \<and> n \<noteq> Directory)) (mg_files m)\<rparr>"

text \<open>
  \<open>Scan\<close>: \<open>stamps\<close> gives, per name, the ID of the stage and the time stamp of a rejection;
  \<open>text\<close> is the text of an error.
\<close>

definition default_options :: import_options where
  "default_options = \<lparr>io_enable = False, io_official = False, io_allow_unverified = False\<rparr>"

definition inbox :: "plugin_manager \<Rightarrow> location" where
  "inbox m = mg_root m @ [''inbox'']"

fun scan_each ::
    "engine \<Rightarrow> host \<Rightarrow> importer \<Rightarrow> launch \<Rightarrow> time \<Rightarrow> (string \<Rightarrow> string \<times> string) \<Rightarrow> (import_error \<Rightarrow> string) \<Rightarrow>
     string list \<Rightarrow> plugin_manager \<Rightarrow> plugin_installation list \<times> plugin_manager" where
  "scan_each en ho im la now stamps txt [] m = ([], m)"
| "scan_each en ho im la now stamps txt (n # ns) m =
     (case Import en ho im la now (fst (stamps n)) (inbox m @ [n]) default_options m of
        (Inl e, m1) \<Rightarrow> scan_each en ho im la now stamps txt ns (reject im (snd (stamps n)) (txt e) (inbox m @ [n]) m1)
      | (Inr p, m1) \<Rightarrow>
          (case scan_each en ho im la now stamps txt ns (remove_file (inbox m @ [n]) m1) of (ps, m2) \<Rightarrow> (p # ps, m2)))"

definition archives_in :: "(string \<times> bool) list \<Rightarrow> string list" where
  "archives_in entries = map fst (filter (\<lambda>(n, dir). \<not> dir \<and> isArchive n) entries)"

definition Scan ::
    "engine \<Rightarrow> host \<Rightarrow> importer \<Rightarrow> launch \<Rightarrow> time \<Rightarrow> (string \<Rightarrow> string \<times> string) \<Rightarrow> (import_error \<Rightarrow> string) \<Rightarrow>
     plugin_manager \<Rightarrow> (import_error + plugin_installation list) \<times> plugin_manager" where
  "Scan en ho im la now stamps txt m =
     (case read_dir (mg_files m) (inbox m) of
        None \<Rightarrow> (Inl DirectoryUnreadable, m)
      | Some entries \<Rightarrow>
          (case scan_each en ho im la now stamps txt (archives_in entries) m of (ps, m1) \<Rightarrow> (Inr ps, m1)))"

text \<open>
  \<open>importWhenStable\<close>: the sizes that \<open>os.Stat\<close> gives at its four looks (\<open>None\<close> is an error, which
  ends it); it imports at the first look that finds the size of the look before.
\<close>

fun stable_at :: "int \<Rightarrow> int option list \<Rightarrow> bool" where
  "stable_at previous [] = False"
| "stable_at previous (None # rest) = False"
| "stable_at previous (Some sz # rest) = (sz = previous \<or> stable_at sz rest)"

definition importWhenStable ::
    "engine \<Rightarrow> host \<Rightarrow> importer \<Rightarrow> launch \<Rightarrow> time \<Rightarrow> string \<times> string \<Rightarrow> (import_error \<Rightarrow> string) \<Rightarrow>
     int option list \<Rightarrow> location \<Rightarrow> plugin_manager \<Rightarrow> plugin_manager" where
  "importWhenStable en ho im la now stamp txt sizes path m =
     (if stable_at (- 1) (take 4 sizes)
      then (case Import en ho im la now (fst stamp) path default_options m of
          (Inl e, m1) \<Rightarrow> reject im (snd stamp) (txt e) path m1
        | (Inr p, m1) \<Rightarrow> remove_file path m1)
      else m)"

subsection \<open>Official and development plugins\<close>

definition official_options :: import_options where
  "official_options = \<lparr>io_enable = False, io_official = True, io_allow_unverified = True\<rparr>"

fun seed_each ::
    "engine \<Rightarrow> host \<Rightarrow> importer \<Rightarrow> launch \<Rightarrow> time \<Rightarrow> (string \<Rightarrow> string) \<Rightarrow> (string \<times> string) set \<Rightarrow> location \<Rightarrow>
     string list \<Rightarrow> plugin_manager \<Rightarrow> (import_error + unit) \<times> plugin_manager" where
  "seed_each en ho im la now ids known dir [] m = (Inr (), m)"
| "seed_each en ho im la now ids known dir (n # ns) m =
     (case Import en ho im la now (ids n) (dir @ [n]) official_options m of
        (Inl e, m1) \<Rightarrow> (Inl e, m1)
      | (Inr p, m1) \<Rightarrow>
          if plugin_key p \<in> known then seed_each en ho im la now ids known dir ns m1
          else (case Enable en ho la (pi_id p) (pi_version p) True m1 of
            (Inl e, m2) \<Rightarrow> (Inl (ActivationFailed e), m2)
          | (Inr _, m2) \<Rightarrow> seed_each en ho im la now ids known dir ns m2))"

text \<open>A directory that does not exist has no official plugins.\<close>

definition SeedOfficial ::
    "engine \<Rightarrow> host \<Rightarrow> importer \<Rightarrow> launch \<Rightarrow> time \<Rightarrow> (string \<Rightarrow> string) \<Rightarrow> location \<Rightarrow> plugin_manager \<Rightarrow>
     (import_error + unit) \<times> plugin_manager" where
  "SeedOfficial en ho im la now ids dir m =
     (if node_at (mg_files m) dir = None then (Inr (), m)
      else case read_dir (mg_files m) dir of
        None \<Rightarrow> (Inl DirectoryUnreadable, m)
      | Some entries \<Rightarrow>
          (case ListPlugins en (mg_db m) of
             Inl e \<Rightarrow> (Inl (ImportStore e), m)
           | Inr ps \<Rightarrow> seed_each en ho im la now ids (plugin_key ` set ps) dir (archives_in entries) m))"

definition ClearDevelopment :: "engine \<Rightarrow> plugin_manager \<Rightarrow> (import_error + unit) \<times> plugin_manager" where
  "ClearDevelopment en m =
     (case DeleteDevelopmentPlugins en (mg_db m) of
        Inl e \<Rightarrow> (Inl (ImportStore e), m)
      | Inr db \<Rightarrow> (Inr (), m\<lparr>mg_db := db, mg_files := remove_all (mg_root m @ [''development'']) (mg_files m)\<rparr>))"

text \<open>
  One directory of \<open>SyncDevelopment\<close>: \<open>build\<close> is the builder, which gives the binary. \<open>None\<close> is
  a directory that is passed over.
\<close>

definition development_dir :: "host \<Rightarrow> plugin_manager \<Rightarrow> manifest \<Rightarrow> location" where
  "development_dir ho m mf =
     mg_root m @ [''development'', mf_id mf, mf_version mf, ho_goos ho @ ''-'' @ ho_goarch ho]"

definition txt_local_source :: string where
  "txt_local_source = utf8 [230, 156, 172, 229, 156, 176, 230, 186, 144, 231, 160, 129]"

definition development_installation ::
    "importer \<Rightarrow> host \<Rightarrow> time \<Rightarrow> plugin_manager \<Rightarrow> manifest \<Rightarrow> string \<Rightarrow> string \<Rightarrow> plugin_installation option \<Rightarrow>
     plugin_installation" where
  "development_installation im ho now m mf binary readme existing =
     (let enabled = (case existing of None \<Rightarrow> True | Some e \<Rightarrow> pi_enabled e \<or> pi_status e \<noteq> ''disabled'') in
      \<lparr>pi_id = mf_id mf, pi_name = mf_name mf, pi_version = mf_version mf, pi_vendor = mf_vendor mf,
       pi_description = mf_description mf, pi_url = mf_url mf, pi_enabled = enabled, pi_verified = True,
       pi_official = True, pi_trust_state = ''development'', pi_signer_key_id = '''', pi_signer_fingerprint = '''',
       pi_status = (if enabled then ''installed'' else ''disabled''), pi_error = '''', pi_package_path = '''',
       pi_binary_path = path_of (development_dir ho m mf @ [binary_name ho]), pi_signer_public_key = '''',
       pi_readme = readme, pi_package_name = txt_local_source, pi_package_sha256 = im_sha256 im binary,
       pi_manifest = im_encode im mf, pi_modules = mf_modules mf,
       pi_created_at = (case existing of None \<Rightarrow> now | Some e \<Rightarrow> pi_created_at e), pi_updated_at = now\<rparr>)"

definition record_development ::
    "engine \<Rightarrow> time \<Rightarrow> plugin_installation \<Rightarrow> db \<Rightarrow> (import_error + unit) \<times> db" where
  "record_development en now p db =
     (case UpsertPlugin en p db of
        Inl e \<Rightarrow> (Inl (ImportStore e), db)
      | Inr db1 \<Rightarrow>
          if \<not> pi_enabled p then (Inr (), db1)
          else (case DisableOtherPluginVersions en now (pi_id p) (pi_version p) db1 of
            Inl e \<Rightarrow> (Inl (ImportStore e), db1)
          | Inr db2 \<Rightarrow> (Inr (), db2)))"

definition sync_one ::
    "engine \<Rightarrow> host \<Rightarrow> importer \<Rightarrow> (location \<Rightarrow> string option) \<Rightarrow> time \<Rightarrow> location \<Rightarrow> plugin_manager \<Rightarrow>
     (import_error + plugin_installation option) \<times> plugin_manager" where
  "sync_one en ho im build now src m =
     (case read_file (mg_files m) (src @ [''meerkit-plugin.yaml'']) of
        Inl True \<Rightarrow> (Inr None, m)
      | Inl False \<Rightarrow> (Inl ManifestUnreadable, m)
      | Inr s \<Rightarrow>
          (case im_yaml im s of
             None \<Rightarrow> (Inl ManifestNotYAML, m)
           | Some mf \<Rightarrow>
               (case validate_manifest (im_uri im) pluginProtocolVersion mf of
                  Inl e \<Rightarrow> (Inl (ManifestInvalid e), m)
                | Inr _ \<Rightarrow>
                    if node_at (mg_files m) (src @ [''go.mod'']) = None then (Inl NoGoModule, m)
                    else case make_dirs (im_os im) [] (development_dir ho m mf) (mg_files m) of
                      (Inl _, fs) \<Rightarrow> (Inl InstallFailed, m\<lparr>mg_files := fs\<rparr>)
                    | (Inr _, fs) \<Rightarrow>
                        if node_at fs (mg_root m @ [''staging'']) \<noteq> Some Directory
                        then (Inl StageFailed, m\<lparr>mg_files := fs\<rparr>)
                        else (case build src of
                           None \<Rightarrow> (Inl BuildFailed, m\<lparr>mg_files := fs\<rparr>)
                         | Some binary \<Rightarrow>
                             (case atomicCopy im binary (development_dir ho m mf @ [binary_name ho]) fs of
                                None \<Rightarrow> (Inl InstallFailed, m\<lparr>mg_files := fs\<rparr>)
                              | Some fs1 \<Rightarrow>
                                  let m1 = m\<lparr>mg_files := fs1\<rparr> in
                                  (case readPackageReadme fs1 src of
                                     Inl e \<Rightarrow> (Inl e, m1)
                                   | Inr readme \<Rightarrow>
                                       (case (case GetPlugin en (mf_id mf) (mf_version mf) (mg_db m) of
                                            Inr e \<Rightarrow> Inr (Some e) | Inl NoRows \<Rightarrow> Inr None | Inl e \<Rightarrow> Inl (ImportStore e)) of
                                          Inl e \<Rightarrow> (Inl e, m1)
                                        | Inr existing \<Rightarrow>
                                            let p = development_installation im ho now m mf binary readme existing in
                                            (case record_development en now p (mg_db m) of
                                               (Inl e, db) \<Rightarrow> (Inl e, m1\<lparr>mg_db := db\<rparr>)
                                             | (Inr _, db) \<Rightarrow> (Inr (Some p), m1\<lparr>mg_db := db\<rparr>)))))))))"

fun sync_each ::
    "engine \<Rightarrow> host \<Rightarrow> importer \<Rightarrow> (location \<Rightarrow> string option) \<Rightarrow> time \<Rightarrow> location \<Rightarrow> string list \<Rightarrow> plugin_manager \<Rightarrow>
     (import_error + plugin_installation list) \<times> plugin_manager" where
  "sync_each en ho im build now dir [] m = (Inr [], m)"
| "sync_each en ho im build now dir (n # ns) m =
     (case sync_one en ho im build now (dir @ [n]) m of
        (Inl e, m1) \<Rightarrow> (Inl e, m1)
      | (Inr r, m1) \<Rightarrow>
          (case sync_each en ho im build now dir ns m1 of
             (Inl e, m2) \<Rightarrow> (Inl e, m2)
           | (Inr ps, m2) \<Rightarrow> (Inr ((case r of None \<Rightarrow> [] | Some p \<Rightarrow> [p]) @ ps), m2)))"

text \<open>The removal of the development plugins that are no longer there.\<close>

fun drop_stale ::
    "engine \<Rightarrow> (string \<times> string) set \<Rightarrow> plugin_installation list \<Rightarrow> plugin_manager \<Rightarrow>
     (import_error + unit) \<times> plugin_manager" where
  "drop_stale en active [] m = (Inr (), m)"
| "drop_stale en active (p # ps) m =
     (if pi_trust_state p \<noteq> ''development'' \<or> plugin_key p \<in> active then drop_stale en active ps m
      else case DeletePlugin en (pi_id p) (pi_version p) (mg_db m) of
        Inl e \<Rightarrow> (Inl (ImportStore e), m)
      | Inr db \<Rightarrow> drop_stale en active ps (m\<lparr>mg_db := db,
          mg_files := remove_all (mg_root m @ [''development'', pi_id p, pi_version p]) (mg_files m)\<rparr>))"

definition source_dirs :: "(string \<times> bool) list \<Rightarrow> string list" where
  "source_dirs entries = map fst (filter (\<lambda>(n, dir). dir \<and> n \<noteq> ''template'' \<and> \<not> has_prefix n ''.'') entries)"

definition SyncDevelopment ::
    "engine \<Rightarrow> host \<Rightarrow> importer \<Rightarrow> (location \<Rightarrow> string option) \<Rightarrow> time \<Rightarrow> location \<Rightarrow> plugin_manager \<Rightarrow>
     (import_error + plugin_installation list) \<times> plugin_manager" where
  "SyncDevelopment en ho im build now dir m =
     (if node_at (mg_files m) dir = None then (Inl NoDevelopmentPlugins, m)
      else case read_dir (mg_files m) dir of
        None \<Rightarrow> (Inl DirectoryUnreadable, m)
      | Some entries \<Rightarrow>
          (case sync_each en ho im build now dir (source_dirs entries) m of
             (Inl e, m1) \<Rightarrow> (Inl e, m1)
           | (Inr ps, m1) \<Rightarrow>
               if ps = [] then (Inl NoDevelopmentPlugins, m1)
               else (case ListPlugins en (mg_db m1) of
                 Inl e \<Rightarrow> (Inl (ImportStore e), m1)
               | Inr installed \<Rightarrow>
                   (case drop_stale en (plugin_key ` set ps) installed m1 of
                      (Inl e, m2) \<Rightarrow> (Inl e, m2)
                    | (Inr _, m2) \<Rightarrow> (Inr ps, m2)))))"

subsection \<open>Opening a manager, details and logs\<close>

definition manager_dirs :: "string list" where
  "manager_dirs = [''inbox'', ''staging'', ''packages'', ''installed'', ''development'', ''rejected'', ''logs'']"

fun make_each_dir :: "(location \<Rightarrow> bool) \<Rightarrow> location \<Rightarrow> string list \<Rightarrow> file_tree \<Rightarrow> bool \<times> file_tree" where
  "make_each_dir os base [] fs = (True, fs)"
| "make_each_dir os base (n # ns) fs =
     (case make_dirs os [] (base @ [n]) fs of
        (Inl _, fs1) \<Rightarrow> (False, fs1)
      | (Inr _, fs1) \<Rightarrow> make_each_dir os base ns fs1)"

text \<open>The trusted keys of the configuration; a Go map, so the order of the list is any order.\<close>

fun trust_each :: "engine \<Rightarrow> host \<Rightarrow> time \<Rightarrow> (string \<times> string) list \<Rightarrow> db \<Rightarrow> (import_error + unit) \<times> db" where
  "trust_each en ho now [] db = (Inr (), db)"
| "trust_each en ho now ((key_id, key) # ks) db =
     (case TrustPluginSigner en now \<lparr>sg_fingerprint = publicKeyFingerprint ho key, sg_key_id = key_id,
         sg_public_key = b64_encode_std key, sg_vendor = '''', sg_source = ''config'',
         sg_created_at = zero_time, sg_updated_at = zero_time\<rparr> db of
        Inl e \<Rightarrow> (Inl (ImportStore e), db)
      | Inr db' \<Rightarrow> trust_each en ho now ks db')"

text \<open>On an error there is no manager; what was written before stays.\<close>

definition NewManager ::
    "engine \<Rightarrow> host \<Rightarrow> importer \<Rightarrow> time \<Rightarrow> location \<Rightarrow> (string \<times> string) list \<Rightarrow> string \<Rightarrow> string \<Rightarrow> registry \<Rightarrow> db \<Rightarrow>
     file_tree \<Rightarrow> (import_error + plugin_manager) \<times> db \<times> file_tree" where
  "NewManager en ho im now dataDir keys level format reg db fs =
     (let base = dataDir @ [''plugins''];
          text_or = (\<lambda>s d. if trim_space s = '''' then d else trim_space s) in
      case make_each_dir (im_os im) base manager_dirs fs of
        (False, fs1) \<Rightarrow> (Inl DirectoryUnreadable, db, fs1)
      | (True, fs1) \<Rightarrow>
          (case trust_each en ho now keys db of
             (Inl e, db1) \<Rightarrow> (Inl e, db1, fs1)
           | (Inr _, db1) \<Rightarrow>
               (Inr \<lparr>mg_db = db1, mg_registry = reg, mg_processes = [], mg_clients = [], mg_files = fs1, mg_root = base,
                  mg_log_level = text_or level ''info'', mg_log_format = text_or format ''simple''\<rparr>, db1, fs1)))"

text \<open>The descriptors of \<open>Details\<close>: a module without a snapshot is passed over.\<close>

fun module_details :: "engine \<Rightarrow> plugin_module list \<Rightarrow> db \<Rightarrow> import_error + module_descriptor list" where
  "module_details en [] db = Inr []"
| "module_details en (pm # pms) db =
     (case GetDescriptorSnapshot en (pm_type pm) (pm_version pm) db of
        Inr d \<Rightarrow> ok_then (module_details en pms db) (\<lambda>ds. Inr (d # ds))
      | Inl NoRows \<Rightarrow> module_details en pms db
      | Inl e \<Rightarrow> Inl (ImportStore e))"

definition Details ::
    "engine \<Rightarrow> string \<Rightarrow> string \<Rightarrow> plugin_manager \<Rightarrow> import_error + plugin_installation \<times> module_descriptor list" where
  "Details en i version m =
     (case GetPlugin en i version (mg_db m) of
        Inl e \<Rightarrow> Inl (ImportStore e)
      | Inr p \<Rightarrow> ok_then (module_details en (pi_modules p) (mg_db m)) (\<lambda>ds. Inr (p, ds)))"

text \<open>The last bytes of the log of a version, 128 KiB unless the caller asks for 1 byte to 1 MiB.\<close>

definition Logs :: "string \<Rightarrow> string \<Rightarrow> int \<Rightarrow> plugin_manager \<Rightarrow> string option" where
  "Logs i version maximum0 m =
     (let maximum = (if maximum0 \<le> 0 \<or> maximum0 > 1048576 then 131072 else maximum0) in
      case read_file (mg_files m) (mg_root m @ [''logs'', i @ ''-'' @ version @ ''.log'']) of
        Inl _ \<Rightarrow> None
      | Inr s \<Rightarrow>
          (let offset = max 0 (int (length s) - maximum) in
           Some (take (nat maximum) (drop (nat offset) s))))"

lemma logs_are_a_suffix:
  assumes "Logs i version maximum m = Some s"
  shows "length s \<le> 1048576 \<and> (\<exists>content. read_file (mg_files m) (mg_root m @ [''logs'', i @ ''-'' @ version @ ''.log'']) = Inr content \<and>
    suffix s content)"
proof -
  obtain c where c: "read_file (mg_files m) (mg_root m @ [''logs'', i @ ''-'' @ version @ ''.log'']) = Inr c"
    using assms by (auto simp: Logs_def Let_def split: sum.splits)
  define k where "k = (if maximum \<le> 0 \<or> maximum > 1048576 then 131072 else maximum)"
  have s: "s = take (nat k) (drop (nat (max 0 (int (length c) - k))) c)"
    using assms unfolding Logs_def Let_def k_def [symmetric] c sum.case by (rule option.inject [THEN iffD1, symmetric])
  have "length (drop (nat (max 0 (int (length c) - k))) c) \<le> nat k" and k: "nat k \<le> 1048576"
    by (auto simp: k_def)
  with s c show ?thesis by (auto simp: suffix_drop)
qed

subsection \<open>What an import does\<close>




















subsection \<open>An example\<close>






















end
