(* ===== verification/GoDuration.thy ===== *)
theory GoDuration
  imports GoFloat Prelude
begin

section \<open>Durations as text (time.ParseDuration, fmt.Sscanf)\<close>

text \<open>
  \<open>time.ParseDuration\<close>, and reading a \<open>float64\<close> with \<open>%f\<close>, as the Go library does them.
  Durations are nanoseconds. A float that is no \<open>int64\<close> has no defined conversion in Go; what
  the platform gives then is the argument \<open>wrap\<close>.
\<close>

subsection \<open>time.ParseDuration\<close>

definition digit_val :: "char \<Rightarrow> int" where
  "digit_val c = int (ord c) - 48"

text \<open>\<open>leadingInt\<close>: \<open>None\<close> is an overflow.\<close>

fun leading_int :: "int \<Rightarrow> string \<Rightarrow> (int \<times> string) option" where
  "leading_int x [] = Some (x, [])"
| "leading_int x (c # s) =
     (if \<not> is_digit c then Some (x, c # s)
      else if x > 2 ^ 63 div 10 then None
      else let y = x * 10 + digit_val c in if y > 2 ^ 63 then None else leading_int y s)"

text \<open>\<open>leadingFraction\<close>: the digits that fit, and the power of ten they are divided by.\<close>

fun leading_fraction :: "int \<Rightarrow> int \<Rightarrow> bool \<Rightarrow> string \<Rightarrow> int \<times> int \<times> string" where
  "leading_fraction x scale over [] = (x, scale, [])"
| "leading_fraction x scale over (c # s) =
     (if \<not> is_digit c then (x, scale, c # s)
      else if over \<or> x > (2 ^ 63 - 1) div 10 then leading_fraction x scale True s
      else let y = x * 10 + digit_val c in
        if y > 2 ^ 63 then leading_fraction x scale True s
        else leading_fraction y (scale * 10) False s)"

definition unit_of :: "string \<Rightarrow> int option" where
  "unit_of u =
     get [(''ns'', 1), (''us'', 1000), ([byte 194, byte 181, CHR ''s''], 1000), ([byte 206, byte 188, CHR ''s''], 1000),
       (''ms'', 1000000), (''s'', 1000000000), (''m'', 60000000000), (''h'', 3600000000000)] u"

definition unit_char :: "char \<Rightarrow> bool" where
  "unit_char c \<longleftrightarrow> c \<noteq> CHR ''.'' \<and> \<not> is_digit c"

text \<open>A float that lies in the range of \<open>int64\<close> is cut to an integer.\<close>

definition trunc_int :: "rat \<Rightarrow> int" where
  "trunc_int x = (if 0 \<le> x then \<lfloor>x\<rfloor> else - \<lfloor>- x\<rfloor>)"

definition fraction_part :: "int \<Rightarrow> int \<Rightarrow> int \<Rightarrow> int" where
  "fraction_part f scale u =
     (case f64_mul (f64_of_int f) (f64_div (f64_of_int u) (f64_of_int scale)) of
        Fin x \<Rightarrow> trunc_int x | _ \<Rightarrow> 0)"

text \<open>The digits after a point, whether there were any, and the rest.\<close>

definition fraction_of :: "string \<Rightarrow> int \<times> int \<times> bool \<times> string" where
  "fraction_of s =
     (case s of
        [] \<Rightarrow> (0, 1, False, s)
      | c # t \<Rightarrow>
          if c \<noteq> CHR ''.'' then (0, 1, False, s)
          else (case leading_fraction 0 1 False t of (f, scale, r) \<Rightarrow> (f, scale, length r \<noteq> length t, r)))"

text \<open>One term: its value in nanoseconds and the rest.\<close>

definition duration_term :: "string \<Rightarrow> (int \<times> string) option" where
  "duration_term s =
     (case leading_int 0 s of
        None \<Rightarrow> None
      | Some (v, s1) \<Rightarrow>
          let pre = (length s1 \<noteq> length s);
              (f, scale, post, s2) = fraction_of s1;
              u = takeWhile unit_char s2; rest = dropWhile unit_char s2 in
          if \<not> pre \<and> \<not> post then None
          else if u = [] then None
          else (case unit_of u of
            None \<Rightarrow> None
          | Some n \<Rightarrow>
              if v > 2 ^ 63 div n then None
              else let w = v * n + (if f > 0 then fraction_part f scale n else 0) in
                if w > 2 ^ 63 then None else Some (w, rest)))"

text \<open>Every term takes at least one character, so the length of the text is enough fuel.\<close>

fun duration_terms :: "nat \<Rightarrow> int \<Rightarrow> string \<Rightarrow> int option" where
  "duration_terms n d [] = Some d"
| "duration_terms 0 d (c # s) = None"
| "duration_terms (Suc n) d (c # s) =
     (if \<not> (c = CHR ''.'' \<or> is_digit c) then None
      else (case duration_term (c # s) of
        None \<Rightarrow> None
      | Some (w, rest) \<Rightarrow> if d + w > 2 ^ 63 then None else duration_terms n (d + w) rest))"

definition parse_duration :: "string \<Rightarrow> duration option" where
  "parse_duration s0 =
     (let (neg, s) = scan_sign s0 in
      if s = ''0'' then Some 0
      else if s = [] then None
      else (case duration_terms (length s) 0 s of
        None \<Rightarrow> None
      | Some d \<Rightarrow> if neg then Some (- d) else if d > 2 ^ 63 - 1 then None else Some d))"

subsection \<open>fmt.Sscanf with %f\<close>

text \<open>\<open>accept\<close>: takes one character of the given ones onto the buffer.\<close>

definition accept :: "string \<Rightarrow> string \<times> string \<Rightarrow> bool \<times> string \<times> string" where
  "accept cs st =
     (case st of (buf, []) \<Rightarrow> (False, st)
      | (buf, c # s) \<Rightarrow> if c \<in> set cs then (True, buf @ [c], s) else (False, st))"

definition accept_all :: "string \<Rightarrow> string \<times> string \<Rightarrow> string \<times> string" where
  "accept_all cs st =
     (case st of (buf, s) \<Rightarrow> (buf @ takeWhile (\<lambda>c. c \<in> set cs) s, dropWhile (\<lambda>c. c \<in> set cs) s))"

text \<open>The three characters of a word, each only after the one before.\<close>

fun accept_word :: "string list \<Rightarrow> string \<times> string \<Rightarrow> bool \<times> string \<times> string" where
  "accept_word [] st = (True, st)"
| "accept_word (cs # css) st =
     (case accept cs st of (False, st1) \<Rightarrow> (False, st1) | (True, st1) \<Rightarrow> accept_word css st1)"

definition float_token :: "string \<Rightarrow> string" where
  "float_token s =
     (case accept_word [''nN'', ''aA'', ''nN''] ([], s) of
        (True, st) \<Rightarrow> fst st
      | (False, st) \<Rightarrow>
          (case accept_word [''iI'', ''nN'', ''fF''] (snd (accept ''+-'' st)) of
             (True, st) \<Rightarrow> fst st
           | (False, st) \<Rightarrow>
               let (zero, st) = accept ''0'' st;
                   (hx, st) = (if zero then accept ''xX'' st else (False, st));
                   digits = (if hx then ''0123456789aAbBcCdDeEfF_'' else ''0123456789_'');
                   exps = (if hx then ''pP'' else ''eEpP'');
                   st = accept_all digits st;
                   (dot, st) = accept ''.'' st;
                   st = (if dot then accept_all digits st else st);
                   (ex, st) = accept exps st in
               fst (if ex then accept_all ''0123456789_'' (snd (accept ''+-'' st)) else st)))"

text \<open>\<open>convertFloat\<close>: a binary exponent on decimal digits is applied by \<open>math.Ldexp\<close>.\<close>

definition ldexp :: "f64 \<Rightarrow> int \<Rightarrow> f64" where
  "ldexp x k = (case x of Fin r \<Rightarrow> rnd (r * pow2 k) | _ \<Rightarrow> x)"

definition convert_float :: "string \<Rightarrow> f64 option" where
  "convert_float t =
     (if CHR ''p'' \<in> set t \<and> CHR ''x'' \<notin> set t \<and> CHR ''X'' \<notin> set t
      then (case (parse_float (takeWhile (\<lambda>c. c \<noteq> CHR ''p'') t), atoi (drop 1 (dropWhile (\<lambda>c. c \<noteq> CHR ''p'') t))) of
          (Inr f, Some k) \<Rightarrow> Some (ldexp f k)
        | _ \<Rightarrow> None)
      else (case parse_float t of Inr f \<Rightarrow> Some f | Inl _ \<Rightarrow> None))"

text \<open>What follows the number is not looked at; the text starts with no space here.\<close>

definition scan_float :: "string \<Rightarrow> f64 option" where
  "scan_float s = (if s = [] then None else convert_float (float_token s))"

text \<open>The conversion of a \<open>float64\<close> to \<open>int64\<close>.\<close>

definition to_int64 :: "(f64 \<Rightarrow> int) \<Rightarrow> f64 \<Rightarrow> int" where
  "to_int64 wrap x =
     (case f64_val x of
        Some r \<Rightarrow> if - (2 ^ 63) \<le> trunc_int r \<and> trunc_int r < 2 ^ 63 then trunc_int r else wrap x
      | None \<Rightarrow> wrap x)"

subsection \<open>Bounds\<close>

lemma digit_val_bounds: "is_digit c \<Longrightarrow> 0 \<le> digit_val c \<and> digit_val c \<le> 9"
  by (auto simp: is_digit_def digit_val_def)

lemma leading_int_nonneg: "0 \<le> x \<Longrightarrow> leading_int x s = Some (v, r) \<Longrightarrow> 0 \<le> v"
  by (induction x s rule: leading_int.induct) (auto simp: Let_def dest: digit_val_bounds split: if_splits)

lemma leading_int_length: "leading_int x s = Some (v, r) \<Longrightarrow> length r \<le> length s"
  by (induction x s rule: leading_int.induct) (auto simp: Let_def split: if_splits)

lemma leading_fraction_length: "leading_fraction x k o' s = (f, k', r) \<Longrightarrow> length r \<le> length s"
  by (induction x k o' s rule: leading_fraction.induct) (auto simp: Let_def split: if_splits)

lemma duration_term_shorter:
  assumes "duration_term s = Some (w, r)"
  shows "length r < length s"
proof -
  obtain v s1 where v: "leading_int 0 s = Some (v, s1)" using assms by (auto simp: duration_term_def split: option.splits)
  obtain f k post s2 where q: "fraction_of s1 = (f, k, post, s2)" by (cases "fraction_of s1")
  have l1: "length s1 \<le> length s" by (rule leading_int_length [OF v])
  have "length s2 \<le> length s1" using q leading_fraction_length
    by (fastforce simp: fraction_of_def split: list.splits if_splits prod.splits)
  moreover have "takeWhile unit_char s2 \<noteq> [] \<and> r = dropWhile unit_char s2"
    using assms by (auto simp: duration_term_def v q Let_def split: if_splits option.splits)
  moreover have "length (takeWhile unit_char s2) + length (dropWhile unit_char s2) = length s2"
    by (metis length_append takeWhile_dropWhile_id)
  ultimately show ?thesis using l1 by (cases "takeWhile unit_char s2") auto
qed

text \<open>The fuel is enough: more of it changes nothing.\<close>

lemma duration_terms_fuel:
  "length s \<le> n \<Longrightarrow> length s \<le> k \<Longrightarrow> duration_terms n d s = duration_terms k d s"
proof (induction n arbitrary: k d s)
  case (Suc n)
  show ?case
  proof (cases s)
    case (Cons c t)
    with Suc.prems obtain j where k: "k = Suc j" by (cases k) auto
    have "duration_terms n (d + w) r = duration_terms j (d + w) r" if "duration_term (c # t) = Some (w, r)" for w r
      using Suc.IH [of r j] duration_term_shorter [OF that] Suc.prems Cons k by simp
    then show ?thesis by (auto simp: Cons k split: option.split)
  qed simp
qed simp


end
