(* ===== verification/RuntimeConfig.thy ===== *)
theory RuntimeConfig
  imports StoreAdmin GoDuration
begin

section \<open>Runtime configuration (app/runtime_config.go, runtimeconfig/config.go, runtime/cleanup.go)\<close>

text \<open>
  The settings that can be changed while the server runs: their defaults and validation, the
  manager that keeps a snapshot of them beside the rows of the store, and the worker that
  deletes old records by them. JSON texts are the values they encode: a number stands for any
  of its notations, \<open>None\<close> for a text that is not exactly one value, and field names are
  compared in ASCII. \<open>platform\<close> holds what Go leaves to it: the time zones that can be loaded,
  and the conversion of a float that is no \<open>int64\<close>.
\<close>

subsection \<open>The configuration\<close>

record runtime_storage =
  rs_retention :: string
  rs_notification_retention :: string
  rs_cleanup_interval :: string

record runtime_scheduler =
  rc_timezone :: string
  rc_max_concurrency :: int
  rc_poll_milliseconds :: int

record console_log =
  cl_enabled :: bool
  cl_access :: bool

record runtime_file =
  rf_enabled :: bool
  rf_access_enabled :: bool

record runtime_logging =
  rl_level :: string
  rl_format :: string
  rl_add_source :: bool
  rl_console :: console_log
  rl_file :: runtime_file

record runtime_plugins =
  rp_log_level :: string
  rp_log_format :: string

record runtime_mcp =
  mc_enabled :: bool

record runtime_config =
  rt_storage :: runtime_storage
  rt_scheduler :: runtime_scheduler
  rt_logging :: runtime_logging
  rt_plugins :: runtime_plugins
  rt_auth :: auth_config
  rt_mcp :: runtime_mcp

record platform =
  pl_location :: "string \<Rightarrow> bool"
  pl_wrap :: "f64 \<Rightarrow> int"

definition DefaultRuntimeConfig :: runtime_config where
  "DefaultRuntimeConfig =
     \<lparr>rt_storage = \<lparr>rs_retention = ''30d'', rs_notification_retention = ''30d'', rs_cleanup_interval = ''1h''\<rparr>,
      rt_scheduler = \<lparr>rc_timezone = ''Local'', rc_max_concurrency = 16, rc_poll_milliseconds = 500\<rparr>,
      rt_logging = \<lparr>rl_level = ''info'', rl_format = ''simple'', rl_add_source = True,
        rl_console = \<lparr>cl_enabled = True, cl_access = False\<rparr>, rl_file = \<lparr>rf_enabled = True, rf_access_enabled = True\<rparr>\<rparr>,
      rt_plugins = \<lparr>rp_log_level = ''info'', rp_log_format = ''simple''\<rparr>,
      rt_auth = \<lparr>ac_session_ttl = ''720h'', ac_admin_key_hash = ''''\<rparr>,
      rt_mcp = \<lparr>mc_enabled = False\<rparr>\<rparr>"

definition zero_runtime_config :: runtime_config where
  "zero_runtime_config =
     \<lparr>rt_storage = \<lparr>rs_retention = '''', rs_notification_retention = '''', rs_cleanup_interval = ''''\<rparr>,
      rt_scheduler = \<lparr>rc_timezone = '''', rc_max_concurrency = 0, rc_poll_milliseconds = 0\<rparr>,
      rt_logging = \<lparr>rl_level = '''', rl_format = '''', rl_add_source = False,
        rl_console = \<lparr>cl_enabled = False, cl_access = False\<rparr>, rl_file = \<lparr>rf_enabled = False, rf_access_enabled = False\<rparr>\<rparr>,
      rt_plugins = \<lparr>rp_log_level = '''', rp_log_format = ''''\<rparr>,
      rt_auth = zero_auth_config,
      rt_mcp = \<lparr>mc_enabled = False\<rparr>\<rparr>"

subsection \<open>Durations\<close>

text \<open>\<open>int64\<close> multiplication wraps around.\<close>

definition wrap64 :: "int \<Rightarrow> int" where
  "wrap64 x = (x + 2 ^ 63) mod 2 ^ 64 - 2 ^ 63"

definition ParseDuration :: "string \<Rightarrow> duration option" where
  "ParseDuration s =
     (let v = trim_space (to_lower s) in
      if has_suffix v ''d'' then
        (case parse_duration (butlast v @ ''h'') of
           None \<Rightarrow> None
         | Some days \<Rightarrow> if days \<le> 0 then None else Some (wrap64 (days * 24)))
      else (case parse_duration v of
          None \<Rightarrow> None
        | Some d \<Rightarrow> if d \<le> 0 then None else Some d))"

definition ParseRetention :: "platform \<Rightarrow> string \<Rightarrow> duration option" where
  "ParseRetention pl s =
     (let v = trim_space (to_lower s) in
      if has_suffix v ''d'' then
        (case scan_float (butlast v) of
           None \<Rightarrow> None
         | Some days \<Rightarrow>
             if f64_le days (Fin 0) then None
             else Some (to_int64 (pl_wrap pl) (f64_mul days (f64_of_int (24 * hour)))))
      else (case parse_duration v of
          None \<Rightarrow> None
        | Some d \<Rightarrow> if d \<le> 0 then None else Some d))"

definition NormalizeLogLevel :: "string \<Rightarrow> string option" where
  "NormalizeLogLevel s =
     (let v = to_lower (trim_space s); level = (if v = ''warning'' then ''warn'' else v) in
      if level \<in> {''debug'', ''info'', ''warn'', ''error''} then Some level else None)"

definition NormalizeLogFormat :: "string \<Rightarrow> string option" where
  "NormalizeLogFormat s =
     (let v = to_lower (trim_space s) in if v \<in> {''text'', ''simple'', ''json''} then Some v else None)"

definition StorageDurations :: "platform \<Rightarrow> runtime_config \<Rightarrow> duration \<times> duration \<times> duration" where
  "StorageDurations pl c =
     (let d = (\<lambda>s. case ParseRetention pl s of None \<Rightarrow> 0 | Some x \<Rightarrow> x) in
      (d (rs_retention (rt_storage c)), d (rs_notification_retention (rt_storage c)), d (rs_cleanup_interval (rt_storage c))))"

definition SessionTTLDuration :: "runtime_config \<Rightarrow> duration" where
  "SessionTTLDuration c = (case ParseDuration (ac_session_ttl (rt_auth c)) of None \<Rightarrow> 0 | Some d \<Rightarrow> d)"

text \<open>\<open>None\<close> is the local time zone.\<close>

definition SchedulerLocation :: "platform \<Rightarrow> runtime_config \<Rightarrow> string option" where
  "SchedulerLocation pl c =
     (let z = rc_timezone (rt_scheduler c) in
      if z = ''Local'' \<or> z = '''' \<or> \<not> pl_location pl z then None else Some z)"

subsection \<open>Validation\<close>

datatype config_error =
    BadDuration string
  | ConcurrencyTooSmall
  | PollTooSmall
  | BadTimezone
  | BadLogLevel string
  | BadLogFormat string
  | NoLogOutput

definition some_or :: "'e \<Rightarrow> 'a option \<Rightarrow> 'e + 'a" where
  "some_or e x = (case x of None \<Rightarrow> Inl e | Some y \<Rightarrow> Inr y)"

lemma some_or_Inr [simp]: "some_or e x = Inr y \<longleftrightarrow> x = Some y"
  by (simp add: some_or_def split: option.splits)

definition check_durations :: "platform \<Rightarrow> runtime_storage \<Rightarrow> config_error + unit" where
  "check_durations pl s =
     ok_then (some_or (BadDuration ''storage.retention'') (ParseRetention pl (rs_retention s))) (\<lambda>_.
     ok_then (some_or (BadDuration ''storage.notification_retention'') (ParseRetention pl (rs_notification_retention s))) (\<lambda>_.
     ok_then (some_or (BadDuration ''storage.cleanup_interval'') (ParseRetention pl (rs_cleanup_interval s))) (\<lambda>_.
     Inr ())))"

definition normalize_logs :: "runtime_config \<Rightarrow> config_error + runtime_config" where
  "normalize_logs c =
     (let l = rt_logging c; p = rt_plugins c in
      ok_then (some_or (BadLogLevel ''logging.level'') (NormalizeLogLevel (rl_level l))) (\<lambda>level.
      ok_then (some_or (BadLogFormat ''logging.format'') (NormalizeLogFormat (rl_format l))) (\<lambda>format.
      if \<not> cl_enabled (rl_console l) \<and> \<not> rf_enabled (rl_file l) then Inl NoLogOutput
      else
      ok_then (some_or (BadLogLevel ''plugins.log_level'') (NormalizeLogLevel (rp_log_level p))) (\<lambda>plevel.
      ok_then (some_or (BadLogFormat ''plugins.log_format'') (NormalizeLogFormat (rp_log_format p))) (\<lambda>pformat.
      Inr (c\<lparr>rt_logging := l\<lparr>rl_level := level, rl_format := format\<rparr>,
             rt_plugins := \<lparr>rp_log_level = plevel, rp_log_format = pformat\<rparr>\<rparr>))))))"

definition Validate :: "platform \<Rightarrow> runtime_config \<Rightarrow> config_error + runtime_config" where
  "Validate pl c =
     ok_then (check_durations pl (rt_storage c)) (\<lambda>_.
     let s = rt_scheduler c in
     if rc_max_concurrency s < 1 then Inl ConcurrencyTooSmall
     else if rc_poll_milliseconds s < 100 then Inl PollTooSmall
     else if \<not> pl_location pl (rc_timezone s) \<and> rc_timezone s \<noteq> ''Local'' then Inl BadTimezone
     else ok_then (some_or (BadDuration ''auth.session_ttl'') (ParseDuration (ac_session_ttl (rt_auth c)))) (\<lambda>_.
       normalize_logs c))"

subsection \<open>The domains as JSON\<close>

definition SystemConfigStorage :: string where "SystemConfigStorage = ''storage''"
definition SystemConfigScheduler :: string where "SystemConfigScheduler = ''scheduler''"
definition SystemConfigLogging :: string where "SystemConfigLogging = ''logging''"
definition SystemConfigPlugins :: string where "SystemConfigPlugins = ''plugins''"
definition SystemConfigMCP :: string where "SystemConfigMCP = ''mcp''"

lemmas config_types = SystemConfigStorage_def SystemConfigScheduler_def SystemConfigLogging_def SystemConfigPlugins_def
  SystemConfigMCP_def system_auth_def

definition managedTypes :: "string list" where
  "managedTypes =
     [SystemConfigStorage, SystemConfigScheduler, SystemConfigLogging, SystemConfigPlugins, system_auth, SystemConfigMCP]"

text \<open>\<open>json.Marshal\<close> of \<open>domain\<close>; an empty key hash is omitted.\<close>

definition encode_storage :: "runtime_storage \<Rightarrow> val" where
  "encode_storage s =
     VObj [(''retention'', VStr (rs_retention s)), (''notification_retention'', VStr (rs_notification_retention s)),
       (''cleanup_interval'', VStr (rs_cleanup_interval s))]"

definition encode_scheduler :: "runtime_scheduler \<Rightarrow> val" where
  "encode_scheduler s =
     VObj [(''timezone'', VStr (rc_timezone s)), (''max_concurrency'', VInt (rc_max_concurrency s)),
       (''poll_milliseconds'', VInt (rc_poll_milliseconds s))]"

definition encode_logging :: "runtime_logging \<Rightarrow> val" where
  "encode_logging l =
     VObj [(''level'', VStr (rl_level l)), (''format'', VStr (rl_format l)), (''add_source'', VBool (rl_add_source l)),
       (''console'', VObj [(''enabled'', VBool (cl_enabled (rl_console l))), (''access'', VBool (cl_access (rl_console l)))]),
       (''file'', VObj [(''enabled'', VBool (rf_enabled (rl_file l))),
          (''access'', VObj [(''enabled'', VBool (rf_access_enabled (rl_file l)))])])]"

definition encode_plugins :: "runtime_plugins \<Rightarrow> val" where
  "encode_plugins p = VObj [(''log_level'', VStr (rp_log_level p)), (''log_format'', VStr (rp_log_format p))]"

definition encode_runtime_auth :: "auth_config \<Rightarrow> val" where
  "encode_runtime_auth a =
     VObj ((''session_ttl'', VStr (ac_session_ttl a)) #
       (if ac_admin_key_hash a = '''' then [] else [(''admin_key_hash'', VStr (ac_admin_key_hash a))]))"

definition encode_mcp :: "runtime_mcp \<Rightarrow> val" where
  "encode_mcp x = VObj [(''enabled'', VBool (mc_enabled x))]"

definition domain :: "runtime_config \<Rightarrow> string \<Rightarrow> val" where
  "domain c t =
     (if t = SystemConfigStorage then encode_storage (rt_storage c)
      else if t = SystemConfigScheduler then encode_scheduler (rt_scheduler c)
      else if t = SystemConfigLogging then encode_logging (rt_logging c)
      else if t = SystemConfigPlugins then encode_plugins (rt_plugins c)
      else if t = system_auth then encode_runtime_auth (rt_auth c)
      else if t = SystemConfigMCP then encode_mcp (rt_mcp c)
      else VNil)"

text \<open>
  Decoding into a value that exists: \<open>null\<close> and absent fields leave it, unknown fields are
  errors (\<open>DisallowUnknownFields\<close>), so are values of another type.
\<close>

type_synonym 'r decoder = "val \<Rightarrow> 'r \<Rightarrow> 'r option"

fun decode_fields :: "(string \<times> 'r decoder) list \<Rightarrow> obj \<Rightarrow> 'r \<Rightarrow> 'r option" where
  "decode_fields fs [] r = Some r"
| "decode_fields fs ((k, v) # kvs) r =
     (case map_of fs (to_lower k) of
        None \<Rightarrow> None
      | Some f \<Rightarrow> (case f v r of None \<Rightarrow> None | Some r' \<Rightarrow> decode_fields fs kvs r'))"

definition decode_struct :: "(string \<times> 'r decoder) list \<Rightarrow> 'r decoder" where
  "decode_struct fs v r =
     (case v of VNil \<Rightarrow> Some r | VObj m \<Rightarrow> decode_fields fs m r | _ \<Rightarrow> None)"

definition decode_str :: "((string \<Rightarrow> string) \<Rightarrow> 'r \<Rightarrow> 'r) \<Rightarrow> 'r decoder" where
  "decode_str upd v r = (case v of VNil \<Rightarrow> Some r | VStr s \<Rightarrow> Some (upd (\<lambda>_. s) r) | _ \<Rightarrow> None)"

definition decode_bool :: "((bool \<Rightarrow> bool) \<Rightarrow> 'r \<Rightarrow> 'r) \<Rightarrow> 'r decoder" where
  "decode_bool upd v r = (case v of VNil \<Rightarrow> Some r | VBool b \<Rightarrow> Some (upd (\<lambda>_. b) r) | _ \<Rightarrow> None)"

definition json_int :: "val \<Rightarrow> int option" where
  "json_int v =
     (case v of
        VInt i \<Rightarrow> if - (2 ^ 63) \<le> i \<and> i < 2 ^ 63 then Some i else None
      | VNum x \<Rightarrow>
          (case f64_val x of
             Some q \<Rightarrow> if of_int \<lfloor>q\<rfloor> = q \<and> - (2 ^ 63) \<le> q \<and> q < 2 ^ 63 then Some \<lfloor>q\<rfloor> else None
           | None \<Rightarrow> None)
      | _ \<Rightarrow> None)"

definition decode_int :: "((int \<Rightarrow> int) \<Rightarrow> 'r \<Rightarrow> 'r) \<Rightarrow> 'r decoder" where
  "decode_int upd v r =
     (if v = VNil then Some r else case json_int v of None \<Rightarrow> None | Some i \<Rightarrow> Some (upd (\<lambda>_. i) r))"

text \<open>A field that is a struct itself, decoded in place.\<close>

definition decode_in :: "('r \<Rightarrow> 's) \<Rightarrow> (('s \<Rightarrow> 's) \<Rightarrow> 'r \<Rightarrow> 'r) \<Rightarrow> (string \<times> 's decoder) list \<Rightarrow> 'r decoder" where
  "decode_in sel upd fs v r =
     (case decode_struct fs v (sel r) of None \<Rightarrow> None | Some s \<Rightarrow> Some (upd (\<lambda>_. s) r))"

definition decode_storage :: "(string \<times> runtime_storage decoder) list" where
  "decode_storage =
     [(''retention'', decode_str rs_retention_update),
      (''notification_retention'', decode_str rs_notification_retention_update),
      (''cleanup_interval'', decode_str rs_cleanup_interval_update)]"

definition decode_scheduler :: "(string \<times> runtime_scheduler decoder) list" where
  "decode_scheduler =
     [(''timezone'', decode_str rc_timezone_update), (''max_concurrency'', decode_int rc_max_concurrency_update),
      (''poll_milliseconds'', decode_int rc_poll_milliseconds_update)]"

definition decode_logging :: "(string \<times> runtime_logging decoder) list" where
  "decode_logging =
     [(''level'', decode_str rl_level_update), (''format'', decode_str rl_format_update),
      (''add_source'', decode_bool rl_add_source_update),
      (''console'', decode_in rl_console rl_console_update
         [(''enabled'', decode_bool cl_enabled_update), (''access'', decode_bool cl_access_update)]),
      (''file'', decode_in rl_file rl_file_update
         [(''enabled'', decode_bool rf_enabled_update),
          (''access'', decode_struct [(''enabled'', decode_bool rf_access_enabled_update)])])]"

definition decode_plugins :: "(string \<times> runtime_plugins decoder) list" where
  "decode_plugins =
     [(''log_level'', decode_str rp_log_level_update), (''log_format'', decode_str rp_log_format_update)]"

definition decode_runtime_auth :: "(string \<times> auth_config decoder) list" where
  "decode_runtime_auth =
     [(''session_ttl'', decode_str ac_session_ttl_update), (''admin_key_hash'', decode_str ac_admin_key_hash_update)]"

definition decode_mcp :: "(string \<times> runtime_mcp decoder) list" where
  "decode_mcp = [(''enabled'', decode_bool mc_enabled_update)]"

definition decodeDomain :: "val option \<Rightarrow> string \<Rightarrow> runtime_config \<Rightarrow> runtime_config option" where
  "decodeDomain data t c =
     (case data of
        None \<Rightarrow> None
      | Some v \<Rightarrow>
          if t = SystemConfigStorage then decode_in rt_storage rt_storage_update decode_storage v c
          else if t = SystemConfigScheduler then decode_in rt_scheduler rt_scheduler_update decode_scheduler v c
          else if t = SystemConfigLogging then decode_in rt_logging rt_logging_update decode_logging v c
          else if t = SystemConfigPlugins then decode_in rt_plugins rt_plugins_update decode_plugins v c
          else if t = system_auth then decode_in rt_auth rt_auth_update decode_runtime_auth v c
          else if t = SystemConfigMCP then decode_in rt_mcp rt_mcp_update decode_mcp v c
          else None)"

subsection \<open>The manager\<close>

datatype manager_error =
    NotEditable string
  | ConfigConflict
  | ConfigUndecodable string
  | KeyHashManaged
  | ConfigInvalid config_error
  | ApplyFailed string
  | ConfigStore db_error
  | PathRequired
  | ValueNotJSON
  | VersionMissing string

text \<open>
  \<open>rm_subs\<close>: whether each subscriber has a notification waiting in its channel of one place.
  \<open>rm_live\<close> is no field of the code: the configuration that the components were last told.
\<close>

record runtime_manager =
  rm_config :: runtime_config
  rm_versions :: "int go_map"
  rm_subs :: "bool list"
  rm_live :: runtime_config

text \<open>\<open>m.apply\<close>: how the running components take over a change; \<open>None\<close> if none is set.\<close>

type_synonym apply_func = "(runtime_config \<Rightarrow> runtime_config \<Rightarrow> string option) option"

definition apply_change ::
    "apply_func \<Rightarrow> runtime_config \<Rightarrow> runtime_config \<Rightarrow> runtime_manager \<Rightarrow> (manager_error + unit) \<times> runtime_manager" where
  "apply_change ap old new m =
     (case ap of
        None \<Rightarrow> (Inr (), m)
      | Some f \<Rightarrow> (case f old new of Some e \<Rightarrow> (Inl (ApplyFailed e), m) | None \<Rightarrow> (Inr (), m\<lparr>rm_live := new\<rparr>)))"

definition notifyLocked :: "runtime_manager \<Rightarrow> runtime_manager" where
  "notifyLocked m = m\<lparr>rm_subs := map (\<lambda>_. True) (rm_subs m)\<rparr>"

definition Subscribe_config :: "runtime_manager \<Rightarrow> nat \<times> runtime_manager" where
  "Subscribe_config m = (length (rm_subs m), m\<lparr>rm_subs := rm_subs m @ [False]\<rparr>)"

definition version_of :: "runtime_manager \<Rightarrow> string \<Rightarrow> int" where
  "version_of m t = (case get (rm_versions m) t of None \<Rightarrow> 0 | Some v \<Rightarrow> v)"

definition ensureAuthConfig :: "engine \<Rightarrow> time \<Rightarrow> db \<Rightarrow> (manager_error + unit) \<times> db" where
  "ensureAuthConfig en now db =
     (case GetSystemConfig en system_auth db of
        Inl NoRows \<Rightarrow>
          (case EnsureSystemConfig en now system_auth (encode_runtime_auth (rt_auth DefaultRuntimeConfig)) db of
             (Inl e, db1) \<Rightarrow> (Inl (ConfigStore e), db1) | (Inr _, db1) \<Rightarrow> (Inr (), db1))
      | Inl e \<Rightarrow> (Inl (ConfigStore e), db)
      | Inr row \<Rightarrow>
          (case decode_auth (sc_data row) of
             None \<Rightarrow> (Inl (ConfigUndecodable system_auth), db)
           | Some a \<Rightarrow>
               if ac_session_ttl a \<noteq> '''' then (Inr (), db)
               else (case UpdateSystemConfig en now system_auth
                   (Some (encode_runtime_auth (a\<lparr>ac_session_ttl := ac_session_ttl (rt_auth DefaultRuntimeConfig)\<rparr>)))
                   (sc_version row) db of
                 (Inl VersionConflict, db1) \<Rightarrow> (Inr (), db1)
               | (Inl e, db1) \<Rightarrow> (Inl (ConfigStore e), db1)
               | (Inr _, db1) \<Rightarrow> (Inr (), db1))))"

fun ensure_types :: "engine \<Rightarrow> time \<Rightarrow> string list \<Rightarrow> db \<Rightarrow> (manager_error + unit) \<times> db" where
  "ensure_types en now [] db = (Inr (), db)"
| "ensure_types en now (t # ts) db =
     (case (if t = system_auth then ensureAuthConfig en now db
        else (case EnsureSystemConfig en now t (domain DefaultRuntimeConfig t) db of
            (Inl e, db1) \<Rightarrow> (Inl (ConfigStore e), db1) | (Inr _, db1) \<Rightarrow> (Inr (), db1))) of
        (Inl e, db1) \<Rightarrow> (Inl e, db1)
      | (Inr _, db1) \<Rightarrow> ensure_types en now ts db1)"

fun load_types ::
    "engine \<Rightarrow> db \<Rightarrow> string list \<Rightarrow> runtime_config \<times> int go_map \<Rightarrow> manager_error + runtime_config \<times> int go_map" where
  "load_types en db [] cv = Inr cv"
| "load_types en db (t # ts) cv =
     (case GetSystemConfig en t db of
        Inl e \<Rightarrow> Inl (ConfigStore e)
      | Inr row \<Rightarrow>
          (case decodeDomain (Some (sc_data row)) t (fst cv) of
             None \<Rightarrow> Inl (ConfigUndecodable t)
           | Some c \<Rightarrow> load_types en db ts (c, put t (sc_version row) (snd cv))))"

definition clear_key :: "runtime_config \<Rightarrow> runtime_config" where
  "clear_key c = c\<lparr>rt_auth := (rt_auth c)\<lparr>ac_admin_key_hash := ''''\<rparr>\<rparr>"

definition load_config :: "platform \<Rightarrow> engine \<Rightarrow> db \<Rightarrow> manager_error + runtime_config \<times> int go_map" where
  "load_config pl en db =
     ok_then (load_types en db managedTypes (zero_runtime_config, [])) (\<lambda>(c, vs).
       case Validate pl c of
         Inl e \<Rightarrow> Inl (ConfigInvalid e)
       | Inr c' \<Rightarrow> Inr (clear_key c', vs))"

text \<open>\<open>New\<close>; the components are built from its first snapshot.\<close>

definition New_manager :: "platform \<Rightarrow> engine \<Rightarrow> time \<Rightarrow> db \<Rightarrow> (manager_error + runtime_manager) \<times> db" where
  "New_manager pl en now db =
     (case ensure_types en now managedTypes db of
        (Inl e, db1) \<Rightarrow> (Inl e, db1)
      | (Inr _, db1) \<Rightarrow>
          (case load_config pl en db1 of
             Inl e \<Rightarrow> (Inl e, db1)
           | Inr (c, vs) \<Rightarrow> (Inr \<lparr>rm_config = c, rm_versions = vs, rm_subs = [], rm_live = c\<rparr>, db1)))"

definition isManagedType :: "string \<Rightarrow> bool" where
  "isManagedType t \<longleftrightarrow> t \<in> set managedTypes"

text \<open>The part of \<open>Update\<close> before anything changes: the configuration it would lead to.\<close>

definition update_candidate ::
    "platform \<Rightarrow> string \<Rightarrow> val option \<Rightarrow> int \<Rightarrow> runtime_manager \<Rightarrow> manager_error + runtime_config" where
  "update_candidate pl t data expected m =
     (if \<not> isManagedType t then Inl (NotEditable t)
      else if expected \<noteq> version_of m t then Inl ConfigConflict
      else case decodeDomain data t (rm_config m) of
        None \<Rightarrow> Inl (ConfigUndecodable t)
      | Some c \<Rightarrow>
          if t = system_auth \<and> ac_admin_key_hash (rt_auth c) \<noteq> ac_admin_key_hash (rt_auth (rm_config m))
          then Inl KeyHashManaged
          else (case Validate pl c of Inl e \<Rightarrow> Inl (ConfigInvalid e) | Inr c' \<Rightarrow> Inr c'))"

definition Update_config ::
    "platform \<Rightarrow> engine \<Rightarrow> apply_func \<Rightarrow> time \<Rightarrow> string \<Rightarrow> val option \<Rightarrow> int \<Rightarrow> runtime_manager \<times> db \<Rightarrow>
     (manager_error + runtime_config) \<times> runtime_manager \<times> db" where
  "Update_config pl en ap now t data expected mdb =
     (let (m, db) = mdb in
      case update_candidate pl t data expected m of
        Inl e \<Rightarrow> (Inl e, m, db)
      | Inr c \<Rightarrow>
          (case apply_change ap (rm_config m) c m of
             (Inl e, m1) \<Rightarrow> (Inl e, m1, db)
           | (Inr _, m1) \<Rightarrow>
               (case UpdateSystemConfig en now t (Some (domain c t)) expected db of
                  (Inl e, db1) \<Rightarrow> (Inl (ConfigStore e), snd (apply_change ap c (rm_config m) m1), db1)
                | (Inr row, db1) \<Rightarrow>
                    (Inr c, notifyLocked (m1\<lparr>rm_config := c, rm_versions := put t (sc_version row) (rm_versions m1)\<rparr>), db1))))"

definition trimDomainPath :: "string \<Rightarrow> string \<Rightarrow> string" where
  "trimDomainPath t path = trim_prefix (t @ ''.'') path"

text \<open>The assignment of \<open>UpdatePath\<close>: what is no object on the way is replaced by one.\<close>

fun set_path :: "string list \<Rightarrow> val \<Rightarrow> obj \<Rightarrow> obj" where
  "set_path [] v m = m"
| "set_path [p] v m = put p v m"
| "set_path (p # q # ps) v m =
     put p (VObj (set_path (q # ps) v (case get m p of Some (VObj child) \<Rightarrow> child | _ \<Rightarrow> []))) m"

definition UpdatePath ::
    "platform \<Rightarrow> engine \<Rightarrow> apply_func \<Rightarrow> time \<Rightarrow> string \<Rightarrow> string \<Rightarrow> val option \<Rightarrow> int \<Rightarrow> runtime_manager \<times> db \<Rightarrow>
     (manager_error + runtime_config) \<times> runtime_manager \<times> db" where
  "UpdatePath pl en ap now t path0 value expected mdb =
     (if \<not> isManagedType t then (Inl (NotEditable t), mdb)
      else let path = trimDomainPath t path0;
             members = (case from_json (domain (rm_config (fst mdb)) t) of VObj m \<Rightarrow> m | _ \<Rightarrow> []) in
        if path = '''' then (Inl PathRequired, mdb)
        else (case value of
          None \<Rightarrow> (Inl ValueNotJSON, mdb)
        | Some v \<Rightarrow>
            Update_config pl en ap now t (Some (VObj (set_path (split_on (CHR ''.'') path) v members))) expected mdb))"

definition Reset ::
    "platform \<Rightarrow> engine \<Rightarrow> apply_func \<Rightarrow> time \<Rightarrow> string \<Rightarrow> runtime_manager \<times> db \<Rightarrow>
     (manager_error + runtime_config) \<times> runtime_manager \<times> db" where
  "Reset pl en ap now t mdb =
     Update_config pl en ap now t (Some (domain DefaultRuntimeConfig t)) (version_of (fst mdb) t) mdb"

fun reset_each ::
    "platform \<Rightarrow> engine \<Rightarrow> apply_func \<Rightarrow> time \<Rightarrow> string list \<Rightarrow> runtime_manager \<times> db \<Rightarrow>
     (manager_error + unit) \<times> runtime_manager \<times> db" where
  "reset_each pl en ap now [] mdb = (Inr (), mdb)"
| "reset_each pl en ap now (t # ts) mdb =
     (case Reset pl en ap now t mdb of
        (Inl e, mdb1) \<Rightarrow> (Inl e, mdb1) | (Inr _, mdb1) \<Rightarrow> reset_each pl en ap now ts mdb1)"

definition ResetAll ::
    "platform \<Rightarrow> engine \<Rightarrow> apply_func \<Rightarrow> time \<Rightarrow> runtime_manager \<times> db \<Rightarrow>
     (manager_error + runtime_config) \<times> runtime_manager \<times> db" where
  "ResetAll pl en ap now mdb =
     (case reset_each pl en ap now managedTypes mdb of
        (Inl e, mdb1) \<Rightarrow> (Inl e, mdb1) | (Inr _, mdb1) \<Rightarrow> (Inr (rm_config (fst mdb1)), mdb1))"

text \<open>The versions an import returns, taken over type by type until one is missing.\<close>

fun take_versions :: "int go_map \<Rightarrow> string list \<Rightarrow> runtime_manager \<Rightarrow> (manager_error + unit) \<times> runtime_manager" where
  "take_versions vs [] m = (Inr (), m)"
| "take_versions vs (t # ts) m =
     (case get vs t of
        None \<Rightarrow> (Inl (VersionMissing t), m)
      | Some v \<Rightarrow>
          if v < 1 then (Inl (VersionMissing t), m)
          else take_versions vs ts (m\<lparr>rm_versions := put t v (rm_versions m)\<rparr>))"

text \<open>\<open>persist\<close> writes the domains, with whatever else belongs to the import.\<close>

definition Import_config ::
    "platform \<Rightarrow> apply_func \<Rightarrow> runtime_config \<Rightarrow> (val go_map \<Rightarrow> db \<Rightarrow> db_error + int go_map \<times> db) \<Rightarrow>
     runtime_manager \<times> db \<Rightarrow> (manager_error + runtime_config) \<times> runtime_manager \<times> db" where
  "Import_config pl ap candidate persist mdb =
     (let (m, db) = mdb in
      case Validate pl (clear_key candidate) of
        Inl e \<Rightarrow> (Inl (ConfigInvalid e), m, db)
      | Inr c \<Rightarrow>
          (case apply_change ap (rm_config m) c m of
             (Inl e, m1) \<Rightarrow> (Inl e, m1, db)
           | (Inr _, m1) \<Rightarrow>
               (case persist (map (\<lambda>t. (t, domain c t)) managedTypes) db of
                  Inl e \<Rightarrow> (Inl (ConfigStore e), snd (apply_change ap c (rm_config m) m1), db)
                | Inr (vs, db1) \<Rightarrow>
                    (case take_versions vs managedTypes m1 of
                       (Inl e, m2) \<Rightarrow> (Inl e, m2, db1)
                     | (Inr _, m2) \<Rightarrow> (Inr c, notifyLocked (m2\<lparr>rm_config := c\<rparr>), db1)))))"

subsection \<open>The list of settings\<close>

definition RuntimeConfigDefinitions :: "(string \<times> string \<times> (runtime_config \<Rightarrow> val)) list" where
  "RuntimeConfigDefinitions =
     [(SystemConfigStorage, ''storage.retention'', \<lambda>c. VStr (rs_retention (rt_storage c))),
      (SystemConfigStorage, ''storage.notification_retention'', \<lambda>c. VStr (rs_notification_retention (rt_storage c))),
      (SystemConfigStorage, ''storage.cleanup_interval'', \<lambda>c. VStr (rs_cleanup_interval (rt_storage c))),
      (SystemConfigScheduler, ''scheduler.timezone'', \<lambda>c. VStr (rc_timezone (rt_scheduler c))),
      (SystemConfigScheduler, ''scheduler.max_concurrency'', \<lambda>c. VInt (rc_max_concurrency (rt_scheduler c))),
      (SystemConfigScheduler, ''scheduler.poll_milliseconds'', \<lambda>c. VInt (rc_poll_milliseconds (rt_scheduler c))),
      (SystemConfigLogging, ''logging.level'', \<lambda>c. VStr (rl_level (rt_logging c))),
      (SystemConfigLogging, ''logging.format'', \<lambda>c. VStr (rl_format (rt_logging c))),
      (SystemConfigLogging, ''logging.add_source'', \<lambda>c. VBool (rl_add_source (rt_logging c))),
      (SystemConfigLogging, ''logging.console.enabled'', \<lambda>c. VBool (cl_enabled (rl_console (rt_logging c)))),
      (SystemConfigLogging, ''logging.console.access'', \<lambda>c. VBool (cl_access (rl_console (rt_logging c)))),
      (SystemConfigLogging, ''logging.file.enabled'', \<lambda>c. VBool (rf_enabled (rl_file (rt_logging c)))),
      (SystemConfigLogging, ''logging.file.access.enabled'', \<lambda>c. VBool (rf_access_enabled (rl_file (rt_logging c)))),
      (SystemConfigPlugins, ''plugins.log_level'', \<lambda>c. VStr (rp_log_level (rt_plugins c))),
      (SystemConfigPlugins, ''plugins.log_format'', \<lambda>c. VStr (rp_log_format (rt_plugins c))),
      (system_auth, ''auth.session_ttl'', \<lambda>c. VStr (ac_session_ttl (rt_auth c))),
      (SystemConfigMCP, ''mcp.enabled'', \<lambda>c. VBool (mc_enabled (rt_mcp c)))]"

record config_item =
  ci_type :: string
  ci_path :: string
  ci_value :: val
  ci_default :: val
  ci_version :: int
  ci_is_default :: bool

definition Metadata :: "runtime_manager \<Rightarrow> config_item list" where
  "Metadata m =
     map (\<lambda>(t, path, value). \<lparr>ci_type = t, ci_path = path, ci_value = value (rm_config m),
        ci_default = value DefaultRuntimeConfig, ci_version = version_of m t,
        ci_is_default = (value (rm_config m) = value DefaultRuntimeConfig)\<rparr>) RuntimeConfigDefinitions"

subsection \<open>Cleaning up (runtime/cleanup.go)\<close>

text \<open>
  \<open>CleanupWorker.run\<close>: records first, then deliveries. The result is what the two callbacks are
  given: the number of deleted records, and the unread notifications that are left.
\<close>

definition cleanup_run ::
    "platform \<Rightarrow> engine \<Rightarrow> runtime_config \<Rightarrow> time \<Rightarrow> db \<Rightarrow> (nat option \<times> nat option) \<times> db" where
  "cleanup_run pl en c now db =
     (let (retention, notificationRetention, _) = StorageDurations pl c;
          (n, db1) = (case PruneRecords en (now - retention) db of Inl e \<Rightarrow> (0, db) | Inr (n, d) \<Rightarrow> (n, d));
          records = (if 0 < n then Some n else None) in
      case PruneNotificationDeliveries en (now - notificationRetention) db1 of
        Inl e \<Rightarrow> ((records, None), db1)
      | Inr (k, db2) \<Rightarrow>
          ((records,
            if k = 0 then None
            else (case CountUnreadInAppNotifications en db2 of Inl e \<Rightarrow> None | Inr u \<Rightarrow> Some u)), db2))"

definition cleanup_interval :: "platform \<Rightarrow> runtime_config \<Rightarrow> duration" where
  "cleanup_interval pl c = (case StorageDurations pl c of (_, _, i) \<Rightarrow> if i \<le> 0 then hour else i)"

text \<open>
  The loop of \<open>Start\<close>: the timer fires at the time it was set for, and a change of the
  configuration sets it anew. The state is the time it is set for.
\<close>

datatype cleanup_event = TimerFired runtime_config | ConfigChanged time runtime_config

definition cleanup_step ::
    "platform \<Rightarrow> engine \<Rightarrow> cleanup_event \<Rightarrow> time \<times> db \<Rightarrow> time \<times> db" where
  "cleanup_step pl en ev st =
     (case ev of
        TimerFired c \<Rightarrow> (fst st + cleanup_interval pl c, snd (cleanup_run pl en c (fst st) (snd st)))
      | ConfigChanged now c \<Rightarrow> (now + cleanup_interval pl c, snd st))"

subsection \<open>Valid configurations\<close>

lemma NormalizeLogLevel_idem: "NormalizeLogLevel s = Some l \<Longrightarrow> NormalizeLogLevel l = Some l"
proof -
  assume "NormalizeLogLevel s = Some l"
  then have "l \<in> {''debug'', ''info'', ''warn'', ''error''}" by (auto simp: NormalizeLogLevel_def Let_def split: if_splits)
  moreover have "\<forall>x \<in> {''debug'', ''info'', ''warn'', ''error''}. NormalizeLogLevel x = Some x" by code_simp
  ultimately show ?thesis by blast
qed

lemma NormalizeLogFormat_idem: "NormalizeLogFormat s = Some l \<Longrightarrow> NormalizeLogFormat l = Some l"
proof -
  assume "NormalizeLogFormat s = Some l"
  then have "l \<in> {''text'', ''simple'', ''json''}" by (auto simp: NormalizeLogFormat_def Let_def split: if_splits)
  moreover have "\<forall>x \<in> {''text'', ''simple'', ''json''}. NormalizeLogFormat x = Some x" by code_simp
  ultimately show ?thesis by blast
qed

text \<open>The parts of a configuration, each checked alone.\<close>

definition storage_ok :: "platform \<Rightarrow> runtime_storage \<Rightarrow> bool" where
  "storage_ok pl s \<longleftrightarrow> check_durations pl s = Inr ()"

definition scheduler_ok :: "platform \<Rightarrow> runtime_scheduler \<Rightarrow> bool" where
  "scheduler_ok pl s \<longleftrightarrow> 1 \<le> rc_max_concurrency s \<and> 100 \<le> rc_poll_milliseconds s \<and>
     (pl_location pl (rc_timezone s) \<or> rc_timezone s = ''Local'')"

definition logging_becomes :: "runtime_logging \<Rightarrow> runtime_logging \<Rightarrow> bool" where
  "logging_becomes l l' \<longleftrightarrow> NormalizeLogLevel (rl_level l) = Some (rl_level l') \<and>
     NormalizeLogFormat (rl_format l) = Some (rl_format l') \<and>
     (cl_enabled (rl_console l) \<or> rf_enabled (rl_file l)) \<and>
     l' = l\<lparr>rl_level := rl_level l', rl_format := rl_format l'\<rparr>"

definition plugins_become :: "runtime_plugins \<Rightarrow> runtime_plugins \<Rightarrow> bool" where
  "plugins_become p p' \<longleftrightarrow> NormalizeLogLevel (rp_log_level p) = Some (rp_log_level p') \<and>
     NormalizeLogFormat (rp_log_format p) = Some (rp_log_format p')"

lemma normalize_logs_Inr:
  "normalize_logs c = Inr c' \<longleftrightarrow> logging_becomes (rt_logging c) (rt_logging c') \<and>
     plugins_become (rt_plugins c) (rt_plugins c') \<and>
     c' = c\<lparr>rt_logging := rt_logging c', rt_plugins := rt_plugins c'\<rparr>"
proof (cases c; cases c')
  fix s k l p a b s' k' l' p' a' b'
  assume "c = \<lparr>rt_storage = s, rt_scheduler = k, rt_logging = l, rt_plugins = p, rt_auth = a, rt_mcp = b\<rparr>"
    "c' = \<lparr>rt_storage = s', rt_scheduler = k', rt_logging = l', rt_plugins = p', rt_auth = a', rt_mcp = b'\<rparr>"
  then show ?thesis
    by (cases l; cases l'; cases p'; auto simp: normalize_logs_def Let_def ok_then_Inr logging_becomes_def plugins_become_def
        split: if_splits)
qed

lemma Validate_Inr:
  "Validate pl c = Inr c' \<longleftrightarrow> storage_ok pl (rt_storage c) \<and> scheduler_ok pl (rt_scheduler c) \<and>
     (\<exists>d. ParseDuration (ac_session_ttl (rt_auth c)) = Some d) \<and> logging_becomes (rt_logging c) (rt_logging c') \<and>
     plugins_become (rt_plugins c) (rt_plugins c') \<and>
     c' = c\<lparr>rt_logging := rt_logging c', rt_plugins := rt_plugins c'\<rparr>"
  unfolding Validate_def Let_def ok_then_Inr storage_ok_def scheduler_ok_def normalize_logs_Inr [symmetric]
  by (auto simp: ok_then_Inr)

lemma logging_becomes_idem: "logging_becomes l l' \<Longrightarrow> logging_becomes l' l'"
  by (cases l; cases l') (auto simp: logging_becomes_def intro: NormalizeLogLevel_idem NormalizeLogFormat_idem)

lemma plugins_become_idem: "plugins_become p p' \<Longrightarrow> plugins_become p' p'"
  by (auto simp: plugins_become_def intro: NormalizeLogLevel_idem NormalizeLogFormat_idem)

lemma Validate_idem: "Validate pl c = Inr c' \<Longrightarrow> Validate pl c' = Inr c'"
  by (cases c; cases c') (auto simp: Validate_Inr intro: logging_becomes_idem plugins_become_idem)

lemma Validate_clear_key: "Validate pl c = Inr c' \<Longrightarrow> Validate pl (clear_key c) = Inr (clear_key c')"
  by (cases c; cases c') (auto simp: Validate_Inr clear_key_def)

subsection \<open>Loading the rows\<close>

text \<open>What a row says of its section, read on its own.\<close>

definition decodes :: "string \<Rightarrow> val \<Rightarrow> runtime_config \<Rightarrow> bool" where
  "decodes t v c \<longleftrightarrow>
     (if t = SystemConfigStorage then decode_struct decode_storage v (rt_storage zero_runtime_config) = Some (rt_storage c)
      else if t = SystemConfigScheduler
        then decode_struct decode_scheduler v (rt_scheduler zero_runtime_config) = Some (rt_scheduler c)
      else if t = SystemConfigLogging then decode_struct decode_logging v (rt_logging zero_runtime_config) = Some (rt_logging c)
      else if t = SystemConfigPlugins then decode_struct decode_plugins v (rt_plugins zero_runtime_config) = Some (rt_plugins c)
      else if t = system_auth then decode_struct decode_runtime_auth v (rt_auth zero_runtime_config) = Some (rt_auth c)
      else t = SystemConfigMCP \<and> decode_struct decode_mcp v (rt_mcp zero_runtime_config) = Some (rt_mcp c))"

text \<open>The part of a configuration that belongs to a type.\<close>

definition same_section :: "string \<Rightarrow> runtime_config \<Rightarrow> runtime_config \<Rightarrow> bool" where
  "same_section t a b \<longleftrightarrow>
     (if t = SystemConfigStorage then rt_storage a = rt_storage b
      else if t = SystemConfigScheduler then rt_scheduler a = rt_scheduler b
      else if t = SystemConfigLogging then rt_logging a = rt_logging b
      else if t = SystemConfigPlugins then rt_plugins a = rt_plugins b
      else if t = system_auth then rt_auth a = rt_auth b
      else t = SystemConfigMCP \<and> rt_mcp a = rt_mcp b)"

lemma types_distinct [simp]:
  "SystemConfigStorage \<noteq> SystemConfigScheduler" "SystemConfigStorage \<noteq> SystemConfigLogging" "SystemConfigStorage \<noteq> SystemConfigPlugins" "SystemConfigStorage \<noteq> system_auth" "SystemConfigStorage \<noteq> SystemConfigMCP"
  "SystemConfigScheduler \<noteq> SystemConfigStorage" "SystemConfigScheduler \<noteq> SystemConfigLogging" "SystemConfigScheduler \<noteq> SystemConfigPlugins" "SystemConfigScheduler \<noteq> system_auth" "SystemConfigScheduler \<noteq> SystemConfigMCP"
  "SystemConfigLogging \<noteq> SystemConfigStorage" "SystemConfigLogging \<noteq> SystemConfigScheduler" "SystemConfigLogging \<noteq> SystemConfigPlugins" "SystemConfigLogging \<noteq> system_auth" "SystemConfigLogging \<noteq> SystemConfigMCP"
  "SystemConfigPlugins \<noteq> SystemConfigStorage" "SystemConfigPlugins \<noteq> SystemConfigScheduler" "SystemConfigPlugins \<noteq> SystemConfigLogging" "SystemConfigPlugins \<noteq> system_auth" "SystemConfigPlugins \<noteq> SystemConfigMCP"
  "system_auth \<noteq> SystemConfigStorage" "system_auth \<noteq> SystemConfigScheduler" "system_auth \<noteq> SystemConfigLogging" "system_auth \<noteq> SystemConfigPlugins" "system_auth \<noteq> SystemConfigMCP"
  "SystemConfigMCP \<noteq> SystemConfigStorage" "SystemConfigMCP \<noteq> SystemConfigScheduler" "SystemConfigMCP \<noteq> SystemConfigLogging" "SystemConfigMCP \<noteq> SystemConfigPlugins" "SystemConfigMCP \<noteq> system_auth"
  by (simp_all add: config_types)

lemma in_managedTypes: "t \<in> set managedTypes \<longleftrightarrow>
   t = SystemConfigStorage \<or> t = SystemConfigScheduler \<or> t = SystemConfigLogging \<or> t = SystemConfigPlugins \<or>
   t = system_auth \<or> t = SystemConfigMCP"
  by (simp add: managedTypes_def)

lemma distinct_managedTypes: "distinct managedTypes"
  by (simp add: managedTypes_def)

lemma same_sections: "(\<forall>t \<in> set managedTypes. same_section t a b) \<longleftrightarrow> a = b"
  by (cases a; cases b) (auto simp: managedTypes_def same_section_def)

lemma same_section_sym: "same_section t a b \<Longrightarrow> same_section t b a"
  by (simp add: same_section_def split: if_split_asm)

lemma same_section_trans: "same_section t a b \<Longrightarrow> same_section t b c \<Longrightarrow> same_section t a c"
  by (simp add: same_section_def split: if_split_asm)

lemma same_section_refl [simp]: "t \<in> set managedTypes \<Longrightarrow> same_section t a a"
  by (auto simp: in_managedTypes same_section_def)

lemma decodes_cong: "same_section t a b \<Longrightarrow> decodes t v a \<longleftrightarrow> decodes t v b"
  by (simp add: decodes_def same_section_def split: if_split_asm)

lemma decodes_unique: "decodes t v a \<Longrightarrow> decodes t v b \<Longrightarrow> same_section t a b"
  by (simp add: decodes_def same_section_def split: if_split_asm)

text \<open>Decoding changes the section of its type only.\<close>

lemma decodeDomain_cases:
  assumes "decodeDomain (Some v) t c = Some c'"
  obtains (storage) s where "t = SystemConfigStorage" "c' = c\<lparr>rt_storage := s\<rparr>" "decode_struct decode_storage v (rt_storage c) = Some s"
  | (scheduler) s where "t = SystemConfigScheduler" "c' = c\<lparr>rt_scheduler := s\<rparr>" "decode_struct decode_scheduler v (rt_scheduler c) = Some s"
  | (logging) s where "t = SystemConfigLogging" "c' = c\<lparr>rt_logging := s\<rparr>" "decode_struct decode_logging v (rt_logging c) = Some s"
  | (plugins) s where "t = SystemConfigPlugins" "c' = c\<lparr>rt_plugins := s\<rparr>" "decode_struct decode_plugins v (rt_plugins c) = Some s"
  | (auth) s where "t = system_auth" "c' = c\<lparr>rt_auth := s\<rparr>" "decode_struct decode_runtime_auth v (rt_auth c) = Some s"
  | (mcp) s where "t = SystemConfigMCP" "c' = c\<lparr>rt_mcp := s\<rparr>" "decode_struct decode_mcp v (rt_mcp c) = Some s"
  using assms that
  by (auto simp: decodeDomain_def decode_in_def split: if_split_asm option.split_asm)

lemma decodeDomain_other:
  assumes "decodeDomain (Some v) t c = Some c'" and "t' \<in> set managedTypes" and "t' \<noteq> t"
  shows "same_section t' c' c"
  using assms(1)
  by (cases rule: decodeDomain_cases; use assms(2,3) in \<open>simp add: same_section_def in_managedTypes; elim disjE; simp\<close>)

lemma decodeDomain_type: "decodeDomain (Some v) t c = Some c' \<Longrightarrow> t \<in> set managedTypes"
  by (cases rule: decodeDomain_cases) (auto simp: in_managedTypes)

text \<open>Onto a section that is still zero, the result is what the row says on its own.\<close>

lemma decodeDomain_decodes:
  assumes "decodeDomain (Some v) t c = Some c'" and "same_section t c zero_runtime_config"
  shows "decodes t v c'"
  using assms(1)
  by (cases rule: decodeDomain_cases; use assms(2) in \<open>simp add: same_section_def decodes_def\<close>)

lemma decodes_decodeDomain:
  assumes "decodes t v a" and "same_section t c zero_runtime_config"
  shows "\<exists>c'. decodeDomain (Some v) t c = Some c' \<and> decodes t v c'"
  using assms by (simp add: decodeDomain_def decode_in_def same_section_def decodes_def split: if_split_asm)

lemma load_types_Inr:
  assumes "load_types en db ts cv = Inr (c, vs)" and "distinct ts" and "set ts \<subseteq> set managedTypes"
    and "\<forall>t \<in> set ts. same_section t (fst cv) zero_runtime_config"
  shows "(\<forall>t \<in> set ts. \<exists>row. GetSystemConfig en t db = Inr row \<and> decodes t (sc_data row) c \<and> get vs t = Some (sc_version row)) \<and>
    (\<forall>t \<in> set managedTypes - set ts. same_section t c (fst cv)) \<and> (\<forall>t. t \<notin> set ts \<longrightarrow> get vs t = get (snd cv) t)"
  using assms
proof (induction ts arbitrary: cv)
  case Nil
  then show ?case by auto
next
  case (Cons t ts)
  obtain row d where r: "GetSystemConfig en t db = Inr row" "decodeDomain (Some (sc_data row)) t (fst cv) = Some d"
    "load_types en db ts (d, put t (sc_version row) (snd cv)) = Inr (c, vs)"
    using Cons.prems(1) by (auto split: sum.splits option.splits)
  have other: "same_section t' d (fst cv)" if "t' \<in> set managedTypes" "t' \<noteq> t" for t'
    by (rule decodeDomain_other [OF r(2) that])
  have "\<forall>t' \<in> set ts. same_section t' d zero_runtime_config"
  proof
    fix t' assume t': "t' \<in> set ts"
    with Cons.prems(2,3) have "t' \<noteq> t" "t' \<in> set managedTypes" by auto
    with other Cons.prems(4) t' show "same_section t' d zero_runtime_config" by (auto intro: same_section_trans)
  qed
  with Cons.IH [OF r(3)] Cons.prems(2,3) have IH:
    "\<forall>t \<in> set ts. \<exists>row. GetSystemConfig en t db = Inr row \<and> decodes t (sc_data row) c \<and> get vs t = Some (sc_version row)"
    "\<forall>t \<in> set managedTypes - set ts. same_section t c d"
    "\<forall>t'. t' \<notin> set ts \<longrightarrow> get vs t' = get (put t (sc_version row) (snd cv)) t'" by simp_all
  have "decodes t (sc_data row) d" by (rule decodeDomain_decodes [OF r(2)]) (use Cons.prems(4) in simp)
  moreover have "t \<in> set managedTypes" "t \<notin> set ts" using Cons.prems(2,3) by auto
  ultimately have "decodes t (sc_data row) c" "get vs t = Some (sc_version row)"
    using IH(2,3) decodes_cong [of t c d] by auto
  moreover have "same_section t' c (fst cv)" if "t' \<in> set managedTypes - set (t # ts)" for t'
    using IH(2) other that by (auto intro: same_section_trans)
  ultimately show ?case using IH(1,3) r(1) by auto
qed

lemma load_types_ok:
  assumes "\<forall>t \<in> set ts. \<exists>row. GetSystemConfig en t db = Inr row \<and> decodes t (sc_data row) a"
    and "distinct ts" and "set ts \<subseteq> set managedTypes" and "\<forall>t \<in> set ts. same_section t (fst cv) zero_runtime_config"
  shows "\<exists>c vs. load_types en db ts cv = Inr (c, vs)"
  using assms
proof (induction ts arbitrary: cv)
  case Nil
  then show ?case by (cases cv) simp
next
  case (Cons t ts)
  obtain row where r: "GetSystemConfig en t db = Inr row" "decodes t (sc_data row) a" using Cons.prems(1) by auto
  obtain d where d: "decodeDomain (Some (sc_data row)) t (fst cv) = Some d"
    using decodes_decodeDomain [OF r(2)] Cons.prems(4) by auto
  have "\<forall>t' \<in> set ts. same_section t' d zero_runtime_config"
  proof
    fix t' assume t': "t' \<in> set ts"
    with Cons.prems(2,3) have "same_section t' d (fst cv)" by (intro decodeDomain_other [OF d]) auto
    with Cons.prems(4) t' show "same_section t' d zero_runtime_config" by (auto intro: same_section_trans)
  qed
  with Cons.IH [of "(d, put t (sc_version row) (snd cv))"] Cons.prems r d show ?case by simp
qed

text \<open>The rows of the store, loaded from the beginning, say \<open>c\<close>.\<close>

definition rows_say :: "engine \<Rightarrow> db \<Rightarrow> runtime_config \<Rightarrow> int go_map \<Rightarrow> bool" where
  "rows_say en db c vs \<longleftrightarrow> (\<forall>t \<in> set managedTypes. \<exists>row.
     GetSystemConfig en t db = Inr row \<and> decodes t (sc_data row) c \<and> get vs t = Some (sc_version row))"

lemma load_rows:
  assumes "load_types en db managedTypes (zero_runtime_config, []) = Inr (c, vs)"
  shows "rows_say en db c vs"
  using load_types_Inr [OF assms distinct_managedTypes] by (simp add: rows_say_def)

lemma rows_load:
  assumes "rows_say en db c vs"
  shows "\<exists>vs'. load_types en db managedTypes (zero_runtime_config, []) = Inr (c, vs') \<and>
    (\<forall>t \<in> set managedTypes. get vs' t = get vs t)"
proof -
  obtain c' vs' where l: "load_types en db managedTypes (zero_runtime_config, []) = Inr (c', vs')"
    using load_types_ok [OF _ distinct_managedTypes, of en db c "(zero_runtime_config, [])"] assms
    by (fastforce simp: rows_say_def)
  have r: "rows_say en db c' vs'" by (rule load_rows [OF l])
  have "same_section t c c' \<and> get vs' t = get vs t" if "t \<in> set managedTypes" for t
    using assms r that decodes_unique by (fastforce simp: rows_say_def)
  with l same_sections [of c c'] show ?thesis by auto
qed

subsection \<open>Validation, section by section\<close>

definition section_becomes :: "platform \<Rightarrow> string \<Rightarrow> runtime_config \<Rightarrow> runtime_config \<Rightarrow> bool" where
  "section_becomes pl t a b \<longleftrightarrow>
     (if t = SystemConfigStorage then storage_ok pl (rt_storage a) \<and> rt_storage b = rt_storage a
      else if t = SystemConfigScheduler then scheduler_ok pl (rt_scheduler a) \<and> rt_scheduler b = rt_scheduler a
      else if t = SystemConfigLogging then logging_becomes (rt_logging a) (rt_logging b)
      else if t = SystemConfigPlugins then plugins_become (rt_plugins a) (rt_plugins b)
      else if t = system_auth
        then (\<exists>d. ParseDuration (ac_session_ttl (rt_auth a)) = Some d) \<and> rt_auth b = rt_auth a
      else rt_mcp b = rt_mcp a)"

lemma Validate_sections: "Validate pl a = Inr b \<longleftrightarrow> (\<forall>t \<in> set managedTypes. section_becomes pl t a b)"
  by (cases a; cases b) (auto simp: Validate_Inr section_becomes_def managedTypes_def)

lemma section_becomes_cong:
  "same_section t a a' \<Longrightarrow> same_section t b b' \<Longrightarrow> section_becomes pl t a b \<longleftrightarrow> section_becomes pl t a' b'"
  by (simp add: section_becomes_def same_section_def split: if_split_asm)

lemma logging_becomes_fixed:
  assumes "logging_becomes k l" and "logging_becomes l l'"
  shows "l' = l"
proof -
  have "rl_level l' = rl_level l" "rl_format l' = rl_format l"
    using assms NormalizeLogLevel_idem [of "rl_level k"] NormalizeLogFormat_idem [of "rl_format k"]
    by (simp_all add: logging_becomes_def)
  moreover have "l' = l\<lparr>rl_level := rl_level l', rl_format := rl_format l'\<rparr>"
    using assms(2) by (simp only: logging_becomes_def)
  ultimately show ?thesis by (metis runtime_logging.surjective runtime_logging.update_convs(1,2))
qed

lemma plugins_become_fixed:
  assumes "plugins_become k p" and "plugins_become p p'"
  shows "p' = p"
proof -
  have "rp_log_level p' = rp_log_level p" "rp_log_format p' = rp_log_format p"
    using assms NormalizeLogLevel_idem [of "rp_log_level k"] NormalizeLogFormat_idem [of "rp_log_format k"]
    by (simp_all add: plugins_become_def)
  then show ?thesis by simp
qed

lemma section_becomes_fixed:
  "section_becomes pl t k a \<Longrightarrow> section_becomes pl t a b \<Longrightarrow> t \<in> set managedTypes \<Longrightarrow> same_section t b a"
  by (auto simp: section_becomes_def same_section_def in_managedTypes split: if_split_asm
      dest: logging_becomes_fixed plugins_become_fixed)

lemma section_becomes_idem: "section_becomes pl t a b \<Longrightarrow> section_becomes pl t b b"
  by (auto simp: section_becomes_def split: if_split_asm intro: logging_becomes_idem plugins_become_idem)

definition with_section :: "string \<Rightarrow> runtime_config \<Rightarrow> runtime_config \<Rightarrow> runtime_config" where
  "with_section t a b =
     (if t = SystemConfigStorage then b\<lparr>rt_storage := rt_storage a\<rparr>
      else if t = SystemConfigScheduler then b\<lparr>rt_scheduler := rt_scheduler a\<rparr>
      else if t = SystemConfigLogging then b\<lparr>rt_logging := rt_logging a\<rparr>
      else if t = SystemConfigPlugins then b\<lparr>rt_plugins := rt_plugins a\<rparr>
      else if t = system_auth then b\<lparr>rt_auth := rt_auth a\<rparr>
      else b\<lparr>rt_mcp := rt_mcp a\<rparr>)"

lemma with_section_same: "t \<in> set managedTypes \<Longrightarrow> same_section t (with_section t a b) a"
  by (auto simp: same_section_def with_section_def in_managedTypes)

lemma with_section_other:
  "t \<in> set managedTypes \<Longrightarrow> t' \<in> set managedTypes \<Longrightarrow> t' \<noteq> t \<Longrightarrow> same_section t' (with_section t a b) b"
  by (auto simp: same_section_def with_section_def in_managedTypes)

lemma clear_key_section: "t \<in> set managedTypes \<Longrightarrow> t \<noteq> system_auth \<Longrightarrow> same_section t (clear_key c) c"
  by (auto simp: same_section_def clear_key_def in_managedTypes)

subsection \<open>Encoding\<close>

definition int64_config :: "runtime_config \<Rightarrow> bool" where
  "int64_config c \<longleftrightarrow> - (2 ^ 63) \<le> rc_max_concurrency (rt_scheduler c) \<and> rc_max_concurrency (rt_scheduler c) < 2 ^ 63 \<and>
     - (2 ^ 63) \<le> rc_poll_milliseconds (rt_scheduler c) \<and> rc_poll_milliseconds (rt_scheduler c) < 2 ^ 63"

lemma lower_names [simp]:
  "to_lower ''retention'' = ''retention''" "to_lower ''notification_retention'' = ''notification_retention''"
  "to_lower ''cleanup_interval'' = ''cleanup_interval''" "to_lower ''timezone'' = ''timezone''"
  "to_lower ''max_concurrency'' = ''max_concurrency''" "to_lower ''poll_milliseconds'' = ''poll_milliseconds''"
  "to_lower ''level'' = ''level''" "to_lower ''format'' = ''format''" "to_lower ''add_source'' = ''add_source''"
  "to_lower ''console'' = ''console''" "to_lower ''file'' = ''file''" "to_lower ''enabled'' = ''enabled''"
  "to_lower ''access'' = ''access''" "to_lower ''log_level'' = ''log_level''" "to_lower ''log_format'' = ''log_format''"
  "to_lower ''session_ttl'' = ''session_ttl''" "to_lower ''admin_key_hash'' = ''admin_key_hash''"
  by code_simp+

lemmas decode_simps = decode_struct_def decode_str_def decode_bool_def decode_int_def json_int_def decode_in_def

lemma encode_decodes:
  assumes "int64_config c" and "t \<in> set managedTypes"
  shows "decodes t (domain c t) c"
proof -
  have "decode_struct decode_storage (encode_storage s) z = Some s" for s z
    by (cases s; cases z) (simp add: decode_storage_def encode_storage_def decode_simps)
  moreover have "decode_struct decode_scheduler (encode_scheduler (rt_scheduler c)) z = Some (rt_scheduler c)" for z
    using assms(1) by (cases "rt_scheduler c"; cases z) (simp add: decode_scheduler_def encode_scheduler_def decode_simps int64_config_def)
  moreover have "decode_struct decode_logging (encode_logging l) z = Some l" for l z
    by (cases l; cases z; cases "rl_console l"; cases "rl_file l")
      (simp add: decode_logging_def encode_logging_def decode_simps)
  moreover have "decode_struct decode_plugins (encode_plugins p) z = Some p" for p z
    by (cases p; cases z) (simp add: decode_plugins_def encode_plugins_def decode_simps)
  moreover have "decode_struct decode_runtime_auth (encode_runtime_auth a) zero_auth_config = Some a" for a
    by (cases a) (simp add: decode_runtime_auth_def encode_runtime_auth_def decode_simps zero_auth_config_def)
  moreover have "decode_struct decode_mcp (encode_mcp x) z = Some x" for x z
    by (cases x; cases z) (simp add: decode_mcp_def encode_mcp_def decode_simps)
  ultimately show ?thesis
    using assms(2) by (auto simp: decodes_def domain_def in_managedTypes zero_runtime_config_def)
qed

lemma encode_auth_decodes: "decodes system_auth (encode_auth a) (c\<lparr>rt_auth := a\<rparr>)"
  by (cases a) (simp add: decodes_def decode_runtime_auth_def encode_auth_def decode_simps zero_runtime_config_def zero_auth_config_def)

lemma decode_encode_runtime_auth: "decode_auth (encode_runtime_auth a) = Some a"
  by (cases a) (simp add: decode_auth_def encode_runtime_auth_def str_member_def)

subsection \<open>Writing the rows\<close>

definition selects_ok :: "engine \<Rightarrow> bool" where
  "selects_ok en \<longleftrightarrow> (\<forall>t. en_ok en (Select ''system_configs'' t))"

lemma GetSystemConfig_row:
  "selects_ok en \<Longrightarrow> GetSystemConfig en t db = Inr row \<longleftrightarrow> find_first (\<lambda>c. sc_type c = t) (db_configs db) = Some row"
  by (auto simp: GetSystemConfig_def selects_ok_def select_first_def split: option.splits)

lemma find_first_bump:
  "find_first (\<lambda>c. sc_type c = t') (update_rows (\<lambda>c. sc_type c = t \<and> Q c) (bump_config now w) cs) =
   (if t' = t then map_option (\<lambda>c. if Q c then bump_config now w c else c) (find_first (\<lambda>c. sc_type c = t) cs)
    else find_first (\<lambda>c. sc_type c = t') cs)"
  by (induction cs) (auto simp: update_rows_def bump_config_def)

text \<open>What is stored for the data of a section: the section \<open>auth\<close> has a key of its own.\<close>

definition stored_as :: "string \<Rightarrow> val \<Rightarrow> val \<Rightarrow> bool" where
  "stored_as t v w \<longleftrightarrow>
     (if t = system_auth then \<exists>a h. decode_auth v = Some a \<and> w = encode_auth (a\<lparr>ac_admin_key_hash := h\<rparr>) else w = v)"

lemma update_system_config_rows:
  assumes "UpdateSystemConfig en now t (Some v) n db = (Inr row, db')" and "distinct (map sc_type (db_configs db))"
    and "selects_ok en" and "t = system_auth \<Longrightarrow> decode_auth v = Some a \<and> ac_admin_key_hash a = ''''"
  shows "GetSystemConfig en t db' = Inr row" and "stored_as t v (sc_data row)"
    and "t' \<noteq> t \<Longrightarrow> GetSystemConfig en t' db' = GetSystemConfig en t' db"
    and "map sc_type (db_configs db') = map sc_type (db_configs db)"
proof -
  obtain w where w: "if t = system_auth then preserveAuthKey en v db = Inr w else w = v"
    and wr: "write_config en now t w n db = (Inr row, db')"
    using assms(1) by (auto simp: UpdateSystemConfig_def split: if_splits sum.splits)
  note i = write_config_Inr [OF wr]
  show g: "GetSystemConfig en t db' = Inr row" using i by blast
  obtain r where r: "r \<in> set (db_configs db)" "sc_type r = t" "sc_version r = n"
    using i rows_affected_pos [of en "\<lambda>c. sc_type c = t \<and> sc_version c = n" "bump_config now w" "db_configs db"] by auto
  have f: "find_first (\<lambda>c. sc_type c = t) (db_configs db) = Some r" by (rule unique_config [OF assms(2) r(1,2)])
  have "find_first (\<lambda>c. sc_type c = t) (db_configs db') = Some (bump_config now w r)"
    using i r(3) f by (simp add: find_first_bump)
  with g assms(3) have "sc_data row = w" by (auto simp: GetSystemConfig_row bump_config_def)
  moreover have "stored_as t v w"
  proof (cases "t = system_auth")
    case True
    with w have "preserveAuthKey en v db = Inr w" by simp
    moreover have "GetSystemConfig en system_auth db = Inr r" using f assms(3) True by (simp add: GetSystemConfig_row)
    ultimately show ?thesis
      using assms(4) [OF True] True by (auto simp: preserveAuthKey_def stored_as_def split: option.splits)
  qed (use w in \<open>simp add: stored_as_def\<close>)
  ultimately show "stored_as t v (sc_data row)" by simp
  show "t' \<noteq> t \<Longrightarrow> GetSystemConfig en t' db' = GetSystemConfig en t' db"
    using i by (auto simp: GetSystemConfig_def select_first_def find_first_bump)
  show "map sc_type (db_configs db') = map sc_type (db_configs db)"
    using i by (auto simp: map_key_update_rows bump_config_def)
qed

text \<open>An update that fails has written nothing, as long as rows can be read.\<close>

lemma update_system_config_fails:
  assumes "UpdateSystemConfig en now t (Some v) n db = (Inl e, db')" and "selects_ok en"
  shows "db' = db"
proof -
  have "db1 = db" if "write_config en now t w n db = (Inl e, db1)" for w db1
  proof (rule ccontr)
    assume "db1 \<noteq> db"
    with that have a: "rows_affected en (\<lambda>c. sc_type c = t \<and> sc_version c = n) (bump_config now w) (db_configs db) \<noteq> 0"
      and d: "db1 = db\<lparr>db_configs := update_rows (\<lambda>c. sc_type c = t \<and> sc_version c = n) (bump_config now w) (db_configs db)\<rparr>"
      and g: "GetSystemConfig en t db1 = Inl e"
      by (auto simp: write_config_def Let_def split: if_splits)
    from a obtain r where r: "r \<in> set (db_configs db)" "sc_type r = t"
      using rows_affected_pos [of en "\<lambda>c. sc_type c = t \<and> sc_version c = n" "bump_config now w" "db_configs db"] by auto
    then have "find_first (\<lambda>c. sc_type c = t) (db_configs db) \<noteq> None"
      by (auto simp: find_first_None)
    then have "find_first (\<lambda>c. sc_type c = t) (db_configs db1) \<noteq> None" by (simp add: d find_first_bump)
    with assms(2) g show False by (auto simp: GetSystemConfig_def selects_ok_def select_first_def run_def)
  qed
  with assms(1) show ?thesis by (auto simp: UpdateSystemConfig_def split: if_splits sum.splits)
qed

lemma import_section_rows:
  assumes "import_section en now k (t, Some v) (vs, db) = Inr (vs', db')" and "selects_ok en"
  shows "\<exists>row. GetSystemConfig en t db' = Inr row \<and> stored_as t v (sc_data row) \<and> vs' = put t (sc_version row) vs"
    and "t' \<noteq> t \<Longrightarrow> GetSystemConfig en t' db' = GetSystemConfig en t' db"
    and "map sc_type (db_configs db') = map sc_type (db_configs db)"
proof -
  obtain w row where w: "import_data en k t v db = Inr w"
    and d: "db' = db\<lparr>db_configs := update_rows (\<lambda>c. sc_type c = t) (bump_config now w) (db_configs db)\<rparr>"
    and g: "GetSystemConfig en t db' = Inr row" "vs' = put t (sc_version row) vs"
    using assms(1) by (auto simp: import_section_def Let_def ok_then_Inr split: if_splits)
  have u: "update_rows (\<lambda>c. sc_type c = t) f cs = update_rows (\<lambda>c. sc_type c = t \<and> True) f cs" for f and cs :: "system_config list"
    by simp
  have "sc_data row = w"
    using g(1) assms(2) find_first_bump [of t t "\<lambda>_. True" now w "db_configs db"]
    by (cases "find_first (\<lambda>c. sc_type c = t) (db_configs db)") (auto simp: GetSystemConfig_row d bump_config_def)
  moreover have "stored_as t v w" using w
    by (auto simp: import_data_def stored_as_def ok_then_Inr split: if_splits option.splits)
  ultimately show "\<exists>row. GetSystemConfig en t db' = Inr row \<and> stored_as t v (sc_data row) \<and> vs' = put t (sc_version row) vs"
    using g by auto
  show "t' \<noteq> t \<Longrightarrow> GetSystemConfig en t' db' = GetSystemConfig en t' db"
    using find_first_bump [of t' t "\<lambda>_. True" now w "db_configs db"]
    by (simp add: d GetSystemConfig_def select_first_def)
  show "map sc_type (db_configs db') = map sc_type (db_configs db)"
    by (simp add: d map_key_update_rows bump_config_def)
qed

lemma import_runtime_rows:
  assumes "each (import_section en now k) (map (\<lambda>(t, v). (t, Some v)) ss) (vs, db) = Inr (vs', db')"
    and "selects_ok en" and "distinct (map fst ss)"
  shows "(\<forall>(t, v) \<in> set ss. \<exists>row. GetSystemConfig en t db' = Inr row \<and> stored_as t v (sc_data row) \<and>
      get vs' t = Some (sc_version row)) \<and>
    (\<forall>t. t \<notin> fst ` set ss \<longrightarrow> GetSystemConfig en t db' = GetSystemConfig en t db \<and> get vs' t = get vs t) \<and>
    map sc_type (db_configs db') = map sc_type (db_configs db)"
  using assms(1,3)
proof (induction ss arbitrary: vs db)
  case (Cons s ss)
  obtain t v where s: "s = (t, v)" by (cases s)
  obtain vs1 db1 where i: "import_section en now k (t, Some v) (vs, db) = Inr (vs1, db1)"
    "each (import_section en now k) (map (\<lambda>(t, v). (t, Some v)) ss) (vs1, db1) = Inr (vs', db')"
    using Cons.prems(1) by (auto simp: s ok_then_Inr)
  note row = import_section_rows [OF i(1) assms(2)]
  from Cons.IH [OF i(2)] Cons.prems(2) have IH:
    "\<forall>(t, v) \<in> set ss. \<exists>row. GetSystemConfig en t db' = Inr row \<and> stored_as t v (sc_data row) \<and> get vs' t = Some (sc_version row)"
    "\<forall>t. t \<notin> fst ` set ss \<longrightarrow> GetSystemConfig en t db' = GetSystemConfig en t db1 \<and> get vs' t = get vs1 t"
    "map sc_type (db_configs db') = map sc_type (db_configs db1)" by simp_all
  have "t \<notin> fst ` set ss" using Cons.prems(2) by (auto simp: s)
  with IH(2) row(1) have "\<exists>row. GetSystemConfig en t db' = Inr row \<and> stored_as t v (sc_data row) \<and> get vs' t = Some (sc_version row)"
    by auto
  moreover have "GetSystemConfig en t' db' = GetSystemConfig en t' db \<and> get vs' t' = get vs t'" if "t' \<notin> fst ` set (s # ss)" for t'
    using that IH(2) row(1) row(2) [of t'] by (auto simp: s)
  ultimately show ?case using IH(1,3) row(3) by (simp add: s)
qed simp

lemma config_frames:
  "b = a\<lparr>db_channels := cs\<rparr> \<Longrightarrow> db_configs b = db_configs a"
  "b = a\<lparr>db_monitors := ms\<rparr> \<Longrightarrow> db_configs b = db_configs a"
  "b = a\<lparr>db_items := is\<rparr> \<Longrightarrow> db_configs b = db_configs a"
  "b = a\<lparr>db_shares := ss\<rparr> \<Longrightarrow> db_configs b = db_configs a"
  by simp_all

lemma import_configs:
  assumes "ImportConfiguration en now input db = Inr (vs, db')"
  obtains db1 where "importRuntimeConfigTx en now (im_runtime input) (im_admin_key_hash input) db = Inr (vs, db1)"
    "db_configs db' = db_configs db1"
proof -
  obtain db1 db2 db3 db4 db5 db6 where
    r: "importRuntimeConfigTx en now (im_runtime input) (im_admin_key_hash input) db = Inr (vs, db1)" and
    c: "(if im_replace input then clearTransferableConfigurationTx en (im_monitors input) (im_channels input) db1
         else Inr db1) = Inr db2" and
    u: "each (upsertNotificationChannelTx en) (import_channels (im_channels input)) db2 = Inr db3"
      "each (upsertMonitorTx en) (im_monitors input) db3 = Inr db4"
      "each (upsertStatusBoardItemTx en) (im_items input) db4 = Inr db5"
      "each (upsertStatusBoardShareTx en) (im_shares input) db5 = Inr db6" and
    d: "db' = (if im_admin_key_hash input = [] then db6 else db6\<lparr>db_sessions := []\<rparr>)"
    using assms unfolding ImportConfiguration_def import_body_def
    by (cases "im_admin_key_hash input = []"; cases "im_replace input"; simp add: ok_then_Inr delete_table_Inr; blast)
  have "db_configs db2 = db_configs db1"
    using c by (auto simp: clearTransferableConfigurationTx_def ok_then_Inr delete_table_Inr remove_monitors_def split: if_splits)
  moreover have "db_configs db3 = db_configs db2" by (rule config_frames(1) [OF conjunct1 [OF upsert_channels [OF u(1)]]])
  moreover have "db_configs db4 = db_configs db3" by (rule config_frames(2) [OF conjunct1 [OF upsert_monitors [OF u(2)]]])
  moreover have "db_configs db5 = db_configs db4" by (rule config_frames(3) [OF conjunct1 [OF upsert_items [OF u(3)]]])
  moreover have "db_configs db6 = db_configs db5" by (rule config_frames(4) [OF conjunct1 [OF upsert_shares [OF u(4)]]])
  ultimately have "db_configs db' = db_configs db1" by (simp add: d)
  with r that show thesis by blast
qed

lemma decode_fields_keeps:
  assumes "decode_fields fs m z = Some s" and "P z"
    and "\<And>f v r r'. f \<in> snd ` set fs \<Longrightarrow> f v r = Some r' \<Longrightarrow> P r \<Longrightarrow> P r'"
  shows "P s"
  using assms(1,2)
proof (induction m arbitrary: z)
  case (Cons kv m)
  obtain k v where kv: "kv = (k, v)" by (cases kv)
  obtain f r where f: "map_of fs (to_lower k) = Some f" "f v z = Some r" "decode_fields fs m r = Some s"
    using Cons.prems(1) by (auto simp: kv split: option.splits)
  have "f \<in> snd ` set fs" using map_of_SomeD [OF f(1)] by force
  then have "P r" by (rule assms(3) [of f v z r, OF _ f(2) Cons.prems(2)])
  with Cons.IH [OF f(3)] show ?case .
qed simp

lemma json_int_bounds: "json_int v = Some i \<Longrightarrow> - (2 ^ 63) \<le> i \<and> i < 2 ^ 63"
  by (auto simp: json_int_def le_floor_iff floor_less_iff split: val.splits if_splits option.splits)

lemma decode_int64:
  assumes "decodeDomain (Some v) t c = Some c'" and "int64_config c"
  shows "int64_config c'"
  using assms(1)
proof (cases rule: decodeDomain_cases)
  case (scheduler s)
  let ?P = "\<lambda>s. - (2 ^ 63) \<le> rc_max_concurrency s \<and> rc_max_concurrency s < 2 ^ 63 \<and>
      - (2 ^ 63) \<le> rc_poll_milliseconds s \<and> rc_poll_milliseconds s < 2 ^ 63"
  have "?P s" if "decode_fields decode_scheduler m (rt_scheduler c) = Some s" for m
    using that
  proof (rule decode_fields_keeps)
    show "?P (rt_scheduler c)" using assms(2) by (simp add: int64_config_def)
    fix f v r r'
    assume "f \<in> snd ` set decode_scheduler" "f v r = Some r'" "?P r"
    then show "?P r'"
      by (auto simp: decode_scheduler_def decode_str_def decode_int_def dest!: json_int_bounds
          split: if_split_asm option.split_asm val.split_asm)
  qed
  with scheduler(2,3) assms(2) show ?thesis
    by (auto simp: int64_config_def decode_struct_def split: val.split_asm)
qed (use assms(2) in \<open>simp_all add: int64_config_def\<close>)

lemma Validate_int64: "Validate pl c = Inr c' \<Longrightarrow> int64_config c' = int64_config c"
  by (cases c; cases c') (simp add: Validate_Inr int64_config_def)

lemma clear_key_int64 [simp]: "int64_config (clear_key c) = int64_config c"
  by (simp add: int64_config_def clear_key_def)

end
