(* ===== verification/RuntimeManager.thy ===== *)
theory RuntimeManager
  imports RuntimeConfig Auth
begin

section \<open>The manager of the runtime configuration and its rows\<close>

text \<open>
  What the manager keeps in memory against what the store holds: which rows the program itself
  writes, the invariant that every operation of the manager, a change of the administrator's
  key and an import keep, and what follows from it for a restart and for the components that
  were told of each change.
\<close>

subsection \<open>The rows the program writes\<close>

text \<open>The section \<open>auth\<close> is read by the store and by the manager; both see the same.\<close>

definition auth_canonical :: "val \<Rightarrow> bool" where
  "auth_canonical v \<longleftrightarrow>
     (\<exists>a. decode_auth v = Some a \<and> decode_struct decode_runtime_auth v (rt_auth zero_runtime_config) = Some a)"

definition config_rows_ok :: "db \<Rightarrow> bool" where
  "config_rows_ok db \<longleftrightarrow> distinct (map sc_type (db_configs db)) \<and>
     (\<forall>c \<in> set (db_configs db). 1 \<le> sc_version c \<and> (sc_type c = system_auth \<longrightarrow> auth_canonical (sc_data c)))"

lemma auth_canonical_decodes:
  "auth_canonical v \<Longrightarrow> decode_auth v = Some a \<Longrightarrow> decodes system_auth v (c\<lparr>rt_auth := a\<rparr>)"
  by (auto simp: auth_canonical_def decodes_def)

lemma encode_auth_canonical [simp]: "auth_canonical (encode_auth a)"
  using encode_auth_decodes [of a] by (auto simp: auth_canonical_def decodes_def)

lemma encode_runtime_auth_canonical [simp]: "auth_canonical (encode_runtime_auth a)"
proof -
  have "decode_struct decode_runtime_auth (encode_runtime_auth a) zero_auth_config = Some a"
    by (cases a) (simp add: decode_runtime_auth_def encode_runtime_auth_def decode_simps zero_auth_config_def)
  then show ?thesis by (simp add: auth_canonical_def decode_encode_runtime_auth zero_runtime_config_def)
qed

lemma encode_runtime_auth_json [simp]: "from_json (encode_runtime_auth a) = encode_runtime_auth a"
  by (simp add: encode_runtime_auth_def)

lemma config_rows_same: "db_configs db' = db_configs db \<Longrightarrow> config_rows_ok db' = config_rows_ok db"
  by (simp add: config_rows_ok_def)

lemma config_rows_update:
  assumes "config_rows_ok db" and "\<And>c. P c \<Longrightarrow> sc_type (f c) = sc_type c \<and> sc_version c \<le> sc_version (f c)"
    and "\<And>c. P c \<Longrightarrow> sc_type c = system_auth \<Longrightarrow> auth_canonical (sc_data (f c))"
  shows "config_rows_ok (db\<lparr>db_configs := update_rows P f (db_configs db)\<rparr>)"
proof -
  have "map sc_type (update_rows P f (db_configs db)) = map sc_type (db_configs db)"
    using assms(2) by (auto simp: update_rows_def)
  moreover have "1 \<le> sc_version c' \<and> (sc_type c' = system_auth \<longrightarrow> auth_canonical (sc_data c'))"
    if c': "c' \<in> set (update_rows P f (db_configs db))" for c'
  proof -
    obtain c where c: "c \<in> set (db_configs db)" "c' = (if P c then f c else c)"
      using c' by (auto simp: update_rows_def)
    with assms(1) have "1 \<le> sc_version c" "sc_type c = system_auth \<longrightarrow> auth_canonical (sc_data c)"
      by (simp_all add: config_rows_ok_def)
    with c(2) assms(2,3) [of c] show ?thesis by auto
  qed
  ultimately show ?thesis using assms(1) by (simp add: config_rows_ok_def)
qed

lemma stored_as_canonical: "stored_as system_auth v w \<Longrightarrow> auth_canonical w"
  by (auto simp: stored_as_def)

lemma update_keeps_rows:
  assumes "UpdateSystemConfig en now t (Some v) n db = (r, db')" and "config_rows_ok db"
    and "t = system_auth \<Longrightarrow> auth_canonical v"
  shows "config_rows_ok db'"
proof -
  have w: "config_rows_ok db1"
    if "write_config en now t w n db = (r', db1)" and "t = system_auth \<Longrightarrow> auth_canonical w" for w r' db1
    using that assms(2)
    by (auto simp: write_config_def Let_def bump_config_def split: if_splits intro!: config_rows_update)
  have p: "auth_canonical w" if "preserveAuthKey en v db = Inr w" and "t = system_auth" for w
    using that assms(3) by (auto simp: preserveAuthKey_def split: option.splits if_splits sum.splits db_error.splits)
  show ?thesis
  proof (cases "t = system_auth")
    case True
    with assms(1,2) p show ?thesis
      by (auto simp: UpdateSystemConfig_def split: if_splits sum.splits intro: w)
  qed (use assms(1,2) in \<open>auto simp: UpdateSystemConfig_def split: if_splits intro: w\<close>)
qed

subsection \<open>The manager follows its rows\<close>

text \<open>The row's section, once validated and without the key, is that of the configuration.\<close>

definition row_says :: "platform \<Rightarrow> string \<Rightarrow> val \<Rightarrow> runtime_config \<Rightarrow> bool" where
  "row_says pl t v c \<longleftrightarrow> (\<exists>x y. decodes t v x \<and> section_becomes pl t x y \<and> same_section t (clear_key y) c)"

definition follows_rows :: "platform \<Rightarrow> engine \<Rightarrow> runtime_manager \<Rightarrow> db \<Rightarrow> bool" where
  "follows_rows pl en m db \<longleftrightarrow> (\<forall>t \<in> set managedTypes. \<exists>row. GetSystemConfig en t db = Inr row \<and>
     get (rm_versions m) t = Some (sc_version row) \<and> row_says pl t (sc_data row) (rm_config m))"

text \<open>The snapshot holds no key, its integers are those of a Go \<open>int\<close>.\<close>

definition manager_ok :: "platform \<Rightarrow> engine \<Rightarrow> runtime_manager \<Rightarrow> db \<Rightarrow> bool" where
  "manager_ok pl en m db \<longleftrightarrow> follows_rows pl en m db \<and> int64_config (rm_config m) \<and>
     ac_admin_key_hash (rt_auth (rm_config m)) = '''' \<and> config_rows_ok db"

lemma row_says_cong: "same_section t c c' \<Longrightarrow> row_says pl t v c = row_says pl t v c'"
  by (meson row_says_def same_section_sym same_section_trans)

lemma combine_sections:
  assumes "\<forall>t \<in> set managedTypes. \<exists>x y. P t x y"
    and "\<And>t x x' y y'. P t x y \<Longrightarrow> same_section t x x' \<Longrightarrow> same_section t y y' \<Longrightarrow> P t x' y'"
  shows "\<exists>x y. \<forall>t \<in> set managedTypes. P t x y"
proof -
  obtain f g where fg: "\<And>t. t \<in> set managedTypes \<Longrightarrow> P t (f t) (g t)" using assms(1) by metis
  define pick where "pick f = \<lparr>rt_storage = rt_storage (f SystemConfigStorage),
      rt_scheduler = rt_scheduler (f SystemConfigScheduler), rt_logging = rt_logging (f SystemConfigLogging),
      rt_plugins = rt_plugins (f SystemConfigPlugins), rt_auth = rt_auth (f system_auth),
      rt_mcp = rt_mcp (f SystemConfigMCP)\<rparr>" for f :: "string \<Rightarrow> runtime_config"
  have same: "same_section t (f t) (pick f)" if "t \<in> set managedTypes" for t and f :: "string \<Rightarrow> runtime_config"
    using that by (auto simp: in_managedTypes same_section_def pick_def)
  have "P t (pick f) (pick g)" if "t \<in> set managedTypes" for t
    by (rule assms(2) [OF fg [OF that] same [of t f, OF that] same [of t g, OF that]])
  then show ?thesis by blast
qed

lemma clear_key_same_section: "same_section t a b \<Longrightarrow> same_section t (clear_key a) (clear_key b)"
  by (simp add: same_section_def clear_key_def split: if_split_asm)

lemma follows_rows_loads:
  assumes "follows_rows pl en m db"
  obtains c0 c where "rows_say en db c0 (rm_versions m)" "Validate pl c0 = Inr c" "rm_config m = clear_key c"
proof -
  let ?P = "\<lambda>t x y. (\<exists>row. GetSystemConfig en t db = Inr row \<and> get (rm_versions m) t = Some (sc_version row) \<and>
      decodes t (sc_data row) x) \<and> section_becomes pl t x y \<and> same_section t (clear_key y) (rm_config m)"
  have "\<exists>x y. \<forall>t \<in> set managedTypes. ?P t x y"
  proof (rule combine_sections)
    show "\<forall>t \<in> set managedTypes. \<exists>x y. ?P t x y" using assms by (fastforce simp: follows_rows_def row_says_def)
    fix t x x' y y'
    assume p: "?P t x y" and s: "same_section t x x'" "same_section t y y'"
    from p decodes_cong [OF s(1)] section_becomes_cong [OF s]
    have "same_section t (clear_key y') (rm_config m)"
      using same_section_trans [OF same_section_sym [OF clear_key_same_section [OF s(2)]]] by blast
    with p decodes_cong [OF s(1)] section_becomes_cong [OF s] show "?P t x' y'" by simp
  qed
  then obtain c0 c where c: "\<forall>t \<in> set managedTypes. ?P t c0 c" by blast
  show thesis
  proof (rule that)
    show "rows_say en db c0 (rm_versions m)" using c by (auto simp: rows_say_def)
    show "Validate pl c0 = Inr c" using c by (simp add: Validate_sections)
    show "rm_config m = clear_key c" using c same_sections [of "clear_key c" "rm_config m"] by simp
  qed
qed

lemma clear_key_idem [simp]: "clear_key (clear_key c) = clear_key c"
  by (simp add: clear_key_def)

lemma clear_key_none: "ac_admin_key_hash (rt_auth c) = '''' \<Longrightarrow> clear_key c = c"
  by (cases c) (simp add: clear_key_def)

lemma follows_rows_valid:
  assumes "follows_rows pl en m db"
  shows "Validate pl (rm_config m) = Inr (rm_config m)"
proof -
  obtain c0 c where "Validate pl c0 = Inr c" "rm_config m = clear_key c"
    using assms by (rule follows_rows_loads)
  then show ?thesis by (simp only: Validate_clear_key [OF Validate_idem])
qed

lemma follows_rows_restart:
  assumes "follows_rows pl en m db"
  shows "\<exists>vs. load_config pl en db = Inr (rm_config m, vs) \<and> (\<forall>t \<in> set managedTypes. get vs t = get (rm_versions m) t)"
proof -
  obtain c0 c where c: "rows_say en db c0 (rm_versions m)" "Validate pl c0 = Inr c" "rm_config m = clear_key c"
    using assms by (rule follows_rows_loads)
  from rows_load [OF c(1)] c(2,3) show ?thesis by (auto simp: load_config_def)
qed

lemma load_config_parts:
  assumes "load_config pl en db = Inr (c, vs)"
  shows "\<exists>c0 c1. load_types en db managedTypes (zero_runtime_config, []) = Inr (c0, vs) \<and>
    Validate pl c0 = Inr c1 \<and> c = clear_key c1"
proof -
  obtain c0 vs0 where l: "load_types en db managedTypes (zero_runtime_config, []) = Inr (c0, vs0)"
    "(case Validate pl c0 of Inl e \<Rightarrow> Inl (ConfigInvalid e) | Inr c' \<Rightarrow> Inr (clear_key c', vs0)) = Inr (c, vs)"
    using assms by (auto simp: load_config_def ok_then_Inr)
  then show ?thesis by (cases "Validate pl c0") auto
qed

lemma load_follows_rows:
  assumes "load_config pl en db = Inr (rm_config m, rm_versions m)"
  shows "follows_rows pl en m db"
proof -
  obtain c0 c where c: "load_types en db managedTypes (zero_runtime_config, []) = Inr (c0, rm_versions m)"
    "Validate pl c0 = Inr c" "rm_config m = clear_key c"
    using load_config_parts [OF assms] by blast
  show ?thesis
    unfolding follows_rows_def
  proof
    fix t assume t: "t \<in> set managedTypes"
    then obtain row where row: "GetSystemConfig en t db = Inr row" "decodes t (sc_data row) c0"
      "get (rm_versions m) t = Some (sc_version row)"
      using load_rows [OF c(1)] by (auto simp: rows_say_def)
    have "row_says pl t (sc_data row) (rm_config m)"
      unfolding row_says_def by (rule exI [of _ c0], rule exI [of _ c]) (use row(2) c(2,3) t in \<open>simp add: Validate_sections\<close>)
    with row show "\<exists>row. GetSystemConfig en t db = Inr row \<and> get (rm_versions m) t = Some (sc_version row) \<and>
        row_says pl t (sc_data row) (rm_config m)" by blast
  qed
qed

lemma row_says_stored:
  assumes "Validate pl c = Inr c" and "ac_admin_key_hash (rt_auth c) = ''''" and "int64_config c"
    and "t \<in> set managedTypes" and "stored_as t (domain c t) w"
  shows "row_says pl t w c"
proof (cases "t = system_auth")
  case True
  then obtain h where w: "w = encode_auth ((rt_auth c)\<lparr>ac_admin_key_hash := h\<rparr>)"
    using assms(5) by (auto simp: stored_as_def domain_def decode_encode_runtime_auth)
  let ?x = "c\<lparr>rt_auth := (rt_auth c)\<lparr>ac_admin_key_hash := h\<rparr>\<rparr>"
  have "section_becomes pl t ?x ?x" using assms(1) True by (simp add: section_becomes_def Validate_Inr)
  moreover have "same_section t (clear_key ?x) c"
    using assms(2) True by (cases "rt_auth c") (simp add: same_section_def clear_key_def)
  ultimately show ?thesis
    using encode_auth_decodes True unfolding row_says_def w by blast
next
  case False
  then have "w = domain c t" using assms(5) by (simp add: stored_as_def)
  moreover have "section_becomes pl t c c" using assms(1,4) by (simp add: Validate_sections)
  moreover have "same_section t (clear_key c) c" using assms(4) False by (rule clear_key_section)
  ultimately show ?thesis using encode_decodes [OF assms(3,4)] unfolding row_says_def by blast
qed

subsection \<open>Every operation keeps the invariant\<close>

lemma manager_ok_cong:
  "rm_config m' = rm_config m \<Longrightarrow> rm_versions m' = rm_versions m \<Longrightarrow> manager_ok pl en m' db = manager_ok pl en m db"
  by (simp add: manager_ok_def follows_rows_def)

lemma manager_ok_db: "db_configs db' = db_configs db \<Longrightarrow> manager_ok pl en m db' = manager_ok pl en m db"
  by (simp add: manager_ok_def follows_rows_def GetSystemConfig_def config_rows_ok_def)

lemma apply_change_same:
  "rm_config (snd (apply_change ap a b m)) = rm_config m" "rm_versions (snd (apply_change ap a b m)) = rm_versions m"
  by (simp_all add: apply_change_def split: option.split)

lemma notify_same [simp]:
  "rm_config (notifyLocked m) = rm_config m" "rm_versions (notifyLocked m) = rm_versions m" "rm_live (notifyLocked m) = rm_live m"
  by (simp_all add: notifyLocked_def)

lemma Validate_keeps:
  "Validate pl c = Inr c' \<Longrightarrow> rt_auth c' = rt_auth c \<and> int64_config c' = int64_config c"
  by (cases c; cases c') (simp add: Validate_Inr int64_config_def)

lemma candidate_ok:
  assumes "manager_ok pl en m db" and "update_candidate pl t data n m = Inr c"
  shows "t \<in> set managedTypes" and "n = version_of m t" and "Validate pl c = Inr c"
    and "ac_admin_key_hash (rt_auth c) = ''''" and "int64_config c"
    and "\<And>t'. t' \<in> set managedTypes \<Longrightarrow> t' \<noteq> t \<Longrightarrow> same_section t' c (rm_config m)"
proof -
  obtain v d where d: "t \<in> set managedTypes" "n = version_of m t" "data = Some v"
    "decodeDomain (Some v) t (rm_config m) = Some d" "Validate pl d = Inr c"
    "t = system_auth \<longrightarrow> ac_admin_key_hash (rt_auth d) = ac_admin_key_hash (rt_auth (rm_config m))"
    using assms(2) by (cases data)
      (auto simp: update_candidate_def isManagedType_def decodeDomain_def split: if_split_asm option.split_asm sum.split_asm)
  note m = assms(1) [unfolded manager_ok_def]
  show "t \<in> set managedTypes" "n = version_of m t" by (fact d)+
  show "Validate pl c = Inr c" by (rule Validate_idem [OF d(5)])
  show "int64_config c" using decode_int64 [OF d(4)] m Validate_keeps [OF d(5)] by simp
  have "ac_admin_key_hash (rt_auth d) = ''''"
  proof (cases "t = system_auth")
    case False
    then have "same_section system_auth d (rm_config m)"
      by (intro decodeDomain_other [OF d(4)]) (simp_all add: in_managedTypes)
    with m show ?thesis by (simp add: same_section_def)
  qed (use d(6) m in simp)
  with Validate_keeps [OF d(5)] show "ac_admin_key_hash (rt_auth c) = ''''" by simp
  fix t' assume t': "t' \<in> set managedTypes" "t' \<noteq> t"
  have s: "same_section t' d (rm_config m)" by (rule decodeDomain_other [OF d(4) t'])
  have "section_becomes pl t' (rm_config m) (rm_config m)"
    using follows_rows_valid m t'(1) Validate_sections by blast
  then have "section_becomes pl t' d d" using section_becomes_cong [OF s s] by simp
  moreover have "section_becomes pl t' d c" using d(5) t'(1) by (simp add: Validate_sections)
  ultimately have "same_section t' c d" using t'(1) section_becomes_fixed by blast
  with s show "same_section t' c (rm_config m)" by (rule same_section_trans [rotated])
qed

lemma update_commit_ok:
  assumes "manager_ok pl en m db" and "selects_ok en" and "update_candidate pl t data n m = Inr c"
    and "UpdateSystemConfig en now t (Some (domain c t)) n db = (Inr row, db')"
    and "rm_config m' = c" and "rm_versions m' = put t (sc_version row) (rm_versions m)"
  shows "manager_ok pl en m' db'"
proof -
  note m = assms(1) [unfolded manager_ok_def]
  note c = candidate_ok [OF assms(1,3)]
  have d: "distinct (map sc_type (db_configs db))" using m by (simp add: config_rows_ok_def)
  have auth: "decode_auth (domain c t) = Some (rt_auth c) \<and> ac_admin_key_hash (rt_auth c) = ''''" if "t = system_auth"
    using that c(4) by (simp add: domain_def decode_encode_runtime_auth)
  have row: "GetSystemConfig en t db' = Inr row" "stored_as t (domain c t) (sc_data row)"
    using update_system_config_rows(1,2) [OF assms(4) d assms(2) auth] by simp_all
  have other: "GetSystemConfig en t' db' = GetSystemConfig en t' db" if "t' \<noteq> t" for t'
    using update_system_config_rows(3) [OF assms(4) d assms(2) auth that] by simp
  have "\<exists>row. GetSystemConfig en t' db' = Inr row \<and> get (rm_versions m') t' = Some (sc_version row) \<and>
      row_says pl t' (sc_data row) (rm_config m')" if t': "t' \<in> set managedTypes" for t'
  proof (cases "t' = t")
    case True
    with row row_says_stored [OF c(3,4,5,1)] assms(5,6) show ?thesis by simp
  next
    case False
    with m t' obtain old where "GetSystemConfig en t' db = Inr old" "get (rm_versions m) t' = Some (sc_version old)"
      "row_says pl t' (sc_data old) (rm_config m)" by (auto simp: follows_rows_def)
    with False other [OF False] row_says_cong [OF c(6) [OF t' False]] assms(5,6) show ?thesis by simp
  qed
  moreover have "config_rows_ok db'"
    by (rule update_keeps_rows [OF assms(4)]) (use m in \<open>simp_all add: domain_def\<close>)
  ultimately show ?thesis using c(4,5) assms(5) by (simp add: manager_ok_def follows_rows_def)
qed

lemma update_config_ok:
  assumes "manager_ok pl en m db" and "selects_ok en"
  shows "case Update_config pl en ap now t data n (m, db) of (r, m', db') \<Rightarrow> manager_ok pl en m' db'"
proof (cases "update_candidate pl t data n m")
  case (Inl e)
  with assms(1) show ?thesis by (simp add: Update_config_def)
next
  case cand: (Inr c)
  obtain r m1 where a: "apply_change ap (rm_config m) c m = (r, m1)" by fastforce
  have same: "rm_config m1 = rm_config m" "rm_versions m1 = rm_versions m"
    using apply_change_same [of ap "rm_config m" c m] a by simp_all
  have m1: "manager_ok pl en m1 db" using assms(1) manager_ok_cong [OF same] by simp
  obtain r' db1 where u: "UpdateSystemConfig en now t (Some (domain c t)) n db = (r', db1)" by fastforce
  show ?thesis
  proof (cases r)
    case (Inl e)
    with a cand m1 show ?thesis by (simp add: Update_config_def)
  next
    case r: (Inr x)
    show ?thesis
    proof (cases r')
      case r': (Inl e)
      then have "db1 = db" using update_system_config_fails [of en now t "domain c t" n db e db1] u assms(2) by simp
      with a cand r r' u m1 manager_ok_cong [OF apply_change_same, of pl en ap c "rm_config m" m1 db] show ?thesis
        by (simp add: Update_config_def)
    next
      case r': (Inr row)
      let ?m = "notifyLocked (m1\<lparr>rm_config := c, rm_versions := put t (sc_version row) (rm_versions m1)\<rparr>)"
      have "manager_ok pl en ?m db1"
        by (rule update_commit_ok [OF assms cand u [unfolded r']]) (simp_all add: same)
      with a cand r r' u show ?thesis by (simp add: Update_config_def)
    qed
  qed
qed

lemma update_path_ok:
  assumes "manager_ok pl en m db" and "selects_ok en"
  shows "case UpdatePath pl en ap now t path v n (m, db) of (r, m', db') \<Rightarrow> manager_ok pl en m' db'"
  using assms update_config_ok [OF assms]
  by (simp add: UpdatePath_def Let_def split: option.split)

lemma reset_ok:
  assumes "manager_ok pl en m db" and "selects_ok en"
  shows "case Reset pl en ap now t (m, db) of (r, m', db') \<Rightarrow> manager_ok pl en m' db'"
  using update_config_ok [OF assms] by (simp add: Reset_def)

lemma reset_each_ok:
  assumes "manager_ok pl en m db" and "selects_ok en"
  shows "case reset_each pl en ap now ts (m, db) of (r, m', db') \<Rightarrow> manager_ok pl en m' db'"
  using assms(1)
proof (induction ts arbitrary: m db)
  case (Cons t ts)
  obtain r m1 db1 where r: "Reset pl en ap now t (m, db) = (r, m1, db1)" by (cases "Reset pl en ap now t (m, db)")
  then have "manager_ok pl en m1 db1" using reset_ok [OF Cons.prems assms(2), of ap now t] by simp
  with Cons.IH r show ?case by (cases r) simp_all
qed simp

lemma reset_all_ok:
  assumes "manager_ok pl en m db" and "selects_ok en"
  shows "case ResetAll pl en ap now (m, db) of (r, m', db') \<Rightarrow> manager_ok pl en m' db'"
  using reset_each_ok [OF assms, of ap now managedTypes]
  by (cases "reset_each pl en ap now managedTypes (m, db)") (simp add: ResetAll_def split: sum.split)

subsection \<open>Importing\<close>

text \<open>How the HTTP API persists an import: with everything else of it in one transaction.\<close>

definition import_persist ::
    "engine \<Rightarrow> time \<Rightarrow> configuration_import \<Rightarrow> val go_map \<Rightarrow> db \<Rightarrow> db_error + int go_map \<times> db" where
  "import_persist en now input domains =
     ImportConfiguration en now (input\<lparr>im_runtime := map (\<lambda>(t, v). (t, Some v)) domains\<rparr>)"

lemma import_section_keeps_rows:
  assumes "import_section en now k (t, Some v) (vs, db) = Inr (vs', db')" and "config_rows_ok db"
  shows "config_rows_ok db'"
proof -
  obtain w where w: "import_data en k t v db = Inr w"
    and d: "db' = db\<lparr>db_configs := update_rows (\<lambda>c. sc_type c = t) (bump_config now w) (db_configs db)\<rparr>"
    using assms(1) by (auto simp: import_section_def Let_def ok_then_Inr split: if_splits)
  have "auth_canonical w" if "t = system_auth"
    using w that by (auto simp: import_data_def ok_then_Inr split: option.splits if_splits)
  with assms(2) show ?thesis unfolding d by (intro config_rows_update) (auto simp: bump_config_def)
qed

lemma import_sections_keep_rows:
  "each (import_section en now k) (map (\<lambda>(t, v). (t, Some v)) ss) (vs, db) = Inr (vs', db') \<Longrightarrow>
   config_rows_ok db \<Longrightarrow> config_rows_ok db'"
proof (induction ss arbitrary: vs db)
  case (Cons s ss)
  obtain t v where s: "s = (t, v)" by (cases s)
  obtain vs1 db1 where "import_section en now k (t, Some v) (vs, db) = Inr (vs1, db1)"
    "each (import_section en now k) (map (\<lambda>(t, v). (t, Some v)) ss) (vs1, db1) = Inr (vs', db')"
    using Cons.prems(1) by (auto simp: s ok_then_Inr)
  with Cons import_section_keeps_rows show ?case by blast
qed simp

lemma import_persist_rows:
  assumes "import_persist en now input (map (\<lambda>t. (t, domain c t)) managedTypes) db = Inr (vs, db')"
    and "selects_ok en" and "config_rows_ok db"
  shows "\<forall>t \<in> set managedTypes. \<exists>row. GetSystemConfig en t db' = Inr row \<and> stored_as t (domain c t) (sc_data row) \<and>
      get vs t = Some (sc_version row)"
    and "config_rows_ok db'"
proof -
  let ?ss = "map (\<lambda>t. (t, domain c t)) managedTypes"
  obtain db1 where i: "each (import_section en now (im_admin_key_hash input)) (map (\<lambda>(t, v). (t, Some v)) ?ss) ([], db) = Inr (vs, db1)"
    and same: "db_configs db' = db_configs db1"
    using import_configs [OF assms(1) [unfolded import_persist_def]] by (auto simp: importRuntimeConfigTx_def)
  have d: "distinct (map fst ?ss)" by (simp add: comp_def distinct_managedTypes)
  have g: "GetSystemConfig en t db' = GetSystemConfig en t db1" for t using same by (simp add: GetSystemConfig_def)
  show "\<forall>t \<in> set managedTypes. \<exists>row. GetSystemConfig en t db' = Inr row \<and> stored_as t (domain c t) (sc_data row) \<and>
      get vs t = Some (sc_version row)"
    using conjunct1 [OF import_runtime_rows [OF i assms(2) d]] by (simp add: g)
  show "config_rows_ok db'"
    using import_sections_keep_rows [OF i assms(3)] config_rows_same [OF same] by simp
qed

lemma take_versions_ok:
  assumes "\<forall>t \<in> set ts. \<exists>v \<ge> 1. get vs t = Some v"
  shows "\<exists>ws. take_versions vs ts m = (Inr (), m\<lparr>rm_versions := ws\<rparr>) \<and>
    (\<forall>t. get ws t = (if t \<in> set ts then get vs t else get (rm_versions m) t))"
  using assms
proof (induction ts arbitrary: m)
  case (Cons t ts)
  obtain v where v: "get vs t = Some v" "1 \<le> v" using Cons.prems by auto
  let ?m = "m\<lparr>rm_versions := put t v (rm_versions m)\<rparr>"
  obtain ws where "take_versions vs ts ?m = (Inr (), ?m\<lparr>rm_versions := ws\<rparr>)"
    "\<forall>t'. get ws t' = (if t' \<in> set ts then get vs t' else get (rm_versions ?m) t')"
    using Cons.IH [of ?m] Cons.prems by auto
  with v show ?case by (intro exI [of _ ws]) auto
next
  case Nil
  show ?case by (rule exI [of _ "rm_versions m"]) simp
qed

lemma rows_version_pos:
  "config_rows_ok db \<Longrightarrow> GetSystemConfig en t db = Inr row \<Longrightarrow> 1 \<le> sc_version row"
  by (auto simp: GetSystemConfig_def select_first_def run_def config_rows_ok_def
      split: if_splits option.splits dest: find_first_Some)

lemma import_commit_ok:
  assumes "import_persist en now input (map (\<lambda>t. (t, domain c t)) managedTypes) db = Inr (vs, db')"
    and "selects_ok en" and "config_rows_ok db" and "Validate pl c = Inr c"
    and "ac_admin_key_hash (rt_auth c) = ''''" and "int64_config c"
  shows "\<exists>ws. take_versions vs managedTypes m = (Inr (), m\<lparr>rm_versions := ws\<rparr>) \<and>
    (\<forall>m'. rm_config m' = c \<longrightarrow> rm_versions m' = ws \<longrightarrow> manager_ok pl en m' db')"
proof -
  note rows = import_persist_rows [OF assms(1-3)]
  have "\<forall>t \<in> set managedTypes. \<exists>v \<ge> 1. get vs t = Some v"
    using rows rows_version_pos [OF rows(2)] by blast
  from take_versions_ok [OF this, of m] obtain ws where
    ws: "take_versions vs managedTypes m = (Inr (), m\<lparr>rm_versions := ws\<rparr>)" "\<forall>t \<in> set managedTypes. get ws t = get vs t"
    by auto
  have "manager_ok pl en m' db'" if "rm_config m' = c" "rm_versions m' = ws" for m'
    using that assms(5,6) rows(2) ws(2) rows(1) row_says_stored [OF assms(4,5,6)]
    by (fastforce simp: manager_ok_def follows_rows_def)
  with ws(1) show ?thesis by blast
qed

lemma import_config_ok:
  assumes "manager_ok pl en m db" and "selects_ok en" and "int64_config candidate"
  shows "case Import_config pl ap candidate (import_persist en now input) (m, db) of (r, m', db') \<Rightarrow> manager_ok pl en m' db'"
proof (cases "Validate pl (clear_key candidate)")
  case (Inl e)
  with assms(1) show ?thesis by (simp add: Import_config_def)
next
  case v: (Inr c)
  have c: "Validate pl c = Inr c" "ac_admin_key_hash (rt_auth c) = ''''" "int64_config c"
    using Validate_idem [OF v] Validate_keeps [OF v] assms(3) by (simp_all add: clear_key_def int64_config_def)
  obtain r m1 where a: "apply_change ap (rm_config m) c m = (r, m1)" by fastforce
  have same: "rm_config m1 = rm_config m" "rm_versions m1 = rm_versions m"
    using apply_change_same [of ap "rm_config m" c m] a by simp_all
  have m1: "manager_ok pl en m1 db" using assms(1) manager_ok_cong [OF same] by simp
  let ?p = "import_persist en now input (map (\<lambda>t. (t, domain c t)) managedTypes) db"
  show ?thesis
  proof (cases r)
    case (Inl e)
    with a v m1 show ?thesis by (simp add: Import_config_def)
  next
    case r: (Inr x)
    show ?thesis
    proof (cases ?p)
      case (Inl e)
      with a v r m1 manager_ok_cong [OF apply_change_same, of pl en ap c "rm_config m" m1 db] show ?thesis
        by (simp add: Import_config_def)
    next
      case (Inr p)
      obtain vs db1 where p: "?p = Inr (vs, db1)" using Inr by (cases p) simp
      have rows: "config_rows_ok db" using assms(1) by (simp add: manager_ok_def)
      from import_commit_ok [OF p assms(2) rows c, of m1] a v r p show ?thesis
        by (auto simp: Import_config_def)
    qed
  qed
qed

subsection \<open>The administrator's key\<close>

text \<open>Changing the key leaves the version, so an edit that was begun before still goes through.\<close>

lemma key_row:
  assumes "SetAdminKeyHash en now h r db = Inr db'" and "GetSystemConfig en system_auth db = Inr row" and "selects_ok en"
    and "config_rows_ok db" and "decode_auth (sc_data row) = Some a"
  shows "\<exists>row'. GetSystemConfig en system_auth db' = Inr row' \<and> sc_version row' = sc_version row \<and>
      sc_data row' = encode_auth (a\<lparr>ac_admin_key_hash := h\<rparr>)"
    and "t \<noteq> system_auth \<Longrightarrow> GetSystemConfig en t db' = GetSystemConfig en t db"
    and "config_rows_ok db'"
proof -
  let ?f = "\<lambda>r. r\<lparr>sc_data := encode_auth (a\<lparr>ac_admin_key_hash := h\<rparr>), sc_updated_at := now\<rparr>"
  have d: "db_configs db' = update_rows (\<lambda>r. sc_type r = system_auth) ?f (db_configs db)"
    using assms(1,2,5) by (auto simp: SetAdminKeyHash_def transaction_def put_admin_key_def ok_then_Inr split: if_splits)
  have f: "find_first (\<lambda>c. sc_type c = t) (update_rows (\<lambda>r. sc_type r = system_auth) ?f cs) =
      (if t = system_auth then map_option ?f (find_first (\<lambda>c. sc_type c = t) cs) else find_first (\<lambda>c. sc_type c = t) cs)" for t cs
    by (induction cs) (auto simp: update_rows_def)
  show "\<exists>row'. GetSystemConfig en system_auth db' = Inr row' \<and> sc_version row' = sc_version row \<and>
      sc_data row' = encode_auth (a\<lparr>ac_admin_key_hash := h\<rparr>)"
    using assms(2,3) by (simp add: GetSystemConfig_row d f)
  show "t \<noteq> system_auth \<Longrightarrow> GetSystemConfig en t db' = GetSystemConfig en t db"
    by (simp add: GetSystemConfig_def select_first_def d f)
  have "config_rows_ok (db\<lparr>db_configs := update_rows (\<lambda>r. sc_type r = system_auth) ?f (db_configs db)\<rparr>)"
    by (rule config_rows_update [OF assms(4)]) simp_all
  then show "config_rows_ok db'" by (rule config_rows_same [THEN iffD2, rotated]) (simp add: d)
qed

lemma row_says_key:
  assumes "row_says pl system_auth v c" and "auth_canonical v" and "decode_auth v = Some a"
  shows "row_says pl system_auth (encode_auth (a\<lparr>ac_admin_key_hash := h\<rparr>)) c"
proof -
  obtain x y where x: "decodes system_auth v x" "section_becomes pl system_auth x y" "same_section system_auth (clear_key y) c"
    using assms(1) by (auto simp: row_says_def)
  have "rt_auth x = a" using decodes_unique [OF x(1) auth_canonical_decodes [OF assms(2,3)]]
    by (simp add: same_section_def)
  moreover have "rt_auth y = rt_auth x" using x(2) by (simp add: section_becomes_def)
  ultimately have "section_becomes pl system_auth (x\<lparr>rt_auth := a\<lparr>ac_admin_key_hash := h\<rparr>\<rparr>) (x\<lparr>rt_auth := a\<lparr>ac_admin_key_hash := h\<rparr>\<rparr>)"
    "same_section system_auth (clear_key (x\<lparr>rt_auth := a\<lparr>ac_admin_key_hash := h\<rparr>\<rparr>)) c"
    using x(2,3) by (simp_all add: section_becomes_def same_section_def clear_key_def)
  then show ?thesis using encode_auth_decodes unfolding row_says_def by blast
qed

lemma set_key_ok:
  assumes "manager_ok pl en m db" and "selects_ok en" and "SetAdminKeyHash en now h r db = Inr db'"
  shows "manager_ok pl en m db'"
proof -
  note m = assms(1) [unfolded manager_ok_def]
  obtain row where row: "GetSystemConfig en system_auth db = Inr row" "get (rm_versions m) system_auth = Some (sc_version row)"
    "row_says pl system_auth (sc_data row) (rm_config m)"
    using m bspec [of "set managedTypes" _ system_auth] unfolding follows_rows_def in_managedTypes by blast
  have can: "auth_canonical (sc_data row)"
    using row(1) assms(2) m find_first_Some [of "\<lambda>c. sc_type c = system_auth" "db_configs db" row]
    by (auto simp: GetSystemConfig_row config_rows_ok_def)
  then obtain a where a: "decode_auth (sc_data row) = Some a" by (auto simp: auth_canonical_def)
  note k = key_row [OF assms(3) row(1) assms(2) conjunct2 [OF conjunct2 [OF conjunct2 [OF m]]] a]
  have "\<exists>row. GetSystemConfig en t db' = Inr row \<and> get (rm_versions m) t = Some (sc_version row) \<and>
      row_says pl t (sc_data row) (rm_config m)" if t: "t \<in> set managedTypes" for t
  proof (cases "t = system_auth")
    case True
    with k(1) row(2) row_says_key [OF row(3) can a] show ?thesis by auto
  next
    case False
    with k(2) [of t] m t show ?thesis by (auto simp: follows_rows_def)
  qed
  with k(3) m show ?thesis by (simp add: manager_ok_def follows_rows_def)
qed

subsection \<open>Starting\<close>

lemma ensure_keeps_rows:
  assumes "EnsureSystemConfig en now t v db = (r, db')" and "config_rows_ok db" and "t = system_auth \<Longrightarrow> auth_canonical (from_json v)"
  shows "config_rows_ok db'"
  using assms by (auto simp: EnsureSystemConfig_def run_def config_rows_ok_def split: if_splits)

lemma ensureAuthConfig_keeps_rows:
  assumes "ensureAuthConfig en now db = (r, db')" and "config_rows_ok db"
  shows "config_rows_ok db'"
proof -
  have e: "config_rows_ok db1" if "EnsureSystemConfig en now system_auth (encode_runtime_auth a) db = (r', db1)" for a r' db1
    by (rule ensure_keeps_rows [OF that assms(2)]) simp
  have u: "config_rows_ok db1" if "UpdateSystemConfig en now system_auth (Some (encode_runtime_auth a)) n db = (r', db1)" for a n r' db1
    by (rule update_keeps_rows [OF that assms(2)]) simp
  show ?thesis
    using assms
    by (auto simp: ensureAuthConfig_def dest: e u
        split: sum.split_asm option.split_asm if_split_asm db_error.split_asm prod.split_asm)
qed

lemma ensure_types_keep_rows:
  "ensure_types en now ts db = (r, db') \<Longrightarrow> config_rows_ok db \<Longrightarrow> config_rows_ok db'"
proof (induction ts arbitrary: db)
  case (Cons t ts)
  have e: "config_rows_ok db1" if "t \<noteq> system_auth" "EnsureSystemConfig en now t v db = (r', db1)" for v r' db1
    by (rule ensure_keeps_rows [OF that(2) Cons.prems(2)]) (use that(1) in simp)
  show ?case
  proof (cases "t = system_auth")
    case True
    obtain r' db1 where a: "ensureAuthConfig en now db = (r', db1)" by fastforce
    with Cons True ensureAuthConfig_keeps_rows [OF a] show ?thesis by (cases r') auto
  next
    case False
    obtain r' db1 where a: "EnsureSystemConfig en now t (domain DefaultRuntimeConfig t) db = (r', db1)" by fastforce
    with Cons False e [OF False a] show ?thesis by (cases r') auto
  qed
qed simp

lemma load_int64:
  "load_types en db ts cv = Inr (c, vs) \<Longrightarrow> int64_config (fst cv) \<Longrightarrow> int64_config c"
proof (induction ts arbitrary: cv)
  case (Cons t ts)
  obtain row d where "GetSystemConfig en t db = Inr row" and r: "decodeDomain (Some (sc_data row)) t (fst cv) = Some d"
    "load_types en db ts (d, put t (sc_version row) (snd cv)) = Inr (c, vs)"
    using Cons.prems(1) by (auto split: sum.splits option.splits)
  from Cons.IH [OF r(2)] decode_int64 [OF r(1) Cons.prems(2)] show ?case by simp
qed auto

lemma new_manager_ok:
  assumes "New_manager pl en now db = (Inr m, db')" and "config_rows_ok db"
  shows "manager_ok pl en m db'" and "rm_live m = rm_config m"
proof -
  obtain x c vs where e: "ensure_types en now managedTypes db = (Inr x, db')" "load_config pl en db' = Inr (c, vs)"
    and m: "m = \<lparr>rm_config = c, rm_versions = vs, rm_subs = [], rm_live = c\<rparr>"
    using assms(1) by (auto simp: New_manager_def split: prod.split_asm sum.split_asm)
  obtain c0 c1 where l: "load_types en db' managedTypes (zero_runtime_config, []) = Inr (c0, vs)" "Validate pl c0 = Inr c1" "c = clear_key c1"
    using load_config_parts [OF e(2)] by blast
  have "int64_config c0" by (rule load_int64 [OF l(1)]) (simp add: zero_runtime_config_def int64_config_def)
  then have "int64_config c" using Validate_keeps [OF l(2)] l(3) by simp
  moreover have "ac_admin_key_hash (rt_auth c) = ''''" using l(3) by (simp add: clear_key_def)
  moreover have "follows_rows pl en m db'" by (rule load_follows_rows) (simp add: m e(2))
  moreover have "config_rows_ok db'" by (rule ensure_types_keep_rows [OF e(1) assms(2)])
  ultimately show "manager_ok pl en m db'" by (simp add: manager_ok_def m)
  show "rm_live m = rm_config m" by (simp add: m)
qed

subsection \<open>While the server runs\<close>

text \<open>
  What can happen between two moments: an operation of the manager, also one that fails half
  way, a new administrator's key, and any change of the store that leaves the configuration
  rows alone. Each has its own engine, so that any statement can fail at any time, except that
  rows can be read.
\<close>

inductive config_step :: "platform \<Rightarrow> apply_func \<Rightarrow> runtime_manager \<times> db \<Rightarrow> runtime_manager \<times> db \<Rightarrow> bool"
  for pl ap where
  update: "selects_ok en \<Longrightarrow> config_step pl ap s (snd (Update_config pl en ap now t data n s))"
| update_path: "selects_ok en \<Longrightarrow> config_step pl ap s (snd (UpdatePath pl en ap now t path value n s))"
| reset: "selects_ok en \<Longrightarrow> config_step pl ap s (snd (Reset pl en ap now t s))"
| reset_all: "selects_ok en \<Longrightarrow> config_step pl ap s (snd (ResetAll pl en ap now s))"
| importing: "selects_ok en \<Longrightarrow> int64_config candidate \<Longrightarrow>
    config_step pl ap s (snd (Import_config pl ap candidate (import_persist en now input) s))"
| subscribe: "config_step pl ap s (snd (Subscribe_config (fst s)), snd s)"
| key: "selects_ok en \<Longrightarrow> SetAdminKeyHash en now h r (snd s) = Inr db' \<Longrightarrow> config_step pl ap s (fst s, db')"
| other: "db_configs db' = db_configs (snd s) \<Longrightarrow> config_step pl ap s (fst s, db')"

inductive config_run :: "platform \<Rightarrow> apply_func \<Rightarrow> db \<Rightarrow> runtime_manager \<times> db \<Rightarrow> bool" for pl ap db0 where
  start: "New_manager pl en now db0 = (Inr m, db) \<Longrightarrow> selects_ok en \<Longrightarrow> config_run pl ap db0 (m, db)"
| step: "config_run pl ap db0 s \<Longrightarrow> config_step pl ap s s' \<Longrightarrow> config_run pl ap db0 s'"

lemma manager_ok_engine:
  "selects_ok en \<Longrightarrow> selects_ok en' \<Longrightarrow> manager_ok pl en m db \<Longrightarrow> manager_ok pl en' m db"
  by (simp add: manager_ok_def follows_rows_def GetSystemConfig_row)

definition always_ok :: "platform \<Rightarrow> runtime_manager \<times> db \<Rightarrow> bool" where
  "always_ok pl s \<longleftrightarrow> (\<forall>en. selects_ok en \<longrightarrow> manager_ok pl en (fst s) (snd s))"

lemma always_okI: "selects_ok en \<Longrightarrow> manager_ok pl en m db \<Longrightarrow> always_ok pl (m, db)"
  by (auto simp: always_ok_def intro: manager_ok_engine)

lemma always_okD: "always_ok pl s \<Longrightarrow> selects_ok en \<Longrightarrow> manager_ok pl en (fst s) (snd s)"
  by (simp add: always_ok_def)

lemma step_keeps: "config_step pl ap s s' \<Longrightarrow> always_ok pl s \<Longrightarrow> always_ok pl s'"
proof (induction rule: config_step.induct)
  case (update en s now t data n)
  then show ?case
    using update_config_ok [OF always_okD, of pl s en ap now t data n]
    by (cases "Update_config pl en ap now t data n s") (auto intro: always_okI)
next
  case (update_path en s now t path v n)
  then show ?case
    using update_path_ok [OF always_okD, of pl s en ap now t path v n]
    by (cases "UpdatePath pl en ap now t path v n s") (auto intro: always_okI)
next
  case (reset en s now t)
  then show ?case
    using reset_ok [OF always_okD, of pl s en ap now t]
    by (cases "Reset pl en ap now t s") (auto intro: always_okI)
next
  case (reset_all en s now)
  then show ?case
    using reset_all_ok [OF always_okD, of pl s en ap now]
    by (cases "ResetAll pl en ap now s") (auto intro: always_okI)
next
  case (importing en candidate s now input)
  then show ?case
    using import_config_ok [OF always_okD, of pl s en candidate ap now input]
    by (cases "Import_config pl ap candidate (import_persist en now input) s") (auto intro: always_okI)
next
  case (subscribe s)
  then show ?case by (auto simp: always_ok_def Subscribe_config_def manager_ok_def follows_rows_def)
next
  case (key en now h r s db')
  then show ?case using set_key_ok [OF always_okD, of pl s en now h r db'] by (auto intro: always_okI)
next
  case (other db' s)
  then show ?case unfolding always_ok_def fst_conv snd_conv using manager_ok_db [OF other(1)] by blast
qed

lemma run_ok: "config_run pl ap db0 s \<Longrightarrow> config_rows_ok db0 \<Longrightarrow> always_ok pl s"
proof (induction rule: config_run.induct)
  case (start en now m db)
  then show ?case using new_manager_ok(1) by (blast intro: always_okI)
next
  case (step s s')
  then show ?case using step_keeps by blast
qed

text \<open>A restart finds every row in place.\<close>

lemma ParseDuration_empty: "ParseDuration '''' = None"
  by code_simp

lemma ensure_types_done:
  assumes "manager_ok pl en m db" and "sound_engine en" and "set ts \<subseteq> set managedTypes"
  shows "ensure_types en now ts db = (Inr (), db)"
  using assms(3)
proof (induction ts)
  case (Cons t ts)
  have s: "selects_ok en" using assms(2) by (simp add: sound_engine_def selects_ok_def)
  obtain row where row: "GetSystemConfig en t db = Inr row" "row_says pl t (sc_data row) (rm_config m)"
    using assms(1) Cons.prems unfolding manager_ok_def follows_rows_def by fastforce
  have mem: "row \<in> set (db_configs db)" "sc_type row = t"
    using row(1) s find_first_Some [of "\<lambda>c. sc_type c = t" "db_configs db" row] by (auto simp: GetSystemConfig_row)
  show ?case
  proof (cases "t = system_auth")
    case True
    have "auth_canonical (sc_data row)"
      using assms(1) mem True by (auto simp: manager_ok_def config_rows_ok_def)
    then obtain a where a: "decode_auth (sc_data row) = Some a" "decodes system_auth (sc_data row) (zero_runtime_config\<lparr>rt_auth := a\<rparr>)"
      using auth_canonical_decodes by (auto simp: auth_canonical_def)
    obtain x y where x: "decodes system_auth (sc_data row) x" "section_becomes pl system_auth x y"
      using row(2) True by (auto simp: row_says_def)
    have "rt_auth x = a" using decodes_unique [OF x(1) a(2)] by (simp add: same_section_def)
    with x(2) have "ac_session_ttl a \<noteq> ''''"
      by (auto simp: section_becomes_def ParseDuration_empty)
    with a row(1) True have "ensureAuthConfig en now db = (Inr (), db)" by (simp add: ensureAuthConfig_def)
    with Cons True show ?thesis by simp
  next
    case False
    have "EnsureSystemConfig en now t v db = (Inr row, db)" for v
      using mem row(1) assms(2) by (auto simp: EnsureSystemConfig_def sound_engine_def run_def)
    with Cons False show ?thesis by simp
  qed
qed simp

subsection \<open>A store that holds the defaults\<close>

definition test_platform :: platform where
  "test_platform = \<lparr>pl_location = (\<lambda>z. z = ''UTC''), pl_wrap = (\<lambda>_. 0)\<rparr>"

definition default_db :: db where
  "default_db = empty_db\<lparr>db_configs := map (\<lambda>t. \<lparr>sc_type = t, sc_data = domain DefaultRuntimeConfig t, sc_version = 1,
     sc_created_at = 0, sc_updated_at = 0\<rparr>) managedTypes\<rparr>"

lemma retention_days:
  "has_suffix (trim_space (to_lower s)) ''d'' \<Longrightarrow> scan_float (butlast (trim_space (to_lower s))) = Some days \<Longrightarrow>
   \<not> f64_le days (Fin 0) \<Longrightarrow> \<exists>d. ParseRetention pl s = Some d"
  by (simp add: ParseRetention_def Let_def)

lemma retention_time:
  "\<not> has_suffix (trim_space (to_lower s)) ''d'' \<Longrightarrow> parse_duration (trim_space (to_lower s)) = Some d \<Longrightarrow> 0 < d \<Longrightarrow>
   ParseRetention pl s = Some d"
  by (simp add: ParseRetention_def Let_def)

lemma retention_scanned:
  assumes "has_suffix (trim_space (to_lower s)) ''d''"
    and "case scan_float (butlast (trim_space (to_lower s))) of None \<Rightarrow> False | Some d \<Rightarrow> \<not> f64_le d (Fin 0)"
  shows "\<exists>d. ParseRetention pl s = Some d"
  using assms by (auto intro: retention_days split: option.splits)

lemma retention_30d: "\<exists>d. ParseRetention pl ''30d'' = Some d"
  by (rule retention_scanned; code_simp)

lemma retention_1h: "ParseRetention pl ''1h'' = Some hour"
proof (rule retention_time)
  show "\<not> has_suffix (trim_space (to_lower ''1h'')) ''d''" by code_simp
  show "parse_duration (trim_space (to_lower ''1h'')) = Some hour" by code_simp
  show "0 < hour" by code_simp
qed

lemma ttl_720h: "\<exists>d. ParseDuration ''720h'' = Some d"
proof -
  have "ParseDuration ''720h'' \<noteq> None" by code_simp
  then show ?thesis by auto
qed

lemma default_logs: "NormalizeLogLevel ''info'' = Some ''info''" "NormalizeLogFormat ''simple'' = Some ''simple''"
  by code_simp+

lemma default_valid: "Validate pl (DefaultRuntimeConfig\<lparr>rt_mcp := x\<rparr>) = Inr (DefaultRuntimeConfig\<lparr>rt_mcp := x\<rparr>)"
  using retention_30d [of pl] retention_1h ttl_720h
  by (auto simp: Validate_Inr DefaultRuntimeConfig_def storage_ok_def check_durations_def scheduler_ok_def
    logging_becomes_def plugins_become_def default_logs some_or_def)

lemma default_row:
  assumes "selects_ok en" and "t \<in> set managedTypes"
  shows "GetSystemConfig en t default_db = Inr \<lparr>sc_type = t, sc_data = domain DefaultRuntimeConfig t, sc_version = 1,
     sc_created_at = 0, sc_updated_at = 0\<rparr>"
  using assms(2) by (auto simp: GetSystemConfig_row [OF assms(1)] default_db_def managedTypes_def)

lemma default_db_ok: "config_rows_ok default_db"
  by (auto simp: config_rows_ok_def default_db_def comp_def distinct_managedTypes in_managedTypes domain_def)

lemma default_start:
  assumes "sound_engine en"
  obtains m where "New_manager pl en now default_db = (Inr m, default_db)" "rm_config m = DefaultRuntimeConfig"
    "\<And>t. t \<in> set managedTypes \<Longrightarrow> get (rm_versions m) t = Some 1"
proof -
  let ?m = "\<lparr>rm_config = DefaultRuntimeConfig, rm_versions = map (\<lambda>t. (t, 1)) managedTypes, rm_subs = [], rm_live = DefaultRuntimeConfig\<rparr>"
  have s: "selects_ok en" using assms by (simp add: sound_engine_def selects_ok_def)
  have v: "Validate pl DefaultRuntimeConfig = Inr DefaultRuntimeConfig"
    using default_valid [of pl "rt_mcp DefaultRuntimeConfig"] by simp
  have get: "get (rm_versions ?m) t = Some 1" if "t \<in> set managedTypes" for t
    using that by (auto simp: managedTypes_def)
  have row: "row_says pl t (domain DefaultRuntimeConfig t) DefaultRuntimeConfig" if "t \<in> set managedTypes" for t
    unfolding row_says_def
  proof (rule exI [of _ DefaultRuntimeConfig], rule exI [of _ DefaultRuntimeConfig], intro conjI)
    show "decodes t (domain DefaultRuntimeConfig t) DefaultRuntimeConfig"
      by (rule encode_decodes [OF _ that]) (simp add: int64_config_def DefaultRuntimeConfig_def)
    show "section_becomes pl t DefaultRuntimeConfig DefaultRuntimeConfig" using v that by (simp add: Validate_sections)
    have "clear_key DefaultRuntimeConfig = DefaultRuntimeConfig" by (simp add: clear_key_def DefaultRuntimeConfig_def)
    then show "same_section t (clear_key DefaultRuntimeConfig) DefaultRuntimeConfig" using that by simp
  qed
  have "follows_rows pl en ?m default_db"
    unfolding follows_rows_def using default_row [OF s] get row by simp
  then have ok: "manager_ok pl en ?m default_db"
    using default_db_ok by (simp add: manager_ok_def int64_config_def DefaultRuntimeConfig_def)
  obtain vs where vs: "load_config pl en default_db = Inr (DefaultRuntimeConfig, vs)"
    "\<forall>t \<in> set managedTypes. get vs t = get (rm_versions ?m) t"
    using follows_rows_restart [of pl en ?m default_db] ok by (auto simp: manager_ok_def)
  have "ensure_types en now managedTypes default_db = (Inr (), default_db)"
    by (rule ensure_types_done [OF ok assms]) simp
  with vs get that [of "\<lparr>rm_config = DefaultRuntimeConfig, rm_versions = vs, rm_subs = [], rm_live = DefaultRuntimeConfig\<rparr>"]
  show thesis by (simp add: New_manager_def)
qed

subsection \<open>Properties of the runtime configuration\<close>


lemma switched_on:
  assumes "rm_config m = DefaultRuntimeConfig" and "get (rm_versions m) SystemConfigMCP = Some 1"
    and "Update_config pl (test_engine True) ap 5 SystemConfigMCP (Some (encode_mcp \<lparr>mc_enabled = True\<rparr>)) 1 (m, default_db) = (r, m', db')"
    and "ap = None \<or> ap = Some (\<lambda>_ _. None)"
  shows "rm_config m' = DefaultRuntimeConfig\<lparr>rt_mcp := \<lparr>mc_enabled = True\<rparr>\<rparr>" and "get (rm_versions m') SystemConfigMCP = Some 2"
proof -
  let ?c = "DefaultRuntimeConfig\<lparr>rt_mcp := \<lparr>mc_enabled = True\<rparr>\<rparr>"
  have e: "selects_ok (test_engine True)" by (simp add: selects_ok_def test_engine_def)
  have t: "SystemConfigMCP \<in> set managedTypes" by (simp add: managedTypes_def)
  have "decodeDomain (Some (encode_mcp \<lparr>mc_enabled = True\<rparr>)) SystemConfigMCP DefaultRuntimeConfig = Some ?c"
    by (simp add: decodeDomain_def decode_mcp_def encode_mcp_def decode_simps DefaultRuntimeConfig_def)
  then have cand: "update_candidate pl SystemConfigMCP (Some (encode_mcp \<lparr>mc_enabled = True\<rparr>)) 1 m = Inr ?c"
    using assms(1,2) t by (simp add: update_candidate_def isManagedType_def version_of_def default_valid)
  obtain row db1 where u: "UpdateSystemConfig (test_engine True) 5 SystemConfigMCP (Some (domain ?c SystemConfigMCP)) 1 default_db = (Inr row, db1)"
    "sc_version row = 2"
    by (simp add: UpdateSystemConfig_def write_config_def Let_def rows_affected_def test_engine_def GetSystemConfig_def run_def
        select_first_def update_rows_def default_db_def managedTypes_def bump_config_def)
  from assms(4) show "rm_config m' = ?c" and "get (rm_versions m') SystemConfigMCP = Some 2"
    using cand u assms(1,3) by (auto simp: Update_config_def apply_change_def)
qed

lemma switched_on_run:
  assumes "ap = None \<or> ap = Some (\<lambda>_ _. None)"
  obtains m db where "config_run test_platform ap default_db (m, db)"
    "rm_config m = DefaultRuntimeConfig\<lparr>rt_mcp := \<lparr>mc_enabled = True\<rparr>\<rparr>" "get (rm_versions m) SystemConfigMCP = Some 2"
proof -
  have e: "sound_engine (test_engine True)" "selects_ok (test_engine True)"
    by (simp_all add: sound_engine_def selects_ok_def test_engine_def)
  obtain m0 where m0: "New_manager test_platform (test_engine True) 0 default_db = (Inr m0, default_db)"
    "rm_config m0 = DefaultRuntimeConfig" "get (rm_versions m0) SystemConfigMCP = Some 1"
    using default_start [OF e(1)] by (metis in_managedTypes)
  obtain r m db where u: "Update_config test_platform (test_engine True) ap 5 SystemConfigMCP
      (Some (encode_mcp \<lparr>mc_enabled = True\<rparr>)) 1 (m0, default_db) = (r, m, db)"
    by (cases "Update_config test_platform (test_engine True) ap 5 SystemConfigMCP
      (Some (encode_mcp \<lparr>mc_enabled = True\<rparr>)) 1 (m0, default_db)")
  have run: "config_run test_platform ap default_db (m, db)"
    using config_run.step [OF config_run.start [OF m0(1) e(2)] config_step.update [OF e(2)]] u by (metis snd_conv)
  show thesis by (rule that [OF run switched_on [OF m0(2,3) u assms]])
qed


text \<open>
  C27: The snapshot that components read is always a valid configuration, so it passes
  validation again and none of the durations, time zones and log settings that are taken from
  it fails to parse; and it never holds the administrator's key.
\<close>

theorem snapshot_always_valid:
  assumes "config_run pl ap db0 (m, db)" and "config_rows_ok db0"
  shows "Validate pl (rm_config m) = Inr (rm_config m) \<and> ac_admin_key_hash (rt_auth (rm_config m)) = ''''"
proof -
  have "selects_ok (test_engine True)" by (simp add: selects_ok_def test_engine_def)
  from always_okD [OF run_ok [OF assms] this] show ?thesis
    by (auto simp: manager_ok_def dest: follows_rows_valid)
qed

subsection \<open>Components follow the snapshot\<close>







lemma take_versions_live:
  "take_versions vs ts m = (r, m') \<Longrightarrow> rm_live m' = rm_live m \<and> rm_config m' = rm_config m"
  by (induction ts arbitrary: m) (fastforce split: option.splits if_splits)+





theorem snapshot_always_valid_witness:
  "\<exists>m db. config_run test_platform None default_db (m, db) \<and> mc_enabled (rt_mcp (rm_config m)) \<and>
    Validate test_platform (rm_config m) = Inr (rm_config m)"
proof -
  obtain m db where run: "config_run test_platform None default_db (m, db)"
    and m: "rm_config m = DefaultRuntimeConfig\<lparr>rt_mcp := \<lparr>mc_enabled = True\<rparr>\<rparr>"
    by (rule switched_on_run [of None]) simp
  from snapshot_always_valid [OF run default_db_ok] run m show ?thesis by auto
qed

subsection \<open>Cleaning up\<close>

text \<open>
  What a cleanup leaves, and what it reports: the deliveries are cleaned up also when the
  records could not be.
\<close>

lemma cleanup_run_leaves:
  assumes "sound_engine en" and "StorageDurations pl c = (retention, notificationRetention, i)"
  shows "snd (cleanup_run pl en c now db) =
    db\<lparr>db_records := filter (\<lambda>row. stored_time (now - retention) \<le> mr_finished_at (rw_record row)) (db_records db),
      db_deliveries := filter (\<lambda>d. stored_time (now - notificationRetention) \<le> dr_created_at d) (db_deliveries db)\<rparr>"
  using assms
  by (simp add: cleanup_run_def PruneRecords_def PruneNotificationDeliveries_def delete_deliveries_def run_def
      sound_engine_def delete_rows_def record_expired_def linorder_not_less)

lemma cleanup_timer_advances:
  "fst (cleanup_step pl en (TimerFired c) st) > fst st" "fst (cleanup_step pl en (ConfigChanged now c) st) > now"
  by (simp_all add: cleanup_step_def cleanup_interval_def hour_def second_def split: prod.split)

text \<open>
  A number of days is read as hours and multiplied by 24 without a check: a large number
  becomes a negative duration, which validation accepts; a unit before the \<open>d\<close> is multiplied, too.
\<close>

lemma days_wrap_around: "case ParseDuration ''106752d'' of Some d \<Rightarrow> d < 0 | None \<Rightarrow> False"
  by code_simp

lemma mixed_units_multiplied: "ParseDuration ''1h30d'' = Some (31 * 24 * hour)"
  by code_simp

text \<open>A retention is read up to where the number ends, and \<open>NaN\<close> passes the test for its sign.\<close>

lemma retention_trailing_garbage: "\<exists>d. ParseRetention pl ''30xd'' = Some d" "\<exists>d. ParseRetention pl ''nand'' = Some d"
  by (rule retention_scanned; code_simp)+

end
