(* ===== verification/ConfigTransfer.thy ===== *)
theory ConfigTransfer
  imports RuntimeManager Schedules
begin

section \<open>Exporting and importing the configuration (api/config_transfer.go)\<close>

text \<open>
  The bundle that an administrator downloads, and what an upload does: reading it, deciding
  whether it is sound, the preview of its effects, and the import. The handlers are functions
  of the request they were given; the multipart form is given as its fields.

  JSON, zip, scrypt and AES-GCM are arguments. A module configuration that is absent shows as
  \<open>False\<close> in \<open>bm_has_config\<close> and \<open>bc_has_config\<close>, a condition that is absent or does not decode
  as \<open>None\<close>; the two messages for a bad condition are one error.
\<close>

subsection \<open>The bundle\<close>

record bundle_monitor =
  bm_monitor :: monitor
  bm_has_config :: bool

record bundle_channel =
  bc_channel :: channel
  bc_has_config :: bool

record configBundleData =
  cd_contents :: "string list"
  cd_runtime :: runtime_config
  cd_monitors :: "bundle_monitor list"
  cd_channels :: "bundle_channel list"
  cd_items :: "status_item list"
  cd_shares :: "share list"
  cd_admin_key_hash :: string

record encryptedPayload =
  ep_algorithm :: string
  ep_salt :: string
  ep_nonce :: string
  ep_ciphertext :: string

record configBundle =
  cb_format :: string
  cb_version :: int
  cb_exported_at :: time
  cb_encrypted :: bool
  cb_data :: "configBundleData option"
  cb_protected :: "encryptedPayload option"



record configTransferItem =
  ct_id :: string
  ct_name :: string

record configTransferChanges =
  tc_added :: "configTransferItem list"
  tc_overwritten :: "configTransferItem list"
  tc_deleted :: "configTransferItem list"

record configTransferSummary =
  ts_runtime :: configTransferChanges
  ts_monitors :: configTransferChanges
  ts_channels :: configTransferChanges
  ts_items :: configTransferChanges
  ts_shares :: configTransferChanges
  ts_admin_key :: configTransferChanges


record configImportResult =
  cr_imported :: bool
  cr_admin_key_imported :: bool
  cr_monitors :: nat
  cr_channels :: nat
  cr_items :: nat
  cr_shares :: nat
  cr_runtime_types :: int
  cr_summary :: configTransferSummary

definition configBundleFormat :: string where "configBundleFormat = ''meerkit-config''"
definition configBundleVersion :: int where "configBundleVersion = 1"
definition configBundleFilename :: string where "configBundleFilename = ''meerkit-config.json''"
definition maxConfigUploadBytes :: nat where "maxConfigUploadBytes = 10 * 2 ^ 20"
definition maxConfigJSONBytes :: nat where "maxConfigJSONBytes = 20 * 2 ^ 20"
definition maxConfigBundleEntries :: nat where "maxConfigBundleEntries = 8"

text \<open>An entry of a zip archive; \<open>None\<close> is a content that cannot be read.\<close>

record zip_part =
  zp_name :: string
  zp_is_dir :: bool
  zp_size :: nat
  zp_content :: "string option"

text \<open>
  \<open>tv_modules\<close> and \<open>tv_notifiers\<close> give the validation of a registered type. \<open>tv_key\<close> is scrypt
  for a password and a salt, \<open>tv_seal\<close> and \<open>tv_open\<close> are AES-GCM for a key, a nonce, a text and
  the additional data.
\<close>

record transfer_env =
  tv_marshal :: "configBundleData \<Rightarrow> string"
  tv_unmarshal :: "string \<Rightarrow> configBundleData option"
  tv_marshal_bundle :: "configBundle \<Rightarrow> string"
  tv_unmarshal_bundle :: "string \<Rightarrow> configBundle option"
  tv_zip :: "string \<Rightarrow> string \<Rightarrow> string"
  tv_unzip :: "string \<Rightarrow> zip_part list option"
  tv_key :: "string \<Rightarrow> string \<Rightarrow> string option"
  tv_seal :: "string \<Rightarrow> string \<Rightarrow> string \<Rightarrow> string \<Rightarrow> string"
  tv_open :: "string \<Rightarrow> string \<Rightarrow> string \<Rightarrow> string \<Rightarrow> string option"
  tv_modules :: "string \<Rightarrow> (val \<Rightarrow> bool) option"
  tv_notifiers :: "string \<Rightarrow> (val \<Rightarrow> bool) option"
  tv_cron :: cron_env

datatype bundle_error =
    NotZip
  | BadEntryCount
  | ContentTooLarge
  | EntryUnreadable
  | ManifestMissing
  | ManifestInvalid
  | UnsupportedBundle
  | BadEncryptedBundle
  | BadPlainBundle
  | PasswordRequired
  | WrongPassword
  | ProtectedInvalid
  | UnknownContent string
  | DuplicateContent
  | RuntimeMissing
  | ContentMismatch
  | RuntimeInvalid config_error
  | MonitorFields
  | DuplicateMonitor string
  | MonitorConfig string
  | MonitorPolicy string
  | MonitorSchedules string schedule_error
  | ChannelFields
  | DuplicateChannel string
  | ChannelConfig string
  | ItemFields
  | DuplicateItem string
  | ItemHistory string
  | BundleStore db_error
  | MissingChannel string string
  | MissingMonitor string string
  | ShareFields
  | DuplicateShare string
  | ShareToken string
  | ShareTokenTaken string
  | ShareEmpty string
  | ShareDuplicateMonitor string
  | ShareDuplicateItem string
  | ShareMissingMonitor string string
  | ShareMissingItem string string

datatype transfer_error =
    InvalidEncryptionKey
  | StorageError db_error
  | AdminKeyUnavailable
  | EncryptionFailed
  | InvalidMode
  | FileRequired
  | FileTooLarge
  | InvalidBundle bundle_error
  | InvalidAdminKey
  | ImportFailed manager_error

subsection \<open>Encryption\<close>

text \<open>The random salt and nonce are arguments; \<open>None\<close> when there are no random bytes.\<close>

definition nonce_size :: nat where "nonce_size = 12"

definition aes_key_ok :: "string \<Rightarrow> bool" where
  "aes_key_ok key \<longleftrightarrow> length key \<in> {16, 24, 32}"


definition decryptPayload :: "transfer_env \<Rightarrow> encryptedPayload \<Rightarrow> string \<Rightarrow> string option" where
  "decryptPayload tv p password =
     (if ep_algorithm p \<noteq> ''AES-256-GCM-SCRYPT'' then None
      else case b64_decode False (ep_salt p) of
        None \<Rightarrow> None
      | Some salt \<Rightarrow>
          if length salt < 8 then None
          else (case (b64_decode False (ep_nonce p), b64_decode False (ep_ciphertext p)) of
              (Some nonce, Some ciphertext) \<Rightarrow>
                (case tv_key tv password salt of
                   None \<Rightarrow> None
                 | Some key \<Rightarrow>
                     if \<not> aes_key_ok key \<or> length nonce \<noteq> nonce_size then None
                     else tv_open tv key nonce ciphertext configBundleFormat)
            | _ \<Rightarrow> None))"

subsection \<open>Exporting\<close>


definition is_built_in :: "channel \<Rightarrow> bool" where
  "is_built_in c \<longleftrightarrow> ch_built_in c \<or> ch_id c = BuiltInNotificationChannelID"

definition clear_item :: "status_item \<Rightarrow> status_item" where
  "clear_item i = i\<lparr>si_runtime := \<lparr>ir_started_at = zero_time, ir_rules = Some []\<rparr>\<rparr>"

definition stored :: "db_error + 'a \<Rightarrow> transfer_error + 'a" where
  "stored r = (case r of Inl e \<Rightarrow> Inl (StorageError e) | Inr x \<Rightarrow> Inr x)"

lemma stored_Inr [simp]: "stored r = Inr x \<longleftrightarrow> r = Inr x"
  by (simp add: stored_def split: sum.split)





subsection \<open>Reading a bundle\<close>

definition read_part :: "zip_part \<Rightarrow> string \<Rightarrow> bundle_error + string" where
  "read_part p payload =
     (if zp_name p \<noteq> configBundleFilename \<or> zp_is_dir p then Inr payload
      else if maxConfigJSONBytes < zp_size p then Inl ContentTooLarge
      else case zp_content p of
        None \<Rightarrow> Inl EntryUnreadable
      | Some c \<Rightarrow>
          let content = take (maxConfigJSONBytes + 1) c in
          if maxConfigJSONBytes < length content then Inl ContentTooLarge else Inr content)"

definition check_bundle :: "configBundle \<Rightarrow> bundle_error + unit" where
  "check_bundle b =
     (if cb_format b \<noteq> configBundleFormat \<or> cb_version b \<noteq> configBundleVersion then Inl UnsupportedBundle
      else if cb_encrypted b then
        (if cb_protected b = None \<or> cb_data b \<noteq> None then Inl BadEncryptedBundle else Inr ())
      else if cb_data b = None \<or> cb_protected b \<noteq> None then Inl BadPlainBundle
      else Inr ())"

definition readConfigBundle :: "transfer_env \<Rightarrow> string \<Rightarrow> bundle_error + configBundle" where
  "readConfigBundle tv archive =
     (case tv_unzip tv archive of
        None \<Rightarrow> Inl NotZip
      | Some parts \<Rightarrow>
          if parts = [] \<or> maxConfigBundleEntries < length parts then Inl BadEntryCount
          else ok_then (each read_part parts '''') (\<lambda>payload.
            if payload = '''' then Inl ManifestMissing
            else case tv_unmarshal_bundle tv payload of
              None \<Rightarrow> Inl ManifestInvalid
            | Some b \<Rightarrow> ok_then (check_bundle b) (\<lambda>_. Inr b)))"

definition known_contents :: "string list" where
  "known_contents = [''runtime'', ''monitors'', ''notification_channels'', ''status_board_items'',
     ''status_board_shares'', ''admin_key'']"

definition check_content :: "string \<Rightarrow> string list \<Rightarrow> bundle_error + string list" where
  "check_content v seen =
     (if v \<notin> set known_contents then Inl (UnknownContent v)
      else if v \<in> set seen then Inl DuplicateContent
      else Inr (v # seen))"

definition check_payload :: "platform \<Rightarrow> configBundleData \<Rightarrow> bundle_error + configBundleData" where
  "check_payload pl p =
     ok_then (each check_content (cd_contents p) []) (\<lambda>contents.
     let listed = (\<lambda>v. v \<in> set contents) in
     if \<not> listed ''runtime'' then Inl RuntimeMissing
     else if listed ''admin_key'' \<noteq> (cd_admin_key_hash p \<noteq> '''') \<or>
       cd_monitors p \<noteq> [] \<and> \<not> listed ''monitors'' \<or>
       cd_channels p \<noteq> [] \<and> \<not> listed ''notification_channels'' \<or>
       cd_items p \<noteq> [] \<and> \<not> listed ''status_board_items'' \<or>
       cd_shares p \<noteq> [] \<and> \<not> listed ''status_board_shares'' then Inl ContentMismatch
     else (case Validate pl (cd_runtime p) of
         Inl e \<Rightarrow> Inl (RuntimeInvalid e)
       | Inr c \<Rightarrow> Inr (p\<lparr>cd_runtime := c\<rparr>)))"

text \<open>The bundle has passed \<open>check_bundle\<close>: exactly one of its two payloads is there.\<close>

definition decodeConfigBundle ::
    "platform \<Rightarrow> transfer_env \<Rightarrow> configBundle \<Rightarrow> string \<Rightarrow> bundle_error + configBundleData" where
  "decodeConfigBundle pl tv b password =
     ok_then (if cb_encrypted b then
        (if trim_space password = '''' then Inl PasswordRequired
         else case decryptPayload tv (the (cb_protected b)) password of
           None \<Rightarrow> Inl WrongPassword
         | Some plain \<Rightarrow> (case tv_unmarshal tv plain of None \<Rightarrow> Inl ProtectedInvalid | Some p \<Rightarrow> Inr p))
       else Inr (the (cb_data b)))
     (check_payload pl)"

subsection \<open>Is the bundle sound?\<close>

definition default_time :: "time \<Rightarrow> time \<Rightarrow> time" where
  "default_time now t = (if t = zero_time then now else t)"

text \<open>
  The loops over the bundle collect the ids they have seen, and the values as they are changed.
\<close>

definition check_monitor ::
    "transfer_env \<Rightarrow> string \<Rightarrow> time \<Rightarrow> bundle_monitor \<Rightarrow> string list \<times> bundle_monitor list \<Rightarrow>
     bundle_error + string list \<times> bundle_monitor list" where
  "check_monitor tv timezone now b st =
     (let m = bm_monitor b; (seen, acc) = st in
      if mo_id m = '''' \<or> mo_name m = '''' \<or> mo_module_type m = '''' then Inl MonitorFields
      else if mo_id m \<in> set seen then Inl (DuplicateMonitor (mo_id m))
      else if \<not> bm_has_config b then Inl (MonitorConfig (mo_id m))
      else case mo_condition_config m of
        None \<Rightarrow> Inl (MonitorConfig (mo_id m))
      | Some conditions \<Rightarrow>
          if cc_policy conditions \<notin> {'''', ''once'', ''every''} then Inl (MonitorPolicy (mo_id m))
          else (case ValidateSchedules (tv_cron tv) (mo_schedules m) timezone of
              Inl e \<Rightarrow> Inl (MonitorSchedules (mo_id m) e)
            | Inr _ \<Rightarrow>
                if (case tv_modules tv (mo_module_type m) of None \<Rightarrow> True | Some valid \<Rightarrow> valid (mo_module_config m))
                then Inr (mo_id m # seen, acc @
                  [b\<lparr>bm_monitor := m\<lparr>mo_runtime_state := Some zero_runtime_state,
                     mo_created_at := default_time now (mo_created_at m),
                     mo_updated_at := default_time now (mo_updated_at m)\<rparr>\<rparr>])
                else Inl (MonitorConfig (mo_id m))))"

definition check_channel ::
    "transfer_env \<Rightarrow> time \<Rightarrow> bundle_channel \<Rightarrow> string list \<times> bundle_channel list \<Rightarrow>
     bundle_error + string list \<times> bundle_channel list" where
  "check_channel tv now b st =
     (let c = bc_channel b; (seen, acc) = st in
      if ch_id c = '''' \<or> ch_name c = '''' \<or> ch_notifier_type c = '''' then Inl ChannelFields
      else if ch_id c \<in> set seen then Inl (DuplicateChannel (ch_id c))
      else if \<not> bc_has_config b then Inl (ChannelConfig (ch_id c))
      else if (case tv_notifiers tv (ch_notifier_type c) of None \<Rightarrow> True | Some valid \<Rightarrow> valid (ch_config c))
      then Inr (ch_id c # seen, acc @
        [b\<lparr>bc_channel := c\<lparr>ch_created_at := default_time now (ch_created_at c),
           ch_updated_at := default_time now (ch_updated_at c)\<rparr>\<rparr>])
      else Inl (ChannelConfig (ch_id c)))"

definition check_item ::
    "time \<Rightarrow> status_item \<Rightarrow> string list \<times> status_item list \<Rightarrow> bundle_error + string list \<times> status_item list" where
  "check_item now i st =
     (let (seen, acc) = st in
      if si_id i = '''' \<or> si_name i = '''' \<or> si_monitor_id i = '''' then Inl ItemFields
      else if si_id i \<in> set seen then Inl (DuplicateItem (si_id i))
      else if si_history_limit i < 20 \<or> 200 < si_history_limit i then Inl (ItemHistory (si_id i))
      else Inr (si_id i # seen, acc @
        [(clear_item i)\<lparr>si_created_at := default_time now (si_created_at i),
           si_updated_at := default_time now (si_updated_at i)\<rparr>]))"

text \<open>Every id of the list is known.\<close>

definition check_ids :: "(string \<Rightarrow> bundle_error) \<Rightarrow> string list \<Rightarrow> string list \<Rightarrow> bundle_error + unit" where
  "check_ids err known ids = each (\<lambda>i _. if i \<in> set known then Inr () else Inl (err i)) ids ()"

definition check_monitor_refs :: "string list \<Rightarrow> bundle_monitor \<Rightarrow> unit \<Rightarrow> bundle_error + unit" where
  "check_monitor_refs channels b _ =
     check_ids (MissingChannel (mo_id (bm_monitor b))) channels (mo_channel_ids (bm_monitor b))"

definition check_item_refs :: "string list \<Rightarrow> string list \<Rightarrow> status_item \<Rightarrow> unit \<Rightarrow> bundle_error + unit" where
  "check_item_refs monitors channels i _ =
     (if si_monitor_id i \<notin> set monitors then Inl (MissingMonitor (si_id i) (si_monitor_id i))
      else check_ids (MissingChannel (si_id i)) channels (si_channel_ids i))"

text \<open>The chosen ids of a share: none twice, all known.\<close>

definition check_selected ::
    "(string \<Rightarrow> bundle_error) \<Rightarrow> bundle_error \<Rightarrow> string list \<Rightarrow> string list \<Rightarrow> bundle_error + string list" where
  "check_selected missing duplicate known ids =
     each (\<lambda>i chosen. if i \<in> set chosen then Inl duplicate
        else if i \<notin> set known then Inl (missing i) else Inr (i # chosen)) ids []"

definition check_share ::
    "string list \<Rightarrow> string list \<Rightarrow> time \<Rightarrow> share \<Rightarrow> string list \<times> string go_map \<times> share list \<Rightarrow>
     bundle_error + string list \<times> string go_map \<times> share list" where
  "check_share monitors items now s st =
     (let (seen, tokens, acc) = st in
      if sh_id s = '''' \<or> trim_space (sh_name s) = '''' \<or> sh_token s = '''' then Inl ShareFields
      else if sh_id s \<in> set seen then Inl (DuplicateShare (sh_id s))
      else if (case b64_decode True (sh_token s) of None \<Rightarrow> True | Some t \<Rightarrow> length t \<noteq> 32) then Inl (ShareToken (sh_id s))
      else if (case get tokens (sh_token s) of None \<Rightarrow> False | Some owner \<Rightarrow> owner \<noteq> sh_id s)
        then Inl (ShareTokenTaken (sh_id s))
      else if sh_monitor_ids s = [] \<and> sh_item_ids s = [] then Inl (ShareEmpty (sh_id s))
      else
        ok_then (check_selected (ShareMissingMonitor (sh_id s)) (ShareDuplicateMonitor (sh_id s)) monitors (sh_monitor_ids s)) (\<lambda>_.
        ok_then (check_selected (ShareMissingItem (sh_id s)) (ShareDuplicateItem (sh_id s)) items (sh_item_ids s)) (\<lambda>_.
        Inr (sh_id s # seen, put (sh_token s) (sh_id s) tokens, acc @
          [s\<lparr>sh_created_at := default_time now (sh_created_at s)\<rparr>]))))"

definition read_db :: "db_error + 'a \<Rightarrow> bundle_error + 'a" where
  "read_db r = (case r of Inl e \<Rightarrow> Inl (BundleStore e) | Inr x \<Rightarrow> Inr x)"

definition validateConfigBundle ::
    "transfer_env \<Rightarrow> engine \<Rightarrow> time \<Rightarrow> db \<Rightarrow> bool \<Rightarrow> configBundleData \<Rightarrow> bundle_error + configBundleData" where
  "validateConfigBundle tv en now db replace p =
     ok_then (each (check_monitor tv (rc_timezone (rt_scheduler (cd_runtime p))) now) (cd_monitors p) ([], [])) (\<lambda>(mids, monitors).
     ok_then (each (check_channel tv now) (cd_channels p) ([BuiltInNotificationChannelID], [])) (\<lambda>(cids, channels).
     ok_then (each (check_item now) (cd_items p) ([], [])) (\<lambda>(iids, items).
     ok_then (read_db (ListMonitors en db)) (\<lambda>oldMonitors.
     ok_then (read_db (ListChannels en db)) (\<lambda>oldChannels.
     ok_then (read_db (ListStatusBoardItems en db)) (\<lambda>oldItems.
     ok_then (read_db (ListStatusBoardShares en db)) (\<lambda>oldShares.
     let knownMonitors = mids @ (if replace then [] else map mo_id oldMonitors);
         knownChannels = cids @ (if replace then [BuiltInNotificationChannelID] else map ch_id oldChannels);
         knownItems = iids @ (if replace then [] else map si_id oldItems);
         tokens = fold (\<lambda>s. put (sh_token s) (sh_id s)) (if replace then [] else oldShares) [] in
     ok_then (each (check_monitor_refs knownChannels) monitors ()) (\<lambda>_.
     ok_then (each (check_item_refs knownMonitors knownChannels) items ()) (\<lambda>_.
     ok_then (each (check_share knownMonitors knownItems now) (cd_shares p) ([], tokens, [])) (\<lambda>(_, _, shares).
     Inr (p\<lparr>cd_monitors := monitors, cd_channels := channels, cd_items := items, cd_shares := shares\<rparr>)))))))))))"

subsection \<open>The preview\<close>

definition sortConfigTransferItems :: "configTransferItem list \<Rightarrow> configTransferItem list" where
  "sortConfigTransferItems items = sort_key ct_name (sort_key ct_id items)"

definition compareConfigTransferItems ::
    "configTransferItem list \<Rightarrow> configTransferItem list \<Rightarrow> bool \<Rightarrow> configTransferChanges" where
  "compareConfigTransferItems incoming existing replace =
     (let known = ct_id ` set existing; kept = ct_id ` set incoming in
      \<lparr>tc_added = sortConfigTransferItems (filter (\<lambda>i. ct_id i \<notin> known) incoming),
       tc_overwritten = sortConfigTransferItems (filter (\<lambda>i. ct_id i \<in> known) incoming),
       tc_deleted = sortConfigTransferItems (if replace then filter (\<lambda>i. ct_id i \<notin> kept) existing else [])\<rparr>)"

definition no_changes :: configTransferChanges where
  "no_changes = \<lparr>tc_added = [], tc_overwritten = [], tc_deleted = []\<rparr>"

definition runtime_items :: "configTransferItem list" where
  "runtime_items =
     [\<lparr>ct_id = ''storage'', ct_name = utf8 [229, 173, 152, 229, 130, 168, 231, 173, 150, 231, 149, 165]\<rparr>,
      \<lparr>ct_id = ''scheduler'', ct_name = utf8 [232, 176, 131, 229, 186, 166, 229, 153, 168]\<rparr>,
      \<lparr>ct_id = ''logging'', ct_name = utf8 [230, 151, 165, 229, 191, 151, 232, 191, 144, 232, 161, 140, 229, 143, 130, 230, 149, 176]\<rparr>,
      \<lparr>ct_id = ''plugins'', ct_name = utf8 [230, 143, 146, 228, 187, 182, 230, 151, 165, 229, 191, 151]\<rparr>,
      \<lparr>ct_id = ''auth'', ct_name = utf8 [232, 174, 164, 232, 175, 129, 231, 173, 150, 231, 149, 165]\<rparr>,
      \<lparr>ct_id = ''mcp'', ct_name = utf8 [77, 67, 80, 32, 230, 156, 141, 229, 138, 161]\<rparr>]"

definition monitor_items :: "monitor list \<Rightarrow> configTransferItem list" where
  "monitor_items = map (\<lambda>m. \<lparr>ct_id = mo_id m, ct_name = mo_name m\<rparr>)"

definition channel_items :: "channel list \<Rightarrow> configTransferItem list" where
  "channel_items cs = map (\<lambda>c. \<lparr>ct_id = ch_id c, ct_name = ch_name c\<rparr>) (filter (\<lambda>c. \<not> is_built_in c) cs)"

definition board_items :: "status_item list \<Rightarrow> configTransferItem list" where
  "board_items = map (\<lambda>i. \<lparr>ct_id = si_id i, ct_name = si_name i\<rparr>)"

definition share_items :: "share list \<Rightarrow> configTransferItem list" where
  "share_items = map (\<lambda>s. \<lparr>ct_id = sh_id s, ct_name = sh_name s\<rparr>)"

definition buildConfigImportSummary ::
    "engine \<Rightarrow> db \<Rightarrow> configBundleData \<Rightarrow> bool \<Rightarrow> db_error + configTransferSummary" where
  "buildConfigImportSummary en db p replace =
     ok_then (ListMonitors en db) (\<lambda>monitors.
     ok_then (ListChannels en db) (\<lambda>channels.
     ok_then (ListStatusBoardItems en db) (\<lambda>items.
     ok_then (ListStatusBoardShares en db) (\<lambda>shares.
     Inr \<lparr>ts_runtime = no_changes\<lparr>tc_overwritten := runtime_items\<rparr>,
       ts_monitors = compareConfigTransferItems (monitor_items (map bm_monitor (cd_monitors p))) (monitor_items monitors) replace,
       ts_channels = compareConfigTransferItems (channel_items (map bc_channel (cd_channels p))) (channel_items channels) replace,
       ts_items = compareConfigTransferItems (board_items (cd_items p)) (board_items items) replace,
       ts_shares = compareConfigTransferItems (share_items (cd_shares p)) (share_items shares) replace,
       ts_admin_key = (if cd_admin_key_hash p = '''' then no_changes
         else no_changes\<lparr>tc_overwritten := [\<lparr>ct_id = ''administrator_access_key'', ct_name = utf8 [231, 174, 161, 231, 144, 134, 229, 145, 152, 229, 175, 134, 233, 146, 165]\<rparr>]\<rparr>)\<rparr>))))"

subsection \<open>The handlers\<close>

definition parseConfigurationImport ::
    "platform \<Rightarrow> transfer_env \<Rightarrow> engine \<Rightarrow> time \<Rightarrow> string \<Rightarrow> string \<Rightarrow> string option \<Rightarrow> db \<Rightarrow>
     transfer_error + configBundle \<times> configBundleData" where
  "parseConfigurationImport pl tv en now mode key file db =
     (if mode \<noteq> ''merge'' \<and> mode \<noteq> ''replace'' then Inl InvalidMode
      else case file of
        None \<Rightarrow> Inl FileRequired
      | Some archive \<Rightarrow>
          if maxConfigUploadBytes < length archive then Inl FileTooLarge
          else (case readConfigBundle tv archive of
              Inl e \<Rightarrow> Inl (InvalidBundle e)
            | Inr bundle \<Rightarrow>
                (case decodeConfigBundle pl tv bundle key of
                   Inl e \<Rightarrow> Inl (InvalidBundle e)
                 | Inr p \<Rightarrow>
                     if cd_admin_key_hash p \<noteq> '''' \<and> \<not> is_ok (ValidateAccessKeyHash (cd_admin_key_hash p))
                     then Inl InvalidAdminKey
                     else (case validateConfigBundle tv en now db (mode = ''replace'') p of
                         Inl e \<Rightarrow> Inl (InvalidBundle e)
                       | Inr p' \<Rightarrow> Inr (bundle, p')))))"


definition bundle_import :: "configBundleData \<Rightarrow> bool \<Rightarrow> configuration_import" where
  "bundle_import p replace =
     \<lparr>im_runtime = [], im_monitors = map bm_monitor (cd_monitors p), im_channels = map bc_channel (cd_channels p),
      im_items = cd_items p, im_shares = cd_shares p, im_replace = replace, im_admin_key_hash = cd_admin_key_hash p\<rparr>"

text \<open>The result of a success is also announced to the streams of the status board.\<close>

definition importConfiguration ::
    "platform \<Rightarrow> transfer_env \<Rightarrow> engine \<Rightarrow> apply_func \<Rightarrow> time \<Rightarrow> string \<Rightarrow> string \<Rightarrow> string option \<Rightarrow> runtime_manager \<times> db \<Rightarrow>
     (transfer_error + configImportResult) \<times> runtime_manager \<times> db" where
  "importConfiguration pl tv en ap now mode key file mdb =
     (case parseConfigurationImport pl tv en now mode key file (snd mdb) of
        Inl e \<Rightarrow> (Inl e, mdb)
      | Inr (_, p) \<Rightarrow>
          (case buildConfigImportSummary en (snd mdb) p (mode = ''replace'') of
             Inl e \<Rightarrow> (Inl (StorageError e), mdb)
           | Inr summary \<Rightarrow>
               (case Import_config pl ap (cd_runtime p) (import_persist en now (bundle_import p (mode = ''replace''))) mdb of
                  (Inl e, mdb') \<Rightarrow> (Inl (ImportFailed e), mdb')
                | (Inr _, mdb') \<Rightarrow>
                    (Inr \<lparr>cr_imported = True, cr_admin_key_imported = (cd_admin_key_hash p \<noteq> ''''),
                       cr_monitors = length (cd_monitors p), cr_channels = length (cd_channels p),
                       cr_items = length (cd_items p), cr_shares = length (cd_shares p), cr_runtime_types = 6,
                       cr_summary = summary\<rparr>, mdb'))))"

subsection \<open>What a sound bundle satisfies\<close>

lemma collect_each:
  assumes "each f xs (seen, acc) = Inr (seen', acc')"
    and "\<And>x s a s' a'. f x (s, a) = Inr (s', a') \<Longrightarrow> s' = k x # s \<and> (\<exists>y. a' = a @ [y] \<and> R x y)"
  shows "set seen' = k ` set xs \<union> set seen \<and> (\<exists>ys. acc' = acc @ ys \<and> list_all2 R xs ys)"
  using assms(1)
proof (induction xs arbitrary: seen acc)
  case (Cons x xs)
  obtain s a where f: "f x (seen, acc) = Inr (s, a)" "each f xs (s, a) = Inr (seen', acc')"
    using Cons.prems by (auto simp: ok_then_Inr)
  from assms(2) [OF f(1)] obtain y where y: "s = k x # seen" "a = acc @ [y]" "R x y" by blast
  from Cons.IH [OF f(2)] y show ?case by (auto intro: exI [of _ "y # _"])
qed simp

lemma all2_images:
  assumes "list_all2 R xs ys" and "\<And>x y. R x y \<Longrightarrow> g y = f x"
  shows "g ` set ys = f ` set xs"
  using assms(1) by (induction rule: list_all2_induct) (simp_all add: assms(2))

lemma check_monitor_Inr:
  "check_monitor tv timezone now b (s, a) = Inr (s', a') \<Longrightarrow>
   s' = mo_id (bm_monitor b) # s \<and> (\<exists>y. a' = a @ [y] \<and> mo_id (bm_monitor y) = mo_id (bm_monitor b) \<and>
     mo_name (bm_monitor y) = mo_name (bm_monitor b))"
  by (auto simp: check_monitor_def Let_def split: if_split_asm option.split_asm sum.split_asm)

lemma check_channel_Inr:
  "check_channel tv now b (s, a) = Inr (s', a') \<Longrightarrow>
   s' = ch_id (bc_channel b) # s \<and> ch_id (bc_channel b) \<notin> set s \<and> (\<exists>y. a' = a @ [y] \<and> ch_id (bc_channel y) = ch_id (bc_channel b) \<and>
     ch_name (bc_channel y) = ch_name (bc_channel b) \<and> ch_built_in (bc_channel y) = ch_built_in (bc_channel b))"
  by (auto simp: check_channel_def Let_def split: if_split_asm option.split_asm sum.split_asm)

lemma check_item_Inr:
  "check_item now i (s, a) = Inr (s', a') \<Longrightarrow>
   s' = si_id i # s \<and> (\<exists>y. a' = a @ [y] \<and> si_id y = si_id i \<and> si_name y = si_name i)"
  by (auto simp: check_item_def clear_item_def Let_def split: if_split_asm)

lemma check_ids_Inr: "check_ids err known ids = Inr u \<longleftrightarrow> set ids \<subseteq> set known"
  by (induction ids) (auto simp: check_ids_def)

lemma check_item_refs_Inr:
  "check_item_refs monitors channels i u = Inr v \<longleftrightarrow>
   si_monitor_id i \<in> set monitors \<and> set (si_channel_ids i) \<subseteq> set channels"
  by (simp add: check_item_refs_def check_ids_Inr)

lemma check_selected_Inr:
  assumes "check_selected missing duplicate known ids = Inr chosen"
  shows "set ids \<subseteq> set known"
proof -
  have "each (\<lambda>i chosen. if i \<in> set chosen then Inl duplicate else if i \<notin> set known then Inl (missing i) else Inr (i # chosen)) ids c =
      Inr chosen \<Longrightarrow> set ids \<subseteq> set known" for c
    by (induction ids arbitrary: c) (auto simp: ok_then_Inr split: if_split_asm)
  with assms show ?thesis by (simp add: check_selected_def)
qed

lemma each_unit: "each f xs () = Inr () \<longleftrightarrow> (\<forall>x \<in> set xs. f x () = Inr ())"
  by (induction xs) (auto simp: ok_then_Inr)

lemma shares_checked:
  assumes "each (check_share monitors items now) xs (seen, tokens, acc) = Inr (seen', tokens', acc')"
  shows "\<exists>ys. acc' = acc @ ys \<and> sh_id ` set ys = sh_id ` set xs \<and>
    (\<forall>s \<in> set ys. set (sh_monitor_ids s) \<subseteq> set monitors \<and> set (sh_item_ids s) \<subseteq> set items)"
  using assms
proof (induction xs arbitrary: seen tokens acc)
  case (Cons x xs)
  obtain s t a where f: "check_share monitors items now x (seen, tokens, acc) = Inr (s, t, a)"
    "each (check_share monitors items now) xs (s, t, a) = Inr (seen', tokens', acc')"
    using Cons.prems by (auto simp: ok_then_Inr)
  let ?y = "x\<lparr>sh_created_at := default_time now (sh_created_at x)\<rparr>"
  have a: "a = acc @ [?y]" and ids: "set (sh_monitor_ids x) \<subseteq> set monitors" "set (sh_item_ids x) \<subseteq> set items"
    using f(1) by (auto simp: check_share_def ok_then_Inr dest: check_selected_Inr split: if_split_asm)
  from Cons.IH [OF f(2)] obtain ys where "acc' = a @ ys" "sh_id ` set ys = sh_id ` set xs"
    "\<forall>s \<in> set ys. set (sh_monitor_ids s) \<subseteq> set monitors \<and> set (sh_item_ids s) \<subseteq> set items" by blast
  with a ids show ?case by (intro exI [of _ "?y # ys"]) auto
qed simp

lemma listed_ids:
  "ListMonitors en db = Inr ms \<Longrightarrow> mo_id ` set ms = monitor_key ` set (db_monitors db)"
  "ListChannels en db = Inr cs \<Longrightarrow> set cs = set (db_channels db)"
  "ListStatusBoardItems en db = Inr is \<Longrightarrow> si_id ` set is = si_id ` set (db_items db)"
  "ListStatusBoardShares en db = Inr ss \<Longrightarrow> set ss = set (db_shares db)"
  by (auto simp: ListMonitors_def ListChannels_def ListStatusBoardItems_def listStatusBoardItems_def ListStatusBoardShares_def
      run_def monitorToDomain_def statusBoardItemToDomain_def image_image order_desc_def split: if_split_asm)

lemma monitors_checked:
  assumes "each (check_monitor tv timezone now) bs ([], []) = Inr (seen, acc)"
  shows "set seen = mo_id ` bm_monitor ` set bs \<and> mo_id ` bm_monitor ` set acc = mo_id ` bm_monitor ` set bs"
proof -
  let ?R = "\<lambda>x y. mo_id (bm_monitor y) = mo_id (bm_monitor x)"
  have "s' = mo_id (bm_monitor b) # s \<and> (\<exists>y. a' = a @ [y] \<and> ?R b y)"
    if "check_monitor tv timezone now b (s, a) = Inr (s', a')" for b s a s' a'
    using check_monitor_Inr [OF that] by blast
  from collect_each [OF assms, of "\<lambda>b. mo_id (bm_monitor b)" ?R, OF this]
  have seen: "set seen = (\<lambda>b. mo_id (bm_monitor b)) ` set bs" and R: "list_all2 ?R bs acc" by auto
  from all2_images [OF R, of "\<lambda>b. mo_id (bm_monitor b)" "\<lambda>b. mo_id (bm_monitor b)"] seen
  show ?thesis by (simp add: image_image)
qed

definition channel_key :: "bundle_channel \<Rightarrow> string \<times> bool" where
  "channel_key b = (ch_id (bc_channel b), ch_built_in (bc_channel b))"

lemma channels_checked:
  assumes "each (check_channel tv now) bs ([BuiltInNotificationChannelID], []) = Inr (seen, acc)"
  shows "set seen = insert BuiltInNotificationChannelID (ch_id ` bc_channel ` set acc) \<and>
    channel_key ` set acc = channel_key ` set bs \<and> BuiltInNotificationChannelID \<notin> ch_id ` bc_channel ` set acc"
proof -
  let ?R = "\<lambda>x y. channel_key y = channel_key x"
  have "s' = ch_id (bc_channel b) # s \<and> (\<exists>y. a' = a @ [y] \<and> ?R b y)"
    if "check_channel tv now b (s, a) = Inr (s', a')" for b s a s' a'
    using check_channel_Inr [OF that] by (auto simp: channel_key_def)
  from collect_each [OF assms, of "\<lambda>b. ch_id (bc_channel b)" ?R, OF this]
  have seen: "set seen = (\<lambda>b. ch_id (bc_channel b)) ` set bs \<union> {BuiltInNotificationChannelID}" and R: "list_all2 ?R bs acc" by auto
  have keys: "channel_key ` set acc = channel_key ` set bs"
    by (rule all2_images [OF R])
  have "ch_id ` bc_channel ` set acc = (\<lambda>b. ch_id (bc_channel b)) ` set bs"
    using arg_cong [OF keys, of "image fst"] by (simp add: image_image channel_key_def)
  moreover have "BuiltInNotificationChannelID \<notin> ch_id ` bc_channel ` set acc"
  proof -
    let ?P = "\<lambda>st. BuiltInNotificationChannelID \<in> set (fst st) \<and> BuiltInNotificationChannelID \<notin> ch_id ` bc_channel ` set (snd st)"
    have "?P (seen, acc)"
    proof (rule each_keeps [OF assms])
      fix b st st'
      assume "check_channel tv now b st = Inr st'" "?P st"
      then show "?P st'" using check_channel_Inr [of tv now b "fst st" "snd st" "fst st'" "snd st'"] by auto
    qed simp
    then show ?thesis by simp
  qed
  ultimately show ?thesis using seen keys by auto
qed

lemma items_checked:
  assumes "each (check_item now) is ([], []) = Inr (seen, acc)"
  shows "set seen = si_id ` set is \<and> si_id ` set acc = si_id ` set is"
proof -
  let ?R = "\<lambda>x y. si_id y = si_id x"
  have "s' = si_id b # s \<and> (\<exists>y. a' = a @ [y] \<and> ?R b y)"
    if "check_item now b (s, a) = Inr (s', a')" for b s a s' a'
    using check_item_Inr [OF that] by blast
  from collect_each [OF assms, of si_id ?R, OF this]
  have seen: "set seen = si_id ` set is" and R: "list_all2 ?R is acc" by auto
  from all2_images [OF R, of si_id si_id] seen show ?thesis by simp
qed

text \<open>The ids that an import leaves, given those before and those it brings.\<close>

definition ids_after :: "bool \<Rightarrow> string set \<Rightarrow> string set \<Rightarrow> string set" where
  "ids_after replace old imported = (if replace then imported else old \<union> imported)"

lemma valid_bundle:
  assumes "validateConfigBundle tv en now db replace p = Inr q"
  shows "mo_id ` bm_monitor ` set (cd_monitors q) = mo_id ` bm_monitor ` set (cd_monitors p)"
    and "BuiltInNotificationChannelID \<notin> ch_id ` bc_channel ` set (cd_channels q)"
    and "\<forall>b \<in> set (cd_monitors q). set (mo_channel_ids (bm_monitor b)) \<subseteq>
      insert BuiltInNotificationChannelID (ids_after replace (ch_id ` set (db_channels db)) (ch_id ` bc_channel ` set (cd_channels q)))"
    and "\<forall>i \<in> set (cd_items q). si_monitor_id i \<in>
        ids_after replace (monitor_key ` set (db_monitors db)) (mo_id ` bm_monitor ` set (cd_monitors q)) \<and>
      set (si_channel_ids i) \<subseteq>
      insert BuiltInNotificationChannelID (ids_after replace (ch_id ` set (db_channels db)) (ch_id ` bc_channel ` set (cd_channels q)))"
    and "\<forall>s \<in> set (cd_shares q). set (sh_monitor_ids s) \<subseteq>
        ids_after replace (monitor_key ` set (db_monitors db)) (mo_id ` bm_monitor ` set (cd_monitors q)) \<and>
      set (sh_item_ids s) \<subseteq> ids_after replace (si_id ` set (db_items db)) (si_id ` set (cd_items q))"
    and "cd_runtime q = cd_runtime p" and "cd_admin_key_hash q = cd_admin_key_hash p"
    and "channel_key ` set (cd_channels q) = channel_key ` set (cd_channels p)"
    and "si_id ` set (cd_items q) = si_id ` set (cd_items p)" and "sh_id ` set (cd_shares q) = sh_id ` set (cd_shares p)"
proof -
  let ?tz = "rc_timezone (rt_scheduler (cd_runtime p))"
  obtain mids monitors cids channels iids items oldMonitors oldChannels oldItems oldShares seen tokens shares where
    m: "each (check_monitor tv ?tz now) (cd_monitors p) ([], []) = Inr (mids, monitors)" and
    c: "each (check_channel tv now) (cd_channels p) ([BuiltInNotificationChannelID], []) = Inr (cids, channels)" and
    i: "each (check_item now) (cd_items p) ([], []) = Inr (iids, items)" and
    old: "ListMonitors en db = Inr oldMonitors" "ListChannels en db = Inr oldChannels"
      "ListStatusBoardItems en db = Inr oldItems" "ListStatusBoardShares en db = Inr oldShares" and
    mr: "each (check_monitor_refs (cids @ (if replace then [BuiltInNotificationChannelID] else map ch_id oldChannels))) monitors () = Inr ()" and
    ir: "each (check_item_refs (mids @ (if replace then [] else map mo_id oldMonitors))
      (cids @ (if replace then [BuiltInNotificationChannelID] else map ch_id oldChannels))) items () = Inr ()" and
    s: "each (check_share (mids @ (if replace then [] else map mo_id oldMonitors)) (iids @ (if replace then [] else map si_id oldItems)) now)
      (cd_shares p) ([], fold (\<lambda>s. put (sh_token s) (sh_id s)) (if replace then [] else oldShares) [], []) = Inr (seen, tokens, shares)" and
    q: "q = p\<lparr>cd_monitors := monitors, cd_channels := channels, cd_items := items, cd_shares := shares\<rparr>"
    using assms unfolding validateConfigBundle_def ok_then_Inr Let_def
    by (auto simp: read_db_def ok_then_Inr split: sum.split_asm)
  note m' = monitors_checked [OF m] and c' = channels_checked [OF c] and i' = items_checked [OF i]
  note ids = listed_ids(1) [OF old(1)] listed_ids(2) [OF old(2)] listed_ids(3) [OF old(3)]
  let ?C = "cids @ (if replace then [BuiltInNotificationChannelID] else map ch_id oldChannels)"
  let ?M = "mids @ (if replace then [] else map mo_id oldMonitors)"
  let ?I = "iids @ (if replace then [] else map si_id oldItems)"
  have C: "set ?C = insert BuiltInNotificationChannelID (ids_after replace (ch_id ` set (db_channels db)) (ch_id ` bc_channel ` set channels))"
    using c' ids by (auto simp: ids_after_def)
  have M: "set ?M = ids_after replace (monitor_key ` set (db_monitors db)) (mo_id ` bm_monitor ` set monitors)"
    using m' ids by (auto simp: ids_after_def)
  have I: "set ?I = ids_after replace (si_id ` set (db_items db)) (si_id ` set items)"
    using i' ids by (auto simp: ids_after_def)
  show "mo_id ` bm_monitor ` set (cd_monitors q) = mo_id ` bm_monitor ` set (cd_monitors p)" using m' q by simp
  show "cd_runtime q = cd_runtime p" "cd_admin_key_hash q = cd_admin_key_hash p" using q by simp_all
  show "channel_key ` set (cd_channels q) = channel_key ` set (cd_channels p)"
    "si_id ` set (cd_items q) = si_id ` set (cd_items p)" using c' i' by (simp_all add: q)
  show "sh_id ` set (cd_shares q) = sh_id ` set (cd_shares p)" using shares_checked [OF s] by (auto simp: q)
  show "BuiltInNotificationChannelID \<notin> ch_id ` bc_channel ` set (cd_channels q)"
    using conjunct2 [OF conjunct2 [OF c']] by (simp add: q)
  show "\<forall>b \<in> set (cd_monitors q). set (mo_channel_ids (bm_monitor b)) \<subseteq>
      insert BuiltInNotificationChannelID (ids_after replace (ch_id ` set (db_channels db)) (ch_id ` bc_channel ` set (cd_channels q)))"
    using mr unfolding each_unit check_monitor_refs_def check_ids_Inr C by (simp add: q)
  show "\<forall>i \<in> set (cd_items q). si_monitor_id i \<in>
        ids_after replace (monitor_key ` set (db_monitors db)) (mo_id ` bm_monitor ` set (cd_monitors q)) \<and>
      set (si_channel_ids i) \<subseteq>
      insert BuiltInNotificationChannelID (ids_after replace (ch_id ` set (db_channels db)) (ch_id ` bc_channel ` set (cd_channels q)))"
    using ir unfolding each_unit check_item_refs_Inr M C by (simp add: q)
  show "\<forall>s \<in> set (cd_shares q). set (sh_monitor_ids s) \<subseteq>
        ids_after replace (monitor_key ` set (db_monitors db)) (mo_id ` bm_monitor ` set (cd_monitors q)) \<and>
      set (sh_item_ids s) \<subseteq> ids_after replace (si_id ` set (db_items db)) (si_id ` set (cd_items q))"
    using shares_checked [OF s] unfolding M I by (auto simp: q)
qed

subsection \<open>What an import leaves\<close>

lemma import_merge_stages:
  assumes "ImportConfiguration en now input db = Inr (vs, db')" and "\<not> im_replace input"
  obtains db1 db3 db4 db5 db6 where
    "importRuntimeConfigTx en now (im_runtime input) (im_admin_key_hash input) db = Inr (vs, db1)"
    "each (upsertNotificationChannelTx en) (import_channels (im_channels input)) db1 = Inr db3"
    "each (upsertMonitorTx en) (im_monitors input) db3 = Inr db4"
    "each (upsertStatusBoardItemTx en) (im_items input) db4 = Inr db5"
    "each (upsertStatusBoardShareTx en) (im_shares input) db5 = Inr db6"
    "db' = (if im_admin_key_hash input = [] then db6 else db6\<lparr>db_sessions := []\<rparr>)"
  using assms unfolding ImportConfiguration_def import_body_def
  by (cases "im_admin_key_hash input = []"; simp add: ok_then_Inr delete_table_Inr; blast)

lemma import_merges:
  assumes "ImportConfiguration en now input db = Inr (vs, db')" and "\<not> im_replace input"
  shows "monitor_key ` set (db_monitors db') = monitor_key ` set (db_monitors db) \<union> mo_id ` set (im_monitors input) \<and>
    si_id ` set (db_items db') = si_id ` set (db_items db) \<union> si_id ` set (im_items input) \<and>
    sh_id ` set (db_shares db') = sh_id ` set (db_shares db) \<union> sh_id ` set (im_shares input) \<and>
    ch_id ` set (db_channels db') = ch_id ` set (db_channels db) \<union> ch_id ` set (import_channels (im_channels input))"
proof -
  from import_merge_stages [OF assms] obtain db1 db3 db4 db5 db6 where
    r: "importRuntimeConfigTx en now (im_runtime input) (im_admin_key_hash input) db = Inr (vs, db1)" and
    u: "each (upsertNotificationChannelTx en) (import_channels (im_channels input)) db1 = Inr db3"
      "each (upsertMonitorTx en) (im_monitors input) db3 = Inr db4"
      "each (upsertStatusBoardItemTx en) (im_items input) db4 = Inr db5"
      "each (upsertStatusBoardShareTx en) (im_shares input) db5 = Inr db6" and
    d: "db' = (if im_admin_key_hash input = [] then db6 else db6\<lparr>db_sessions := []\<rparr>)" .
  note stages = upsert_channels [OF u(1)] upsert_monitors [OF u(2)] upsert_items [OF u(3)] upsert_shares [OF u(4)]
  note f = frames(1) [OF conjunct1 [OF stages(1)]] frames(2) [OF conjunct1 [OF stages(2)]]
    frames(3) [OF conjunct1 [OF stages(3)]] frames(4) [OF conjunct1 [OF stages(4)]]
  have last: "db_monitors db' = db_monitors db6" "db_items db' = db_items db6" "db_shares db' = db_shares db6"
    "db_channels db' = db_channels db6" using d by simp_all
  have runtime: "db_monitors db1 = db_monitors db" "db_channels db1 = db_channels db" "db_items db1 = db_items db"
      "db_shares db1 = db_shares db"
    by (rule import_runtime_same [OF r]; simp)+
  have "monitor_key ` set (db_monitors db') = monitor_key ` set (db_monitors db) \<union> mo_id ` set (im_monitors input)"
    using f last(1) runtime(1) conjunct2 [OF stages(2)] by simp
  moreover have "si_id ` set (db_items db') = si_id ` set (db_items db) \<union> si_id ` set (im_items input)"
    using f last(2) runtime(3) conjunct2 [OF stages(3)] by simp
  moreover have "sh_id ` set (db_shares db') = sh_id ` set (db_shares db) \<union> sh_id ` set (im_shares input)"
    using f last(3) runtime(4) conjunct2 [OF stages(4)] by simp
  moreover have "ch_id ` set (db_channels db') = ch_id ` set (db_channels db) \<union> ch_id ` set (import_channels (im_channels input))"
    using f last(4) runtime(2) conjunct2 [OF stages(1)] by simp
  ultimately show ?thesis by blast
qed

text \<open>Both modes at once, for an import whose channels are not flagged as built in.\<close>

lemma import_ids:
  assumes "import_persist en now (bundle_import q replace) ds db = Inr (vs, db')"
    and "\<forall>b \<in> set (cd_channels q). \<not> is_built_in (bc_channel b)" and "wf_channels (db_channels db)"
    and "BuiltInNotificationChannelID \<in> ch_id ` {c \<in> set (db_channels db). ch_built_in c}"
  shows "monitor_key ` set (db_monitors db') =
      ids_after replace (monitor_key ` set (db_monitors db)) (mo_id ` bm_monitor ` set (cd_monitors q))"
    and "si_id ` set (db_items db') = ids_after replace (si_id ` set (db_items db)) (si_id ` set (cd_items q))"
    and "sh_id ` set (db_shares db') = ids_after replace (sh_id ` set (db_shares db)) (sh_id ` set (cd_shares q))"
    and "ch_id ` set (db_channels db') = insert BuiltInNotificationChannelID
      (ids_after replace (ch_id ` set (db_channels db)) (ch_id ` bc_channel ` set (cd_channels q)))"
proof -
  let ?in = "(bundle_import q replace)\<lparr>im_runtime := map (\<lambda>(t, v). (t, Some v)) ds\<rparr>"
  note i = assms(1) [unfolded import_persist_def]
  have in_simps: "im_replace ?in = replace" "im_monitors ?in = map bm_monitor (cd_monitors q)"
    "im_channels ?in = map bc_channel (cd_channels q)" "im_items ?in = cd_items q" "im_shares ?in = cd_shares q"
    by (simp_all add: bundle_import_def)
  have ch: "set (import_channels (map bc_channel (cd_channels q))) = bc_channel ` set (cd_channels q)"
    using assms(2) by (auto simp: import_channels_def is_built_in_def)
  have b: "BuiltInNotificationChannelID \<in> ch_id ` set (db_channels db)" using assms(4) by auto
  have all: "monitor_key ` set (db_monitors db') =
      ids_after replace (monitor_key ` set (db_monitors db)) (mo_id ` bm_monitor ` set (cd_monitors q)) \<and>
    si_id ` set (db_items db') = ids_after replace (si_id ` set (db_items db)) (si_id ` set (cd_items q)) \<and>
    sh_id ` set (db_shares db') = ids_after replace (sh_id ` set (db_shares db)) (sh_id ` set (cd_shares q)) \<and>
    ch_id ` set (db_channels db') = insert BuiltInNotificationChannelID
      (ids_after replace (ch_id ` set (db_channels db)) (ch_id ` bc_channel ` set (cd_channels q)))"
  proof (cases replace)
    case True
    note r = import_replaces [OF i, unfolded in_simps, OF True]
    have "ch_id ` {c \<in> set (db_channels db). ch_built_in c \<or> ch_id c \<in> ch_id ` bc_channel ` set (cd_channels q)} \<union>
        ch_id ` bc_channel ` set (cd_channels q) = insert BuiltInNotificationChannelID (ch_id ` bc_channel ` set (cd_channels q))"
    proof -
      obtain c0 where c0: "c0 \<in> set (db_channels db)" "ch_built_in c0" "ch_id c0 = BuiltInNotificationChannelID"
        using assms(4) by auto
      define J where "J = ch_id ` bc_channel ` set (cd_channels q)"
      have "ch_id c0 \<in> ch_id ` {c \<in> set (db_channels db). ch_built_in c \<or> ch_id c \<in> J}" using c0 by blast
      moreover have "ch_id c = BuiltInNotificationChannelID" if "c \<in> set (db_channels db)" "ch_built_in c" for c
        using assms(3) that by (simp add: wf_channels_def)
      ultimately have "ch_id ` {c \<in> set (db_channels db). ch_built_in c \<or> ch_id c \<in> J} \<union> J = insert BuiltInNotificationChannelID J"
        using c0(3) by (intro equalityI subsetI) auto
      then show ?thesis by (simp only: J_def)
    qed
    with r True show ?thesis by (simp add: ids_after_def ch image_image)
  next
    case False
    note r = import_merges [OF i, unfolded in_simps, OF False]
    from r False b show ?thesis by (simp add: ids_after_def ch image_image insert_absorb)
  qed
  then show "monitor_key ` set (db_monitors db') =
      ids_after replace (monitor_key ` set (db_monitors db)) (mo_id ` bm_monitor ` set (cd_monitors q))"
    "si_id ` set (db_items db') = ids_after replace (si_id ` set (db_items db)) (si_id ` set (cd_items q))"
    "sh_id ` set (db_shares db') = ids_after replace (sh_id ` set (db_shares db)) (sh_id ` set (cd_shares q))"
    "ch_id ` set (db_channels db') = insert BuiltInNotificationChannelID
      (ids_after replace (ch_id ` set (db_channels db)) (ch_id ` bc_channel ` set (cd_channels q)))" by blast+
qed

lemma Import_config_Inr:
  assumes "Import_config pl ap candidate persist (m, db) = (Inr c, m', db')"
  shows "\<exists>ds vs. persist ds db = Inr (vs, db')"
  using assms by (auto simp: Import_config_def Let_def split: sum.split_asm prod.split_asm)

lemma importConfiguration_Inr:
  assumes "importConfiguration pl tv en ap now mode key file (m, db) = (Inr r, m', db')"
  obtains b q ds vs where "parseConfigurationImport pl tv en now mode key file db = Inr (b, q)"
    "buildConfigImportSummary en db q (mode = ''replace'') = Inr (cr_summary r)"
    "import_persist en now (bundle_import q (mode = ''replace'')) ds db = Inr (vs, db')"
proof -
  obtain b q where p: "parseConfigurationImport pl tv en now mode key file db = Inr (b, q)"
    using assms by (auto simp: importConfiguration_def split: sum.split_asm)
  obtain s where s: "buildConfigImportSummary en db q (mode = ''replace'') = Inr s"
    using assms p by (auto simp: importConfiguration_def split: sum.split_asm)
  obtain x where x: "Import_config pl ap (cd_runtime q) (import_persist en now (bundle_import q (mode = ''replace''))) (m, db) = (x, m', db')"
    "is_ok x" "cr_summary r = s"
    using assms p s by (auto simp: importConfiguration_def split: sum.split_asm prod.split_asm)
  then obtain c where "x = Inr c" by (cases x) auto
  with x(1) Import_config_Inr obtain ds vs where
    "import_persist en now (bundle_import q (mode = ''replace'')) ds db = Inr (vs, db')" by blast
  with that [OF p] s x(3) show thesis by simp
qed

lemma parse_valid:
  assumes "parseConfigurationImport pl tv en now mode key file db = Inr (b, q)"
  obtains p where "validateConfigBundle tv en now db (mode = ''replace'') p = Inr q" "Validate pl (cd_runtime p) = Inr (cd_runtime p)"
proof -
  obtain archive p where d: "decodeConfigBundle pl tv b key = Inr p"
    "validateConfigBundle tv en now db (mode = ''replace'') p = Inr q"
    using assms by (auto simp: parseConfigurationImport_def split: if_split_asm option.split_asm sum.split_asm)
  obtain p0 c where "Validate pl (cd_runtime p0) = Inr c" "p = p0\<lparr>cd_runtime := c\<rparr>"
    using d(1) by (auto simp: decodeConfigBundle_def check_payload_def ok_then_Inr Let_def split: if_split_asm sum.split_asm)
  with d(2) that show thesis by (simp add: Validate_idem)
qed

subsection \<open>Properties of the transfer\<close>

text \<open>
  C17: An import that succeeds leaves nothing dangling: every notification channel that an
  imported monitor or status item names is stored, so is the monitor of every imported status
  item, and every monitor and item of an imported share - whatever of this the bundle brings
  and whatever was there before, merged or replaced. (A channel of the bundle that claims to
  be built in is excluded: it passes as a target, but is not imported.)
\<close>

theorem imported_references_resolve:
  assumes "importConfiguration pl tv en ap now mode key file (m, db) = (Inr r, m', db')"
    and "parseConfigurationImport pl tv en now mode key file db = Inr (b, q)"
    and "\<forall>x \<in> set (cd_channels q). \<not> ch_built_in (bc_channel x)" and "wf_channels (db_channels db)"
    and "BuiltInNotificationChannelID \<in> ch_id ` {c \<in> set (db_channels db). ch_built_in c}"
  shows "(\<forall>x \<in> set (cd_monitors q). mo_id (bm_monitor x) \<in> monitor_key ` set (db_monitors db') \<and>
      set (mo_channel_ids (bm_monitor x)) \<subseteq> ch_id ` set (db_channels db')) \<and>
    (\<forall>i \<in> set (cd_items q). si_id i \<in> si_id ` set (db_items db') \<and>
      si_monitor_id i \<in> monitor_key ` set (db_monitors db') \<and> set (si_channel_ids i) \<subseteq> ch_id ` set (db_channels db')) \<and>
    (\<forall>s \<in> set (cd_shares q). sh_id s \<in> sh_id ` set (db_shares db') \<and>
      set (sh_monitor_ids s) \<subseteq> monitor_key ` set (db_monitors db') \<and> set (sh_item_ids s) \<subseteq> si_id ` set (db_items db'))"
proof -
  let ?replace = "mode = ''replace''"
  obtain ds vs where i: "import_persist en now (bundle_import q ?replace) ds db = Inr (vs, db')"
    using importConfiguration_Inr [OF assms(1)] assms(2) by (metis Inr_inject Pair_inject)
  obtain p where v: "validateConfigBundle tv en now db ?replace p = Inr q" using parse_valid [OF assms(2)] .
  note v' = valid_bundle [OF v]
  have "\<forall>x \<in> set (cd_channels q). \<not> is_built_in (bc_channel x)"
    using assms(3) v'(2) by (metis image_eqI is_built_in_def)
  note ids = import_ids [OF i this assms(4,5)]
  have in_after: "A \<subseteq> ids_after ?replace old A" for old A by (auto simp: ids_after_def)
  show ?thesis
    unfolding ids using v'(3-5) in_after by (auto simp: ids_after_def)
qed








lemma summary_parts:
  assumes "buildConfigImportSummary en db q replace = Inr s"
  obtains ms cs bs ss where "ListMonitors en db = Inr ms" "ListChannels en db = Inr cs"
    "ListStatusBoardItems en db = Inr bs" "ListStatusBoardShares en db = Inr ss"
    "ts_monitors s = compareConfigTransferItems (monitor_items (map bm_monitor (cd_monitors q))) (monitor_items ms) replace"
    "ts_channels s = compareConfigTransferItems (channel_items (map bc_channel (cd_channels q))) (channel_items cs) replace"
    "ts_items s = compareConfigTransferItems (board_items (cd_items q)) (board_items bs) replace"
    "ts_shares s = compareConfigTransferItems (share_items (cd_shares q)) (share_items ss) replace"
proof -
  obtain ms cs bs ss where l: "ListMonitors en db = Inr ms" "ListChannels en db = Inr cs"
    "ListStatusBoardItems en db = Inr bs" "ListStatusBoardShares en db = Inr ss"
    using assms unfolding buildConfigImportSummary_def ok_then_Inr by blast
  show thesis
    by (rule that [OF l]) (use assms in \<open>auto simp: buildConfigImportSummary_def ok_then_def l\<close>)
qed









text \<open>
  C0: What was exported can be imported: the archive of an export, read back with the same
  password, gives the bundle and exactly the exported data, encrypted or not, whatever parts
  were chosen - as long as the archive is within the limits of an upload and a password does
  not consist of white space. JSON, zip and AES-GCM are assumed to read what they wrote.
\<close>


subsection \<open>An example\<close>

definition example_channel :: "string \<Rightarrow> bool \<Rightarrow> channel" where
  "example_channel i built_in = \<lparr>ch_id = i, ch_name = i, ch_notifier_type = ''inapp'', ch_enabled = True, ch_config = VObj [],
     ch_created_at = 0, ch_updated_at = 0, ch_built_in = built_in\<rparr>"

definition example_monitor :: bundle_monitor where
  "example_monitor = \<lparr>bm_monitor = (test_monitor ''m'')\<lparr>mo_schedules := [''x''],
     mo_condition_config := Some \<lparr>cc_logic = ''all'', cc_rules = [], cc_policy = ''once''\<rparr>,
     mo_channel_ids := [BuiltInNotificationChannelID, ''c''], mo_runtime_state := Some zero_runtime_state\<rparr>, bm_has_config = True\<rparr>"

definition example_payload :: configBundleData where
  "example_payload = \<lparr>cd_contents = [''runtime'', ''monitors'', ''notification_channels''], cd_runtime = DefaultRuntimeConfig,
     cd_monitors = [example_monitor], cd_channels = [\<lparr>bc_channel = example_channel ''c'' False, bc_has_config = True\<rparr>],
     cd_items = [], cd_shares = [], cd_admin_key_hash = ''''\<rparr>"

definition example_bundle :: configBundle where
  "example_bundle = \<lparr>cb_format = configBundleFormat, cb_version = configBundleVersion, cb_exported_at = 5,
     cb_encrypted = False, cb_data = Some example_payload, cb_protected = None\<rparr>"

text \<open>The texts of an example: the archive is its one content, sealing reverses.\<close>

definition example_env :: "configBundleData \<Rightarrow> configBundle \<Rightarrow> transfer_env" where
  "example_env p b = \<lparr>tv_marshal = (\<lambda>_. ''[]''), tv_unmarshal = (\<lambda>s. if s = ''[]'' then Some p else None),
     tv_marshal_bundle = (\<lambda>_. ''{}''), tv_unmarshal_bundle = (\<lambda>s. if s = ''{}'' then Some b else None),
     tv_zip = (\<lambda>_ s. s),
     tv_unzip = (\<lambda>s. Some [\<lparr>zp_name = configBundleFilename, zp_is_dir = False, zp_size = length s, zp_content = Some s\<rparr>]),
     tv_key = (\<lambda>_ _. Some (replicate 32 (CHR ''k''))), tv_seal = (\<lambda>_ _ s _. rev s), tv_open = (\<lambda>_ _ s _. Some (rev s)),
     tv_modules = (\<lambda>_. None), tv_notifiers = (\<lambda>_. None), tv_cron = test_cron\<rparr>"

definition example_db :: db where
  "example_db = default_db\<lparr>db_channels := [example_channel BuiltInNotificationChannelID True],
     db_monitors := [monitorFromDomain (test_monitor ''old'')]\<rparr>"

abbreviation example_world :: transfer_env where
  "example_world \<equiv> example_env example_payload example_bundle"

lemma example_parse:
  "parseConfigurationImport test_platform example_world (test_engine True) 7 ''replace'' '''' (Some ''{}'') example_db =
     Inr (example_bundle, example_payload)"
proof -
  have r: "readConfigBundle example_world ''{}'' = Inr example_bundle"
    by (simp add: readConfigBundle_def example_env_def read_part_def Let_def maxConfigBundleEntries_def maxConfigJSONBytes_def
        check_bundle_def example_bundle_def)
  have v: "Validate test_platform DefaultRuntimeConfig = Inr DefaultRuntimeConfig"
    using default_valid [of test_platform "rt_mcp DefaultRuntimeConfig"] by simp
  have d: "decodeConfigBundle test_platform example_world example_bundle '''' = Inr example_payload"
    by (simp add: decodeConfigBundle_def example_bundle_def check_payload_def example_payload_def check_content_def
        known_contents_def Let_def v)
  have s: "ValidateSchedules test_cron [''x''] ''Local'' = Inr ()"
  proof -
    have "trim_space ''x'' \<noteq> []" by code_simp
    then show ?thesis by (simp add: ValidateSchedules_def parseSchedule_def)
  qed
  have c: "validateConfigBundle example_world (test_engine True) 7 example_db True example_payload = Inr example_payload"
    by (simp add: validateConfigBundle_def example_payload_def check_monitor_def check_channel_def example_monitor_def
        example_channel_def example_env_def test_monitor_def Let_def s DefaultRuntimeConfig_def read_db_def
        ListMonitors_def ListChannels_def ListStatusBoardItems_def listStatusBoardItems_def ListStatusBoardShares_def run_def
        test_engine_def check_monitor_refs_def check_ids_def default_time_def zero_time_def BuiltInNotificationChannelID_def)
  show ?thesis
    by (simp add: parseConfigurationImport_def r d c maxConfigUploadBytes_def) (simp add: example_payload_def)
qed

lemma one_row:
  assumes "distinct (map sc_type cs)" and "row \<in> set cs" and "sc_type row = t"
  shows "length (filter (\<lambda>c. sc_type c = t) cs) = 1"
  using assms
proof (induction cs)
  case (Cons c cs)
  show ?case
  proof (cases "sc_type c = t")
    case True
    with Cons.prems(1) have "filter (\<lambda>c. sc_type c = t) cs = []"
      by (auto simp: filter_empty_conv) (metis imageI)
    with True show ?thesis by simp
  next
    case False
    with Cons show ?thesis by auto
  qed
qed simp

lemma import_sections_ok:
  assumes "sound_engine en" and "en_counts_matched en" and "set ts \<subseteq> set managedTypes"
  shows "config_rows_ok db \<Longrightarrow> set managedTypes \<subseteq> sc_type ` set (db_configs db) \<Longrightarrow>
    \<exists>vs' cs. each (import_section en now k) (map (\<lambda>t. (t, Some (domain c t))) ts) (vs, db) = Inr (vs', db\<lparr>db_configs := cs\<rparr>)"
  using assms(3)
proof (induction ts arbitrary: vs db)
  case Nil
  then show ?case by (auto intro: exI [of _ "db_configs db"])
next
  case (Cons t ts)
  have s: "selects_ok en" using assms(1) by (simp add: sound_engine_def selects_ok_def)
  obtain row where row: "row \<in> set (db_configs db)" "sc_type row = t" using Cons.prems(2,3) by auto
  have dist: "distinct (map sc_type (db_configs db))" using Cons.prems(1) by (simp add: config_rows_ok_def)
  have g: "GetSystemConfig en t db = Inr row"
    unfolding GetSystemConfig_row [OF s] by (rule unique_config [OF dist row])
  have "\<exists>w. import_data en k t (domain c t) db = Inr w"
  proof (cases "t = system_auth")
    case True
    then have "auth_canonical (sc_data row)" using Cons.prems(1) row by (simp add: config_rows_ok_def)
    with True g show ?thesis
      by (auto simp: import_data_def domain_def decode_encode_runtime_auth auth_canonical_def)
  qed (simp add: import_data_def)
  then obtain w where w: "import_data en k t (domain c t) db = Inr w" ..
  let ?P = "\<lambda>c. sc_type c = t"
  let ?db = "db\<lparr>db_configs := update_rows ?P (bump_config now w) (db_configs db)\<rparr>"
  have one: "rows_affected en ?P (bump_config now w) (db_configs db) = 1"
    using one_row [OF dist row] assms(2) by (simp add: rows_affected_def)
  have g': "GetSystemConfig en t ?db = Inr (bump_config now w row)"
    using g find_first_bump [of t t "\<lambda>_. True" now w "db_configs db"] by (simp add: GetSystemConfig_row [OF s])
  have step: "import_section en now k (t, Some (domain c t)) (vs, db) = Inr (put t (sc_version (bump_config now w row)) vs, ?db)"
    using w one g' assms(1) by (simp add: import_section_def Let_def run_def sound_engine_def)
  have "config_rows_ok ?db" by (rule import_section_keeps_rows [OF step Cons.prems(1)])
  moreover have "set managedTypes \<subseteq> sc_type ` set (db_configs ?db)"
    using Cons.prems(2) arg_cong [OF import_section_rows(3) [OF step s], of set] by simp
  ultimately obtain vs' cs where
    "each (import_section en now k) (map (\<lambda>t. (t, Some (domain c t))) ts) (put t (sc_version (bump_config now w row)) vs, ?db) =
      Inr (vs', ?db\<lparr>db_configs := cs\<rparr>)"
    using Cons.IH [of ?db "put t (sc_version (bump_config now w row)) vs"] Cons.prems(3) by auto
  with step show ?case by (intro exI [of _ vs'] exI [of _ cs]) simp
qed

lemma example_persist:
  "\<exists>vs db'. import_persist (test_engine True) 7 (bundle_import example_payload True)
     (map (\<lambda>t. (t, domain DefaultRuntimeConfig t)) managedTypes) example_db = Inr (vs, db')"
proof -
  have e: "sound_engine (test_engine True)" "en_counts_matched (test_engine True)"
    by (simp_all add: sound_engine_def test_engine_def)
  have "config_rows_ok example_db" using default_db_ok by (simp add: config_rows_ok_def example_db_def)
  moreover have "set managedTypes \<subseteq> sc_type ` set (db_configs example_db)"
    by (auto simp: example_db_def default_db_def image_image)
  ultimately obtain vs cs where
    r: "each (import_section (test_engine True) 7 '''') (map (\<lambda>t. (t, Some (domain DefaultRuntimeConfig t))) managedTypes) ([], example_db) =
      Inr (vs, example_db\<lparr>db_configs := cs\<rparr>)"
    using import_sections_ok [OF e subset_refl, of example_db 7 "''''" DefaultRuntimeConfig "[]"] by blast
  have ok: "en_ok (test_engine True) x" for x by (simp add: test_engine_def)
  show ?thesis
    by (simp add: import_persist_def ImportConfiguration_def import_body_def bundle_import_def importRuntimeConfigTx_def comp_def
        example_payload_def r ok clearTransferableConfigurationTx_def delete_table_def run_def remove_monitors_def
        delete_rows_def import_channels_def upsertMonitorTx_def upsertNotificationChannelTx_def Let_def)
qed

lemma example_manager:
  obtains m where "manager_ok test_platform (test_engine True) m example_db" "rm_config m = DefaultRuntimeConfig"
proof -
  have e: "sound_engine (test_engine True)" by (simp add: sound_engine_def test_engine_def)
  obtain m where m: "New_manager test_platform (test_engine True) 0 default_db = (Inr m, default_db)" "rm_config m = DefaultRuntimeConfig"
    using default_start [OF e] by metis
  have "db_configs example_db = db_configs default_db" by (simp add: example_db_def)
  from that [OF _ m(2)] new_manager_ok(1) [OF m(1) default_db_ok] manager_ok_db [OF this] show thesis by blast
qed

lemma example_summary:
  obtains s where "buildConfigImportSummary (test_engine True) example_db example_payload True = Inr s"
    "ct_id ` set (tc_deleted (ts_monitors s)) = {''old''}" "ct_id ` set (tc_added (ts_monitors s)) = {''m''}"
proof -
  have ok: "en_ok (test_engine True) x" for x by (simp add: test_engine_def)
  have "\<exists>s. buildConfigImportSummary (test_engine True) example_db example_payload True = Inr s"
    by (simp add: buildConfigImportSummary_def ok ListMonitors_def ListChannels_def ListStatusBoardItems_def
        listStatusBoardItems_def ListStatusBoardShares_def run_def)
  then obtain s where s: "buildConfigImportSummary (test_engine True) example_db example_payload True = Inr s" ..
  obtain ms where ms: "ListMonitors (test_engine True) example_db = Inr ms"
    "ts_monitors s = compareConfigTransferItems (monitor_items (map bm_monitor (cd_monitors example_payload))) (monitor_items ms) True"
    by (rule summary_parts [OF s])
  have "ms = [test_monitor ''old'']"
    using ms(1) by (simp add: ListMonitors_def run_def ok example_db_def order_desc_def monitorToDomain_def)
  then have "ts_monitors s = compareConfigTransferItems [\<lparr>ct_id = ''m'', ct_name = ''m''\<rparr>] [\<lparr>ct_id = ''old'', ct_name = ''old''\<rparr>] True"
    by (simp add: ms(2) monitor_items_def example_payload_def example_monitor_def test_monitor_def)
  then show thesis
    by (intro that [OF s]) (simp_all add: compareConfigTransferItems_def sortConfigTransferItems_def)
qed

lemma transfer_example_import:
  assumes "manager_ok test_platform (test_engine True) m example_db" and "rm_config m = DefaultRuntimeConfig"
  obtains r m' db' where "importConfiguration test_platform example_world (test_engine True) None 7 ''replace'' '''' (Some ''{}'')
    (m, example_db) = (Inr r, m', db')"
proof -
  have s: "selects_ok (test_engine True)" by (simp add: selects_ok_def test_engine_def)
  have v: "Validate test_platform (clear_key DefaultRuntimeConfig) = Inr DefaultRuntimeConfig"
    using default_valid [of test_platform "rt_mcp DefaultRuntimeConfig"] by (simp add: clear_key_def DefaultRuntimeConfig_def)
  obtain vs db' where p: "import_persist (test_engine True) 7 (bundle_import example_payload True)
      (map (\<lambda>t. (t, domain DefaultRuntimeConfig t)) managedTypes) example_db = Inr (vs, db')"
    using example_persist by blast
  have rows: "config_rows_ok example_db" using assms(1) by (simp add: manager_ok_def)
  obtain ws where "take_versions vs managedTypes m = (Inr (), m\<lparr>rm_versions := ws\<rparr>)"
    using import_commit_ok [OF p s rows, of test_platform m] Validate_idem [OF v]
    by (auto simp: DefaultRuntimeConfig_def int64_config_def)
  then obtain c m' where "Import_config test_platform None DefaultRuntimeConfig (import_persist (test_engine True) 7
      (bundle_import example_payload True)) (m, example_db) = (Inr c, m', db')"
    using v p by (auto simp: Import_config_def apply_change_def)
  moreover obtain sum where "buildConfigImportSummary (test_engine True) example_db example_payload True = Inr sum"
    by (rule example_summary)
  moreover have "cd_runtime example_payload = DefaultRuntimeConfig" by (simp add: example_payload_def)
  ultimately show thesis by (intro that) (simp add: importConfiguration_def example_parse)
qed

lemma example_channels:
  "\<forall>x \<in> set (cd_channels example_payload). \<not> ch_built_in (bc_channel x)" "wf_channels (db_channels example_db)"
  "BuiltInNotificationChannelID \<in> ch_id ` {c \<in> set (db_channels example_db). ch_built_in c}"
  by (simp_all add: example_payload_def example_channel_def example_db_def wf_channels_def image_iff)

theorem imported_references_resolve_witness:
  "\<exists>m r m' db'. importConfiguration test_platform example_world (test_engine True) None 7 ''replace'' '''' (Some ''{}'')
     (m, example_db) = (Inr r, m', db') \<and> {BuiltInNotificationChannelID, ''c''} \<subseteq> ch_id ` set (db_channels db')"
proof -
  obtain m where m: "manager_ok test_platform (test_engine True) m example_db" "rm_config m = DefaultRuntimeConfig"
    by (rule example_manager)
  obtain r m' db' where i: "importConfiguration test_platform example_world (test_engine True) None 7 ''replace'' '''' (Some ''{}'')
    (m, example_db) = (Inr r, m', db')" by (rule transfer_example_import [OF m])
  from imported_references_resolve [OF i example_parse example_channels]
  have "{BuiltInNotificationChannelID, ''c''} \<subseteq> ch_id ` set (db_channels db')"
    by (simp add: example_payload_def example_monitor_def)
  with i show ?thesis by blast
qed





end
