(* ===== verification/Spec2Isabelle.thy ===== *)
theory Spec2Isabelle
  imports StatusEval StoreCommit StoreAdmin Hubs Registry Gate StatusService Summary Runner Scheduler Auth
    BrowserManager BrowserActions PluginPackage PluginManager PluginImport RuntimeManager ConfigTransfer
begin

text \<open>
  Meerkit: monitoring with pluggable modules, conditions, trend rules and notifications.

  The server (Go, under \<open>src/internal\<close>) runs \<open>monitors\<close> on cron schedules. A run calls the
  module of the monitor, which may live in a plugin process, evaluates the condition of the
  monitor and the trend rules of its status items over the result, commits the record, the
  new states and the deliveries that wait in one transaction, and then notifies the channels.
  Everything else (the web API, the status board, the administration) reads and changes the
  same database.

  Theories, and the code they model:

    \<^item> \<open>Prelude\<close>: maps as association lists in insertion order (\<open>go_map\<close>), results of fallible
      calls as sums, loops over such calls (\<open>each\<close>), times as nanoseconds.
    \<^item> \<open>GoStrings\<close>, \<open>GoRunes\<close>, \<open>Base64\<close>: Go's strings as bytes, trimming, splitting, decimal
      numbers, UTF-8, Base64. \<open>GoFloat\<close>: binary64 as rationals with rounding, infinities and
      NaN. \<open>GoValue\<close>: values of the type \<open>any\<close>, \<open>reflect.DeepEqual\<close>, printing, JSON.
      \<open>GoTime\<close>: the layouts of times. \<open>Texts\<close>: the Chinese texts, byte by byte.
    \<^item> \<open>Domain\<close>: \<open>core/domain.go\<close>, \<open>status_board.go\<close>, \<open>results.go\<close>, \<open>plugin.go\<close>.
    \<^item> \<open>Conditions\<close>: \<open>core/condition.go\<close>, every function.
    \<^item> \<open>StatusEval\<close>: \<open>statusboard/evaluator.go\<close>, the samples and the five kinds of trend rules.
    \<^item> \<open>StoreSchema\<close>, \<open>Store\<close>, \<open>StoreAdmin\<close>: the database (tables as lists of rows, foreign
      keys and unique keys, transactions, the difference between the two engines in the
      rows that an update counts) and the operations of \<open>internal/store\<close>.
      \<open>StoreInvariant\<close> and \<open>StoreCommit\<close> hold what they keep and what they do.
    \<^item> \<open>Hubs\<close>: the broadcast hubs of the status board and the in-app notifier, with bounded
      buffers. \<open>Registry\<close>: \<open>monitor/registry.go\<close>. \<open>Gate\<close>: the execution gate of
      \<open>monitor/remote.go\<close> as interleaved atomic steps.
    \<^item> \<open>Edges\<close>: the contract of whatever turns verdicts into events, as a locale; the trend
      rules (\<open>StatusService\<close>) and the condition of a monitor (\<open>Runner\<close>) are its interpretations.
    \<^item> \<open>StatusService\<close>: \<open>statusboard/service.go\<close>. \<open>Summary\<close>: \<open>runtime/summary.go\<close>.
    \<^item> \<open>Runner\<close>: a run and the delivery of notifications, \<open>runtime/runtime.go\<close> up to line 357.
    \<^item> \<open>Schedules\<close> and \<open>Scheduler\<close>: the rest of that file: the next times of cron expressions,
      their texts, one poll (\<open>syncAndRun\<close>), and the goroutines that run what is due, as a
      step relation over all interleavings with the locks of the monitors.
    \<^item> \<open>Auth\<close>: \<open>internal/auth\<close>: key hashes, sessions, access tokens.
    \<^item> \<open>BrowserLink\<close>, \<open>BrowserManager\<close>, \<open>BrowserActions\<close>: \<open>internal/browser\<close>. A connection to a
      browser extension as interleaved atomic steps of its callers, its read loop and its
      closing; the manager with its pairing token, agents and network captures; the actions
      of \<open>actions.go\<close> and \<open>action_*.go\<close> with their normalisation and validation.
    \<^item> \<open>PluginPackage\<close>: \<open>plugin/archive.go\<close>, \<open>manifest.go\<close>, \<open>runtime.go\<close>, \<open>signature.go\<close>: unpacking
      into a tree of files, valid manifests, the command of a plugin, the signed bytes.
      \<open>PluginManager\<close>: activation, deactivation, removal, trust and restarts of
      \<open>plugin/manager.go\<close> over the store, the registry and the processes. \<open>PluginImport\<close>: the
      rest of that file, from a package to an installation: import, inbox, official and
      development plugins.
    \<^item> \<open>RuntimeConfig\<close>: \<open>app/runtime_config.go\<close>, \<open>runtimeconfig/config.go\<close>, \<open>runtime/cleanup.go\<close>,
      with Go's durations in \<open>GoDuration\<close>. \<open>RuntimeManager\<close>: the manager against its rows.
    \<^item> \<open>ConfigTransfer\<close>: \<open>api/config_transfer.go\<close>, export, preview and import of the
      configuration as a bundle.

  What comes from outside the repository is an argument: the database engine (which
  statements fail, \<open>LIKE\<close>), Go's regular expressions, the cron parser and the time zones,
  cryptographic functions, clocks, random bytes, the modules and the notifiers, the readers
  of zip, tar, YAML and URLs, the paths the operating system accepts, and what a plugin
  process answers when it is started. Laws about
  them are hypotheses of the theorems that need them.

  Groups of results: the store keeps its invariant in every reachable state and a commit has
  exactly the effects of its parts; records come back as they were stored; pages partition
  the records; events of conditions and trend rules alternate; every slot of a schedule is
  served by exactly one poll, a monitor runs once at a time and within the limit; sessions
  and tokens live and die as they should; registries isolate owners; hubs deliver in order;
  a response of the browser reaches the call that asked for it, and network data only the
  plugin that captures it; an archive is unpacked below its directory and within its limit,
  a package is verified only by a trusted signature, only the binary of the manifest is
  installed, a failed activation leaves what runs alone, and no plugin process is lost; the
  runtime configuration is always valid, the components follow it, and a restart finds it; an export can be
  imported, an import leaves nothing dangling and does what its preview announced.
  Some results state what the code does against its intention: they are listed in the
  manifest as findings.

  Bounds and fuel: \<open>runes\<close> takes one step per byte at most, so its fuel is the length of the
  string; other recursions are structural or proved to end (\<open>fields\<close>, \<open>int_digits\<close>,
  \<open>free_mcp_name\<close>). Machine integers: \<open>int64\<close> results of modules and durations are \<open>int\<close>
  values that no operation of the code can bring out of range; floating point is rounded
  after every operation as the code does.

  Not modelled: the HTTP handlers and the MCP server (request decoding and routing around the
  modelled services), the WebSocket upgrade, heartbeat and request routing of the browser
  bridge, the texts of its form descriptors, the file watcher and timers of the plugin
  manager (their handlers are modelled), the plugin SDK and the network plugins, SMTP and
  webhook transport, logging, the configuration file, the web interface. Unicode case folding beyond
  ASCII is left out, as is sharing of Go maps except where \<open>Runner\<close> says so.
\<close>

end
